(* ===== verification/Go_Prelude.thy ===== *)
theory Go_Prelude
  imports Main "HOL-Library.Multiset" "HOL-Library.AList" "HOL-Library.List_Lexorder"
    "HOL-Library.Char_ord"
begin

text \<open>
  Shared ground of the development: what the Go language and its standard library give the
  modelled packages, and the interfaces several components share.

  \<^item> Integers: Go's \<open>int64\<close> (and \<open>int\<close> on the 64-bit targets) are HOL integers; a result that
    can leave the range is brought back by \<open>int64\<close>, two's complement wrap-around.
  \<^item> Instants: a \<open>time.Time\<close> is the number of nanoseconds since the zero time, so \<open>IsZero\<close> is
    equality with \<open>0\<close>; \<open>Before\<close>, \<open>Equal\<close> compare the numbers; \<open>Sub\<close> saturates as Go's does.
  \<^item> Strings: a Go string is a byte sequence; \<open>string\<close> (a list of 8-bit characters) is exactly
    that. UTF-8 decoding, rune counts, \<open>TrimSpace\<close>, \<open>Fields\<close> work on the bytes. The Unicode
    case tables, and SHA-256, are parameters of the definitions that use them.
  \<^item> Maps: a Go map is an association list with distinct keys (\<open>AList.update\<close>, \<open>AList.delete\<close>),
    read with \<open>map_of\<close>. Where the code iterates over a map the components prove that the order
    does not matter.
  \<^item> Sorting: \<open>sort.SliceStable\<close> with a comparison \<open>lt\<close> is stable insertion; the locale
    \<open>strict_weak\<close> states what a comparison has to satisfy and what the result then is.
  \<^item> Errors: a Go pair \<open>(value, error)\<close> is a sum, the error on the left.
\<close>

named_theorems go_defs \<open>definitions of the Go library layer\<close>
named_theorems machine_simps \<open>unfolding rules of the step functions\<close>

type_synonym time = int
type_synonym ('k, 'v) gomap = "('k \<times> 'v) list"

section \<open>Errors\<close>

text \<open>
  \<open>x, err := m; if err != nil { return ..., err }; ...\<close> is \<open>bindE m (\<lambda>x. ...)\<close>; a check that can only
  fail is \<open>checkE\<close>.
\<close>

definition bindE :: "'e + 'a \<Rightarrow> ('a \<Rightarrow> 'e + 'b) \<Rightarrow> 'e + 'b" where
  "bindE m f = (case m of Inl e \<Rightarrow> Inl e | Inr x \<Rightarrow> f x)"

definition checkE :: "'e option \<Rightarrow> 'e + 'b \<Rightarrow> 'e + 'b" where
  "checkE e rest = (case e of Some err \<Rightarrow> Inl err | None \<Rightarrow> rest)"

lemma bindE_simps [simp]: "bindE (Inl e) f = Inl e" "bindE (Inr x) f = f x"
  by (simp_all add: bindE_def)

lemma bindE_Inr [simp]: "bindE m f = Inr y \<longleftrightarrow> (\<exists>x. m = Inr x \<and> f x = Inr y)"
  by (cases m) simp_all

lemma checkE_Inr [simp]: "checkE e rest = Inr y \<longleftrightarrow> e = None \<and> rest = Inr y"
  by (simp add: checkE_def split: option.split)

lemma checkE_simps [simp]: "checkE None rest = rest" "checkE (Some err) rest = Inl err"
  by (simp_all add: checkE_def)

section \<open>Integers and instants\<close>

definition int64 :: "int \<Rightarrow> int" where
  "int64 n = signed_take_bit 63 n"

definition in_int64 :: "int \<Rightarrow> bool" where
  "in_int64 n \<longleftrightarrow> - (2 ^ 63) \<le> n \<and> n < 2 ^ 63"

definition time_sub :: "time \<Rightarrow> time \<Rightarrow> int" where
  "time_sub t u = max (- (2 ^ 63)) (min (2 ^ 63 - 1) (t - u))"

definition nanosecond :: int where "nanosecond = 1"
definition second :: int where "second = 1000000000"
definition minute :: int where "minute = 60 * second"
definition hour :: int where "hour = 60 * minute"

definition trunc_microsecond :: "time \<Rightarrow> time" where
  "trunc_microsecond t = t - t mod 1000"

section \<open>Byte strings and UTF-8\<close>

definition byte :: "char \<Rightarrow> nat" where
  "byte c = of_char c"

definition cont_byte :: "nat \<Rightarrow> bool" where
  "cont_byte b \<longleftrightarrow> 0x80 \<le> b \<and> b \<le> 0xBF"

text \<open>
  \<open>utf8.DecodeRuneInString\<close>: the rune at the front and its width. An ill-formed front is
  \<open>None\<close> with width 1 (Go returns \<open>RuneError\<close>, width 1). Surrogates, overlong forms and values
  above U+10FFFF are ill-formed.
\<close>

fun decode_rune :: "nat list \<Rightarrow> nat option \<times> nat" where
  "decode_rune [] = (None, 0)"
| "decode_rune (b0 # bs) =
    (if b0 < 0x80 then (Some b0, 1)
     else if 0xC2 \<le> b0 \<and> b0 \<le> 0xDF then
       (case bs of
          b1 # _ \<Rightarrow> if cont_byte b1 then (Some ((b0 - 0xC0) * 64 + (b1 - 0x80)), 2) else (None, 1)
        | _ \<Rightarrow> (None, 1))
     else if 0xE0 \<le> b0 \<and> b0 \<le> 0xEF then
       (case bs of
          b1 # b2 # _ \<Rightarrow>
            if (if b0 = 0xE0 then 0xA0 else 0x80) \<le> b1 \<and> b1 \<le> (if b0 = 0xED then 0x9F else 0xBF)
               \<and> cont_byte b2
            then (Some ((b0 - 0xE0) * 4096 + (b1 - 0x80) * 64 + (b2 - 0x80)), 3) else (None, 1)
        | _ \<Rightarrow> (None, 1))
     else if 0xF0 \<le> b0 \<and> b0 \<le> 0xF4 then
       (case bs of
          b1 # b2 # b3 # _ \<Rightarrow>
            if (if b0 = 0xF0 then 0x90 else 0x80) \<le> b1 \<and> b1 \<le> (if b0 = 0xF4 then 0x8F else 0xBF)
               \<and> cont_byte b2 \<and> cont_byte b3
            then (Some ((b0 - 0xF0) * 262144 + (b1 - 0x80) * 4096 + (b2 - 0x80) * 64 + (b3 - 0x80)), 4)
            else (None, 1)
        | _ \<Rightarrow> (None, 1))
     else (None, 1))"

text \<open>
  A string as the sequence of its decoded pieces: the rune (or \<open>None\<close> for an ill-formed byte)
  together with the bytes it was read from. The width of a piece is at least 1, which is what
  makes the loop end.
\<close>

function chunks :: "string \<Rightarrow> (nat option \<times> string) list" where
  "chunks [] = []"
| "chunks (c # cs) =
     (let (r, w) = decode_rune (map byte (c # cs)); n = max 1 w
      in (r, take n (c # cs)) # chunks (drop n (c # cs)))"
  by pat_completeness auto
termination
  by (relation "measure length") auto

definition valid_utf8 :: "string \<Rightarrow> bool" where
  "valid_utf8 s \<longleftrightarrow> (\<forall>p \<in> set (chunks s). fst p \<noteq> None)"

definition rune_count :: "string \<Rightarrow> nat" where
  "rune_count s = length (chunks s)"

definition rune_error :: nat where "rune_error = 0xFFFD"

definition runes :: "string \<Rightarrow> nat list" where
  "runes s = map (\<lambda>p. case fst p of None \<Rightarrow> rune_error | Some r \<Rightarrow> r) (chunks s)"

text \<open>The first \<open>n\<close> runes of a string, as \<open>string([]rune(s)[:n])\<close> computes them.\<close>

definition encode_rune :: "nat \<Rightarrow> string" where
  "encode_rune r =
    (let r = (if r > 0x10FFFF \<or> (0xD800 \<le> r \<and> r \<le> 0xDFFF) then rune_error else r)
     in map char_of
       (if r < 0x80 then [r]
        else if r < 0x800 then [0xC0 + r div 64, 0x80 + r mod 64]
        else if r < 0x10000 then [0xE0 + r div 4096, 0x80 + r div 64 mod 64, 0x80 + r mod 64]
        else [0xF0 + r div 262144, 0x80 + r div 4096 mod 64, 0x80 + r div 64 mod 64, 0x80 + r mod 64]))"

definition string_of_runes :: "nat list \<Rightarrow> string" where
  "string_of_runes rs = concat (map encode_rune rs)"

definition is_space :: "nat option \<Rightarrow> bool" where
  "is_space r = (case r of None \<Rightarrow> False | Some x \<Rightarrow>
     (0x09 \<le> x \<and> x \<le> 0x0D) \<or> x = 0x20 \<or> x = 0x85 \<or> x = 0xA0 \<or> x = 0x1680
     \<or> (0x2000 \<le> x \<and> x \<le> 0x200A) \<or> x = 0x2028 \<or> x = 0x2029 \<or> x = 0x202F \<or> x = 0x205F \<or> x = 0x3000)"

definition trim_space :: "string \<Rightarrow> string" where
  "trim_space s =
     (let space = (\<lambda>p. is_space (fst p))
      in concat (map snd (rev (dropWhile space (rev (dropWhile space (chunks s)))))))"

text \<open>\<open>strings.Fields\<close>: the maximal runs of non-space pieces.\<close>

fun str_fields_loop :: "(nat option \<times> string) list \<Rightarrow> string \<Rightarrow> string list" where
  "str_fields_loop [] acc = (if acc = [] then [] else [acc])"
| "str_fields_loop (p # ps) acc =
     (if is_space (fst p) then (if acc = [] then str_fields_loop ps [] else acc # str_fields_loop ps [])
      else str_fields_loop ps (acc @ snd p))"

definition str_fields :: "string \<Rightarrow> string list" where
  "str_fields s = str_fields_loop (chunks s) []"

fun join :: "string \<Rightarrow> string list \<Rightarrow> string" where
  "join sep [] = []"
| "join sep [x] = x"
| "join sep (x # y # ys) = x @ sep @ join sep (y # ys)"

text \<open>
  \<open>strings.ToLower\<close> and \<open>strings.EqualFold\<close> over a Unicode table: \<open>lower\<close> is
  \<open>unicode.ToLower\<close>, \<open>orbit\<close> maps a rune to the representative of its simple-folding orbit.
\<close>

definition to_lower :: "(nat \<Rightarrow> nat) \<Rightarrow> string \<Rightarrow> string" where
  "to_lower lower s = string_of_runes (map lower (runes s))"

definition equal_fold :: "(nat \<Rightarrow> nat) \<Rightarrow> string \<Rightarrow> string \<Rightarrow> bool" where
  "equal_fold orbit s t \<longleftrightarrow> map orbit (runes s) = map orbit (runes t)"

definition hex_digit :: "nat \<Rightarrow> char" where
  "hex_digit n = (if n < 10 then char_of (48 + n) else char_of (87 + n))"

definition hex_encode :: "string \<Rightarrow> string" where
  "hex_encode bs = concat (map (\<lambda>c. [hex_digit (byte c div 16), hex_digit (byte c mod 16)]) bs)"

text \<open>The verb \<open>%d\<close> of \<open>fmt\<close>.\<close>

fun nat_text :: "nat \<Rightarrow> string" where
  "nat_text n = (if n < 10 then [char_of (48 + n)] else nat_text (n div 10) @ [char_of (48 + n mod 10)])"

definition int_text :: "int \<Rightarrow> string" where
  "int_text i = (if i < 0 then ''-'' @ nat_text (nat (- i)) else nat_text (nat i))"

declare nat_text.simps [simp del]

fun contains_sub :: "string \<Rightarrow> string \<Rightarrow> bool" where
  "contains_sub [] sub = (sub = [])"
| "contains_sub (c # cs) sub = (take (length sub) (c # cs) = sub \<or> contains_sub cs sub)"

section \<open>Library code that stays a parameter\<close>

text \<open>
  The Unicode case tables, SHA-256, the JSON grammar, the UUID package and the time-zone database
  are not modelled: a value of this record stands for them, every definition that needs one takes
  it as an argument, and every theorem holds for all of them unless it names a hypothesis.
\<close>

record golib =
  lib_fold :: "nat \<Rightarrow> nat" \<comment> \<open>representative of a rune's \<open>unicode.SimpleFold\<close> orbit\<close>
  lib_lower :: "nat \<Rightarrow> nat" \<comment> \<open>\<open>unicode.ToLower\<close>\<close>
  lib_sha256 :: "string \<Rightarrow> string" \<comment> \<open>\<open>sha256.Sum256\<close>, the digest's bytes\<close>
  lib_json_valid :: "string \<Rightarrow> bool" \<comment> \<open>\<open>json.Valid\<close>\<close>
  lib_uuid_parse :: "string \<Rightarrow> string option" \<comment> \<open>\<open>uuid.Parse\<close>: the canonical text of the value read\<close>
  lib_timezone :: "string \<Rightarrow> (time \<Rightarrow> int) option" \<comment> \<open>\<open>time.LoadLocation\<close>: the zone offset at an instant\<close>

text \<open>One concrete choice of the parameters, for evaluating the model on examples.\<close>

definition example_lib :: golib where
  "example_lib = \<lparr>lib_fold = (\<lambda>r. if 65 \<le> r \<and> r \<le> 90 then r + 32 else r),
     lib_lower = (\<lambda>r. if 65 \<le> r \<and> r \<le> 90 then r + 32 else r),
     lib_sha256 = (\<lambda>s. s), lib_json_valid = (\<lambda>s. s \<noteq> []), lib_uuid_parse = Some, lib_timezone = (\<lambda>_. Some (\<lambda>_. 0))\<rparr>"

section \<open>Maps and sorting\<close>

definition mem_key :: "'k \<Rightarrow> ('k, bool) gomap \<Rightarrow> bool" where
  "mem_key k m \<longleftrightarrow> map_of m k = Some True"

text \<open>
  Index a slice by a key, as the validators do: an element the caller finds bad, or a key that
  is already present, refuses the whole slice with the caller's error.
\<close>

fun index_by :: "('a \<Rightarrow> 'k) \<Rightarrow> ('a \<Rightarrow> bool) \<Rightarrow> 'e \<Rightarrow> ('k, 'a) gomap \<Rightarrow> 'a list \<Rightarrow> 'e + ('k, 'a) gomap" where
  "index_by key bad e m [] = Inr m"
| "index_by key bad e m (x # xs) =
     (if bad x \<or> map_of m (key x) \<noteq> None then Inl e
      else index_by key bad e (AList.update (key x) x m) xs)"

fun go_insert :: "('a \<Rightarrow> 'a \<Rightarrow> bool) \<Rightarrow> 'a \<Rightarrow> 'a list \<Rightarrow> 'a list" where
  "go_insert lt x [] = [x]"
| "go_insert lt x (y # ys) = (if lt y x then y # go_insert lt x ys else x # y # ys)"

fun go_sort :: "('a \<Rightarrow> 'a \<Rightarrow> bool) \<Rightarrow> 'a list \<Rightarrow> 'a list" where
  "go_sort lt [] = []"
| "go_sort lt (x # xs) = go_insert lt x (go_sort lt xs)"

definition sort_strings :: "string list \<Rightarrow> string list" where
  "sort_strings = go_sort (<)"

section \<open>Guarded step functions\<close>

text \<open>
  A component that accepts or refuses a command: a refused command leaves the state, the
  operation is answered with the error and the next command runs from the same state.
\<close>

fun run :: "('s \<Rightarrow> 'c \<Rightarrow> 'e + 's) \<Rightarrow> 's \<Rightarrow> 'c list \<Rightarrow> 's" where
  "run step s [] = s"
| "run step s (c # cs) = (case step s c of Inl _ \<Rightarrow> run step s cs | Inr s' \<Rightarrow> run step s' cs)"

inductive reaches :: "('s \<Rightarrow> 'c \<Rightarrow> 'e + 's) \<Rightarrow> 's \<Rightarrow> 's \<Rightarrow> bool" for step where
  refl: "reaches step s s"
| step: "reaches step s t \<Longrightarrow> step t c = Inr u \<Longrightarrow> reaches step s u"

locale guarded_machine =
  fixes step :: "'s \<Rightarrow> 'c \<Rightarrow> 'e + 's"
    and inv :: "'s \<Rightarrow> bool"
  assumes step_inv: "inv s \<Longrightarrow> step s c = Inr t \<Longrightarrow> inv t"
begin

lemma run_inv: "inv s \<Longrightarrow> inv (run step s cs)"
  by (induction cs arbitrary: s) (auto split: sum.split intro: step_inv)

lemma reaches_inv: "reaches step s t \<Longrightarrow> inv s \<Longrightarrow> inv t"
  by (induction rule: reaches.induct) (auto intro: step_inv)

end

text \<open>What a run does is reachable; the two views of an execution agree.\<close>

lemma reaches_trans: "reaches step t u \<Longrightarrow> reaches step s t \<Longrightarrow> reaches step s u"
  by (induction rule: reaches.induct) (auto intro: reaches.step)

lemma run_reaches: "reaches step s (run step s cs)"
proof (induction cs arbitrary: s)
  case Nil
  show ?case by (simp add: reaches.refl)
next
  case (Cons c cs)
  then show ?case
    by (auto split: sum.split intro: reaches_trans reaches.step [OF reaches.refl])
qed

section \<open>Lemmas on integers and instants\<close>

lemma int64_id [simp]: "in_int64 n \<Longrightarrow> int64 n = n"
  by (simp add: int64_def in_int64_def signed_take_bit_int_eq_self)

lemma int64_range: "in_int64 (int64 n)"
  using signed_take_bit_int_greater_eq_minus_exp [of 63 n] signed_take_bit_int_less_exp [of 63 n]
  by (simp add: in_int64_def int64_def)

lemma time_sub_ge: "d < 2 ^ 63 \<Longrightarrow> - (2 ^ 63) < d \<Longrightarrow> d \<le> time_sub t u \<longleftrightarrow> d \<le> t - u"
  by (auto simp: time_sub_def)

lemma trunc_microsecond_le: "trunc_microsecond t \<le> t"
  by (simp add: trunc_microsecond_def)

section \<open>Lemmas on maps\<close>

lemma distinct_keys_update: "distinct (map fst m) \<Longrightarrow> distinct (map fst (AList.update k v m))"
  by (rule distinct_update)

lemma map_of_update [simp]: "map_of (AList.update k v m) = (map_of m)(k \<mapsto> v)"
  by (simp add: update_conv')

lemma mem_key_update [simp]: "mem_key x (AList.update k True m) \<longleftrightarrow> x = k \<or> mem_key x m"
  by (simp add: mem_key_def)

lemma mem_key_Nil [simp]: "\<not> mem_key x []"
  by (simp add: mem_key_def)

lemma set_update_subset: "set (AList.update k v m) \<subseteq> insert (k, v) (set m)"
  by (induction m) auto

lemma filter_update:
  "(\<forall>w. map_of m k = Some w \<longrightarrow> \<not> Q (k, w)) \<Longrightarrow> \<not> Q (k, v) \<Longrightarrow> filter Q (AList.update k v m) = filter Q m"
  by (induction m) (auto split: if_splits)

lemma filter_delete:
  "(\<forall>w. map_of m k = Some w \<longrightarrow> \<not> Q (k, w)) \<Longrightarrow> distinct (map fst m) \<Longrightarrow> filter Q (AList.delete k m) = filter Q m"
  by (auto simp: AList.delete_eq intro!: filter_cong)

text \<open>A map that stores every value under the value's own key.\<close>

definition keyed_by :: "('v \<Rightarrow> 'k) \<Rightarrow> ('k, 'v) gomap \<Rightarrow> bool" where
  "keyed_by key m \<longleftrightarrow> distinct (map fst m) \<and> (\<forall>x \<in> set m. fst x = key (snd x))"

lemma keyed_by_Nil [simp]: "keyed_by key []"
  by (simp add: keyed_by_def)

lemma keyed_by_update: "keyed_by key m \<Longrightarrow> k = key v \<Longrightarrow> keyed_by key (AList.update k v m)"
  using set_update_subset [of k v m] by (auto simp: keyed_by_def distinct_update)

lemma keyed_by_delete: "keyed_by key m \<Longrightarrow> keyed_by key (AList.delete k m)"
  using distinct_delete [of m k] by (auto simp: keyed_by_def AList.delete_eq)

lemma set_delete_subset: "set (AList.delete k m) \<subseteq> set m"
  by (auto simp: AList.delete_eq)

lemma keyed_by_lookup: "keyed_by key m \<Longrightarrow> v \<in> snd ` set m \<Longrightarrow> map_of m (key v) = Some v"
  by (force simp: keyed_by_def)

lemma keyed_by_inj: "keyed_by key m \<Longrightarrow> distinct (map (key \<circ> snd) m)"
  unfolding keyed_by_def by (metis (mono_tags, lifting) comp_apply map_eq_conv)

lemma update_fresh: "k \<notin> fst ` set m \<Longrightarrow> AList.update k v m = m @ [(k, v)]"
  by (induction m) auto

lemma index_by_Inr:
  "index_by key bad e m xs = Inr m' \<longleftrightarrow>
     m' = m @ map (\<lambda>x. (key x, x)) xs \<and> distinct (map key xs)
     \<and> fst ` set m \<inter> key ` set xs = {} \<and> (\<forall>x \<in> set xs. \<not> bad x)"
proof (induction xs arbitrary: m)
  case Nil
  then show ?case by auto
next
  case (Cons x xs)
  show ?case
    by (cases "map_of m (key x) = None")
       (auto simp: Cons.IH update_fresh map_of_eq_None_iff)
qed

lemma index_by_lookup:
  assumes "index_by key bad e [] xs = Inr m" and "map_of m k = Some x"
  shows "x \<in> set xs \<and> key x = k"
  using assms map_of_SomeD [OF assms(2)] by (auto simp: index_by_Inr)

lemma index_by_dom:
  "index_by key bad e [] xs = Inr m \<Longrightarrow> map_of m k = None \<longleftrightarrow> k \<notin> key ` set xs"
  by (auto simp: index_by_Inr map_of_eq_None_iff image_image)

section \<open>Lemmas on sorting\<close>

lemma mset_go_insert [simp]: "mset (go_insert lt x ys) = add_mset x (mset ys)"
  by (induction ys) auto

lemma mset_go_sort [simp]: "mset (go_sort lt xs) = mset xs"
  by (induction xs) auto

lemma set_go_sort [simp]: "set (go_sort lt xs) = set xs"
  by (metis mset_go_sort set_mset_mset)

lemma length_go_sort [simp]: "length (go_sort lt xs) = length xs"
  by (metis mset_go_sort size_mset)

lemma set_go_insert [simp]: "set (go_insert lt x ys) = insert x (set ys)"
  by (induction ys) auto

lemma go_sort_eq_Nil [simp]: "go_sort lt xs = [] \<longleftrightarrow> xs = []"
  by (metis length_0_conv length_go_sort)

lemma go_insert_snoc: "\<not> lt e x \<Longrightarrow> go_insert lt x (ys @ [e]) = go_insert lt x ys @ [e]"
  by (induction ys) auto

lemma go_sort_snoc: "(\<And>x. x \<in> set xs \<Longrightarrow> \<not> lt e x) \<Longrightarrow> go_sort lt (xs @ [e]) = go_sort lt xs @ [e]"
  by (induction xs) (auto simp: go_insert_snoc)

lemma mset_concat_map: "mset (concat (map f xs)) = sum_mset (image_mset (\<lambda>x. mset (f x)) (mset xs))"
  by (induction xs) auto

text \<open>
  A comparison function as \<open>sort.SliceStable\<close> requires it: a strict weak ordering. The result
  is then sorted, a permutation, and stable; when inequivalent elements are all the list has,
  the result depends on the elements alone and not on the order they came in.
\<close>

locale strict_weak =
  fixes lt :: "'a \<Rightarrow> 'a \<Rightarrow> bool"
  assumes irrefl: "\<not> lt x x"
    and trans: "lt x y \<Longrightarrow> lt y z \<Longrightarrow> lt x z"
    and neg_trans: "lt x z \<Longrightarrow> lt x y \<or> lt y z"
begin

lemma asym: "lt x y \<Longrightarrow> \<not> lt y x"
  using irrefl trans by blast

lemma go_insert_sorted:
  "sorted_wrt (\<lambda>x y. \<not> lt y x) ys \<Longrightarrow> sorted_wrt (\<lambda>x y. \<not> lt y x) (go_insert lt x ys)"
proof (induction ys)
  case Nil
  then show ?case by simp
next
  case (Cons y ys)
  then show ?case
    using asym neg_trans by (auto; blast)
qed

lemma go_sort_sorted: "sorted_wrt (\<lambda>x y. \<not> lt y x) (go_sort lt xs)"
  by (induction xs) (auto intro: go_insert_sorted)

lemma go_insert_filter:
  assumes "\<And>u v. u \<in> insert x (set ys) \<Longrightarrow> v \<in> insert x (set ys) \<Longrightarrow> P u \<Longrightarrow> P v \<Longrightarrow> \<not> lt u v"
  shows "filter P (go_insert lt x ys) = (if P x then x # filter P ys else filter P ys)"
  using assms
proof (induction ys)
  case Nil
  then show ?case by simp
next
  case (Cons y ys)
  have IH: "filter P (go_insert lt x ys) = (if P x then x # filter P ys else filter P ys)"
    using Cons.prems by (intro Cons.IH) auto
  have "P x \<Longrightarrow> P y \<Longrightarrow> \<not> lt y x"
    using Cons.prems [of y x] by simp
  with IH show ?case by auto
qed

lemma go_sort_stable:
  "(\<And>u v. u \<in> set xs \<Longrightarrow> v \<in> set xs \<Longrightarrow> P u \<Longrightarrow> P v \<Longrightarrow> \<not> lt u v) \<Longrightarrow>
   filter P (go_sort lt xs) = filter P xs"
proof (induction xs)
  case Nil
  then show ?case by simp
next
  case (Cons x xs)
  have "filter P (go_insert lt x (go_sort lt xs)) =
      (if P x then x # filter P (go_sort lt xs) else filter P (go_sort lt xs))"
    using Cons.prems by (intro go_insert_filter) auto
  with Cons show ?case by auto
qed

lemma sorted_unique:
  assumes "sorted_wrt (\<lambda>x y. \<not> lt y x) xs" and "sorted_wrt (\<lambda>x y. \<not> lt y x) ys"
    and "mset xs = mset ys"
    and "\<And>u v. u \<in> set xs \<Longrightarrow> v \<in> set xs \<Longrightarrow> u \<noteq> v \<Longrightarrow> lt u v \<or> lt v u"
  shows "xs = ys"
  using assms
proof (induction xs arbitrary: ys)
  case Nil
  then show ?case by simp
next
  case (Cons x xs)
  then obtain y ys' where ys: "ys = y # ys'" by (cases ys) auto
  from Cons.prems(3) have seteq: "set (x # xs) = set ys"
    by (metis set_mset_mset)
  have "\<not> lt y x"
    using Cons.prems(1) seteq ys irrefl by (metis list.set_intros(1) set_ConsD sorted_wrt.simps(2))
  moreover have "\<not> lt x y"
    using Cons.prems(2) seteq ys irrefl by (metis list.set_intros(1) set_ConsD sorted_wrt.simps(2))
  ultimately have xy: "x = y"
    using Cons.prems(4) [of x y] seteq ys by (metis list.set_intros(1))
  have "xs = ys'"
    using Cons.prems ys xy by (intro Cons.IH) auto
  with xy ys show ?case by simp
qed

text \<open>Any other correct sort returns the same list: the model does not fix an implementation.\<close>

lemma go_sort_unique:
  assumes "mset xs = mset ys"
    and "\<And>u v. u \<in> set xs \<Longrightarrow> v \<in> set xs \<Longrightarrow> u \<noteq> v \<Longrightarrow> lt u v \<or> lt v u"
  shows "go_sort lt xs = go_sort lt ys"
  using assms by (intro sorted_unique go_sort_sorted) auto

end

interpretation string_order: strict_weak "(<) :: string \<Rightarrow> string \<Rightarrow> bool"
  by unfold_locales auto

lemma sort_strings_sorted: "sorted (sort_strings xs)"
proof -
  have "sorted_wrt (\<lambda>x y. \<not> y < x) (sort_strings xs)"
    unfolding sort_strings_def by (rule string_order.go_sort_sorted)
  then show ?thesis
    by (simp add: not_less)
qed

lemma mset_sort_strings [simp]: "mset (sort_strings xs) = mset xs"
  by (simp add: sort_strings_def)

lemma set_sort_strings [simp]: "set (sort_strings xs) = set xs"
  by (simp add: sort_strings_def)

lemma sort_strings_eq_Nil [simp]: "sort_strings xs = [] \<longleftrightarrow> xs = []"
  by (simp add: sort_strings_def)

lemma sort_strings_perm: "mset xs = mset ys \<Longrightarrow> sort_strings xs = sort_strings ys"
  unfolding sort_strings_def by (rule string_order.go_sort_unique) auto

section \<open>Lemmas on byte strings\<close>

lemma concat_chunks: "concat (map snd (chunks s)) = s"
proof (induction s rule: chunks.induct)
  case 1
  show ?case by simp
next
  case (2 c cs)
  obtain r w where d: "decode_rune (map byte (c # cs)) = (r, w)"
    by (cases "decode_rune (map byte (c # cs))")
  have "concat (map snd (chunks (drop (max 1 w) (c # cs)))) = drop (max 1 w) (c # cs)"
    by (rule "2.IH" [OF d [symmetric] HOL.refl HOL.refl])
  then show ?case
    by (simp only: chunks.simps d [unfolded list.map] Let_def prod.case list.map concat.simps snd_conv
        append_take_drop_id)
qed

lemma chunks_eq_Nil [simp]: "chunks s = [] \<longleftrightarrow> s = []"
  by (cases s) (simp_all add: Let_def split_beta del: decode_rune.simps)

lemma trim_space_Nil [simp]: "trim_space [] = []"
  by (simp add: trim_space_def)

lemma length_hex_encode: "length (hex_encode bs) = 2 * length bs"
  by (induction bs) (auto simp: hex_encode_def)

end
