(* ===== verification/Tutoring.thy ===== *)
theory Tutoring
  imports Go_Prelude
begin

text \<open>
  The tutoring state machine, \<open>server/internal/tutoring/state.go\<close> and \<open>records.go\<close>: the session
  record, the focus frame that suspends a lesson while a free question is answered, and \<open>Apply\<close>,
  which accepts or refuses one action. Strings with a closed vocabulary are datatypes with one
  constructor per constant of the source and one for any other text; \<open>state_text\<close> and
  \<open>parse_state\<close> are the string conversion. The event names a transition lists are the
  \<open>EventType\<close> constants of \<open>learning/event.go\<close>, which the tutoring package writes as literals.

  The lemmas: an exact table of what is accepted, the session invariant and its preservation, the
  finality of a completed session, and the round trip of a suspended focus.
\<close>

section \<open>States, actions, event names\<close>

datatype State =
    StateIdle | StateGoalReady | StateDiagnostic | StateRouteActive | StateActivityIssued
  | StateAwaitingResponse | StateEvaluating | StateFeedback | StateAdvanceOrReview | StateCompleted
  | StateFocusSuspended | StateFreeQuestion | StateFreeAnswer | StateFocusResumed
  | StateUnset \<comment> \<open>the empty string\<close>
  | StateUnknown string \<comment> \<open>any other text\<close>

fun state_text :: "State \<Rightarrow> string" where
  "state_text StateIdle = ''Idle''"
| "state_text StateGoalReady = ''GoalReady''"
| "state_text StateDiagnostic = ''Diagnostic''"
| "state_text StateRouteActive = ''RouteActive''"
| "state_text StateActivityIssued = ''ActivityIssued''"
| "state_text StateAwaitingResponse = ''AwaitingResponse''"
| "state_text StateEvaluating = ''Evaluating''"
| "state_text StateFeedback = ''Feedback''"
| "state_text StateAdvanceOrReview = ''AdvanceOrReview''"
| "state_text StateCompleted = ''Completed''"
| "state_text StateFocusSuspended = ''FocusSuspended''"
| "state_text StateFreeQuestion = ''FreeQuestion''"
| "state_text StateFreeAnswer = ''FreeAnswer''"
| "state_text StateFocusResumed = ''FocusResumed''"
| "state_text StateUnset = ''''"
| "state_text (StateUnknown t) = t"

definition named_states :: "State list" where
  "named_states =
    [StateIdle, StateGoalReady, StateDiagnostic, StateRouteActive, StateActivityIssued,
     StateAwaitingResponse, StateEvaluating, StateFeedback, StateAdvanceOrReview, StateCompleted,
     StateFocusSuspended, StateFreeQuestion, StateFreeAnswer, StateFocusResumed, StateUnset]"

definition parse_state :: "string \<Rightarrow> State" where
  "parse_state t = (case find (\<lambda>s. state_text s = t) named_states of Some s \<Rightarrow> s | None \<Rightarrow> StateUnknown t)"

datatype Action =
    ActionCreateSession | ActionStartDiagnostic | ActionApplyRoute | ActionIssueActivity
  | ActionPresentActivity | ActionSubmitAttempt | ActionRecordAssessment | ActionAcknowledgeFeedback
  | ActionPresentReview | ActionRecordExposure | ActionAskFreeQuestion | ActionRecordFreeAnswer
  | ActionConvertFreeAnswerToQuiz | ActionResumeFocus | ActionEndActivity | ActionSwitchGoal
  | ActionCompleteSession
  | ActionUnknown string \<comment> \<open>any other text\<close>

fun action_text :: "Action \<Rightarrow> string" where
  "action_text ActionCreateSession = ''create_session''"
| "action_text ActionStartDiagnostic = ''start_diagnostic''"
| "action_text ActionApplyRoute = ''apply_route''"
| "action_text ActionIssueActivity = ''issue_activity''"
| "action_text ActionPresentActivity = ''present_activity''"
| "action_text ActionSubmitAttempt = ''submit_attempt''"
| "action_text ActionRecordAssessment = ''record_assessment''"
| "action_text ActionAcknowledgeFeedback = ''acknowledge_feedback''"
| "action_text ActionPresentReview = ''present_review''"
| "action_text ActionRecordExposure = ''record_exposure''"
| "action_text ActionAskFreeQuestion = ''ask_free_question''"
| "action_text ActionRecordFreeAnswer = ''record_free_answer''"
| "action_text ActionConvertFreeAnswerToQuiz = ''convert_free_answer_to_quiz''"
| "action_text ActionResumeFocus = ''resume_focus''"
| "action_text ActionEndActivity = ''end_activity''"
| "action_text ActionSwitchGoal = ''switch_goal''"
| "action_text ActionCompleteSession = ''complete_session''"
| "action_text (ActionUnknown t) = t"

datatype EventType =
    EventGoalRevisionCreated | EventRouteRevisionCreated | EventLearningSessionStarted
  | EventTutoringStateChanged | EventActivityIssued | EventActivityPresented | EventAttemptSubmitted
  | EventAssessmentRecorded | EventAssessmentMarkedProvisional | EventAssessmentAccepted
  | EventAssessmentOverridden | EventAssessmentVoided | EventEvidenceAccepted
  | EventEvidenceInvalidated | EventExposureRecorded | EventReviewPresented | EventFocusSuspended
  | EventFreeQuestionAsked | EventFreeAnswerRecorded | EventFocusResumed | EventRouteAdvanced
  | EventLearningCompleted | EventMisconceptionHypothesisRevised | EventOfflineActivityMaterialized
  | EventOfflineAttemptSubmitted | EventOfflineActivitySkipped | EventOfflineAssessmentQueued
  | EventOfflineOperationRejected | EventEvidenceCarryoverApproved | EventEvidenceCarryoverRejected
  | EventEvidenceCarryoverStaled | EventRedacted
  | EventActivityEnded \<comment> \<open>named by the tutoring package only\<close>
  | EventUnknown string

datatype tutoring_error =
    ErrInvalidTransition Action State
  | ErrFocusFrameInvalid
  | ErrFocusFrameExists
  | ErrSessionOwnership

text \<open>\<open>Error()\<close> of the values above; the first is built with \<open>%w: action=%s state=%s\<close>.\<close>

fun tutoring_error_text :: "tutoring_error \<Rightarrow> string" where
  "tutoring_error_text (ErrInvalidTransition a s) =
     ''invalid transition: action='' @ action_text a @ '' state='' @ state_text s"
| "tutoring_error_text ErrFocusFrameInvalid = ''focus frame invalidated''"
| "tutoring_error_text ErrFocusFrameExists = ''active focus frame already exists''"
| "tutoring_error_text ErrSessionOwnership = ''session ownership conflict''"

section \<open>Records\<close>

record FocusContext =
  ctx_GoalRevisionID :: string
  ctx_RouteRevisionID :: string
  ctx_RouteStepID :: string
  ctx_KnowledgeRevisionID :: string
  ctx_FocusNodeRevisionID :: string
  ctx_ActivityID :: "string option"
  ctx_AttemptID :: "string option"

definition empty_context :: FocusContext where
  "empty_context = \<lparr>ctx_GoalRevisionID = [], ctx_RouteRevisionID = [], ctx_RouteStepID = [],
     ctx_KnowledgeRevisionID = [], ctx_FocusNodeRevisionID = [], ctx_ActivityID = None,
     ctx_AttemptID = None\<rparr>"

record FocusFrame =
  frame_ID :: string
  frame_SessionID :: string
  frame_SavedState :: State
  frame_Context :: FocusContext
  frame_SavedAggregateVersion :: int
  frame_CreatedEventSequence :: int
  frame_Invalidated :: bool
  frame_InvalidationReason :: string

record Session =
  sess_ID :: string
  sess_State :: State
  sess_AggregateVer :: int
  sess_Context :: FocusContext
  sess_ActiveFrame :: "FocusFrame option"
  sess_FocusFrameInvalidated :: bool
  sess_AttachedQuiz :: bool
  sess_CompletedRoute :: bool

definition empty_session :: Session where
  "empty_session = \<lparr>sess_ID = [], sess_State = StateUnset, sess_AggregateVer = 0,
     sess_Context = empty_context, sess_ActiveFrame = None, sess_FocusFrameInvalidated = False,
     sess_AttachedQuiz = False, sess_CompletedRoute = False\<rparr>"

record Command =
  cmd_Action :: Action
  cmd_SessionID :: string
  cmd_FrameID :: string
  cmd_CreatedEventSequence :: int
  cmd_Complete :: bool
  cmd_Context :: "FocusContext option"

record Transition =
  tr_Before :: State
  tr_Intermediate :: "State list"
  tr_After :: State
  tr_Events :: "EventType list"
  tr_Session :: Session

record FrozenReference =
  frozen_KnowledgeRevisionID :: string
  frozen_NodeID :: string
  frozen_NodeRevisionID :: string
  frozen_DocumentRevisionID :: string
  frozen_Start :: int
  frozen_End :: int
  frozen_Slice :: string
  frozen_SliceSHA256 :: string

record FreeQuestion =
  fq_ID :: string
  fq_SessionID :: string
  fq_FocusFrameID :: string
  fq_SessionAggregateVer :: int
  fq_Text :: string
  fq_KnowledgeRevisionID :: string
  fq_References :: "FrozenReference list"
  fq_ActorDeviceID :: string
  fq_OccurredAt :: "time option"
  fq_ReceivedAt :: time

record FreeAnswer =
  fa_ID :: string
  fa_SessionID :: string
  fa_FocusFrameID :: string
  fa_FreeQuestionID :: string
  fa_Text :: string
  fa_KnowledgeRevisionID :: string
  fa_References :: "FrozenReference list"
  fa_SourceProposalID :: string
  fa_ReceivedAt :: time

section \<open>Operations\<close>

text \<open>
  \<open>cloneContext\<close> copies the two pointers so that the result shares nothing with its argument; on
  values that is the context itself, rebuilt field by field.
\<close>

definition cloneString :: "string option \<Rightarrow> string option" where
  "cloneString v = (case v of None \<Rightarrow> None | Some s \<Rightarrow> Some s)"

definition cloneContext :: "FocusContext \<Rightarrow> FocusContext" where
  "cloneContext v = v\<lparr>ctx_ActivityID := cloneString (ctx_ActivityID v),
     ctx_AttemptID := cloneString (ctx_AttemptID v)\<rparr>"

definition clearActivity :: "FocusContext \<Rightarrow> FocusContext" where
  "clearActivity c = c\<lparr>ctx_ActivityID := None, ctx_AttemptID := None\<rparr>"

definition invalidateFrame :: "Session \<Rightarrow> string \<Rightarrow> Session" where
  "invalidateFrame s reason =
     (case sess_ActiveFrame s of
        None \<Rightarrow> s
      | Some f \<Rightarrow> s\<lparr>sess_ActiveFrame := Some (f\<lparr>frame_Invalidated := True, frame_InvalidationReason := reason\<rparr>)\<rparr>)"

definition HasAdaptiveFocus :: "Session \<Rightarrow> bool" where
  "HasAdaptiveFocus s =
     (case sess_ActiveFrame s of
        None \<Rightarrow> False
      | Some f \<Rightarrow> \<not> frame_Invalidated f \<and> \<not> sess_AttachedQuiz s
          \<and> ctx_RouteRevisionID (frame_Context f) \<noteq> ctx_RouteRevisionID (sess_Context s))"

text \<open>
  The closure \<open>set\<close> of \<open>Apply\<close>: it closes the transition whose session the action may already
  have changed, and installs the command's context when there is one.
\<close>

definition set_state :: "Command \<Rightarrow> Transition \<Rightarrow> State \<Rightarrow> EventType list \<Rightarrow> tutoring_error + Transition" where
  "set_state command tr after events =
     (let session = (tr_Session tr)\<lparr>sess_State := after\<rparr>;
          session = (case cmd_Context command of None \<Rightarrow> session
                     | Some c \<Rightarrow> session\<lparr>sess_Context := cloneContext c\<rparr>)
      in Inr (tr\<lparr>tr_After := after, tr_Events := events, tr_Session := session\<rparr>))"

definition live_frame :: "Session \<Rightarrow> bool" where
  "live_frame s = (case sess_ActiveFrame s of None \<Rightarrow> False | Some f \<Rightarrow> \<not> frame_Invalidated f)"

definition apply_switch :: "Session \<Rightarrow> Command \<Rightarrow> tutoring_error + Transition" where
  "apply_switch input command =
    (let before = sess_State input;
         tr = \<lparr>tr_Before = before, tr_Intermediate = [], tr_After = StateUnset, tr_Events = [], tr_Session = input\<rparr>;
         detach = tr\<lparr>tr_Session := input\<lparr>sess_AttachedQuiz := False\<rparr>\<rparr>;
         invalid = Inl (ErrInvalidTransition (cmd_Action command) before)
     in case cmd_Action command of
       ActionCreateSession \<Rightarrow>
         if before \<noteq> StateIdle then invalid
         else set_state command tr StateGoalReady [EventLearningSessionStarted, EventTutoringStateChanged]
     | ActionStartDiagnostic \<Rightarrow>
         if before \<noteq> StateGoalReady then invalid
         else set_state command tr StateDiagnostic [EventTutoringStateChanged]
     | ActionApplyRoute \<Rightarrow>
         if before \<noteq> StateGoalReady \<and> before \<noteq> StateDiagnostic \<and> before \<noteq> StateRouteActive then invalid
         else set_state command tr StateRouteActive [EventRouteRevisionCreated, EventTutoringStateChanged]
     | ActionIssueActivity \<Rightarrow>
         if before \<noteq> StateRouteActive then invalid
         else set_state command detach StateActivityIssued [EventActivityIssued, EventTutoringStateChanged]
     | ActionPresentReview \<Rightarrow>
         if before \<noteq> StateRouteActive then invalid
         else set_state command detach StateActivityIssued
                [EventReviewPresented, EventActivityIssued, EventTutoringStateChanged]
     | ActionPresentActivity \<Rightarrow>
         if before \<noteq> StateActivityIssued then invalid
         else set_state command tr StateAwaitingResponse [EventActivityPresented, EventTutoringStateChanged]
     | ActionSubmitAttempt \<Rightarrow>
         if before \<noteq> StateAwaitingResponse then invalid
         else set_state command tr StateEvaluating [EventAttemptSubmitted, EventTutoringStateChanged]
     | ActionRecordAssessment \<Rightarrow>
         if before \<noteq> StateEvaluating then invalid
         else set_state command tr StateFeedback [EventAssessmentRecorded, EventTutoringStateChanged]
     | ActionAcknowledgeFeedback \<Rightarrow>
         if before \<noteq> StateFeedback then invalid
         else
           (let tr = tr\<lparr>tr_Intermediate := [StateAdvanceOrReview]\<rparr>;
                advance =
                  (if cmd_Complete command \<or> sess_CompletedRoute input
                   then set_state command tr StateCompleted
                          [EventTutoringStateChanged, EventTutoringStateChanged, EventLearningCompleted]
                   else set_state command tr StateRouteActive
                          [EventTutoringStateChanged, EventRouteAdvanced, EventTutoringStateChanged])
            in case sess_ActiveFrame input of
                 None \<Rightarrow> advance
               | Some f \<Rightarrow>
                   if sess_AttachedQuiz input \<and> \<not> frame_Invalidated f
                   then set_state command
                          (tr\<lparr>tr_Session := input\<lparr>sess_AttachedQuiz := False,
                                sess_Context := cloneContext (frame_Context f)\<rparr>\<rparr>)
                          StateFreeAnswer [EventTutoringStateChanged, EventTutoringStateChanged]
                   else advance)
     | ActionRecordExposure \<Rightarrow>
         if before \<noteq> StateRouteActive then invalid
         else set_state command tr StateRouteActive [EventExposureRecorded]
     | ActionAskFreeQuestion \<Rightarrow>
         if before = StateFreeAnswer then
           (if \<not> live_frame input then Inl ErrFocusFrameInvalid
            else set_state command tr StateFreeQuestion [EventFreeQuestionAsked, EventTutoringStateChanged])
         else if before \<noteq> StateRouteActive \<and> before \<noteq> StateActivityIssued \<and> before \<noteq> StateAwaitingResponse
           then invalid
         else if live_frame input then Inl ErrFocusFrameExists
         else
           (let frame = \<lparr>frame_ID = cmd_FrameID command, frame_SessionID = sess_ID input,
                  frame_SavedState = before, frame_Context = cloneContext (sess_Context input),
                  frame_SavedAggregateVersion = sess_AggregateVer input,
                  frame_CreatedEventSequence = cmd_CreatedEventSequence command,
                  frame_Invalidated = False, frame_InvalidationReason = []\<rparr>
            in set_state command
                 (tr\<lparr>tr_Session := input\<lparr>sess_ActiveFrame := Some frame\<rparr>,
                     tr_Intermediate := [StateFocusSuspended]\<rparr>)
                 StateFreeQuestion [EventFocusSuspended, EventFreeQuestionAsked, EventTutoringStateChanged])
     | ActionRecordFreeAnswer \<Rightarrow>
         if before \<noteq> StateFreeQuestion then invalid
         else set_state command tr StateFreeAnswer
                [EventFreeAnswerRecorded, EventExposureRecorded, EventTutoringStateChanged]
     | ActionResumeFocus \<Rightarrow>
         if sess_FocusFrameInvalidated input \<or> (\<exists>f \<in> set_option (sess_ActiveFrame input). frame_Invalidated f)
           then Inl ErrFocusFrameInvalid
         else if before \<noteq> StateFreeQuestion \<and> before \<noteq> StateFreeAnswer then invalid
         else
           (case sess_ActiveFrame input of
              None \<Rightarrow> Inl ErrFocusFrameInvalid
            | Some frame \<Rightarrow>
                Inr (tr\<lparr>tr_Intermediate := [StateFocusResumed],
                  tr_Session := input\<lparr>sess_Context := cloneContext (frame_Context frame),
                    sess_ActiveFrame := None, sess_State := frame_SavedState frame\<rparr>,
                  tr_After := frame_SavedState frame,
                  tr_Events := [EventFocusResumed, EventTutoringStateChanged]\<rparr>))
     | ActionConvertFreeAnswerToQuiz \<Rightarrow>
         if before \<noteq> StateFreeAnswer \<or> \<not> live_frame input then invalid
         else set_state command (tr\<lparr>tr_Session := input\<lparr>sess_AttachedQuiz := True\<rparr>\<rparr>) StateActivityIssued
                [EventActivityIssued, EventTutoringStateChanged]
     | ActionEndActivity \<Rightarrow>
         if before \<noteq> StateActivityIssued \<and> before \<noteq> StateAwaitingResponse \<and> before \<noteq> StateEvaluating
            \<and> before \<noteq> StateFeedback then invalid
         else
           (let s = (if \<not> HasAdaptiveFocus input then invalidateFrame input ''end_activity'' else input);
                s = s\<lparr>sess_AttachedQuiz := False, sess_Context := clearActivity (sess_Context s)\<rparr>
            in set_state command (tr\<lparr>tr_Session := s\<rparr>) StateRouteActive
                 [EventActivityEnded, EventTutoringStateChanged])
     | ActionSwitchGoal \<Rightarrow>
         if before = StateCompleted then invalid
         else
           (let s = invalidateFrame input ''switch_goal'';
                s = s\<lparr>sess_AttachedQuiz := False, sess_Context := clearActivity (sess_Context s)\<rparr>
            in set_state command (tr\<lparr>tr_Session := s\<rparr>) StateGoalReady [EventTutoringStateChanged])
     | ActionCompleteSession \<Rightarrow>
         if before \<noteq> StateRouteActive \<and> before \<noteq> StateAdvanceOrReview then invalid
         else
           (let s = (if \<not> HasAdaptiveFocus input then invalidateFrame input ''complete_session'' else input)
            in set_state command (tr\<lparr>tr_Session := s\<rparr>) StateCompleted
                 [EventLearningCompleted, EventTutoringStateChanged])
     | ActionUnknown _ \<Rightarrow> invalid)"

definition Apply :: "Session \<Rightarrow> Command \<Rightarrow> tutoring_error + Transition" where
  "Apply input command =
    (let input = (if sess_State input = StateUnset then input\<lparr>sess_State := StateIdle\<rparr> else input)
     in if cmd_SessionID command \<noteq> [] \<and> sess_ID input \<noteq> [] \<and> cmd_SessionID command \<noteq> sess_ID input
        then Inl ErrSessionOwnership
        else apply_switch input command)"

text \<open>The machine the service drives: keep the session of an accepted transition.\<close>

definition tutoring_step :: "Session \<Rightarrow> Command \<Rightarrow> tutoring_error + Session" where
  "tutoring_step s c = (case Apply s c of Inl e \<Rightarrow> Inl e | Inr t \<Rightarrow> Inr (tr_Session t))"

section \<open>Reference table and invariant\<close>

text \<open>The states an action is accepted in, read off the documentation of the state machine.\<close>

fun action_sources :: "Action \<Rightarrow> State list" where
  "action_sources ActionCreateSession = [StateIdle]"
| "action_sources ActionStartDiagnostic = [StateGoalReady]"
| "action_sources ActionApplyRoute = [StateGoalReady, StateDiagnostic, StateRouteActive]"
| "action_sources ActionIssueActivity = [StateRouteActive]"
| "action_sources ActionPresentReview = [StateRouteActive]"
| "action_sources ActionRecordExposure = [StateRouteActive]"
| "action_sources ActionPresentActivity = [StateActivityIssued]"
| "action_sources ActionSubmitAttempt = [StateAwaitingResponse]"
| "action_sources ActionRecordAssessment = [StateEvaluating]"
| "action_sources ActionAcknowledgeFeedback = [StateFeedback]"
| "action_sources ActionAskFreeQuestion =
     [StateRouteActive, StateActivityIssued, StateAwaitingResponse, StateFreeAnswer]"
| "action_sources ActionRecordFreeAnswer = [StateFreeQuestion]"
| "action_sources ActionResumeFocus = [StateFreeQuestion, StateFreeAnswer]"
| "action_sources ActionConvertFreeAnswerToQuiz = [StateFreeAnswer]"
| "action_sources ActionEndActivity =
     [StateActivityIssued, StateAwaitingResponse, StateEvaluating, StateFeedback]"
| "action_sources ActionCompleteSession = [StateRouteActive, StateAdvanceOrReview]"
| "action_sources ActionSwitchGoal = []"
| "action_sources (ActionUnknown _) = []"

definition accepts :: "Session \<Rightarrow> Action \<Rightarrow> bool" where
  "accepts s a =
    ((if a = ActionSwitchGoal then sess_State s \<noteq> StateCompleted else sess_State s \<in> set (action_sources a))
     \<and> (a = ActionAskFreeQuestion \<longrightarrow> (live_frame s \<longleftrightarrow> sess_State s = StateFreeAnswer))
     \<and> (a = ActionResumeFocus \<longrightarrow> live_frame s \<and> \<not> sess_FocusFrameInvalidated s)
     \<and> (a = ActionConvertFreeAnswerToQuiz \<longrightarrow> live_frame s))"

fun stable_state :: "State \<Rightarrow> bool" where
  "stable_state StateAdvanceOrReview = False"
| "stable_state StateFocusSuspended = False"
| "stable_state StateFocusResumed = False"
| "stable_state StateUnset = False"
| "stable_state (StateUnknown _) = False"
| "stable_state _ = True"

fun suspendable_state :: "State \<Rightarrow> bool" where
  "suspendable_state StateRouteActive = True"
| "suspendable_state StateActivityIssued = True"
| "suspendable_state StateAwaitingResponse = True"
| "suspendable_state StateEvaluating = True"
| "suspendable_state StateFeedback = True"
| "suspendable_state _ = False"

fun quiz_state :: "State \<Rightarrow> bool" where
  "quiz_state StateActivityIssued = True"
| "quiz_state StateAwaitingResponse = True"
| "quiz_state StateEvaluating = True"
| "quiz_state StateFeedback = True"
| "quiz_state _ = False"

fun free_state :: "State \<Rightarrow> bool" where
  "free_state StateFreeQuestion = True"
| "free_state StateFreeAnswer = True"
| "free_state _ = False"

text \<open>
  A session rests in a stable state; a live frame remembers a state a lesson can be suspended in;
  a free question or answer is never without its live frame; an attached quiz lives only inside
  a suspended focus and only while its activity is open.
\<close>

definition session_inv :: "Session \<Rightarrow> bool" where
  "session_inv s \<longleftrightarrow>
     stable_state (sess_State s)
   \<and> (\<forall>f. sess_ActiveFrame s = Some f \<longrightarrow> \<not> frame_Invalidated f \<longrightarrow>
        suspendable_state (frame_SavedState f))
   \<and> (free_state (sess_State s) \<longrightarrow> live_frame s \<and> \<not> sess_AttachedQuiz s)
   \<and> (sess_AttachedQuiz s \<longrightarrow> live_frame s \<and> quiz_state (sess_State s))"

section \<open>Lemmas\<close>

lemma cloneString_id [simp]: "cloneString v = v"
  by (simp add: cloneString_def split: option.split)

lemma cloneContext_id [simp]: "cloneContext c = c"
  by (simp add: cloneContext_def)

lemma parse_state_text: "(\<forall>t. s \<noteq> StateUnknown t) \<Longrightarrow> parse_state (state_text s) = s"
  by (cases s) (simp_all add: parse_state_def named_states_def)

lemma state_text_parse: "state_text (parse_state t) = t"
  by (auto simp: parse_state_def find_Some_iff split: option.split)

lemmas apply_unfold [machine_simps] =
  Apply_def apply_switch_def set_state_def Let_def invalidateFrame_def HasAdaptiveFocus_def
  live_frame_def clearActivity_def

lemma Apply_accept_iff_aux:
  assumes "sess_State s \<noteq> StateUnset"
    and "cmd_SessionID c = [] \<or> sess_ID s = [] \<or> cmd_SessionID c = sess_ID s"
  shows "(\<exists>t. Apply s c = Inr t) \<longleftrightarrow> accepts s (cmd_Action c)"
  using assms
  by (cases "cmd_Action c"; cases "sess_ActiveFrame s")
     (auto simp: machine_simps accepts_def)

lemma suspendable_stable [dest]: "suspendable_state x \<Longrightarrow> stable_state x \<and> \<not> free_state x"
  by (cases x) auto

lemma apply_switch_inv_sum:
  assumes "session_inv s"
  shows "case_sum (\<lambda>_. True) (\<lambda>t. session_inv (tr_Session t)) (apply_switch s c)"
  using assms
  by (cases "cmd_Action c"; cases "sess_ActiveFrame s"; cases "cmd_Context c";
      simp add: apply_unfold session_inv_def)
     (auto dest: suspendable_stable)

lemma session_inv_not_unset: "session_inv s \<Longrightarrow> sess_State s \<noteq> StateUnset"
  by (auto simp: session_inv_def)

lemma Apply_cases:
  assumes "sess_State s \<noteq> StateUnset" and "Apply s c = Inr t"
  shows "apply_switch s c = Inr t"
  using assms by (simp add: Apply_def split: if_splits)

lemma tutoring_step_inv:
  assumes "session_inv s" and "tutoring_step s c = Inr t"
  shows "session_inv t"
proof -
  obtain tr where tr: "Apply s c = Inr tr" and t: "t = tr_Session tr"
    using assms(2) by (auto simp: tutoring_step_def split: sum.splits)
  have "apply_switch s c = Inr tr"
    using Apply_cases [OF session_inv_not_unset [OF assms(1)] tr] .
  then show ?thesis
    using apply_switch_inv_sum [OF assms(1), of c] t by simp
qed

interpretation tutoring: guarded_machine tutoring_step session_inv
  by unfold_locales (rule tutoring_step_inv)

text \<open>No action touches the identity, the version or the completion mark of a session.\<close>

definition same_identity :: "Session \<Rightarrow> Session \<Rightarrow> bool" where
  "same_identity s t \<longleftrightarrow> sess_ID t = sess_ID s \<and> sess_AggregateVer t = sess_AggregateVer s
     \<and> sess_CompletedRoute t = sess_CompletedRoute s
     \<and> sess_FocusFrameInvalidated t = sess_FocusFrameInvalidated s"

lemma apply_switch_frame_sum:
  "case_sum (\<lambda>_. True) (\<lambda>t. same_identity s (tr_Session t) \<and> sess_State (tr_Session t) = tr_After t
     \<and> tr_Before t = sess_State s) (apply_switch s c)"
  by (cases "cmd_Action c"; cases "sess_ActiveFrame s"; cases "cmd_Context c";
      simp add: apply_unfold same_identity_def)

text \<open>A live focus frame stays as it is under every action that does not leave the focus.\<close>

fun leaves_focus :: "Action \<Rightarrow> bool" where
  "leaves_focus ActionResumeFocus = True"
| "leaves_focus ActionEndActivity = True"
| "leaves_focus ActionSwitchGoal = True"
| "leaves_focus ActionCompleteSession = True"
| "leaves_focus _ = False"

lemma apply_switch_keeps_frame_sum:
  assumes "sess_ActiveFrame s = Some f" and "\<not> frame_Invalidated f" and "\<not> leaves_focus (cmd_Action c)"
  shows "case_sum (\<lambda>_. True) (\<lambda>t. sess_ActiveFrame (tr_Session t) = Some f) (apply_switch s c)"
  using assms by (cases "cmd_Action c"; cases "cmd_Context c"; simp add: apply_unfold)

lemma tutoring_step_keeps_frame:
  assumes "sess_State s \<noteq> StateUnset" and "tutoring_step s c = Inr t"
    and "sess_ActiveFrame s = Some f" and "\<not> frame_Invalidated f" and "\<not> leaves_focus (cmd_Action c)"
  shows "sess_ActiveFrame t = Some f"
proof -
  obtain tr where tr: "Apply s c = Inr tr" and t: "t = tr_Session tr"
    using assms(2) by (auto simp: tutoring_step_def split: sum.splits)
  show ?thesis
    using apply_switch_keeps_frame_sum [OF assms(3-5)] Apply_cases [OF assms(1) tr] t by simp
qed

lemma tutoring_step_same_identity:
  assumes "sess_State s \<noteq> StateUnset" and "tutoring_step s c = Inr t"
  shows "same_identity s t"
proof -
  obtain tr where tr: "Apply s c = Inr tr" and t: "t = tr_Session tr"
    using assms(2) by (auto simp: tutoring_step_def split: sum.splits)
  show ?thesis
    using apply_switch_frame_sum [of s c] Apply_cases [OF assms(1) tr] t by simp
qed

lemma run_keeps_frame:
  assumes "session_inv s" and "sess_ActiveFrame s = Some f" and "\<not> frame_Invalidated f"
    and "\<forall>c \<in> set cs. \<not> leaves_focus (cmd_Action c)"
  shows "sess_ActiveFrame (run tutoring_step s cs) = Some f \<and> same_identity s (run tutoring_step s cs)"
  using assms
proof (induction cs arbitrary: s)
  case Nil
  then show ?case by (simp add: same_identity_def)
next
  case (Cons c cs)
  show ?case
  proof (cases "tutoring_step s c")
    case (Inl e)
    with Cons show ?thesis by simp
  next
    case (Inr t)
    have "session_inv t" "sess_ActiveFrame t = Some f" "same_identity s t"
      using Cons.prems Inr session_inv_not_unset [OF Cons.prems(1)]
      by (auto intro: tutoring_step_inv tutoring_step_keeps_frame tutoring_step_same_identity)
    with Cons Inr show ?thesis
      by (auto simp: same_identity_def)
  qed
qed

lemma resume_restores:
  assumes "session_inv s" and "sess_ActiveFrame s = Some f" and "\<not> frame_Invalidated f"
    and "\<not> sess_FocusFrameInvalidated s" and "free_state (sess_State s)"
    and "cmd_Action c = ActionResumeFocus" and "cmd_SessionID c = sess_ID s"
  shows "\<exists>t. tutoring_step s c = Inr t \<and> sess_State t = frame_SavedState f
     \<and> sess_Context t = frame_Context f \<and> sess_ActiveFrame t = None"
  using assms session_inv_not_unset [OF assms(1)]
  by (cases "sess_State s") (auto simp: tutoring_step_def apply_unfold)

section \<open>Properties\<close>

definition idle_session :: "string \<Rightarrow> Session" where
  "idle_session i = empty_session\<lparr>sess_ID := i, sess_State := StateIdle\<rparr>"

lemma session_inv_idle: "session_inv (idle_session i)"
  by (simp add: session_inv_def idle_session_def empty_session_def)

text \<open>
  C34: \<open>Apply\<close> accepts a command exactly when the command is for this session and the reference
  table admits its action in the session's state, where a session without a state counts as idle.
\<close>

theorem Apply_accept_iff:
  "(\<exists>t. Apply s c = Inr t) \<longleftrightarrow>
     (cmd_SessionID c = [] \<or> sess_ID s = [] \<or> cmd_SessionID c = sess_ID s)
     \<and> accepts (if sess_State s = StateUnset then s\<lparr>sess_State := StateIdle\<rparr> else s) (cmd_Action c)"
proof (cases "cmd_SessionID c = [] \<or> sess_ID s = [] \<or> cmd_SessionID c = sess_ID s")
  case True
  let ?n = "if sess_State s = StateUnset then s\<lparr>sess_State := StateIdle\<rparr> else s"
  have "Apply s c = Apply ?n c" by (simp add: Apply_def)
  then show ?thesis
    using Apply_accept_iff_aux [of ?n c] True by simp
next
  case False
  then show ?thesis by (auto simp: Apply_def Let_def)
qed

text \<open>
  C33: whatever commands a session has taken since it was created, it rests in a stable state,
  a live focus frame remembers a state a lesson can be suspended in, a free question or answer
  has its live frame, and an attached quiz lives inside a suspended focus with an open activity.
\<close>

theorem session_inv_reachable:
  assumes "reaches tutoring_step (idle_session i) s"
  shows "session_inv s"
  using tutoring.reaches_inv [OF assms session_inv_idle] .

text \<open>
  a completed session is final: it refuses every command, so no sequence of commands
  changes it.
\<close>

theorem completed_final:
  assumes "sess_State s = StateCompleted"
  shows "run tutoring_step s cs = s"
proof (induction cs)
  case (Cons c cs)
  have "\<not> (\<exists>t. Apply s c = Inr t)"
    using Apply_accept_iff_aux [of s c] assms
    by (cases "cmd_Action c") (auto simp: accepts_def Apply_def)
  then have "\<exists>e. tutoring_step s c = Inl e"
    by (cases "Apply s c") (auto simp: tutoring_step_def)
  with Cons show ?case by auto
qed simp

text \<open>
  suspending a lesson to ask a free question and resuming it restores the lesson. After the
  question is asked, any commands may be tried that do not leave the focus (further questions,
  answers, attached quizzes); when the session is again at a question or an answer, resuming is
  accepted and the state and the context are those of the moment the question was asked.
\<close>

theorem suspend_resume_round_trip:
  assumes "session_inv s" and "\<not> live_frame s" and "\<not> sess_FocusFrameInvalidated s"
    and "cmd_Action ask = ActionAskFreeQuestion" and "tutoring_step s ask = Inr s1"
    and "\<forall>c \<in> set cs. \<not> leaves_focus (cmd_Action c)"
    and "free_state (sess_State (run tutoring_step s1 cs))"
    and "cmd_Action res = ActionResumeFocus" and "cmd_SessionID res = sess_ID s"
  shows "\<exists>t. tutoring_step (run tutoring_step s1 cs) res = Inr t
     \<and> sess_State t = sess_State s \<and> sess_Context t = sess_Context s \<and> sess_ActiveFrame t = None"
proof -
  obtain tr where tr: "apply_switch s ask = Inr tr" and s1: "s1 = tr_Session tr"
    using assms(5) Apply_cases [OF session_inv_not_unset [OF assms(1)]]
    by (auto simp: tutoring_step_def split: sum.splits)
  obtain f where f: "sess_ActiveFrame s1 = Some f" "\<not> frame_Invalidated f"
      "frame_SavedState f = sess_State s" "frame_Context f = sess_Context s"
    using tr assms(2,4) s1
    by (cases "cmd_Context ask") (auto simp: apply_switch_def set_state_def Let_def split: if_splits)
  let ?r = "run tutoring_step s1 cs"
  have inv: "session_inv s1" using tutoring_step_inv [OF assms(1,5)] .
  have kept: "sess_ActiveFrame ?r = Some f" "same_identity s1 ?r"
    using run_keeps_frame [OF inv f(1,2) assms(6)] by auto
  have "same_identity s s1"
    using tutoring_step_same_identity [OF session_inv_not_unset [OF assms(1)] assms(5)] .
  with kept(2) assms(3,9) have "\<not> sess_FocusFrameInvalidated ?r" "cmd_SessionID res = sess_ID ?r"
    by (auto simp: same_identity_def)
  then show ?thesis
    using resume_restores [OF tutoring.run_inv [OF inv] kept(1) f(2) _ assms(7,8)] f(3,4) by auto
qed

text \<open>A lesson for the witnesses: issued and presented, then a question with its answer and a quiz.\<close>

definition plain_command :: "Action \<Rightarrow> Command" where
  "plain_command a = \<lparr>cmd_Action = a, cmd_SessionID = ''s'', cmd_FrameID = ''f'',
     cmd_CreatedEventSequence = 7, cmd_Complete = False, cmd_Context = None\<rparr>"

definition lesson_session :: "State \<Rightarrow> Session" where
  "lesson_session st = (idle_session ''s'')\<lparr>sess_State := st\<rparr>"

definition quiz_detour :: "Command list" where
  "quiz_detour = map plain_command [ActionRecordFreeAnswer, ActionConvertFreeAnswerToQuiz,
     ActionPresentActivity, ActionSubmitAttempt, ActionRecordAssessment, ActionAcknowledgeFeedback]"

lemmas lesson_defs = lesson_session_def idle_session_def empty_session_def plain_command_def quiz_detour_def

theorem session_inv_reachable_witness:
  "reaches tutoring_step (idle_session ''s'') (run tutoring_step (idle_session ''s'')
     (map plain_command [ActionCreateSession, ActionApplyRoute, ActionAskFreeQuestion]))
   \<and> session_inv (run tutoring_step (idle_session ''s'')
     (map plain_command [ActionCreateSession, ActionApplyRoute, ActionAskFreeQuestion]))"
  by (intro conjI run_reaches session_inv_reachable [OF run_reaches])

theorem completed_final_witness:
  "run tutoring_step (lesson_session StateCompleted) (map plain_command [ActionSwitchGoal, ActionApplyRoute])
     = lesson_session StateCompleted"
  by (rule completed_final) (simp add: lesson_defs)

theorem suspend_resume_round_trip_witness:
  "\<exists>s1 t. tutoring_step (lesson_session StateAwaitingResponse) (plain_command ActionAskFreeQuestion) = Inr s1
     \<and> tutoring_step (run tutoring_step s1 quiz_detour) (plain_command ActionResumeFocus) = Inr t
     \<and> sess_State t = StateAwaitingResponse"
proof -
  obtain s1 where s1: "tutoring_step (lesson_session StateAwaitingResponse) (plain_command ActionAskFreeQuestion) = Inr s1"
    by (simp add: tutoring_step_def apply_unfold lesson_defs)
  have "free_state (sess_State (run tutoring_step s1 quiz_detour))"
    using s1 by (auto simp: tutoring_step_def apply_unfold lesson_defs)
  then have "\<exists>t. tutoring_step (run tutoring_step s1 quiz_detour) (plain_command ActionResumeFocus) = Inr t
     \<and> sess_State t = sess_State (lesson_session StateAwaitingResponse)
     \<and> sess_Context t = sess_Context (lesson_session StateAwaitingResponse) \<and> sess_ActiveFrame t = None"
    by (intro suspend_resume_round_trip [OF _ _ _ _ s1])
       (simp_all add: lesson_defs session_inv_def live_frame_def)
  with s1 show ?thesis by (auto simp: lesson_session_def)
qed

end
