(* ===== verification/Learning_Domain.thy ===== *)
theory Learning_Domain
  imports Tutoring
begin

text \<open>
  The data of the learning package, \<open>server/internal/learning/domain.go\<close>, with the goal records of
  \<open>goals.go\<close> that its goal revisions contain, and the domain functions that only need data: error codes, input validation, the shape of a route, the
  order of evidence. A field is named after the source's field, behind a prefix for its struct.
  A pointer is an option, a \<open>json.RawMessage\<close> is its bytes, \<open>any\<close> is a JSON value.

  The lemmas: what \<open>StableRouteSteps\<close> decides, that \<open>SortEvidence\<close> compares by a strict weak order
  (so its result does not depend on the sorting algorithm), and that evidence with distinct
  identifiers sorts to one list whatever order it arrives in.
\<close>

section \<open>Errors\<close>

datatype ErrCode =
    NoCode \<comment> \<open>the empty string\<close>
  | CodeInvalidRequest | CodeNotFound | CodeIdempotencyConflict | CodeVersionConflict
  | CodeInvalidTransition | CodeActivityStateConflict | CodeKnowledgeReferenceInvalid
  | CodeStaleProposal | CodeProposalRejected | CodeAssessmentDispositionConflict
  | CodeFocusFrameInvalidated | CodeUnsupportedEventSchema | CodeProjectionUnavailable
  | CodeContentRedacted | CodeStaleCursor | CodeModelUnavailable | CodeOfflinePrepareUnavailable
  | CodeOfflineSignerUnavailable | CodeOfflineOperationNotFound | CodeOperationConflict
  | CodeEvidenceCarryoverClosed | CodeEvidenceCarryoverNoCandidates

fun code_text :: "ErrCode \<Rightarrow> string" where
  "code_text NoCode = ''''"
| "code_text CodeInvalidRequest = ''invalid_request''"
| "code_text CodeNotFound = ''not_found''"
| "code_text CodeIdempotencyConflict = ''idempotency_conflict''"
| "code_text CodeVersionConflict = ''version_conflict''"
| "code_text CodeInvalidTransition = ''invalid_transition''"
| "code_text CodeActivityStateConflict = ''activity_state_conflict''"
| "code_text CodeKnowledgeReferenceInvalid = ''knowledge_reference_invalid''"
| "code_text CodeStaleProposal = ''stale_proposal''"
| "code_text CodeProposalRejected = ''proposal_rejected''"
| "code_text CodeAssessmentDispositionConflict = ''assessment_disposition_conflict''"
| "code_text CodeFocusFrameInvalidated = ''focus_frame_invalidated''"
| "code_text CodeUnsupportedEventSchema = ''unsupported_event_schema''"
| "code_text CodeProjectionUnavailable = ''projection_unavailable''"
| "code_text CodeContentRedacted = ''content_redacted''"
| "code_text CodeStaleCursor = ''stale_cursor''"
| "code_text CodeModelUnavailable = ''model_unavailable''"
| "code_text CodeOfflinePrepareUnavailable = ''offline_prepare_unavailable''"
| "code_text CodeOfflineSignerUnavailable = ''offline_signer_unavailable''"
| "code_text CodeOfflineOperationNotFound = ''operation_not_found''"
| "code_text CodeOperationConflict = ''operation_conflict''"
| "code_text CodeEvidenceCarryoverClosed = ''evidence_carryover_closed''"
| "code_text CodeEvidenceCarryoverNoCandidates = ''evidence_carryover_no_candidates''"

record ErrorFields =
  err_Code :: ErrCode
  err_AggregateType :: string
  err_AggregateID :: string
  err_ExpectedVersion :: int
  err_CurrentVersion :: int
  err_AsOfEventSequence :: int
  err_CurrentDisposition :: string
  err_Reason :: string

text \<open>
  A Go \<open>error\<close> of the learning layer: the package's \<open>*Error\<close> with its optional cause, a tutoring
  error, or one made by \<open>fmt.Errorf\<close> (its text).
\<close>

datatype error =
    LearningError ErrorFields "error option"
  | TutoringError tutoring_error
  | PlainError string

definition no_error_fields :: ErrorFields where
  "no_error_fields = \<lparr>err_Code = NoCode, err_AggregateType = [], err_AggregateID = [],
     err_ExpectedVersion = 0, err_CurrentVersion = 0, err_AsOfEventSequence = 0,
     err_CurrentDisposition = [], err_Reason = []\<rparr>"

definition err_code :: "ErrCode \<Rightarrow> error" where
  "err_code c = LearningError (no_error_fields\<lparr>err_Code := c\<rparr>) None"

definition err_reason :: "ErrCode \<Rightarrow> string \<Rightarrow> error" where
  "err_reason c r = LearningError (no_error_fields\<lparr>err_Code := c, err_Reason := r\<rparr>) None"

definition err_cause :: "ErrCode \<Rightarrow> string \<Rightarrow> error option \<Rightarrow> error" where
  "err_cause c r e = LearningError (no_error_fields\<lparr>err_Code := c, err_Reason := r\<rparr>) e"

fun ErrorCode :: "error \<Rightarrow> ErrCode" where
  "ErrorCode (LearningError f _) = err_Code f"
| "ErrorCode _ = NoCode"

section \<open>JSON values of type any\<close>

datatype json = JNull | JBool bool | JNumber string | JString string | JArray "json list"
  | JObject "(string \<times> json) list"

section \<open>Knowledge, goals, routes\<close>

record SourceRange =
  rng_Start :: int
  rng_End :: int

record KnowledgeReference =
  ref_KnowledgeRevisionID :: string
  ref_NodeID :: string
  ref_NodeRevisionID :: string
  ref_DocumentRevisionID :: string
  ref_Range :: SourceRange
  ref_Slice :: string
  ref_SliceSHA256 :: string

text \<open>A deadline keeps the zone offset it was written with: the instant and the offset in seconds.\<close>

record ZonedTime =
  zt_Instant :: time
  zt_Offset :: int

record GoalDetails =
  gd_Name :: string
  gd_ExpectedOutcome :: string
  gd_Scope :: string
  gd_Exclusions :: string
  gd_SelfAssessment :: string
  gd_Purpose :: string
  gd_CompletionCriteria :: string
  gd_Priority :: string
  gd_ScopeSnapshotID :: string
  gd_Timezone :: string
  gd_Deadline :: "ZonedTime option"
  gd_WeeklyMinutes :: "int option"

record GoalCompletion =
  gc_Kind :: string
  gc_Reason :: string
  gc_ActorDeviceID :: string
  gc_At :: time

record GoalManagement =
  gm_Details :: GoalDetails
  gm_Status :: string
  gm_ArchivedFrom :: string
  gm_Completion :: "GoalCompletion option"
  gm_CriteriaVerification :: string
  gm_ChangedFields :: "string list"
  gm_RouteAdjustmentNeeded :: bool

record GoalRevision =
  goal_SpaceID :: string
  goal_Management :: "GoalManagement option"
  goal_ID :: string
  goal_GoalID :: string
  goal_Revision :: int
  goal_Text :: string
  goal_Source :: string
  goal_ActorDeviceID :: string
  goal_CreatedAt :: time
  goal_PreviousRevisionID :: "string option"

record RouteStep =
  step_ID :: string
  step_Ordinal :: int
  step_NodeID :: string
  step_NodeRevisionID :: string
  step_TeachingIntent :: string
  step_CompletionCondition :: string

record RouteRevision =
  route_ID :: string
  route_RouteID :: string
  route_Revision :: int
  route_GoalRevisionID :: string
  route_KnowledgeRevisionID :: string
  route_PolicyVersion :: string
  route_SourceProposalID :: string
  route_Steps :: "RouteStep list"
  route_CreatedAt :: time

section \<open>Activities, attempts, assessments\<close>

datatype ActivityType = ActivityObjective | ActivityOpen | ActivityExplanation | ActivityOther string

datatype HelpLevel = HelpNone | HelpHint | HelpScaffold | HelpAnswerRevealed | HelpOther string

record RubricItem =
  item_ID :: string
  item_Criterion :: string
  item_RequiredReferenceIDs :: "string list"

record ObjectiveRule =
  rule_AcceptedAnswers :: "string list"
  rule_CaseSensitive :: bool
  rule_TrimSpace :: bool

record Rubric =
  rub_Revision :: string
  rub_Items :: "RubricItem list"
  rub_ObjectiveRule :: "ObjectiveRule option"

record Activity =
  act_ID :: string
  act_Revision :: int
  act_SessionID :: string
  act_GoalRevisionID :: string
  act_RouteRevisionID :: string
  act_RouteStepID :: string
  act_KnowledgeRevisionID :: string
  act_TargetNodeID :: string
  act_TargetNodeRevisionID :: string
  act_References :: "KnowledgeReference list"
  act_Prompt :: string
  act_Type :: ActivityType
  act_Rubric :: Rubric
  act_Difficulty :: int
  act_AllowedHelp :: "HelpLevel list"
  act_ActivityPolicyVersion :: string
  act_AssessmentPolicyVersion :: string
  act_ReviewPolicyVersion :: string
  act_SourceProposalID :: string
  act_AttachedFreeQuestionID :: string
  act_AttachedFreeAnswerID :: string
  act_Review :: bool
  act_CreatedAt :: time

record Attempt =
  att_ID :: string
  att_SessionID :: string
  att_ActivityID :: string
  att_ActivityRevision :: int
  att_AnswerPayloadID :: string
  att_Answer :: string
  att_AnswerSHA256 :: string
  att_Help :: HelpLevel
  att_ActorDeviceID :: string
  att_OccurredAt :: "time option"
  att_ReceivedAt :: time
  att_EvidenceEligibility :: bool
  att_EvidenceIneligibleReason :: string
  att_ArchiveDisposition :: string
  att_OfflineSubmissionID :: string

datatype Conclusion = ConclusionPass | ConclusionPartial | ConclusionFail | ConclusionUnassessed
  | ConclusionOther string

record AssessmentItem =
  ai_RubricItemID :: string
  ai_Conclusion :: Conclusion
  ai_AnswerQuote :: string
  ai_AnswerRange :: SourceRange
  ai_AnswerQuoteSHA256 :: string
  ai_KnowledgeReferenceID :: string
  ai_KnowledgeQuote :: string
  ai_KnowledgeRange :: SourceRange
  ai_KnowledgeQuoteSHA256 :: string
  ai_MisconceptionCandidate :: string

text \<open>Risk flags are kept as text: the policy lists them among its reasons.\<close>

type_synonym RiskFlag = string

definition RiskIncompleteRubric :: RiskFlag where "RiskIncompleteRubric = ''incomplete_rubric''"
definition RiskInsufficientAnswerEvidence :: RiskFlag where
  "RiskInsufficientAnswerEvidence = ''insufficient_answer_evidence''"
definition RiskInsufficientKnowledgeSupport :: RiskFlag where
  "RiskInsufficientKnowledgeSupport = ''insufficient_knowledge_support''"
definition RiskConflictingEvidence :: RiskFlag where "RiskConflictingEvidence = ''conflicting_evidence''"
definition RiskAmbiguousRubric :: RiskFlag where "RiskAmbiguousRubric = ''ambiguous_rubric''"
definition RiskUnsafeContent :: RiskFlag where "RiskUnsafeContent = ''unsafe_content''"
definition RiskSchemaRepaired :: RiskFlag where "RiskSchemaRepaired = ''schema_repaired''"
definition RiskStaleContext :: RiskFlag where "RiskStaleContext = ''stale_context''"
definition RiskRetryExhausted :: RiskFlag where "RiskRetryExhausted = ''retry_exhausted''"

lemmas risk_defs [go_defs] = RiskIncompleteRubric_def RiskInsufficientAnswerEvidence_def
  RiskInsufficientKnowledgeSupport_def RiskConflictingEvidence_def RiskAmbiguousRubric_def
  RiskUnsafeContent_def RiskSchemaRepaired_def RiskStaleContext_def RiskRetryExhausted_def

record AssessmentArtifact =
  art_ID :: string
  art_SessionID :: string
  art_AttemptID :: string
  art_ActivityID :: string
  art_ActivityRevision :: int
  art_Items :: "AssessmentItem list"
  art_RubricComplete :: bool
  art_Confidence :: int
  art_RiskFlags :: "RiskFlag list"
  art_ModelID :: string
  art_ModelParameters :: "(string, json) gomap"
  art_PromptRevision :: string
  art_ProposalInputHash :: string
  art_Attempts :: int
  art_AttemptCategories :: "string list"
  art_CreatedAt :: time
  art_EvidenceEligibility :: bool
  art_EvidenceIneligibleReason :: string

datatype Disposition = DispositionUnset | DispositionProvisional | DispositionAccepted
  | DispositionOverridden | DispositionVoided | DispositionOther string

fun disposition_text :: "Disposition \<Rightarrow> string" where
  "disposition_text DispositionUnset = ''''"
| "disposition_text DispositionProvisional = ''provisional''"
| "disposition_text DispositionAccepted = ''accepted''"
| "disposition_text DispositionOverridden = ''overridden''"
| "disposition_text DispositionVoided = ''voided''"
| "disposition_text (DispositionOther t) = t"

record AssessmentDecision =
  dec_ID :: string
  dec_AssessmentID :: string
  dec_Version :: int
  dec_Disposition :: Disposition
  dec_Items :: "AssessmentItem list"
  dec_Reason :: string
  dec_ActorDeviceID :: string
  dec_CreatedAt :: time
  dec_ReplacesDecisionID :: "string option"
  dec_ProducedEvidenceID :: "string option"

section \<open>Evidence, exposures, operations\<close>

datatype EvidenceKind = EvidencePracticeRecall | EvidenceReviewRecall | EvidenceOther string

datatype Outcome = OutcomeUnset | OutcomePass | OutcomePartial | OutcomeFail | OutcomeOther string

record MisconceptionCandidate =
  mc_RubricItemID :: string
  mc_Text :: string

record RubricOutcome =
  ro_RubricItemID :: string
  ro_Conclusion :: Conclusion

record AcceptedEvidence =
  ev_ID :: string
  ev_DispositionDecisionID :: string
  ev_AssessmentID :: string
  ev_AttemptID :: string
  ev_ActivityID :: string
  ev_ActivityRevision :: int
  ev_GoalRevisionID :: string
  ev_RouteRevisionID :: string
  ev_KnowledgeRevisionID :: string
  ev_NodeRevisionID :: string
  ev_RubricRevision :: string
  ev_Kind :: EvidenceKind
  ev_ActivityType :: ActivityType
  ev_Outcome :: Outcome
  ev_Help :: HelpLevel
  ev_ReceivedAt :: time
  ev_AcceptedEventSequence :: int
  ev_AcceptancePolicyVersion :: string
  ev_ReducerPolicyVersion :: string
  ev_ReviewPolicyVersion :: string
  ev_Misconceptions :: "MisconceptionCandidate list"
  ev_RubricOutcomes :: "RubricOutcome list"

record Exposure =
  exp_ID :: string
  exp_SessionID :: string
  exp_Kind :: string
  exp_Text :: string
  exp_References :: "KnowledgeReference list"
  exp_SourceProposalID :: string
  exp_ReceivedAt :: time

record OperationEnvelope =
  op_OperationID :: string
  op_PayloadSchemaVersion :: int
  op_AggregateType :: string
  op_AggregateID :: string
  op_ExpectedVersion :: int
  op_OccurredAt :: "time option"
  op_Payload :: string

record OperationResult =
  res_Status :: string
  res_Replayed :: bool
  res_Archived :: bool
  res_AggregateType :: string
  res_AggregateID :: string
  res_AggregateVersion :: int
  res_FirstEventSequence :: int
  res_LastEventSequence :: int
  res_ProjectionAsOf :: int
  res_TutoringState :: string
  res_EvidenceDisposition :: Disposition
  res_Result :: string

section \<open>Proposals\<close>

datatype ProposalType = ProposalRoute | ProposalActivity | ProposalAssessment | ProposalFreeAnswer
  | ProposalExplanation | ProposalOther string

record ProposalRequest =
  preq_RequestID :: string
  preq_Type :: ProposalType
  preq_AggregateType :: string
  preq_AggregateID :: string
  preq_AggregateVersion :: int
  preq_GoalRevisionID :: string
  preq_RouteRevisionID :: string
  preq_RouteStepID :: string
  preq_FocusNodeRevisionID :: string
  preq_ActivityID :: string
  preq_AttemptID :: string
  preq_FreeQuestionID :: string
  preq_FreeAnswerID :: string
  preq_FocusFrameID :: string
  preq_TutoringState :: string
  preq_KnowledgeRevisionID :: string
  preq_NodeRevisionIDs :: "string list"
  preq_Input :: string

record RouteProposalStep =
  rps_NodeRevisionID :: string
  rps_TeachingIntent :: string
  rps_CompletionCondition :: string

record ActivityProposal =
  ap_Prompt :: string
  ap_Type :: ActivityType
  ap_Rubric :: Rubric
  ap_Difficulty :: int
  ap_AllowedHelp :: "HelpLevel list"
  ap_References :: "KnowledgeReference list"

record TextProposal =
  tp_Text :: string
  tp_References :: "KnowledgeReference list"

record ProposalArtifact =
  prop_ID :: string
  prop_SchemaVersion :: int
  prop_InputHash :: string
  prop_Type :: ProposalType
  prop_AggregateType :: string
  prop_AggregateID :: string
  prop_AggregateVersion :: int
  prop_GoalRevisionID :: string
  prop_RouteRevisionID :: string
  prop_ActivityID :: string
  prop_AttemptID :: string
  prop_KnowledgeRevisionID :: string
  prop_FrozenRequest :: ProposalRequest
  prop_Route :: "RouteProposalStep list"
  prop_Activity :: "ActivityProposal option"
  prop_Assessment :: "AssessmentArtifact option"
  prop_Text :: "TextProposal option"
  prop_ModelID :: string
  prop_ModelParameters :: "(string, json) gomap"
  prop_PromptRevision :: string
  prop_AttemptCategories :: "string list"
  prop_CreatedAt :: time

section \<open>Domain functions\<close>

definition MaxGoalRunes :: nat where "MaxGoalRunes = 4000"
definition MaxGoalSourceBytes :: nat where "MaxGoalSourceBytes = 200"
definition MaxQuestionRunes :: nat where "MaxQuestionRunes = 8000"
definition MaxAnswerBytes :: nat where "MaxAnswerBytes = 262144"
definition MaxRubricItems :: nat where "MaxRubricItems = 64"
definition MaxProposalTextRunes :: nat where "MaxProposalTextRunes = 32000"

definition MasteryReducerVersion :: string where "MasteryReducerVersion = ''mastery-reducer-v1''"
definition AssessmentPolicyVersion :: string where "AssessmentPolicyVersion = ''assessment-acceptance-v1''"
definition ReviewPolicyVersion :: string where "ReviewPolicyVersion = ''fixed-interval-v1''"
definition ActiveTimePolicyVersion :: string where "ActiveTimePolicyVersion = ''estimated-active-time-v1''"
definition RoutePolicyVersion :: string where "RoutePolicyVersion = ''route-policy-v1''"
definition ActivityPolicyVersion :: string where "ActivityPolicyVersion = ''activity-policy-v1''"
definition EventSchemaVersion :: int where "EventSchemaVersion = 1"
definition EventRedactedSchemaVersion :: int where "EventRedactedSchemaVersion = 2"
definition ProposalSchemaVersion :: int where "ProposalSchemaVersion = 1"
definition ProjectionVersion :: string where "ProjectionVersion = ''learning-projection-v2''"

definition SHA256 :: "golib \<Rightarrow> string \<Rightarrow> string" where
  "SHA256 L v = hex_encode (lib_sha256 L v)"

definition ValidateGoal :: "string \<Rightarrow> error option" where
  "ValidateGoal v =
     (if \<not> valid_utf8 v \<or> trim_space v = [] \<or> rune_count v > MaxGoalRunes
      then Some (err_code CodeInvalidRequest) else None)"

definition ValidateGoalSource :: "string \<Rightarrow> error option" where
  "ValidateGoalSource v =
     (if \<not> valid_utf8 v \<or> trim_space v = [] \<or> length v > MaxGoalSourceBytes
      then Some (err_code CodeInvalidRequest) else None)"

definition ValidateOperation :: "golib \<Rightarrow> OperationEnvelope \<Rightarrow> error option" where
  "ValidateOperation L op =
     (if op_OperationID op = [] \<or> op_PayloadSchemaVersion op \<noteq> 1 \<or> op_AggregateType op = []
         \<or> op_AggregateID op = [] \<or> op_ExpectedVersion op < 0 \<or> \<not> lib_json_valid L (op_Payload op)
      then Some (err_code CodeInvalidRequest) else None)"

text \<open>\<open>CloneActivity\<close> copies every slice of its argument; as a value the copy is rebuilt here.\<close>

definition CloneActivity :: "Activity \<Rightarrow> Activity" where
  "CloneActivity v =
     (let rubric = act_Rubric v;
          items = map (\<lambda>i. i\<lparr>item_RequiredReferenceIDs := item_RequiredReferenceIDs i\<rparr>) (rub_Items rubric);
          rule = map_option (\<lambda>r. r\<lparr>rule_AcceptedAnswers := rule_AcceptedAnswers r\<rparr>) (rub_ObjectiveRule rubric)
      in v\<lparr>act_References := act_References v,
           act_Rubric := rubric\<lparr>rub_Items := items, rub_ObjectiveRule := rule\<rparr>,
           act_AllowedHelp := act_AllowedHelp v\<rparr>)"

fun stable_steps_loop :: "int \<Rightarrow> string list \<Rightarrow> RouteStep list \<Rightarrow> bool" where
  "stable_steps_loop i seen [] = True"
| "stable_steps_loop i seen (st # sts) =
     (if step_Ordinal st \<noteq> i \<or> step_ID st = [] \<or> step_NodeID st = [] \<or> step_NodeRevisionID st = []
         \<or> step_NodeRevisionID st \<in> set seen
      then False else stable_steps_loop (i + 1) (step_NodeRevisionID st # seen) sts)"

definition StableRouteSteps :: "RouteStep list \<Rightarrow> bool" where
  "StableRouteSteps steps \<longleftrightarrow> stable_steps_loop 0 [] steps \<and> steps \<noteq> []"

definition evidence_less :: "AcceptedEvidence \<Rightarrow> AcceptedEvidence \<Rightarrow> bool" where
  "evidence_less l r =
     (if ev_AcceptedEventSequence l \<noteq> ev_AcceptedEventSequence r then
        (if ev_AcceptedEventSequence l = 0 then False
         else if ev_AcceptedEventSequence r = 0 then True
         else ev_AcceptedEventSequence l < ev_AcceptedEventSequence r)
      else if ev_AcceptedEventSequence l = 0 \<and> ev_ReceivedAt l \<noteq> ev_ReceivedAt r
      then ev_ReceivedAt l < ev_ReceivedAt r
      else ev_ID l < ev_ID r)"

definition SortEvidence :: "AcceptedEvidence list \<Rightarrow> AcceptedEvidence list" where
  "SortEvidence values = go_sort evidence_less values"

section \<open>Lemmas\<close>

lemma CloneActivity_id [simp]: "CloneActivity v = v"
  by (cases "rub_ObjectiveRule (act_Rubric v)") (simp_all add: CloneActivity_def Let_def)

lemma ErrorCode_simps [simp]:
  "ErrorCode (err_code c) = c" "ErrorCode (err_reason c r) = c" "ErrorCode (err_cause c r e) = c"
  by (simp_all add: err_code_def err_reason_def err_cause_def)

lemma stable_steps_loop_iff:
  "stable_steps_loop i seen sts \<longleftrightarrow>
     (\<forall>k < length sts. step_Ordinal (sts ! k) = i + int k \<and> step_ID (sts ! k) \<noteq> []
        \<and> step_NodeID (sts ! k) \<noteq> [] \<and> step_NodeRevisionID (sts ! k) \<noteq> [])
     \<and> distinct (map step_NodeRevisionID sts) \<and> set (map step_NodeRevisionID sts) \<inter> set seen = {}"
proof (induction sts arbitrary: i seen)
  case Nil
  then show ?case by simp
next
  case (Cons st sts)
  show ?case
    by (auto simp: Cons.IH All_less_Suc2 algebra_simps)
qed

interpretation evidence_order: strict_weak evidence_less
  by unfold_locales (auto simp: evidence_less_def split: if_splits)

lemma evidence_less_total:
  "ev_ID l \<noteq> ev_ID r \<Longrightarrow> evidence_less l r \<or> evidence_less r l"
  by (auto simp: evidence_less_def)

lemma SortEvidence_set [simp]: "set (SortEvidence xs) = set xs"
  by (simp add: SortEvidence_def)

lemma SortEvidence_length [simp]: "length (SortEvidence xs) = length xs"
  by (simp add: SortEvidence_def)

lemma SortEvidence_perm:
  assumes "mset xs = mset ys" and "inj_on ev_ID (set xs)"
  shows "SortEvidence xs = SortEvidence ys"
  unfolding SortEvidence_def
  using assms evidence_less_total
  by (intro evidence_order.go_sort_unique) (auto simp: inj_on_def)

text \<open>With every sequence assigned, the order is the order of acceptance.\<close>

lemma SortEvidence_by_sequence:
  assumes "\<forall>e \<in> set xs. ev_AcceptedEventSequence e > 0"
  shows "sorted (map ev_AcceptedEventSequence (SortEvidence xs))"
proof -
  have "sorted_wrt (\<lambda>x y. \<not> evidence_less y x) (SortEvidence xs)"
    unfolding SortEvidence_def by (rule evidence_order.go_sort_sorted)
  then have "sorted_wrt (\<lambda>x y. ev_AcceptedEventSequence x \<le> ev_AcceptedEventSequence y) (SortEvidence xs)"
    by (rule sorted_wrt_mono_rel [rotated])
       (use assms in \<open>auto simp: evidence_less_def split: if_splits\<close>)
  then show ?thesis
    by (simp add: sorted_wrt_map)
qed

section \<open>Properties\<close>

text \<open>
  a route is stable exactly when it has a step, its steps are numbered from zero in order,
  no identifier of a step is missing and no node revision is taught twice.
\<close>

theorem StableRouteSteps_iff:
  "StableRouteSteps steps \<longleftrightarrow> steps \<noteq> []
     \<and> map step_Ordinal steps = map int [0..<length steps]
     \<and> (\<forall>st \<in> set steps. step_ID st \<noteq> [] \<and> step_NodeID st \<noteq> [] \<and> step_NodeRevisionID st \<noteq> [])
     \<and> distinct (map step_NodeRevisionID steps)"
proof -
  have numbered: "map step_Ordinal steps = map int [0..<length steps] \<longleftrightarrow> (\<forall>k < length steps. step_Ordinal (steps ! k) = int k)"
    by (subst list_eq_iff_nth_eq) simp
  show ?thesis
    unfolding StableRouteSteps_def stable_steps_loop_iff all_set_conv_all_nth numbered add_0 list.set(1) Int_empty_right
    by iprover
qed

theorem StableRouteSteps_iff_witness:
  "\<not> StableRouteSteps [\<lparr>step_ID = ''a'', step_Ordinal = 0, step_NodeID = ''n'', step_NodeRevisionID = ''n1'',
       step_TeachingIntent = [], step_CompletionCondition = []\<rparr>,
     \<lparr>step_ID = ''b'', step_Ordinal = 1, step_NodeID = ''n'', step_NodeRevisionID = ''n1'',
       step_TeachingIntent = [], step_CompletionCondition = []\<rparr>]"
  unfolding StableRouteSteps_iff by simp

text \<open>
  the order in which evidence arrives does not matter: two collections with the same evidence,
  no two items sharing an identifier, sort to the same list, and evidence whose events have been
  sequenced is in the order of acceptance.
\<close>

theorem SortEvidence_canonical:
  assumes "mset xs = mset ys" and "distinct (map ev_ID xs)"
  shows "SortEvidence xs = SortEvidence ys
    \<and> ((\<forall>e \<in> set xs. ev_AcceptedEventSequence e > 0) \<longrightarrow> sorted (map ev_AcceptedEventSequence (SortEvidence xs)))"
  using assms SortEvidence_perm [OF assms(1)] SortEvidence_by_sequence [of xs]
  by (simp add: distinct_map)

definition example_evidence :: "string \<Rightarrow> int \<Rightarrow> time \<Rightarrow> string \<Rightarrow> Outcome \<Rightarrow> AcceptedEvidence" where
  "example_evidence i sq at activity out = \<lparr>ev_ID = i, ev_DispositionDecisionID = [], ev_AssessmentID = [],
     ev_AttemptID = [], ev_ActivityID = activity, ev_ActivityRevision = 1, ev_GoalRevisionID = [], ev_RouteRevisionID = [],
     ev_KnowledgeRevisionID = [], ev_NodeRevisionID = ''n1'', ev_RubricRevision = [], ev_Kind = EvidencePracticeRecall,
     ev_ActivityType = ActivityOpen, ev_Outcome = out, ev_Help = HelpNone, ev_ReceivedAt = at,
     ev_AcceptedEventSequence = sq, ev_AcceptancePolicyVersion = [], ev_ReducerPolicyVersion = [],
     ev_ReviewPolicyVersion = [], ev_Misconceptions = [], ev_RubricOutcomes = []\<rparr>"

theorem SortEvidence_canonical_witness:
  "SortEvidence [example_evidence ''b'' 2 0 ''x'' OutcomePass, example_evidence ''a'' 1 0 ''y'' OutcomeFail]
     = SortEvidence [example_evidence ''a'' 1 0 ''y'' OutcomeFail, example_evidence ''b'' 2 0 ''x'' OutcomePass]"
  using SortEvidence_canonical [of "[example_evidence ''b'' 2 0 ''x'' OutcomePass, example_evidence ''a'' 1 0 ''y'' OutcomeFail]"
     "[example_evidence ''a'' 1 0 ''y'' OutcomeFail, example_evidence ''b'' 2 0 ''x'' OutcomePass]"]
  by (simp add: example_evidence_def add_mset_commute)

end
