(* ===== verification/Assessment.thy ===== *)
theory Assessment
  imports Learning_Domain
begin

text \<open>
  The acceptance policy of assessments, \<open>server/internal/learning/assessment.go\<close>, with
  \<open>FeedbackDecisions\<close> of \<open>feedback.go\<close> and \<open>WorkItemActions\<close> of \<open>session_work_item.go\<close>.
  \<open>EvaluateAssessment\<close> reads the frozen activity, the attempt and the assessment a model proposed,
  and either refuses it, leaves it provisional with the reasons, or accepts it with an outcome.
  Each loop of the source is a recursive function over the slice it ranges over, with the
  variables the loop changes as accumulators.

  The lemmas: what acceptance guarantees (every rubric item assessed once, every quotation equal
  to the bytes it claims), when an assessment is confirmable and that confirming then succeeds,
  the table of decisions, and how the offered decisions and actions relate to what is accepted.
\<close>

section \<open>Acceptance\<close>

record Acceptance =
  acc_Disposition :: Disposition
  acc_Outcome :: Outcome
  acc_Reasons :: "string list"

definition accepted :: "Outcome \<Rightarrow> Acceptance" where
  "accepted out = \<lparr>acc_Disposition = DispositionAccepted, acc_Outcome = out, acc_Reasons = []\<rparr>"

definition provisional :: "string list \<Rightarrow> Acceptance" where
  "provisional rs = \<lparr>acc_Disposition = DispositionProvisional, acc_Outcome = OutcomeUnset, acc_Reasons = rs\<rparr>"

definition rejected :: "string \<Rightarrow> error" where
  "rejected reason = err_reason CodeProposalRejected reason"

text \<open>\<open>source[a:b]\<close> of a string, for bounds the caller has checked.\<close>

definition byte_slice :: "string \<Rightarrow> SourceRange \<Rightarrow> string" where
  "byte_slice source r = take (nat (rng_End r - rng_Start r)) (drop (nat (rng_Start r)) source)"

definition validateSlice :: "golib \<Rightarrow> string \<Rightarrow> SourceRange \<Rightarrow> string \<Rightarrow> string \<Rightarrow> error option" where
  "validateSlice L source r quote expectedHash =
     (if rng_Start r < 0 \<or> rng_End r \<le> rng_Start r \<or> rng_End r > int (length source)
      then Some (PlainError ''range out of bounds'')
      else let actual = byte_slice source r
           in if actual \<noteq> quote \<or> SHA256 L actual \<noteq> expectedHash
              then Some (PlainError ''quote or hash mismatch'') else None)"

definition assessmentSupportMissing :: "golib \<Rightarrow> SourceRange \<Rightarrow> string \<Rightarrow> string \<Rightarrow> bool" where
  "assessmentSupportMissing L r quote expectedHash \<longleftrightarrow>
     rng_Start r = 0 \<and> rng_End r = 0 \<and> quote = [] \<and> (expectedHash = [] \<or> expectedHash = SHA256 L [])"

definition containsString :: "string list \<Rightarrow> string \<Rightarrow> bool" where
  "containsString values target \<longleftrightarrow> target \<in> set values"

fun combine_loop :: "Outcome \<Rightarrow> Outcome list \<Rightarrow> Outcome" where
  "combine_loop result [] = result"
| "combine_loop result (v # vs) =
     (if v = OutcomeFail then OutcomeFail
      else combine_loop (if v = OutcomePartial then OutcomePartial else result) vs)"

definition combineOutcomes :: "Outcome list \<Rightarrow> Outcome" where
  "combineOutcomes values = (if values = [] then OutcomeUnset else combine_loop OutcomePass values)"

text \<open>\<open>unique\<close> drops adjacent repetitions; it is called on sorted slices.\<close>

fun unique :: "string list \<Rightarrow> string list" where
  "unique [] = []"
| "unique [x] = [x]"
| "unique (x # y # ys) = (if x = y then unique (y # ys) else x # unique (y # ys))"

definition known_risks :: "RiskFlag list" where
  "known_risks = [RiskIncompleteRubric, RiskInsufficientAnswerEvidence, RiskInsufficientKnowledgeSupport,
     RiskConflictingEvidence, RiskAmbiguousRubric, RiskUnsafeContent, RiskSchemaRepaired,
     RiskStaleContext, RiskRetryExhausted]"

definition has_target_reference :: "Activity \<Rightarrow> bool" where
  "has_target_reference a \<longleftrightarrow>
     (\<exists>r \<in> set (act_References a). ref_KnowledgeRevisionID r = act_KnowledgeRevisionID a
        \<and> ref_NodeID r = act_TargetNodeID a \<and> ref_NodeRevisionID r = act_TargetNodeRevisionID a)"

definition objective_matches :: "golib \<Rightarrow> ObjectiveRule \<Rightarrow> string \<Rightarrow> string \<Rightarrow> bool" where
  "objective_matches L rule answer expected =
     (let actual = (if rule_TrimSpace rule then trim_space answer else answer);
          expected = (if rule_TrimSpace rule then trim_space expected else expected)
      in (\<not> rule_CaseSensitive rule \<and> equal_fold (lib_fold L) actual expected) \<or> actual = expected)"

definition evaluate_objective :: "golib \<Rightarrow> Activity \<Rightarrow> Attempt \<Rightarrow> error + Acceptance" where
  "evaluate_objective L activity attempt =
     (case rub_ObjectiveRule (act_Rubric activity) of
        None \<Rightarrow> Inl (rejected ''objective_rule_missing'')
      | Some rule \<Rightarrow>
          if rule_AcceptedAnswers rule = [] then Inl (rejected ''objective_rule_missing'')
          else if \<exists>expected \<in> set (rule_AcceptedAnswers rule). objective_matches L rule (att_Answer attempt) expected
          then Inr (accepted OutcomePass) else Inr (accepted OutcomeFail))"

text \<open>
  The map \<open>items\<close> is keyed by the rubric item's identifier; a second item with a key already
  present, or an empty key, refuses the rubric. The map \<open>refs\<close> is built the same way.
\<close>

definition freeze_rubric :: "RubricItem list \<Rightarrow> error + (string, RubricItem) gomap" where
  "freeze_rubric = index_by item_ID (\<lambda>i. item_ID i = []) (rejected ''invalid_frozen_rubric'') []"

definition freeze_refs :: "string \<Rightarrow> KnowledgeReference list \<Rightarrow> error + (string, KnowledgeReference) gomap" where
  "freeze_refs kr = index_by ref_NodeRevisionID
     (\<lambda>r. ref_NodeRevisionID r = [] \<or> ref_KnowledgeRevisionID r \<noteq> kr) (rejected ''invalid_frozen_reference'') []"

text \<open>What one assessment item adds: its outcome, if it is scorable, and its provisional reasons.\<close>

fun item_outcome :: "Conclusion \<Rightarrow> error + Outcome option" where
  "item_outcome ConclusionPass = Inr (Some OutcomePass)"
| "item_outcome ConclusionPartial = Inr (Some OutcomePartial)"
| "item_outcome ConclusionFail = Inr (Some OutcomeFail)"
| "item_outcome ConclusionUnassessed = Inr None"
| "item_outcome (ConclusionOther _) = Inl (rejected ''unknown_conclusion'')"

definition item_answer_support :: "golib \<Rightarrow> Attempt \<Rightarrow> AssessmentItem \<Rightarrow> bool \<Rightarrow> error + string list" where
  "item_answer_support L attempt item scorable =
     (if assessmentSupportMissing L (ai_AnswerRange item) (ai_AnswerQuote item) (ai_AnswerQuoteSHA256 item)
      then Inr (if scorable then [''insufficient_answer_evidence''] else [])
      else case validateSlice L (att_Answer attempt) (ai_AnswerRange item) (ai_AnswerQuote item) (ai_AnswerQuoteSHA256 item) of
             Some e \<Rightarrow> Inl (err_cause CodeProposalRejected ''invalid_answer_quote'' (Some e))
           | None \<Rightarrow> Inr [])"

definition item_knowledge_support ::
  "golib \<Rightarrow> Activity \<Rightarrow> (string, KnowledgeReference) gomap \<Rightarrow> RubricItem \<Rightarrow> AssessmentItem \<Rightarrow> bool \<Rightarrow> error + string list" where
  "item_knowledge_support L activity refs frozen item scorable =
     (if ai_KnowledgeReferenceID item = [] then
        (if \<not> assessmentSupportMissing L (ai_KnowledgeRange item) (ai_KnowledgeQuote item) (ai_KnowledgeQuoteSHA256 item)
         then Inl (rejected ''knowledge_reference_mismatch'')
         else Inr (if scorable then [''insufficient_knowledge_support''] else []))
      else case map_of refs (ai_KnowledgeReferenceID item) of
          None \<Rightarrow> Inl (rejected ''knowledge_reference_mismatch'')
        | Some ref \<Rightarrow>
            if ref_KnowledgeRevisionID ref \<noteq> act_KnowledgeRevisionID activity
               \<or> (item_RequiredReferenceIDs frozen \<noteq> []
                  \<and> \<not> containsString (item_RequiredReferenceIDs frozen) (ai_KnowledgeReferenceID item))
            then Inl (rejected ''knowledge_reference_mismatch'')
            else if assessmentSupportMissing L (ai_KnowledgeRange item) (ai_KnowledgeQuote item) (ai_KnowledgeQuoteSHA256 item)
            then Inr (if scorable then [''insufficient_knowledge_support''] else [])
            else case validateSlice L (ref_Slice ref) (ai_KnowledgeRange item) (ai_KnowledgeQuote item) (ai_KnowledgeQuoteSHA256 item) of
                   Some e \<Rightarrow> Inl (err_cause CodeProposalRejected ''invalid_knowledge_quote'' (Some e))
                 | None \<Rightarrow> Inr [])"

definition evaluate_item ::
  "golib \<Rightarrow> Activity \<Rightarrow> Attempt \<Rightarrow> (string, RubricItem) gomap \<Rightarrow> (string, KnowledgeReference) gomap \<Rightarrow> string list
    \<Rightarrow> AssessmentItem \<Rightarrow> error + (Outcome list \<times> string list)" where
  "evaluate_item L activity attempt items refs seen item =
     (case map_of items (ai_RubricItemID item) of
        None \<Rightarrow> Inl (rejected ''unknown_or_duplicate_rubric_item'')
      | Some frozen \<Rightarrow>
          if ai_RubricItemID item \<in> set seen then Inl (rejected ''unknown_or_duplicate_rubric_item'')
          else case item_outcome (ai_Conclusion item) of
              Inl e \<Rightarrow> Inl e
            | Inr out \<Rightarrow>
                if ai_MisconceptionCandidate item \<noteq> [] \<and> ai_Conclusion item \<noteq> ConclusionFail
                   \<and> ai_Conclusion item \<noteq> ConclusionPartial
                then Inl (rejected ''misconception_without_failure'')
                else case item_answer_support L attempt item (out \<noteq> None) of
                    Inl e \<Rightarrow> Inl e
                  | Inr p1 \<Rightarrow>
                      (case item_knowledge_support L activity refs frozen item (out \<noteq> None) of
                         Inl e \<Rightarrow> Inl e
                       | Inr p2 \<Rightarrow>
                           Inr (case out of None \<Rightarrow> [] | Some x \<Rightarrow> [x],
                                (if out = None then [''unassessed''] else []) @ p1 @ p2)))"

fun evaluate_items ::
  "golib \<Rightarrow> Activity \<Rightarrow> Attempt \<Rightarrow> (string, RubricItem) gomap \<Rightarrow> (string, KnowledgeReference) gomap \<Rightarrow> string list
    \<Rightarrow> AssessmentItem list \<Rightarrow> error + (string list \<times> Outcome list \<times> string list)" where
  "evaluate_items L activity attempt items refs seen [] = Inr (seen, [], [])"
| "evaluate_items L activity attempt items refs seen (i # is) =
     (case evaluate_item L activity attempt items refs seen i of
        Inl e \<Rightarrow> Inl e
      | Inr (o1, p1) \<Rightarrow>
          (case evaluate_items L activity attempt items refs (ai_RubricItemID i # seen) is of
             Inl e \<Rightarrow> Inl e
           | Inr (seen', os, ps) \<Rightarrow> Inr (seen', o1 @ os, p1 @ ps)))"

text \<open>
  After the items: the reasons that leave the assessment provisional, in the order the code
  appends them, and the conclusion drawn from them.
\<close>

definition open_reasons ::
  "Activity \<Rightarrow> AssessmentArtifact \<Rightarrow> nat \<Rightarrow> string list \<Rightarrow> Outcome list \<Rightarrow> string list \<Rightarrow> string list" where
  "open_reasons activity artifact n seen outcomes item_reasons =
     (if rub_Items (act_Rubric activity) = [] then [''incomplete_rubric''] else []) @ item_reasons
     @ (if length seen \<noteq> n \<or> \<not> art_RubricComplete artifact then [''incomplete_rubric''] else [])
     @ (if outcomes = [] then [''no_scorable_items''] else [])
     @ (if art_Confidence artifact < 850 then [''low_confidence''] else [])
     @ art_RiskFlags artifact"

definition conclude :: "Outcome list \<Rightarrow> string list \<Rightarrow> Acceptance" where
  "conclude outcomes reasons =
     (if reasons \<noteq> [] then provisional (unique (sort_strings reasons))
      else let outcome = combineOutcomes outcomes
           in if outcome = OutcomeUnset then provisional [''no_scorable_items''] else accepted outcome)"

definition evaluate_open :: "golib \<Rightarrow> Activity \<Rightarrow> Attempt \<Rightarrow> AssessmentArtifact \<Rightarrow> error + Acceptance" where
  "evaluate_open L activity attempt artifact =
     (if art_Confidence artifact < 0 \<or> art_Confidence artifact > 1000 then Inl (rejected ''confidence_out_of_range'')
      else if \<exists>risk \<in> set (art_RiskFlags artifact). risk \<notin> set known_risks then Inl (rejected ''unknown_risk_flag'')
      else case freeze_rubric (rub_Items (act_Rubric activity)) of
          Inl e \<Rightarrow> Inl e
        | Inr items \<Rightarrow>
            (case freeze_refs (act_KnowledgeRevisionID activity) (act_References activity) of
               Inl e \<Rightarrow> Inl e
             | Inr refs \<Rightarrow>
                 (case evaluate_items L activity attempt items refs [] (art_Items artifact) of
                    Inl e \<Rightarrow> Inl e
                  | Inr (seen, outcomes, reasons) \<Rightarrow>
                      Inr (conclude outcomes
                        (open_reasons activity artifact (length items) seen outcomes reasons)))))"

definition EvaluateAssessment :: "golib \<Rightarrow> Activity \<Rightarrow> Attempt \<Rightarrow> AssessmentArtifact \<Rightarrow> error + Acceptance" where
  "EvaluateAssessment L activity attempt artifact =
     (if act_TargetNodeID activity = [] \<or> act_TargetNodeRevisionID activity = []
      then Inl (rejected ''activity_target_missing'')
      else if \<not> has_target_reference activity then Inl (rejected ''activity_target_reference_missing'')
      else if att_ActivityID attempt \<noteq> act_ID activity \<or> att_ActivityRevision attempt \<noteq> act_Revision activity
        \<or> art_AttemptID artifact \<noteq> att_ID attempt \<or> art_ActivityID artifact \<noteq> act_ID activity
        \<or> art_ActivityRevision artifact \<noteq> act_Revision activity
      then Inl (rejected ''immutable_reference_mismatch'')
      else if att_Help attempt = HelpAnswerRevealed then Inr (provisional [''answer_revealed''])
      else if act_Type activity = ActivityObjective then evaluate_objective L activity attempt
      else if act_Type activity \<noteq> ActivityOpen then Inl (rejected ''activity_not_assessable'')
      else evaluate_open L activity attempt artifact)"

section \<open>Decisions\<close>

record DecisionCommand =
  dc_Kind :: string
  dc_ExpectedVersion :: int
  dc_Reason :: string
  dc_Items :: "AssessmentItem list"

record DecisionEffect =
  de_Disposition :: Disposition
  de_Items :: "AssessmentItem list"
  de_InvalidateEvidence :: bool
  de_CreateEvidence :: bool

definition disposition_conflict :: "AssessmentDecision \<Rightarrow> error option \<Rightarrow> error" where
  "disposition_conflict current cause =
     LearningError (no_error_fields\<lparr>err_Code := CodeAssessmentDispositionConflict,
       err_CurrentDisposition := disposition_text (dec_Disposition current)\<rparr>) cause"

fun complete_loop :: "string list \<Rightarrow> AssessmentItem list \<Rightarrow> error option" where
  "complete_loop seen [] = None"
| "complete_loop seen (i # is) =
     (if ai_RubricItemID i = [] \<or> ai_RubricItemID i \<in> set seen \<or> ai_Conclusion i = ConclusionUnassessed
         \<or> (ai_Conclusion i \<noteq> ConclusionPass \<and> ai_Conclusion i \<noteq> ConclusionPartial \<and> ai_Conclusion i \<noteq> ConclusionFail)
      then Some (err_code CodeAssessmentDispositionConflict)
      else complete_loop (ai_RubricItemID i # seen) is)"

definition completeReplacement :: "AssessmentItem list \<Rightarrow> error option" where
  "completeReplacement items =
     (if items = [] then Some (err_code CodeAssessmentDispositionConflict) else complete_loop [] items)"

text \<open>The variadic \<open>confirmable\<close> of the source is passed as the one value its caller gives.\<close>

definition DecideAssessment ::
  "AssessmentDecision \<Rightarrow> AssessmentArtifact \<Rightarrow> DecisionCommand \<Rightarrow> bool \<Rightarrow> error + DecisionEffect" where
  "DecideAssessment current artifact command confirmable =
     (if dc_ExpectedVersion command \<noteq> dec_Version current then Inl (disposition_conflict current None)
      else let invalidate = (dec_ProducedEvidenceID current \<noteq> None)
      in if dc_Kind command = ''confirm'' then
           (if dec_Disposition current \<noteq> DispositionProvisional \<or> \<not> confirmable
            then Inl (disposition_conflict current None)
            else Inr \<lparr>de_Disposition = DispositionAccepted, de_Items = art_Items artifact,
                   de_InvalidateEvidence = False, de_CreateEvidence = True\<rparr>)
         else if dc_Kind command = ''override'' then
           (if dec_Disposition current = DispositionVoided \<or> trim_space (dc_Reason command) = [] \<or> dc_Items command = []
            then Inl (disposition_conflict current None)
            else case completeReplacement (dc_Items command) of
                Some e \<Rightarrow> Inl (disposition_conflict current (Some e))
              | None \<Rightarrow> Inr \<lparr>de_Disposition = DispositionOverridden, de_Items = dc_Items command,
                   de_InvalidateEvidence = invalidate, de_CreateEvidence = True\<rparr>)
         else if dc_Kind command = ''void'' then
           (if dec_Disposition current = DispositionVoided then Inl (disposition_conflict current None)
            else Inr \<lparr>de_Disposition = DispositionVoided, de_Items = dec_Items current,
                   de_InvalidateEvidence = invalidate, de_CreateEvidence = False\<rparr>)
         else Inl (err_code CodeInvalidRequest))"

definition ConfirmableAssessment :: "golib \<Rightarrow> Activity \<Rightarrow> Attempt \<Rightarrow> AssessmentArtifact \<Rightarrow> bool" where
  "ConfirmableAssessment L activity attempt artifact =
     (if att_Help attempt = HelpAnswerRevealed \<or> \<not> art_RubricComplete artifact
         \<or> rub_Items (act_Rubric activity) = []
         \<or> length (art_Items artifact) \<noteq> length (rub_Items (act_Rubric activity)) then False
      else case EvaluateAssessment L activity attempt artifact of
          Inl _ \<Rightarrow> False
        | Inr acceptance \<Rightarrow>
            if acc_Disposition acceptance \<noteq> DispositionProvisional then False
            else (\<forall>reason \<in> set (acc_Reasons acceptance).
                     reason \<in> set [''low_confidence'', RiskConflictingEvidence, RiskAmbiguousRubric])
                 \<and> acc_Reasons acceptance \<noteq> [])"

definition replacement_artifact :: "AssessmentArtifact \<Rightarrow> AssessmentItem list \<Rightarrow> AssessmentArtifact" where
  "replacement_artifact artifact items =
     artifact\<lparr>art_Items := items, art_RubricComplete := True, art_Confidence := 1000, art_RiskFlags := []\<rparr>"

definition ValidateAssessmentReplacement ::
  "golib \<Rightarrow> Activity \<Rightarrow> Attempt \<Rightarrow> AssessmentArtifact \<Rightarrow> AssessmentItem list \<Rightarrow> error + Outcome" where
  "ValidateAssessmentReplacement L activity attempt artifact items =
     (if act_Type activity = ActivityObjective
      then Inl (err_reason CodeAssessmentDispositionConflict ''objective_assessment_is_deterministic'')
      else case EvaluateAssessment L activity attempt (replacement_artifact artifact items) of
          Inl e \<Rightarrow> Inl e
        | Inr acceptance \<Rightarrow>
            if acc_Disposition acceptance \<noteq> DispositionAccepted \<or> acc_Outcome acceptance = OutcomeUnset
            then Inl (err_code CodeAssessmentDispositionConflict) else Inr (acc_Outcome acceptance))"

section \<open>What a client is offered\<close>

definition FeedbackDecisions ::
  "golib \<Rightarrow> Activity \<Rightarrow> Attempt \<Rightarrow> AssessmentArtifact \<Rightarrow> AssessmentDecision \<Rightarrow> string list" where
  "FeedbackDecisions L activity attempt artifact decision =
     (if dec_Disposition decision = DispositionVoided then []
      else let eligible = att_EvidenceEligibility attempt \<and> att_EvidenceIneligibleReason attempt = []
                 \<and> att_Help attempt \<noteq> HelpAnswerRevealed
           in (if eligible \<and> act_Type activity = ActivityOpen
               then (if dec_Disposition decision = DispositionProvisional
                        \<and> ConfirmableAssessment L activity attempt artifact then [''confirm''] else [])
                    @ [''override''] else [])
              @ [''void''])"

record WorkItemActionContext =
  wac_DueReview :: bool
  wac_AssessmentDisposition :: Disposition
  wac_AssessmentConfirmable :: bool

definition WorkItemActions :: "State \<Rightarrow> WorkItemActionContext \<Rightarrow> error + (Action list \<times> string list)" where
  "WorkItemActions state context =
     (case state of
        StateGoalReady \<Rightarrow> Inr ([ActionStartDiagnostic, ActionApplyRoute, ActionSwitchGoal], [])
      | StateDiagnostic \<Rightarrow> Inr ([ActionApplyRoute, ActionSwitchGoal], [])
      | StateRouteActive \<Rightarrow>
          Inr ([ActionApplyRoute, ActionIssueActivity]
               @ (if wac_DueReview context then [ActionPresentReview] else [])
               @ [ActionRecordExposure, ActionAskFreeQuestion, ActionCompleteSession, ActionSwitchGoal], [])
      | StateActivityIssued \<Rightarrow>
          Inr ([ActionPresentActivity, ActionAskFreeQuestion, ActionEndActivity, ActionSwitchGoal], [])
      | StateAwaitingResponse \<Rightarrow>
          Inr ([ActionSubmitAttempt, ActionAskFreeQuestion, ActionEndActivity, ActionSwitchGoal], [])
      | StateEvaluating \<Rightarrow> Inr ([ActionRecordAssessment, ActionEndActivity, ActionSwitchGoal], [])
      | StateFeedback \<Rightarrow>
          (case wac_AssessmentDisposition context of
             DispositionProvisional \<Rightarrow>
               Inr ([], (if wac_AssessmentConfirmable context then [''confirm''] else []) @ [''override'', ''void''])
           | DispositionAccepted \<Rightarrow>
               Inr ([ActionAcknowledgeFeedback, ActionEndActivity, ActionSwitchGoal], [''override'', ''void''])
           | DispositionOverridden \<Rightarrow>
               Inr ([ActionAcknowledgeFeedback, ActionEndActivity, ActionSwitchGoal], [''override'', ''void''])
           | DispositionVoided \<Rightarrow>
               Inr ([ActionAcknowledgeFeedback, ActionEndActivity, ActionSwitchGoal], [])
           | _ \<Rightarrow> Inl (PlainError ''feedback assessment disposition is required''))
      | StateFreeQuestion \<Rightarrow> Inr ([ActionRecordFreeAnswer, ActionResumeFocus, ActionSwitchGoal], [])
      | StateFreeAnswer \<Rightarrow>
          Inr ([ActionAskFreeQuestion, ActionConvertFreeAnswerToQuiz, ActionResumeFocus, ActionSwitchGoal], [])
      | StateCompleted \<Rightarrow> Inr ([], [])
      | StateIdle \<Rightarrow> Inl (PlainError (''state '' @ state_text state @ '' is not a stable session view state''))
      | StateAdvanceOrReview \<Rightarrow> Inl (PlainError (''state '' @ state_text state @ '' is not a stable session view state''))
      | StateFocusSuspended \<Rightarrow> Inl (PlainError (''state '' @ state_text state @ '' is not a stable session view state''))
      | StateFocusResumed \<Rightarrow> Inl (PlainError (''state '' @ state_text state @ '' is not a stable session view state''))
      | _ \<Rightarrow> Inl (PlainError (''unknown tutoring state '' @ state_text state)))"

text \<open>
  The filter the session view puts on the offered actions: while an adaptive focus is held the
  question action is not offered.
\<close>

definition AllowedActions :: "Session \<Rightarrow> Action list \<Rightarrow> Action list" where
  "AllowedActions session actions =
     (if HasAdaptiveFocus session then filter (\<lambda>a. a \<noteq> ActionAskFreeQuestion) actions else actions)"

section \<open>What acceptance means\<close>

definition quotes :: "golib \<Rightarrow> string \<Rightarrow> SourceRange \<Rightarrow> string \<Rightarrow> string \<Rightarrow> bool" where
  "quotes L source r quote h \<longleftrightarrow> 0 \<le> rng_Start r \<and> rng_Start r < rng_End r \<and> rng_End r \<le> int (length source)
     \<and> quote = byte_slice source r \<and> h = SHA256 L quote"

fun conclusion_outcome :: "Conclusion \<Rightarrow> Outcome" where
  "conclusion_outcome ConclusionPass = OutcomePass"
| "conclusion_outcome ConclusionPartial = OutcomePartial"
| "conclusion_outcome ConclusionFail = OutcomeFail"
| "conclusion_outcome _ = OutcomeUnset"

text \<open>An item whose conclusion rests on bytes of the answer and bytes of a frozen reference.\<close>

definition grounded :: "golib \<Rightarrow> Activity \<Rightarrow> Attempt \<Rightarrow> AssessmentItem \<Rightarrow> bool" where
  "grounded L activity attempt item \<longleftrightarrow>
     conclusion_outcome (ai_Conclusion item) \<noteq> OutcomeUnset
   \<and> quotes L (att_Answer attempt) (ai_AnswerRange item) (ai_AnswerQuote item) (ai_AnswerQuoteSHA256 item)
   \<and> (\<exists>ref \<in> set (act_References activity). ref_NodeRevisionID ref = ai_KnowledgeReferenceID item
        \<and> ref_KnowledgeRevisionID ref = act_KnowledgeRevisionID activity
        \<and> quotes L (ref_Slice ref) (ai_KnowledgeRange item) (ai_KnowledgeQuote item) (ai_KnowledgeQuoteSHA256 item))"

definition overall_outcome :: "AssessmentItem list \<Rightarrow> Outcome" where
  "overall_outcome items =
     (if ConclusionFail \<in> ai_Conclusion ` set items then OutcomeFail
      else if ConclusionPartial \<in> ai_Conclusion ` set items then OutcomePartial else OutcomePass)"

section \<open>Lemmas\<close>

lemma acceptance_simps [simp]:
  "acc_Disposition (accepted out) = DispositionAccepted" "acc_Outcome (accepted out) = out"
  "acc_Reasons (accepted out) = []"
  "acc_Disposition (provisional rs) = DispositionProvisional" "acc_Outcome (provisional rs) = OutcomeUnset"
  "acc_Reasons (provisional rs) = rs"
  by (simp_all add: accepted_def provisional_def)

lemma validateSlice_None: "validateSlice L source r quote h = None \<longleftrightarrow> quotes L source r quote h"
  by (auto simp: validateSlice_def quotes_def Let_def)

lemma combine_loop_eq:
  "combine_loop acc vs =
     (if OutcomeFail \<in> set vs then OutcomeFail else if OutcomePartial \<in> set vs then OutcomePartial else acc)"
  by (induction vs arbitrary: acc) auto

lemma combineOutcomes_eq:
  "combineOutcomes vs =
     (if vs = [] then OutcomeUnset else if OutcomeFail \<in> set vs then OutcomeFail
      else if OutcomePartial \<in> set vs then OutcomePartial else OutcomePass)"
  by (simp add: combineOutcomes_def combine_loop_eq)

lemma set_unique [simp]: "set (unique xs) = set xs"
  by (induction xs rule: unique.induct) auto

lemma unique_eq_Nil [simp]: "unique xs = [] \<longleftrightarrow> xs = []"
  by (metis set_unique set_empty)

lemma unique_sorted_distinct: "sorted xs \<Longrightarrow> sorted (unique xs) \<and> distinct (unique xs)"
proof (induction xs rule: unique.induct)
  case (3 x y ys)
  have IH: "sorted (unique (y # ys)) \<and> distinct (unique (y # ys))"
    using 3 by (cases "x = y") simp_all
  have le: "\<forall>z \<in> set (y # ys). x \<le> z" and ge: "\<forall>z \<in> set ys. y \<le> z"
    using "3.prems" by simp_all
  show ?case
  proof (cases "x = y")
    case True
    with IH show ?thesis by simp
  next
    case False
    have "x \<notin> set (y # ys)"
      using le ge False by (metis antisym list.set_intros(1) set_ConsD)
    with IH le False show ?thesis by simp
  qed
qed simp_all

lemma evaluate_item_grounded:
  assumes "evaluate_item L activity attempt items refs seen item = Inr (os, [])"
    and "freeze_refs (act_KnowledgeRevisionID activity) (act_References activity) = Inr refs"
  shows "grounded L activity attempt item \<and> os = [conclusion_outcome (ai_Conclusion item)]"
proof -
  have refs: "\<And>k r. map_of refs k = Some r \<Longrightarrow> r \<in> set (act_References activity) \<and> ref_NodeRevisionID r = k"
    using index_by_lookup assms(2) unfolding freeze_refs_def by fast
  show ?thesis
    using assms(1)
    by (cases "ai_Conclusion item")
       (auto simp: evaluate_item_def item_answer_support_def item_knowledge_support_def grounded_def
          validateSlice_None split: option.splits if_splits sum.splits dest: refs)
qed

lemma evaluate_item_known:
  "evaluate_item L activity attempt items refs seen item = Inr r \<Longrightarrow>
     map_of items (ai_RubricItemID item) \<noteq> None \<and> ai_RubricItemID item \<notin> set seen"
  by (auto simp: evaluate_item_def split: option.splits if_splits)

lemma evaluate_items_ok:
  "evaluate_items L activity attempt items refs seen is = Inr (seen', os, ps) \<Longrightarrow>
     seen' = rev (map ai_RubricItemID is) @ seen
   \<and> distinct (map ai_RubricItemID is) \<and> set (map ai_RubricItemID is) \<inter> set seen = {}
   \<and> (\<forall>i \<in> set is. map_of items (ai_RubricItemID i) \<noteq> None)"
proof (induction "is" arbitrary: seen seen' os ps)
  case Nil
  then show ?case by simp
next
  case (Cons i "is")
  from Cons.prems obtain r os' ps' where
      item: "evaluate_item L activity attempt items refs seen i = Inr r"
    and rest: "evaluate_items L activity attempt items refs (ai_RubricItemID i # seen) is = Inr (seen', os', ps')"
    by (auto split: sum.splits prod.splits)
  show ?case
    using evaluate_item_known [OF item] Cons.IH [OF rest] by auto
qed

lemma evaluate_items_grounded:
  assumes "evaluate_items L activity attempt items refs seen is = Inr (seen', os, [])"
    and "freeze_refs (act_KnowledgeRevisionID activity) (act_References activity) = Inr refs"
  shows "(\<forall>i \<in> set is. grounded L activity attempt i) \<and> os = map (conclusion_outcome \<circ> ai_Conclusion) is"
  using assms(1)
proof (induction "is" arbitrary: seen seen' os)
  case Nil
  then show ?case by simp
next
  case (Cons i "is")
  from Cons.prems obtain o1 os' where
      item: "evaluate_item L activity attempt items refs seen i = Inr (o1, [])"
    and rest: "evaluate_items L activity attempt items refs (ai_RubricItemID i # seen) is = Inr (seen', os', [])"
    and os: "os = o1 @ os'"
    by (auto split: sum.splits prod.splits)
  show ?case
    using evaluate_item_grounded [OF item assms(2)] Cons.IH [OF rest] os by simp
qed

lemma item_reasons:
  "evaluate_item L activity attempt items refs seen item = Inr (os, ps) \<Longrightarrow>
     set ps \<subseteq> {''unassessed'', ''insufficient_answer_evidence'', ''insufficient_knowledge_support''}"
  by (auto simp: evaluate_item_def item_answer_support_def item_knowledge_support_def
      split: option.splits if_splits sum.splits)

lemma items_reasons:
  "evaluate_items L activity attempt items refs seen is = Inr (seen', os, ps) \<Longrightarrow>
     set ps \<subseteq> {''unassessed'', ''insufficient_answer_evidence'', ''insufficient_knowledge_support''}"
proof (induction "is" arbitrary: seen seen' os ps)
  case Nil
  then show ?case by simp
next
  case (Cons i "is")
  from Cons.prems obtain o1 p1 os' ps' where
      item: "evaluate_item L activity attempt items refs seen i = Inr (o1, p1)"
    and rest: "evaluate_items L activity attempt items refs (ai_RubricItemID i # seen) is = Inr (seen', os', ps')"
    and ps: "ps = p1 @ ps'"
    by (auto split: sum.splits prod.splits)
  show ?case
    using item_reasons [OF item] Cons.IH [OF rest] ps by (metis Un_least set_append)
qed

lemma conclusion_outcome_iff:
  "conclusion_outcome c = OutcomeFail \<longleftrightarrow> c = ConclusionFail"
  "conclusion_outcome c = OutcomePartial \<longleftrightarrow> c = ConclusionPartial"
  by (cases c; simp)+

lemma combine_conclusions:
  "is \<noteq> [] \<Longrightarrow> combineOutcomes (map (conclusion_outcome \<circ> ai_Conclusion) is) = overall_outcome is"
proof -
  have "OutcomeFail \<in> set (map (conclusion_outcome \<circ> ai_Conclusion) is) \<longleftrightarrow> ConclusionFail \<in> ai_Conclusion ` set is"
    using conclusion_outcome_iff(1) by (simp add: image_iff) metis
  moreover have "OutcomePartial \<in> set (map (conclusion_outcome \<circ> ai_Conclusion) is) \<longleftrightarrow> ConclusionPartial \<in> ai_Conclusion ` set is"
    using conclusion_outcome_iff(2) by (simp add: image_iff) metis
  moreover assume "is \<noteq> []"
  ultimately show ?thesis
    by (simp only: combineOutcomes_eq overall_outcome_def map_is_Nil_conv if_False)
qed

text \<open>The stages of an open evaluation, and the reasons it collected.\<close>

lemma evaluate_open_Inr:
  assumes "evaluate_open L activity attempt artifact = Inr acc"
  obtains items refs seen outcomes reasons where
    "freeze_rubric (rub_Items (act_Rubric activity)) = Inr items"
    "freeze_refs (act_KnowledgeRevisionID activity) (act_References activity) = Inr refs"
    "evaluate_items L activity attempt items refs [] (art_Items artifact) = Inr (seen, outcomes, reasons)"
    "acc = conclude outcomes (open_reasons activity artifact (length items) seen outcomes reasons)"
  using assms by (auto simp: evaluate_open_def split: sum.splits if_splits)

lemma conclude_accepted:
  "acc_Disposition (conclude outcomes reasons) = DispositionAccepted \<longleftrightarrow>
     reasons = [] \<and> combineOutcomes outcomes \<noteq> OutcomeUnset"
  by (simp add: conclude_def Let_def)

lemma combineOutcomes_unset [simp]: "combineOutcomes os = OutcomeUnset \<longleftrightarrow> os = []"
  by (simp add: combineOutcomes_eq)

lemma open_reasons_Nil:
  "open_reasons activity artifact n seen outcomes reasons = [] \<longleftrightarrow>
     rub_Items (act_Rubric activity) \<noteq> [] \<and> reasons = [] \<and> length seen = n \<and> art_RubricComplete artifact
     \<and> outcomes \<noteq> [] \<and> 850 \<le> art_Confidence artifact \<and> art_RiskFlags artifact = []"
  by (auto simp: open_reasons_def)

lemma assessed_ids_complete:
  assumes "freeze_rubric rubric = Inr items"
    and "evaluate_items L activity attempt items refs [] is = Inr (seen, outcomes, reasons)"
    and "length seen = length items"
  shows "ai_RubricItemID ` set is = item_ID ` set rubric"
proof (rule card_subset_eq)
  show "finite (item_ID ` set rubric)" by simp
  from evaluate_items_ok [OF assms(2)]
  have "seen = rev (map ai_RubricItemID is)" and dist: "distinct (map ai_RubricItemID is)"
    and known: "\<forall>i \<in> set is. map_of items (ai_RubricItemID i) \<noteq> None" by auto
  then show "ai_RubricItemID ` set is \<subseteq> item_ID ` set rubric"
    using index_by_dom [OF assms(1) [unfolded freeze_rubric_def]] by auto
  have "distinct (map item_ID rubric)" "length items = length rubric"
    using assms(1) by (auto simp: freeze_rubric_def index_by_Inr)
  then show "card (ai_RubricItemID ` set is) = card (item_ID ` set rubric)"
    using dist \<open>seen = _\<close> assms(3)
    by (metis distinct_card length_map length_rev list.set_map)
qed

lemma evaluate_open_accepted:
  assumes "evaluate_open L activity attempt artifact = Inr acc" and "acc_Disposition acc = DispositionAccepted"
  shows "distinct (map ai_RubricItemID (art_Items artifact))
    \<and> ai_RubricItemID ` set (art_Items artifact) = item_ID ` set (rub_Items (act_Rubric activity))
    \<and> rub_Items (act_Rubric activity) \<noteq> [] \<and> (\<forall>i \<in> set (art_Items artifact). grounded L activity attempt i)
    \<and> 850 \<le> art_Confidence artifact \<and> art_RiskFlags artifact = [] \<and> art_RubricComplete artifact
    \<and> acc_Outcome acc = overall_outcome (art_Items artifact)"
  using assms(1)
proof (rule evaluate_open_Inr)
  fix items refs seen outcomes reasons
  assume items: "freeze_rubric (rub_Items (act_Rubric activity)) = Inr items"
    and refs: "freeze_refs (act_KnowledgeRevisionID activity) (act_References activity) = Inr refs"
    and ev: "evaluate_items L activity attempt items refs [] (art_Items artifact) = Inr (seen, outcomes, reasons)"
    and acc: "acc = conclude outcomes (open_reasons activity artifact (length items) seen outcomes reasons)"
  have clean: "open_reasons activity artifact (length items) seen outcomes reasons = []"
    using acc assms(2) by (simp add: conclude_accepted)
  then have acc': "acc_Outcome acc = combineOutcomes outcomes"
    using acc by (simp add: conclude_def Let_def open_reasons_Nil)
  note clean = clean [unfolded open_reasons_Nil]
  have "(\<forall>i \<in> set (art_Items artifact). grounded L activity attempt i)
      \<and> outcomes = map (conclusion_outcome \<circ> ai_Conclusion) (art_Items artifact)"
    using evaluate_items_grounded [OF _ refs] ev clean by blast
  then show ?thesis
    using clean acc' assessed_ids_complete [OF items ev] evaluate_items_ok [OF ev]
      combine_conclusions [of "art_Items artifact"] by auto
qed

text \<open>
  A confirmable assessment misses acceptance only by confidence or by the two risks a person may
  overrule; judged again without them it is accepted.
\<close>

lemma evaluate_open_confirmable:
  assumes "evaluate_open L activity attempt artifact = Inr acc" and "art_RubricComplete artifact"
    and "set (acc_Reasons acc) \<subseteq> set [''low_confidence'', RiskConflictingEvidence, RiskAmbiguousRubric]"
  shows "evaluate_open L activity attempt (replacement_artifact artifact (art_Items artifact))
     = Inr (accepted (overall_outcome (art_Items artifact)))"
  using assms(1)
proof (rule evaluate_open_Inr)
  fix items refs seen outcomes reasons
  assume items: "freeze_rubric (rub_Items (act_Rubric activity)) = Inr items"
    and refs: "freeze_refs (act_KnowledgeRevisionID activity) (act_References activity) = Inr refs"
    and ev: "evaluate_items L activity attempt items refs [] (art_Items artifact) = Inr (seen, outcomes, reasons)"
    and acc: "acc = conclude outcomes (open_reasons activity artifact (length items) seen outcomes reasons)"
  let ?new = "replacement_artifact artifact (art_Items artifact)"
  let ?all = "open_reasons activity artifact (length items) seen outcomes reasons"
  have "set ?all \<subseteq> set (acc_Reasons acc)"
    using acc by (auto simp: conclude_def Let_def)
  with assms(3) have sub: "set ?all \<subseteq> {''low_confidence'', ''conflicting_evidence'', ''ambiguous_rubric''}"
    by (simp add: risk_defs subset_trans)
  have "reasons = []"
    using items_reasons [OF ev] sub by (cases reasons) (auto simp: open_reasons_def)
  moreover have "rub_Items (act_Rubric activity) \<noteq> []" "length seen = length items" "outcomes \<noteq> []"
    using sub by (auto simp: open_reasons_def split: if_splits)
  ultimately have "open_reasons activity ?new (length items) seen outcomes reasons = []"
    by (simp add: open_reasons_Nil replacement_artifact_def)
  moreover have "outcomes = map (conclusion_outcome \<circ> ai_Conclusion) (art_Items artifact)"
    using evaluate_items_grounded [OF _ refs] ev \<open>reasons = []\<close> by blast
  ultimately show ?thesis
    using items refs ev combine_conclusions [of "art_Items artifact"] \<open>outcomes \<noteq> []\<close>
    by (auto simp: evaluate_open_def conclude_def Let_def replacement_artifact_def)
qed

lemma ConfirmableAssessment_Open:
  assumes "ConfirmableAssessment L activity attempt artifact"
  obtains acc where "act_Type activity = ActivityOpen" "art_RubricComplete artifact"
    "EvaluateAssessment L activity attempt artifact = evaluate_open L activity attempt artifact"
    "evaluate_open L activity attempt artifact = Inr acc"
    "set (acc_Reasons acc) \<subseteq> set [''low_confidence'', RiskConflictingEvidence, RiskAmbiguousRubric]"
  using assms
  by (auto simp: ConfirmableAssessment_def EvaluateAssessment_def evaluate_objective_def
      split: if_splits sum.splits option.splits)

lemma conclude_provisional_reasons:
  "sorted (acc_Reasons (conclude outcomes reasons)) \<and> distinct (acc_Reasons (conclude outcomes reasons))
   \<and> (acc_Reasons (conclude outcomes reasons) = [] \<longleftrightarrow> acc_Disposition (conclude outcomes reasons) = DispositionAccepted)"
  by (simp add: conclude_def Let_def unique_sorted_distinct sort_strings_sorted)

section \<open>Properties\<close>

text \<open>
  C35: an open assessment is accepted only when it is grounded: every rubric item is assessed
  exactly once, every conclusion is backed by a quotation that equals the bytes of the answer and
  by one that equals the bytes of a reference frozen with the activity, the model is confident
  (850 of 1000) and raised no risk, and the outcome is the worst of the items'.
\<close>

theorem accepted_assessment_grounded:
  assumes "EvaluateAssessment L activity attempt artifact = Inr acc" and "acc_Disposition acc = DispositionAccepted"
    and "act_Type activity = ActivityOpen"
  shows "distinct (map ai_RubricItemID (art_Items artifact))
    \<and> ai_RubricItemID ` set (art_Items artifact) = item_ID ` set (rub_Items (act_Rubric activity))
    \<and> rub_Items (act_Rubric activity) \<noteq> [] \<and> (\<forall>i \<in> set (art_Items artifact). grounded L activity attempt i)
    \<and> 850 \<le> art_Confidence artifact \<and> art_RiskFlags artifact = [] \<and> art_RubricComplete artifact
    \<and> acc_Outcome acc = overall_outcome (art_Items artifact)"
  using assms
  by (intro evaluate_open_accepted) (auto simp: EvaluateAssessment_def split: if_splits)

text \<open>
  an evaluation that does not refuse is accepted without reasons or provisional with at least
  one; the reasons are sorted and without repetition.
\<close>

theorem evaluation_reasons:
  assumes "EvaluateAssessment L activity attempt artifact = Inr acc"
  shows "acc_Disposition acc \<in> {DispositionAccepted, DispositionProvisional}
    \<and> (acc_Reasons acc = [] \<longleftrightarrow> acc_Disposition acc = DispositionAccepted)
    \<and> sorted (acc_Reasons acc) \<and> distinct (acc_Reasons acc)"
proof -
  have "acc = provisional [''answer_revealed''] \<or> evaluate_objective L activity attempt = Inr acc
      \<or> evaluate_open L activity attempt artifact = Inr acc"
    using assms by (simp add: EvaluateAssessment_def split: if_split_asm)
  then consider (revealed) "acc = provisional [''answer_revealed'']"
    | (objective) "evaluate_objective L activity attempt = Inr acc"
    | (judged) "evaluate_open L activity attempt artifact = Inr acc" by blast
  then show ?thesis
  proof cases
    case judged
    then obtain outcomes reasons where "acc = conclude outcomes reasons"
      by (rule evaluate_open_Inr)
    then show ?thesis
      using conclude_provisional_reasons [of outcomes reasons]
      by (auto simp: conclude_def Let_def)
  qed (auto simp: evaluate_objective_def split: option.splits if_splits)
qed

text \<open>
  an objective activity is judged by its rule alone: whatever the artifact claims beyond the
  identifiers, the outcome is pass exactly when the answer matches an accepted answer.
\<close>

theorem objective_deterministic:
  assumes "EvaluateAssessment L activity attempt artifact = Inr acc" and "act_Type activity = ActivityObjective"
    and "att_Help attempt \<noteq> HelpAnswerRevealed"
  shows "\<exists>rule. rub_ObjectiveRule (act_Rubric activity) = Some rule \<and>
     acc = accepted (if \<exists>e \<in> set (rule_AcceptedAnswers rule). objective_matches L rule (att_Answer attempt) e
                     then OutcomePass else OutcomeFail)"
  using assms
  by (auto simp: EvaluateAssessment_def evaluate_objective_def split: if_splits option.splits)

text \<open>
  what is offered for confirmation can be confirmed: an assessment that
  \<open>ConfirmableAssessment\<close> admits passes the validation the confirm command runs on the artifact's
  own items, with the outcome those items have.
\<close>

theorem confirmable_is_replaceable:
  assumes "ConfirmableAssessment L activity attempt artifact"
  shows "ValidateAssessmentReplacement L activity attempt artifact (art_Items artifact)
     = Inr (overall_outcome (art_Items artifact))"
  using assms
proof (rule ConfirmableAssessment_Open)
  fix acc
  assume kind: "act_Type activity = ActivityOpen" and complete: "art_RubricComplete artifact"
    and eval: "EvaluateAssessment L activity attempt artifact = evaluate_open L activity attempt artifact"
    and acc: "evaluate_open L activity attempt artifact = Inr acc"
    and reasons: "set (acc_Reasons acc) \<subseteq> set [''low_confidence'', RiskConflictingEvidence, RiskAmbiguousRubric]"
  let ?new = "replacement_artifact artifact (art_Items artifact)"
  have "EvaluateAssessment L activity attempt ?new = evaluate_open L activity attempt ?new"
    using eval acc assms kind
    by (auto simp: EvaluateAssessment_def ConfirmableAssessment_def replacement_artifact_def split: if_splits)
  then show ?thesis
    using evaluate_open_confirmable [OF acc complete reasons] kind
    by (simp add: ValidateAssessmentReplacement_def overall_outcome_def)
qed

text \<open>
  the decision table. A decision is taken only at the version it was made for; a voided
  assessment takes none; confirming needs a provisional, confirmable assessment and leaves the
  proposed items; overriding needs a reason and a complete replacement; every accepted decision
  invalidates the evidence there was unless it confirms, and voiding produces none.
\<close>

theorem DecideAssessment_table:
  "(\<exists>effect. DecideAssessment current artifact command confirmable = Inr effect
      \<and> de_Disposition effect = d \<and> de_InvalidateEvidence effect = invalidated \<and> de_CreateEvidence effect = created) \<longleftrightarrow>
   dc_ExpectedVersion command = dec_Version current \<and>
   ((dc_Kind command = ''confirm'' \<and> dec_Disposition current = DispositionProvisional \<and> confirmable
       \<and> d = DispositionAccepted \<and> \<not> invalidated \<and> created)
    \<or> (dc_Kind command = ''override'' \<and> dec_Disposition current \<noteq> DispositionVoided
       \<and> trim_space (dc_Reason command) \<noteq> [] \<and> completeReplacement (dc_Items command) = None
       \<and> d = DispositionOverridden \<and> invalidated = (dec_ProducedEvidenceID current \<noteq> None) \<and> created)
    \<or> (dc_Kind command = ''void'' \<and> dec_Disposition current \<noteq> DispositionVoided
       \<and> d = DispositionVoided \<and> invalidated = (dec_ProducedEvidenceID current \<noteq> None) \<and> \<not> created))"
  by (auto simp: DecideAssessment_def Let_def completeReplacement_def split: option.splits)

text \<open>
  every decision the feedback offers is one \<open>DecideAssessment\<close> takes at the current version,
  given a reason and a complete replacement for an override; and nothing is offered once voided.
\<close>

theorem feedback_decisions_taken:
  assumes "kind \<in> set (FeedbackDecisions L activity attempt artifact decision)"
    and "dc_Kind command = kind" and "dc_ExpectedVersion command = dec_Version decision"
    and "kind = ''override'' \<Longrightarrow> trim_space (dc_Reason command) \<noteq> [] \<and> completeReplacement (dc_Items command) = None"
  shows "\<exists>effect. DecideAssessment decision artifact command (ConfirmableAssessment L activity attempt artifact) = Inr effect"
  using assms
  by (auto simp: FeedbackDecisions_def DecideAssessment_def Let_def completeReplacement_def
      split: if_splits)

text \<open>
  every action the session view offers is one the state machine accepts, with one exception:
  a free question while a focus frame is live. (A frame the store found broken makes
  \<open>resume_focus\<close> fail, hence the hypothesis.)
\<close>

theorem offered_actions_accepted:
  assumes "session_inv s" and "\<not> sess_FocusFrameInvalidated s"
    and "WorkItemActions (sess_State s) context = Inr (actions, decisions)"
    and "a \<in> set (AllowedActions s actions)" and "cmd_Action c = a" and "cmd_SessionID c = sess_ID s"
  shows "(\<exists>t. Apply s c = Inr t)
     \<or> (a = ActionAskFreeQuestion \<and> sess_State s \<noteq> StateFreeAnswer \<and> live_frame s)"
proof -
  have "accepts s a \<or> (a = ActionAskFreeQuestion \<and> sess_State s \<noteq> StateFreeAnswer \<and> live_frame s)"
    using assms(1-4)
    by (cases "sess_State s")
       (auto simp: WorkItemActions_def AllowedActions_def accepts_def session_inv_def
         split: if_splits Disposition.splits)
  then show ?thesis
    using Apply_accept_iff_aux [OF session_inv_not_unset [OF assms(1)], of c] assms(5,6) by auto
qed

text \<open>
  C38: the exception happens. A session that asked a question in a lesson, recorded the answer and
  turned it into an attached quiz is offered \<open>ask_free_question\<close>, and the machine refuses it
  because the quiz lives inside the focus frame that is still open.
\<close>

theorem offered_question_refused:
  "\<exists>s actions. reaches tutoring_step (idle_session ''s'') s
     \<and> WorkItemActions (sess_State s) context = Inr (actions, [])
     \<and> ActionAskFreeQuestion \<in> set (AllowedActions s actions)
     \<and> Apply s (plain_command ActionAskFreeQuestion) = Inl ErrFocusFrameExists"
proof -
  let ?s = "run tutoring_step (idle_session ''s'') (map plain_command
     [ActionCreateSession, ActionApplyRoute, ActionAskFreeQuestion, ActionRecordFreeAnswer,
      ActionConvertFreeAnswerToQuiz])"
  have s: "?s = (lesson_session StateActivityIssued)\<lparr>sess_AttachedQuiz := True, sess_ActiveFrame := Some
      \<lparr>frame_ID = ''f'', frame_SessionID = ''s'', frame_SavedState = StateRouteActive, frame_Context = empty_context,
       frame_SavedAggregateVersion = 0, frame_CreatedEventSequence = 7, frame_Invalidated = False,
       frame_InvalidationReason = []\<rparr>\<rparr>"
    by (simp add: tutoring_step_def apply_unfold lesson_defs)
  have "reaches tutoring_step (idle_session ''s'') ?s" by (rule run_reaches)
  moreover have "Apply ?s (plain_command ActionAskFreeQuestion) = Inl ErrFocusFrameExists"
    unfolding s by (simp add: apply_unfold lesson_defs)
  moreover have "\<exists>actions. WorkItemActions (sess_State ?s) context = Inr (actions, [])
     \<and> ActionAskFreeQuestion \<in> set (AllowedActions ?s actions)"
    unfolding s by (simp add: WorkItemActions_def AllowedActions_def HasAdaptiveFocus_def lesson_defs)
  ultimately show ?thesis by blast
qed

section \<open>Examples\<close>

definition example_reference :: KnowledgeReference where
  "example_reference = \<lparr>ref_KnowledgeRevisionID = ''k1'', ref_NodeID = ''n'', ref_NodeRevisionID = ''n1'',
     ref_DocumentRevisionID = ''d1'', ref_Range = \<lparr>rng_Start = 0, rng_End = 5\<rparr>, ref_Slice = ''water'',
     ref_SliceSHA256 = SHA256 example_lib ''water''\<rparr>"

definition example_activity :: "ActivityType \<Rightarrow> Activity" where
  "example_activity typ = \<lparr>act_ID = ''a'', act_Revision = 1, act_SessionID = ''s'', act_GoalRevisionID = ''g1'',
     act_RouteRevisionID = ''r1'', act_RouteStepID = ''st1'', act_KnowledgeRevisionID = ''k1'',
     act_TargetNodeID = ''n'', act_TargetNodeRevisionID = ''n1'', act_References = [example_reference],
     act_Prompt = ''What boils?'', act_Type = typ,
     act_Rubric = \<lparr>rub_Revision = ''v1'', rub_Items = [\<lparr>item_ID = ''i1'', item_Criterion = ''names it'', item_RequiredReferenceIDs = []\<rparr>],
       rub_ObjectiveRule = Some \<lparr>rule_AcceptedAnswers = ['' water''], rule_CaseSensitive = False, rule_TrimSpace = True\<rparr>\<rparr>,
     act_Difficulty = 1, act_AllowedHelp = [HelpNone], act_ActivityPolicyVersion = [], act_AssessmentPolicyVersion = [],
     act_ReviewPolicyVersion = [], act_SourceProposalID = [], act_AttachedFreeQuestionID = [],
     act_AttachedFreeAnswerID = [], act_Review = False, act_CreatedAt = 0\<rparr>"

definition example_attempt :: Attempt where
  "example_attempt = \<lparr>att_ID = ''t'', att_SessionID = ''s'', att_ActivityID = ''a'', att_ActivityRevision = 1,
     att_AnswerPayloadID = [], att_Answer = '' water'', att_AnswerSHA256 = [], att_Help = HelpNone,
     att_ActorDeviceID = [], att_OccurredAt = None, att_ReceivedAt = 1, att_EvidenceEligibility = True,
     att_EvidenceIneligibleReason = [], att_ArchiveDisposition = [], att_OfflineSubmissionID = []\<rparr>"

definition example_item :: AssessmentItem where
  "example_item = \<lparr>ai_RubricItemID = ''i1'', ai_Conclusion = ConclusionPass, ai_AnswerQuote = ''water'',
     ai_AnswerRange = \<lparr>rng_Start = 1, rng_End = 6\<rparr>, ai_AnswerQuoteSHA256 = SHA256 example_lib ''water'',
     ai_KnowledgeReferenceID = ''n1'', ai_KnowledgeQuote = ''water'', ai_KnowledgeRange = \<lparr>rng_Start = 0, rng_End = 5\<rparr>,
     ai_KnowledgeQuoteSHA256 = SHA256 example_lib ''water'', ai_MisconceptionCandidate = []\<rparr>"

definition example_artifact :: "int \<Rightarrow> AssessmentArtifact" where
  "example_artifact confidence = \<lparr>art_ID = ''as'', art_SessionID = ''s'', art_AttemptID = ''t'', art_ActivityID = ''a'',
     art_ActivityRevision = 1, art_Items = [example_item], art_RubricComplete = True, art_Confidence = confidence,
     art_RiskFlags = [], art_ModelID = [], art_ModelParameters = [], art_PromptRevision = [], art_ProposalInputHash = [],
     art_Attempts = 1, art_AttemptCategories = [], art_CreatedAt = 0, art_EvidenceEligibility = True,
     art_EvidenceIneligibleReason = []\<rparr>"

definition example_decision :: "Disposition \<Rightarrow> AssessmentDecision" where
  "example_decision d = \<lparr>dec_ID = ''d'', dec_AssessmentID = ''as'', dec_Version = 3, dec_Disposition = d,
     dec_Items = [], dec_Reason = [], dec_ActorDeviceID = [], dec_CreatedAt = 0, dec_ReplacesDecisionID = None,
     dec_ProducedEvidenceID = None\<rparr>"

lemmas example_defs = example_activity_def example_attempt_def example_artifact_def example_item_def
  example_reference_def

lemmas evaluation_defs = EvaluateAssessment_def evaluate_open_def has_target_reference_def freeze_rubric_def
  freeze_refs_def evaluate_item_def item_answer_support_def item_knowledge_support_def assessmentSupportMissing_def
  validateSlice_def byte_slice_def open_reasons_def conclude_def combineOutcomes_def sort_strings_def Let_def

lemma example_accepted:
  "EvaluateAssessment example_lib (example_activity ActivityOpen) example_attempt (example_artifact 900)
     = Inr (accepted OutcomePass)"
  by (simp add: evaluation_defs example_defs)

lemma example_provisional:
  "EvaluateAssessment example_lib (example_activity ActivityOpen) example_attempt (example_artifact 700)
     = Inr (provisional [''low_confidence''])"
  by (simp add: evaluation_defs example_defs)

lemma example_objective:
  "EvaluateAssessment example_lib (example_activity ActivityObjective) example_attempt (example_artifact 0)
     = Inr (accepted OutcomePass)"
  by (simp add: EvaluateAssessment_def has_target_reference_def evaluate_objective_def objective_matches_def example_defs)

lemma example_confirmable:
  "ConfirmableAssessment example_lib (example_activity ActivityOpen) example_attempt (example_artifact 700)"
  unfolding ConfirmableAssessment_def example_provisional
  by (simp add: example_defs)

theorem accepted_assessment_grounded_witness:
  "grounded example_lib (example_activity ActivityOpen) example_attempt example_item"
  using accepted_assessment_grounded [OF example_accepted]
  by (simp add: example_activity_def example_artifact_def)

theorem evaluation_reasons_witness:
  "acc_Reasons (provisional [''low_confidence'']) \<noteq> []"
  using evaluation_reasons [OF example_provisional] by simp

theorem objective_deterministic_witness:
  "\<exists>rule. rub_ObjectiveRule (act_Rubric (example_activity ActivityObjective)) = Some rule \<and>
     accepted OutcomePass = accepted (if \<exists>e \<in> set (rule_AcceptedAnswers rule). objective_matches example_lib rule (att_Answer example_attempt) e
                     then OutcomePass else OutcomeFail)"
  using objective_deterministic [OF example_objective]
  by (simp add: example_activity_def example_attempt_def)

theorem confirmable_is_replaceable_witness:
  "ValidateAssessmentReplacement example_lib (example_activity ActivityOpen) example_attempt (example_artifact 700) [example_item]
     = Inr OutcomePass"
  using confirmable_is_replaceable [OF example_confirmable]
  by (simp add: overall_outcome_def example_artifact_def example_item_def)

theorem feedback_decisions_taken_witness:
  "\<exists>effect. DecideAssessment (example_decision DispositionProvisional) (example_artifact 700)
     \<lparr>dc_Kind = ''confirm'', dc_ExpectedVersion = 3, dc_Reason = [], dc_Items = []\<rparr>
     (ConfirmableAssessment example_lib (example_activity ActivityOpen) example_attempt (example_artifact 700)) = Inr effect"
proof (rule feedback_decisions_taken)
  show "''confirm'' \<in> set (FeedbackDecisions example_lib (example_activity ActivityOpen) example_attempt
     (example_artifact 700) (example_decision DispositionProvisional))"
    using example_confirmable
    by (simp add: FeedbackDecisions_def example_decision_def) (simp add: example_defs)
qed (simp_all add: example_decision_def)

theorem offered_actions_accepted_witness:
  "\<exists>t. Apply (lesson_session StateActivityIssued) (plain_command ActionEndActivity) = Inr t"
  using offered_actions_accepted [of "lesson_session StateActivityIssued"
      "\<lparr>wac_DueReview = False, wac_AssessmentDisposition = DispositionUnset, wac_AssessmentConfirmable = False\<rparr>"
      "[ActionPresentActivity, ActionAskFreeQuestion, ActionEndActivity, ActionSwitchGoal]" "[]"
      ActionEndActivity "plain_command ActionEndActivity"]
  by (simp add: lesson_defs session_inv_def WorkItemActions_def AllowedActions_def HasAdaptiveFocus_def)

end
