(* ===== verification/Reducer.thy ===== *)
theory Reducer
  imports Learning_Domain
begin

text \<open>
  The mastery reducer, \<open>server/internal/learning/reducer.go\<close>, and the estimate of active time,
  \<open>time.go\<close>. \<open>ReduceNode\<close> turns the accepted evidence of one knowledge node, less what was
  invalidated, into its mastery state, its review schedule and its misconception hypotheses;
  \<open>EstimateActiveTime\<close> turns the moments a learner acted into an estimate of the time spent.

  The lemmas: \<open>retained\<close> finds exactly the pairs of recalls it is meant to find, although it keeps
  only two candidates; the reduction does not depend on the order of its inputs nor on the order a
  Go map is iterated in; every hypothesis has the source its last field is read from; the review
  ladder stays within its five intervals; the estimate is bounded by the span it covers.
\<close>

section \<open>Records\<close>

datatype MasteryState = MasteryUnseen | MasteryLearning | MasteryProvisional | MasteryRetained

record ReviewSchedule =
  rev_AttemptID :: string
  rev_CarrierSessionID :: string
  rev_GoalName :: string
  rev_SpaceName :: string
  rev_TaskID :: string
  rev_GoalID :: string
  rev_LearningSpaceID :: string
  rev_GoalRevisionID :: string
  rev_KnowledgeRevisionID :: string
  rev_RouteRevisionID :: string
  rev_SessionID :: string
  rev_EvidenceID :: string
  rev_Startable :: bool
  rev_UnavailableReason :: string
  rev_NodeRevisionID :: string
  rev_Step :: nat
  rev_DueAt :: time
  rev_Intervals :: "int list"
  rev_PolicyVersion :: string

record MasteryProjection =
  mp_NodeRevisionID :: string
  mp_State :: MasteryState
  mp_BaselineState :: MasteryState
  mp_ValidEvidenceCount :: int
  mp_Kinds :: "(EvidenceKind, int) gomap"
  mp_Outcomes :: "(Outcome, int) gomap"
  mp_Help :: "(HelpLevel, int) gomap"
  mp_LastEvidenceAt :: "time option"
  mp_PendingAssessments :: int
  mp_UncertaintyReasons :: "string list"
  mp_ReducerVersion :: string

datatype MisconceptionStatus = MisconceptionProposed | MisconceptionSupported
  | MisconceptionChallenged | MisconceptionResolved

record MisconceptionHypothesis =
  mh_ID :: string
  mh_Revision :: int
  mh_NodeRevisionID :: string
  mh_RubricItemID :: string
  mh_CandidateHash :: string
  mh_Candidate :: string
  mh_Status :: MisconceptionStatus
  mh_SourceEvidenceIDs :: "string list"
  mh_CounterEvidenceIDs :: "string list"
  mh_CausedByEvidenceID :: string

record NodeReduction =
  nr_Mastery :: MasteryProjection
  nr_Review :: "ReviewSchedule option"
  nr_Misconceptions :: "MisconceptionHypothesis list"

record PendingAssessment =
  pa_AssessmentID :: string
  pa_NodeRevisionID :: string
  pa_Reasons :: "string list"

definition reviewIntervals :: "int list" where
  "reviewIntervals = [24 * hour, 3 * 24 * hour, 7 * 24 * hour, 14 * 24 * hour, 30 * 24 * hour]"

section \<open>Mastery\<close>

definition lowHelp :: "HelpLevel \<Rightarrow> bool" where
  "lowHelp v \<longleftrightarrow> v = HelpNone \<or> v = HelpHint"

definition successfulActiveRecall :: "AcceptedEvidence \<Rightarrow> bool" where
  "successfulActiveRecall e \<longleftrightarrow>
     (ev_Kind e = EvidencePracticeRecall \<or> ev_Kind e = EvidenceReviewRecall)
     \<and> ev_Outcome e = OutcomePass \<and> lowHelp (ev_Help e)"

text \<open>The two loops of \<open>retained\<close>: where the last segment starts, and the scan of that segment.\<close>

fun segment_start :: "nat \<Rightarrow> nat \<Rightarrow> AcceptedEvidence list \<Rightarrow> nat" where
  "segment_start i start [] = start"
| "segment_start i start (e # es) =
     segment_start (i + 1)
       (if ev_Outcome e = OutcomeFail \<or> ev_Outcome e = OutcomePartial then i + 1 else start) es"

fun retained_loop ::
  "AcceptedEvidence option \<Rightarrow> AcceptedEvidence option \<Rightarrow> string list \<Rightarrow> AcceptedEvidence list \<Rightarrow> bool" where
  "retained_loop earliest alternate seenActivities [] = False"
| "retained_loop earliest alternate seenActivities (e # es) =
     (if \<not> successfulActiveRecall e then retained_loop earliest alternate seenActivities es
      else
        (let candidate = (case earliest of
               Some c \<Rightarrow> if ev_ActivityID c = ev_ActivityID e then alternate else earliest
             | None \<Rightarrow> earliest)
         in if (case candidate of None \<Rightarrow> False
                | Some c \<Rightarrow> time_sub (ev_ReceivedAt e) (ev_ReceivedAt c) \<ge> 24 * hour)
            then True
            else if ev_ActivityID e \<in> set seenActivities
            then retained_loop earliest alternate seenActivities es
            else if earliest = None
            then retained_loop (Some e) alternate (ev_ActivityID e # seenActivities) es
            else if alternate = None
            then retained_loop earliest (Some e) (ev_ActivityID e # seenActivities) es
            else retained_loop earliest alternate (ev_ActivityID e # seenActivities) es))"

definition retained :: "AcceptedEvidence list \<Rightarrow> bool" where
  "retained values = retained_loop None None [] (drop (segment_start 0 0 values) values)"

section \<open>Review schedule\<close>

definition new_schedule :: "string \<Rightarrow> AcceptedEvidence \<Rightarrow> ReviewSchedule" where
  "new_schedule node e =
     \<lparr>rev_AttemptID = [], rev_CarrierSessionID = [], rev_GoalName = [], rev_SpaceName = [], rev_TaskID = [],
      rev_GoalID = [], rev_LearningSpaceID = [], rev_GoalRevisionID = [], rev_KnowledgeRevisionID = [],
      rev_RouteRevisionID = [], rev_SessionID = [], rev_EvidenceID = [], rev_Startable = False,
      rev_UnavailableReason = [], rev_NodeRevisionID = node, rev_Step = 0,
      rev_DueAt = ev_ReceivedAt e + reviewIntervals ! 0, rev_Intervals = reviewIntervals,
      rev_PolicyVersion = ReviewPolicyVersion\<rparr>"

fun review_loop :: "string \<Rightarrow> ReviewSchedule option \<Rightarrow> AcceptedEvidence list \<Rightarrow> ReviewSchedule option" where
  "review_loop node result [] = result"
| "review_loop node result (e # es) =
     (if ev_Kind e \<noteq> EvidencePracticeRecall \<and> ev_Kind e \<noteq> EvidenceReviewRecall
      then review_loop node result es
      else case result of
          None \<Rightarrow> review_loop node (Some (new_schedule node e)) es
        | Some r \<Rightarrow>
            if ev_Outcome e \<noteq> OutcomePass \<or> \<not> lowHelp (ev_Help e)
            then review_loop node (Some (new_schedule node e)) es
            else if \<not> ev_ReceivedAt e < rev_DueAt r
            then let step = (if rev_Step r < length reviewIntervals - 1 then rev_Step r + 1 else rev_Step r)
                 in review_loop node
                      (Some (r\<lparr>rev_Step := step, rev_DueAt := ev_ReceivedAt e + reviewIntervals ! step\<rparr>)) es
            else review_loop node result es)"

definition reduceReview :: "string \<Rightarrow> AcceptedEvidence list \<Rightarrow> ReviewSchedule option" where
  "reduceReview node values = review_loop node None values"

section \<open>Misconceptions\<close>

record collected =
  grp_candidate :: string
  grp_rubric :: string
  grp_failures :: "AcceptedEvidence list"
  grp_counters :: "AcceptedEvidence list"
  grp_lastFailureIndex :: nat

definition normalizeCandidate :: "golib \<Rightarrow> string \<Rightarrow> string" where
  "normalizeCandidate L v = join '' '' (str_fields (to_lower (lib_lower L) (trim_space v)))"

text \<open>\<open>formatUUID\<close> of the first 16 bytes of a digest.\<close>

definition formatUUID :: "string \<Rightarrow> string" where
  "formatUUID v =
     (let encoded = hex_encode v; part = (\<lambda>a b. take (b - a) (drop a encoded))
      in part 0 8 @ ''-'' @ part 8 12 @ ''-'' @ part 12 16 @ ''-'' @ part 16 20 @ ''-'' @ part 20 32)"

fun collect_candidates ::
  "golib \<Rightarrow> nat \<Rightarrow> AcceptedEvidence \<Rightarrow> MisconceptionCandidate list \<Rightarrow> (string, collected) gomap
    \<Rightarrow> (string, collected) gomap" where
  "collect_candidates L i e [] groups = groups"
| "collect_candidates L i e (c # cs) groups =
     (let normalized = normalizeCandidate L (mc_Text c)
      in if normalized = [] then collect_candidates L i e cs groups
         else let key = mc_RubricItemID c @ [CHR 0x00] @ normalized;
                  group = (case map_of groups key of
                      None \<Rightarrow> \<lparr>grp_candidate = normalized, grp_rubric = mc_RubricItemID c, grp_failures = [],
                               grp_counters = [], grp_lastFailureIndex = 0\<rparr>
                    | Some g \<Rightarrow> g)
              in collect_candidates L i e cs
                   (AList.update key (group\<lparr>grp_failures := grp_failures group @ [e], grp_lastFailureIndex := i\<rparr>) groups))"

fun collect_failures ::
  "golib \<Rightarrow> nat \<Rightarrow> AcceptedEvidence list \<Rightarrow> (string, collected) gomap \<Rightarrow> (string, collected) gomap" where
  "collect_failures L i [] groups = groups"
| "collect_failures L i (e # es) groups =
     collect_failures L (i + 1) es
       (if ev_Outcome e = OutcomeFail \<or> ev_Outcome e = OutcomePartial
        then collect_candidates L i e (ev_Misconceptions e) groups else groups)"

fun counters_loop :: "string \<Rightarrow> nat \<Rightarrow> nat \<Rightarrow> AcceptedEvidence list \<Rightarrow> AcceptedEvidence list" where
  "counters_loop rubric lastFailure i [] = []"
| "counters_loop rubric lastFailure i (e # es) =
     (if i \<le> lastFailure then counters_loop rubric lastFailure (i + 1) es
      else if \<exists>ro \<in> set (ev_RubricOutcomes e). ro_RubricItemID ro = rubric \<and> ro_Conclusion ro = ConclusionPass
      then e # counters_loop rubric lastFailure (i + 1) es
      else counters_loop rubric lastFailure (i + 1) es)"

definition add_counters :: "AcceptedEvidence list \<Rightarrow> collected \<Rightarrow> collected" where
  "add_counters values g =
     g\<lparr>grp_counters := grp_counters g @ counters_loop (grp_rubric g) (grp_lastFailureIndex g) 0 values\<rparr>"

definition hypothesis :: "golib \<Rightarrow> string \<Rightarrow> collected \<Rightarrow> MisconceptionHypothesis" where
  "hypothesis L node g =
     (let hash = lib_sha256 L (grp_candidate g);
          idHash = lib_sha256 L (node @ [CHR 0x0A] @ grp_rubric g @ [CHR 0x0A] @ hex_encode hash);
          activities = remdups (map ev_ActivityID (grp_failures g));
          status = (if length activities \<ge> 2 then MisconceptionSupported else MisconceptionProposed);
          status = (if grp_counters g \<noteq> [] then MisconceptionChallenged else status);
          status = (if retained (grp_counters g) then MisconceptionResolved else status);
          sources = map ev_ID (grp_failures g);
          counters = map ev_ID (grp_counters g)
      in \<lparr>mh_ID = formatUUID (take 16 idHash),
          mh_Revision = int (length (grp_failures g) + length (grp_counters g)),
          mh_NodeRevisionID = node, mh_RubricItemID = grp_rubric g, mh_CandidateHash = hex_encode hash,
          mh_Candidate = grp_candidate g, mh_Status = status, mh_SourceEvidenceIDs = sources,
          mh_CounterEvidenceIDs = counters,
          mh_CausedByEvidenceID = (if counters \<noteq> [] then last counters else last sources)\<rparr>)"

text \<open>
  The result is built by ranging over a Go map, whose order is not specified, and sorted at the
  end: \<open>misconceptions_of\<close> takes the groups in any order, \<open>reduceMisconceptions\<close> in the one they
  were inserted in.
\<close>

definition hypothesis_less :: "MisconceptionHypothesis \<Rightarrow> MisconceptionHypothesis \<Rightarrow> bool" where
  "hypothesis_less a b \<longleftrightarrow> mh_ID a < mh_ID b"

definition misconceptions_of :: "golib \<Rightarrow> string \<Rightarrow> AcceptedEvidence list \<Rightarrow> collected list \<Rightarrow> MisconceptionHypothesis list" where
  "misconceptions_of L node values groups =
     go_sort hypothesis_less (map (hypothesis L node \<circ> add_counters values) groups)"

definition reduceMisconceptions :: "golib \<Rightarrow> string \<Rightarrow> AcceptedEvidence list \<Rightarrow> MisconceptionHypothesis list" where
  "reduceMisconceptions L node values =
     misconceptions_of L node values (map snd (collect_failures L 0 values []))"

section \<open>The reduction of a node\<close>

definition bump :: "'k \<Rightarrow> ('k, int) gomap \<Rightarrow> ('k, int) gomap" where
  "bump k m = AList.update k ((case map_of m k of None \<Rightarrow> 0 | Some n \<Rightarrow> n) + 1) m"

fun count_evidence :: "MasteryProjection \<Rightarrow> AcceptedEvidence list \<Rightarrow> MasteryProjection" where
  "count_evidence p [] = p"
| "count_evidence p (e # es) =
     count_evidence (p\<lparr>mp_ValidEvidenceCount := mp_ValidEvidenceCount p + 1,
       mp_Kinds := bump (ev_Kind e) (mp_Kinds p), mp_Outcomes := bump (ev_Outcome e) (mp_Outcomes p),
       mp_Help := bump (ev_Help e) (mp_Help p), mp_LastEvidenceAt := Some (ev_ReceivedAt e)\<rparr>) es"

definition node_values :: "string \<Rightarrow> AcceptedEvidence list \<Rightarrow> (string, bool) gomap \<Rightarrow> AcceptedEvidence list" where
  "node_values node all invalidated =
     SortEvidence (filter (\<lambda>e. ev_NodeRevisionID e = node \<and> \<not> mem_key (ev_ID e) invalidated) all)"

definition ReduceNode ::
  "golib \<Rightarrow> string \<Rightarrow> AcceptedEvidence list \<Rightarrow> (string, bool) gomap \<Rightarrow> PendingAssessment list \<Rightarrow> NodeReduction" where
  "ReduceNode L nodeRevisionID all invalidated pending =
     (let values = node_values nodeRevisionID all invalidated;
          projection = count_evidence
            \<lparr>mp_NodeRevisionID = nodeRevisionID, mp_State = MasteryUnseen, mp_BaselineState = MasteryUnseen,
             mp_ValidEvidenceCount = 0, mp_Kinds = [], mp_Outcomes = [], mp_Help = [], mp_LastEvidenceAt = None,
             mp_PendingAssessments = 0, mp_UncertaintyReasons = [], mp_ReducerVersion = MasteryReducerVersion\<rparr> values;
          projection = (if values \<noteq> [] then projection\<lparr>mp_BaselineState := MasteryLearning\<rparr> else projection);
          projection = (if retained values then projection\<lparr>mp_BaselineState := MasteryRetained\<rparr> else projection);
          projection = projection\<lparr>mp_State := mp_BaselineState projection\<rparr>;
          projection = (if pending \<noteq> []
            then projection\<lparr>mp_State := MasteryProvisional, mp_PendingAssessments := int (length pending),
                   mp_UncertaintyReasons := sort_strings (concat (map pa_Reasons pending))\<rparr>
            else projection)
      in \<lparr>nr_Mastery = projection, nr_Review = reduceReview nodeRevisionID values,
          nr_Misconceptions = reduceMisconceptions L nodeRevisionID values\<rparr>)"

section \<open>Active time\<close>

record InteractionSample =
  smp_EventSequence :: int
  smp_SessionID :: string
  smp_ReceivedAt :: time
  smp_UserInitiated :: bool

record ActiveTimeEstimate =
  ate_DurationSeconds :: int
  ate_Estimated :: bool
  ate_AlgorithmVersion :: string
  ate_SampleCount :: nat
  ate_FirstReceivedAt :: "time option"
  ate_LastReceivedAt :: "time option"

definition sample_less :: "InteractionSample \<Rightarrow> InteractionSample \<Rightarrow> bool" where
  "sample_less a b =
     (if smp_ReceivedAt a = smp_ReceivedAt b then smp_EventSequence a < smp_EventSequence b
      else smp_ReceivedAt a < smp_ReceivedAt b)"

text \<open>A gap is capped at five minutes and counted in whole seconds; Go's division truncates.\<close>

fun duration_loop :: "int \<Rightarrow> InteractionSample list \<Rightarrow> int" where
  "duration_loop acc (a # b # rest) =
     (let gap = time_sub (smp_ReceivedAt b) (smp_ReceivedAt a)
      in if gap \<le> 0 then duration_loop acc (b # rest)
         else let gap = (if gap > 5 * minute then 5 * minute else gap)
              in duration_loop (int64 (acc + gap div second)) (b # rest))"
| "duration_loop acc _ = acc"

definition EstimateActiveTime :: "string \<Rightarrow> InteractionSample list \<Rightarrow> ActiveTimeEstimate" where
  "EstimateActiveTime sessionID samples =
     (let filtered = go_sort sample_less
            (filter (\<lambda>s. smp_SessionID s = sessionID \<and> smp_UserInitiated s) samples);
          result = \<lparr>ate_DurationSeconds = 0, ate_Estimated = True, ate_AlgorithmVersion = ActiveTimePolicyVersion,
            ate_SampleCount = length filtered, ate_FirstReceivedAt = None, ate_LastReceivedAt = None\<rparr>
      in if filtered = [] then result
         else result\<lparr>ate_FirstReceivedAt := Some (smp_ReceivedAt (hd filtered)),
                ate_LastReceivedAt := Some (smp_ReceivedAt (last filtered)),
                ate_DurationSeconds := duration_loop 0 filtered\<rparr>)"

definition isActiveTimeEvent :: "EventType \<Rightarrow> bool" where
  "isActiveTimeEvent t =
     (case t of EventAttemptSubmitted \<Rightarrow> True | EventOfflineAttemptSubmitted \<Rightarrow> True
      | EventFreeQuestionAsked \<Rightarrow> True | EventReviewPresented \<Rightarrow> True | _ \<Rightarrow> False)"

record TimelineItem =
  tl_EventSequence :: int
  tl_EventID :: string
  tl_Type :: EventType
  tl_AggregateID :: string
  tl_ParentSessionID :: string
  tl_Source :: string
  tl_ArchiveDisposition :: string
  tl_EvidenceDisposition :: string
  tl_ActorDeviceID :: string
  tl_ReceivedAt :: time
  tl_OccurredAt :: "time option"
  tl_OccurredAtTrusted :: bool

fun timeline_samples :: "string \<Rightarrow> TimelineItem list \<Rightarrow> InteractionSample list" where
  "timeline_samples sessionID [] = []"
| "timeline_samples sessionID (i # is) =
     (let itemSessionID = (if tl_Source i = ''offline'' then tl_ParentSessionID i else tl_AggregateID i)
      in if itemSessionID = sessionID \<and> isActiveTimeEvent (tl_Type i)
         then \<lparr>smp_EventSequence = tl_EventSequence i, smp_SessionID = sessionID,
               smp_ReceivedAt = tl_ReceivedAt i, smp_UserInitiated = True\<rparr> # timeline_samples sessionID is
         else timeline_samples sessionID is)"

definition estimateActiveTimeFromTimeline :: "string \<Rightarrow> TimelineItem list \<Rightarrow> ActiveTimeEstimate" where
  "estimateActiveTimeFromTimeline sessionID timeline =
     EstimateActiveTime sessionID (timeline_samples sessionID timeline)"

section \<open>Retention\<close>

text \<open>
  The specification: after the last failed or partial evidence there are two successful active
  recalls of different activities, the later received at least 24 hours after the earlier.
\<close>

definition failed :: "AcceptedEvidence \<Rightarrow> bool" where
  "failed e \<longleftrightarrow> ev_Outcome e = OutcomeFail \<or> ev_Outcome e = OutcomePartial"

definition last_segment :: "AcceptedEvidence list \<Rightarrow> AcceptedEvidence list" where
  "last_segment values = rev (takeWhile (\<lambda>e. \<not> failed e) (rev values))"

definition spaced_recalls :: "AcceptedEvidence list \<Rightarrow> bool" where
  "spaced_recalls values \<longleftrightarrow>
     (\<exists>xs x ys y zs. last_segment values = xs @ x # ys @ y # zs
        \<and> successfulActiveRecall x \<and> successfulActiveRecall y \<and> ev_ActivityID x \<noteq> ev_ActivityID y
        \<and> ev_ReceivedAt y - ev_ReceivedAt x \<ge> 24 * hour)"

lemma segment_start_none: "(\<forall>e \<in> set es. \<not> failed e) \<Longrightarrow> segment_start i start es = start"
  by (induction es arbitrary: i start) (auto simp: failed_def)

lemma segment_start_last:
  "failed e \<Longrightarrow> (\<forall>e \<in> set ys. \<not> failed e) \<Longrightarrow> segment_start i start (xs @ e # ys) = i + length xs + 1"
  by (induction xs arbitrary: i start) (auto simp: segment_start_none failed_def)

lemma retained_segment: "drop (segment_start 0 0 values) values = last_segment values"
proof (cases "\<exists>e \<in> set values. failed e")
  case True
  then obtain xs e ys where v: "values = xs @ e # ys" "failed e" "\<forall>e \<in> set ys. \<not> failed e"
    using split_list_last_prop [of "values" failed] by blast
  then have "takeWhile (\<lambda>e. \<not> failed e) (rev ys @ e # rev xs) = rev ys"
    by (subst takeWhile_append2) auto
  with v show ?thesis
    by (simp add: segment_start_last last_segment_def)
next
  case False
  then have all: "takeWhile (\<lambda>e. \<not> failed e) (rev values) = rev values" by simp
  show ?thesis
    unfolding last_segment_def all using False by (simp add: segment_start_none)
qed

text \<open>
  The scan that remembers every successful recall so far, \<open>P\<close>, and looks for the first of another
  activity. The two candidates of the code are enough to answer its question.
\<close>

abbreviation first_other :: "AcceptedEvidence list \<Rightarrow> string \<Rightarrow> AcceptedEvidence option" where
  "first_other P a \<equiv> List.find (\<lambda>c. ev_ActivityID c \<noteq> a) P"

definition day_apart :: "AcceptedEvidence \<Rightarrow> AcceptedEvidence \<Rightarrow> bool" where
  "day_apart x y \<longleftrightarrow> ev_ReceivedAt y - ev_ReceivedAt x \<ge> 24 * hour"

fun scan :: "AcceptedEvidence list \<Rightarrow> AcceptedEvidence list \<Rightarrow> bool" where
  "scan P [] = False"
| "scan P (e # es) =
     (if \<not> successfulActiveRecall e then scan P es
      else (case first_other P (ev_ActivityID e) of None \<Rightarrow> False | Some c \<Rightarrow> day_apart c e) \<or> scan (P @ [e]) es)"

lemma day_apart_sub: "time_sub (ev_ReceivedAt y) (ev_ReceivedAt x) \<ge> 24 * hour \<longleftrightarrow> day_apart x y"
  by (auto simp: day_apart_def time_sub_def hour_def minute_def second_def)

lemma find_append: "List.find Q (xs @ ys) = (case List.find Q xs of None \<Rightarrow> List.find Q ys | Some x \<Rightarrow> Some x)"
  by (induction xs) auto

lemma retained_loop_scan:
  assumes "earliest = (case P of [] \<Rightarrow> None | p # _ \<Rightarrow> Some p)"
    and "alternate = (case P of [] \<Rightarrow> None | p # _ \<Rightarrow> first_other P (ev_ActivityID p))"
    and "set seen = ev_ActivityID ` set P"
  shows "retained_loop earliest alternate seen es = scan P es"
  using assms
proof (induction es arbitrary: P earliest alternate seen)
  case Nil
  then show ?case by simp
next
  case (Cons e es)
  show ?case
  proof (cases "successfulActiveRecall e")
    case False
    then show ?thesis using Cons by simp
  next
    case good: True
    show ?thesis
    proof (cases P)
      case Nil
      then show ?thesis
        using Cons.prems good Cons.IH [of "Some e" "[e]" None "ev_ActivityID e # seen"] by simp
    next
      case (Cons p ps)
      define alt where "alt = (if ev_ActivityID e \<notin> set seen \<and> alternate = None then Some e else alternate)"
      define seen' where "seen' = (if ev_ActivityID e \<in> set seen then seen else ev_ActivityID e # seen)"
      have none: "alternate = None \<longleftrightarrow> (\<forall>c \<in> set P. ev_ActivityID c = ev_ActivityID p)"
        using Cons.prems(2) Cons by (auto simp: find_None_iff)
      have alt': "alt = first_other (P @ [e]) (ev_ActivityID p)"
        using Cons.prems(2,3) Cons none
        by (cases alternate) (auto simp: alt_def find_append split: if_splits)
      have "retained_loop earliest alt seen' es = scan (P @ [e]) es"
        using Cons.prems(1,3) Cons alt' by (intro Cons.IH) (auto simp: seen'_def)
      then show ?thesis
        using Cons.prems(1,2) Cons good
        by (auto simp: alt_def seen'_def day_apart_sub split: option.splits if_splits)
    qed
  qed
qed

lemma scan_iff:
  "scan P es \<longleftrightarrow> (\<exists>ys e zs c. es = ys @ e # zs \<and> successfulActiveRecall e
     \<and> first_other (P @ filter successfulActiveRecall ys) (ev_ActivityID e) = Some c \<and> day_apart c e)"
proof (induction es arbitrary: P)
  case Nil
  then show ?case by simp
next
  case (Cons x es)
  let ?body = "\<lambda>P ys e c. successfulActiveRecall e
     \<and> first_other (P @ filter successfulActiveRecall ys) (ev_ActivityID e) = Some c \<and> day_apart c e"
  have split: "(\<exists>ys e zs c. x # es = ys @ e # zs \<and> ?body P ys e c) \<longleftrightarrow>
      (\<exists>c. ?body P [] x c) \<or> (\<exists>ys e zs c. es = ys @ e # zs \<and> ?body P (x # ys) e c)"
    by (simp only: Cons_eq_append_conv) blast
  show ?case
    unfolding split by (auto simp: Cons.IH split: option.splits)
qed

lemma retained_iff:
  "retained values \<longleftrightarrow> (\<exists>ys e zs c. last_segment values = ys @ e # zs \<and> successfulActiveRecall e
     \<and> first_other (filter successfulActiveRecall ys) (ev_ActivityID e) = Some c \<and> day_apart c e)"
  unfolding retained_def retained_segment
  by (simp add: retained_loop_scan [where P = "[]"] scan_iff)

lemma first_other_earliest:
  assumes "sorted (map ev_ReceivedAt xs)" and "x \<in> set xs" and "ev_ActivityID x \<noteq> a"
  shows "\<exists>c. first_other xs a = Some c \<and> ev_ReceivedAt c \<le> ev_ReceivedAt x"
  using assms by (induction xs) auto

lemma retained_sound: "retained values \<Longrightarrow> spaced_recalls values"
proof -
  assume "retained values"
  then obtain ys e zs c where seg: "last_segment values = ys @ e # zs" "successfulActiveRecall e"
      and c: "first_other (filter successfulActiveRecall ys) (ev_ActivityID e) = Some c" and apart: "day_apart c e"
    unfolding retained_iff by blast
  from c have "c \<in> set ys" "successfulActiveRecall c" "ev_ActivityID c \<noteq> ev_ActivityID e"
    by (auto simp: find_Some_iff in_set_conv_nth [symmetric] dest: nth_mem)
  moreover from \<open>c \<in> set ys\<close> obtain us vs where "ys = us @ c # vs" by (auto dest: split_list)
  ultimately show ?thesis
    using seg apart unfolding spaced_recalls_def day_apart_def by fastforce
qed

lemma retained_complete:
  assumes "sorted (map ev_ReceivedAt (last_segment values))" and "spaced_recalls values"
  shows "retained values"
proof -
  from assms(2) obtain xs x ys y zs where seg: "last_segment values = xs @ x # ys @ y # zs"
      and good: "successfulActiveRecall x" "successfulActiveRecall y" "ev_ActivityID x \<noteq> ev_ActivityID y"
      and apart: "ev_ReceivedAt y - ev_ReceivedAt x \<ge> 24 * hour"
    unfolding spaced_recalls_def by blast
  let ?p = "filter successfulActiveRecall (xs @ x # ys)"
  have "sorted (map ev_ReceivedAt (xs @ x # ys))"
    using assms(1) seg by (auto simp: sorted_append)
  then have "sorted (map ev_ReceivedAt ?p)"
    by (rule sorted_filter)
  moreover have "x \<in> set ?p" using good by simp
  ultimately obtain c where "first_other ?p (ev_ActivityID y) = Some c" "ev_ReceivedAt c \<le> ev_ReceivedAt x"
    using first_other_earliest good(3) by blast
  moreover have "last_segment values = (xs @ x # ys) @ y # zs" using seg by simp
  ultimately show ?thesis
    unfolding retained_iff using good(2) apart
    by (intro exI [of _ "xs @ x # ys"] exI [of _ y] exI [of _ zs] exI [of _ c]) (auto simp: day_apart_def)
qed

section \<open>Order of the inputs\<close>

lemma node_values_perm:
  assumes "mset all = mset all'" and "inj_on ev_ID (set all)"
  shows "node_values node all invalidated = node_values node all' invalidated"
  unfolding node_values_def
  using assms by (intro SortEvidence_perm) (auto simp: inj_on_def mset_filter)

interpretation hypothesis_order: strict_weak hypothesis_less
  by unfold_locales (auto simp: hypothesis_less_def)

lemma misconceptions_of_perm:
  assumes "mset gs = mset gs'" and "distinct (map (mh_ID \<circ> hypothesis L node \<circ> add_counters values) gs)"
  shows "misconceptions_of L node values gs = misconceptions_of L node values gs'"
  unfolding misconceptions_of_def
proof (rule hypothesis_order.go_sort_unique)
  show "mset (map (hypothesis L node \<circ> add_counters values) gs) = mset (map (hypothesis L node \<circ> add_counters values) gs')"
    using assms(1) by simp
  have "inj_on mh_ID (set (map (hypothesis L node \<circ> add_counters values) gs))"
    using assms(2) by (simp add: distinct_map inj_on_def) metis
  then show "hypothesis_less u v \<or> hypothesis_less v u"
    if "u \<in> set (map (hypothesis L node \<circ> add_counters values) gs)"
       "v \<in> set (map (hypothesis L node \<circ> add_counters values) gs)" "u \<noteq> v" for u v
    using that by (auto simp: hypothesis_less_def inj_on_def not_less_iff_gr_or_eq)
qed

section \<open>Review ladder\<close>

definition recall :: "AcceptedEvidence \<Rightarrow> bool" where
  "recall e \<longleftrightarrow> ev_Kind e = EvidencePracticeRecall \<or> ev_Kind e = EvidenceReviewRecall"

lemma length_reviewIntervals [simp]: "length reviewIntervals = 5"
  by (simp add: reviewIntervals_def)

lemma review_loop_append: "review_loop node r (xs @ ys) = review_loop node (review_loop node r xs) ys"
  by (induction xs arbitrary: r) (auto simp: Let_def split: option.split)

definition schedule_ok :: "string \<Rightarrow> AcceptedEvidence list \<Rightarrow> ReviewSchedule \<Rightarrow> bool" where
  "schedule_ok node values r \<longleftrightarrow>
     rev_NodeRevisionID r = node \<and> rev_Step r < 5 \<and> rev_Step r \<le> length (filter successfulActiveRecall values)
     \<and> (\<exists>e \<in> set values. recall e \<and> rev_DueAt r = ev_ReceivedAt e + reviewIntervals ! rev_Step r)"

text \<open>What one more piece of evidence does to the schedule.\<close>

definition review_step :: "string \<Rightarrow> ReviewSchedule option \<Rightarrow> AcceptedEvidence \<Rightarrow> ReviewSchedule option" where
  "review_step node before e =
     (if \<not> recall e then before
      else case before of
          None \<Rightarrow> Some (new_schedule node e)
        | Some r \<Rightarrow>
            if \<not> successfulActiveRecall e then Some (new_schedule node e)
            else if rev_DueAt r \<le> ev_ReceivedAt e
            then Some (r\<lparr>rev_Step := min 4 (rev_Step r + 1),
                   rev_DueAt := ev_ReceivedAt e + reviewIntervals ! min 4 (rev_Step r + 1)\<rparr>)
            else Some r)"

lemma review_loop_single:
  assumes "\<forall>r. before = Some r \<longrightarrow> rev_Step r < 5"
  shows "review_loop node before [e] = review_step node before e"
proof (cases "recall e")
  case False
  then show ?thesis by (simp add: review_step_def recall_def)
next
  case True
  show ?thesis
  proof (cases before)
    case None
    then show ?thesis using True by (simp add: review_step_def recall_def)
  next
    case (Some r)
    have "successfulActiveRecall e \<longleftrightarrow> ev_Outcome e = OutcomePass \<and> lowHelp (ev_Help e)"
      using True by (simp add: recall_def successfulActiveRecall_def)
    moreover have "(if rev_Step r < 4 then rev_Step r + 1 else rev_Step r) = min 4 (rev_Step r + 1)"
      using assms Some by auto
    moreover have "(ev_Kind e \<noteq> EvidencePracticeRecall \<and> ev_Kind e \<noteq> EvidenceReviewRecall) = False"
      using True by (auto simp: recall_def)
    ultimately show ?thesis
      using True Some by (simp add: review_step_def) blast
  qed
qed

lemma reduceReview_snoc:
  assumes "\<forall>r. reduceReview node vs = Some r \<longrightarrow> rev_Step r < 5"
  shows "reduceReview node (vs @ [e]) = review_step node (reduceReview node vs) e"
  using review_loop_single [OF assms, where e = e] by (simp add: reduceReview_def review_loop_append)

lemma reduceReview_ok:
  "case reduceReview node values of None \<Rightarrow> \<forall>e \<in> set values. \<not> recall e | Some r \<Rightarrow> schedule_ok node values r"
proof (induction "values" rule: rev_induct)
  case Nil
  then show ?case by (simp add: reduceReview_def)
next
  case (snoc e vs)
  have step: "\<forall>r. reduceReview node vs = Some r \<longrightarrow> rev_Step r < 5"
    using snoc by (auto simp: schedule_ok_def)
  show ?case
    using snoc unfolding reduceReview_snoc [OF step]
    by (cases "reduceReview node vs") (auto simp: schedule_ok_def new_schedule_def review_step_def)
qed

section \<open>Misconception groups\<close>

definition names_candidate :: "golib \<Rightarrow> collected \<Rightarrow> AcceptedEvidence \<Rightarrow> bool" where
  "names_candidate L g e \<longleftrightarrow> failed e \<and>
     (\<exists>c \<in> set (ev_Misconceptions e).
        mc_RubricItemID c @ [CHR 0x00] @ normalizeCandidate L (mc_Text c) = grp_rubric g @ [CHR 0x00] @ grp_candidate g)"

definition group_ok :: "golib \<Rightarrow> AcceptedEvidence list \<Rightarrow> collected \<Rightarrow> bool" where
  "group_ok L past g \<longleftrightarrow> grp_failures g \<noteq> [] \<and> grp_counters g = [] \<and> grp_candidate g \<noteq> []
     \<and> grp_lastFailureIndex g < length past
     \<and> set (grp_failures g) \<subseteq> set (take (Suc (grp_lastFailureIndex g)) past)
     \<and> (\<forall>e \<in> set (grp_failures g). names_candidate L g e)"

definition keyed :: "(string, collected) gomap \<Rightarrow> bool" where
  "keyed groups \<longleftrightarrow> distinct (map fst groups)
     \<and> (\<forall>(k, g) \<in> set groups. k = grp_rubric g @ [CHR 0x00] @ grp_candidate g)"

lemma group_ok_snoc: "group_ok L past g \<Longrightarrow> group_ok L (past @ [e]) g"
  by (auto simp: group_ok_def)

lemma collect_candidates_ok:
  assumes "keyed groups" and "\<forall>g \<in> snd ` set groups. group_ok L (past @ [e]) g" and "failed e"
    and "set cs \<subseteq> set (ev_Misconceptions e)"
  shows "keyed (collect_candidates L (length past) e cs groups)
    \<and> (\<forall>g \<in> snd ` set (collect_candidates L (length past) e cs groups). group_ok L (past @ [e]) g)"
  using assms
proof (induction cs arbitrary: groups)
  case Nil
  then show ?case by simp
next
  case (Cons c cs)
  define normalized where "normalized = normalizeCandidate L (mc_Text c)"
  show ?case
  proof (cases "normalized = []")
    case True
    then show ?thesis using Cons by (simp add: normalized_def)
  next
    case False
    define key where "key = mc_RubricItemID c @ [CHR 0x00] @ normalized"
    define group where "group = (case map_of groups key of
        None \<Rightarrow> \<lparr>grp_candidate = normalized, grp_rubric = mc_RubricItemID c, grp_failures = [],
                 grp_counters = [], grp_lastFailureIndex = 0\<rparr> | Some g \<Rightarrow> g)"
    define group' where "group' = group\<lparr>grp_failures := grp_failures group @ [e], grp_lastFailureIndex := length past\<rparr>"
    have known: "map_of groups key = Some g \<Longrightarrow> key = grp_rubric g @ [CHR 0x00] @ grp_candidate g
        \<and> group_ok L (past @ [e]) g" for g
      using Cons.prems(1,2) by (force simp: keyed_def dest: map_of_SomeD)
    then have key': "key = grp_rubric group @ [CHR 0x00] @ grp_candidate group"
      by (cases "map_of groups key") (simp_all add: group_def key_def)
    have "keyed (AList.update key group' groups)"
      using Cons.prems(1) set_update_subset [of key group' groups] key'
      by (auto simp: keyed_def group'_def distinct_update)
    moreover have ok: "group_ok L (past @ [e]) group'"
      using known Cons.prems(3,4) False key'
      by (cases "map_of groups key") (auto simp: group_def group'_def group_ok_def names_candidate_def key_def normalized_def dest!: in_set_takeD)
    moreover have "\<forall>g \<in> snd ` set (AList.update key group' groups). group_ok L (past @ [e]) g"
      using ok Cons.prems(2) set_update_subset [of key group' groups] by force
    moreover have step: "collect_candidates L (length past) e (c # cs) groups
        = collect_candidates L (length past) e cs (AList.update key group' groups)"
      using False unfolding key_def group_def group'_def normalized_def by (simp add: Let_def)
    ultimately show ?thesis
      unfolding step using Cons.prems(3,4) by (intro Cons.IH) auto
  qed
qed

lemma collect_failures_ok:
  assumes "keyed groups" and "\<forall>g \<in> snd ` set groups. group_ok L past g"
  shows "keyed (collect_failures L (length past) es groups)
    \<and> (\<forall>g \<in> snd ` set (collect_failures L (length past) es groups). group_ok L (past @ es) g)"
  using assms
proof (induction es arbitrary: past groups)
  case Nil
  then show ?case by simp
next
  case (Cons e es)
  define groups' where "groups' = (if failed e
     then collect_candidates L (length past) e (ev_Misconceptions e) groups else groups)"
  have "keyed groups' \<and> (\<forall>g \<in> snd ` set groups'. group_ok L (past @ [e]) g)"
    using Cons.prems collect_candidates_ok [of groups L past e "ev_Misconceptions e"] group_ok_snoc
    by (auto simp: groups'_def)
  then show ?case
    using Cons.IH [of groups' "past @ [e]"] by (simp add: groups'_def failed_def)
qed

lemma counters_loop_filter:
  "counters_loop rubric l i es = filter (\<lambda>e. \<exists>ro \<in> set (ev_RubricOutcomes e). ro_RubricItemID ro = rubric \<and> ro_Conclusion ro = ConclusionPass)
     (drop (Suc l - i) es)"
  by (induction es arbitrary: i) (auto simp: Suc_diff_le drop_Cons')

lemma hypothesis_fields:
  "mh_SourceEvidenceIDs (hypothesis L node g) = map ev_ID (grp_failures g)"
  "mh_CounterEvidenceIDs (hypothesis L node g) = map ev_ID (grp_counters g)"
  "mh_CausedByEvidenceID (hypothesis L node g) =
     (if grp_counters g \<noteq> [] then last (map ev_ID (grp_counters g)) else last (map ev_ID (grp_failures g)))"
  "mh_Status (hypothesis L node g) = (if retained (grp_counters g) then MisconceptionResolved
     else if grp_counters g \<noteq> [] then MisconceptionChallenged
     else if 2 \<le> card (set (map ev_ActivityID (grp_failures g))) then MisconceptionSupported else MisconceptionProposed)"
  by (simp_all add: hypothesis_def Let_def length_remdups_card_conv)

lemma reduceMisconceptions_group:
  assumes "h \<in> set (reduceMisconceptions L node values)"
  obtains g where "h = hypothesis L node (add_counters values g)" and "group_ok L values g"
proof -
  obtain g where "g \<in> snd ` set (collect_failures L 0 values [])" "h = hypothesis L node (add_counters values g)"
    using assms by (auto simp: reduceMisconceptions_def misconceptions_of_def)
  moreover have "\<forall>g \<in> snd ` set (collect_failures L 0 values []). group_ok L values g"
    using collect_failures_ok [of "[]" L "[]" "values"] by (simp add: keyed_def)
  ultimately show thesis using that by blast
qed

section \<open>Active time\<close>

interpretation sample_order: strict_weak sample_less
  by unfold_locales (auto simp: sample_less_def split: if_splits)

lemma sample_sorted: "sorted (map smp_ReceivedAt (go_sort sample_less xs))"
proof -
  have "sorted_wrt (\<lambda>x y. smp_ReceivedAt x \<le> smp_ReceivedAt y) (go_sort sample_less xs)"
    by (rule sorted_wrt_mono_rel [OF _ sample_order.go_sort_sorted])
       (auto simp: sample_less_def split: if_splits)
  then show ?thesis by (simp add: sorted_wrt_map)
qed

lemma capped_gap:
  assumes "0 < time_sub b a"
  shows "0 \<le> min (5 * minute) (time_sub b a) div second" and "min (5 * minute) (time_sub b a) div second \<le> 300"
    and "second * (min (5 * minute) (time_sub b a) div second) \<le> b - a"
proof -
  let ?g = "min (5 * minute) (time_sub b a)"
  have g: "0 < ?g" "?g \<le> 300 * second" "?g \<le> b - a"
    using assms by (auto simp: time_sub_def minute_def second_def min_def max_def split: if_splits)
  show "0 \<le> ?g div second" using g(1) by (simp add: second_def pos_imp_zdiv_nonneg_iff)
  show "?g div second \<le> 300" using zdiv_mono1 [OF g(2), of second] by (simp add: second_def)
  have "0 \<le> ?g mod second" by (simp add: second_def)
  with mult_div_mod_eq [of second ?g] have "second * (?g div second) \<le> ?g" by linarith
  with g(3) show "second * (?g div second) \<le> b - a" by linarith
qed

lemma duration_loop_bounds:
  assumes "0 \<le> n" and "n + 300 * int (length xs) < 2 ^ 63" and "sorted (map smp_ReceivedAt xs)" and "xs \<noteq> []"
  shows "n \<le> duration_loop n xs \<and> duration_loop n xs \<le> n + 300 * (int (length xs) - 1)
    \<and> second * (duration_loop n xs - n) \<le> smp_ReceivedAt (last xs) - smp_ReceivedAt (hd xs)"
  using assms
proof (induction n xs rule: duration_loop.induct)
  case (1 n a b rest)
  let ?g = "time_sub (smp_ReceivedAt b) (smp_ReceivedAt a)"
  have ab: "smp_ReceivedAt a \<le> smp_ReceivedAt b" using "1.prems"(3) by simp
  show ?case
  proof (cases "?g \<le> 0")
    case True
    have "n \<le> duration_loop n (b # rest) \<and> duration_loop n (b # rest) \<le> n + 300 * (int (length (b # rest)) - 1)
       \<and> second * (duration_loop n (b # rest) - n) \<le> smp_ReceivedAt (last (b # rest)) - smp_ReceivedAt (hd (b # rest))"
      using "1.prems" by (intro "1.IH"(1) [OF HOL.refl True]) auto
    with True ab show ?thesis by (simp add: Let_def)
  next
    case False
    let ?m = "n + min (5 * minute) ?g div second"
    have pos: "0 < ?g" using False by simp
    note gap = capped_gap [OF pos]
    have m: "int64 ?m = ?m"
      using "1.prems"(1,2) gap(1,2) by (intro int64_id) (simp add: in_int64_def)
    have cap: "(if 5 * minute < ?g then 5 * minute else ?g) = min (5 * minute) ?g" by simp
    have step: "duration_loop n (a # b # rest) = duration_loop ?m (b # rest)"
      using False by (simp only: duration_loop.simps Let_def cap m if_False)
    have "?m \<le> duration_loop ?m (b # rest) \<and> duration_loop ?m (b # rest) \<le> ?m + 300 * (int (length (b # rest)) - 1)
       \<and> second * (duration_loop ?m (b # rest) - ?m) \<le> smp_ReceivedAt (last (b # rest)) - smp_ReceivedAt (hd (b # rest))"
      using "1.prems" gap(1,2)
      by (intro "1.IH"(2) [OF HOL.refl False HOL.refl, unfolded cap m]) auto
    then show ?thesis
      unfolding step using gap by (simp add: algebra_simps)
  qed
qed simp_all

section \<open>Counting\<close>

definition lookup0 :: "('k, int) gomap \<Rightarrow> 'k \<Rightarrow> int" where
  "lookup0 m k = (case map_of m k of None \<Rightarrow> 0 | Some n \<Rightarrow> n)"

lemma lookup0_bump [simp]: "lookup0 (bump k m) x = lookup0 m x + (if x = k then 1 else 0)"
  by (simp add: lookup0_def bump_def)

lemma count_evidence_counts:
  "mp_ValidEvidenceCount (count_evidence p es) = mp_ValidEvidenceCount p + int (length es)"
  "lookup0 (mp_Outcomes (count_evidence p es)) x = lookup0 (mp_Outcomes p) x + int (length (filter (\<lambda>e. ev_Outcome e = x) es))"
  "mp_BaselineState (count_evidence p es) = mp_BaselineState p"
  "mp_PendingAssessments (count_evidence p es) = mp_PendingAssessments p"
  by (induction es arbitrary: p) auto

lemma retained_nonempty: "retained values \<Longrightarrow> values \<noteq> []"
  by (auto simp: retained_def)

section \<open>Properties\<close>

text \<open>
  the retention rule. Whatever the evidence, \<open>retained\<close> answers yes only when after the last
  failed or partial evidence two unaided recalls of different activities lie at least 24 hours
  apart; and when evidence is accepted in the order it is received, it finds every such pair,
  although it remembers only two candidates.
\<close>

theorem retained_spec:
  "(retained values \<longrightarrow> spaced_recalls values)
   \<and> (sorted (map ev_ReceivedAt (last_segment values)) \<longrightarrow> (retained values \<longleftrightarrow> spaced_recalls values))"
  using retained_sound retained_complete by blast

text \<open>
  C37: the reduction of a node depends on its evidence and pending assessments only, not on the
  order either is listed in (evidence identifiers being distinct).
\<close>

theorem ReduceNode_order_independent:
  assumes "mset all = mset all'" and "distinct (map ev_ID all)" and "mset pending = mset pending'"
  shows "ReduceNode L node all invalidated pending = ReduceNode L node all' invalidated pending'"
proof -
  have same: "node_values node all invalidated = node_values node all' invalidated"
    using assms(1,2) by (intro node_values_perm) (auto simp: distinct_map)
  have size: "length pending = length pending'" and empty: "pending = [] \<longleftrightarrow> pending' = []"
    using assms(3) by (auto dest: mset_eq_length)
  have "mset (concat (map pa_Reasons pending)) = mset (concat (map pa_Reasons pending'))"
    using assms(3) by (simp add: mset_concat_map)
  then have reasons: "sort_strings (concat (map pa_Reasons pending)) = sort_strings (concat (map pa_Reasons pending'))"
    by (rule sort_strings_perm)
  show ?thesis
    unfolding ReduceNode_def same size empty reasons ..
qed

text \<open>
  the misconception list does not depend on the order the groups are taken out of the Go map,
  as long as the derived identifiers are distinct.
\<close>

theorem misconceptions_map_order:
  assumes "mset groups = mset (map snd (collect_failures L 0 values []))"
    and "distinct (map (mh_ID \<circ> hypothesis L node \<circ> add_counters values) groups)"
  shows "misconceptions_of L node values groups = reduceMisconceptions L node values"
  unfolding reduceMisconceptions_def using assms by (rule misconceptions_of_perm)

text \<open>
  the mastery state. With a pending assessment the node is provisional; otherwise it is
  retained, learning or unseen by the valid evidence; the baseline ignores what is pending; every
  outcome is counted once per valid piece of evidence.
\<close>

theorem ReduceNode_mastery:
  "let m = nr_Mastery (ReduceNode L node all invalidated pending);
       values = node_values node all invalidated
   in mp_BaselineState m = (if retained values then MasteryRetained else if values \<noteq> [] then MasteryLearning else MasteryUnseen)
     \<and> mp_State m = (if pending \<noteq> [] then MasteryProvisional else mp_BaselineState m)
     \<and> mp_PendingAssessments m = int (length pending)
     \<and> mp_ValidEvidenceCount m = int (length values)
     \<and> lookup0 (mp_Outcomes m) out = int (length (filter (\<lambda>e. ev_Outcome e = out) values))"
  by (auto simp: ReduceNode_def Let_def count_evidence_counts lookup0_def [of "[]"] dest: retained_nonempty)

text \<open>
  the review ladder. A new piece of evidence moves the schedule by one law (other evidence is
  ignored, a failed or helped recall restarts at one day, a recall on or after the due time climbs
  one rung, an early one changes nothing); there is a schedule exactly when there was a recall, its
  step indexes the five intervals and its due time is some recall's time plus that interval.
\<close>

theorem reduceReview_ladder:
  "reduceReview node (vs @ [e]) = review_step node (reduceReview node vs) e
   \<and> (case reduceReview node vs of None \<Rightarrow> \<forall>e \<in> set vs. \<not> recall e | Some r \<Rightarrow> schedule_ok node vs r)"
proof
  show "case reduceReview node vs of None \<Rightarrow> \<forall>e \<in> set vs. \<not> recall e | Some r \<Rightarrow> schedule_ok node vs r"
    by (rule reduceReview_ok)
  then show "reduceReview node (vs @ [e]) = review_step node (reduceReview node vs) e"
    by (intro reduceReview_snoc) (auto simp: schedule_ok_def)
qed

text \<open>
  every misconception hypothesis has a failed source that names it, so the identifier it is
  attributed to exists; its counter-evidence was accepted after all of its sources; and it is
  resolved only when the counter-evidence holds a pair of spaced recalls.
\<close>

theorem misconception_sources:
  assumes "h \<in> set (reduceMisconceptions L node values)"
  shows "mh_SourceEvidenceIDs h \<noteq> []
    \<and> mh_CausedByEvidenceID h \<in> set (mh_SourceEvidenceIDs h @ mh_CounterEvidenceIDs h)
    \<and> (\<exists>before after. values = before @ after \<and> set (mh_SourceEvidenceIDs h) \<subseteq> ev_ID ` {e \<in> set before. failed e}
         \<and> set (mh_CounterEvidenceIDs h) \<subseteq> ev_ID ` set after)
    \<and> (mh_Status h = MisconceptionResolved \<longrightarrow> mh_CounterEvidenceIDs h \<noteq> [])"
  using assms
proof (rule reduceMisconceptions_group)
  fix g
  assume h: "h = hypothesis L node (add_counters values g)" and ok: "group_ok L values g"
  let ?n = "Suc (grp_lastFailureIndex g)"
  have parts: "values = take ?n values @ drop ?n values" by simp
  have "set (mh_SourceEvidenceIDs h) \<subseteq> ev_ID ` {e \<in> set (take ?n values). failed e}"
    using h ok by (auto simp: hypothesis_fields add_counters_def group_ok_def names_candidate_def)
  moreover have "set (mh_CounterEvidenceIDs h) \<subseteq> ev_ID ` set (drop ?n values)"
    using h ok by (auto simp: hypothesis_fields add_counters_def group_ok_def counters_loop_filter)
  ultimately have "\<exists>before after. values = before @ after \<and> set (mh_SourceEvidenceIDs h) \<subseteq> ev_ID ` {e \<in> set before. failed e}
         \<and> set (mh_CounterEvidenceIDs h) \<subseteq> ev_ID ` set after"
    using parts by blast
  moreover have "mh_SourceEvidenceIDs h \<noteq> []"
    "mh_CausedByEvidenceID h \<in> set (mh_SourceEvidenceIDs h @ mh_CounterEvidenceIDs h)"
    "mh_Status h = MisconceptionResolved \<longrightarrow> mh_CounterEvidenceIDs h \<noteq> []"
    using h ok by (auto simp: hypothesis_fields add_counters_def group_ok_def last_map dest: retained_nonempty)
  ultimately show ?thesis by blast
qed

text \<open>
  the estimate of active time is bounded: no gap counts for more than five minutes, and the
  total never exceeds the time between the first and the last sample. (The hypothesis keeps the
  64-bit sum in range.)
\<close>

theorem EstimateActiveTime_bounds:
  assumes "300 * int (length samples) < 2 ^ 63"
  shows "let est = EstimateActiveTime sid samples
     in 0 \<le> ate_DurationSeconds est \<and> ate_DurationSeconds est \<le> 300 * max 0 (int (ate_SampleCount est) - 1)
       \<and> (case (ate_FirstReceivedAt est, ate_LastReceivedAt est) of
            (Some f, Some l) \<Rightarrow> second * ate_DurationSeconds est \<le> l - f
          | _ \<Rightarrow> ate_SampleCount est = 0)"
proof -
  let ?xs = "go_sort sample_less (filter (\<lambda>s. smp_SessionID s = sid \<and> smp_UserInitiated s) samples)"
  have "length ?xs \<le> length samples" by simp
  then have "300 * int (length ?xs) < 2 ^ 63" using assms by linarith
  then have "?xs \<noteq> [] \<Longrightarrow> 0 \<le> duration_loop 0 ?xs \<and> duration_loop 0 ?xs \<le> 300 * (int (length ?xs) - 1)
      \<and> second * duration_loop 0 ?xs \<le> smp_ReceivedAt (last ?xs) - smp_ReceivedAt (hd ?xs)"
    using duration_loop_bounds [of 0 ?xs] sample_sorted by simp
  moreover have "?xs \<noteq> [] \<Longrightarrow> max 0 (int (length ?xs) - 1) = int (length ?xs) - 1"
    by (cases ?xs) auto
  ultimately show ?thesis
    unfolding EstimateActiveTime_def Let_def by (cases "?xs = []") (simp_all only: if_True if_False; simp)+
qed

section \<open>Examples\<close>

definition example_recalls :: "AcceptedEvidence list" where
  "example_recalls = [example_evidence ''a'' 1 0 ''x'' OutcomeFail, example_evidence ''b'' 2 hour ''x'' OutcomePass,
     example_evidence ''c'' 3 (2 * hour) ''y'' OutcomePass, example_evidence ''d'' 4 (26 * hour) ''x'' OutcomePass]"

definition example_failure :: AcceptedEvidence where
  "example_failure = (example_evidence ''a'' 1 0 ''x'' OutcomeFail)
     \<lparr>ev_Misconceptions := [\<lparr>mc_RubricItemID = ''i1'', mc_Text = ''w''\<rparr>]\<rparr>"

lemma example_segment: "last_segment example_recalls = tl example_recalls"
  by (simp add: last_segment_def failed_def example_recalls_def example_evidence_def)

theorem retained_spec_witness: "spaced_recalls example_recalls"
proof -
  have "retained example_recalls"
    by (simp add: retained_def example_recalls_def example_evidence_def successfulActiveRecall_def lowHelp_def
        time_sub_def hour_def minute_def second_def)
  then show ?thesis using retained_spec by blast
qed

theorem ReduceNode_order_independent_witness:
  "ReduceNode example_lib ''n1'' (rev example_recalls) [] [] = ReduceNode example_lib ''n1'' example_recalls [] []"
  by (rule ReduceNode_order_independent) (simp_all add: example_recalls_def example_evidence_def)

lemma example_normalized: "normalizeCandidate example_lib ''w'' = ''w''"
  by (simp add: normalizeCandidate_def trim_space_def str_fields_def to_lower_def runes_def string_of_runes_def
      encode_rune_def is_space_def byte_def example_lib_def Let_def) (simp add: char_of_def bit_0)

lemma example_groups:
  "collect_failures example_lib 0 [example_failure] [] =
     [(''i1'' @ [CHR 0x00] @ ''w'', \<lparr>grp_candidate = ''w'', grp_rubric = ''i1'', grp_failures = [example_failure],
        grp_counters = [], grp_lastFailureIndex = 0\<rparr>)]"
  by (simp add: example_failure_def example_evidence_def example_normalized Let_def)

theorem misconceptions_map_order_witness:
  "misconceptions_of example_lib ''n1'' [example_failure] (rev (map snd (collect_failures example_lib 0 [example_failure] [])))
     = reduceMisconceptions example_lib ''n1'' [example_failure]"
  by (rule misconceptions_map_order; unfold example_groups; simp)

theorem reduceReview_ladder_witness:
  "reduceReview ''n1'' (example_recalls @ [example_failure])
     = review_step ''n1'' (reduceReview ''n1'' example_recalls) example_failure"
  using reduceReview_ladder [of "''n1''" example_recalls example_failure] by (rule conjunct1)

theorem misconception_sources_witness:
  "\<exists>h \<in> set (reduceMisconceptions example_lib ''n1'' [example_failure]).
     mh_SourceEvidenceIDs h \<noteq> [] \<and> mh_CausedByEvidenceID h \<in> set (mh_SourceEvidenceIDs h @ mh_CounterEvidenceIDs h)"
proof -
  obtain h where "h \<in> set (reduceMisconceptions example_lib ''n1'' [example_failure])"
    unfolding reduceMisconceptions_def misconceptions_of_def example_groups by simp
  then show ?thesis using misconception_sources by blast
qed

theorem EstimateActiveTime_bounds_witness:
  "ate_DurationSeconds (EstimateActiveTime ''s''
     [\<lparr>smp_EventSequence = 1, smp_SessionID = ''s'', smp_ReceivedAt = 0, smp_UserInitiated = True\<rparr>,
      \<lparr>smp_EventSequence = 2, smp_SessionID = ''s'', smp_ReceivedAt = hour, smp_UserInitiated = True\<rparr>]) \<le> 300"
  using EstimateActiveTime_bounds [of "[\<lparr>smp_EventSequence = 1, smp_SessionID = ''s'', smp_ReceivedAt = 0, smp_UserInitiated = True\<rparr>,
      \<lparr>smp_EventSequence = 2, smp_SessionID = ''s'', smp_ReceivedAt = hour, smp_UserInitiated = True\<rparr>]" "''s''"]
  by (simp add: EstimateActiveTime_def Let_def sample_less_def hour_def minute_def second_def)

end
