(* ===== verification/Projection.thy ===== *)
theory Projection
  imports Reducer
begin

text \<open>
  The event-sourced projection, \<open>server/internal/learning/event.go\<close>, with the carry-over records of
  \<open>carryover.go\<close> it stores. \<open>ApplyEvent\<close> folds one learning event into the projection and
  \<open>Replay\<close> rebuilds a projection from a log. The Go function changes its projection before some of
  its failures, so the model returns the projection together with the error, if there is one.

  \<open>encoding/json\<close> is not modelled: the record \<open>event_codec\<close> holds one decoding function for every
  payload type the code unmarshals, and the two printing functions it uses.

  The lemmas: sequence numbers only grow, replaying a log and folding its events as they come give
  the same projection, the order events are handed to \<open>Replay\<close> in does not matter, the stored
  reduction of every node is the reduction of the evidence stored for it, a privacy redaction
  forgets everything, and the fingerprint sees neither the generation nor the transient flags.
\<close>

section \<open>Carry-over records\<close>

datatype EvidenceCarryoverStatus = EvidenceCarryoverOpen | EvidenceCarryoverApproved
  | EvidenceCarryoverRejected | EvidenceCarryoverStale | EvidenceCarryoverRedacted
  | EvidenceCarryoverOther string

fun carryover_text :: "EvidenceCarryoverStatus \<Rightarrow> string" where
  "carryover_text EvidenceCarryoverOpen = ''open''"
| "carryover_text EvidenceCarryoverApproved = ''approved''"
| "carryover_text EvidenceCarryoverRejected = ''rejected''"
| "carryover_text EvidenceCarryoverStale = ''stale''"
| "carryover_text EvidenceCarryoverRedacted = ''redacted''"
| "carryover_text (EvidenceCarryoverOther t) = t"

record EvidenceCarryoverLink =
  ecl_ID :: string
  ecl_ProposalID :: string
  ecl_SourceEvidenceID :: string
  ecl_TargetKnowledgeRevisionID :: string
  ecl_TargetNodeID :: string
  ecl_TargetNodeRevisionID :: string
  ecl_TargetDocumentRevisionID :: string
  ecl_DecisionID :: string
  ecl_EventID :: string
  ecl_EventSequence :: int
  ecl_CreatedAt :: time

record ProvisionalEvidenceCarryover =
  pec_ProposalID :: string
  pec_KnowledgeProposalID :: string
  pec_SourceEvidenceID :: string
  pec_SourceKnowledgeRevisionID :: string
  pec_SourceNodeRevisionID :: string
  pec_TargetKnowledgeRevisionID :: string
  pec_Links :: "EvidenceCarryoverLink list"
  pec_BasisFingerprint :: string
  pec_PolicyVersion :: string
  pec_ApprovedEventSequence :: int

record EvidenceCarryoverEvent =
  ece_ProposalID :: string
  ece_DecisionID :: string
  ece_RequestedDecision :: string
  ece_Outcome :: string
  ece_Reason :: string
  ece_Provisional :: "ProvisionalEvidenceCarryover option"

section \<open>Events and projections\<close>

record LearningEvent =
  le_EventSequence :: int
  le_ID :: string
  le_Type :: EventType
  le_SchemaVersion :: int
  le_AggregateType :: string
  le_AggregateID :: string
  le_AggregateVersion :: int
  le_DeviceID :: string
  le_OperationID :: string
  le_OperationOrdinal :: int
  le_ReceivedAt :: time
  le_OccurredAt :: "time option"
  le_PayloadID :: string
  le_PayloadHash :: string
  le_Payload :: string
  le_ParentSessionID :: string
  le_Source :: string
  le_ArchiveDisposition :: string
  le_EvidenceDisposition :: string
  le_GoalRevisionID :: string
  le_RouteRevisionID :: string
  le_KnowledgeRevisionID :: string
  le_ActivityID :: string
  le_ActivityRevision :: int
  le_Redacted :: bool

record RedactionPayload =
  red_ErasureID :: string
  red_Generation :: int
  red_RedactedThrough :: "int option"
  red_PolicyVersion :: string
  red_ReasonCode :: string

record ProjectionMetadata =
  md_AsOfEventSequence :: int
  md_ProjectionVersion :: string
  md_MasteryReducerVersion :: string
  md_AssessmentPolicy :: string
  md_ReviewPolicy :: string
  md_KnowledgeRevisionID :: string
  md_GenerationID :: string
  md_Rebuilding :: bool
  md_Degraded :: bool
  md_Incomplete :: bool
  md_ReasonCodes :: "string list"

record RouteProjection =
  rp_Route :: RouteRevision
  rp_EventSequence :: int
  rp_Current :: bool

record SessionProjection =
  sp_Session :: Session
  sp_UpdatedEventSequence :: int

record AssessmentProjectionEvent =
  ape_AssessmentID :: string
  ape_NodeRevisionID :: string
  ape_Reasons :: "string list"
  ape_Decision :: AssessmentDecision

record Projection =
  pj_Metadata :: ProjectionMetadata
  pj_Timeline :: "TimelineItem list"
  pj_Routes :: "RouteProjection list"
  pj_Sessions :: "(string, SessionProjection) gomap"
  pj_Stats :: "(string, ActiveTimeEstimate) gomap"
  pj_Evidence :: "(string, AcceptedEvidence) gomap"
  pj_Invalidated :: "(string, bool) gomap"
  pj_Pending :: "(string, PendingAssessment) gomap"
  pj_Nodes :: "(string, NodeReduction) gomap"
  pj_Carryovers :: "(string, ProvisionalEvidenceCarryover) gomap"
  pj_RedactedEvents :: "(string, bool) gomap"
  pj_Exposures :: "Exposure list"

text \<open>
  The decoders. A strict decoder reads one value from the front of its input with unknown fields
  refused and returns what is left; \<open>cod_at_eof\<close> says that decoding the rest meets \<open>io.EOF\<close>.
  \<open>cod_redaction\<close> is the lenient reading of a redaction (an absent sequence reads as zero); the
  last two print.
\<close>

record event_codec =
  cod_route :: "string \<Rightarrow> error + RouteRevision"
  cod_session :: "string \<Rightarrow> error + SessionProjection"
  cod_evidence :: "string \<Rightarrow> error + AcceptedEvidence"
  cod_evidence_id :: "string \<Rightarrow> error + string"
  cod_assessment :: "string \<Rightarrow> error + AssessmentProjectionEvent"
  cod_offline_assessment :: "string \<Rightarrow> error + PendingAssessment"
  cod_carryover :: "string \<Rightarrow> error + EvidenceCarryoverEvent"
  cod_exposure :: "string \<Rightarrow> error + Exposure"
  cod_redacted_event :: "string \<Rightarrow> error + (string \<times> string)"
  cod_redaction :: "string \<Rightarrow> error + RedactionPayload"
  cod_strict_legacy :: "string \<Rightarrow> error + (RedactionPayload \<times> string)"
  cod_strict_canonical :: "string \<Rightarrow> error + (RedactionPayload \<times> string)"
  cod_at_eof :: "string \<Rightarrow> bool"
  cod_print_redaction :: "RedactionPayload \<Rightarrow> error + string"
  cod_print_projection :: "Projection \<Rightarrow> error + string"

section \<open>The event registry\<close>

type_synonym Decoder = "string \<Rightarrow> error + string"
type_synonym EventRegistry = "(int, Decoder) gomap"

definition Register :: "EventRegistry \<Rightarrow> int \<Rightarrow> Decoder option \<Rightarrow> EventRegistry" where
  "Register r version decoder =
     (case decoder of Some d \<Rightarrow> if version > 0 then AList.update version d r else r | None \<Rightarrow> r)"

definition NewEventRegistry :: "golib \<Rightarrow> EventRegistry" where
  "NewEventRegistry L =
     Register [] 1 (Some (\<lambda>payload. if \<not> lib_json_valid L payload
       then Inl (PlainError ''invalid event payload'') else Inr payload))"

definition decodeStrictEventPayload ::
  "event_codec \<Rightarrow> (string \<Rightarrow> error + (RedactionPayload \<times> string)) \<Rightarrow> string \<Rightarrow> error + RedactionPayload" where
  "decodeStrictEventPayload J strict payload =
     (case strict payload of
        Inl e \<Rightarrow> Inl e
      | Inr (v, rest) \<Rightarrow>
          if \<not> cod_at_eof J rest then Inl (PlainError ''event payload must contain one JSON object'') else Inr v)"

definition decodePrivacyRedactionPayload :: "event_codec \<Rightarrow> int \<Rightarrow> string \<Rightarrow> error + string" where
  "decodePrivacyRedactionPayload J version payload =
     (case (if version = EventSchemaVersion then decodeStrictEventPayload J (cod_strict_legacy J) payload
            else if version = EventRedactedSchemaVersion then decodeStrictEventPayload J (cod_strict_canonical J) payload
            else Inl (PlainError ''unsupported privacy redaction schema'')) of
        Inl e \<Rightarrow> Inl e
      | Inr canonical \<Rightarrow>
          if red_RedactedThrough canonical = None
          then Inl (PlainError ''privacy redaction sequence is required'')
          else cod_print_redaction J canonical)"

definition privacy_redaction :: "LearningEvent \<Rightarrow> bool" where
  "privacy_redaction e \<longleftrightarrow> le_Type e = EventRedacted \<and> le_AggregateType e = ''privacy''"

definition version_reason :: "int \<Rightarrow> string" where
  "version_reason v = ''version_'' @ int_text v"

definition Decode :: "event_codec \<Rightarrow> EventRegistry \<Rightarrow> LearningEvent \<Rightarrow> error + LearningEvent" where
  "Decode J r event =
     (if privacy_redaction event then
        (case decodePrivacyRedactionPayload J (le_SchemaVersion event) (le_Payload event) of
           Inl err \<Rightarrow>
             if le_SchemaVersion event \<noteq> EventSchemaVersion \<and> le_SchemaVersion event \<noteq> EventRedactedSchemaVersion
             then Inl (err_reason CodeUnsupportedEventSchema (version_reason (le_SchemaVersion event)))
             else Inl (err_cause CodeProjectionUnavailable [] (Some err))
         | Inr payload \<Rightarrow> Inr (event\<lparr>le_Payload := payload\<rparr>))
      else case map_of r (le_SchemaVersion event) of
          None \<Rightarrow> Inl (err_reason CodeUnsupportedEventSchema (version_reason (le_SchemaVersion event)))
        | Some decoder \<Rightarrow>
            (case decoder (le_Payload event) of
               Inl err \<Rightarrow> Inl (err_cause CodeProjectionUnavailable [] (Some err))
             | Inr payload \<Rightarrow> Inr (event\<lparr>le_Payload := payload\<rparr>)))"

section \<open>Folding events\<close>

definition EmptyProjection :: "string \<Rightarrow> Projection" where
  "EmptyProjection generationID =
     \<lparr>pj_Metadata = \<lparr>md_AsOfEventSequence = 0, md_ProjectionVersion = ProjectionVersion,
        md_MasteryReducerVersion = MasteryReducerVersion, md_AssessmentPolicy = AssessmentPolicyVersion,
        md_ReviewPolicy = ReviewPolicyVersion, md_KnowledgeRevisionID = [], md_GenerationID = generationID,
        md_Rebuilding = False, md_Degraded = False, md_Incomplete = False, md_ReasonCodes = []\<rparr>,
      pj_Timeline = [], pj_Routes = [], pj_Sessions = [], pj_Stats = [], pj_Evidence = [], pj_Invalidated = [],
      pj_Pending = [], pj_Nodes = [], pj_Carryovers = [], pj_RedactedEvents = [], pj_Exposures = []\<rparr>"

definition timelineItem :: "LearningEvent \<Rightarrow> TimelineItem" where
  "timelineItem event =
     \<lparr>tl_EventSequence = le_EventSequence event, tl_EventID = le_ID event, tl_Type = le_Type event,
      tl_AggregateID = le_AggregateID event, tl_ParentSessionID = le_ParentSessionID event,
      tl_Source = (if le_Source event = [] then ''online'' else le_Source event),
      tl_ArchiveDisposition = le_ArchiveDisposition event,
      tl_EvidenceDisposition = le_EvidenceDisposition event, tl_ActorDeviceID = le_DeviceID event,
      tl_ReceivedAt = le_ReceivedAt event, tl_OccurredAt = le_OccurredAt event, tl_OccurredAtTrusted = False\<rparr>"

definition appendUnique :: "string list \<Rightarrow> string \<Rightarrow> string list" where
  "appendUnique vs v = (if v \<in> set vs then vs else vs @ [v])"

text \<open>
  \<open>recomputeNode\<close>: the evidence of the node in the order the map gives it, its pending
  assessments in the order of their identifiers.
\<close>

definition node_evidence :: "Projection \<Rightarrow> string \<Rightarrow> AcceptedEvidence list" where
  "node_evidence p node = filter (\<lambda>e. ev_NodeRevisionID e = node) (map snd (pj_Evidence p))"

definition node_pending :: "Projection \<Rightarrow> string \<Rightarrow> PendingAssessment list" where
  "node_pending p node =
     map (\<lambda>i. the (map_of (pj_Pending p) i))
       (sort_strings (map fst (filter (\<lambda>(_, q). pa_NodeRevisionID q = node) (pj_Pending p))))"

definition recomputeNode :: "golib \<Rightarrow> Projection \<Rightarrow> string \<Rightarrow> Projection" where
  "recomputeNode L p node =
     (if node = [] then p
      else p\<lparr>pj_Nodes := AList.update node
             (ReduceNode L node (node_evidence p node) (pj_Invalidated p) (node_pending p node)) (pj_Nodes p)\<rparr>)"

definition set_as_of :: "int \<Rightarrow> Projection \<Rightarrow> Projection" where
  "set_as_of n p = p\<lparr>pj_Metadata := (pj_Metadata p)\<lparr>md_AsOfEventSequence := n\<rparr>\<rparr>"

definition not_increasing :: error where
  "not_increasing = PlainError ''event sequence is not strictly increasing''"

definition invalidate_evidence :: "golib \<Rightarrow> Projection \<Rightarrow> string \<Rightarrow> Projection" where
  "invalidate_evidence L p evidenceID =
     (let p = p\<lparr>pj_Invalidated := AList.update evidenceID True (pj_Invalidated p)\<rparr>
      in case map_of (pj_Evidence p) evidenceID of
           Some evidence \<Rightarrow> recomputeNode L p (ev_NodeRevisionID evidence)
         | None \<Rightarrow> p)"

definition add_pending :: "golib \<Rightarrow> Projection \<Rightarrow> PendingAssessment \<Rightarrow> Projection" where
  "add_pending L p q =
     recomputeNode L (p\<lparr>pj_Pending := AList.update (pa_AssessmentID q) q (pj_Pending p)\<rparr>) (pa_NodeRevisionID q)"

text \<open>The cases of the switch, one definition each; an error leaves the projection given.\<close>

definition apply_privacy_redaction :: "event_codec \<Rightarrow> Projection \<Rightarrow> LearningEvent \<Rightarrow> Projection \<times> error option" where
  "apply_privacy_redaction J p decoded =
     (case cod_redaction J (le_Payload decoded) of
        Inl e \<Rightarrow> (p, Some e)
      | Inr payload \<Rightarrow>
          let through = (case red_RedactedThrough payload of None \<Rightarrow> 0 | Some n \<Rightarrow> n)
          in if red_ErasureID payload = [] \<or> red_Generation payload < 2 \<or> through < 0
                \<or> through \<ge> le_EventSequence decoded \<or> red_PolicyVersion payload = []
                \<or> red_ReasonCode payload = [] \<or> le_AggregateID decoded \<noteq> red_ErasureID payload
             then (p, Some (PlainError ''privacy redaction payload is incomplete''))
             else let p = set_as_of (le_EventSequence decoded) (EmptyProjection (md_GenerationID (pj_Metadata p)))
                  in (p\<lparr>pj_RedactedEvents := AList.update (le_ID decoded) True (pj_RedactedEvents p),
                       pj_Timeline := pj_Timeline p @ [timelineItem decoded]\<rparr>, None))"

definition apply_route_created :: "event_codec \<Rightarrow> Projection \<Rightarrow> LearningEvent \<Rightarrow> Projection \<times> error option" where
  "apply_route_created J p decoded =
     (case cod_route J (le_Payload decoded) of
        Inl e \<Rightarrow> (p, Some e)
      | Inr route \<Rightarrow>
          if route_ID route = [] \<or> route_RouteID route = [] \<or> route_GoalRevisionID route = []
             \<or> route_KnowledgeRevisionID route = [] \<or> \<not> StableRouteSteps (route_Steps route)
          then (p, Some (PlainError ''route revision payload is incomplete''))
          else (p\<lparr>pj_Routes := map (\<lambda>r. if route_RouteID (rp_Route r) = route_RouteID route then r\<lparr>rp_Current := False\<rparr> else r)
                     (pj_Routes p) @ [\<lparr>rp_Route = route, rp_EventSequence = le_EventSequence decoded, rp_Current = True\<rparr>],
                 pj_Metadata := (pj_Metadata p)\<lparr>md_KnowledgeRevisionID := route_KnowledgeRevisionID route\<rparr>\<rparr>, None))"

definition apply_session_changed :: "event_codec \<Rightarrow> Projection \<Rightarrow> LearningEvent \<Rightarrow> Projection \<times> error option" where
  "apply_session_changed J p decoded =
     (case cod_session J (le_Payload decoded) of
        Inl e \<Rightarrow> (p, Some e)
      | Inr session \<Rightarrow>
          if sess_ID (sp_Session session) = [] \<or> sess_State (sp_Session session) = StateUnset
          then (p, Some (PlainError ''session projection payload is incomplete''))
          else let i = sess_ID (sp_Session session);
                   session = session\<lparr>sp_UpdatedEventSequence := le_EventSequence decoded\<rparr>
               in (p\<lparr>pj_Sessions := AList.update i session (pj_Sessions p),
                    pj_Stats := (if map_of (pj_Stats p) i = None
                      then AList.update i (EstimateActiveTime i []) (pj_Stats p) else pj_Stats p)\<rparr>, None))"

definition apply_evidence_accepted :: "golib \<Rightarrow> event_codec \<Rightarrow> Projection \<Rightarrow> LearningEvent \<Rightarrow> Projection \<times> error option" where
  "apply_evidence_accepted L J p decoded =
     (case cod_evidence J (le_Payload decoded) of
        Inl e \<Rightarrow> (p, Some e)
      | Inr evidence \<Rightarrow>
          if ev_AcceptedEventSequence evidence \<noteq> 0 \<and> ev_AcceptedEventSequence evidence \<noteq> le_EventSequence decoded
          then (p, Some (PlainError ''accepted evidence event sequence does not match envelope''))
          else let evidence = (if ev_AcceptedEventSequence evidence = 0
                    then evidence\<lparr>ev_AcceptedEventSequence := le_EventSequence decoded\<rparr> else evidence)
               in (recomputeNode L (p\<lparr>pj_Evidence := AList.update (ev_ID evidence) evidence (pj_Evidence p)\<rparr>)
                     (ev_NodeRevisionID evidence), None))"

definition apply_evidence_invalidated :: "golib \<Rightarrow> event_codec \<Rightarrow> Projection \<Rightarrow> LearningEvent \<Rightarrow> Projection \<times> error option" where
  "apply_evidence_invalidated L J p decoded =
     (case cod_evidence_id J (le_Payload decoded) of
        Inl e \<Rightarrow> (p, Some e)
      | Inr evidenceID \<Rightarrow> (invalidate_evidence L p evidenceID, None))"

definition apply_marked_provisional :: "golib \<Rightarrow> event_codec \<Rightarrow> Projection \<Rightarrow> LearningEvent \<Rightarrow> Projection \<times> error option" where
  "apply_marked_provisional L J p decoded =
     (case cod_assessment J (le_Payload decoded) of
        Inl e \<Rightarrow> (p, Some e)
      | Inr payload \<Rightarrow>
          if ape_AssessmentID payload = [] \<or> ape_NodeRevisionID payload = []
          then (p, Some (PlainError ''provisional assessment payload is incomplete''))
          else (add_pending L p \<lparr>pa_AssessmentID = ape_AssessmentID payload,
                  pa_NodeRevisionID = ape_NodeRevisionID payload, pa_Reasons = ape_Reasons payload\<rparr>, None))"

definition apply_assessment_decided :: "golib \<Rightarrow> event_codec \<Rightarrow> Projection \<Rightarrow> LearningEvent \<Rightarrow> Projection \<times> error option" where
  "apply_assessment_decided L J p decoded =
     (case cod_assessment J (le_Payload decoded) of
        Inl e \<Rightarrow> (p, Some e)
      | Inr payload \<Rightarrow>
          if ape_AssessmentID payload = [] \<or> ape_NodeRevisionID payload = []
          then (p, Some (PlainError ''assessment disposition payload is incomplete''))
          else let p = (case map_of (pj_Pending p) (ape_AssessmentID payload) of
                    Some pending \<Rightarrow> recomputeNode L
                      (p\<lparr>pj_Pending := AList.delete (ape_AssessmentID payload) (pj_Pending p)\<rparr>) (pa_NodeRevisionID pending)
                  | None \<Rightarrow> p)
               in (recomputeNode L p (ape_NodeRevisionID payload), None))"

definition apply_offline_queued :: "golib \<Rightarrow> event_codec \<Rightarrow> Projection \<Rightarrow> LearningEvent \<Rightarrow> Projection \<times> error option" where
  "apply_offline_queued L J p decoded =
     (case cod_offline_assessment J (le_Payload decoded) of
        Inl e \<Rightarrow> (p, Some e)
      | Inr payload \<Rightarrow>
          if pa_AssessmentID payload = [] \<or> pa_NodeRevisionID payload = []
          then (p, Some (PlainError ''offline assessment queue payload is incomplete''))
          else (add_pending L p payload, None))"

definition apply_carryover_approved :: "event_codec \<Rightarrow> Projection \<Rightarrow> LearningEvent \<Rightarrow> Projection \<times> error option" where
  "apply_carryover_approved J p decoded =
     (let incomplete = (p, Some (PlainError ''approved evidence carryover payload is incomplete''))
      in case cod_carryover J (le_Payload decoded) of
        Inl e \<Rightarrow> (p, Some e)
      | Inr payload \<Rightarrow>
          (case ece_Provisional payload of
             None \<Rightarrow> incomplete
           | Some carryover \<Rightarrow>
               if ece_ProposalID payload = [] \<or> ece_DecisionID payload = []
                  \<or> ece_RequestedDecision payload \<noteq> ''approve''
                  \<or> ece_Outcome payload \<noteq> carryover_text EvidenceCarryoverApproved
                  \<or> pec_ProposalID carryover \<noteq> ece_ProposalID payload \<or> pec_Links carryover = []
               then incomplete
               else if pec_ApprovedEventSequence carryover \<noteq> 0 \<and> pec_ApprovedEventSequence carryover \<noteq> le_EventSequence decoded
               then (p, Some (PlainError ''approved evidence carryover event sequence does not match envelope''))
               else let carryover = (if pec_ApprovedEventSequence carryover = 0
                         then carryover\<lparr>pec_ApprovedEventSequence := le_EventSequence decoded\<rparr> else carryover)
                    in (p\<lparr>pj_Carryovers := AList.update (pec_ProposalID carryover) carryover (pj_Carryovers p)\<rparr>, None)))"

definition apply_carryover_closed :: "event_codec \<Rightarrow> Projection \<Rightarrow> LearningEvent \<Rightarrow> Projection \<times> error option" where
  "apply_carryover_closed J p decoded =
     (case cod_carryover J (le_Payload decoded) of
        Inl e \<Rightarrow> (p, Some e)
      | Inr payload \<Rightarrow>
          if ece_ProposalID payload = [] \<or> ece_DecisionID payload = [] \<or> ece_Provisional payload \<noteq> None
          then (p, Some (PlainError ''terminal evidence carryover payload is incomplete''))
          else (p, None))"

definition apply_exposure :: "event_codec \<Rightarrow> Projection \<Rightarrow> LearningEvent \<Rightarrow> Projection \<times> error option" where
  "apply_exposure J p decoded =
     (case cod_exposure J (le_Payload decoded) of
        Inl e \<Rightarrow> (p, Some e)
      | Inr exposure \<Rightarrow> (p\<lparr>pj_Exposures := pj_Exposures p @ [exposure]\<rparr>, None))"

definition apply_event_redacted :: "golib \<Rightarrow> event_codec \<Rightarrow> Projection \<Rightarrow> LearningEvent \<Rightarrow> Projection \<times> error option" where
  "apply_event_redacted L J p decoded =
     (case cod_redacted_event J (le_Payload decoded) of
        Inl e \<Rightarrow> (p, Some e)
      | Inr (eventID, evidenceID) \<Rightarrow>
          let p = p\<lparr>pj_RedactedEvents := AList.update eventID True (pj_RedactedEvents p)\<rparr>
          in (if evidenceID \<noteq> [] then invalidate_evidence L p evidenceID else p, None))"

definition apply_by_type :: "golib \<Rightarrow> event_codec \<Rightarrow> Projection \<Rightarrow> LearningEvent \<Rightarrow> Projection \<times> error option" where
  "apply_by_type L J p decoded =
     (case le_Type decoded of
        EventRouteRevisionCreated \<Rightarrow> apply_route_created J p decoded
      | EventTutoringStateChanged \<Rightarrow> apply_session_changed J p decoded
      | EventLearningSessionStarted \<Rightarrow> apply_session_changed J p decoded
      | EventFocusSuspended \<Rightarrow> apply_session_changed J p decoded
      | EventFocusResumed \<Rightarrow> apply_session_changed J p decoded
      | EventRouteAdvanced \<Rightarrow> apply_session_changed J p decoded
      | EventLearningCompleted \<Rightarrow> apply_session_changed J p decoded
      | EventEvidenceAccepted \<Rightarrow> apply_evidence_accepted L J p decoded
      | EventEvidenceInvalidated \<Rightarrow> apply_evidence_invalidated L J p decoded
      | EventAssessmentMarkedProvisional \<Rightarrow> apply_marked_provisional L J p decoded
      | EventAssessmentAccepted \<Rightarrow> apply_assessment_decided L J p decoded
      | EventAssessmentOverridden \<Rightarrow> apply_assessment_decided L J p decoded
      | EventAssessmentVoided \<Rightarrow> apply_assessment_decided L J p decoded
      | EventOfflineAssessmentQueued \<Rightarrow> apply_offline_queued L J p decoded
      | EventEvidenceCarryoverApproved \<Rightarrow> apply_carryover_approved J p decoded
      | EventEvidenceCarryoverRejected \<Rightarrow> apply_carryover_closed J p decoded
      | EventEvidenceCarryoverStaled \<Rightarrow> apply_carryover_closed J p decoded
      | EventExposureRecorded \<Rightarrow> apply_exposure J p decoded
      | EventRedacted \<Rightarrow> apply_event_redacted L J p decoded
      | _ \<Rightarrow> (p, None))"

text \<open>After the switch: the active time of the session and its aggregate version.\<close>

definition update_stats :: "Projection \<Rightarrow> LearningEvent \<Rightarrow> Projection" where
  "update_stats p decoded =
     (let active = (if le_AggregateType decoded = ''session'' then le_AggregateID decoded
            else if le_Source decoded = ''offline'' then le_ParentSessionID decoded else [])
      in if active \<noteq> [] \<and> isActiveTimeEvent (le_Type decoded)
         then p\<lparr>pj_Stats := AList.update active (estimateActiveTimeFromTimeline active (pj_Timeline p)) (pj_Stats p)\<rparr>
         else p)"

definition update_version :: "Projection \<Rightarrow> LearningEvent \<Rightarrow> Projection" where
  "update_version p decoded =
     (if le_AggregateType decoded = ''session'' then
        (case map_of (pj_Sessions p) (le_AggregateID decoded) of
           None \<Rightarrow> p
         | Some session \<Rightarrow>
             p\<lparr>pj_Sessions := AList.update (le_AggregateID decoded)
                 (session\<lparr>sp_Session := (sp_Session session)\<lparr>sess_AggregateVer := le_AggregateVersion decoded\<rparr>,
                          sp_UpdatedEventSequence := le_EventSequence decoded\<rparr>) (pj_Sessions p)\<rparr>)
      else p)"

definition finish_event :: "Projection \<Rightarrow> LearningEvent \<Rightarrow> Projection" where
  "finish_event p decoded = update_version (update_stats p decoded) decoded"

definition ApplyEvent ::
  "golib \<Rightarrow> event_codec \<Rightarrow> EventRegistry \<Rightarrow> Projection \<Rightarrow> LearningEvent \<Rightarrow> Projection \<times> error option" where
  "ApplyEvent L J registry p event =
     (if le_Redacted event then
        (if le_EventSequence event \<le> md_AsOfEventSequence (pj_Metadata p) then (p, Some not_increasing)
         else ((set_as_of (le_EventSequence event) p)
                 \<lparr>pj_RedactedEvents := AList.update (le_ID event) True (pj_RedactedEvents p)\<rparr>, None))
      else case Decode J registry event of
          Inl err \<Rightarrow>
            (p\<lparr>pj_Metadata := (pj_Metadata p)\<lparr>md_Incomplete := True,
                 md_ReasonCodes := appendUnique (md_ReasonCodes (pj_Metadata p)) (code_text (ErrorCode err))\<rparr>\<rparr>, Some err)
        | Inr decoded \<Rightarrow>
            if le_EventSequence decoded \<le> md_AsOfEventSequence (pj_Metadata p) then (p, Some not_increasing)
            else let p = set_as_of (le_EventSequence decoded) p
                 in if privacy_redaction decoded then apply_privacy_redaction J p decoded
                    else let p = p\<lparr>pj_Timeline := pj_Timeline p @ [timelineItem decoded]\<rparr>
                         in (case apply_by_type L J p decoded of
                               (p', Some e) \<Rightarrow> (p', Some e)
                             | (p', None) \<Rightarrow> (finish_event p' decoded, None)))"

fun apply_events ::
  "golib \<Rightarrow> event_codec \<Rightarrow> EventRegistry \<Rightarrow> Projection \<Rightarrow> LearningEvent list \<Rightarrow> Projection \<times> error option" where
  "apply_events L J registry p [] = (p, None)"
| "apply_events L J registry p (e # es) =
     (case ApplyEvent L J registry p e of
        (p', Some err) \<Rightarrow> (p', Some err)
      | (p', None) \<Rightarrow> apply_events L J registry p' es)"

definition event_less :: "LearningEvent \<Rightarrow> LearningEvent \<Rightarrow> bool" where
  "event_less a b \<longleftrightarrow> le_EventSequence a < le_EventSequence b"

definition Replay ::
  "golib \<Rightarrow> event_codec \<Rightarrow> LearningEvent list \<Rightarrow> EventRegistry \<Rightarrow> string \<Rightarrow> Projection \<times> error option" where
  "Replay L J events registry generationID =
     apply_events L J registry (EmptyProjection generationID) (go_sort event_less events)"

definition ProjectionFingerprint :: "golib \<Rightarrow> event_codec \<Rightarrow> Projection \<Rightarrow> error + string" where
  "ProjectionFingerprint L J p =
     (case cod_print_projection J (p\<lparr>pj_Metadata := (pj_Metadata p)\<lparr>md_GenerationID := [], md_Rebuilding := False,
             md_Degraded := False, md_Incomplete := False, md_ReasonCodes := []\<rparr>\<rparr>) of
        Inl e \<Rightarrow> Inl e
      | Inr encoded \<Rightarrow> Inr (SHA256 L encoded))"

section \<open>Sequence numbers\<close>

abbreviation as_of :: "Projection \<Rightarrow> int" where
  "as_of p \<equiv> md_AsOfEventSequence (pj_Metadata p)"

lemma as_of_set [simp]: "as_of (set_as_of n p) = n"
  by (simp add: set_as_of_def)

lemma Decode_same:
  "Decode J r e = Inr d \<Longrightarrow> \<exists>payload. d = e\<lparr>le_Payload := payload\<rparr>"
  by (auto simp: Decode_def split: if_splits sum.splits option.splits)

lemma recompute_metadata [simp]:
  "pj_Metadata (recomputeNode L p n) = pj_Metadata p" "pj_Metadata (invalidate_evidence L p i) = pj_Metadata p"
  "pj_Metadata (add_pending L p q) = pj_Metadata p"
  by (simp_all add: recomputeNode_def invalidate_evidence_def add_pending_def Let_def split: option.split)

lemma apply_case_as_of:
  "as_of (fst (apply_route_created J p d)) = as_of p"
  "as_of (fst (apply_session_changed J p d)) = as_of p"
  "as_of (fst (apply_evidence_accepted L J p d)) = as_of p"
  "as_of (fst (apply_evidence_invalidated L J p d)) = as_of p"
  "as_of (fst (apply_marked_provisional L J p d)) = as_of p"
  "as_of (fst (apply_assessment_decided L J p d)) = as_of p"
  "as_of (fst (apply_offline_queued L J p d)) = as_of p"
  "as_of (fst (apply_carryover_approved J p d)) = as_of p"
  "as_of (fst (apply_carryover_closed J p d)) = as_of p"
  "as_of (fst (apply_exposure J p d)) = as_of p"
  "as_of (fst (apply_event_redacted L J p d)) = as_of p"
  by (simp_all add: apply_route_created_def apply_session_changed_def apply_evidence_accepted_def apply_evidence_invalidated_def apply_marked_provisional_def apply_assessment_decided_def apply_offline_queued_def apply_carryover_approved_def apply_carryover_closed_def apply_exposure_def apply_event_redacted_def Let_def
      split: sum.split option.split prod.split)

lemma apply_by_type_as_of [simp]: "as_of (fst (apply_by_type L J p d)) = as_of p"
  by (cases "le_Type d") (simp_all add: apply_by_type_def apply_case_as_of)

lemma finish_event_as_of [simp]: "as_of (finish_event p d) = as_of p"
  by (simp add: finish_event_def update_stats_def update_version_def Let_def split: option.split)

lemma apply_privacy_as_of:
  "as_of (fst (apply_privacy_redaction J p d)) = as_of p \<or> as_of (fst (apply_privacy_redaction J p d)) = le_EventSequence d"
  by (simp add: apply_privacy_redaction_def Let_def split: sum.split)

lemma ApplyEvent_as_of:
  assumes "ApplyEvent L J r p e = (p', None)"
  shows "as_of p < le_EventSequence e \<and> as_of p' = le_EventSequence e"
proof (cases "le_Redacted e")
  case True
  then show ?thesis using assms by (auto simp: ApplyEvent_def split: if_splits)
next
  case False
  then obtain d where d: "Decode J r e = Inr d" "as_of p < le_EventSequence d"
    using assms by (cases "Decode J r e") (auto simp: ApplyEvent_def split: if_splits)
  then have seq: "le_EventSequence d = le_EventSequence e" using Decode_same by fastforce
  let ?p = "set_as_of (le_EventSequence d) p"
  let ?q = "?p\<lparr>pj_Timeline := pj_Timeline ?p @ [timelineItem d]\<rparr>"
  show ?thesis
  proof (cases "privacy_redaction d")
    case True
    then show ?thesis
      using assms False d seq apply_privacy_as_of [of J ?p d] by (simp add: ApplyEvent_def Let_def)
  next
    case plain: False
    then obtain q where q: "apply_by_type L J ?q d = (q, None)" "p' = finish_event q d"
      using assms False d by (auto simp: ApplyEvent_def Let_def split: prod.splits option.splits)
    have "as_of q = as_of ?q" using apply_by_type_as_of [of L J ?q d] q(1) by simp
    then show ?thesis using q(2) d seq by simp
  qed
qed

text \<open>The four ways an event can go.\<close>

definition prepared :: "Projection \<Rightarrow> LearningEvent \<Rightarrow> Projection" where
  "prepared p d = (let p = set_as_of (le_EventSequence d) p in p\<lparr>pj_Timeline := pj_Timeline p @ [timelineItem d]\<rparr>)"

lemma ApplyEvent_cases:
  obtains (redacted) "le_Redacted e" "fst (ApplyEvent L J r p e) = p \<or> fst (ApplyEvent L J r p e) =
      (set_as_of (le_EventSequence e) p)\<lparr>pj_RedactedEvents := AList.update (le_ID e) True (pj_RedactedEvents p)\<rparr>"
  | (undecoded) m where "fst (ApplyEvent L J r p e) = p\<lparr>pj_Metadata := m\<rparr>"
  | (stale) "fst (ApplyEvent L J r p e) = p"
  | (privacy) d where "Decode J r e = Inr d" "privacy_redaction d"
      "ApplyEvent L J r p e = apply_privacy_redaction J (set_as_of (le_EventSequence d) p) d"
  | (switch) d where "Decode J r e = Inr d"
      "fst (ApplyEvent L J r p e) = fst (apply_by_type L J (prepared p d) d)
       \<or> fst (ApplyEvent L J r p e) = finish_event (fst (apply_by_type L J (prepared p d) d)) d"
proof (cases "le_Redacted e")
  case True
  then show thesis using redacted by (simp add: ApplyEvent_def)
next
  case False
  show thesis
  proof (cases "Decode J r e")
    case (Inl err)
    then show thesis using undecoded False by (simp add: ApplyEvent_def)
  next
    case (Inr d)
    consider "le_EventSequence d \<le> as_of p" | "\<not> le_EventSequence d \<le> as_of p" "privacy_redaction d"
      | "\<not> le_EventSequence d \<le> as_of p" "\<not> privacy_redaction d" by blast
    then show thesis
    proof cases
      case 1
      then show thesis using stale False Inr by (simp add: ApplyEvent_def)
    next
      case 2
      then show thesis using privacy False Inr by (simp add: ApplyEvent_def Let_def)
    next
      case 3
      then have "ApplyEvent L J r p e = (case apply_by_type L J (prepared p d) d of
          (p', Some e) \<Rightarrow> (p', Some e) | (p', None) \<Rightarrow> (finish_event p' d, None))"
        using False Inr by (simp add: ApplyEvent_def prepared_def Let_def)
      then show thesis
        using switch [OF Inr] by (auto split: prod.splits option.splits)
    qed
  qed
qed

lemma prepared_fields [simp]:
  "pj_Evidence (prepared p d) = pj_Evidence p" "pj_Invalidated (prepared p d) = pj_Invalidated p"
  "pj_Pending (prepared p d) = pj_Pending p" "pj_Nodes (prepared p d) = pj_Nodes p"
  "pj_Routes (prepared p d) = pj_Routes p"
  by (simp_all add: prepared_def set_as_of_def)

lemma apply_events_append:
  "apply_events L J r p (xs @ ys) =
     (case apply_events L J r p xs of (q, Some err) \<Rightarrow> (q, Some err) | (q, None) \<Rightarrow> apply_events L J r q ys)"
  by (induction xs arbitrary: p) (auto split: prod.split option.split)

lemma apply_events_increasing:
  "apply_events L J r p es = (p', None) \<Longrightarrow>
     sorted_wrt (<) (as_of p # map le_EventSequence es) \<and> as_of p' = last (as_of p # map le_EventSequence es)"
proof (induction es arbitrary: p)
  case Nil
  then show ?case by simp
next
  case (Cons e es)
  then obtain q where q: "ApplyEvent L J r p e = (q, None)" "apply_events L J r q es = (p', None)"
    by (auto split: prod.splits option.splits)
  show ?case
    using Cons.IH [OF q(2)] ApplyEvent_as_of [OF q(1)] by auto
qed

interpretation event_order: strict_weak event_less
  by unfold_locales (auto simp: event_less_def)

section \<open>Generations\<close>

definition set_generation :: "string \<Rightarrow> Projection \<Rightarrow> Projection" where
  "set_generation g p = p\<lparr>pj_Metadata := (pj_Metadata p)\<lparr>md_GenerationID := g\<rparr>\<rparr>"

lemma set_generation_simps [simp]:
  "pj_Timeline (set_generation g p) = pj_Timeline p" "pj_Routes (set_generation g p) = pj_Routes p"
  "pj_Sessions (set_generation g p) = pj_Sessions p" "pj_Stats (set_generation g p) = pj_Stats p"
  "pj_Evidence (set_generation g p) = pj_Evidence p" "pj_Invalidated (set_generation g p) = pj_Invalidated p"
  "pj_Pending (set_generation g p) = pj_Pending p" "pj_Nodes (set_generation g p) = pj_Nodes p"
  "pj_Carryovers (set_generation g p) = pj_Carryovers p" "pj_RedactedEvents (set_generation g p) = pj_RedactedEvents p"
  "pj_Exposures (set_generation g p) = pj_Exposures p"
  "pj_Metadata (set_generation g p) = (pj_Metadata p)\<lparr>md_GenerationID := g\<rparr>"
  by (simp_all add: set_generation_def)

lemma node_views_generation [simp]:
  "node_evidence (set_generation g p) n = node_evidence p n" "node_pending (set_generation g p) n = node_pending p n"
  by (simp_all add: node_evidence_def node_pending_def)

lemma recomputeNode_generation: "recomputeNode L (set_generation g p) n = set_generation g (recomputeNode L p n)"
  by (simp add: recomputeNode_def set_generation_def node_evidence_def node_pending_def)

lemma update_generation:
  "(set_generation g p)\<lparr>pj_Pending := x1\<rparr> = set_generation g (p\<lparr>pj_Pending := x1\<rparr>)"
  "(set_generation g p)\<lparr>pj_Evidence := x2\<rparr> = set_generation g (p\<lparr>pj_Evidence := x2\<rparr>)"
  "(set_generation g p)\<lparr>pj_Invalidated := x3\<rparr> = set_generation g (p\<lparr>pj_Invalidated := x3\<rparr>)"
  "(set_generation g p)\<lparr>pj_RedactedEvents := x4\<rparr> = set_generation g (p\<lparr>pj_RedactedEvents := x4\<rparr>)"
  "(set_generation g p)\<lparr>pj_Timeline := x5\<rparr> = set_generation g (p\<lparr>pj_Timeline := x5\<rparr>)"
  "(set_generation g p)\<lparr>pj_Sessions := x6\<rparr> = set_generation g (p\<lparr>pj_Sessions := x6\<rparr>)"
  "(set_generation g p)\<lparr>pj_Stats := x7\<rparr> = set_generation g (p\<lparr>pj_Stats := x7\<rparr>)"
  "(set_generation g p)\<lparr>pj_Carryovers := x8\<rparr> = set_generation g (p\<lparr>pj_Carryovers := x8\<rparr>)"
  "(set_generation g p)\<lparr>pj_Exposures := x9\<rparr> = set_generation g (p\<lparr>pj_Exposures := x9\<rparr>)"
  by (simp_all add: set_generation_def)

lemma invalidate_generation: "invalidate_evidence L (set_generation g p) i = set_generation g (invalidate_evidence L p i)"
  by (simp add: invalidate_evidence_def Let_def update_generation recomputeNode_generation split: option.split)

lemma add_pending_generation: "add_pending L (set_generation g p) q = set_generation g (add_pending L p q)"
  by (simp add: add_pending_def update_generation recomputeNode_generation)

lemmas generation_simps = update_generation recomputeNode_generation invalidate_generation add_pending_generation

lemma route_created_generation:
  "apply_route_created J (set_generation g p) d = apfst (set_generation g) (apply_route_created J p d)"
  by (simp add: apply_route_created_def set_generation_def split: sum.split)

lemma session_changed_generation:
  "apply_session_changed J (set_generation g p) d = apfst (set_generation g) (apply_session_changed J p d)"
  by (simp add: apply_session_changed_def Let_def generation_simps split: sum.split option.split prod.split)

lemma evidence_accepted_generation:
  "apply_evidence_accepted L J (set_generation g p) d = apfst (set_generation g) (apply_evidence_accepted L J p d)"
  by (simp add: apply_evidence_accepted_def Let_def generation_simps split: sum.split option.split prod.split)

lemma evidence_invalidated_generation:
  "apply_evidence_invalidated L J (set_generation g p) d = apfst (set_generation g) (apply_evidence_invalidated L J p d)"
  by (simp add: apply_evidence_invalidated_def Let_def generation_simps split: sum.split option.split prod.split)

lemma marked_provisional_generation:
  "apply_marked_provisional L J (set_generation g p) d = apfst (set_generation g) (apply_marked_provisional L J p d)"
  by (simp add: apply_marked_provisional_def Let_def generation_simps split: sum.split option.split prod.split)

lemma assessment_decided_generation:
  "apply_assessment_decided L J (set_generation g p) d = apfst (set_generation g) (apply_assessment_decided L J p d)"
  by (simp add: apply_assessment_decided_def Let_def generation_simps split: sum.split option.split prod.split)

lemma offline_queued_generation:
  "apply_offline_queued L J (set_generation g p) d = apfst (set_generation g) (apply_offline_queued L J p d)"
  by (simp add: apply_offline_queued_def Let_def generation_simps split: sum.split option.split prod.split)

lemma carryover_approved_generation:
  "apply_carryover_approved J (set_generation g p) d = apfst (set_generation g) (apply_carryover_approved J p d)"
  by (simp add: apply_carryover_approved_def Let_def generation_simps split: sum.split option.split prod.split)

lemma carryover_closed_generation:
  "apply_carryover_closed J (set_generation g p) d = apfst (set_generation g) (apply_carryover_closed J p d)"
  by (simp add: apply_carryover_closed_def Let_def generation_simps split: sum.split option.split prod.split)

lemma exposure_generation:
  "apply_exposure J (set_generation g p) d = apfst (set_generation g) (apply_exposure J p d)"
  by (simp add: apply_exposure_def Let_def generation_simps split: sum.split option.split prod.split)

lemma event_redacted_generation:
  "apply_event_redacted L J (set_generation g p) d = apfst (set_generation g) (apply_event_redacted L J p d)"
  by (simp add: apply_event_redacted_def Let_def generation_simps split: sum.split option.split prod.split)

lemma apply_by_type_generation:
  "apply_by_type L J (set_generation g p) d = apfst (set_generation g) (apply_by_type L J p d)"
  by (cases "le_Type d") (simp_all add: apply_by_type_def route_created_generation session_changed_generation evidence_accepted_generation evidence_invalidated_generation marked_provisional_generation assessment_decided_generation offline_queued_generation carryover_approved_generation carryover_closed_generation exposure_generation event_redacted_generation)

lemma update_stats_generation: "update_stats (set_generation g p) d = set_generation g (update_stats p d)"
  by (simp only: update_stats_def Let_def update_generation set_generation_simps if_distrib [of "set_generation g"])

lemma update_version_generation: "update_version (set_generation g p) d = set_generation g (update_version p d)"
  by (simp add: update_version_def update_generation split: option.split)

lemma finish_event_generation: "finish_event (set_generation g p) d = set_generation g (finish_event p d)"
  by (simp only: finish_event_def update_stats_generation update_version_generation)

lemma apply_privacy_generation:
  "apply_privacy_redaction J (set_generation g p) d = apfst (set_generation g) (apply_privacy_redaction J p d)"
  by (simp add: apply_privacy_redaction_def Let_def set_generation_def set_as_of_def EmptyProjection_def split: sum.split)

lemma prepare_generation: "set_as_of n (set_generation g p) = set_generation g (set_as_of n p)"
  by (simp add: set_generation_def set_as_of_def)

lemma ApplyEvent_generation:
  "ApplyEvent L J r (set_generation g p) e = apfst (set_generation g) (ApplyEvent L J r p e)"
proof (cases "le_Redacted e")
  case True
  then show ?thesis by (simp add: ApplyEvent_def set_generation_def set_as_of_def)
next
  case False
  show ?thesis
  proof (cases "Decode J r e")
    case (Inl err)
    then show ?thesis using False by (simp add: ApplyEvent_def set_generation_def)
  next
    case (Inr d)
    let ?p = "set_as_of (le_EventSequence d) p"
    let ?q = "?p\<lparr>pj_Timeline := pj_Timeline ?p @ [timelineItem d]\<rparr>"
    have "apply_by_type L J (set_generation g ?q) d = apfst (set_generation g) (apply_by_type L J ?q d)"
      by (rule apply_by_type_generation)
    then show ?thesis
      using False Inr
      by (simp add: ApplyEvent_def Let_def prepare_generation update_generation apply_privacy_generation finish_event_generation
          split: prod.split option.split)
  qed
qed

lemma apply_events_generation:
  "apply_events L J r (set_generation g p) es = apfst (set_generation g) (apply_events L J r p es)"
  by (induction es arbitrary: p) (auto simp: ApplyEvent_generation split: prod.split option.split)

section \<open>Stored reductions\<close>

text \<open>The reduction of a node, computed afresh from what the projection stores.\<close>

definition fresh_node :: "golib \<Rightarrow> Projection \<Rightarrow> string \<Rightarrow> NodeReduction" where
  "fresh_node L p n = ReduceNode L n (node_evidence p n) (pj_Invalidated p) (node_pending p n)"

definition stored_fresh :: "golib \<Rightarrow> string set \<Rightarrow> Projection \<Rightarrow> bool" where
  "stored_fresh L ms p \<longleftrightarrow> (\<forall>n r. n \<notin> ms \<longrightarrow> map_of (pj_Nodes p) n = Some r \<longrightarrow> r = fresh_node L p n)"

definition stored_nodes :: "Projection \<Rightarrow> string set" where
  "stored_nodes p = ev_NodeRevisionID ` snd ` set (pj_Evidence p) \<union> pa_NodeRevisionID ` snd ` set (pj_Pending p)"

definition nodes_ok_except :: "golib \<Rightarrow> string set \<Rightarrow> Projection \<Rightarrow> bool" where
  "nodes_ok_except L ms p \<longleftrightarrow>
     keyed_by ev_ID (pj_Evidence p) \<and> keyed_by pa_AssessmentID (pj_Pending p)
   \<and> map_of (pj_Nodes p) [] = None \<and> stored_fresh L ms p
   \<and> stored_nodes p \<subseteq> dom (map_of (pj_Nodes p)) \<union> insert [] ms"

definition nodes_ok :: "golib \<Rightarrow> Projection \<Rightarrow> bool" where
  "nodes_ok L p \<longleftrightarrow> nodes_ok_except L {} p"

lemmas nodes_ok_defs = nodes_ok_def nodes_ok_except_def stored_fresh_def stored_nodes_def

lemma nodes_ok_cong:
  assumes "pj_Evidence p' = pj_Evidence p" "pj_Invalidated p' = pj_Invalidated p" "pj_Pending p' = pj_Pending p"
    "pj_Nodes p' = pj_Nodes p"
  shows "nodes_ok L p' \<longleftrightarrow> nodes_ok L p"
  using assms by (simp add: nodes_ok_defs fresh_node_def node_evidence_def node_pending_def)

lemma recomputeNode_fields [simp]:
  "pj_Evidence (recomputeNode L p m) = pj_Evidence p" "pj_Invalidated (recomputeNode L p m) = pj_Invalidated p"
  "pj_Pending (recomputeNode L p m) = pj_Pending p" "fresh_node L (recomputeNode L p m) n = fresh_node L p n"
  "stored_nodes (recomputeNode L p m) = stored_nodes p"
  by (simp_all add: recomputeNode_def fresh_node_def node_evidence_def node_pending_def stored_nodes_def)

lemma recomputeNode_nodes:
  "map_of (pj_Nodes (recomputeNode L p m)) = (if m = [] then map_of (pj_Nodes p) else (map_of (pj_Nodes p))(m \<mapsto> fresh_node L p m))"
  by (simp add: recomputeNode_def fresh_node_def)

lemma nodes_ok_recompute: "nodes_ok_except L {m} p \<Longrightarrow> nodes_ok L (recomputeNode L p m)"
proof -
  assume ok: "nodes_ok_except L {m} p"
  have "r = fresh_node L (recomputeNode L p m) n" if "map_of (pj_Nodes (recomputeNode L p m)) n = Some r" for n r
    using ok that by (cases "n = m"; cases "m = []") (auto simp: nodes_ok_except_def stored_fresh_def recomputeNode_nodes)
  then have "stored_fresh L {} (recomputeNode L p m)" unfolding stored_fresh_def by blast
  moreover have "map_of (pj_Nodes (recomputeNode L p m)) [] = None"
    "stored_nodes p \<subseteq> dom (map_of (pj_Nodes (recomputeNode L p m))) \<union> {[]}"
    using ok by (auto simp: nodes_ok_except_def recomputeNode_nodes)
  ultimately show ?thesis
    using ok by (simp add: nodes_ok_def nodes_ok_except_def)
qed

lemma nodes_ok_weaken: "nodes_ok L p \<Longrightarrow> nodes_ok_except L ms p"
  by (auto simp: nodes_ok_def nodes_ok_except_def stored_fresh_def)

text \<open>A change that only the nodes \<open>ms\<close> can see leaves the others as they are.\<close>

lemma nodes_ok_change:
  assumes ok: "nodes_ok L p" and nodes: "pj_Nodes p' = pj_Nodes p"
    and keyed: "keyed_by ev_ID (pj_Evidence p')" "keyed_by pa_AssessmentID (pj_Pending p')"
    and same: "\<And>n. n \<notin> ms \<Longrightarrow> fresh_node L p' n = fresh_node L p n"
    and stored: "stored_nodes p' \<subseteq> stored_nodes p \<union> ms"
  shows "nodes_ok_except L ms p'"
  using ok nodes keyed same stored
  by (auto simp: nodes_ok_def nodes_ok_except_def stored_fresh_def)

lemma node_evidence_pairs: "node_evidence p n = map snd (filter (\<lambda>x. ev_NodeRevisionID (snd x) = n) (pj_Evidence p))"
  by (simp add: node_evidence_def filter_map comp_def)

lemma node_pending_pairs:
  "node_pending p n = map (\<lambda>i. the (map_of (pj_Pending p) i))
     (sort_strings (map fst (filter (\<lambda>x. pa_NodeRevisionID (snd x) = n) (pj_Pending p))))"
  by (simp add: node_pending_def case_prod_unfold)

lemma ReduceNode_values:
  "node_values n a i = node_values n a' i' \<Longrightarrow> ReduceNode L n a i q = ReduceNode L n a' i' q"
  unfolding ReduceNode_def by simp

lemma nodes_ok_evidence:
  assumes ok: "nodes_ok L p" and same: "\<forall>old. map_of (pj_Evidence p) (ev_ID e) = Some old \<longrightarrow> ev_NodeRevisionID old = ev_NodeRevisionID e"
  shows "nodes_ok_except L {ev_NodeRevisionID e} (p\<lparr>pj_Evidence := AList.update (ev_ID e) e (pj_Evidence p)\<rparr>)"
proof (rule nodes_ok_change [OF ok])
  let ?p = "p\<lparr>pj_Evidence := AList.update (ev_ID e) e (pj_Evidence p)\<rparr>"
  show "keyed_by ev_ID (pj_Evidence ?p)" "keyed_by pa_AssessmentID (pj_Pending ?p)"
    using ok by (auto simp: nodes_ok_defs intro: keyed_by_update)
  show "fresh_node L ?p n = fresh_node L p n" if "n \<notin> {ev_NodeRevisionID e}" for n
  proof -
    have "node_evidence ?p n = node_evidence p n"
      unfolding node_evidence_pairs using same that by (simp add: filter_update)
    then show ?thesis by (simp add: fresh_node_def node_pending_def)
  qed
  show "stored_nodes ?p \<subseteq> stored_nodes p \<union> {ev_NodeRevisionID e}"
    using set_update_subset [of "ev_ID e" e "pj_Evidence p"] by (force simp: stored_nodes_def)
qed simp

lemma nodes_ok_invalidate:
  assumes ok: "nodes_ok L p" and found: "\<forall>e. map_of (pj_Evidence p) i = Some e \<longrightarrow> ev_NodeRevisionID e \<in> ms"
  shows "nodes_ok_except L ms (p\<lparr>pj_Invalidated := AList.update i True (pj_Invalidated p)\<rparr>)"
proof (rule nodes_ok_change [OF ok])
  let ?p = "p\<lparr>pj_Invalidated := AList.update i True (pj_Invalidated p)\<rparr>"
  show "fresh_node L ?p n = fresh_node L p n" if n: "n \<notin> ms" for n
  proof -
    have "ev_ID e \<noteq> i" if "e \<in> set (node_evidence p n)" for e
    proof
      assume "ev_ID e = i"
      from that have "e \<in> snd ` set (pj_Evidence p)" "ev_NodeRevisionID e = n"
        by (auto simp: node_evidence_def)
      moreover from this ok \<open>ev_ID e = i\<close> have "map_of (pj_Evidence p) i = Some e"
        using keyed_by_lookup by (fastforce simp: nodes_ok_defs)
      ultimately show False using found n by blast
    qed
    then have same: "node_values n (node_evidence p n) (pj_Invalidated ?p) = node_values n (node_evidence p n) (pj_Invalidated p)"
      unfolding node_values_def by (intro arg_cong [where f = SortEvidence] filter_cong) auto
    have "node_evidence ?p n = node_evidence p n" "node_pending ?p n = node_pending p n"
      by (simp_all add: node_evidence_def node_pending_def)
    then show ?thesis
      unfolding fresh_node_def using ReduceNode_values [OF same] by simp
  qed
qed (use ok in \<open>simp_all add: nodes_ok_defs\<close>)

lemma node_pending_change:
  assumes "filter (\<lambda>x. pa_NodeRevisionID (snd x) = n) m' = filter (\<lambda>x. pa_NodeRevisionID (snd x) = n) (pj_Pending p)"
    and "keyed_by pa_AssessmentID (pj_Pending p)" and "keyed_by pa_AssessmentID m'"
  shows "node_pending (p\<lparr>pj_Pending := m'\<rparr>) n = node_pending p n"
proof -
  let ?f = "filter (\<lambda>x. pa_NodeRevisionID (snd x) = n)"
  have "map_of m' i = map_of (pj_Pending p) i" if "i \<in> fst ` set (?f m')" for i
  proof -
    obtain q where q: "(i, q) \<in> set (?f m')" using \<open>i \<in> fst ` set (?f m')\<close> by force
    then have "(i, q) \<in> set m'" by simp
    moreover from q have "(i, q) \<in> set (pj_Pending p)" unfolding assms(1) by simp
    ultimately show ?thesis using assms(2,3) by (auto simp: keyed_by_def)
  qed
  then show ?thesis
    unfolding node_pending_pairs using assms(1) by (auto intro!: arg_cong [where f = the])
qed

lemma nodes_ok_pending:
  assumes ok: "nodes_ok L p"
    and m': "m' = AList.update (pa_AssessmentID q) q (pj_Pending p) \<and> pa_NodeRevisionID q = m
        \<or> m' = AList.delete (pa_AssessmentID q) (pj_Pending p)"
    and same: "\<forall>old. map_of (pj_Pending p) (pa_AssessmentID q) = Some old \<longrightarrow> pa_NodeRevisionID old = m"
  shows "nodes_ok_except L {m} (p\<lparr>pj_Pending := m'\<rparr>)"
proof (rule nodes_ok_change [OF ok])
  let ?p = "p\<lparr>pj_Pending := m'\<rparr>"
  have keyed: "keyed_by pa_AssessmentID (pj_Pending p)" using ok by (simp add: nodes_ok_defs)
  then have keyed': "keyed_by pa_AssessmentID m'" using m' by (auto intro: keyed_by_update keyed_by_delete)
  then show "keyed_by ev_ID (pj_Evidence ?p)" "keyed_by pa_AssessmentID (pj_Pending ?p)"
    using ok by (auto simp: nodes_ok_defs)
  show "fresh_node L ?p n = fresh_node L p n" if n: "n \<notin> {m}" for n
  proof -
    have "filter (\<lambda>x. pa_NodeRevisionID (snd x) = n) m' = filter (\<lambda>x. pa_NodeRevisionID (snd x) = n) (pj_Pending p)"
      using m' same n keyed by (auto simp: keyed_by_def intro!: filter_update filter_delete)
    then have "node_pending ?p n = node_pending p n"
      using keyed keyed' by (rule node_pending_change)
    then show ?thesis by (simp add: fresh_node_def node_evidence_def)
  qed
  show "stored_nodes ?p \<subseteq> stored_nodes p \<union> {m}"
  proof -
    have "pa_NodeRevisionID ` snd ` set m' \<subseteq> insert m (pa_NodeRevisionID ` snd ` set (pj_Pending p))"
      using m' set_update_subset [of "pa_AssessmentID q" q "pj_Pending p"]
        set_delete_subset [of "pa_AssessmentID q" "pj_Pending p"] by fastforce
    then show ?thesis by (simp add: stored_nodes_def) blast
  qed
qed simp

text \<open>
  The only way a projection could go stale: an identifier already stored comes back with another
  node. A log in which that does not happen keeps every stored reduction fresh.
\<close>

definition same_node :: "('v \<Rightarrow> string) \<Rightarrow> (string, 'v) gomap \<Rightarrow> string \<Rightarrow> string \<Rightarrow> bool" where
  "same_node node m i n \<longleftrightarrow> (case map_of m i of None \<Rightarrow> True | Some old \<Rightarrow> node old = n)"

definition keeps_nodes :: "event_codec \<Rightarrow> Projection \<Rightarrow> LearningEvent \<Rightarrow> bool" where
  "keeps_nodes J p d =
     (case le_Type d of
        EventEvidenceAccepted \<Rightarrow>
          (case cod_evidence J (le_Payload d) of Inl _ \<Rightarrow> True
           | Inr e \<Rightarrow> same_node ev_NodeRevisionID (pj_Evidence p) (ev_ID e) (ev_NodeRevisionID e))
      | EventAssessmentMarkedProvisional \<Rightarrow>
          (case cod_assessment J (le_Payload d) of Inl _ \<Rightarrow> True
           | Inr a \<Rightarrow> same_node pa_NodeRevisionID (pj_Pending p) (ape_AssessmentID a) (ape_NodeRevisionID a))
      | EventOfflineAssessmentQueued \<Rightarrow>
          (case cod_offline_assessment J (le_Payload d) of Inl _ \<Rightarrow> True
           | Inr a \<Rightarrow> same_node pa_NodeRevisionID (pj_Pending p) (pa_AssessmentID a) (pa_NodeRevisionID a))
      | _ \<Rightarrow> True)"

lemma keeps_nodes_cong:
  assumes "pj_Evidence p' = pj_Evidence p" and "pj_Pending p' = pj_Pending p"
  shows "keeps_nodes J p' d = keeps_nodes J p d"
  unfolding keeps_nodes_def assms ..

lemma nodes_ok_add_pending:
  assumes "nodes_ok L p" and "same_node pa_NodeRevisionID (pj_Pending p) (pa_AssessmentID q) (pa_NodeRevisionID q)"
  shows "nodes_ok L (add_pending L p q)"
  unfolding add_pending_def
  using assms by (intro nodes_ok_recompute nodes_ok_pending) (auto simp: same_node_def split: option.splits)

lemma nodes_ok_invalidate_evidence: "nodes_ok L p \<Longrightarrow> nodes_ok L (invalidate_evidence L p i)"
proof (cases "map_of (pj_Evidence p) i")
  case None
  assume "nodes_ok L p"
  then show ?thesis
    using None nodes_ok_invalidate [of L p i "{}"] by (simp add: invalidate_evidence_def Let_def nodes_ok_def)
next
  case (Some e)
  assume "nodes_ok L p"
  then show ?thesis
    using Some nodes_ok_invalidate [of L p i "{ev_NodeRevisionID e}"]
    by (simp add: invalidate_evidence_def Let_def nodes_ok_recompute)
qed

lemma nodes_ok_decided:
  assumes "nodes_ok L p"
  shows "nodes_ok L (fst (apply_assessment_decided L J p d))"
proof -
  have "nodes_ok L (recomputeNode L (p\<lparr>pj_Pending := AList.delete i (pj_Pending p)\<rparr>) (pa_NodeRevisionID q))"
    if "map_of (pj_Pending p) i = Some q" for i q
  proof -
    have "i = pa_AssessmentID q"
      using that assms by (auto simp: nodes_ok_defs keyed_by_def dest: map_of_SomeD)
    then show ?thesis
      using assms that by (intro nodes_ok_recompute nodes_ok_pending) auto
  qed
  then show ?thesis
    using assms
    by (auto simp: apply_assessment_decided_def Let_def intro: nodes_ok_recompute nodes_ok_weaken
        split: sum.split option.split)
qed

lemma nodes_ok_accepted:
  assumes "nodes_ok L p"
    and "\<forall>e. cod_evidence J (le_Payload d) = Inr e \<longrightarrow> same_node ev_NodeRevisionID (pj_Evidence p) (ev_ID e) (ev_NodeRevisionID e)"
  shows "nodes_ok L (fst (apply_evidence_accepted L J p d))"
proof (cases "cod_evidence J (le_Payload d)")
  case (Inl e)
  then show ?thesis using assms(1) by (simp add: apply_evidence_accepted_def)
next
  case (Inr e)
  define e' where "e' = (if ev_AcceptedEventSequence e = 0 then e\<lparr>ev_AcceptedEventSequence := le_EventSequence d\<rparr> else e)"
  have "ev_ID e' = ev_ID e" "ev_NodeRevisionID e' = ev_NodeRevisionID e" by (simp_all add: e'_def)
  then have "nodes_ok L (recomputeNode L (p\<lparr>pj_Evidence := AList.update (ev_ID e') e' (pj_Evidence p)\<rparr>) (ev_NodeRevisionID e'))"
    using assms Inr by (intro nodes_ok_recompute nodes_ok_evidence) (auto simp: same_node_def split: option.splits)
  then show ?thesis
    using Inr assms(1) by (simp add: apply_evidence_accepted_def Let_def e'_def)
qed

lemma nodes_ok_by_type:
  assumes ok: "nodes_ok L p" and keeps: "keeps_nodes J p d"
  shows "nodes_ok L (fst (apply_by_type L J p d))"
proof -
  have same: "nodes_ok L p'" if "pj_Evidence p' = pj_Evidence p" "pj_Invalidated p' = pj_Invalidated p"
    "pj_Pending p' = pj_Pending p" "pj_Nodes p' = pj_Nodes p" for p'
    using nodes_ok_cong [OF that] ok by simp
  have red: "nodes_ok L (invalidate_evidence L (p\<lparr>pj_RedactedEvents := r\<rparr>) i)" for r i
    by (intro nodes_ok_invalidate_evidence same) simp_all
  have plain: "nodes_ok L (fst (apply_route_created J p d))" "nodes_ok L (fst (apply_session_changed J p d))"
    "nodes_ok L (fst (apply_carryover_approved J p d))" "nodes_ok L (fst (apply_carryover_closed J p d))"
    "nodes_ok L (fst (apply_exposure J p d))"
    by (auto simp: apply_route_created_def apply_session_changed_def apply_carryover_approved_def
        apply_carryover_closed_def apply_exposure_def Let_def intro: same split: sum.split option.split)
  have others: "nodes_ok L (fst (apply_event_redacted L J p d))" "nodes_ok L (fst (apply_evidence_invalidated L J p d))"
    by (auto simp: apply_event_redacted_def apply_evidence_invalidated_def Let_def
        intro: same red nodes_ok_invalidate_evidence [OF ok] split: sum.split prod.split)
  show ?thesis
    using keeps plain others nodes_ok_decided [OF ok] ok
    by (cases "le_Type d")
       (auto simp: apply_by_type_def keeps_nodes_def apply_marked_provisional_def apply_offline_queued_def
          intro: nodes_ok_add_pending nodes_ok_accepted split: sum.split)
qed

lemma nodes_ok_ApplyEvent:
  assumes ok: "nodes_ok L p" and keeps: "\<forall>d. Decode J r e = Inr d \<longrightarrow> keeps_nodes J p d"
  shows "nodes_ok L (fst (ApplyEvent L J r p e))"
proof -
  have same: "nodes_ok L p'" if "pj_Evidence p' = pj_Evidence p" "pj_Invalidated p' = pj_Invalidated p"
    "pj_Pending p' = pj_Pending p" "pj_Nodes p' = pj_Nodes p" for p'
    using nodes_ok_cong [OF that] ok by simp
  have empty: "nodes_ok L x" if "pj_Evidence x = []" "pj_Pending x = []" "pj_Nodes x = []" for x
    using that by (simp add: nodes_ok_defs)
  show ?thesis
  proof (cases rule: ApplyEvent_cases [of e L J r p])
    case redacted
    then show ?thesis using ok by (auto simp: set_as_of_def intro: same)
  next
    case (undecoded m)
    then show ?thesis by (simp add: same)
  next
    case stale
    then show ?thesis using ok by simp
  next
    case (privacy d)
    have "nodes_ok L (set_as_of (le_EventSequence d) p)" by (rule same) (simp_all add: set_as_of_def)
    then show ?thesis
      unfolding privacy(3)
      by (auto simp: apply_privacy_redaction_def Let_def set_as_of_def EmptyProjection_def intro: empty split: sum.split)
  next
    case (switch d)
    have "nodes_ok L (prepared p d)" by (rule same) simp_all
    moreover have "keeps_nodes J (prepared p d) d"
      using keeps switch(1) keeps_nodes_cong [of "prepared p d" p J d] by simp
    ultimately have applied: "nodes_ok L (fst (apply_by_type L J (prepared p d) d))"
      by (rule nodes_ok_by_type)
    have "nodes_ok L (finish_event x d) = nodes_ok L x" for x
      by (rule nodes_ok_cong) (simp_all add: finish_event_def update_stats_def update_version_def Let_def split: option.split)
    then show ?thesis using switch(2) applied by (elim disjE) simp_all
  qed
qed

section \<open>Current routes\<close>

definition current_routes :: "Projection \<Rightarrow> string list" where
  "current_routes p = map (route_RouteID \<circ> rp_Route) (filter rp_Current (pj_Routes p))"

lemma current_after_reset:
  "distinct (map (route_RouteID \<circ> rp_Route) (filter rp_Current rs)) \<Longrightarrow>
   distinct (map (route_RouteID \<circ> rp_Route) (filter rp_Current
      (map (\<lambda>r. if route_RouteID (rp_Route r) = i then r\<lparr>rp_Current := False\<rparr> else r) rs)))
   \<and> i \<notin> (route_RouteID \<circ> rp_Route) ` set (filter rp_Current
      (map (\<lambda>r. if route_RouteID (rp_Route r) = i then r\<lparr>rp_Current := False\<rparr> else r) rs))"
  by (induction rs) (auto split: if_splits)

lemma routes_unchanged [simp]:
  "pj_Routes (recomputeNode L p n) = pj_Routes p" "pj_Routes (invalidate_evidence L p i) = pj_Routes p"
  "pj_Routes (add_pending L p q) = pj_Routes p" "pj_Routes (set_as_of sq p) = pj_Routes p"
  "pj_Routes (finish_event p d) = pj_Routes p"
  by (simp_all add: recomputeNode_def invalidate_evidence_def add_pending_def set_as_of_def finish_event_def
      update_stats_def update_version_def Let_def split: option.split)

lemma current_route_created:
  "distinct (current_routes p) \<Longrightarrow> distinct (current_routes (fst (apply_route_created J p d)))"
  using current_after_reset [of "pj_Routes p"]
  by (simp add: apply_route_created_def current_routes_def split: sum.split)

lemma routes_other_cases:
  "pj_Routes (fst (apply_session_changed J p d)) = pj_Routes p"
  "pj_Routes (fst (apply_evidence_accepted L J p d)) = pj_Routes p"
  "pj_Routes (fst (apply_evidence_invalidated L J p d)) = pj_Routes p"
  "pj_Routes (fst (apply_marked_provisional L J p d)) = pj_Routes p"
  "pj_Routes (fst (apply_assessment_decided L J p d)) = pj_Routes p"
  "pj_Routes (fst (apply_offline_queued L J p d)) = pj_Routes p"
  "pj_Routes (fst (apply_carryover_approved J p d)) = pj_Routes p"
  "pj_Routes (fst (apply_carryover_closed J p d)) = pj_Routes p"
  "pj_Routes (fst (apply_exposure J p d)) = pj_Routes p"
  "pj_Routes (fst (apply_event_redacted L J p d)) = pj_Routes p"
  by (simp_all add: apply_session_changed_def apply_evidence_accepted_def apply_evidence_invalidated_def apply_marked_provisional_def apply_assessment_decided_def apply_offline_queued_def apply_carryover_approved_def apply_carryover_closed_def apply_exposure_def apply_event_redacted_def Let_def
      split: sum.split option.split prod.split)

lemma current_by_type:
  "distinct (current_routes p) \<Longrightarrow> distinct (current_routes (fst (apply_by_type L J p d)))"
  by (cases "le_Type d")
     (simp_all add: apply_by_type_def current_route_created, simp_all add: current_routes_def routes_other_cases)

lemma current_ApplyEvent:
  assumes ok: "distinct (current_routes p)"
  shows "distinct (current_routes (fst (ApplyEvent L J r p e)))"
proof (cases rule: ApplyEvent_cases [of e L J r p])
  case (privacy d)
  then show ?thesis
    using ok by (auto simp: apply_privacy_redaction_def current_routes_def Let_def set_as_of_def EmptyProjection_def split: sum.split)
next
  case (switch d)
  have "distinct (current_routes (fst (apply_by_type L J (prepared p d) d)))"
    using ok by (intro current_by_type) (simp add: current_routes_def)
  then show ?thesis using switch(2) by (auto simp: current_routes_def)
qed (use ok in \<open>auto simp: current_routes_def\<close>)

lemma current_apply_events:
  "distinct (current_routes p) \<Longrightarrow> distinct (current_routes (fst (apply_events L J r p es)))"
proof (induction es arbitrary: p)
  case (Cons e es)
  then show ?case
    using current_ApplyEvent [OF Cons.prems, of L J r e] by (auto split: prod.split option.split)
qed simp

section \<open>Properties\<close>

text \<open>
  a replay that succeeds has met every sequence number once, all positive, and the projection
  stands at the greatest of them.
\<close>

theorem Replay_increasing:
  assumes "Replay L J events r g = (p, None)"
  shows "distinct (map le_EventSequence events) \<and> (\<forall>e \<in> set events. 0 < le_EventSequence e)
    \<and> (\<forall>e \<in> set events. le_EventSequence e \<le> as_of p)
    \<and> (events \<noteq> [] \<longrightarrow> as_of p \<in> le_EventSequence ` set events)"
proof -
  let ?es = "go_sort event_less events"
  have inc: "sorted_wrt (<) (0 # map le_EventSequence ?es)" "as_of p = last (0 # map le_EventSequence ?es)"
    using apply_events_increasing [OF assms [unfolded Replay_def]] by (simp_all add: EmptyProjection_def)
  have "mset (map le_EventSequence ?es) = mset (map le_EventSequence events)" by simp
  then have "distinct (map le_EventSequence events)"
    using inc(1) by (metis mset_eq_imp_distinct_iff sorted_wrt.simps(2) strict_sorted_iff)
  moreover have "\<forall>e \<in> set ?es. 0 < le_EventSequence e" using inc(1) by simp
  moreover have "\<forall>n \<in> set (map le_EventSequence ?es). n \<le> last (0 # map le_EventSequence ?es)"
    using inc(1) by (cases "map le_EventSequence ?es" rule: rev_cases) (auto simp: sorted_wrt_append)
  moreover have "events \<noteq> [] \<Longrightarrow> last (0 # map le_EventSequence ?es) \<in> set (map le_EventSequence ?es)"
    by (metis go_sort_eq_Nil last.simps last_in_set map_is_Nil_conv)
  ultimately show ?thesis using inc(2) by simp
qed

text \<open>
  C32: \<open>Replay\<close> does not care in which order it is handed the events of a log, which is what lets
  rebuilds read them in any order.
\<close>

theorem Replay_order_independent:
  assumes "mset events = mset events'" and "distinct (map le_EventSequence events)"
  shows "Replay L J events r g = Replay L J events' r g"
proof -
  have "go_sort event_less events = go_sort event_less events'"
    using assms(1)
  proof (rule event_order.go_sort_unique)
    show "event_less u v \<or> event_less v u" if "u \<in> set events" "v \<in> set events" "u \<noteq> v" for u v
      using assms(2) that inj_onD [of le_EventSequence "set events" u v]
      by (auto simp: event_less_def distinct_map not_less_iff_gr_or_eq)
  qed
  then show ?thesis by (simp add: Replay_def)
qed

text \<open>
  the incremental projection and the rebuilt one agree: applying the next event of a log to
  the replay of the log so far gives the replay of the longer log, errors included.
\<close>

theorem Replay_incremental:
  assumes "\<forall>e' \<in> set events. le_EventSequence e' \<le> le_EventSequence e"
  shows "Replay L J (events @ [e]) r g =
    (case Replay L J events r g of (p, Some err) \<Rightarrow> (p, Some err) | (p, None) \<Rightarrow> ApplyEvent L J r p e)"
proof -
  have "go_sort event_less (events @ [e]) = go_sort event_less events @ [e]"
    using assms by (intro go_sort_snoc) (auto simp: event_less_def)
  then show ?thesis
    by (auto simp: Replay_def apply_events_append split: prod.split option.split)
qed

text \<open>
  the stored mastery is never stale. Starting empty, and through every event, failed ones
  included, the reduction stored for a node equals the reduction of the evidence, the
  invalidations and the pending assessments stored for it, and every node with evidence has one.
  (The hypothesis: an identifier already stored does not come back with another node.)
\<close>

theorem stored_nodes_fresh:
  assumes "nodes_ok L p" and "\<forall>d. Decode J r e = Inr d \<longrightarrow> keeps_nodes J p d"
  shows "nodes_ok L (EmptyProjection g) \<and> nodes_ok L (fst (ApplyEvent L J r p e))"
  using nodes_ok_ApplyEvent [OF assms] by (simp add: nodes_ok_defs EmptyProjection_def)

text \<open>
  a privacy redaction forgets. Whatever the projection held, after the event it is the empty
  projection of its generation at the event's sequence number, with nothing but the event itself
  in its timeline and in its set of redacted events.
\<close>

theorem privacy_redaction_forgets:
  assumes "ApplyEvent L J r p e = (p', None)" and "privacy_redaction e" and "\<not> le_Redacted e"
  shows "p' = (set_as_of (le_EventSequence e) (EmptyProjection (md_GenerationID (pj_Metadata p))))
     \<lparr>pj_RedactedEvents := [(le_ID e, True)], pj_Timeline := [timelineItem e]\<rparr>"
proof -
  obtain d where d: "Decode J r e = Inr d" "as_of p < le_EventSequence d"
    using assms(1,3) by (cases "Decode J r e") (auto simp: ApplyEvent_def split: if_splits)
  from Decode_same [OF d(1)] have d': "privacy_redaction d" "le_EventSequence d = le_EventSequence e"
    "le_ID d = le_ID e" "timelineItem d = timelineItem e"
    using assms(2) by (auto simp: privacy_redaction_def timelineItem_def)
  then have "apply_privacy_redaction J (set_as_of (le_EventSequence e) p) d = (p', None)"
    using assms(1,3) d by (simp add: ApplyEvent_def Let_def)
  then show ?thesis
    using d' by (auto simp: apply_privacy_redaction_def Let_def set_as_of_def EmptyProjection_def split: sum.splits if_splits)
qed

text \<open>
  two generations built from one log have the same fingerprint, and so have projections that
  differ only in their flags: the fingerprint sees the content alone.
\<close>

theorem fingerprint_generation_free:
  "ProjectionFingerprint L J (fst (Replay L J events r g)) = ProjectionFingerprint L J (fst (Replay L J events r g'))
   \<and> snd (Replay L J events r g) = snd (Replay L J events r g')
   \<and> ProjectionFingerprint L J (p\<lparr>pj_Metadata := (pj_Metadata p)\<lparr>md_Rebuilding := b1, md_Degraded := b2,
        md_Incomplete := b3, md_ReasonCodes := rs\<rparr>\<rparr>) = ProjectionFingerprint L J p"
proof -
  have "EmptyProjection g = set_generation g (EmptyProjection g')"
    by (simp add: EmptyProjection_def set_generation_def)
  then have replay: "Replay L J events r g = apfst (set_generation g) (Replay L J events r g')"
    by (simp add: Replay_def apply_events_generation)
  have "ProjectionFingerprint L J (set_generation g q) = ProjectionFingerprint L J q" for q
    by (simp add: ProjectionFingerprint_def set_generation_def)
  then show ?thesis
    by (simp add: replay) (simp add: ProjectionFingerprint_def)
qed

text \<open>
  in a replayed projection no route has two current revisions, even when the replay stopped
  at an error.
\<close>

theorem one_current_revision:
  "distinct (current_routes (fst (Replay L J events r g)))"
  unfolding Replay_def
  by (rule current_apply_events) (simp add: current_routes_def EmptyProjection_def)

section \<open>Examples\<close>

text \<open>A codec that reads the same values from every payload, for evaluating the model.\<close>

definition example_codec :: event_codec where
  "example_codec = \<lparr>cod_route = (\<lambda>_. Inl (PlainError [])), cod_session = (\<lambda>_. Inl (PlainError [])),
     cod_evidence = (\<lambda>_. Inr (example_evidence ''a'' 0 0 ''x'' OutcomePass)), cod_evidence_id = Inr,
     cod_assessment = (\<lambda>_. Inl (PlainError [])), cod_offline_assessment = (\<lambda>_. Inl (PlainError [])),
     cod_carryover = (\<lambda>_. Inl (PlainError [])), cod_exposure = (\<lambda>_. Inl (PlainError [])),
     cod_redacted_event = (\<lambda>s. Inr (s, [])),
     cod_redaction = (\<lambda>s. Inr \<lparr>red_ErasureID = s, red_Generation = 2, red_RedactedThrough = Some 1,
        red_PolicyVersion = ''v'', red_ReasonCode = ''r''\<rparr>),
     cod_strict_legacy = (\<lambda>_. Inl (PlainError [])),
     cod_strict_canonical = (\<lambda>s. Inr (\<lparr>red_ErasureID = s, red_Generation = 2, red_RedactedThrough = Some 1,
        red_PolicyVersion = ''v'', red_ReasonCode = ''r''\<rparr>, [])),
     cod_at_eof = (\<lambda>s. s = []), cod_print_redaction = (\<lambda>v. Inr (red_ErasureID v)),
     cod_print_projection = (\<lambda>_. Inr [])\<rparr>"

definition example_event :: "EventType \<Rightarrow> int \<Rightarrow> LearningEvent" where
  "example_event t n = \<lparr>le_EventSequence = n, le_ID = ''e'', le_Type = t, le_SchemaVersion = (if t = EventRedacted then 2 else 1),
     le_AggregateType = (if t = EventRedacted then ''privacy'' else ''assessment''), le_AggregateID = ''x'', le_AggregateVersion = 1,
     le_DeviceID = [], le_OperationID = [], le_OperationOrdinal = 0, le_ReceivedAt = 0, le_OccurredAt = None, le_PayloadID = [],
     le_PayloadHash = [], le_Payload = ''x'', le_ParentSessionID = [], le_Source = [], le_ArchiveDisposition = [],
     le_EvidenceDisposition = [], le_GoalRevisionID = [], le_RouteRevisionID = [], le_KnowledgeRevisionID = [],
     le_ActivityID = [], le_ActivityRevision = 0, le_Redacted = False\<rparr>"

abbreviation example_registry :: EventRegistry where
  "example_registry \<equiv> NewEventRegistry example_lib"

lemma example_decode:
  "Decode example_codec example_registry (example_event EventEvidenceAccepted n) = Inr (example_event EventEvidenceAccepted n)"
  "Decode example_codec example_registry (example_event EventRedacted n) = Inr (example_event EventRedacted n)"
  by (simp_all add: Decode_def example_event_def privacy_redaction_def NewEventRegistry_def Register_def
      example_lib_def decodePrivacyRedactionPayload_def decodeStrictEventPayload_def EventSchemaVersion_def
      EventRedactedSchemaVersion_def example_codec_def)

lemma example_apply_accepted:
  "as_of p < n \<Longrightarrow> snd (ApplyEvent example_lib example_codec example_registry p (example_event EventEvidenceAccepted n)) = None"
  by (simp add: ApplyEvent_def example_decode)
     (simp add: example_event_def privacy_redaction_def apply_by_type_def apply_evidence_accepted_def Let_def
       example_codec_def example_evidence_def)

lemma example_replay:
  "Replay example_lib example_codec [example_event EventEvidenceAccepted 5] example_registry ''g''
     = (fst (ApplyEvent example_lib example_codec example_registry (EmptyProjection ''g'') (example_event EventEvidenceAccepted 5)), None)"
proof -
  have "as_of (EmptyProjection ''g'') < 5" by (simp add: EmptyProjection_def)
  from example_apply_accepted [OF this] show ?thesis
    by (auto simp: Replay_def split: prod.split)
qed

theorem Replay_increasing_witness:
  "as_of (fst (Replay example_lib example_codec [example_event EventEvidenceAccepted 5] example_registry ''g'')) = 5"
  using Replay_increasing [OF example_replay] by (simp add: example_replay) (simp add: example_event_def)

theorem Replay_order_independent_witness:
  "Replay example_lib example_codec [example_event EventEvidenceAccepted 5, example_event EventRedacted 7] example_registry ''g''
   = Replay example_lib example_codec [example_event EventRedacted 7, example_event EventEvidenceAccepted 5] example_registry ''g''"
  by (rule Replay_order_independent) (simp_all add: example_event_def add_mset_commute)

theorem Replay_incremental_witness:
  "Replay example_lib example_codec ([example_event EventEvidenceAccepted 5] @ [example_event EventRedacted 7]) example_registry ''g''
   = ApplyEvent example_lib example_codec example_registry
       (fst (Replay example_lib example_codec [example_event EventEvidenceAccepted 5] example_registry ''g'')) (example_event EventRedacted 7)"
  using Replay_incremental [of "[example_event EventEvidenceAccepted 5]" "example_event EventRedacted 7" example_lib example_codec example_registry "''g''"]
  by (simp add: example_replay) (simp add: example_event_def)

theorem stored_nodes_fresh_witness:
  "nodes_ok example_lib (fst (ApplyEvent example_lib example_codec example_registry (EmptyProjection ''g'')
     (example_event EventEvidenceAccepted 5)))"
proof -
  have "nodes_ok example_lib (EmptyProjection ''g'')" by (simp add: nodes_ok_defs EmptyProjection_def)
  moreover have "\<forall>d. Decode example_codec example_registry (example_event EventEvidenceAccepted 5) = Inr d
      \<longrightarrow> keeps_nodes example_codec (EmptyProjection ''g'') d"
    by (simp add: example_decode) (simp add: keeps_nodes_def example_event_def example_codec_def same_node_def EmptyProjection_def)
  ultimately show ?thesis using stored_nodes_fresh by blast
qed

theorem privacy_redaction_forgets_witness:
  "pj_Evidence (fst (ApplyEvent example_lib example_codec example_registry
     (EmptyProjection ''g''\<lparr>pj_Evidence := [(''a'', example_evidence ''a'' 1 0 ''x'' OutcomePass)]\<rparr>)
     (example_event EventRedacted 7))) = []"
proof -
  let ?p = "EmptyProjection ''g''\<lparr>pj_Evidence := [(''a'', example_evidence ''a'' 1 0 ''x'' OutcomePass)]\<rparr>"
  let ?r = "ApplyEvent example_lib example_codec example_registry ?p (example_event EventRedacted 7)"
  have "snd ?r = None"
    by (simp add: ApplyEvent_def example_decode)
       (simp add: example_event_def privacy_redaction_def apply_privacy_redaction_def Let_def example_codec_def EmptyProjection_def)
  then have "?r = (fst ?r, None)" by (metis prod.collapse)
  then have "fst ?r = (set_as_of (le_EventSequence (example_event EventRedacted 7)) (EmptyProjection (md_GenerationID (pj_Metadata ?p))))
     \<lparr>pj_RedactedEvents := [(le_ID (example_event EventRedacted 7), True)], pj_Timeline := [timelineItem (example_event EventRedacted 7)]\<rparr>"
    by (rule privacy_redaction_forgets) (simp_all add: example_event_def privacy_redaction_def)
  then show ?thesis by (simp add: set_as_of_def EmptyProjection_def)
qed

end
