(* ===== verification/Goals.thy ===== *)
theory Goals
  imports Learning_Domain
begin

text \<open>
  The management of learning goals, \<open>server/internal/learning/goals.go\<close>, with the scope helpers of
  \<open>server/internal/learningspace/domain.go\<close> and the goal command of \<open>command.go\<close>.
  \<open>nextGoalManagement\<close> computes the managed part of the next revision of a goal from the previous
  revision and a command, or refuses the command: either the content changes or the lifecycle
  moves, never both.

  The lemmas: the lifecycle (draft, active, paused, completed, archived) is the machine the code
  means, a completed goal never becomes active again and keeps its completion record, archiving
  and restoring is a round trip, and the list of changed fields says what changed.
\<close>

section \<open>Learning spaces\<close>

definition DefaultID :: string where
  "DefaultID = ''00000000-0000-4000-8000-000000000001''"

definition nil_uuid :: string where
  "nil_uuid = ''00000000-0000-0000-0000-000000000000''"

text \<open>\<open>lib_uuid_parse\<close> gives the canonical text of the identifier it reads.\<close>

definition ValidID :: "golib \<Rightarrow> string \<Rightarrow> bool" where
  "ValidID L i = (case lib_uuid_parse L i of None \<Rightarrow> False | Some u \<Rightarrow> u \<noteq> nil_uuid \<and> u = i)"

text \<open>The scope of a request context: the space it carries, if it carries one.\<close>

definition Scope :: "string option \<Rightarrow> string" where
  "Scope ctx = (case ctx of Some i \<Rightarrow> i | None \<Rightarrow> DefaultID)"

definition WithScope :: "golib \<Rightarrow> string \<Rightarrow> string option option" where
  "WithScope L i = (if ValidID L i then Some (Some i) else None)"

section \<open>Goals\<close>

record GoalCommand =
  gcmd_SpaceID :: string
  gcmd_Details :: "GoalDetails option"
  gcmd_Action :: string
  gcmd_CompletionReason :: string
  gcmd_Operation :: OperationEnvelope
  gcmd_GoalID :: string
  gcmd_Text :: string
  gcmd_Source :: string
  gcmd_PreviousRevisionID :: "string option"

definition ValidGoalStatus :: "string \<Rightarrow> bool" where
  "ValidGoalStatus s \<longleftrightarrow> s = ''draft'' \<or> s = ''active'' \<or> s = ''paused'' \<or> s = ''completed'' \<or> s = ''archived''"

definition LearningSpaceID :: "GoalRevision \<Rightarrow> string" where
  "LearningSpaceID g = (if goal_SpaceID g = [] then DefaultID else goal_SpaceID g)"

text \<open>The first 120 runes of a text that has more; a shorter text is re-encoded from its runes.\<close>

definition first_runes :: "nat \<Rightarrow> string \<Rightarrow> string" where
  "first_runes n s = (if length (runes s) > n then string_of_runes (take n (runes s)) else string_of_runes (runes s))"

definition empty_details :: GoalDetails where
  "empty_details = \<lparr>gd_Name = [], gd_ExpectedOutcome = [], gd_Scope = [], gd_Exclusions = [], gd_SelfAssessment = [],
     gd_Purpose = [], gd_CompletionCriteria = [], gd_Priority = [], gd_ScopeSnapshotID = [], gd_Timezone = [],
     gd_Deadline = None, gd_WeeklyMinutes = None\<rparr>"

definition default_management :: "string \<Rightarrow> string \<Rightarrow> GoalManagement" where
  "default_management name status =
     \<lparr>gm_Details = empty_details\<lparr>gd_Name := name, gd_Priority := ''normal''\<rparr>, gm_Status = status, gm_ArchivedFrom = [],
      gm_Completion = None, gm_CriteriaVerification = ''unverified'', gm_ChangedFields = [],
      gm_RouteAdjustmentNeeded = False\<rparr>"

definition management_of :: "GoalRevision \<Rightarrow> GoalManagement" where
  "management_of g =
     (case goal_Management g of
        Some m \<Rightarrow> m
      | None \<Rightarrow> default_management (first_runes 120 (goal_Text g)) ''active'')"

definition invalid_request :: "string \<Rightarrow> error" where
  "invalid_request reason = err_reason CodeInvalidRequest reason"

definition Validate :: "golib \<Rightarrow> GoalDetails \<Rightarrow> error option" where
  "Validate L d =
     (if trim_space (gd_Name d) = [] \<or> rune_count (gd_Name d) > 120 then Some (invalid_request ''invalid_goal_name'')
      else if \<exists>s \<in> set [gd_Name d, gd_ExpectedOutcome d, gd_Scope d, gd_Exclusions d, gd_SelfAssessment d, gd_Purpose d,
                        gd_CompletionCriteria d]. \<not> valid_utf8 s \<or> rune_count s > 4000
      then Some (invalid_request ''invalid_goal_details'')
      else if gd_Priority d \<noteq> [] \<and> gd_Priority d \<noteq> ''low'' \<and> gd_Priority d \<noteq> ''normal'' \<and> gd_Priority d \<noteq> ''high''
      then Some (invalid_request ''invalid_goal_priority'')
      else if gd_ScopeSnapshotID d \<noteq> [] \<and> \<not> ValidID L (gd_ScopeSnapshotID d)
      then Some (err_code CodeKnowledgeReferenceInvalid)
      else if (case gd_WeeklyMinutes d of None \<Rightarrow> False | Some m \<Rightarrow> m < 1 \<or> m > 10080)
      then Some (invalid_request ''invalid_time_budget'')
      else if gd_Timezone d = [] then
        (if gd_Deadline d \<noteq> None \<or> gd_WeeklyMinutes d \<noteq> None
         then Some (invalid_request ''timezone_required'') else None)
      else if gd_Timezone d = ''Local'' then Some (invalid_request ''explicit_timezone_required'')
      else case lib_timezone L (gd_Timezone d) of
          None \<Rightarrow> Some (invalid_request ''invalid_timezone'')
        | Some offset_at \<Rightarrow>
            (case gd_Deadline d of
               None \<Rightarrow> None
             | Some t \<Rightarrow>
                 if zt_Offset t \<noteq> offset_at (zt_Instant t) \<or> zt_Instant t = 0
                 then Some (invalid_request ''deadline_timezone_mismatch'') else None))"

text \<open>The fields the code compares by value, with their names, in its order.\<close>

definition detail_fields :: "GoalDetails \<Rightarrow> (string \<times> string) list" where
  "detail_fields d =
     [(''name'', gd_Name d), (''expected_outcome'', gd_ExpectedOutcome d), (''scope'', gd_Scope d),
      (''exclusions'', gd_Exclusions d), (''self_assessment'', gd_SelfAssessment d), (''purpose'', gd_Purpose d),
      (''completion_criteria'', gd_CompletionCriteria d), (''priority'', gd_Priority d),
      (''scope_snapshot_id'', gd_ScopeSnapshotID d), (''timezone'', gd_Timezone d)]"

definition route_field :: "string \<Rightarrow> bool" where
  "route_field name \<longleftrightarrow> name = ''scope'' \<or> name = ''exclusions'' \<or> name = ''expected_outcome''
     \<or> name = ''completion_criteria'' \<or> name = ''scope_snapshot_id''"

fun changed_names :: "(string \<times> string) list \<Rightarrow> (string \<times> string) list \<Rightarrow> string list" where
  "changed_names ((name, a) # as) ((_, b) # bs) = (if a \<noteq> b then name # changed_names as bs else changed_names as bs)"
| "changed_names _ _ = []"

text \<open>
  \<open>HashJSON\<close> of the two pointer fields: a parameter, as the JSON printer is; an error of it is
  dropped by the code and leaves the empty text.
\<close>

record goal_hashes =
  gh_deadline :: "ZonedTime option \<Rightarrow> string"
  gh_weekly :: "int option \<Rightarrow> string"

definition apply_details :: "golib \<Rightarrow> goal_hashes \<Rightarrow> bool \<Rightarrow> string \<Rightarrow> GoalManagement \<Rightarrow> GoalDetails option \<Rightarrow> error + GoalManagement" where
  "apply_details L H has_previous action m details =
     (case details of
        None \<Rightarrow> Inr m
      | Some d \<Rightarrow>
          if action \<noteq> [] then Inl (invalid_request ''goal_content_and_action_are_separate'')
          else case Validate L d of
              Some e \<Rightarrow> Inl e
            | None \<Rightarrow>
                let old = gm_Details m;
                    new = (if gd_Priority d = [] then d\<lparr>gd_Priority := ''normal''\<rparr> else d);
                    m = m\<lparr>gm_Details := new\<rparr>;
                    names = changed_names (detail_fields old) (detail_fields new)
                in if \<not> has_previous then Inr m
                   else Inr (m\<lparr>gm_ChangedFields := gm_ChangedFields m @ names
                          @ (if gh_deadline H (gd_Deadline old) \<noteq> gh_deadline H (gd_Deadline new) then [''deadline''] else [])
                          @ (if gh_weekly H (gd_WeeklyMinutes old) \<noteq> gh_weekly H (gd_WeeklyMinutes new)
                             then [''weekly_minutes''] else []),
                        gm_RouteAdjustmentNeeded := gm_RouteAdjustmentNeeded m \<or> (\<exists>n \<in> set names. route_field n)\<rparr>))"

text \<open>The switch over the lifecycle action: whether it is valid, and the management after it.\<close>

definition apply_action_status :: "string \<Rightarrow> string \<Rightarrow> string \<Rightarrow> time \<Rightarrow> GoalManagement \<Rightarrow> error + (bool \<times> GoalManagement)" where
  "apply_action_status action reason actor now m =
     (let move = (\<lambda>ok status. Inr (ok, if ok then m\<lparr>gm_Status := status\<rparr> else m))
      in if action = ''start'' then move (gm_Status m = ''draft'') ''active''
         else if action = ''pause'' then move (gm_Status m = ''active'') ''paused''
         else if action = ''resume'' then move (gm_Status m = ''paused'') ''active''
         else if action = ''complete'' then
           (let valid = (gm_Status m = ''draft'' \<or> gm_Status m = ''active'' \<or> gm_Status m = ''paused'')
            in if trim_space reason = [] \<or> \<not> valid_utf8 reason \<or> rune_count reason > 4000
               then Inl (invalid_request ''completion_reason_required'')
               else Inr (valid, if valid
                 then m\<lparr>gm_Status := ''completed'', gm_Completion := Some \<lparr>gc_Kind = ''manual'', gc_Reason = reason,
                          gc_ActorDeviceID = actor, gc_At = now\<rparr>\<rparr> else m))
         else if action = ''archive'' then
           Inr (gm_Status m \<noteq> ''archived'',
                if gm_Status m \<noteq> ''archived'' then m\<lparr>gm_ArchivedFrom := gm_Status m, gm_Status := ''archived''\<rparr> else m)
         else if action = ''restore'' then
           (let valid = (gm_Status m = ''archived'' \<and> ValidGoalStatus (gm_ArchivedFrom m) \<and> gm_ArchivedFrom m \<noteq> ''archived'')
            in Inr (valid, if valid then m\<lparr>gm_Status := gm_ArchivedFrom m, gm_ArchivedFrom := []\<rparr> else m))
         else Inr (False, m))"

definition nextGoalManagement ::
  "golib \<Rightarrow> goal_hashes \<Rightarrow> GoalRevision option \<Rightarrow> GoalCommand \<Rightarrow> string \<Rightarrow> time \<Rightarrow> error + GoalManagement" where
  "nextGoalManagement L H previous c actor now =
     (let m = (case previous of
            None \<Rightarrow> default_management
              (if gcmd_Details c = None \<and> length (runes (trim_space (gcmd_Text c))) > 120
               then first_runes 120 (trim_space (gcmd_Text c)) else trim_space (gcmd_Text c)) ''draft''
          | Some p \<Rightarrow> (management_of p)\<lparr>gm_ChangedFields := [], gm_RouteAdjustmentNeeded := False\<rparr>)
      in case apply_details L H (previous \<noteq> None) (gcmd_Action c) m (gcmd_Details c) of
           Inl e \<Rightarrow> Inl e
         | Inr m \<Rightarrow>
             let text_changed = (case previous of None \<Rightarrow> False | Some p \<Rightarrow> gcmd_Text c \<noteq> goal_Text p);
                 m = (if text_changed
                   then m\<lparr>gm_ChangedFields := gm_ChangedFields m @ [''text''], gm_RouteAdjustmentNeeded := True\<rparr> else m)
             in if gcmd_Action c = [] then
                  (if gcmd_CompletionReason c \<noteq> [] then Inl (err_code CodeInvalidRequest) else Inr m)
                else if previous = None \<or> text_changed
                then Inl (invalid_request ''goal_action_requires_existing_content'')
                else case apply_action_status (gcmd_Action c) (gcmd_CompletionReason c) actor now m of
                    Inl e \<Rightarrow> Inl e
                  | Inr (valid, m) \<Rightarrow>
                      if gcmd_Action c \<noteq> ''complete'' \<and> gcmd_CompletionReason c \<noteq> [] then Inl (err_code CodeInvalidRequest)
                      else if \<not> valid then Inl (err_reason CodeInvalidTransition ''invalid_goal_transition'')
                      else Inr (m\<lparr>gm_ChangedFields := gm_ChangedFields m @ [''status'']\<rparr>))"

definition CanStartGoal :: "error + GoalRevision \<Rightarrow> error + bool" where
  "CanStartGoal loaded =
     (case loaded of
        Inl e \<Rightarrow> Inl e
      | Inr g \<Rightarrow> let status = gm_Status (management_of g) in Inr (status = ''draft'' \<or> status = ''active''))"

text \<open>
  The reads of a goal go to the store when it offers goals, and answer not found otherwise; the
  identifier is checked first. The store's answer is the argument \<open>stored\<close>.
\<close>

definition GetGoal :: "golib \<Rightarrow> (string \<Rightarrow> error + GoalRevision) option \<Rightarrow> string \<Rightarrow> error + GoalRevision" where
  "GetGoal L stored i =
     (if \<not> ValidID L i then Inl (err_code CodeInvalidRequest)
      else case stored of Some get \<Rightarrow> get i | None \<Rightarrow> Inl (err_code CodeNotFound))"

section \<open>Lifecycle\<close>

text \<open>The state a goal is in, or was archived from.\<close>

definition effective_status :: "GoalManagement \<Rightarrow> string" where
  "effective_status m = (if gm_Status m = ''archived'' then gm_ArchivedFrom m else gm_Status m)"

definition management_inv :: "GoalManagement \<Rightarrow> bool" where
  "management_inv m \<longleftrightarrow>
     effective_status m \<in> {''draft'', ''active'', ''paused'', ''completed''}
   \<and> (gm_Status m \<noteq> ''archived'' \<longrightarrow> gm_ArchivedFrom m = [])
   \<and> (effective_status m = ''completed'' \<longleftrightarrow> gm_Completion m \<noteq> None)"

definition lifecycle_move :: "string \<Rightarrow> GoalManagement \<Rightarrow> GoalManagement \<Rightarrow> bool" where
  "lifecycle_move action m m' \<longleftrightarrow>
     (action = ''start'' \<and> gm_Status m = ''draft'' \<and> gm_Status m' = ''active'')
   \<or> (action = ''pause'' \<and> gm_Status m = ''active'' \<and> gm_Status m' = ''paused'')
   \<or> (action = ''resume'' \<and> gm_Status m = ''paused'' \<and> gm_Status m' = ''active'')
   \<or> (action = ''complete'' \<and> gm_Status m \<in> {''draft'', ''active'', ''paused''} \<and> gm_Status m' = ''completed'')
   \<or> (action = ''archive'' \<and> gm_Status m \<noteq> ''archived'' \<and> gm_Status m' = ''archived'' \<and> gm_ArchivedFrom m' = gm_Status m)
   \<or> (action = ''restore'' \<and> gm_Status m = ''archived'' \<and> gm_Status m' = gm_ArchivedFrom m \<and> gm_ArchivedFrom m' = [])"

text \<open>What the managed part and the text of a goal become, one accepted command after the other.\<close>

definition goal_step :: "golib \<Rightarrow> goal_hashes \<Rightarrow> GoalRevision \<Rightarrow> GoalCommand \<times> string \<times> time \<Rightarrow> error + GoalRevision" where
  "goal_step L H g input =
     (case input of (c, actor, now) \<Rightarrow>
        case nextGoalManagement L H (Some g) c actor now of
          Inl e \<Rightarrow> Inl e
        | Inr m \<Rightarrow> Inr (g\<lparr>goal_Management := Some m, goal_Text := trim_space (gcmd_Text c)\<rparr>))"

section \<open>Lemmas\<close>

lemma apply_details_keeps:
  "apply_details L H b a m d = Inr m' \<Longrightarrow>
     gm_Status m' = gm_Status m \<and> gm_ArchivedFrom m' = gm_ArchivedFrom m \<and> gm_Completion m' = gm_Completion m"
  by (auto simp: apply_details_def Let_def split: option.splits if_splits)

lemma apply_details_action: "apply_details L H b a m d = Inr m' \<Longrightarrow> a \<noteq> [] \<Longrightarrow> m' = m"
  by (auto simp: apply_details_def split: option.splits if_splits)

lemma apply_action_valid:
  assumes "apply_action_status action reason actor now m = Inr (True, m')"
  shows "lifecycle_move action m m' \<and> gm_Details m' = gm_Details m \<and> gm_ChangedFields m' = gm_ChangedFields m
    \<and> gm_Completion m' = (if action = ''complete'' then Some \<lparr>gc_Kind = ''manual'', gc_Reason = reason, gc_ActorDeviceID = actor, gc_At = now\<rparr>
        else gm_Completion m)
    \<and> (action \<noteq> ''archive'' \<and> action \<noteq> ''restore'' \<longrightarrow> gm_ArchivedFrom m' = gm_ArchivedFrom m)"
  using assms
  by (auto simp: apply_action_status_def lifecycle_move_def Let_def split: if_split_asm)

text \<open>An accepted command with an action, and one without.\<close>

lemma nextGoalManagement_action:
  assumes "nextGoalManagement L H (Some g) c actor now = Inr m" and "gcmd_Action c \<noteq> []"
  obtains m' where "gcmd_Text c = goal_Text g"
    "apply_action_status (gcmd_Action c) (gcmd_CompletionReason c) actor now
       ((management_of g)\<lparr>gm_ChangedFields := [], gm_RouteAdjustmentNeeded := False\<rparr>) = Inr (True, m')"
    "m = m'\<lparr>gm_ChangedFields := gm_ChangedFields m' @ [''status'']\<rparr>"
proof -
  let ?m = "(management_of g)\<lparr>gm_ChangedFields := [], gm_RouteAdjustmentNeeded := False\<rparr>"
  from assms obtain m1 where d: "apply_details L H True (gcmd_Action c) ?m (gcmd_Details c) = Inr m1"
    by (auto simp: nextGoalManagement_def Let_def split: sum.splits)
  then have "m1 = ?m" using assms(2) by (rule apply_details_action)
  with d assms show thesis
    by (intro that [of "snd (projr (apply_action_status (gcmd_Action c) (gcmd_CompletionReason c) actor now ?m))"])
       (auto simp: nextGoalManagement_def Let_def split: sum.splits prod.splits if_splits)
qed

lemma nextGoalManagement_content:
  assumes "nextGoalManagement L H (Some g) c actor now = Inr m" and "gcmd_Action c = []"
  shows "gm_Status m = gm_Status (management_of g) \<and> gm_ArchivedFrom m = gm_ArchivedFrom (management_of g)
    \<and> gm_Completion m = gm_Completion (management_of g)"
proof -
  let ?m = "(management_of g)\<lparr>gm_ChangedFields := [], gm_RouteAdjustmentNeeded := False\<rparr>"
  from assms obtain m1 where d: "apply_details L H True (gcmd_Action c) ?m (gcmd_Details c) = Inr m1"
    by (auto simp: nextGoalManagement_def Let_def split: sum.splits)
  with apply_details_keeps [OF d] assms show ?thesis
    by (auto simp: nextGoalManagement_def Let_def split: if_splits)
qed

lemma goal_step_Inr:
  assumes "goal_step L H g (c, actor, now) = Inr g'"
  shows "nextGoalManagement L H (Some g) c actor now = Inr (management_of g')
    \<and> g' = g\<lparr>goal_Management := Some (management_of g'), goal_Text := trim_space (gcmd_Text c)\<rparr>"
  using assms by (auto simp: goal_step_def management_of_def split: sum.splits)

text \<open>What one step does to the part of a goal the invariant is about.\<close>

lemma goal_step_status:
  assumes "goal_step L H g (c, actor, now) = Inr g'"
  shows "let m = management_of g; m' = management_of g'
    in if gcmd_Action c = [] then gm_Status m' = gm_Status m \<and> gm_ArchivedFrom m' = gm_ArchivedFrom m \<and> gm_Completion m' = gm_Completion m
       else lifecycle_move (gcmd_Action c) m m'
         \<and> gm_Completion m' = (if gcmd_Action c = ''complete'' then Some \<lparr>gc_Kind = ''manual'',
             gc_Reason = gcmd_CompletionReason c, gc_ActorDeviceID = actor, gc_At = now\<rparr> else gm_Completion m)
         \<and> (gcmd_Action c \<noteq> ''archive'' \<and> gcmd_Action c \<noteq> ''restore'' \<longrightarrow> gm_ArchivedFrom m' = gm_ArchivedFrom m)"
proof -
  have accepted: "nextGoalManagement L H (Some g) c actor now = Inr (management_of g')"
    using goal_step_Inr [OF assms] by simp
  show ?thesis
  proof (cases "gcmd_Action c = []")
    case True
    then show ?thesis using nextGoalManagement_content [OF accepted] by (simp add: Let_def)
  next
    case False
    obtain m' where "apply_action_status (gcmd_Action c) (gcmd_CompletionReason c) actor now
         ((management_of g)\<lparr>gm_ChangedFields := [], gm_RouteAdjustmentNeeded := False\<rparr>) = Inr (True, m')"
      and "management_of g' = m'\<lparr>gm_ChangedFields := gm_ChangedFields m' @ [''status'']\<rparr>"
      using nextGoalManagement_action [OF accepted False] by metis
    with apply_action_valid [OF this(1)] False show ?thesis
      by (auto simp: Let_def lifecycle_move_def)
  qed
qed

lemma management_inv_cong:
  assumes "gm_Status m' = gm_Status m" "gm_ArchivedFrom m' = gm_ArchivedFrom m" "gm_Completion m' = gm_Completion m"
  shows "management_inv m' = management_inv m" and "effective_status m' = effective_status m"
  unfolding management_inv_def effective_status_def assms by simp_all

lemma lifecycle_move_inv:
  assumes "management_inv m" and "lifecycle_move action m m'"
    and "gm_Completion m' = (if action = ''complete'' then Some done' else gm_Completion m)"
    and "action \<noteq> ''archive'' \<and> action \<noteq> ''restore'' \<longrightarrow> gm_ArchivedFrom m' = gm_ArchivedFrom m"
  shows "management_inv m'"
  using assms(2)
  unfolding lifecycle_move_def
proof (elim disjE conjE)
qed (use assms(1,3,4) in \<open>auto simp: management_inv_def effective_status_def\<close>)

lemma lifecycle_move_completed:
  assumes "effective_status m = ''completed''" and "lifecycle_move action m m'"
  shows "effective_status m' = ''completed'' \<and> action \<noteq> ''complete''"
  using assms(2)
  unfolding lifecycle_move_def
proof (elim disjE conjE)
qed (use assms(1) in \<open>simp_all add: effective_status_def split: if_splits\<close>)

lemma goal_step_inv:
  assumes "management_inv (management_of g)" and "goal_step L H g x = Inr g'"
  shows "management_inv (management_of g')"
proof -
  obtain c actor now where x: "x = (c, actor, now)" by (cases x)
  note step = goal_step_status [OF assms(2) [unfolded x]]
  show ?thesis
  proof (cases "gcmd_Action c = []")
    case True
    then show ?thesis
      using step assms(1) management_inv_cong [of "management_of g'" "management_of g"] by (simp add: Let_def)
  next
    case False
    with step have "lifecycle_move (gcmd_Action c) (management_of g) (management_of g')"
      "gm_Completion (management_of g') = (if gcmd_Action c = ''complete'' then Some \<lparr>gc_Kind = ''manual'',
         gc_Reason = gcmd_CompletionReason c, gc_ActorDeviceID = actor, gc_At = now\<rparr> else gm_Completion (management_of g))"
      "gcmd_Action c \<noteq> ''archive'' \<and> gcmd_Action c \<noteq> ''restore'' \<longrightarrow> gm_ArchivedFrom (management_of g') = gm_ArchivedFrom (management_of g)"
      by (simp_all add: Let_def)
    then show ?thesis by (rule lifecycle_move_inv [OF assms(1)])
  qed
qed

interpretation goal_machine: guarded_machine "goal_step L H" "\<lambda>g. management_inv (management_of g)" for L H
  by unfold_locales (rule goal_step_inv)

definition completed_as :: "GoalCompletion option \<Rightarrow> GoalRevision \<Rightarrow> bool" where
  "completed_as completion g \<longleftrightarrow> effective_status (management_of g) = ''completed''
     \<and> gm_Completion (management_of g) = completion \<and> management_inv (management_of g)"

lemma goal_step_completed:
  assumes "completed_as completion g" and "goal_step L H g x = Inr g'"
  shows "completed_as completion g'"
proof -
  obtain c actor now where x: "x = (c, actor, now)" by (cases x)
  note step = goal_step_status [OF assms(2) [unfolded x]]
  have g: "effective_status (management_of g) = ''completed''" "gm_Completion (management_of g) = completion"
    and inv: "management_inv (management_of g')"
    using assms(1) goal_step_inv [OF _ assms(2)] by (simp_all add: completed_as_def)
  show ?thesis
  proof (cases "gcmd_Action c = []")
    case True
    then show ?thesis
      using step g inv management_inv_cong [of "management_of g'" "management_of g"]
      by (simp add: Let_def completed_as_def)
  next
    case False
    with step have "lifecycle_move (gcmd_Action c) (management_of g) (management_of g')"
      unfolding Let_def by (simp only: if_False)
    from lifecycle_move_completed [OF g(1) this] show ?thesis
      using step g(2) inv False by (simp add: Let_def completed_as_def)
  qed
qed

interpretation completed_goal: guarded_machine "goal_step L H" "completed_as completion" for L H completion
  by unfold_locales (rule goal_step_completed)

section \<open>Properties\<close>

text \<open>
  the lifecycle. A goal starts as a draft without completion record; whatever commands follow,
  its status is one of the five, it remembers the state it was archived from exactly while it is
  archived, and it has a completion record exactly when it is completed or archived from
  completed; an accepted action moves it along the table and changes nothing but the status.
\<close>

theorem goal_lifecycle:
  assumes "nextGoalManagement L H None c0 actor0 now0 = Inr m0" and "goal_Management g0 = Some m0"
    and "reaches (goal_step L H) g0 g"
  shows "gm_Status m0 = ''draft'' \<and> management_inv (management_of g)
    \<and> (\<forall>c actor now m. gcmd_Action c \<noteq> [] \<longrightarrow> nextGoalManagement L H (Some g) c actor now = Inr m \<longrightarrow>
         lifecycle_move (gcmd_Action c) (management_of g) m \<and> gm_Details m = gm_Details (management_of g)
         \<and> gm_ChangedFields m = [''status''])"
proof -
  obtain d where "apply_details L H False (gcmd_Action c0) (default_management d ''draft'') (gcmd_Details c0) = Inr m0"
    using assms(1) by (auto simp: nextGoalManagement_def Let_def split: sum.splits if_splits)
  from apply_details_keeps [OF this] have start: "gm_Status m0 = ''draft''" "gm_ArchivedFrom m0 = []" "gm_Completion m0 = None"
    by (simp_all add: default_management_def)
  then have "management_inv (management_of g0)"
    using assms(2) by (simp add: management_inv_def effective_status_def management_of_def)
  then have "management_inv (management_of g)"
    using goal_machine.reaches_inv [OF assms(3)] by blast
  moreover have "lifecycle_move (gcmd_Action c) (management_of g) m \<and> gm_Details m = gm_Details (management_of g)
      \<and> gm_ChangedFields m = [''status'']"
    if act: "gcmd_Action c \<noteq> []" and acc: "nextGoalManagement L H (Some g) c actor now = Inr m" for c actor now m
  proof -
    obtain m' where m': "apply_action_status (gcmd_Action c) (gcmd_CompletionReason c) actor now
         ((management_of g)\<lparr>gm_ChangedFields := [], gm_RouteAdjustmentNeeded := False\<rparr>) = Inr (True, m')"
      and m: "m = m'\<lparr>gm_ChangedFields := gm_ChangedFields m' @ [''status'']\<rparr>"
      using nextGoalManagement_action [OF acc act] by metis
    from apply_action_valid [OF m'] show ?thesis
      unfolding m by (simp add: lifecycle_move_def)
  qed
  ultimately show ?thesis using start(1) by blast
qed

text \<open>
  completion is for good. However a completed goal is edited, archived and restored, it stays
  completed (or archived from completed) with the completion record it was given.
\<close>

theorem completion_is_permanent:
  assumes "management_inv (management_of g)" and "gm_Status (management_of g) = ''completed''"
  shows "effective_status (management_of (run (goal_step L H) g inputs)) = ''completed''
    \<and> gm_Completion (management_of (run (goal_step L H) g inputs)) = gm_Completion (management_of g)"
  using completed_goal.run_inv [of "gm_Completion (management_of g)" g L H inputs] assms
  by (simp add: completed_as_def effective_status_def)

text \<open>
  archiving a goal and restoring it is a round trip: the status, the details and the completion
  record are those of before, and restoring is always accepted.
\<close>

theorem archive_restore_round_trip:
  assumes "management_inv (management_of g)" and "gcmd_Action c1 = ''archive''" and "goal_step L H g (c1, a1, t1) = Inr g1"
    and "gcmd_Action c2 = ''restore''" and "gcmd_Details c2 = None" and "gcmd_Text c2 = goal_Text g1"
    and "gcmd_CompletionReason c2 = []"
  shows "\<exists>g2. goal_step L H g1 (c2, a2, t2) = Inr g2 \<and> gm_Status (management_of g2) = gm_Status (management_of g)
    \<and> gm_Details (management_of g2) = gm_Details (management_of g)
    \<and> gm_Completion (management_of g2) = gm_Completion (management_of g)"
proof -
  let ?m = "management_of g" and ?m1 = "management_of g1"
  have accepted: "nextGoalManagement L H (Some g) c1 a1 t1 = Inr ?m1" and act: "gcmd_Action c1 \<noteq> []"
    using goal_step_Inr [OF assms(3)] assms(2) by simp_all
  obtain m' where m': "apply_action_status ''archive'' (gcmd_CompletionReason c1) a1 t1
       (?m\<lparr>gm_ChangedFields := [], gm_RouteAdjustmentNeeded := False\<rparr>) = Inr (True, m')"
    and m1: "?m1 = m'\<lparr>gm_ChangedFields := gm_ChangedFields m' @ [''status'']\<rparr>"
    using nextGoalManagement_action [OF accepted act] assms(2) by metis
  have arch: "gm_Status ?m1 = ''archived''" "gm_ArchivedFrom ?m1 = gm_Status ?m" "gm_Status ?m \<noteq> ''archived''"
    "gm_Details ?m1 = gm_Details ?m" "gm_Completion ?m1 = gm_Completion ?m"
    using m' unfolding m1 by (auto simp: apply_action_status_def Let_def split: if_splits)
  then have "ValidGoalStatus (gm_ArchivedFrom ?m1)" "gm_ArchivedFrom ?m1 \<noteq> ''archived''"
    using assms(1) by (auto simp: management_inv_def effective_status_def ValidGoalStatus_def)
  then have "nextGoalManagement L H (Some g1) c2 a2 t2 = Inr (?m1\<lparr>gm_ChangedFields := [''status''],
      gm_RouteAdjustmentNeeded := False, gm_Status := gm_Status ?m, gm_ArchivedFrom := []\<rparr>)"
    using arch(1,2) assms(4-7) by (simp add: nextGoalManagement_def apply_details_def apply_action_status_def Let_def)
  then show ?thesis
    using arch by (simp add: goal_step_def management_of_def [of "g\<lparr>goal_Management := x, goal_Text := y\<rparr>" for g x y])
qed

text \<open>
  the record of what changed. Editing a goal with the details and the text it has records no
  change and asks for no route adjustment; and an accepted edit asks for one exactly when the text
  changed or a field the route depends on is among the changed ones.
\<close>

theorem edit_records_changes:
  assumes "gcmd_Action c = []" and "gcmd_Details c = Some d" and "gd_Priority d \<noteq> []"
    and "nextGoalManagement L H (Some g) c actor now = Inr m"
  shows "(d = gm_Details (management_of g) \<and> gcmd_Text c = goal_Text g \<longrightarrow> gm_ChangedFields m = [] \<and> \<not> gm_RouteAdjustmentNeeded m)
    \<and> (gm_RouteAdjustmentNeeded m \<longleftrightarrow> gcmd_Text c \<noteq> goal_Text g \<or> (\<exists>n \<in> set (gm_ChangedFields m). route_field n))
    \<and> gm_Details m = d"
proof -
  let ?names = "changed_names (detail_fields (gm_Details (management_of g))) (detail_fields d)"
  let ?extra = "(if gh_deadline H (gd_Deadline (gm_Details (management_of g))) \<noteq> gh_deadline H (gd_Deadline d) then [''deadline''] else [])
     @ (if gh_weekly H (gd_WeeklyMinutes (gm_Details (management_of g))) \<noteq> gh_weekly H (gd_WeeklyMinutes d) then [''weekly_minutes''] else [])
     @ (if gcmd_Text c \<noteq> goal_Text g then [''text''] else [])"
  have same: "changed_names xs xs = []" for xs
    by (induction xs) auto
  have m: "gm_ChangedFields m = ?names @ ?extra" "gm_Details m = d"
    "gm_RouteAdjustmentNeeded m \<longleftrightarrow> gcmd_Text c \<noteq> goal_Text g \<or> (\<exists>n \<in> set ?names. route_field n)"
    using assms by (auto simp: nextGoalManagement_def apply_details_def Let_def split: option.splits if_splits)
  have "\<forall>n \<in> set ?extra. \<not> route_field n" by (auto simp: route_field_def)
  with m same show ?thesis by auto
qed

section \<open>Examples\<close>

definition example_operation :: "string \<Rightarrow> string \<Rightarrow> int \<Rightarrow> OperationEnvelope" where
  "example_operation kind i v = \<lparr>op_OperationID = ''op'', op_PayloadSchemaVersion = 1, op_AggregateType = kind,
     op_AggregateID = i, op_ExpectedVersion = v, op_OccurredAt = None, op_Payload = ''{}''\<rparr>"

definition example_goal_command :: "string \<Rightarrow> string \<Rightarrow> GoalCommand" where
  "example_goal_command action reason = \<lparr>gcmd_SpaceID = [], gcmd_Details = None, gcmd_Action = action,
     gcmd_CompletionReason = reason, gcmd_Operation = example_operation ''goal'' ''g'' 1, gcmd_GoalID = ''g'',
     gcmd_Text = ''w'', gcmd_Source = ''user'', gcmd_PreviousRevisionID = Some ''g1''\<rparr>"

definition example_details :: GoalDetails where
  "example_details = empty_details\<lparr>gd_Name := ''w'', gd_Priority := ''normal''\<rparr>"

definition example_goal :: "string \<Rightarrow> GoalCompletion option \<Rightarrow> GoalRevision" where
  "example_goal status completion = \<lparr>goal_SpaceID = [],
     goal_Management = Some ((default_management ''w'' status)\<lparr>gm_Completion := completion\<rparr>),
     goal_ID = ''g1'', goal_GoalID = ''g'', goal_Revision = 1, goal_Text = ''w'', goal_Source = ''user'',
     goal_ActorDeviceID = [], goal_CreatedAt = 0, goal_PreviousRevisionID = None\<rparr>"

definition example_hashes :: goal_hashes where
  "example_hashes = \<lparr>gh_deadline = (\<lambda>t. if t = None then [] else ''d''), gh_weekly = (\<lambda>w. if w = None then [] else ''w'')\<rparr>"

lemma trim_w [simp]: "trim_space ''w'' = ''w''"
  by (simp add: trim_space_def is_space_def byte_def)

lemma example_step:
  "goal_step example_lib example_hashes (example_goal ''active'' None) (example_goal_command ''archive'' [], a, t) =
     Inr ((example_goal ''archived'' None)\<lparr>goal_Management := Some ((default_management ''w'' ''archived'')
       \<lparr>gm_ArchivedFrom := ''active'', gm_ChangedFields := [''status'']\<rparr>)\<rparr>)"
  by (simp add: goal_step_def nextGoalManagement_def apply_details_def apply_action_status_def example_goal_command_def
      example_goal_def management_of_def default_management_def Let_def)

theorem goal_lifecycle_witness:
  "\<exists>m0. nextGoalManagement example_lib example_hashes None (example_goal_command [] []) [] 0 = Inr m0
     \<and> gm_Status m0 = ''draft''
     \<and> management_inv (management_of (run (goal_step example_lib example_hashes)
          ((example_goal [] None)\<lparr>goal_Management := Some m0\<rparr>) [(example_goal_command ''start'' [], [], 0)]))"
proof -
  obtain m0 where m0: "nextGoalManagement example_lib example_hashes None (example_goal_command [] []) [] 0 = Inr m0"
    by (simp add: nextGoalManagement_def apply_details_def example_goal_command_def Let_def)
  have "goal_Management ((example_goal [] None)\<lparr>goal_Management := Some m0\<rparr>) = Some m0" by simp
  from goal_lifecycle [OF m0 this run_reaches] m0 show ?thesis by blast
qed

theorem completion_is_permanent_witness:
  "effective_status (management_of (run (goal_step example_lib example_hashes)
     (example_goal ''completed'' (Some \<lparr>gc_Kind = ''manual'', gc_Reason = ''ok'', gc_ActorDeviceID = [], gc_At = 0\<rparr>))
     [(example_goal_command ''archive'' [], [], 0), (example_goal_command ''start'' [], [], 1)])) = ''completed''"
  by (rule completion_is_permanent [THEN conjunct1])
     (simp_all add: example_goal_def management_of_def default_management_def management_inv_def effective_status_def)

theorem archive_restore_round_trip_witness:
  "\<exists>g1 g2. goal_step example_lib example_hashes (example_goal ''active'' None) (example_goal_command ''archive'' [], [], 0) = Inr g1
     \<and> goal_step example_lib example_hashes g1 (example_goal_command ''restore'' [], [], 1) = Inr g2
     \<and> gm_Status (management_of g2) = ''active''"
proof -
  have inv: "management_inv (management_of (example_goal ''active'' None))"
    by (simp add: example_goal_def management_of_def default_management_def management_inv_def effective_status_def)
  have status: "gm_Status (management_of (example_goal ''active'' None)) = ''active''"
    by (simp add: example_goal_def management_of_def default_management_def)
  let ?g1 = "(example_goal ''archived'' None)\<lparr>goal_Management := Some ((default_management ''w'' ''archived'')
       \<lparr>gm_ArchivedFrom := ''active'', gm_ChangedFields := [''status'']\<rparr>)\<rparr>"
  have "\<exists>g2. goal_step example_lib example_hashes ?g1 (example_goal_command ''restore'' [], [], 1) = Inr g2
     \<and> gm_Status (management_of g2) = gm_Status (management_of (example_goal ''active'' None))
     \<and> gm_Details (management_of g2) = gm_Details (management_of (example_goal ''active'' None))
     \<and> gm_Completion (management_of g2) = gm_Completion (management_of (example_goal ''active'' None))"
    by (rule archive_restore_round_trip [OF inv _ example_step [where a = "[]" and t = 0]])
       (simp_all add: example_goal_command_def example_goal_def)
  then show ?thesis
    unfolding status using example_step [where a = "[]" and t = 0] by blast
qed

theorem edit_records_changes_witness:
  "\<exists>m. nextGoalManagement example_lib example_hashes (Some (example_goal ''active'' None))
     ((example_goal_command [] [])\<lparr>gcmd_Details := Some example_details\<rparr>) [] 0 = Inr m \<and> gm_ChangedFields m = []"
proof -
  let ?c = "(example_goal_command [] [])\<lparr>gcmd_Details := Some example_details\<rparr>"
  have "Validate example_lib example_details = None"
    by (simp add: Validate_def example_details_def empty_details_def rune_count_def valid_utf8_def byte_def)
  then obtain m where m: "nextGoalManagement example_lib example_hashes (Some (example_goal ''active'' None)) ?c [] 0 = Inr m"
    by (simp add: nextGoalManagement_def apply_details_def example_goal_command_def Let_def)
  have "gm_Details (management_of (example_goal ''active'' None)) = example_details"
    by (simp add: example_goal_def management_of_def default_management_def example_details_def)
  then have "gm_ChangedFields m = []"
    using edit_records_changes [OF _ _ _ m, of example_details]
    by (simp add: example_goal_command_def example_details_def example_goal_def)
  with m show ?thesis by blast
qed

end
