(* ===== verification/Proposal.thy ===== *)
theory Proposal
  imports Goals Assessment Reducer
begin

text \<open>
  Proposals of the tutor model, \<open>server/internal/learning/proposal.go\<close> and \<open>proposal_retry.go\<close>: the
  validation of a request, freezing it to the session's current context, decoding and checking what
  the model answers, the two attempts of \<open>Propose\<close>, and the revalidation of a stored proposal
  before a command uses it.

  What the store and the knowledge base answer to the loads of one request is a value of the record
  \<open>authority\<close> (the loads of one request read one state; the version fence of the commit is what
  protects the writes). A store method the code tests for with a type assertion is an option.
  JSON hashing and decoding are the record \<open>proposal_codec\<close>.

  The lemmas: a frozen request carries the session's context and freezing it again changes nothing,
  an accepted proposal was checked against the current session, the model is asked at most twice
  and every failed run leaves its categories, and canonical references are what the knowledge base
  resolved, one per node.
\<close>

section \<open>What the store answers\<close>

record SessionAuthority =
  sa_Session :: Session
  sa_AsOfEventSequence :: int

record authority =
  au_session :: "string \<Rightarrow> error + SessionAuthority"
  au_version :: "string \<Rightarrow> string \<Rightarrow> error + int"
  au_goal :: "string \<Rightarrow> error + GoalRevision"
  au_route :: "string \<Rightarrow> error + RouteRevision"
  au_activity :: "string \<Rightarrow> error + Activity"
  au_attempt :: "string \<Rightarrow> error + Attempt"
  au_assessment :: "string \<Rightarrow> error + (AssessmentArtifact \<times> AssessmentDecision)"
  au_assessment_for_attempt :: "string \<Rightarrow> error + (AssessmentArtifact \<times> AssessmentDecision)"
  au_proposal :: "string \<Rightarrow> error + ProposalArtifact"
  au_question :: "string \<Rightarrow> error + FreeQuestion"
  au_answer :: "string \<Rightarrow> error + FreeAnswer"
  au_evidence :: "string \<Rightarrow> error + AcceptedEvidence list"
  au_misconceptions :: "string \<Rightarrow> error + MisconceptionHypothesis list"
  au_latest_question :: "string \<Rightarrow> string \<Rightarrow> error + string"
  au_next_route :: "(string \<Rightarrow> error + int) option"
  au_session_knowledge :: "(string \<Rightarrow> string \<Rightarrow> string \<Rightarrow> error + bool) option"
  au_session_scope :: "(string \<Rightarrow> error option) option"
  au_resolve :: "string \<Rightarrow> string \<Rightarrow> error + KnowledgeReference"

text \<open>The part of a model's assessment the decoder reads.\<close>

record AssessmentOutput =
  ao_Items :: "AssessmentItem list"
  ao_RubricComplete :: bool
  ao_Confidence :: int
  ao_RiskFlags :: "RiskFlag list"

record proposal_codec =
  pc_hash_request :: "ProposalRequest \<Rightarrow> error + string"
  pc_hash_activity :: "ActivityProposal \<Rightarrow> string"
  pc_hash_references :: "KnowledgeReference list \<Rightarrow> string"
  pc_route :: "string \<Rightarrow> error + RouteProposalStep list"
  pc_activity :: "string \<Rightarrow> error + ActivityProposal"
  pc_assessment :: "string \<Rightarrow> error + AssessmentOutput option"
  pc_text :: "string \<Rightarrow> error + TextProposal"

section \<open>Validation of a request\<close>

definition known_proposal_type :: "ProposalType \<Rightarrow> bool" where
  "known_proposal_type t \<longleftrightarrow> t = ProposalRoute \<or> t = ProposalActivity \<or> t = ProposalAssessment
     \<or> t = ProposalFreeAnswer \<or> t = ProposalExplanation"

definition validateProposalRequest :: "golib \<Rightarrow> ProposalRequest \<Rightarrow> error option" where
  "validateProposalRequest L r =
     (if lib_uuid_parse L (preq_RequestID r) = None then Some (err_code CodeInvalidRequest)
      else if \<not> known_proposal_type (preq_Type r) then Some (err_code CodeInvalidRequest)
      else if (preq_AggregateType r \<noteq> ''goal'' \<and> preq_AggregateType r \<noteq> ''session'') \<or> preq_AggregateID r = []
         \<or> preq_AggregateVersion r < 0 \<or> preq_KnowledgeRevisionID r = [] \<or> preq_Input r = []
         \<or> \<not> lib_json_valid L (preq_Input r)
      then Some (err_code CodeInvalidRequest)
      else if preq_Type r \<noteq> ProposalRoute \<and> preq_AggregateType r \<noteq> ''session'' then Some (err_code CodeInvalidRequest)
      else if length (preq_NodeRevisionIDs r) > 100 \<or> length (preq_Input r) > MaxAnswerBytes
      then Some (err_code CodeInvalidRequest)
      else if \<not> distinct (preq_NodeRevisionIDs r) then Some (err_reason CodeProposalRejected ''duplicate_node_revision'')
      else None)"

definition validateFrozenRequestShape :: "ProposalRequest \<Rightarrow> error option" where
  "validateFrozenRequestShape r =
     (if preq_GoalRevisionID r = [] \<or> preq_KnowledgeRevisionID r = [] \<or> preq_NodeRevisionIDs r = []
      then Some (err_reason CodeInvalidRequest ''proposal_context_incomplete'')
      else case preq_Type r of
          ProposalRoute \<Rightarrow> None
        | ProposalActivity \<Rightarrow>
            if preq_RouteRevisionID r = [] \<or> preq_RouteStepID r = []
            then Some (err_reason CodeInvalidRequest ''route_context_required'') else None
        | ProposalAssessment \<Rightarrow>
            if preq_ActivityID r = [] \<or> preq_AttemptID r = []
            then Some (err_reason CodeInvalidRequest ''assessment_context_required'') else None
        | ProposalFreeAnswer \<Rightarrow>
            if preq_FocusFrameID r = [] \<or> preq_FreeQuestionID r = []
            then Some (err_reason CodeInvalidRequest ''free_question_context_required'') else None
        | ProposalExplanation \<Rightarrow>
            if preq_RouteRevisionID r = [] \<or> preq_RouteStepID r = []
            then Some (err_reason CodeInvalidRequest ''route_context_required'') else None
        | ProposalOther _ \<Rightarrow> None)"

definition proposal_state_valid :: "ProposalType \<Rightarrow> State \<Rightarrow> bool" where
  "proposal_state_valid kind state =
     (case kind of
        ProposalRoute \<Rightarrow> state = StateGoalReady \<or> state = StateDiagnostic \<or> state = StateRouteActive
      | ProposalActivity \<Rightarrow> state = StateRouteActive \<or> state = StateFreeAnswer
      | ProposalAssessment \<Rightarrow> state = StateEvaluating
      | ProposalFreeAnswer \<Rightarrow> state = StateFreeQuestion
      | ProposalExplanation \<Rightarrow> state = StateRouteActive
      | ProposalOther _ \<Rightarrow> False)"

definition stale :: "string \<Rightarrow> error" where
  "stale reason = err_reason CodeStaleProposal reason"

definition validateProposalState :: "ProposalType \<Rightarrow> State \<Rightarrow> error option" where
  "validateProposalState kind state =
     (if \<not> proposal_state_valid kind state then Some (stale ''tutoring_state_changed'') else None)"

definition routeContainsStep :: "RouteRevision \<Rightarrow> string \<Rightarrow> string \<Rightarrow> bool" where
  "routeContainsStep route stepID nodeID \<longleftrightarrow> stepID \<noteq> [] \<and>
     (\<exists>st \<in> set (route_Steps route). step_ID st = stepID \<and> (nodeID = [] \<or> step_NodeRevisionID st = nodeID))"

definition containsReferenceNode :: "KnowledgeReference list \<Rightarrow> string \<Rightarrow> bool" where
  "containsReferenceNode refs node \<longleftrightarrow> node \<noteq> [] \<and> (\<exists>r \<in> set refs. ref_NodeRevisionID r = node)"

section \<open>Focus frames\<close>

definition sameStableFocusContext :: "FocusContext \<Rightarrow> FocusContext \<Rightarrow> bool" where
  "sameStableFocusContext l r \<longleftrightarrow> ctx_GoalRevisionID l = ctx_GoalRevisionID r
     \<and> ctx_RouteRevisionID l = ctx_RouteRevisionID r \<and> ctx_RouteStepID l = ctx_RouteStepID r
     \<and> ctx_KnowledgeRevisionID l = ctx_KnowledgeRevisionID r \<and> ctx_FocusNodeRevisionID l = ctx_FocusNodeRevisionID r"

definition focusContextEqual :: "FocusContext \<Rightarrow> FocusContext \<Rightarrow> bool" where
  "focusContextEqual l r \<longleftrightarrow> sameStableFocusContext l r \<and> ctx_ActivityID l = ctx_ActivityID r \<and> ctx_AttemptID l = ctx_AttemptID r"

definition validActiveFocusFrame :: "Session \<Rightarrow> bool" where
  "validActiveFocusFrame s =
     (case sess_ActiveFrame s of
        None \<Rightarrow> False
      | Some frame \<Rightarrow>
          let c = frame_Context frame
          in if frame_Invalidated frame \<or> sess_FocusFrameInvalidated s \<or> frame_ID frame = []
                \<or> frame_SessionID frame \<noteq> sess_ID s \<or> frame_SavedAggregateVersion frame < 1
                \<or> frame_SavedAggregateVersion frame \<ge> sess_AggregateVer s \<or> frame_CreatedEventSequence frame < 1
             then False
             else if \<not> sameStableFocusContext (sess_Context s) c \<or> ctx_GoalRevisionID c = [] \<or> ctx_RouteRevisionID c = []
                \<or> ctx_RouteStepID c = [] \<or> ctx_KnowledgeRevisionID c = [] \<or> ctx_FocusNodeRevisionID c = []
             then False
             else if \<not> (case frame_SavedState frame of
                  StateRouteActive \<Rightarrow> ctx_ActivityID c = None \<and> ctx_AttemptID c = None
                | StateActivityIssued \<Rightarrow> ctx_ActivityID c \<noteq> None \<and> ctx_AttemptID c = None
                | StateAwaitingResponse \<Rightarrow> ctx_ActivityID c \<noteq> None \<and> ctx_AttemptID c = None
                | _ \<Rightarrow> False)
             then False
             else if sess_State s = StateFreeQuestion \<or> sess_State s = StateFreeAnswer
             then \<not> sess_AttachedQuiz s \<and> focusContextEqual (sess_Context s) c
             else if \<not> sess_AttachedQuiz s then False
             else case sess_State s of
                  StateActivityIssued \<Rightarrow> ctx_ActivityID (sess_Context s) \<noteq> None
                | StateAwaitingResponse \<Rightarrow> ctx_ActivityID (sess_Context s) \<noteq> None
                | StateEvaluating \<Rightarrow> ctx_ActivityID (sess_Context s) \<noteq> None
                | StateFeedback \<Rightarrow> ctx_ActivityID (sess_Context s) \<noteq> None
                | _ \<Rightarrow> False)"

definition active_frame :: "Session \<Rightarrow> FocusFrame" where
  "active_frame s = the (sess_ActiveFrame s)"

definition currentFreeQuestionMatchesSession :: "Session \<Rightarrow> FreeQuestion \<Rightarrow> bool" where
  "currentFreeQuestionMatchesSession s q =
     (if \<not> validActiveFocusFrame s \<or> fq_ID q = [] \<or> fq_SessionID q \<noteq> sess_ID s
         \<or> fq_FocusFrameID q \<noteq> frame_ID (active_frame s)
         \<or> fq_KnowledgeRevisionID q \<noteq> ctx_KnowledgeRevisionID (frame_Context (active_frame s))
         \<or> fq_SessionAggregateVer q \<le> frame_SavedAggregateVersion (active_frame s)
         \<or> fq_SessionAggregateVer q > sess_AggregateVer s
      then False
      else sess_State s \<noteq> StateFreeQuestion \<or> fq_SessionAggregateVer q = sess_AggregateVer s)"

section \<open>Freezing a request\<close>

definition freezeField :: "string \<Rightarrow> string \<Rightarrow> error + string" where
  "freezeField target current =
     (if target \<noteq> [] \<and> target \<noteq> current then Inl (stale ''frozen_context_changed'') else Inr current)"

text \<open>The knowledge scope a goal prescribes, unless the session was given another context.\<close>

definition check_goal_scope :: "authority \<Rightarrow> ProposalRequest \<Rightarrow> Session \<Rightarrow> GoalRevision \<Rightarrow> error + unit" where
  "check_goal_scope A r s goal =
     (let scopeID = gd_ScopeSnapshotID (gm_Details (management_of goal))
      in if scopeID \<noteq> [] \<and> preq_KnowledgeRevisionID r \<noteq> scopeID then
           (case au_session_knowledge A of
              None \<Rightarrow> Inl (err_reason CodeKnowledgeReferenceInvalid ''goal_scope_mismatch'')
            | Some reader \<Rightarrow>
                bindE (reader (sess_ID s) (goal_ID goal) (preq_KnowledgeRevisionID r)) (\<lambda>valid.
                  if \<not> valid then Inl (err_reason CodeKnowledgeReferenceInvalid ''goal_scope_mismatch'') else Inr ()))
         else Inr ())"

text \<open>The fields frozen one after the other; the first that differs refuses the request.\<close>

definition freeze_context :: "Session \<Rightarrow> ProposalRequest \<Rightarrow> error + ProposalRequest" where
  "freeze_context s r =
     (let c = sess_Context s;
          activityID = (case ctx_ActivityID c of None \<Rightarrow> [] | Some i \<Rightarrow> i);
          attemptID = (case ctx_AttemptID c of None \<Rightarrow> [] | Some i \<Rightarrow> i);
          frameID = (case sess_ActiveFrame s of None \<Rightarrow> [] | Some f \<Rightarrow> frame_ID f)
      in bindE (freezeField (preq_RouteRevisionID r) (ctx_RouteRevisionID c)) (\<lambda>route.
         bindE (freezeField (preq_RouteStepID r) (ctx_RouteStepID c)) (\<lambda>step.
         bindE (freezeField (preq_FocusNodeRevisionID r) (ctx_FocusNodeRevisionID c)) (\<lambda>node.
         bindE (freezeField (preq_ActivityID r) activityID) (\<lambda>activity.
         bindE (freezeField (preq_AttemptID r) attemptID) (\<lambda>attempt.
         bindE (freezeField (preq_FocusFrameID r) frameID) (\<lambda>frame.
         bindE (freezeField (preq_TutoringState r) (state_text (sess_State s))) (\<lambda>state.
           Inr (r\<lparr>preq_RouteRevisionID := route, preq_RouteStepID := step, preq_FocusNodeRevisionID := node,
                preq_ActivityID := activity, preq_AttemptID := attempt, preq_FocusFrameID := frame,
                preq_TutoringState := state\<rparr>)))))))))"

definition freeze_free_answer :: "authority \<Rightarrow> Session \<Rightarrow> ProposalRequest \<Rightarrow> error + ProposalRequest" where
  "freeze_free_answer A s r =
     (if preq_Type r \<noteq> ProposalFreeAnswer then Inr r
      else if \<not> validActiveFocusFrame s then Inl (stale ''active_focus_frame_invalid'')
      else bindE (au_latest_question A (sess_ID s) (frame_ID (active_frame s))) (\<lambda>questionID.
           bindE (freezeField (preq_FreeQuestionID r) questionID) (\<lambda>frozen.
           bindE (au_question A questionID) (\<lambda>question.
             if \<not> currentFreeQuestionMatchesSession s question \<or> fq_KnowledgeRevisionID question \<noteq> preq_KnowledgeRevisionID r
             then Inl (stale ''free_question_ownership'')
             else Inr (r\<lparr>preq_FreeQuestionID := frozen\<rparr>)))))"

definition attached_quiz_proposal :: "Session \<Rightarrow> ProposalRequest \<Rightarrow> bool" where
  "attached_quiz_proposal s r \<longleftrightarrow> (preq_Type r = ProposalActivity \<and> sess_State s = StateFreeAnswer)
     \<or> (preq_Type r = ProposalAssessment \<and> sess_AttachedQuiz s)"

definition check_attached_quiz :: "authority \<Rightarrow> Session \<Rightarrow> ProposalRequest \<Rightarrow> error + unit" where
  "check_attached_quiz A s r =
     (if \<not> attached_quiz_proposal s r then Inr ()
      else if preq_FreeQuestionID r = [] \<or> preq_FreeAnswerID r = [] \<or> \<not> validActiveFocusFrame s
      then Inl (err_reason CodeInvalidRequest ''attached_quiz_context_required'')
      else bindE (au_latest_question A (sess_ID s) (frame_ID (active_frame s))) (\<lambda>latest.
           if latest \<noteq> preq_FreeQuestionID r then Inl (stale ''attached_quiz_question_changed'')
           else bindE (au_question A (preq_FreeQuestionID r)) (\<lambda>question.
                bindE (au_answer A (preq_FreeAnswerID r)) (\<lambda>answer.
                  if fq_ID question \<noteq> preq_FreeQuestionID r \<or> fa_ID answer \<noteq> preq_FreeAnswerID r
                     \<or> \<not> currentFreeQuestionMatchesSession s question \<or> fa_SessionID answer \<noteq> sess_ID s
                     \<or> fa_FocusFrameID answer \<noteq> frame_ID (active_frame s) \<or> fa_FreeQuestionID answer \<noteq> fq_ID question
                     \<or> fa_KnowledgeRevisionID answer \<noteq> fq_KnowledgeRevisionID question
                  then Inl (stale ''attached_quiz_ownership'') else Inr ()))))"

definition validateFrozenSessionContext :: "authority \<Rightarrow> ProposalRequest \<Rightarrow> Session \<Rightarrow> error + unit" where
  "validateFrozenSessionContext A r s =
     (if preq_GoalRevisionID r = [] then Inl (stale ''goal_context_missing'')
      else bindE (au_goal A (preq_GoalRevisionID r)) (\<lambda>goal.
        if goal_ID goal \<noteq> preq_GoalRevisionID r then Inl (stale ''goal_context_changed'')
        else bindE (if preq_RouteRevisionID r = [] then Inr () else
            bindE (au_route A (preq_RouteRevisionID r)) (\<lambda>route.
              if route_GoalRevisionID route \<noteq> preq_GoalRevisionID r \<or> route_KnowledgeRevisionID route \<noteq> preq_KnowledgeRevisionID r
                 \<or> \<not> StableRouteSteps (route_Steps route)
                 \<or> \<not> routeContainsStep route (preq_RouteStepID r) (preq_FocusNodeRevisionID r)
              then Inl (stale ''route_context_changed'') else Inr ())) (\<lambda>_.
          bindE (if preq_ActivityID r = [] then Inr () else
            bindE (au_activity A (preq_ActivityID r)) (\<lambda>activity.
              if act_SessionID activity \<noteq> sess_ID s \<or> act_GoalRevisionID activity \<noteq> preq_GoalRevisionID r
                 \<or> act_RouteRevisionID activity \<noteq> preq_RouteRevisionID r \<or> act_RouteStepID activity \<noteq> preq_RouteStepID r
                 \<or> act_KnowledgeRevisionID activity \<noteq> preq_KnowledgeRevisionID r
                 \<or> act_TargetNodeRevisionID activity \<noteq> preq_FocusNodeRevisionID r
                 \<or> \<not> containsReferenceNode (act_References activity) (act_TargetNodeRevisionID activity)
              then Inl (stale ''activity_context_changed'') else Inr ())) (\<lambda>_.
            if preq_AttemptID r = [] then Inr () else
            bindE (au_attempt A (preq_AttemptID r)) (\<lambda>attempt.
              if att_SessionID attempt \<noteq> sess_ID s \<or> att_ActivityID attempt \<noteq> preq_ActivityID r
              then Inl (stale ''attempt_context_changed'') else Inr ())))))"

definition version_stale :: "int \<Rightarrow> int \<Rightarrow> error" where
  "version_stale expected current = LearningError (no_error_fields\<lparr>err_Code := CodeStaleProposal,
     err_Reason := ''aggregate_version_changed'', err_ExpectedVersion := expected, err_CurrentVersion := current\<rparr>) None"

definition freeze_session_request :: "authority \<Rightarrow> ProposalRequest \<Rightarrow> error + ProposalRequest" where
  "freeze_session_request A r =
     bindE (au_session A (preq_AggregateID r)) (\<lambda>auth.
       let s = sa_Session auth
       in if sess_ID s \<noteq> preq_AggregateID r then Inl (stale ''session_ownership'')
          else if sess_AggregateVer s \<noteq> preq_AggregateVersion r
          then Inl (version_stale (preq_AggregateVersion r) (sess_AggregateVer s))
          else bindE (freezeField (preq_GoalRevisionID r) (ctx_GoalRevisionID (sess_Context s))) (\<lambda>goalID.
               let r = r\<lparr>preq_GoalRevisionID := goalID\<rparr>
               in bindE (au_goal A (ctx_GoalRevisionID (sess_Context s))) (\<lambda>goal.
                  bindE (check_goal_scope A r s goal) (\<lambda>_.
                  bindE (freeze_context s r) (\<lambda>r.
                  if ctx_KnowledgeRevisionID (sess_Context s) \<noteq> []
                     \<and> preq_KnowledgeRevisionID r \<noteq> ctx_KnowledgeRevisionID (sess_Context s)
                  then Inl (stale ''knowledge_revision_changed'')
                  else bindE (freeze_free_answer A s r) (\<lambda>r.
                       bindE (check_attached_quiz A s r) (\<lambda>_.
                       checkE (validateProposalState (preq_Type r) (sess_State s))
                       (checkE (validateFrozenRequestShape r)
                       (bindE (validateFrozenSessionContext A r s) (\<lambda>_. Inr r))))))))))"

definition freeze_goal_request :: "authority \<Rightarrow> ProposalRequest \<Rightarrow> error + ProposalRequest" where
  "freeze_goal_request A r =
     bindE (au_version A (preq_AggregateType r) (preq_AggregateID r)) (\<lambda>version.
       if version \<noteq> preq_AggregateVersion r then Inl (version_stale (preq_AggregateVersion r) version)
       else case au_goal A (preq_GoalRevisionID r) of
           Inl e \<Rightarrow> Inl (err_cause CodeStaleProposal ''goal_revision_changed'' (Some e))
         | Inr goal \<Rightarrow>
             if goal_GoalID goal \<noteq> preq_AggregateID r \<or> goal_Revision goal \<noteq> version
             then Inl (stale ''goal_revision_changed'') else Inr r)"

fun resolve_all :: "authority \<Rightarrow> string \<Rightarrow> string list \<Rightarrow> error option" where
  "resolve_all A kr [] = None"
| "resolve_all A kr (node # nodes) =
     (case au_resolve A kr node of
        Inl e \<Rightarrow> Some (err_cause CodeKnowledgeReferenceInvalid [] (Some e))
      | Inr _ \<Rightarrow> resolve_all A kr nodes)"

definition freezeProposalRequest :: "authority \<Rightarrow> ProposalRequest \<Rightarrow> error + ProposalRequest" where
  "freezeProposalRequest A r =
     bindE (if preq_AggregateType r = ''session'' then freeze_session_request A r else freeze_goal_request A r) (\<lambda>r.
       checkE (validateFrozenRequestShape r)
       (checkE (resolve_all A (preq_KnowledgeRevisionID r) (preq_NodeRevisionIDs r)) (Inr r)))"

section \<open>Checking what a proposal holds\<close>

fun canonical_loop ::
  "authority \<Rightarrow> string \<Rightarrow> string list option \<Rightarrow> string list \<Rightarrow> KnowledgeReference list \<Rightarrow> error + KnowledgeReference list" where
  "canonical_loop A kr allowed seen [] = Inr []"
| "canonical_loop A kr allowed seen (c # cs) =
     (if ref_NodeRevisionID c = [] \<or> ref_NodeRevisionID c \<in> set seen
         \<or> (case allowed of None \<Rightarrow> False | Some ns \<Rightarrow> \<not> containsString ns (ref_NodeRevisionID c))
      then Inl (rejected ''duplicate_or_missing_reference'')
      else case au_resolve A kr (ref_NodeRevisionID c) of
          Inl e \<Rightarrow> Inl (err_cause CodeKnowledgeReferenceInvalid [] (Some e))
        | Inr resolved \<Rightarrow>
            if ref_SliceSHA256 c \<noteq> [] \<and> (ref_SliceSHA256 c \<noteq> ref_SliceSHA256 resolved \<or> ref_Range c \<noteq> ref_Range resolved)
            then Inl (rejected ''reference_hash_mismatch'')
            else bindE (canonical_loop A kr allowed (ref_NodeRevisionID c # seen) cs) (\<lambda>rest. Inr (resolved # rest)))"

definition canonicalReferences ::
  "authority \<Rightarrow> string \<Rightarrow> KnowledgeReference list \<Rightarrow> string list option \<Rightarrow> error + KnowledgeReference list" where
  "canonicalReferences A kr input allowed = canonical_loop A kr allowed [] input"

definition required_ok :: "RubricItem \<Rightarrow> bool" where
  "required_ok item \<longleftrightarrow> (\<forall>i \<in> set (item_RequiredReferenceIDs item). i \<noteq> []) \<and> distinct (item_RequiredReferenceIDs item)"

fun rubric_items_error :: "string list \<Rightarrow> RubricItem list \<Rightarrow> error option" where
  "rubric_items_error seen [] = None"
| "rubric_items_error seen (item # items) =
     (if trim_space (item_ID item) = [] \<or> item_ID item \<in> set seen \<or> trim_space (item_Criterion item) = []
      then Some (rejected ''invalid_rubric'')
      else if \<not> required_ok item then Some (rejected ''invalid_rubric_reference'')
      else rubric_items_error (item_ID item # seen) items)"

fun known_help :: "HelpLevel \<Rightarrow> bool" where
  "known_help (HelpOther _) = False"
| "known_help _ = True"

fun allowed_help_error :: "HelpLevel list \<Rightarrow> HelpLevel list \<Rightarrow> error option" where
  "allowed_help_error seen [] = (if seen = [] then Some (rejected ''invalid_help'') else None)"
| "allowed_help_error seen (h # hs) =
     (if \<not> known_help h then Some (rejected ''invalid_help'')
      else if h \<in> set seen then Some (rejected ''duplicate_help'')
      else allowed_help_error (h # seen) hs)"

definition validateActivityProposal :: "authority \<Rightarrow> ProposalRequest \<Rightarrow> ActivityProposal \<Rightarrow> error + ActivityProposal" where
  "validateActivityProposal A r v =
     (if \<not> valid_utf8 (ap_Prompt v) \<or> trim_space (ap_Prompt v) = [] \<or> rune_count (ap_Prompt v) > MaxQuestionRunes
         \<or> ap_Difficulty v < 1 \<or> ap_Difficulty v > 5
      then Inl (rejected ''invalid_activity'')
      else if ap_Type v \<noteq> ActivityObjective \<and> ap_Type v \<noteq> ActivityOpen then Inl (rejected ''invalid_activity_type'')
      else if trim_space (rub_Revision (ap_Rubric v)) = [] \<or> rub_Items (ap_Rubric v) = []
         \<or> length (rub_Items (ap_Rubric v)) > MaxRubricItems
      then Inl (rejected ''invalid_rubric'')
      else checkE (rubric_items_error [] (rub_Items (ap_Rubric v)))
        (if ap_Type v = ActivityObjective \<and>
            (case rub_ObjectiveRule (ap_Rubric v) of None \<Rightarrow> True | Some rule \<Rightarrow> rule_AcceptedAnswers rule = [])
         then Inl (rejected ''objective_rule_missing'')
         else if (case rub_ObjectiveRule (ap_Rubric v) of None \<Rightarrow> False
                  | Some rule \<Rightarrow> \<exists>a \<in> set (rule_AcceptedAnswers rule).
                      \<not> valid_utf8 a \<or> trim_space a = [] \<or> rune_count a > MaxAnswerBytes)
         then Inl (rejected ''invalid_objective_rule'')
         else checkE (allowed_help_error [] (ap_AllowedHelp v))
           (if ap_References v = [] then Inl (rejected ''knowledge_reference_required'')
            else bindE (canonicalReferences A (preq_KnowledgeRevisionID r) (ap_References v) (Some (preq_NodeRevisionIDs r))) (\<lambda>refs.
              if \<not> containsReferenceNode refs (preq_FocusNodeRevisionID r)
              then Inl (rejected ''activity_target_reference_missing'')
              else if \<exists>item \<in> set (rub_Items (ap_Rubric v)). \<exists>i \<in> set (item_RequiredReferenceIDs item).
                        i \<notin> ref_NodeRevisionID ` set refs
              then Inl (rejected ''rubric_reference_not_frozen'')
              else Inr (v\<lparr>ap_References := refs\<rparr>)))))"

text \<open>The steps of a proposed route: \<open>utf8\<close> says whether their texts are checked to be UTF-8, as
  the revalidation does and the decoder (whose input is JSON) does not.\<close>

fun route_steps_error ::
  "authority \<Rightarrow> bool \<Rightarrow> ProposalRequest \<Rightarrow> string list \<Rightarrow> RouteProposalStep list \<Rightarrow> error option" where
  "route_steps_error A utf8 r seen [] = None"
| "route_steps_error A utf8 r seen (st # sts) =
     (if rps_NodeRevisionID st \<in> set seen \<or> \<not> containsString (preq_NodeRevisionIDs r) (rps_NodeRevisionID st)
         \<or> (utf8 \<and> (\<not> valid_utf8 (rps_TeachingIntent st) \<or> \<not> valid_utf8 (rps_CompletionCondition st)))
         \<or> trim_space (rps_TeachingIntent st) = [] \<or> trim_space (rps_CompletionCondition st) = []
         \<or> rune_count (rps_TeachingIntent st) > 1000 \<or> rune_count (rps_CompletionCondition st) > 1000
      then Some (rejected ''invalid_route_step'')
      else case au_resolve A (preq_KnowledgeRevisionID r) (rps_NodeRevisionID st) of
          Inl e \<Rightarrow> Some (err_cause CodeKnowledgeReferenceInvalid [] (Some e))
        | Inr _ \<Rightarrow> route_steps_error A utf8 r (rps_NodeRevisionID st # seen) sts)"

definition route_error :: "authority \<Rightarrow> bool \<Rightarrow> ProposalRequest \<Rightarrow> RouteProposalStep list \<Rightarrow> error option" where
  "route_error A utf8 r route =
     (if route = [] \<or> length route > 100 then Some (rejected ''route_size'')
      else route_steps_error A utf8 r [] route)"

definition text_invalid :: "TextProposal \<Rightarrow> bool" where
  "text_invalid t \<longleftrightarrow> \<not> valid_utf8 (tp_Text t) \<or> trim_space (tp_Text t) = []
     \<or> rune_count (tp_Text t) > MaxProposalTextRunes \<or> tp_References t = []"

section \<open>Revalidation before use\<close>

text \<open>
  \<open>validateProposalForApply\<close> checks a stored proposal against its frozen request and that against
  the session as it is now, and then the content again.
\<close>

definition proposal_context_matches :: "ProposalArtifact \<Rightarrow> ProposalRequest \<Rightarrow> bool" where
  "proposal_context_matches p r \<longleftrightarrow> prop_Type p = preq_Type r \<and> prop_AggregateType p = preq_AggregateType r
     \<and> prop_AggregateID p = preq_AggregateID r \<and> prop_AggregateVersion p = preq_AggregateVersion r
     \<and> prop_GoalRevisionID p = preq_GoalRevisionID r \<and> prop_RouteRevisionID p = preq_RouteRevisionID r
     \<and> prop_ActivityID p = preq_ActivityID r \<and> prop_AttemptID p = preq_AttemptID r
     \<and> prop_KnowledgeRevisionID p = preq_KnowledgeRevisionID r"

definition apply_content_error ::
  "golib \<Rightarrow> proposal_codec \<Rightarrow> authority \<Rightarrow> ProposalArtifact \<Rightarrow> ProposalType \<Rightarrow> error option" where
  "apply_content_error L J A p kind =
     (let r = prop_FrozenRequest p
      in case kind of
        ProposalRoute \<Rightarrow> route_error A True r (prop_Route p)
      | ProposalActivity \<Rightarrow>
          (case prop_Activity p of
             None \<Rightarrow> Some (rejected ''activity_missing'')
           | Some a \<Rightarrow>
               (case validateActivityProposal A r a of
                  Inl e \<Rightarrow> Some e
                | Inr canonical \<Rightarrow>
                    if pc_hash_activity J a \<noteq> pc_hash_activity J canonical
                    then Some (rejected ''activity_not_canonical'') else None))
      | ProposalAssessment \<Rightarrow>
          (case prop_Assessment p of
             None \<Rightarrow> Some (rejected ''assessment_context_mismatch'')
           | Some a \<Rightarrow>
               if art_ActivityID a \<noteq> preq_ActivityID r \<or> art_AttemptID a \<noteq> preq_AttemptID r
                  \<or> art_ProposalInputHash a \<noteq> prop_InputHash p
               then Some (rejected ''assessment_context_mismatch'')
               else case au_activity A (preq_ActivityID r) of
                   Inl e \<Rightarrow> Some e
                 | Inr activity \<Rightarrow>
                     (case au_attempt A (preq_AttemptID r) of
                        Inl e \<Rightarrow> Some e
                      | Inr attempt \<Rightarrow>
                          (case EvaluateAssessment L activity attempt a of Inl e \<Rightarrow> Some e | Inr _ \<Rightarrow> None)))
      | ProposalOther _ \<Rightarrow> None
      | _ \<Rightarrow>
          (case prop_Text p of
             None \<Rightarrow> Some (rejected ''text_missing'')
           | Some t \<Rightarrow>
               if text_invalid t then Some (rejected ''text_missing'')
               else case canonicalReferences A (preq_KnowledgeRevisionID r) (tp_References t) (Some (preq_NodeRevisionIDs r)) of
                   Inl e \<Rightarrow> Some e
                 | Inr canonical \<Rightarrow>
                     if pc_hash_references J (tp_References t) \<noteq> pc_hash_references J canonical
                     then Some (rejected ''text_references_not_canonical'') else None))"

definition validateProposalForApply ::
  "golib \<Rightarrow> proposal_codec \<Rightarrow> authority \<Rightarrow> ProposalArtifact \<Rightarrow> ProposalType \<Rightarrow> Session \<Rightarrow> error option" where
  "validateProposalForApply L J A p kind s =
     (let r = prop_FrozenRequest p
      in if prop_SchemaVersion p \<noteq> ProposalSchemaVersion \<or> prop_Type p \<noteq> kind \<or> preq_RequestID r = []
         then Some (stale ''proposal_schema_or_context_missing'')
         else case validateProposalRequest L r of
             Some e \<Rightarrow> Some (err_cause CodeStaleProposal ''invalid_frozen_request'' (Some e))
           | None \<Rightarrow>
               (case pc_hash_request J r of
                  Inl e \<Rightarrow> Some (err_cause CodeStaleProposal ''proposal_input_hash_mismatch'' (Some e))
                | Inr hash \<Rightarrow>
                    if hash \<noteq> prop_InputHash p then Some (stale ''proposal_input_hash_mismatch'')
                    else if \<not> proposal_context_matches p r then Some (stale ''proposal_context_mismatch'')
                    else case freezeProposalRequest A r of
                        Inl e \<Rightarrow> Some e
                      | Inr current \<Rightarrow>
                          (case pc_hash_request J current of
                             Inl e \<Rightarrow> Some (err_cause CodeStaleProposal ''proposal_context_changed'' (Some e))
                           | Inr currentHash \<Rightarrow>
                               if currentHash \<noteq> prop_InputHash p \<or> preq_AggregateID current \<noteq> sess_ID s
                                  \<or> preq_AggregateVersion current \<noteq> sess_AggregateVer s
                               then Some (stale ''proposal_context_changed'')
                               else apply_content_error L J A p kind)))"

section \<open>Asking the model\<close>

record service =
  svc_modelID :: string
  svc_modelParameters :: "(string, json) gomap"
  svc_promptRevision :: string

definition new_artifact :: "service \<Rightarrow> string \<Rightarrow> ProposalRequest \<Rightarrow> string \<Rightarrow> string list \<Rightarrow> time \<Rightarrow> ProposalArtifact" where
  "new_artifact S i r inputHash categories now =
     \<lparr>prop_ID = i, prop_SchemaVersion = ProposalSchemaVersion, prop_InputHash = inputHash, prop_Type = preq_Type r,
      prop_AggregateType = preq_AggregateType r, prop_AggregateID = preq_AggregateID r,
      prop_AggregateVersion = preq_AggregateVersion r, prop_GoalRevisionID = preq_GoalRevisionID r,
      prop_RouteRevisionID = preq_RouteRevisionID r, prop_ActivityID = preq_ActivityID r,
      prop_AttemptID = preq_AttemptID r, prop_KnowledgeRevisionID = preq_KnowledgeRevisionID r,
      prop_FrozenRequest = r, prop_Route = [], prop_Activity = None, prop_Assessment = None, prop_Text = None,
      prop_ModelID = svc_modelID S, prop_ModelParameters = svc_modelParameters S,
      prop_PromptRevision = svc_promptRevision S, prop_AttemptCategories = categories,
      prop_CreatedAt = trunc_microsecond now\<rparr>"

definition schema_mismatch :: "error option \<Rightarrow> error" where
  "schema_mismatch cause = err_cause CodeProposalRejected ''schema_mismatch'' cause"

text \<open>
  \<open>decodeProposal\<close>. The identifiers are the artifact's and, for an assessment, the assessment's;
  the decoders of \<open>proposal_codec\<close> refuse unknown fields and a second value, as \<open>decodeOne\<close> does.
\<close>

definition decodeProposal ::
  "golib \<Rightarrow> proposal_codec \<Rightarrow> authority \<Rightarrow> service \<Rightarrow> string \<times> string \<Rightarrow> time \<Rightarrow> ProposalRequest \<Rightarrow> string \<Rightarrow> string
    \<Rightarrow> string list \<Rightarrow> error + ProposalArtifact" where
  "decodeProposal L J A S ids now r inputHash raw categories =
     (let artifact = new_artifact S (fst ids) r inputHash categories now
      in case preq_Type r of
        ProposalRoute \<Rightarrow>
          (case pc_route J raw of
             Inl e \<Rightarrow> Inl (schema_mismatch (Some e))
           | Inr route \<Rightarrow> checkE (route_error A False r route) (Inr (artifact\<lparr>prop_Route := route\<rparr>)))
      | ProposalActivity \<Rightarrow>
          (case pc_activity J raw of
             Inl e \<Rightarrow> Inl (schema_mismatch (Some e))
           | Inr a \<Rightarrow> bindE (validateActivityProposal A r a) (\<lambda>a. Inr (artifact\<lparr>prop_Activity := Some a\<rparr>)))
      | ProposalAssessment \<Rightarrow>
          (case pc_assessment J raw of
             Inl e \<Rightarrow> Inl (schema_mismatch (Some e))
           | Inr None \<Rightarrow> Inl (schema_mismatch None)
           | Inr (Some out) \<Rightarrow>
               if preq_AttemptID r = [] \<or> preq_ActivityID r = [] then Inl (err_code CodeInvalidRequest)
               else bindE (au_activity A (preq_ActivityID r)) (\<lambda>activity.
                    bindE (au_attempt A (preq_AttemptID r)) (\<lambda>attempt.
                    let assessment = \<lparr>art_ID = snd ids, art_SessionID = act_SessionID activity, art_AttemptID = att_ID attempt,
                          art_ActivityID = act_ID activity, art_ActivityRevision = act_Revision activity,
                          art_Items = ao_Items out, art_RubricComplete = ao_RubricComplete out,
                          art_Confidence = ao_Confidence out, art_RiskFlags = ao_RiskFlags out,
                          art_ModelID = svc_modelID S, art_ModelParameters = svc_modelParameters S,
                          art_PromptRevision = svc_promptRevision S, art_ProposalInputHash = inputHash,
                          art_Attempts = int (length categories), art_AttemptCategories = categories,
                          art_CreatedAt = prop_CreatedAt artifact, art_EvidenceEligibility = False,
                          art_EvidenceIneligibleReason = []\<rparr>
                    in if \<exists>item \<in> set (ao_Items out). ai_KnowledgeReferenceID item \<noteq> []
                            \<and> \<not> containsString (preq_NodeRevisionIDs r) (ai_KnowledgeReferenceID item)
                       then Inl (rejected ''node_not_allowed'')
                       else bindE (EvaluateAssessment L activity attempt assessment) (\<lambda>_.
                            Inr (artifact\<lparr>prop_Assessment := Some assessment\<rparr>)))))
      | ProposalOther _ \<Rightarrow> Inr artifact
      | _ \<Rightarrow>
          (case pc_text J raw of
             Inl e \<Rightarrow> Inl (schema_mismatch (Some e))
           | Inr t \<Rightarrow>
               if text_invalid t then Inl (rejected ''invalid_text'')
               else bindE (canonicalReferences A (preq_KnowledgeRevisionID r) (tp_References t) (Some (preq_NodeRevisionIDs r)))
                      (\<lambda>refs. Inr (artifact\<lparr>prop_Text := Some (t\<lparr>tp_References := refs\<rparr>)\<rparr>))))"

definition fixed_reasons :: "string list" where
  "fixed_reasons = [''schema_mismatch'', ''duplicate_node_revision'', ''route_size'', ''invalid_route_step'', ''invalid_activity'',
     ''invalid_activity_type'', ''invalid_rubric'', ''invalid_rubric_reference'', ''objective_rule_missing'',
     ''invalid_objective_rule'', ''invalid_help'', ''duplicate_help'', ''knowledge_reference_required'',
     ''activity_target_reference_missing'', ''rubric_reference_not_frozen'', ''duplicate_or_missing_reference'',
     ''reference_hash_mismatch'', ''node_not_allowed'', ''invalid_text'', ''activity_target_missing'',
     ''immutable_reference_mismatch'', ''activity_not_assessable'', ''confidence_out_of_range'', ''unknown_risk_flag'',
     ''invalid_frozen_rubric'', ''invalid_frozen_reference'', ''unknown_or_duplicate_rubric_item'', ''unknown_conclusion'',
     ''misconception_without_failure'', ''invalid_answer_quote'', ''knowledge_reference_mismatch'', ''invalid_knowledge_quote'']"

definition fixedProposalReason :: "string \<Rightarrow> string" where
  "fixedProposalReason reason = (if reason \<in> set fixed_reasons then reason else ''domain_invalid'')"

fun proposalFailureCategory :: "error \<Rightarrow> string" where
  "proposalFailureCategory (LearningError f _) =
     (if err_Reason f = ''schema_mismatch'' then ''schema_mismatch''
      else case err_Code f of
          CodeProposalRejected \<Rightarrow> fixedProposalReason (err_Reason f)
        | CodeStaleProposal \<Rightarrow> ''stale_context''
        | CodeInvalidRequest \<Rightarrow> ''invalid_request''
        | _ \<Rightarrow> ''domain_invalid'')"
| "proposalFailureCategory _ = ''invalid_response''"

definition retryableModelCategory :: "string \<Rightarrow> bool" where
  "retryableModelCategory c \<longleftrightarrow> c \<in> set [''timeout'', ''rate_limited'', ''unavailable'', ''upstream_error'']"

definition proposalCategoryError :: "string \<Rightarrow> error option \<Rightarrow> error" where
  "proposalCategoryError category cause =
     (if category = ''not_configured'' \<or> retryableModelCategory category
      then err_cause CodeModelUnavailable category cause
      else if category = ''stale_context'' then err_cause CodeStaleProposal category cause
      else if category = ''invalid_request'' then err_cause CodeInvalidRequest category cause
      else err_cause CodeProposalRejected category cause)"

definition retryableProposalCategory :: "ProposalType \<Rightarrow> string \<Rightarrow> bool" where
  "retryableProposalCategory kind c \<longleftrightarrow>
     c \<in> set [''schema_mismatch'', ''malformed_json'', ''reference_hash_mismatch'', ''invalid_answer_quote'',
       ''invalid_knowledge_quote'', ''knowledge_reference_mismatch'', ''unknown_risk_flag'',
       ''unknown_or_duplicate_rubric_item'', ''misconception_without_failure'', ''invalid_text'']
     \<or> (c = ''activity_target_reference_missing'' \<and> kind = ProposalActivity)"

text \<open>
  A failure of the model port: the category it reports, if it is a \<open>ModelFailure\<close>, and the error.
\<close>

definition model_categories :: "string list" where
  "model_categories = [''timeout'', ''rate_limited'', ''unavailable'', ''upstream_error'', ''unauthorized'', ''incompatible'',
     ''invalid_request'', ''invalid_response'', ''malformed_json'', ''schema_mismatch'', ''output_budget_exceeded'',
     ''response_not_completed'']"

definition modelCategory :: "string option \<Rightarrow> string" where
  "modelCategory reported = (case reported of
     Some c \<Rightarrow> if c \<in> set model_categories then c else ''upstream_error'' | None \<Rightarrow> ''upstream_error'')"

text \<open>
  How the attempts end: a proposal to complete, or a failure with the categories to persist, the
  category of the last failure and the error for the caller. The loop runs attempts 0 and 1;
  \<open>answer n reason\<close> is what the model answers in attempt \<open>n\<close>, told the reason of a retry.
\<close>

datatype attempt_result = Proposed ProposalArtifact | Failed "string list" string error

fun attempts_loop ::
  "golib \<Rightarrow> proposal_codec \<Rightarrow> authority \<Rightarrow> service \<Rightarrow> (nat \<Rightarrow> string \<times> string) \<Rightarrow> time
    \<Rightarrow> (nat \<Rightarrow> string \<Rightarrow> (string option \<times> error) + string) \<Rightarrow> ProposalRequest \<Rightarrow> string
    \<Rightarrow> nat \<Rightarrow> nat \<Rightarrow> string \<Rightarrow> string list \<Rightarrow> attempt_result option" where
  "attempts_loop L J A S ids now answer r inputHash 0 attempt retry categories = None"
| "attempts_loop L J A S ids now answer r inputHash (Suc left) attempt retry categories =
     (case answer attempt retry of
        Inl (reported, e) \<Rightarrow>
          (let category = modelCategory reported; categories = categories @ [category]
           in if attempt = 0 \<and> (retryableModelCategory category \<or> retryableProposalCategory (preq_Type r) category)
              then attempts_loop L J A S ids now answer r inputHash left (attempt + 1) category categories
              else Some (Failed categories category
                     (if retryableModelCategory category then err_cause CodeModelUnavailable category (Some e)
                      else err_cause CodeProposalRejected category (Some e))))
      | Inr raw \<Rightarrow>
          (case decodeProposal L J A S (ids attempt) now r inputHash raw (categories @ [''success'']) of
             Inr artifact \<Rightarrow> Some (Proposed artifact)
           | Inl e \<Rightarrow>
               (let category = proposalFailureCategory e; categories = categories @ [category]
                in if attempt = 0 \<and> retryableProposalCategory (preq_Type r) category
                   then attempts_loop L J A S ids now answer r inputHash left (attempt + 1) category categories
                   else Some (Failed categories category (proposalCategoryError category (Some e))))))"

text \<open>
  \<open>Propose\<close> after the claim: the repository's answer to the claim decides whether this call runs the
  model. What is written to the repository is the second component: nothing, a completed proposal
  or a failure; the repository's own errors (\<open>stored\<close>) replace the answer, as in the code.
\<close>

datatype ProposalClaim = ClaimReady ProposalArtifact | ClaimFailed string | ClaimBusy | ClaimRun

datatype proposal_write = NoWrite | CompleteProposal ProposalArtifact | FailProposal "string list" string

definition fail_write ::
  "(proposal_write \<Rightarrow> error option) \<Rightarrow> string list \<Rightarrow> string \<Rightarrow> error \<Rightarrow> (error + ProposalArtifact) \<times> proposal_write" where
  "fail_write stored categories category e =
     (case stored (FailProposal categories category) of
        Some err \<Rightarrow> (Inl (PlainError ''persist proposal failure''), FailProposal categories category)
      | None \<Rightarrow> (Inl e, FailProposal categories category))"

definition propose_claimed ::
  "golib \<Rightarrow> proposal_codec \<Rightarrow> authority \<Rightarrow> service \<Rightarrow> (nat \<Rightarrow> string \<times> string) \<Rightarrow> time
    \<Rightarrow> (nat \<Rightarrow> string \<Rightarrow> (string option \<times> error) + string) option \<Rightarrow> (proposal_write \<Rightarrow> error option)
    \<Rightarrow> ProposalRequest \<Rightarrow> (error + ProposalArtifact) \<times> proposal_write" where
  "propose_claimed L J A S ids now model stored request =
     (case freezeProposalRequest A request of
        Inl e \<Rightarrow> (let category = proposalFailureCategory e
                  in fail_write stored [category] category (proposalCategoryError category (Some e)))
      | Inr r \<Rightarrow>
          (case pc_hash_request J r of
             Inl e \<Rightarrow> (Inl e, NoWrite)
           | Inr inputHash \<Rightarrow>
               (case model of
                  None \<Rightarrow> fail_write stored [] ''not_configured'' (err_reason CodeModelUnavailable ''not_configured'')
                | Some answer \<Rightarrow>
                    (case attempts_loop L J A S ids now answer r inputHash 2 0 [] [] of
                       Some (Failed categories category e) \<Rightarrow> fail_write stored categories category e
                     | Some (Proposed artifact) \<Rightarrow>
                         (case stored (CompleteProposal artifact) of
                            Some e \<Rightarrow> (Inl e, CompleteProposal artifact)
                          | None \<Rightarrow> (Inr artifact, CompleteProposal artifact))
                     | None \<Rightarrow> (Inl (PlainError ''unreachable''), NoWrite)))))"

definition Propose ::
  "golib \<Rightarrow> proposal_codec \<Rightarrow> authority \<Rightarrow> service \<Rightarrow> (nat \<Rightarrow> string \<times> string) \<Rightarrow> time
    \<Rightarrow> (nat \<Rightarrow> string \<Rightarrow> (string option \<times> error) + string) option \<Rightarrow> (proposal_write \<Rightarrow> error option)
    \<Rightarrow> (string \<Rightarrow> error + ProposalClaim) \<Rightarrow> ProposalRequest \<Rightarrow> (error + ProposalArtifact) \<times> proposal_write" where
  "Propose L J A S ids now model stored claim request =
     (case validateProposalRequest L request of
        Some e \<Rightarrow> (Inl e, NoWrite)
      | None \<Rightarrow>
          (case (if preq_AggregateType request = ''session'' then
                   (case au_session_scope A of None \<Rightarrow> None | Some validate \<Rightarrow> validate (preq_AggregateID request))
                 else None) of
             Some e \<Rightarrow> (Inl e, NoWrite)
           | None \<Rightarrow>
               (case pc_hash_request J request of
                  Inl e \<Rightarrow> (Inl e, NoWrite)
                | Inr requestHash \<Rightarrow>
                    (case claim requestHash of
                       Inl e \<Rightarrow> (Inl e, NoWrite)
                     | Inr (ClaimReady artifact) \<Rightarrow> (Inr artifact, NoWrite)
                     | Inr (ClaimFailed category) \<Rightarrow> (Inl (proposalCategoryError category None), NoWrite)
                     | Inr ClaimBusy \<Rightarrow> (Inl (err_reason CodeModelUnavailable ''proposal_in_progress''), NoWrite)
                     | Inr ClaimRun \<Rightarrow> propose_claimed L J A S ids now model stored request))))"

section \<open>What freezing guarantees\<close>

lemma bindE_eq_Inr [simp]: "bindE m f = Inr y \<longleftrightarrow> (\<exists>x. m = Inr x \<and> f x = Inr y)"
  by (cases m) auto

lemma checkE_eq_Inr [simp]: "checkE e m = Inr y \<longleftrightarrow> e = None \<and> m = Inr y"
  by (cases e) auto

lemma freezeField_Inr [simp]: "freezeField t c = Inr x \<longleftrightarrow> x = c \<and> (t = [] \<or> t = c)"
  by (auto simp: freezeField_def)

definition carries_session :: "ProposalRequest \<Rightarrow> Session \<Rightarrow> bool" where
  "carries_session r s \<longleftrightarrow>
     preq_AggregateID r = sess_ID s \<and> preq_AggregateVersion r = sess_AggregateVer s
     \<and> preq_GoalRevisionID r = ctx_GoalRevisionID (sess_Context s)
     \<and> preq_RouteRevisionID r = ctx_RouteRevisionID (sess_Context s)
     \<and> preq_RouteStepID r = ctx_RouteStepID (sess_Context s)
     \<and> preq_FocusNodeRevisionID r = ctx_FocusNodeRevisionID (sess_Context s)
     \<and> preq_ActivityID r = (case ctx_ActivityID (sess_Context s) of None \<Rightarrow> [] | Some i \<Rightarrow> i)
     \<and> preq_AttemptID r = (case ctx_AttemptID (sess_Context s) of None \<Rightarrow> [] | Some i \<Rightarrow> i)
     \<and> preq_FocusFrameID r = (case sess_ActiveFrame s of None \<Rightarrow> [] | Some f \<Rightarrow> frame_ID f)
     \<and> preq_TutoringState r = state_text (sess_State s)
     \<and> (ctx_KnowledgeRevisionID (sess_Context s) = [] \<or> preq_KnowledgeRevisionID r = ctx_KnowledgeRevisionID (sess_Context s))"

definition same_request :: "ProposalRequest \<Rightarrow> ProposalRequest \<Rightarrow> bool" where
  "same_request r r' \<longleftrightarrow> preq_RequestID r' = preq_RequestID r \<and> preq_Type r' = preq_Type r
     \<and> preq_AggregateType r' = preq_AggregateType r \<and> preq_AggregateID r' = preq_AggregateID r
     \<and> preq_AggregateVersion r' = preq_AggregateVersion r \<and> preq_KnowledgeRevisionID r' = preq_KnowledgeRevisionID r
     \<and> preq_NodeRevisionIDs r' = preq_NodeRevisionIDs r \<and> preq_Input r' = preq_Input r
     \<and> preq_FreeAnswerID r' = preq_FreeAnswerID r"

lemma freeze_context_result:
  assumes "freeze_context s r = Inr r'"
  shows "r' = r\<lparr>preq_RouteRevisionID := ctx_RouteRevisionID (sess_Context s), preq_RouteStepID := ctx_RouteStepID (sess_Context s),
           preq_FocusNodeRevisionID := ctx_FocusNodeRevisionID (sess_Context s),
           preq_ActivityID := (case ctx_ActivityID (sess_Context s) of None \<Rightarrow> [] | Some i \<Rightarrow> i),
           preq_AttemptID := (case ctx_AttemptID (sess_Context s) of None \<Rightarrow> [] | Some i \<Rightarrow> i),
           preq_FocusFrameID := (case sess_ActiveFrame s of None \<Rightarrow> [] | Some f \<Rightarrow> frame_ID f),
           preq_TutoringState := state_text (sess_State s)\<rparr>"
  using assms by (auto simp: freeze_context_def Let_def)

lemma freeze_context_idem:
  assumes "carries_session r s" shows "freeze_context s r = Inr r"
  using assms by (simp add: freeze_context_def carries_session_def Let_def freezeField_def)

lemma check_goal_scope_cong:
  assumes "preq_KnowledgeRevisionID r' = preq_KnowledgeRevisionID r"
  shows "check_goal_scope A r' s g = check_goal_scope A r s g"
  unfolding check_goal_scope_def assms ..

lemma freeze_free_answer_result:
  assumes "freeze_free_answer A s r = Inr r'"
  shows "r' = r \<or> (\<exists>q. r' = r\<lparr>preq_FreeQuestionID := q\<rparr>)"
  using assms by (auto simp: freeze_free_answer_def split: if_splits)

lemma freeze_free_answer_idem:
  assumes "freeze_free_answer A s r = Inr r'"
  shows "freeze_free_answer A s r' = Inr r'"
  using assms by (auto simp: freeze_free_answer_def split: if_splits)

lemma freeze_session_request_cases:
  assumes "freeze_session_request A r = Inr r'"
  obtains auth goal r1 where
    "au_session A (preq_AggregateID r) = Inr auth" "carries_session r' (sa_Session auth)" "same_request r r'"
    "au_goal A (ctx_GoalRevisionID (sess_Context (sa_Session auth))) = Inr goal"
    "check_goal_scope A r' (sa_Session auth) goal = Inr ()"
    "freeze_free_answer A (sa_Session auth) r1 = Inr r'"
    "check_attached_quiz A (sa_Session auth) r' = Inr ()"
    "validateProposalState (preq_Type r') (sess_State (sa_Session auth)) = None"
    "validateFrozenRequestShape r' = None"
    "validateFrozenSessionContext A r' (sa_Session auth) = Inr ()"
proof -
  from assms obtain auth goal r1 where
    1: "au_session A (preq_AggregateID r) = Inr auth" "sess_ID (sa_Session auth) = preq_AggregateID r"
      "sess_AggregateVer (sa_Session auth) = preq_AggregateVersion r"
    and 2: "au_goal A (ctx_GoalRevisionID (sess_Context (sa_Session auth))) = Inr goal"
      "check_goal_scope A (r\<lparr>preq_GoalRevisionID := ctx_GoalRevisionID (sess_Context (sa_Session auth))\<rparr>) (sa_Session auth) goal = Inr ()"
    and 3: "freeze_context (sa_Session auth) (r\<lparr>preq_GoalRevisionID := ctx_GoalRevisionID (sess_Context (sa_Session auth))\<rparr>) = Inr r1"
    and 4: "\<not> (ctx_KnowledgeRevisionID (sess_Context (sa_Session auth)) \<noteq> []
      \<and> preq_KnowledgeRevisionID r1 \<noteq> ctx_KnowledgeRevisionID (sess_Context (sa_Session auth)))"
    and 5: "freeze_free_answer A (sa_Session auth) r1 = Inr r'"
    and 6: "check_attached_quiz A (sa_Session auth) r' = Inr ()"
      "validateProposalState (preq_Type r') (sess_State (sa_Session auth)) = None" "validateFrozenRequestShape r' = None"
      "validateFrozenSessionContext A r' (sa_Session auth) = Inr ()"
    by (auto simp: freeze_session_request_def Let_def split: if_splits)
  note r1 = freeze_context_result [OF 3]
  have "carries_session r1 (sa_Session auth)" "same_request r r1"
    using 1 4 by (auto simp: r1 carries_session_def same_request_def)
  then have "carries_session r' (sa_Session auth)" "same_request r r'"
    using freeze_free_answer_result [OF 5] by (auto simp: carries_session_def same_request_def)
  moreover have "check_goal_scope A r' (sa_Session auth) goal = Inr ()"
    using 2(2) \<open>same_request r r'\<close>
      check_goal_scope_cong [of r' "r\<lparr>preq_GoalRevisionID := ctx_GoalRevisionID (sess_Context (sa_Session auth))\<rparr>"]
    by (simp add: same_request_def)
  ultimately show thesis using that 1 2 5 6 by blast
qed

lemma freeze_session_request_idem:
  assumes "freeze_session_request A r = Inr r'"
  shows "freeze_session_request A r' = Inr r'"
proof -
  obtain auth goal r1 where
    a: "au_session A (preq_AggregateID r) = Inr auth" and c: "carries_session r' (sa_Session auth)"
    and s: "same_request r r'" and g: "au_goal A (ctx_GoalRevisionID (sess_Context (sa_Session auth))) = Inr goal"
    and k: "check_goal_scope A r' (sa_Session auth) goal = Inr ()"
    and f: "freeze_free_answer A (sa_Session auth) r1 = Inr r'"
    and rest: "check_attached_quiz A (sa_Session auth) r' = Inr ()"
      "validateProposalState (preq_Type r') (sess_State (sa_Session auth)) = None"
      "validateFrozenRequestShape r' = None" "validateFrozenSessionContext A r' (sa_Session auth) = Inr ()"
    by (rule freeze_session_request_cases [OF assms])
  have self: "r'\<lparr>preq_GoalRevisionID := ctx_GoalRevisionID (sess_Context (sa_Session auth))\<rparr> = r'"
    using c by (simp add: carries_session_def)
  have a': "au_session A (preq_AggregateID r') = Inr auth" using a s by (simp add: same_request_def)
  have ids: "sess_ID (sa_Session auth) = preq_AggregateID r'" "sess_AggregateVer (sa_Session auth) = preq_AggregateVersion r'"
    "freezeField (preq_GoalRevisionID r') (ctx_GoalRevisionID (sess_Context (sa_Session auth))) =
       Inr (ctx_GoalRevisionID (sess_Context (sa_Session auth)))"
    "\<not> (ctx_KnowledgeRevisionID (sess_Context (sa_Session auth)) \<noteq> []
      \<and> preq_KnowledgeRevisionID r' \<noteq> ctx_KnowledgeRevisionID (sess_Context (sa_Session auth)))"
    using c by (auto simp: carries_session_def)
  show ?thesis
    unfolding freeze_session_request_def Let_def a' bindE_Inr
    using ids by (auto simp: g self k freeze_context_idem [OF c] freeze_free_answer_idem [OF f] rest)
qed

lemma freeze_goal_request_same: "freeze_goal_request A r = Inr r' \<Longrightarrow> r' = r"
  by (auto simp: freeze_goal_request_def split: if_splits sum.splits)

lemma freezeProposalRequest_same:
  assumes "freezeProposalRequest A r = Inr r'" shows "same_request r r'"
proof (cases "preq_AggregateType r = ''session''")
  case True
  with assms have "freeze_session_request A r = Inr r'" by (auto simp: freezeProposalRequest_def)
  then show ?thesis by (rule freeze_session_request_cases)
next
  case False
  with assms have "freeze_goal_request A r = Inr r'" by (auto simp: freezeProposalRequest_def)
  then have "r' = r" by (rule freeze_goal_request_same)
  then show ?thesis by (simp add: same_request_def)
qed

lemma validateProposalRequest_same:
  assumes "same_request r r'" shows "validateProposalRequest L r' = validateProposalRequest L r"
  using assms by (simp add: validateProposalRequest_def same_request_def)

lemma freeze_again:
  assumes "freezeProposalRequest A r = Inr r'"
  shows "freezeProposalRequest A r' = Inr r'"
proof (cases "preq_AggregateType r = ''session''")
  case True
  with assms have "freeze_session_request A r = Inr r'" by (auto simp: freezeProposalRequest_def)
  then have "freeze_session_request A r' = Inr r'" by (rule freeze_session_request_idem)
  then show ?thesis using assms freezeProposalRequest_same [OF assms] True
    by (auto simp: freezeProposalRequest_def same_request_def)
next
  case False
  with assms have "r' = r" by (auto simp: freezeProposalRequest_def dest: freeze_goal_request_same)
  with assms show ?thesis by simp
qed

text \<open>
  Freezing a proposal request is stable. Whatever the store answers, freezing a frozen request
  again under the same answers gives the request back unchanged, so that the hash of the frozen
  request, which \<open>validateProposalForApply\<close> recomputes, can only differ if the store's answers changed.
\<close>

theorem freezeProposalRequest_idempotent:
  assumes "freezeProposalRequest A r = Inr r'"
  shows "freezeProposalRequest A r' = Inr r'"
  using assms by (rule freeze_again)

section \<open>References and the content of a proposal\<close>

definition reference_agrees :: "KnowledgeReference \<Rightarrow> KnowledgeReference \<Rightarrow> bool" where
  "reference_agrees c resolved \<longleftrightarrow>
     ref_SliceSHA256 c = [] \<or> ref_SliceSHA256 c = ref_SliceSHA256 resolved \<and> ref_Range c = ref_Range resolved"

definition may_cite :: "string list option \<Rightarrow> string list \<Rightarrow> bool" where
  "may_cite allowed nodes \<longleftrightarrow> (case allowed of None \<Rightarrow> True | Some ns \<Rightarrow> set nodes \<subseteq> set ns)"

lemma canonical_loop_iff:
  "canonical_loop A kr allowed seen cs = Inr out \<longleftrightarrow>
     list_all2 (\<lambda>c r. au_resolve A kr (ref_NodeRevisionID c) = Inr r \<and> reference_agrees c r) cs out
     \<and> distinct (map ref_NodeRevisionID cs) \<and> set (map ref_NodeRevisionID cs) \<inter> set seen = {}
     \<and> [] \<notin> set (map ref_NodeRevisionID cs) \<and> may_cite allowed (map ref_NodeRevisionID cs)"
proof (induction A kr allowed seen cs arbitrary: out rule: canonical_loop.induct)
  case (1 A kr allowed seen)
  then show ?case by (auto simp: may_cite_def split: option.split)
next
  case (2 A kr allowed seen c cs)
  show ?case
  proof (cases "ref_NodeRevisionID c = [] \<or> ref_NodeRevisionID c \<in> set seen
         \<or> (case allowed of None \<Rightarrow> False | Some ns \<Rightarrow> \<not> containsString ns (ref_NodeRevisionID c))")
    case True
    then show ?thesis by (auto simp: may_cite_def containsString_def split: option.splits)
  next
    case False
    note f = this
    show ?thesis
    proof (cases "au_resolve A kr (ref_NodeRevisionID c)")
      case (Inl e)
      then show ?thesis using f by (cases out) auto
    next
      case (Inr r)
      note res = this
      show ?thesis
      proof (cases "reference_agrees c r")
        case True
        then have "\<not> (ref_SliceSHA256 c \<noteq> [] \<and> (ref_SliceSHA256 c \<noteq> ref_SliceSHA256 r \<or> ref_Range c \<noteq> ref_Range r))"
          by (auto simp: reference_agrees_def)
        note IH = "2.IH" [OF f res this]
        from True f res IH show ?thesis
          by (cases out) (auto simp: reference_agrees_def may_cite_def containsString_def split: option.splits)
      next
        case False
        then show ?thesis using f res by (cases out) (auto simp: reference_agrees_def)
      qed
    qed
  qed
qed

text \<open>
  Canonical references, exactly. \<open>canonicalReferences\<close> accepts a model's references iff each names
  a node once, none is empty, every one is among the allowed nodes, the knowledge base resolves it, and
  a hash or a range the model gave agrees with the resolved one; the answer is the list of the
  resolved references, in the same order.
\<close>

theorem canonicalReferences_spec:
  "canonicalReferences A kr cs allowed = Inr out \<longleftrightarrow>
     list_all2 (\<lambda>c r. au_resolve A kr (ref_NodeRevisionID c) = Inr r \<and> reference_agrees c r) cs out
     \<and> distinct (map ref_NodeRevisionID cs) \<and> [] \<notin> set (map ref_NodeRevisionID cs)
     \<and> may_cite allowed (map ref_NodeRevisionID cs)"
  by (auto simp: canonicalReferences_def canonical_loop_iff)

text \<open>A resolver answers with a reference to the node it was asked for.\<close>

definition resolver_names_node :: "authority \<Rightarrow> bool" where
  "resolver_names_node A \<longleftrightarrow> (\<forall>kr n r. au_resolve A kr n = Inr r \<longrightarrow> ref_NodeRevisionID r = n)"

lemma canonical_references_again:
  assumes "resolver_names_node A" "canonicalReferences A kr cs allowed = Inr out"
  shows "canonicalReferences A kr out allowed = Inr out"
proof -
  have l: "list_all2 (\<lambda>c r. au_resolve A kr (ref_NodeRevisionID c) = Inr r \<and> reference_agrees c r) cs out"
    and rest: "distinct (map ref_NodeRevisionID cs)" "[] \<notin> set (map ref_NodeRevisionID cs)"
      "may_cite allowed (map ref_NodeRevisionID cs)"
    using assms(2) by (simp_all add: canonicalReferences_def canonical_loop_iff)
  from l have "list_all2 (\<lambda>c r. ref_NodeRevisionID r = ref_NodeRevisionID c \<and> au_resolve A kr (ref_NodeRevisionID r) = Inr r) cs out"
    by (rule list_all2_mono) (use assms(1) in \<open>auto simp: resolver_names_node_def\<close>)
  then have "map ref_NodeRevisionID out = map ref_NodeRevisionID cs
      \<and> list_all2 (\<lambda>c r. au_resolve A kr (ref_NodeRevisionID c) = Inr r \<and> reference_agrees c r) out out"
    by (induction rule: list_all2_induct) (auto simp: reference_agrees_def)
  with rest show ?thesis by (simp add: canonicalReferences_def canonical_loop_iff)
qed

lemma canonical_nonempty:
  assumes "canonicalReferences A kr cs allowed = Inr out" shows "out = [] \<longleftrightarrow> cs = []"
  using assms by (auto simp: canonicalReferences_def canonical_loop_iff)

lemma validateActivityProposal_again:
  assumes "resolver_names_node A" "validateActivityProposal A r v = Inr v'"
  shows "validateActivityProposal A r v' = Inr v'"
proof -
  from assms(2) obtain refs where
    c: "canonicalReferences A (preq_KnowledgeRevisionID r) (ap_References v) (Some (preq_NodeRevisionIDs r)) = Inr refs"
    and v': "v' = v\<lparr>ap_References := refs\<rparr>" and n: "ap_References v \<noteq> []"
    by (auto simp: validateActivityProposal_def split: if_splits)
  have c': "canonicalReferences A (preq_KnowledgeRevisionID r) refs (Some (preq_NodeRevisionIDs r)) = Inr refs"
    by (rule canonical_references_again [OF assms(1) c])
  have n': "refs \<noteq> []" using canonical_nonempty [OF c] n by simp
  from assms(2) show ?thesis
    by (auto simp add: validateActivityProposal_def v' c c' n n' split: if_splits)
qed

lemma route_steps_error_utf8:
  assumes "\<forall>st \<in> set sts. valid_utf8 (rps_TeachingIntent st) \<and> valid_utf8 (rps_CompletionCondition st)"
  shows "route_steps_error A True r seen sts = route_steps_error A False r seen sts"
  using assms by (induction sts arbitrary: seen) (auto split: sum.splits)

text \<open>The decoder of the host language yields UTF-8 texts only.\<close>

definition decodes_utf8 :: "proposal_codec \<Rightarrow> bool" where
  "decodes_utf8 J \<longleftrightarrow> (\<forall>raw route st. pc_route J raw = Inr route \<longrightarrow> st \<in> set route \<longrightarrow>
     valid_utf8 (rps_TeachingIntent st) \<and> valid_utf8 (rps_CompletionCondition st))"

lemma decodeProposal_header:
  assumes "decodeProposal L J A S ids now r inputHash raw categories = Inr p"
  shows "prop_SchemaVersion p = ProposalSchemaVersion" "prop_InputHash p = inputHash" "prop_FrozenRequest p = r"
    "prop_Type p = preq_Type r" "proposal_context_matches p r" "prop_AttemptCategories p = categories"
    "prop_ID p = fst ids"
proof -
  obtain a b c d where "p = (new_artifact S (fst ids) r inputHash categories now)
      \<lparr>prop_Route := a, prop_Activity := b, prop_Assessment := c, prop_Text := d\<rparr>"
  proof (cases "preq_Type r")
    case ProposalRoute
    with assms that show thesis by (fastforce simp: decodeProposal_def Let_def new_artifact_def split: sum.splits)
  next
    case ProposalActivity
    with assms that show thesis by (fastforce simp: decodeProposal_def Let_def new_artifact_def split: sum.splits)
  next
    case ProposalAssessment
    with assms that show thesis
      by (fastforce simp: decodeProposal_def Let_def new_artifact_def split: sum.splits option.splits if_splits)
  next
    case ProposalFreeAnswer
    with assms that show thesis
      by (fastforce simp: decodeProposal_def Let_def new_artifact_def split: sum.splits if_splits)
  next
    case ProposalExplanation
    with assms that show thesis
      by (fastforce simp: decodeProposal_def Let_def new_artifact_def split: sum.splits if_splits)
  next
    case (ProposalOther t)
    with assms that show thesis by (fastforce simp: decodeProposal_def Let_def new_artifact_def)
  qed
  then show "prop_SchemaVersion p = ProposalSchemaVersion" "prop_InputHash p = inputHash" "prop_FrozenRequest p = r"
    "prop_Type p = preq_Type r" "proposal_context_matches p r" "prop_AttemptCategories p = categories"
    "prop_ID p = fst ids"
    by (simp_all add: new_artifact_def proposal_context_matches_def)
qed

text \<open>A store hands out the activity and the attempt it was asked for.\<close>

definition loads_by_id :: "authority \<Rightarrow> bool" where
  "loads_by_id A \<longleftrightarrow> (\<forall>i a. au_activity A i = Inr a \<longrightarrow> act_ID a = i) \<and> (\<forall>i a. au_attempt A i = Inr a \<longrightarrow> att_ID a = i)"

lemma decodeProposal_content:
  assumes d: "decodeProposal L J A S ids now r inputHash raw categories = Inr p"
    and law: "resolver_names_node A" "decodes_utf8 J" "loads_by_id A"
  shows "apply_content_error L J A p (preq_Type r) = None"
proof (cases "preq_Type r")
  case ProposalRoute
  with d obtain route where route: "pc_route J raw = Inr route" "route_error A False r route = None" "prop_Route p = route"
    by (auto simp: decodeProposal_def Let_def split: sum.splits)
  have "route_error A True r route = route_error A False r route"
    using law(2) route(1) route_steps_error_utf8 [of route A r "[]"]
    unfolding route_error_def decodes_utf8_def by auto
  with route show ?thesis by (simp add: apply_content_error_def ProposalRoute decodeProposal_header(3) [OF d])
next
  case ProposalActivity
  with d obtain a a' where a: "validateActivityProposal A r a = Inr a'" "prop_Activity p = Some a'"
    by (auto simp: decodeProposal_def Let_def split: sum.splits)
  from validateActivityProposal_again [OF law(1) a(1)] a(2) show ?thesis
    by (simp add: apply_content_error_def ProposalActivity decodeProposal_header(3) [OF d])
next
  case ProposalAssessment
  with d obtain act att a ev where "au_activity A (preq_ActivityID r) = Inr act" "au_attempt A (preq_AttemptID r) = Inr att"
    "EvaluateAssessment L act att a = Inr ev" "prop_Assessment p = Some a"
    and ids: "art_ActivityID a = act_ID act" "art_AttemptID a = att_ID att" "art_ProposalInputHash a = prop_InputHash p"
    by (auto simp: decodeProposal_def Let_def new_artifact_def split: sum.splits option.splits if_splits)
  moreover have "art_ActivityID a = preq_ActivityID r" "art_AttemptID a = preq_AttemptID r"
    using ids law(3) \<open>au_activity A (preq_ActivityID r) = Inr act\<close> \<open>au_attempt A (preq_AttemptID r) = Inr att\<close>
    by (auto simp: loads_by_id_def)
  ultimately show ?thesis
    by (simp add: apply_content_error_def ProposalAssessment decodeProposal_header(3) [OF d])
next
  case ProposalFreeAnswer
  with d obtain t refs where t: "\<not> text_invalid t" "prop_Text p = Some (t\<lparr>tp_References := refs\<rparr>)"
    and c: "canonicalReferences A (preq_KnowledgeRevisionID r) (tp_References t) (Some (preq_NodeRevisionIDs r)) = Inr refs"
    by (auto simp: decodeProposal_def Let_def split: sum.splits if_splits)
  then show ?thesis using canonical_references_again [OF law(1) c] canonical_nonempty [OF c]
    by (simp add: apply_content_error_def ProposalFreeAnswer decodeProposal_header(3) [OF d] text_invalid_def)
next
  case ProposalExplanation
  with d obtain t refs where t: "\<not> text_invalid t" "prop_Text p = Some (t\<lparr>tp_References := refs\<rparr>)"
    and c: "canonicalReferences A (preq_KnowledgeRevisionID r) (tp_References t) (Some (preq_NodeRevisionIDs r)) = Inr refs"
    by (auto simp: decodeProposal_def Let_def split: sum.splits if_splits)
  then show ?thesis using canonical_references_again [OF law(1) c] canonical_nonempty [OF c]
    by (simp add: apply_content_error_def ProposalExplanation decodeProposal_header(3) [OF d] text_invalid_def)
next
  case (ProposalOther t)
  then show ?thesis by (simp add: apply_content_error_def)
qed

lemma produced_applies:
  assumes "validateProposalRequest L request = None" "preq_RequestID request \<noteq> []"
    and "preq_AggregateType request = ''session''" "freezeProposalRequest A request = Inr r"
    and "pc_hash_request J r = Inr inputHash"
    and "decodeProposal L J A S ids now r inputHash raw categories = Inr p"
    and "au_session A (preq_AggregateID request) = Inr auth"
    and "resolver_names_node A" "decodes_utf8 J" "loads_by_id A"
  shows "validateProposalForApply L J A p (preq_Type request) (sa_Session auth) = None"
proof -
  have same: "same_request request r" by (rule freezeProposalRequest_same [OF assms(4)])
  have "freeze_session_request A request = Inr r" using assms(3,4) by (auto simp: freezeProposalRequest_def)
  then have carries: "carries_session r (sa_Session auth)"
    using assms(7) by (auto elim: freeze_session_request_cases)
  note again = freeze_again [OF assms(4)]
  show ?thesis
    using same carries again assms(1,2,5) decodeProposal_header [OF assms(6)]
      decodeProposal_content [OF assms(6) assms(8-10)] validateProposalRequest_same [OF same, of L]
    by (simp add: validateProposalForApply_def same_request_def carries_session_def Let_def)
qed

text \<open>
  C36: What the service produces, a command accepts. A proposal decoded from the model's answer to a frozen
  session request passes \<open>validateProposalForApply\<close> for that session as long as the store and the
  knowledge base still answer the same: the schema, the hash of the frozen request, the context and the
  whole content check a second time. The hypotheses on the collaborators: a resolver names the node
  it was asked for, loads are by id, and decoded texts are UTF-8.
\<close>

theorem produced_proposal_applies:
  assumes "validateProposalRequest L request = None" "preq_RequestID request \<noteq> []"
    and "preq_AggregateType request = ''session''" "freezeProposalRequest A request = Inr r"
    and "pc_hash_request J r = Inr inputHash"
    and "decodeProposal L J A S ids now r inputHash raw categories = Inr p"
    and "au_session A (preq_AggregateID request) = Inr auth"
    and "resolver_names_node A" "decodes_utf8 J" "loads_by_id A"
  shows "validateProposalForApply L J A p (preq_Type request) (sa_Session auth) = None"
  using assms by (rule produced_applies)

text \<open>
  A proposal a command may use is current. If \<open>validateProposalForApply\<close> accepts a stored proposal
  for a session, the proposal has the type asked for, was made for this session at its present version,
  its frozen request is what freezing gives now, and that request hashes to the recorded input hash.
\<close>

theorem applied_proposal_current:
  assumes "validateProposalForApply L J A p kind s = None"
  shows "prop_Type p = kind \<and> prop_AggregateID p = sess_ID s \<and> prop_AggregateVersion p = sess_AggregateVer s
    \<and> pc_hash_request J (prop_FrozenRequest p) = Inr (prop_InputHash p)
    \<and> (\<exists>current. freezeProposalRequest A (prop_FrozenRequest p) = Inr current
         \<and> pc_hash_request J current = Inr (prop_InputHash p))
    \<and> apply_content_error L J A p kind = None"
proof -
  from assms obtain current where
    c: "freezeProposalRequest A (prop_FrozenRequest p) = Inr current" "pc_hash_request J current = Inr (prop_InputHash p)"
      "preq_AggregateID current = sess_ID s" "preq_AggregateVersion current = sess_AggregateVer s"
    and m: "proposal_context_matches p (prop_FrozenRequest p)"
    and rest: "prop_Type p = kind" "pc_hash_request J (prop_FrozenRequest p) = Inr (prop_InputHash p)"
      "apply_content_error L J A p kind = None"
    by (auto simp: validateProposalForApply_def Let_def split: if_splits option.splits sum.splits)
  with freezeProposalRequest_same [OF c(1)] show ?thesis
    by (auto simp: same_request_def proposal_context_matches_def)
qed

section \<open>Attempts and what is stored\<close>

definition retried :: "ProposalType \<Rightarrow> string \<Rightarrow> bool" where
  "retried kind c \<longleftrightarrow> retryableModelCategory c \<or> retryableProposalCategory kind c"

lemma attempts_end [simp]: "attempts_loop L J A S ids now answer r inputHash 2 0 [] [] \<noteq> None"
  by (simp add: numeral_2_eq_2 Let_def split: sum.split prod.split)

text \<open>
  At most two attempts, and the categories tell how. Whatever the model answers, the loop of
  \<open>Propose\<close> ends within its two rounds; a proposal records \<open>success\<close>, after at most one retried category; a
  failure records one category, or a retried one and then the one it failed with.
\<close>

theorem two_attempts:
  "case attempts_loop L J A S ids now answer r inputHash 2 0 [] [] of
     None \<Rightarrow> False
   | Some (Proposed p) \<Rightarrow> prop_AttemptCategories p = [''success'']
       \<or> (\<exists>c. retried (preq_Type r) c \<and> prop_AttemptCategories p = [c, ''success''])
   | Some (Failed categories category e) \<Rightarrow> categories = [category]
       \<or> (\<exists>c. retried (preq_Type r) c \<and> categories = [c, category])"
  by (auto simp: numeral_2_eq_2 Let_def retried_def dest!: decodeProposal_header(6)
      split: sum.splits prod.splits option.splits attempt_result.splits if_splits)

text \<open>
  One outcome per claimed run. If \<open>Propose\<close> answers with a proposal, it is the one the claim held ready,
  with nothing written, or the one it just completed in the repository without an error. And a call
  that got the claim writes exactly a completion or a failure, unless the hash of the frozen
  request cannot be computed.
\<close>

theorem propose_outcome:
  assumes "Propose L J A S ids now model stored claim request = (answer, written)"
  shows "(\<forall>p. answer = Inr p \<longrightarrow> (written = CompleteProposal p \<and> stored written = None)
            \<or> (written = NoWrite \<and> (\<exists>h. pc_hash_request J request = Inr h \<and> claim h = Inr (ClaimReady p))))
    \<and> (written = NoWrite \<longrightarrow> validateProposalRequest L request = None \<longrightarrow> au_session_scope A = None
         \<longrightarrow> pc_hash_request J request = Inr h \<longrightarrow> claim h = Inr ClaimRun
         \<longrightarrow> (\<exists>r e. freezeProposalRequest A request = Inr r \<and> pc_hash_request J r = Inl e))"
proof -
  have run: "(\<forall>p. answer = Inr p \<longrightarrow> written = CompleteProposal p \<and> stored written = None)
      \<and> (written = NoWrite \<longrightarrow> (\<exists>r e. freezeProposalRequest A request = Inr r \<and> pc_hash_request J r = Inl e))"
    if "propose_claimed L J A S ids now model stored request = (answer, written)"
    using that
    by (auto simp: propose_claimed_def fail_write_def Let_def
        split: sum.splits option.splits attempt_result.splits)
  show ?thesis
    using assms run
    by (auto simp: Propose_def split: sum.splits option.splits ProposalClaim.splits if_splits)
qed

section \<open>A run on a concrete session\<close>

definition example_authority :: "Session \<Rightarrow> authority" where
  "example_authority s = \<lparr>au_session = (\<lambda>_. Inr \<lparr>sa_Session = s, sa_AsOfEventSequence = 7\<rparr>), au_version = (\<lambda>_ _. Inr 1),
     au_goal = (\<lambda>_. Inr (example_goal ''active'' None)), au_route = (\<lambda>_. Inl (PlainError ''no route'')),
     au_activity = (\<lambda>i. Inr ((example_activity ActivityOpen)\<lparr>act_ID := i\<rparr>)),
     au_attempt = (\<lambda>i. Inr (example_attempt\<lparr>att_ID := i\<rparr>)),
     au_assessment = (\<lambda>_. Inl (PlainError ''no assessment'')), au_assessment_for_attempt = (\<lambda>_. Inl (PlainError ''no assessment'')),
     au_proposal = (\<lambda>_. Inl (PlainError ''no proposal'')), au_question = (\<lambda>_. Inl (PlainError ''no question'')),
     au_answer = (\<lambda>_. Inl (PlainError ''no answer'')), au_evidence = (\<lambda>_. Inr []), au_misconceptions = (\<lambda>_. Inr []),
     au_latest_question = (\<lambda>_ _. Inl (PlainError ''no question'')), au_next_route = None, au_session_knowledge = None,
     au_session_scope = None, au_resolve = (\<lambda>_ n. Inr (example_reference\<lparr>ref_NodeRevisionID := n\<rparr>))\<rparr>"

definition example_proposal_codec :: proposal_codec where
  "example_proposal_codec = \<lparr>pc_hash_request = (\<lambda>r. Inr (preq_RequestID r @ preq_TutoringState r)),
     pc_hash_activity = ap_Prompt, pc_hash_references = (\<lambda>rs. concat (map ref_NodeRevisionID rs)),
     pc_route = (\<lambda>raw. Inr [\<lparr>rps_NodeRevisionID = ''n1'', rps_TeachingIntent = ''w'', rps_CompletionCondition = ''w''\<rparr>]),
     pc_activity = (\<lambda>_. Inl (PlainError [])), pc_assessment = (\<lambda>_. Inr None), pc_text = (\<lambda>_. Inl (PlainError []))\<rparr>"

definition ready_session :: Session where
  "ready_session = (lesson_session StateGoalReady)\<lparr>sess_AggregateVer := 3,
     sess_Context := (sess_Context (lesson_session StateGoalReady))\<lparr>ctx_GoalRevisionID := ''g1''\<rparr>\<rparr>"

definition example_request :: ProposalRequest where
  "example_request = \<lparr>preq_RequestID = ''q'', preq_Type = ProposalRoute, preq_AggregateType = ''session'',
     preq_AggregateID = ''s'', preq_AggregateVersion = 3, preq_GoalRevisionID = [], preq_RouteRevisionID = [],
     preq_RouteStepID = [], preq_FocusNodeRevisionID = [], preq_ActivityID = [], preq_AttemptID = [],
     preq_FreeQuestionID = [], preq_FreeAnswerID = [], preq_FocusFrameID = [], preq_TutoringState = [],
     preq_KnowledgeRevisionID = ''k1'', preq_NodeRevisionIDs = [''n1''], preq_Input = ''{}''\<rparr>"

definition frozen_example :: ProposalRequest where
  "frozen_example = example_request\<lparr>preq_GoalRevisionID := ''g1'', preq_TutoringState := state_text StateGoalReady\<rparr>"

definition example_service :: service where
  "example_service = \<lparr>svc_modelID = ''m'', svc_modelParameters = [], svc_promptRevision = ''p''\<rparr>"

definition example_route_proposal :: ProposalArtifact where
  "example_route_proposal = (new_artifact example_service ''p1'' frozen_example
      (preq_RequestID frozen_example @ preq_TutoringState frozen_example) [''success''] 0)
     \<lparr>prop_Route := [\<lparr>rps_NodeRevisionID = ''n1'', rps_TeachingIntent = ''w'', rps_CompletionCondition = ''w''\<rparr>]\<rparr>"

lemma example_frozen: "freezeProposalRequest (example_authority ready_session) example_request = Inr frozen_example"
  by (simp add: freezeProposalRequest_def freeze_session_request_def freeze_free_answer_def check_attached_quiz_def
      attached_quiz_proposal_def validateProposalState_def proposal_state_valid_def validateFrozenRequestShape_def
      validateFrozenSessionContext_def freeze_context_def check_goal_scope_def freezeField_def Let_def
      example_authority_def ready_session_def lesson_defs example_request_def frozen_example_def example_goal_def
      management_of_def default_management_def empty_details_def empty_context_def)

lemma example_decoded:
  "decodeProposal example_lib example_proposal_codec (example_authority ready_session) example_service (''p1'', ''a1'') 0
     frozen_example (preq_RequestID frozen_example @ preq_TutoringState frozen_example) ''{}'' [''success'']
     = Inr example_route_proposal"
  by (simp add: decodeProposal_def example_route_proposal_def frozen_example_def example_request_def
      example_proposal_codec_def route_error_def containsString_def example_authority_def rune_count_def
      new_artifact_def Let_def)

lemma utf8_w [simp]: "valid_utf8 ''w''"
  by code_simp

lemma example_laws:
  "resolver_names_node (example_authority s)" "loads_by_id (example_authority s)" "decodes_utf8 example_proposal_codec"
  by (simp_all add: resolver_names_node_def loads_by_id_def decodes_utf8_def example_authority_def example_proposal_codec_def)

lemma example_valid_request: "validateProposalRequest example_lib example_request = None"
  by (simp add: validateProposalRequest_def example_lib_def example_request_def known_proposal_type_def MaxAnswerBytes_def)

theorem freezeProposalRequest_idempotent_witness:
  "freezeProposalRequest (example_authority ready_session) frozen_example = Inr frozen_example"
  by (rule freezeProposalRequest_idempotent [OF example_frozen])

theorem produced_proposal_applies_witness:
  "validateProposalForApply example_lib example_proposal_codec (example_authority ready_session) example_route_proposal
     ProposalRoute ready_session = None"
  using produced_proposal_applies [OF example_valid_request _ _ example_frozen _ example_decoded,
      of "\<lparr>sa_Session = ready_session, sa_AsOfEventSequence = 7\<rparr>"] example_laws
  by (simp add: example_request_def example_proposal_codec_def example_authority_def)

theorem applied_proposal_current_witness:
  "prop_AggregateVersion example_route_proposal = 3 \<and> prop_AggregateID example_route_proposal = ''s''"
proof -
  have "validateProposalForApply example_lib example_proposal_codec (example_authority ready_session) example_route_proposal
     ProposalRoute ready_session = None"
    using produced_applies [OF example_valid_request _ _ example_frozen _ example_decoded,
        of "\<lparr>sa_Session = ready_session, sa_AsOfEventSequence = 7\<rparr>"] example_laws
    by (simp add: example_request_def example_proposal_codec_def example_authority_def)
  from applied_proposal_current [OF this] show ?thesis by (simp add: ready_session_def lesson_defs)
qed

lemma example_request_session:
  "preq_AggregateType example_request = ''session''" "preq_AggregateID example_request = ''s''"
  "au_session_scope (example_authority s) = None"
  by (simp_all add: example_request_def example_authority_def)

lemma example_hash: "pc_hash_request example_proposal_codec r = Inr (preq_RequestID r @ preq_TutoringState r)"
  by (simp add: example_proposal_codec_def)

lemma example_claimed:
  "propose_claimed example_lib example_proposal_codec (example_authority ready_session) example_service
     (\<lambda>_. (''p1'', ''a1'')) 0 (Some (\<lambda>_ _. Inr ''{}'')) (\<lambda>_. None) example_request
     = (Inr example_route_proposal, CompleteProposal example_route_proposal)"
  by (simp add: propose_claimed_def example_frozen example_hash numeral_2_eq_2 example_decoded)

theorem propose_outcome_witness:
  "\<exists>answer written. Propose example_lib example_proposal_codec (example_authority ready_session) example_service
     (\<lambda>_. (''p1'', ''a1'')) 0 (Some (\<lambda>_ _. Inr ''{}'')) (\<lambda>_. None) (\<lambda>_. Inr ClaimRun) example_request = (answer, written)
     \<and> answer = Inr example_route_proposal \<and> written = CompleteProposal example_route_proposal"
proof -
  obtain answer written where run: "Propose example_lib example_proposal_codec (example_authority ready_session) example_service
     (\<lambda>_. (''p1'', ''a1'')) 0 (Some (\<lambda>_ _. Inr ''{}'')) (\<lambda>_. None) (\<lambda>_. Inr ClaimRun) example_request = (answer, written)"
    by fastforce
  have "answer = Inr example_route_proposal"
    using run
    by (simp add: Propose_def example_valid_request example_claimed example_request_session example_hash)
  with propose_outcome [OF run, of "[]"] run show ?thesis by auto
qed

end
