(* ===== verification/Event_Drafts.thy ===== *)
theory Event_Drafts
  imports Projection Proposal
begin

text \<open>
  The events a command writes, \<open>transitionDrafts\<close> of \<open>server/internal/learning/command.go\<close>: the events
  named by an accepted transition, each with its payload or a snapshot of the session, and the
  supplementary payloads of the command placed before the last change of state.

  The queues of payloads are association lists from event types to bytes. A queue is emptied by a
  loop that pops only for types that are not session snapshots, so the code does not return when a
  snapshot type has a payload; the loop is a \<open>partial_function\<close>, and not returning is \<open>None\<close>.

  The lemmas: what draining a queue gives, when \<open>transitionDrafts\<close> returns, that every payload
  is written exactly once and in order, and that the last event with a snapshot carries the state after.
\<close>

section \<open>Drafts and their payloads\<close>

record EventDraft =
  ed_Type :: EventType
  ed_AggregateType :: string
  ed_AggregateID :: string
  ed_Payload :: string
  ed_ParentSessionID :: string
  ed_Source :: string
  ed_ArchiveDisposition :: string
  ed_EvidenceDisposition :: string
  ed_GoalRevisionID :: string
  ed_RouteRevisionID :: string
  ed_KnowledgeRevisionID :: string
  ed_ActivityID :: string
  ed_ActivityRevision :: int

text \<open>\<open>mustJSON\<close> on each type it is applied to, and \<open>HashJSON\<close> on the commands.\<close>

record command_codec =
  js_goal :: "GoalRevision \<Rightarrow> string"
  js_route :: "RouteRevision \<Rightarrow> string"
  js_activity :: "Activity \<Rightarrow> string"
  js_attempt :: "Attempt \<Rightarrow> string"
  js_exposure :: "Exposure \<Rightarrow> string"
  js_artifact :: "AssessmentArtifact \<Rightarrow> string"
  js_decision :: "AssessmentDecision \<Rightarrow> string"
  js_assessment_event :: "AssessmentProjectionEvent \<Rightarrow> string"
  js_evidence :: "AcceptedEvidence \<Rightarrow> string"
  js_evidence_id :: "string \<Rightarrow> string"
  js_misconception :: "MisconceptionHypothesis \<Rightarrow> string"
  js_question :: "FreeQuestion \<Rightarrow> string"
  js_answer :: "FreeAnswer \<Rightarrow> string"
  js_session :: "SessionProjection \<Rightarrow> string"

fun event_text :: "EventType \<Rightarrow> string" where
  "event_text EventGoalRevisionCreated = ''GoalRevisionCreated''"
| "event_text EventRouteRevisionCreated = ''RouteRevisionCreated''"
| "event_text EventLearningSessionStarted = ''LearningSessionStarted''"
| "event_text EventTutoringStateChanged = ''TutoringStateChanged''"
| "event_text EventActivityIssued = ''ActivityIssued''"
| "event_text EventActivityPresented = ''ActivityPresented''"
| "event_text EventAttemptSubmitted = ''AttemptSubmitted''"
| "event_text EventAssessmentRecorded = ''AssessmentRecorded''"
| "event_text EventAssessmentMarkedProvisional = ''AssessmentMarkedProvisional''"
| "event_text EventAssessmentAccepted = ''AssessmentAccepted''"
| "event_text EventAssessmentOverridden = ''AssessmentOverridden''"
| "event_text EventAssessmentVoided = ''AssessmentVoided''"
| "event_text EventEvidenceAccepted = ''EvidenceAccepted''"
| "event_text EventEvidenceInvalidated = ''EvidenceInvalidated''"
| "event_text EventExposureRecorded = ''ExposureRecorded''"
| "event_text EventReviewPresented = ''ReviewPresented''"
| "event_text EventFocusSuspended = ''FocusSuspended''"
| "event_text EventFreeQuestionAsked = ''FreeQuestionAsked''"
| "event_text EventFreeAnswerRecorded = ''FreeAnswerRecorded''"
| "event_text EventFocusResumed = ''FocusResumed''"
| "event_text EventRouteAdvanced = ''RouteAdvanced''"
| "event_text EventLearningCompleted = ''LearningCompleted''"
| "event_text EventMisconceptionHypothesisRevised = ''MisconceptionHypothesisRevised''"
| "event_text EventOfflineActivityMaterialized = ''OfflineActivityMaterialized''"
| "event_text EventOfflineAttemptSubmitted = ''OfflineAttemptSubmitted''"
| "event_text EventOfflineActivitySkipped = ''OfflineActivitySkipped''"
| "event_text EventOfflineAssessmentQueued = ''OfflineAssessmentQueued''"
| "event_text EventOfflineOperationRejected = ''OfflineOperationRejected''"
| "event_text EventEvidenceCarryoverApproved = ''EvidenceCarryoverApproved''"
| "event_text EventEvidenceCarryoverRejected = ''EvidenceCarryoverRejected''"
| "event_text EventEvidenceCarryoverStaled = ''EvidenceCarryoverStaled''"
| "event_text EventRedacted = ''EventRedacted''"
| "event_text EventActivityEnded = ''ActivityEnded''"
| "event_text (EventUnknown t) = t"

definition supplementalEventOrder :: "EventType list" where
  "supplementalEventOrder =
     [EventGoalRevisionCreated, EventRouteRevisionCreated, EventLearningSessionStarted,
      EventActivityIssued, EventReviewPresented, EventActivityPresented, EventAttemptSubmitted,
      EventAssessmentRecorded, EventAssessmentMarkedProvisional, EventAssessmentAccepted,
      EventAssessmentOverridden, EventAssessmentVoided, EventEvidenceInvalidated,
      EventEvidenceAccepted, EventExposureRecorded, EventFocusSuspended, EventFreeQuestionAsked,
      EventFreeAnswerRecorded, EventFocusResumed, EventRouteAdvanced, EventLearningCompleted,
      EventMisconceptionHypothesisRevised, EventRedacted, EventTutoringStateChanged]"

fun sessionSnapshotEvent :: "EventType \<Rightarrow> bool" where
  "sessionSnapshotEvent EventLearningSessionStarted = True"
| "sessionSnapshotEvent EventTutoringStateChanged = True"
| "sessionSnapshotEvent EventFocusSuspended = True"
| "sessionSnapshotEvent EventFocusResumed = True"
| "sessionSnapshotEvent EventRouteAdvanced = True"
| "sessionSnapshotEvent EventLearningCompleted = True"
| "sessionSnapshotEvent _ = False"

definition draft :: "EventType \<Rightarrow> string \<Rightarrow> string \<Rightarrow> string \<Rightarrow> EventDraft" where
  "draft kind aggregateType aggregateID payload =
     \<lparr>ed_Type = kind, ed_AggregateType = aggregateType, ed_AggregateID = aggregateID, ed_Payload = payload,
      ed_ParentSessionID = [], ed_Source = [], ed_ArchiveDisposition = [], ed_EvidenceDisposition = [], ed_GoalRevisionID = [],
      ed_RouteRevisionID = [], ed_KnowledgeRevisionID = [], ed_ActivityID = [], ed_ActivityRevision = 0\<rparr>"

type_synonym queues = "(EventType, string list) gomap"

definition queued :: "queues \<Rightarrow> EventType \<Rightarrow> string list" where
  "queued q kind = (case map_of q kind of None \<Rightarrow> [] | Some vs \<Rightarrow> vs)"

definition snapshot :: "command_codec \<Rightarrow> string \<Rightarrow> Session \<Rightarrow> State \<Rightarrow> string" where
  "snapshot C sessionID s state =
     js_session C \<lparr>sp_Session = s\<lparr>sess_ID := sessionID, sess_State := state\<rparr>, sp_UpdatedEventSequence = 0\<rparr>"

section \<open>The drafts of a transition\<close>

definition appendEvent ::
  "command_codec \<Rightarrow> string \<Rightarrow> Session \<Rightarrow> EventType \<Rightarrow> State \<Rightarrow> queues \<Rightarrow> EventDraft \<times> queues" where
  "appendEvent C sessionID s kind state q =
     (if sessionSnapshotEvent kind then (draft kind ''session'' sessionID (snapshot C sessionID s state), q)
      else case queued q kind of
          v # vs \<Rightarrow> (draft kind ''session'' sessionID v, AList.update kind vs q)
        | [] \<Rightarrow> (draft kind ''session'' sessionID (snapshot C sessionID s state), q))"

text \<open>\<open>for len(queues[kind]) > 0 { appendEvent(kind, transition.After) }\<close>\<close>

partial_function (option) drain ::
  "command_codec \<Rightarrow> string \<Rightarrow> Session \<Rightarrow> State \<Rightarrow> EventType \<Rightarrow> queues \<Rightarrow> (EventDraft list \<times> queues) option" where
  "drain C sessionID s after kind q =
     (if queued q kind = [] then Some ([], q)
      else Option.bind (drain C sessionID s after kind (snd (appendEvent C sessionID s kind after q)))
             (\<lambda>(ds, q'). Some (fst (appendEvent C sessionID s kind after q) # ds, q')))"

declare drain.simps [code]

fun drain_kinds ::
  "command_codec \<Rightarrow> string \<Rightarrow> Session \<Rightarrow> State \<Rightarrow> EventType list \<Rightarrow> queues \<Rightarrow> (EventDraft list \<times> queues) option" where
  "drain_kinds C sessionID s after [] q = Some ([], q)"
| "drain_kinds C sessionID s after (k # ks) q =
     Option.bind (drain C sessionID s after k q) (\<lambda>(ds, q).
       Option.bind (drain_kinds C sessionID s after ks q) (\<lambda>(ds', q'). Some (ds @ ds', q')))"

text \<open>The types with payloads left after the ordered ones, sorted by name.\<close>

definition unknown_kinds :: "queues \<Rightarrow> EventType list" where
  "unknown_kinds q = go_sort (\<lambda>a b. event_text a < event_text b)
     (filter (\<lambda>k. queued q k \<noteq> []) (remdups (map fst q)))"

definition appendRemaining ::
  "command_codec \<Rightarrow> string \<Rightarrow> Session \<Rightarrow> State \<Rightarrow> queues \<Rightarrow> (EventDraft list \<times> queues) option" where
  "appendRemaining C sessionID s after q =
     Option.bind (drain_kinds C sessionID s after supplementalEventOrder q) (\<lambda>(ds, q).
       Option.bind (drain_kinds C sessionID s after (unknown_kinds q) q) (\<lambda>(ds', q'). Some (ds @ ds', q')))"

text \<open>The state recorded with the next event, and the states left for later changes of state.\<close>

definition event_state :: "Transition \<Rightarrow> EventType \<Rightarrow> State list \<Rightarrow> State \<times> State list" where
  "event_state tr kind states =
     (case kind of
        EventTutoringStateChanged \<Rightarrow> (case states of st # sts \<Rightarrow> (st, sts) | [] \<Rightarrow> (tr_After tr, []))
      | EventFocusSuspended \<Rightarrow> (StateFocusSuspended, states)
      | EventFocusResumed \<Rightarrow> (StateFocusResumed, states)
      | EventRouteAdvanced \<Rightarrow>
          (if tr_Intermediate tr \<noteq> [] then last (tr_Intermediate tr) else tr_After tr, states)
      | EventLearningCompleted \<Rightarrow> (StateCompleted, states)
      | _ \<Rightarrow> (tr_After tr, states))"

text \<open>The remaining payloads come before the last change of state: the one no other follows.\<close>

fun draft_loop ::
  "command_codec \<Rightarrow> string \<Rightarrow> Transition \<Rightarrow> EventType list \<Rightarrow> State list \<Rightarrow> queues \<Rightarrow> (EventDraft list \<times> queues) option" where
  "draft_loop C sessionID tr [] states q = Some ([], q)"
| "draft_loop C sessionID tr (kind # kinds) states q =
     Option.bind
       (if kind = EventTutoringStateChanged \<and> EventTutoringStateChanged \<notin> set kinds
        then appendRemaining C sessionID (tr_Session tr) (tr_After tr) q else Some ([], q)) (\<lambda>(before, q).
     let (state, states) = event_state tr kind states;
         (d, q) = appendEvent C sessionID (tr_Session tr) kind state q
     in Option.bind (draft_loop C sessionID tr kinds states q) (\<lambda>(ds, q'). Some (before @ d # ds, q')))"

definition state_sequence :: "Transition \<Rightarrow> State list" where
  "state_sequence tr =
     (let changes = length (filter (\<lambda>k. k = EventTutoringStateChanged) (tr_Events tr))
      in if changes = length (tr_Intermediate tr) + 1 then tr_Intermediate tr @ [tr_After tr]
         else replicate changes (tr_After tr))"

definition transitionDrafts ::
  "command_codec \<Rightarrow> string \<Rightarrow> Transition \<Rightarrow> queues \<Rightarrow> EventDraft list option" where
  "transitionDrafts C sessionID tr payloads =
     Option.bind (draft_loop C sessionID tr (tr_Events tr) (state_sequence tr) payloads) (\<lambda>(ds, q).
     Option.bind (appendRemaining C sessionID (tr_Session tr) (tr_After tr) q) (\<lambda>(rest, _).
       Some (ds @ rest)))"

section \<open>Draining the queues\<close>

lemma queued_update [simp]: "queued (AList.update k vs q) k' = (if k' = k then vs else queued q k')"
  by (simp add: queued_def update_conv')

lemma appendEvent_payload:
  "\<not> sessionSnapshotEvent k \<Longrightarrow> queued q k = v # vs \<Longrightarrow>
     appendEvent C sessionID s k state q = (draft k ''session'' sessionID v, AList.update k vs q)"
  by (simp add: appendEvent_def)

lemma appendEvent_snapshot:
  "sessionSnapshotEvent k \<or> queued q k = [] \<Longrightarrow>
     appendEvent C sessionID s k state q = (draft k ''session'' sessionID (snapshot C sessionID s state), q)"
  by (auto simp: appendEvent_def)

lemma drain_stuck:
  assumes "sessionSnapshotEvent k" "queued q k \<noteq> []"
  shows "drain C sessionID s after k q = None"
proof (cases "drain C sessionID s after k q")
  case (Some r)
  have "drain C sessionID s after k q = Option.bind (drain C sessionID s after k q)
      (\<lambda>(ds, q'). Some (draft k ''session'' sessionID (snapshot C sessionID s after) # ds, q'))"
    using assms by (subst drain.simps) (simp add: appendEvent_snapshot)
  with Some show ?thesis by (cases r) simp
qed

lemma drain_queue:
  assumes "\<not> sessionSnapshotEvent k"
  shows "\<exists>q'. drain C sessionID s after k q = Some (map (draft k ''session'' sessionID) (queued q k), q')
    \<and> queued q' = (queued q)(k := [])"
proof (induction "queued q k" arbitrary: q)
  case Nil
  then show ?case by (subst drain.simps) (auto simp: fun_eq_iff)
next
  case (Cons v vs)
  then have q: "queued q k = v # vs" by simp
  obtain q' where
    "drain C sessionID s after k (AList.update k vs q) = Some (map (draft k ''session'' sessionID) vs, q')"
    "queued q' = (queued q)(k := [])"
    using Cons.hyps(1) [of "AList.update k vs q"] by (auto simp: fun_eq_iff)
  then show ?case
    by (subst drain.simps) (simp add: q appendEvent_payload [OF assms q])
qed

definition no_snapshot_payload :: "queues \<Rightarrow> bool" where
  "no_snapshot_payload q \<longleftrightarrow> (\<forall>k. sessionSnapshotEvent k \<longrightarrow> queued q k = [])"

definition payloads_of :: "EventType \<Rightarrow> EventDraft list \<Rightarrow> string list" where
  "payloads_of k ds = map ed_Payload (filter (\<lambda>d. ed_Type d = k) ds)"

lemma payloads_of_simps [simp]:
  "payloads_of k [] = []"
  "payloads_of k (d # ds) = (if ed_Type d = k then ed_Payload d # payloads_of k ds else payloads_of k ds)"
  "payloads_of k (ds @ ds') = payloads_of k ds @ payloads_of k ds'"
  "payloads_of k (map (draft k' a i) vs) = (if k' = k then vs else [])"
  by (auto simp: payloads_of_def draft_def comp_def)

lemma drain_kinds_stuck:
  assumes "k \<in> set ks" "sessionSnapshotEvent k" "queued q k \<noteq> []"
  shows "drain_kinds C sessionID s after ks q = None"
  using assms
proof (induction ks arbitrary: q)
  case (Cons k' ks)
  show ?case
  proof (cases "sessionSnapshotEvent k' \<and> queued q k' \<noteq> []")
    case True
    then show ?thesis by (simp add: drain_stuck)
  next
    case False
    then have kk: "k' \<noteq> k" using Cons.prems by auto
    show ?thesis
    proof (cases "sessionSnapshotEvent k'")
      case True
      with False have "drain C sessionID s after k' q = Some ([], q)" by (subst drain.simps) simp
      then show ?thesis using Cons kk by simp
    next
      case False
      obtain q' where "drain C sessionID s after k' q = Some (map (draft k' ''session'' sessionID) (queued q k'), q')"
        "queued q' = (queued q)(k' := [])" using drain_queue [OF False] by blast
      then show ?thesis using Cons kk by simp
    qed
  qed
qed simp

lemma drain_kinds_queue:
  assumes "no_snapshot_payload q"
  shows "\<exists>ds q'. drain_kinds C sessionID s after ks q = Some (ds, q')
    \<and> queued q' = (\<lambda>k. if k \<in> set ks then [] else queued q k)
    \<and> (\<forall>k. payloads_of k ds = (if k \<in> set ks then queued q k else []))
    \<and> (\<forall>d \<in> set ds. \<not> sessionSnapshotEvent (ed_Type d))"
  using assms
proof (induction ks arbitrary: q)
  case Nil
  then show ?case by simp
next
  case (Cons k ks)
  show ?case
  proof (cases "sessionSnapshotEvent k")
    case True
    with Cons.prems have e: "queued q k = []" by (simp add: no_snapshot_payload_def)
    then have "drain C sessionID s after k q = Some ([], q)" by (subst drain.simps) simp
    then show ?thesis using Cons.IH [OF Cons.prems] e by (auto simp: fun_eq_iff)
  next
    case False
    obtain q' where d: "drain C sessionID s after k q = Some (map (draft k ''session'' sessionID) (queued q k), q')"
      and q': "queued q' = (queued q)(k := [])" using drain_queue [OF False] by blast
    have "no_snapshot_payload q'" using Cons.prems by (simp add: no_snapshot_payload_def q')
    from Cons.IH [OF this] obtain ds q'' where
      "drain_kinds C sessionID s after ks q' = Some (ds, q'')"
      "queued q'' = (\<lambda>k. if k \<in> set ks then [] else queued q' k)"
      "\<forall>k. payloads_of k ds = (if k \<in> set ks then queued q' k else [])"
      "\<forall>d \<in> set ds. \<not> sessionSnapshotEvent (ed_Type d)" by blast
    then show ?thesis using d False by (auto simp: fun_eq_iff q' draft_def)
  qed
qed

lemma supplemental_snapshot: "sessionSnapshotEvent k \<Longrightarrow> k \<in> set supplementalEventOrder"
  by (cases k) (simp_all add: supplementalEventOrder_def)

lemma set_unknown_kinds: "set (unknown_kinds q) = {k. queued q k \<noteq> []}"
proof -
  have "k \<in> fst ` set q" if "queued q k \<noteq> []" for k
  proof -
    obtain vs where "map_of q k = Some vs" using \<open>queued q k \<noteq> []\<close> by (auto simp: queued_def split: option.splits)
    then show ?thesis by (force dest: map_of_SomeD)
  qed
  then show ?thesis by (auto simp: unknown_kinds_def)
qed

lemma appendRemaining_stuck:
  assumes "\<not> no_snapshot_payload q" shows "appendRemaining C sessionID s after q = None"
  using assms supplemental_snapshot drain_kinds_stuck
  by (fastforce simp: appendRemaining_def no_snapshot_payload_def)

lemma appendRemaining_drains:
  assumes "no_snapshot_payload q"
  obtains ds q' where "appendRemaining C sessionID s after q = Some (ds, q')" "queued q' = (\<lambda>k. [])"
    "\<And>k. payloads_of k ds = queued q k" "\<forall>d \<in> set ds. \<not> sessionSnapshotEvent (ed_Type d)"
proof -
  obtain ds q' where 1: "drain_kinds C sessionID s after supplementalEventOrder q = Some (ds, q')"
    "queued q' = (\<lambda>k. if k \<in> set supplementalEventOrder then [] else queued q k)"
    "\<forall>k. payloads_of k ds = (if k \<in> set supplementalEventOrder then queued q k else [])"
    "\<forall>d \<in> set ds. \<not> sessionSnapshotEvent (ed_Type d)"
    using drain_kinds_queue [OF assms] by blast
  then have "no_snapshot_payload q'" using assms by (simp add: no_snapshot_payload_def)
  then obtain ds' q'' where 2: "drain_kinds C sessionID s after (unknown_kinds q') q' = Some (ds', q'')"
    "queued q'' = (\<lambda>k. if k \<in> set (unknown_kinds q') then [] else queued q' k)"
    "\<forall>k. payloads_of k ds' = (if k \<in> set (unknown_kinds q') then queued q' k else [])"
    "\<forall>d \<in> set ds'. \<not> sessionSnapshotEvent (ed_Type d)"
    using drain_kinds_queue by blast
  show thesis
    by (rule that [of "ds @ ds'" q'']) (use 1 2 in \<open>auto simp: appendRemaining_def set_unknown_kinds fun_eq_iff\<close>)
qed

section \<open>The loop over the transition's events\<close>

lemma snapshot_payload_kept:
  assumes "appendEvent C sessionID s k state q = (d, q')"
  shows "no_snapshot_payload q' \<longleftrightarrow> no_snapshot_payload q" "ed_Type d = k"
  using assms
  by (auto simp: appendEvent_def no_snapshot_payload_def draft_def split: if_splits list.splits)

lemma draft_loop_Cons:
  "draft_loop C sessionID tr (k # ks) states q = Some (ds, q') \<longleftrightarrow>
     (\<exists>before q1 d q2 ds'.
        (if k = EventTutoringStateChanged \<and> EventTutoringStateChanged \<notin> set ks
         then appendRemaining C sessionID (tr_Session tr) (tr_After tr) q else Some ([], q)) = Some (before, q1)
        \<and> appendEvent C sessionID (tr_Session tr) k (fst (event_state tr k states)) q1 = (d, q2)
        \<and> draft_loop C sessionID tr ks (snd (event_state tr k states)) q2 = Some (ds', q')
        \<and> ds = before @ d # ds')"
proof -
  obtain st sts where e: "event_state tr k states = (st, sts)" by fastforce
  show ?thesis (is "_ \<longleftrightarrow> (\<exists>before q1 d q2 ds'. ?before = Some (before, q1) \<and> _)")
  proof (cases ?before)
    case None
    then show ?thesis unfolding draft_loop.simps by simp
  next
    case (Some p)
    obtain before q1 where p: "p = (before, q1)" by fastforce
    obtain d q2 where a: "appendEvent C sessionID (tr_Session tr) k st q1 = (d, q2)" by fastforce
    show ?thesis
      unfolding draft_loop.simps Some p e
      by (auto simp: a Option.bind_eq_Some_conv)
  qed
qed

lemma draft_loop_returns:
  assumes "no_snapshot_payload q"
  shows "\<exists>ds q'. draft_loop C sessionID tr kinds states q = Some (ds, q') \<and> no_snapshot_payload q'"
  using assms
proof (induction kinds arbitrary: states q)
  case Nil
  then show ?case by simp
next
  case (Cons k ks)
  obtain before q1 where b: "(if k = EventTutoringStateChanged \<and> EventTutoringStateChanged \<notin> set ks
      then appendRemaining C sessionID (tr_Session tr) (tr_After tr) q else Some ([], q)) = Some (before, q1)"
    and q1: "no_snapshot_payload q1"
    using appendRemaining_drains [OF Cons.prems, of C sessionID "tr_Session tr" "tr_After tr"] Cons.prems
    by (metis no_snapshot_payload_def)
  obtain st sts where e: "event_state tr k states = (st, sts)" by fastforce
  obtain d q2 where a: "appendEvent C sessionID (tr_Session tr) k st q1 = (d, q2)" by fastforce
  have "no_snapshot_payload q2" using q1 snapshot_payload_kept(1) [OF a] by simp
  then show ?case using Cons.IH [of q2 sts] by (auto simp: b e a)
qed

lemma transitionDrafts_returns_iff:
  "transitionDrafts C sessionID tr payloads \<noteq> None \<longleftrightarrow> no_snapshot_payload payloads"
proof
  assume "no_snapshot_payload payloads"
  then obtain ds q where l: "draft_loop C sessionID tr (tr_Events tr) (state_sequence tr) payloads = Some (ds, q)"
    and q: "no_snapshot_payload q" using draft_loop_returns by blast
  obtain rest q' where "appendRemaining C sessionID (tr_Session tr) (tr_After tr) q = Some (rest, q')"
    by (rule appendRemaining_drains [OF q])
  with l show "transitionDrafts C sessionID tr payloads \<noteq> None" by (simp add: transitionDrafts_def)
next
  assume ret: "transitionDrafts C sessionID tr payloads \<noteq> None"
  have loop: "no_snapshot_payload q"
    if "draft_loop C sessionID tr ks states q = Some (ds, q')" "no_snapshot_payload q'" for ks states q ds q'
    using that
  proof (induction ks arbitrary: states q ds)
    case (Cons k ks)
    then obtain before q1 d q2 ds' where
      b: "(if k = EventTutoringStateChanged \<and> EventTutoringStateChanged \<notin> set ks
         then appendRemaining C sessionID (tr_Session tr) (tr_After tr) q else Some ([], q)) = Some (before, q1)"
      and a: "appendEvent C sessionID (tr_Session tr) k (fst (event_state tr k states)) q1 = (d, q2)"
      and l: "draft_loop C sessionID tr ks (snd (event_state tr k states)) q2 = Some (ds', q')"
      unfolding draft_loop_Cons by blast
    have "no_snapshot_payload q1" using Cons.IH [OF l Cons.prems(2)] snapshot_payload_kept(1) [OF a] by simp
    then show ?case
      using b appendRemaining_stuck [of q C sessionID "tr_Session tr" "tr_After tr"]
      by (cases "no_snapshot_payload q") (auto split: if_split_asm)
  qed simp
  from ret obtain ds q rest q' where "draft_loop C sessionID tr (tr_Events tr) (state_sequence tr) payloads = Some (ds, q)"
    "appendRemaining C sessionID (tr_Session tr) (tr_After tr) q = Some (rest, q')"
    by (auto simp: transitionDrafts_def Option.bind_eq_Some_conv)
  with loop appendRemaining_stuck show "no_snapshot_payload payloads" by (metis option.distinct(1))
qed

text \<open>
  \<open>transitionDrafts\<close> returns exactly when no payload was queued for an event that is recorded with a
  snapshot of the session; with such a payload its last loop would never end.
\<close>

theorem transitionDrafts_returns:
  "transitionDrafts C sessionID tr payloads \<noteq> None \<longleftrightarrow> no_snapshot_payload payloads"
  by (rule transitionDrafts_returns_iff)

section \<open>Every payload once, and the last snapshot\<close>

text \<open>After its last change of state a transition names no event with a payload.\<close>

fun state_change_late :: "EventType list \<Rightarrow> bool" where
  "state_change_late [] = True"
| "state_change_late (k # ks) =
     (if k = EventTutoringStateChanged \<and> EventTutoringStateChanged \<notin> set ks
      then list_all sessionSnapshotEvent ks else state_change_late ks)"

lemma Apply_state_change_late: "Apply s c = Inr tr \<Longrightarrow> state_change_late (tr_Events tr)"
  by (cases "cmd_Action c")
     (auto simp: Apply_def apply_switch_def set_state_def Let_def split: if_splits option.splits)

definition filled :: "string \<Rightarrow> nat \<Rightarrow> string list \<Rightarrow> string list" where
  "filled pad n vs = vs @ replicate (n - length vs) pad"

lemma filled_simps [simp]:
  "filled pad 0 vs = vs" "filled pad (Suc n) (v # vs) = v # filled pad n vs" "filled pad (Suc n) [] = pad # filled pad n []"
  by (simp_all add: filled_def)

lemma event_state_payload: "\<not> sessionSnapshotEvent k \<Longrightarrow> fst (event_state tr k states) = tr_After tr"
  by (cases k) (simp_all add: event_state_def)

lemma draft_loop_payloads:
  assumes "draft_loop C sessionID tr ks states q = Some (ds, q')" "no_snapshot_payload q"
    and "state_change_late ks" "\<not> sessionSnapshotEvent k"
  shows "payloads_of k ds @ queued q' k =
    filled (snapshot C sessionID (tr_Session tr) (tr_After tr)) (count_list ks k) (queued q k)"
  using assms(1-3)
proof (induction ks arbitrary: states q ds)
  case Nil
  then show ?case by simp
next
  case (Cons k' ks)
  let ?pad = "snapshot C sessionID (tr_Session tr) (tr_After tr)"
  from Cons.prems(1) obtain before q1 d q2 ds' where
    b: "(if k' = EventTutoringStateChanged \<and> EventTutoringStateChanged \<notin> set ks
       then appendRemaining C sessionID (tr_Session tr) (tr_After tr) q else Some ([], q)) = Some (before, q1)"
    and a: "appendEvent C sessionID (tr_Session tr) k' (fst (event_state tr k' states)) q1 = (d, q2)"
    and l: "draft_loop C sessionID tr ks (snd (event_state tr k' states)) q2 = Some (ds', q')"
    and ds: "ds = before @ d # ds'"
    unfolding draft_loop_Cons by blast
  show ?case
  proof (cases "k' = EventTutoringStateChanged \<and> EventTutoringStateChanged \<notin> set ks")
    case True
    obtain before' q1' where r: "appendRemaining C sessionID (tr_Session tr) (tr_After tr) q = Some (before', q1')"
      "queued q1' = (\<lambda>k. [])" "\<And>k. payloads_of k before' = queued q k"
      using appendRemaining_drains [OF Cons.prems(2), of C sessionID "tr_Session tr" "tr_After tr"] by metis
    with b True have "before = before'" "q1 = q1'" by simp_all
    moreover have late: "list_all sessionSnapshotEvent ks" using True Cons.prems(3) by simp
    then have n: "count_list ks k = 0" using assms(4) by (auto simp: count_list_0_iff list_all_iff)
    moreover have "d = draft k' ''session'' sessionID (snapshot C sessionID (tr_Session tr) (fst (event_state tr k' states))) \<and> q2 = q1"
      using a True by (simp add: appendEvent_snapshot)
    moreover have "payloads_of k ds' @ queued q' k = filled ?pad (count_list ks k) (queued q2 k)"
    proof (rule Cons.IH [OF l])
      show "no_snapshot_payload q2" using calculation r(2) by (simp add: no_snapshot_payload_def)
      show "state_change_late ks" using late by (induction ks) auto
    qed
    ultimately show ?thesis using True r assms(4) by (auto simp: ds draft_def)
  next
    case False
    with b have q1: "before = []" "q1 = q" by auto
    have IH: "payloads_of k ds' @ queued q' k = filled ?pad (count_list ks k) (queued q2 k)"
      by (rule Cons.IH [OF l]) (use Cons.prems(2,3) False q1 snapshot_payload_kept(1) [OF a] in auto)
    show ?thesis
    proof (cases "k' = k")
      case True
      then show ?thesis
        using a IH assms(4) event_state_payload [OF assms(4)]
        by (cases "queued q k") (auto simp: ds q1 appendEvent_def draft_def)
    next
      case False
      then show ?thesis using a IH
        by (auto simp: ds q1 appendEvent_def draft_def split: if_splits list.splits)
    qed
  qed
qed

text \<open>
  Every payload once. When a transition is drafted, the drafts of each kind that is not a snapshot carry
  the command's payloads of that kind, each once and in order, padded by session snapshots only if the
  transition names the kind more often than there are payloads.
\<close>

theorem payloads_drafted_once:
  assumes "Apply s c = Inr tr" "transitionDrafts C sessionID tr payloads = Some ds" "\<not> sessionSnapshotEvent k"
  shows "payloads_of k ds =
    filled (snapshot C sessionID (tr_Session tr) (tr_After tr)) (count_list (tr_Events tr) k) (queued payloads k)"
proof -
  have ok: "no_snapshot_payload payloads"
    using assms(2) transitionDrafts_returns_iff [of C sessionID tr payloads] by simp
  from assms(2) obtain ds1 q rest q' where
    l: "draft_loop C sessionID tr (tr_Events tr) (state_sequence tr) payloads = Some (ds1, q)"
    and r: "appendRemaining C sessionID (tr_Session tr) (tr_After tr) q = Some (rest, q')" and ds: "ds = ds1 @ rest"
    by (auto simp: transitionDrafts_def Option.bind_eq_Some_conv)
  have "no_snapshot_payload q" using draft_loop_returns [OF ok] l by (metis option.inject prod.inject)
  then have "payloads_of k rest = queued q k" using r by (metis appendRemaining_drains option.inject prod.inject)
  with draft_loop_payloads [OF l ok Apply_state_change_late [OF assms(1)] assms(3)] ds show ?thesis by simp
qed

text \<open>The snapshots among the drafts are those of the transition's own events.\<close>

fun snapshot_drafts :: "command_codec \<Rightarrow> string \<Rightarrow> Transition \<Rightarrow> EventType list \<Rightarrow> State list \<Rightarrow> EventDraft list" where
  "snapshot_drafts C sessionID tr [] states = []"
| "snapshot_drafts C sessionID tr (k # ks) states =
     (let rest = snapshot_drafts C sessionID tr ks (snd (event_state tr k states))
      in if sessionSnapshotEvent k
         then draft k ''session'' sessionID (snapshot C sessionID (tr_Session tr) (fst (event_state tr k states))) # rest
         else rest)"

abbreviation snapshots_in :: "EventDraft list \<Rightarrow> EventDraft list" where
  "snapshots_in ds \<equiv> filter (\<lambda>d. sessionSnapshotEvent (ed_Type d)) ds"

lemma appendRemaining_no_snapshots:
  assumes "no_snapshot_payload q" "appendRemaining C sessionID s after q = Some (ds, q')"
  shows "snapshots_in ds = []" "no_snapshot_payload q'"
proof -
  obtain ds1 q1 where "appendRemaining C sessionID s after q = Some (ds1, q1)" "queued q1 = (\<lambda>k. [])"
    "\<forall>d \<in> set ds1. \<not> sessionSnapshotEvent (ed_Type d)"
    using appendRemaining_drains [OF assms(1), of C sessionID s after] by metis
  with assms(2) show "snapshots_in ds = []" "no_snapshot_payload q'"
    by (auto simp: no_snapshot_payload_def)
qed

lemma draft_loop_snapshots:
  assumes "draft_loop C sessionID tr ks states q = Some (ds, q')" "no_snapshot_payload q"
  shows "snapshots_in ds = snapshot_drafts C sessionID tr ks states \<and> no_snapshot_payload q'"
  using assms
proof (induction ks arbitrary: states q ds)
  case (Cons k ks)
  from Cons.prems(1) obtain before q1 d q2 ds' where
    b: "(if k = EventTutoringStateChanged \<and> EventTutoringStateChanged \<notin> set ks
       then appendRemaining C sessionID (tr_Session tr) (tr_After tr) q else Some ([], q)) = Some (before, q1)"
    and a: "appendEvent C sessionID (tr_Session tr) k (fst (event_state tr k states)) q1 = (d, q2)"
    and l: "draft_loop C sessionID tr ks (snd (event_state tr k states)) q2 = Some (ds', q')"
    and ds: "ds = before @ d # ds'"
    unfolding draft_loop_Cons by blast
  have before: "snapshots_in before = []" "no_snapshot_payload q1"
    using b Cons.prems(2) appendRemaining_no_snapshots by (auto split: if_splits)
  then have "no_snapshot_payload q2" using snapshot_payload_kept(1) [OF a] by simp
  from Cons.IH [OF l this] before a show ?case
    by (auto simp: ds appendEvent_def draft_def Let_def split: if_splits list.splits)
qed simp

lemma transition_snapshots:
  assumes "transitionDrafts C sessionID tr payloads = Some ds"
  shows "snapshots_in ds = snapshot_drafts C sessionID tr (tr_Events tr) (state_sequence tr)"
proof -
  have ok: "no_snapshot_payload payloads"
    using assms transitionDrafts_returns_iff [of C sessionID tr payloads] by simp
  from assms obtain ds1 q rest q' where
    l: "draft_loop C sessionID tr (tr_Events tr) (state_sequence tr) payloads = Some (ds1, q)"
    and r: "appendRemaining C sessionID (tr_Session tr) (tr_After tr) q = Some (rest, q')" and ds: "ds = ds1 @ rest"
    by (auto simp: transitionDrafts_def Option.bind_eq_Some_conv)
  from draft_loop_snapshots [OF l ok] appendRemaining_no_snapshots(1) [OF _ r] ds show ?thesis by simp
qed

definition one_change_last :: "Transition \<Rightarrow> bool" where
  "one_change_last tr \<longleftrightarrow> tr_Events tr \<noteq> [] \<and> last (tr_Events tr) = EventTutoringStateChanged
     \<and> EventTutoringStateChanged \<notin> set (butlast (tr_Events tr))"

definition shape :: "tutoring_error + Transition \<Rightarrow> (EventType list \<times> State list \<times> State) option" where
  "shape r = (case r of Inl _ \<Rightarrow> None | Inr t \<Rightarrow> Some (tr_Events t, tr_Intermediate t, tr_After t))"

lemma shape_simps [simp]:
  "shape (Inl e) = None" "shape (Inr t) = Some (tr_Events t, tr_Intermediate t, tr_After t)"
  "shape (set_state c tr after events) = Some (events, tr_Intermediate tr, after)"
  "shape (if b then x else y) = (if b then shape x else shape y)"
  "shape (case v of None \<Rightarrow> x | Some w \<Rightarrow> f w) = (case v of None \<Rightarrow> shape x | Some w \<Rightarrow> shape (f w))"
  by (simp_all add: shape_def set_state_def Let_def split: option.split)

definition known_shape :: "EventType list \<times> State list \<times> State \<Rightarrow> bool" where
  "known_shape = (\<lambda>(events, intermediate, after).
     (events \<noteq> [] \<and> last events = EventTutoringStateChanged \<and> EventTutoringStateChanged \<notin> set (butlast events))
     \<or> (events = [EventTutoringStateChanged, EventTutoringStateChanged, EventLearningCompleted]
         \<and> intermediate = [StateAdvanceOrReview] \<and> after = StateCompleted)
     \<or> (events = [EventTutoringStateChanged, EventRouteAdvanced, EventTutoringStateChanged]
         \<and> intermediate = [StateAdvanceOrReview])
     \<or> (events = [EventTutoringStateChanged, EventTutoringStateChanged] \<and> intermediate = [StateAdvanceOrReview])
     \<or> events = [EventExposureRecorded])"

lemma apply_switch_shape: "pred_option known_shape (shape (apply_switch s c))"
  by (cases "cmd_Action c"; simp add: apply_switch_def Let_def known_shape_def cong: if_cong option.case_cong split: option.split)

lemma Apply_event_shape:
  assumes "Apply s c = Inr tr" "EventTutoringStateChanged \<in> set (tr_Events tr)"
  shows "one_change_last tr
    \<or> (tr_Events tr = [EventTutoringStateChanged, EventTutoringStateChanged, EventLearningCompleted]
        \<and> tr_Intermediate tr = [StateAdvanceOrReview] \<and> tr_After tr = StateCompleted)
    \<or> (tr_Events tr = [EventTutoringStateChanged, EventRouteAdvanced, EventTutoringStateChanged]
        \<and> tr_Intermediate tr = [StateAdvanceOrReview])
    \<or> (tr_Events tr = [EventTutoringStateChanged, EventTutoringStateChanged] \<and> tr_Intermediate tr = [StateAdvanceOrReview])"
proof -
  have "\<exists>s'. Apply s c = Inl ErrSessionOwnership \<or> Apply s c = apply_switch s' c"
    by (rule exI [of _ "if sess_State s = StateUnset then s\<lparr>sess_State := StateIdle\<rparr> else s"])
       (simp add: Apply_def Let_def)
  then obtain s' where "Apply s c = Inl ErrSessionOwnership \<or> Apply s c = apply_switch s' c" ..
  then have "pred_option known_shape (shape (Apply s c))"
    using apply_switch_shape [of s' c] by auto
  with assms show ?thesis by (auto simp: known_shape_def one_change_last_def)
qed

lemma snapshot_drafts_append:
  "snapshot_drafts C i tr (ks @ [EventTutoringStateChanged]) states =
     (let rest = snapshot_drafts C i tr ks states
      in rest @ [draft EventTutoringStateChanged ''session'' i (snapshot C i (tr_Session tr)
           (fst (event_state tr EventTutoringStateChanged (foldl (\<lambda>sts k. snd (event_state tr k sts)) states ks))))])"
  by (induction ks arbitrary: states) (auto simp: Let_def)

lemma event_states_kept:
  "EventTutoringStateChanged \<notin> set ks \<Longrightarrow> foldl (\<lambda>sts k. snd (event_state tr k sts)) states ks = states"
proof (induction ks)
  case (Cons k ks)
  then show ?case by (cases k) (simp_all add: event_state_def)
qed simp

lemma Apply_last_snapshot:
  assumes "Apply s c = Inr tr" "EventTutoringStateChanged \<in> set (tr_Events tr)"
  shows "snapshot_drafts C i tr (tr_Events tr) (state_sequence tr) \<noteq> []
    \<and> ed_Payload (last (snapshot_drafts C i tr (tr_Events tr) (state_sequence tr))) = snapshot C i (tr_Session tr) (tr_After tr)"
  using Apply_event_shape [OF assms]
proof (elim disjE)
  assume "one_change_last tr"
  then obtain ks where ks: "tr_Events tr = ks @ [EventTutoringStateChanged]" "EventTutoringStateChanged \<notin> set ks"
    by (cases "tr_Events tr" rule: rev_cases) (auto simp: one_change_last_def)
  have "filter (\<lambda>k. k = EventTutoringStateChanged) ks = []" using ks(2) by (induction ks) auto
  then have "state_sequence tr = [tr_After tr]"
    using ks by (auto simp: state_sequence_def Let_def)
  then show ?thesis
    unfolding ks(1) snapshot_drafts_append Let_def event_states_kept [OF ks(2)]
    by (simp add: event_state_def draft_def)
qed (auto simp: state_sequence_def event_state_def draft_def Let_def)

text \<open>
  The last snapshot is the state after. Of the session snapshots a drafted transition records, the last one
  holds the transition's session in the state after it, whatever payloads come between.
\<close>

theorem last_snapshot_after:
  assumes "Apply s c = Inr tr" "transitionDrafts C sessionID tr payloads = Some ds"
    and "EventTutoringStateChanged \<in> set (tr_Events tr)"
  shows "snapshots_in ds \<noteq> [] \<and> ed_Payload (last (snapshots_in ds)) = snapshot C sessionID (tr_Session tr) (tr_After tr)"
  unfolding transition_snapshots [OF assms(2)] by (rule Apply_last_snapshot [OF assms(1,3)])

definition example_command_codec :: command_codec where
  "example_command_codec = \<lparr>js_goal = goal_ID, js_route = route_ID, js_activity = act_ID, js_attempt = att_ID,
     js_exposure = exp_ID, js_artifact = art_ID, js_decision = dec_ID, js_assessment_event = ape_AssessmentID,
     js_evidence = ev_ID, js_evidence_id = (\<lambda>i. i), js_misconception = mh_ID, js_question = fq_ID, js_answer = fa_ID,
     js_session = (\<lambda>p. state_text (sess_State (sp_Session p)))\<rparr>"

theorem transitionDrafts_returns_witness:
  "\<exists>ds. transitionDrafts example_command_codec ''s''
     \<lparr>tr_Before = StateFeedback, tr_Intermediate = [], tr_After = StateRouteActive, tr_Events = [EventTutoringStateChanged],
      tr_Session = lesson_session StateRouteActive\<rparr> [(EventEvidenceAccepted, [''e''])] = Some ds"
  using transitionDrafts_returns [of example_command_codec "''s''" "\<lparr>tr_Before = StateFeedback, tr_Intermediate = [],
    tr_After = StateRouteActive, tr_Events = [EventTutoringStateChanged], tr_Session = lesson_session StateRouteActive\<rparr>"
    "[(EventEvidenceAccepted, [''e''])]"]
  by (auto simp: no_snapshot_payload_def queued_def)

theorem payloads_drafted_once_witness:
  "\<exists>tr ds. Apply (lesson_session StateEvaluating) (plain_command ActionRecordAssessment) = Inr tr
     \<and> transitionDrafts example_command_codec ''s'' tr [(EventEvidenceAccepted, [''e'']), (EventAssessmentRecorded, [''a''])] = Some ds
     \<and> payloads_of EventEvidenceAccepted ds = [''e''] \<and> payloads_of EventAssessmentRecorded ds = [''a'']"
proof -
  let ?q = "[(EventEvidenceAccepted, [''e'']), (EventAssessmentRecorded, [''a''])]"
  obtain tr where tr: "Apply (lesson_session StateEvaluating) (plain_command ActionRecordAssessment) = Inr tr"
      "tr_Events tr = [EventAssessmentRecorded, EventTutoringStateChanged]"
    by (simp add: Apply_def apply_switch_def set_state_def lesson_defs Let_def)
  obtain ds where ds: "transitionDrafts example_command_codec ''s'' tr ?q = Some ds"
    using transitionDrafts_returns_iff [of example_command_codec "''s''" tr ?q]
    by (auto simp: no_snapshot_payload_def queued_def split: if_splits)
  show ?thesis
    using tr ds payloads_drafted_once [OF tr(1) ds, of EventEvidenceAccepted] payloads_drafted_once [OF tr(1) ds, of EventAssessmentRecorded]
    by (auto simp: queued_def filled_def)
qed

theorem last_snapshot_after_witness:
  "\<exists>tr ds. Apply (lesson_session StateEvaluating) (plain_command ActionRecordAssessment) = Inr tr
     \<and> transitionDrafts example_command_codec ''s'' tr [] = Some ds \<and> ed_Payload (last (snapshots_in ds)) = ''Feedback''"
proof -
  obtain tr where tr: "Apply (lesson_session StateEvaluating) (plain_command ActionRecordAssessment) = Inr tr"
      "tr_Events tr = [EventAssessmentRecorded, EventTutoringStateChanged]" "tr_After tr = StateFeedback"
    by (simp add: Apply_def apply_switch_def set_state_def lesson_defs Let_def)
  obtain ds where ds: "transitionDrafts example_command_codec ''s'' tr [] = Some ds"
    using transitionDrafts_returns_iff [of example_command_codec "''s''" tr "[]"]
    by (auto simp: no_snapshot_payload_def queued_def)
  show ?thesis
    using tr ds last_snapshot_after [OF tr(1) ds] by (auto simp: snapshot_def example_command_codec_def)
qed

end
