(* ===== verification/Commands.thy ===== *)
theory Commands
  imports Event_Drafts "HOL-Library.Sublist"
begin

text \<open>
  The commands of the learning service, \<open>server/internal/learning/command.go\<close>, with the types of a
  commit from \<open>store.go\<close> and \<open>prepareReviewSession\<close> of \<open>review_session.go\<close>. A handler loads what it
  needs, checks it, runs the lesson state machine and answers with the commit request for the
  store, or with an error; \<open>None\<close> says that it does not return (the loop of \<open>transitionDrafts\<close>).
  The switch of \<open>applyAction\<close> is one definition per case, each filling in a record \<open>prepared\<close>.

  \<open>command_env\<close> is what a request runs against: the store's answers, the clock, the device, the learning
  space of the request, the JSON encoders and hashes, and the identifiers \<open>newUUID\<close> hands out, in
  the order of the calls.

  The lemmas: a committed command carries the version fence of the session it read and the session
  the state machine gave; every command returns; provisional feedback cannot be left; evidence is
  produced exactly by accepted assessments, with owners; a decision replaces the evidence
  it invalidates.
\<close>

section \<open>What a commit holds\<close>

record AggregateExpectation =
  ae_Type :: string
  ae_ID :: string
  ae_ExpectedVersion :: int

record EvidenceInvalidation =
  inv_ID :: string
  inv_EvidenceID :: string
  inv_DecisionID :: "string option"
  inv_Reason :: string
  inv_EventSeq :: int
  inv_CreatedAt :: "time option" \<comment> \<open>the zero time is \<open>None\<close>\<close>

record KnowledgeOwner =
  ko_KnowledgeRevisionID :: string
  ko_NodeID :: string
  ko_NodeRevisionID :: string
  ko_DocumentRevisionID :: string

record EvidenceOwner =
  eo_SessionID :: string
  eo_KnowledgeOwner :: KnowledgeOwner

record AuthorityProvenance =
  ap_RouteSteps :: "(string, KnowledgeOwner) gomap"
  ap_AssessmentItems :: "KnowledgeOwner list"
  ap_Evidence :: "(string, EvidenceOwner) gomap"

record ReviewSessionSource =
  rss_TaskID :: string
  rss_EvidenceID :: string
  rss_AttemptID :: string

text \<open>The fields of \<open>CommandBatch\<close> these commands fill in; the others are for offline work and carryovers.\<close>

record CommandBatch =
  cb_ReviewSource :: "ReviewSessionSource option"
  cb_GoalRevision :: "GoalRevision option"
  cb_RouteRevision :: "RouteRevision option"
  cb_Session :: "Session option"
  cb_FocusFrame :: "FocusFrame option"
  cb_InvalidateFrame :: bool
  cb_ResumeFrame :: bool
  cb_FreeQuestion :: "FreeQuestion option"
  cb_FreeAnswer :: "FreeAnswer option"
  cb_Activity :: "Activity option"
  cb_Attempt :: "Attempt option"
  cb_Assessment :: "AssessmentArtifact option"
  cb_Decisions :: "AssessmentDecision list"
  cb_Evidence :: "AcceptedEvidence list"
  cb_Invalidations :: "EvidenceInvalidation list"
  cb_Exposures :: "Exposure list"
  cb_Misconceptions :: "MisconceptionHypothesis list"
  cb_Events :: "EventDraft list"
  cb_ClaimSource :: string
  cb_ClaimEventSeq :: int
  cb_OfflineSubmission :: "string option" \<comment> \<open>\<open>SubmissionID\<close> of \<open>OfflineStatusUpdate\<close>\<close>
  cb_TypedResult :: string
  cb_ResultSession :: bool
  cb_TutoringState :: string
  cb_Disposition :: Disposition
  cb_Authority :: AuthorityProvenance

definition empty_batch :: CommandBatch where
  "empty_batch = \<lparr>cb_ReviewSource = None, cb_GoalRevision = None, cb_RouteRevision = None, cb_Session = None,
     cb_FocusFrame = None, cb_InvalidateFrame = False, cb_ResumeFrame = False, cb_FreeQuestion = None,
     cb_FreeAnswer = None, cb_Activity = None, cb_Attempt = None, cb_Assessment = None, cb_Decisions = [],
     cb_Evidence = [], cb_Invalidations = [], cb_Exposures = [], cb_Misconceptions = [], cb_Events = [],
     cb_ClaimSource = [], cb_ClaimEventSeq = 0, cb_OfflineSubmission = None, cb_TypedResult = [], cb_ResultSession = False, cb_TutoringState = [], cb_Disposition = DispositionUnset,
     cb_Authority = \<lparr>ap_RouteSteps = [], ap_AssessmentItems = [], ap_Evidence = []\<rparr>\<rparr>"

record CommitRequest =
  cr_DeviceID :: string
  cr_Operation :: OperationEnvelope
  cr_RequestHash :: string
  cr_Expectations :: "AggregateExpectation list"
  cr_Batch :: CommandBatch
  cr_ReceivedAt :: time

section \<open>Commands and their environment\<close>

record SessionCommand =
  scmd_Operation :: OperationEnvelope
  scmd_GoalRevisionID :: string
  scmd_ReviewSource :: "ReviewSessionSource option"

record ActionCommand =
  acmd_Operation :: OperationEnvelope
  acmd_Action :: Action
  acmd_ProposalID :: string
  acmd_Question :: string
  acmd_Answer :: string
  acmd_Help :: HelpLevel
  acmd_Complete :: bool
  acmd_GoalRevisionID :: string
  acmd_ExposureKind :: string
  acmd_ExposureText :: string
  acmd_References :: "KnowledgeReference list"

record AssessmentDecisionCommand =
  adc_Operation :: OperationEnvelope
  adc_Kind :: string
  adc_ExpectedDispositionVersion :: int
  adc_Reason :: string
  adc_Items :: "AssessmentItem list"

text \<open>The part of the feedback view a review session is made from.\<close>

record FeedbackView =
  fv_SessionVersion :: int
  fv_Goal :: GoalRevision
  fv_Activity :: Activity
  fv_Evidence :: "AcceptedEvidence list"

record command_env =
  ce_lib :: golib
  ce_proposals :: proposal_codec
  ce_json :: command_codec
  ce_goal_hashes :: goal_hashes
  ce_authority :: authority
  ce_scope :: "string option"
  ce_device :: string
  ce_now :: time
  ce_uuid :: "nat \<Rightarrow> string"
  ce_hash_goal :: "GoalCommand \<Rightarrow> error + string"
  ce_hash_session :: "SessionCommand \<Rightarrow> error + string"
  ce_hash_action :: "ActionCommand \<Rightarrow> error + string"
  ce_hash_decision :: "AssessmentDecisionCommand \<Rightarrow> error + string"
  ce_hash_objective :: "Activity \<Rightarrow> Attempt \<Rightarrow> error + string"
  ce_feedback :: "string \<Rightarrow> error + FeedbackView"
  ce_sha1_uuid :: "string \<Rightarrow> string" \<comment> \<open>\<open>uuid.NewSHA1(uuid.NameSpaceOID, _)\<close>\<close>

definition now_of :: "command_env \<Rightarrow> time" where
  "now_of E = trunc_microsecond (ce_now E)"

definition commit_request ::
  "command_env \<Rightarrow> OperationEnvelope \<Rightarrow> AggregateExpectation list \<Rightarrow> CommandBatch \<Rightarrow> error + string
    \<Rightarrow> error + CommitRequest" where
  "commit_request E operation expectations batch hash =
     bindE hash (\<lambda>h. Inr \<lparr>cr_DeviceID = ce_device E, cr_Operation = operation, cr_RequestHash = h,
       cr_Expectations = expectations, cr_Batch = batch, cr_ReceivedAt = now_of E\<rparr>)"

section \<open>Helpers\<close>

definition requireProposal ::
  "command_env \<Rightarrow> string \<Rightarrow> ProposalType \<Rightarrow> Session \<Rightarrow> error + ProposalArtifact" where
  "requireProposal E i kind s =
     (if i = [] then Inl (err_code CodeInvalidRequest)
      else bindE (au_proposal (ce_authority E) i) (\<lambda>p.
        if prop_Type p \<noteq> kind \<or> prop_AggregateType p \<noteq> ''session'' \<or> prop_AggregateID p \<noteq> sess_ID s
           \<or> prop_AggregateVersion p \<noteq> sess_AggregateVer s
        then Inl (err_code CodeStaleProposal)
        else checkE (validateProposalForApply (ce_lib E) (ce_proposals E) (ce_authority E) p kind s) (Inr p)))"

definition materializeActivity ::
  "command_env \<Rightarrow> string \<Rightarrow> Session \<Rightarrow> ProposalArtifact \<Rightarrow> bool \<Rightarrow> error + Activity" where
  "materializeActivity E i s p review =
     (let c = sess_Context s
      in case prop_Activity p of
        None \<Rightarrow> Inl (err_code CodeStaleProposal)
      | Some a \<Rightarrow>
          if ctx_GoalRevisionID c = [] \<or> ctx_RouteRevisionID c = [] \<or> ctx_RouteStepID c = [] \<or> ctx_FocusNodeRevisionID c = []
          then Inl (err_code CodeStaleProposal)
          else bindE (au_route (ce_authority E) (ctx_RouteRevisionID c)) (\<lambda>route.
            if route_ID route \<noteq> ctx_RouteRevisionID c \<or> route_GoalRevisionID route \<noteq> ctx_GoalRevisionID c
               \<or> route_KnowledgeRevisionID route \<noteq> prop_KnowledgeRevisionID p
            then Inl (stale ''activity_route_changed'')
            else case find (\<lambda>st. step_ID st = ctx_RouteStepID c) (route_Steps route) of
                None \<Rightarrow> Inl (stale ''activity_target_changed'')
              | Some target \<Rightarrow>
                  if step_NodeID target = [] \<or> step_NodeRevisionID target \<noteq> ctx_FocusNodeRevisionID c
                  then Inl (stale ''activity_target_changed'')
                  else if \<not> (\<exists>r \<in> set (ap_References a). ref_NodeRevisionID r = step_NodeRevisionID target
                         \<and> ref_NodeID r = step_NodeID target \<and> ref_KnowledgeRevisionID r = route_KnowledgeRevisionID route)
                  then Inl (rejected ''activity_target_reference_missing'')
                  else Inr (CloneActivity \<lparr>act_ID = i, act_Revision = 1, act_SessionID = sess_ID s,
                    act_GoalRevisionID = ctx_GoalRevisionID c, act_RouteRevisionID = route_ID route,
                    act_RouteStepID = step_ID target, act_KnowledgeRevisionID = route_KnowledgeRevisionID route,
                    act_TargetNodeID = step_NodeID target, act_TargetNodeRevisionID = step_NodeRevisionID target,
                    act_References = ap_References a, act_Prompt = ap_Prompt a, act_Type = ap_Type a,
                    act_Rubric = ap_Rubric a, act_Difficulty = ap_Difficulty a, act_AllowedHelp = ap_AllowedHelp a,
                    act_ActivityPolicyVersion = ActivityPolicyVersion, act_AssessmentPolicyVersion = AssessmentPolicyVersion,
                    act_ReviewPolicyVersion = ReviewPolicyVersion, act_SourceProposalID = prop_ID p,
                    act_AttachedFreeQuestionID = preq_FreeQuestionID (prop_FrozenRequest p),
                    act_AttachedFreeAnswerID = preq_FreeAnswerID (prop_FrozenRequest p), act_Review = review,
                    act_CreatedAt = now_of E\<rparr>)))"

definition makeEvidence ::
  "command_env \<Rightarrow> string \<Rightarrow> Activity \<Rightarrow> Attempt \<Rightarrow> AssessmentArtifact \<Rightarrow> AssessmentDecision \<Rightarrow> AssessmentItem list
    \<Rightarrow> Outcome \<Rightarrow> AcceptedEvidence" where
  "makeEvidence E i activity attempt artifact decision items outcome =
     \<lparr>ev_ID = i, ev_DispositionDecisionID = dec_ID decision, ev_AssessmentID = art_ID artifact, ev_AttemptID = att_ID attempt,
      ev_ActivityID = act_ID activity, ev_ActivityRevision = act_Revision activity,
      ev_GoalRevisionID = act_GoalRevisionID activity, ev_RouteRevisionID = act_RouteRevisionID activity,
      ev_KnowledgeRevisionID = act_KnowledgeRevisionID activity, ev_NodeRevisionID = act_TargetNodeRevisionID activity,
      ev_RubricRevision = rub_Revision (act_Rubric activity),
      ev_Kind = (if act_Review activity then EvidenceReviewRecall else EvidencePracticeRecall),
      ev_ActivityType = act_Type activity, ev_Outcome = outcome, ev_Help = att_Help attempt, ev_ReceivedAt = now_of E,
      ev_AcceptedEventSequence = 0, ev_AcceptancePolicyVersion = AssessmentPolicyVersion,
      ev_ReducerPolicyVersion = MasteryReducerVersion, ev_ReviewPolicyVersion = ReviewPolicyVersion,
      ev_Misconceptions = map (\<lambda>it. \<lparr>mc_RubricItemID = ai_RubricItemID it, mc_Text = ai_MisconceptionCandidate it\<rparr>)
        (filter (\<lambda>it. ai_MisconceptionCandidate it \<noteq> []
           \<and> (ai_Conclusion it = ConclusionFail \<or> ai_Conclusion it = ConclusionPartial)) items),
      ev_RubricOutcomes = map (\<lambda>it. \<lparr>ro_RubricItemID = ai_RubricItemID it, ro_Conclusion = ai_Conclusion it\<rparr>) items\<rparr>"

definition knowledgeOwner :: "KnowledgeReference \<Rightarrow> KnowledgeOwner" where
  "knowledgeOwner r = \<lparr>ko_KnowledgeRevisionID = ref_KnowledgeRevisionID r, ko_NodeID = ref_NodeID r,
     ko_NodeRevisionID = ref_NodeRevisionID r, ko_DocumentRevisionID = ref_DocumentRevisionID r\<rparr>"

definition no_owner :: KnowledgeOwner where
  "no_owner = \<lparr>ko_KnowledgeRevisionID = [], ko_NodeID = [], ko_NodeRevisionID = [], ko_DocumentRevisionID = []\<rparr>"

definition references_by_node :: "KnowledgeReference list \<Rightarrow> (string, KnowledgeReference) gomap" where
  "references_by_node refs = foldl (\<lambda>m r. AList.update (ref_NodeRevisionID r) r m) [] refs"

fun item_owners :: "Activity \<Rightarrow> (string, KnowledgeReference) gomap \<Rightarrow> AssessmentItem list \<Rightarrow> error + KnowledgeOwner list" where
  "item_owners activity refs [] = Inr []"
| "item_owners activity refs (it # its) =
     bindE (if ai_KnowledgeReferenceID it = [] then Inr no_owner
            else case map_of refs (ai_KnowledgeReferenceID it) of
                None \<Rightarrow> Inl (err_reason CodeKnowledgeReferenceInvalid ''assessment_reference_owner_missing'')
              | Some r \<Rightarrow>
                  if ref_KnowledgeRevisionID r \<noteq> act_KnowledgeRevisionID activity \<or> ref_NodeID r = [] \<or> ref_DocumentRevisionID r = []
                  then Inl (err_reason CodeKnowledgeReferenceInvalid ''assessment_reference_owner_missing'')
                  else Inr (knowledgeOwner r)) (\<lambda>w.
     bindE (item_owners activity refs its) (\<lambda>ws. Inr (w # ws)))"

definition assessmentAuthority :: "Activity \<Rightarrow> AssessmentArtifact \<Rightarrow> error + KnowledgeOwner list" where
  "assessmentAuthority activity artifact =
     item_owners activity (references_by_node (act_References activity)) (art_Items artifact)"

definition evidenceAuthority :: "Activity \<Rightarrow> AcceptedEvidence \<Rightarrow> error + EvidenceOwner" where
  "evidenceAuthority activity e =
     (if ev_ActivityID e \<noteq> act_ID activity \<or> ev_ActivityRevision e \<noteq> act_Revision activity
         \<or> ev_KnowledgeRevisionID e \<noteq> act_KnowledgeRevisionID activity \<or> ev_NodeRevisionID e \<noteq> act_TargetNodeRevisionID activity
      then Inl (err_reason CodeKnowledgeReferenceInvalid ''evidence_activity_owner_mismatch'')
      else case find (\<lambda>r. ref_KnowledgeRevisionID r = act_KnowledgeRevisionID activity \<and> ref_NodeID r = act_TargetNodeID activity
               \<and> ref_NodeRevisionID r = act_TargetNodeRevisionID activity \<and> ref_DocumentRevisionID r \<noteq> []) (act_References activity) of
          None \<Rightarrow> Inl (err_reason CodeKnowledgeReferenceInvalid ''evidence_reference_owner_missing'')
        | Some r \<Rightarrow> Inr \<lparr>eo_SessionID = act_SessionID activity, eo_KnowledgeOwner = knowledgeOwner r\<rparr>)"

definition recomputeMisconceptions ::
  "command_env \<Rightarrow> string \<Rightarrow> string \<Rightarrow> AcceptedEvidence option \<Rightarrow> error + MisconceptionHypothesis list" where
  "recomputeMisconceptions E node invalidatedID replacement =
     bindE (au_evidence (ce_authority E) node) (\<lambda>stored.
       let vs = filter (\<lambda>v. ev_ID v \<noteq> invalidatedID) stored @ (case replacement of None \<Rightarrow> [] | Some e \<Rightarrow> [e]);
           current = nr_Misconceptions (ReduceNode (ce_lib E) node vs [] [])
       in bindE (au_misconceptions (ce_authority E) node) (\<lambda>previous.
          let byID = foldl (\<lambda>m h. AList.update (mh_ID h) h m) [] previous;
              revised = map (\<lambda>h. h\<lparr>mh_Revision := (case map_of byID (mh_ID h) of
                Some old \<Rightarrow> int64 (mh_Revision old + 1) | None \<Rightarrow> 1)\<rparr>) current;
              resolved = map (\<lambda>h. let h = h\<lparr>mh_Revision := int64 (mh_Revision h + 1), mh_Status := MisconceptionResolved\<rparr>
                in case replacement of None \<Rightarrow> h
                   | Some e \<Rightarrow> h\<lparr>mh_CounterEvidenceIDs := mh_CounterEvidenceIDs h @ [ev_ID e], mh_CausedByEvidenceID := ev_ID e\<rparr>)
                (filter (\<lambda>h. mh_ID h \<notin> mh_ID ` set current) previous)
          in Inr (go_sort (\<lambda>a b. mh_ID a < mh_ID b) (revised @ resolved))))"

definition validHelp :: "HelpLevel \<Rightarrow> bool" where
  "validHelp h \<longleftrightarrow> h = HelpNone \<or> h = HelpHint \<or> h = HelpScaffold \<or> h = HelpAnswerRevealed"

definition containsHelp :: "HelpLevel list \<Rightarrow> HelpLevel \<Rightarrow> bool" where
  "containsHelp hs h \<longleftrightarrow> (\<exists>v \<in> set hs. v = h)"

definition combineDecisionOutcomes :: "AssessmentItem list \<Rightarrow> Outcome" where
  "combineDecisionOutcomes items = combineOutcomes (concat (map (\<lambda>it. case ai_Conclusion it of
     ConclusionPass \<Rightarrow> [OutcomePass] | ConclusionPartial \<Rightarrow> [OutcomePartial] | ConclusionFail \<Rightarrow> [OutcomeFail] | _ \<Rightarrow> []) items))"

definition mapTransitionError :: "tutoring_error \<Rightarrow> error" where
  "mapTransitionError e =
     (if contains_sub (tutoring_error_text e) (tutoring_error_text ErrFocusFrameInvalid)
      then err_cause CodeFocusFrameInvalidated [] (Some (TutoringError e))
      else err_cause CodeInvalidTransition [] (Some (TutoringError e)))"

definition toFrozen :: "KnowledgeReference list \<Rightarrow> FrozenReference list" where
  "toFrozen refs = map (\<lambda>r. \<lparr>frozen_KnowledgeRevisionID = ref_KnowledgeRevisionID r, frozen_NodeID = ref_NodeID r,
     frozen_NodeRevisionID = ref_NodeRevisionID r, frozen_DocumentRevisionID = ref_DocumentRevisionID r,
     frozen_Start = rng_Start (ref_Range r), frozen_End = rng_End (ref_Range r), frozen_Slice = ref_Slice r,
     frozen_SliceSHA256 = ref_SliceSHA256 r\<rparr>) refs"

section \<open>The actions of a session\<close>

text \<open>What the switch of \<open>applyAction\<close> has prepared when it reaches the state machine.\<close>

record prepared =
  pr_Session :: Session
  pr_Command :: Command
  pr_Batch :: CommandBatch
  pr_Expectations :: "AggregateExpectation list"
  pr_Payloads :: queues

definition set_context :: "(FocusContext \<Rightarrow> FocusContext) \<Rightarrow> prepared \<Rightarrow> prepared" where
  "set_context f p =
     (let c = f (sess_Context (pr_Session p))
      in p\<lparr>pr_Session := (pr_Session p)\<lparr>sess_Context := c\<rparr>, pr_Command := (pr_Command p)\<lparr>cmd_Context := Some c\<rparr>\<rparr>)"

definition set_payload :: "EventType \<Rightarrow> string list \<Rightarrow> prepared \<Rightarrow> prepared" where
  "set_payload k vs p = p\<lparr>pr_Payloads := AList.update k vs (pr_Payloads p)\<rparr>"

definition add_payload :: "EventType \<Rightarrow> string \<Rightarrow> prepared \<Rightarrow> prepared" where
  "add_payload k v p = p\<lparr>pr_Payloads := AList.update k (queued (pr_Payloads p) k @ [v]) (pr_Payloads p)\<rparr>"

abbreviation set_batch :: "(CommandBatch \<Rightarrow> CommandBatch) \<Rightarrow> prepared \<Rightarrow> prepared" where
  "set_batch f p \<equiv> p\<lparr>pr_Batch := f (pr_Batch p)\<rparr>"

fun materialize_steps ::
  "command_env \<Rightarrow> string \<Rightarrow> nat \<Rightarrow> nat \<Rightarrow> RouteProposalStep list \<Rightarrow> error + (RouteStep \<times> KnowledgeOwner) list" where
  "materialize_steps E kr n index [] = Inr []"
| "materialize_steps E kr n index (item # items) =
     (case au_resolve (ce_authority E) kr (rps_NodeRevisionID item) of
        Inl e \<Rightarrow> Inl (err_cause CodeKnowledgeReferenceInvalid [] (Some e))
      | Inr resolved \<Rightarrow>
          if ref_KnowledgeRevisionID resolved \<noteq> kr \<or> ref_NodeID resolved = []
             \<or> ref_NodeRevisionID resolved \<noteq> rps_NodeRevisionID item \<or> ref_DocumentRevisionID resolved = []
          then Inl (err_cause CodeKnowledgeReferenceInvalid [] None)
          else bindE (materialize_steps E kr n (index + 1) items) (\<lambda>rest.
            Inr ((\<lparr>step_ID = ce_uuid E (n + index), step_Ordinal = int index, step_NodeID = ref_NodeID resolved,
                   step_NodeRevisionID = ref_NodeRevisionID resolved, step_TeachingIntent = rps_TeachingIntent item,
                   step_CompletionCondition = rps_CompletionCondition item\<rparr>, knowledgeOwner resolved) # rest)))"

text \<open>The route a new revision belongs to, and its number.\<close>

definition route_identity :: "command_env \<Rightarrow> Session \<Rightarrow> error + (string \<times> int)" where
  "route_identity E s =
     (let c = sess_Context s
      in if ctx_RouteRevisionID c = [] then Inr (ce_uuid E 0, 1)
         else bindE (au_route (ce_authority E) (ctx_RouteRevisionID c)) (\<lambda>current.
           if route_GoalRevisionID current \<noteq> ctx_GoalRevisionID c then Inl (stale ''route_goal_changed'')
           else case au_next_route (ce_authority E) of
               None \<Rightarrow> Inr (route_RouteID current, int64 (route_Revision current + 1))
             | Some nextRevision \<Rightarrow> bindE (nextRevision (route_RouteID current)) (\<lambda>n. Inr (route_RouteID current, n))))"

definition prepare_route :: "command_env \<Rightarrow> ActionCommand \<Rightarrow> prepared \<Rightarrow> error + prepared" where
  "prepare_route E cmd p =
     (let s = pr_Session p
      in bindE (requireProposal E (acmd_ProposalID cmd) ProposalRoute s) (\<lambda>proposal.
         bindE (route_identity E s) (\<lambda>(routeID, revision).
         bindE (materialize_steps E (prop_KnowledgeRevisionID proposal) 2 0 (prop_Route proposal)) (\<lambda>steps.
           if \<not> StableRouteSteps (map fst steps) then Inl (err_code CodeProposalRejected)
           else
             let route = \<lparr>route_ID = ce_uuid E 1, route_RouteID = routeID, route_Revision = revision,
                   route_GoalRevisionID = ctx_GoalRevisionID (sess_Context s),
                   route_KnowledgeRevisionID = prop_KnowledgeRevisionID proposal, route_PolicyVersion = RoutePolicyVersion,
                   route_SourceProposalID = prop_ID proposal, route_Steps = map fst steps, route_CreatedAt = now_of E\<rparr>;
                 first = hd (route_Steps route);
                 owners = foldl (\<lambda>m (st, w). AList.update (step_ID st) w m) [] steps;
                 p = set_context (\<lambda>c. c\<lparr>ctx_RouteRevisionID := route_ID route,
                   ctx_KnowledgeRevisionID := route_KnowledgeRevisionID route, ctx_RouteStepID := step_ID first,
                   ctx_FocusNodeRevisionID := step_NodeRevisionID first\<rparr>) p;
                 p = p\<lparr>pr_Session := (pr_Session p)\<lparr>sess_CompletedRoute := False\<rparr>\<rparr>;
                 p = set_batch (\<lambda>b. b\<lparr>cb_RouteRevision := Some route,
                   cb_Authority := (cb_Authority b)\<lparr>ap_RouteSteps := owners\<rparr>\<rparr>) p
             in Inr (set_payload EventRouteRevisionCreated [js_route (ce_json E) route] p)))))"

definition check_attached :: "command_env \<Rightarrow> ActionCommand \<Rightarrow> Session \<Rightarrow> ProposalArtifact \<Rightarrow> error + (string \<times> string)" where
  "check_attached E cmd s proposal =
     (if \<not> validActiveFocusFrame s then Inl (err_code CodeFocusFrameInvalidated)
      else if acmd_Question cmd = [] \<or> acmd_Answer cmd = []
         \<or> acmd_Question cmd \<noteq> preq_FreeQuestionID (prop_FrozenRequest proposal)
         \<or> acmd_Answer cmd \<noteq> preq_FreeAnswerID (prop_FrozenRequest proposal)
      then Inl (stale ''attached_quiz_context_changed'')
      else bindE (au_question (ce_authority E) (acmd_Question cmd)) (\<lambda>question.
           bindE (au_answer (ce_authority E) (acmd_Answer cmd)) (\<lambda>answer.
           bindE (au_latest_question (ce_authority E) (sess_ID s) (frame_ID (active_frame s))) (\<lambda>latest.
             if latest \<noteq> fq_ID question \<or> \<not> currentFreeQuestionMatchesSession s question
                \<or> fa_SessionID answer \<noteq> sess_ID s \<or> fa_FocusFrameID answer \<noteq> frame_ID (active_frame s)
                \<or> fa_FreeQuestionID answer \<noteq> fq_ID question \<or> fa_KnowledgeRevisionID answer \<noteq> fq_KnowledgeRevisionID question
             then Inl (err_reason CodeFocusFrameInvalidated ''attached_quiz_ownership'')
             else Inr (fq_ID question, fa_ID answer)))))"

definition issue_activity :: "command_env \<Rightarrow> Action \<Rightarrow> Activity \<Rightarrow> prepared \<Rightarrow> prepared" where
  "issue_activity E action activity p =
     (let p = set_context (\<lambda>c. c\<lparr>ctx_ActivityID := Some (act_ID activity), ctx_AttemptID := None\<rparr>) p;
          p = set_batch (\<lambda>b. b\<lparr>cb_Activity := Some activity\<rparr>) p;
          p = (if action = ActionPresentReview then set_payload EventReviewPresented [js_activity (ce_json E) activity] p else p)
      in set_payload EventActivityIssued [js_activity (ce_json E) activity] p)"

definition prepare_activity :: "command_env \<Rightarrow> ActionCommand \<Rightarrow> prepared \<Rightarrow> error + prepared" where
  "prepare_activity E cmd p =
     (let s = pr_Session p
      in bindE (requireProposal E (acmd_ProposalID cmd) ProposalActivity s) (\<lambda>proposal.
         bindE (materializeActivity E (ce_uuid E 0) s proposal (acmd_Action cmd = ActionPresentReview)) (\<lambda>activity.
         bindE (if acmd_Action cmd = ActionConvertFreeAnswerToQuiz
                then bindE (check_attached E cmd s proposal) (\<lambda>(question, answer).
                  Inr (activity\<lparr>act_AttachedFreeQuestionID := question, act_AttachedFreeAnswerID := answer\<rparr>))
                else Inr activity) (\<lambda>activity. Inr (issue_activity E (acmd_Action cmd) activity p)))))"

definition prepare_present :: "command_env \<Rightarrow> prepared \<Rightarrow> error + prepared" where
  "prepare_present E p =
     (case ctx_ActivityID (sess_Context (pr_Session p)) of
        None \<Rightarrow> Inl (err_code CodeActivityStateConflict)
      | Some i \<Rightarrow> bindE (au_activity (ce_authority E) i) (\<lambda>activity.
          Inr (set_payload EventActivityPresented [js_activity (ce_json E) activity] p)))"

definition prepare_attempt :: "command_env \<Rightarrow> ActionCommand \<Rightarrow> prepared \<Rightarrow> error + prepared" where
  "prepare_attempt E cmd p =
     (let s = pr_Session p
      in case ctx_ActivityID (sess_Context s) of
        None \<Rightarrow> Inl (err_code CodeInvalidRequest)
      | Some i \<Rightarrow>
          if \<not> valid_utf8 (acmd_Answer cmd) \<or> length (acmd_Answer cmd) > MaxAnswerBytes then Inl (err_code CodeInvalidRequest)
          else bindE (au_activity (ce_authority E) i) (\<lambda>activity.
            if \<not> validHelp (acmd_Help cmd) \<or> \<not> containsHelp (act_AllowedHelp activity) (acmd_Help cmd)
            then Inl (err_reason CodeInvalidRequest ''help_not_allowed'')
            else
              let attempt = \<lparr>att_ID = ce_uuid E 0, att_SessionID = sess_ID s, att_ActivityID = act_ID activity,
                    att_ActivityRevision = act_Revision activity, att_AnswerPayloadID = ce_uuid E 1,
                    att_Answer = acmd_Answer cmd, att_AnswerSHA256 = SHA256 (ce_lib E) (acmd_Answer cmd),
                    att_Help = acmd_Help cmd, att_ActorDeviceID = ce_device E,
                    att_OccurredAt = op_OccurredAt (acmd_Operation cmd), att_ReceivedAt = now_of E,
                    att_EvidenceEligibility = False, att_EvidenceIneligibleReason = [], att_ArchiveDisposition = [],
                    att_OfflineSubmissionID = []\<rparr>;
                  p = set_context (\<lambda>c. c\<lparr>ctx_AttemptID := Some (att_ID attempt)\<rparr>) p;
                  p = set_batch (\<lambda>b. b\<lparr>cb_Attempt := Some attempt\<rparr>) p;
                  p = set_payload EventAttemptSubmitted [js_attempt (ce_json E) attempt] p
              in Inr (if acmd_Help cmd = HelpAnswerRevealed then
                   (let exposure = \<lparr>exp_ID = ce_uuid E 2, exp_SessionID = sess_ID s, exp_Kind = ''answer_revealed'',
                          exp_Text = acmd_Answer cmd, exp_References = act_References activity, exp_SourceProposalID = [],
                          exp_ReceivedAt = now_of E\<rparr>;
                        p = set_batch (\<lambda>b. b\<lparr>cb_Exposures := cb_Exposures b @ [exposure]\<rparr>) p
                    in add_payload EventExposureRecorded (js_exposure (ce_json E) exposure) p)
                 else p)))"

text \<open>The artifact to judge: made from the objective rule, or the proposed one.\<close>

definition assessment_artifact ::
  "command_env \<Rightarrow> ActionCommand \<Rightarrow> Session \<Rightarrow> Activity \<Rightarrow> Attempt \<Rightarrow> error + AssessmentArtifact" where
  "assessment_artifact E cmd s activity attempt =
     (if act_Type activity = ActivityObjective then
        bindE (ce_hash_objective E activity attempt) (\<lambda>inputHash.
          Inr \<lparr>art_ID = ce_uuid E 0, art_SessionID = sess_ID s, art_AttemptID = att_ID attempt, art_ActivityID = act_ID activity,
            art_ActivityRevision = act_Revision activity, art_Items = [], art_RubricComplete = True, art_Confidence = 1000,
            art_RiskFlags = [], art_ModelID = ''deterministic-objective'', art_ModelParameters = [],
            art_PromptRevision = ''objective-rule-v1'', art_ProposalInputHash = inputHash, art_Attempts = 1,
            art_AttemptCategories = [''deterministic''], art_CreatedAt = now_of E, art_EvidenceEligibility = False,
            art_EvidenceIneligibleReason = []\<rparr>)
      else
        bindE (requireProposal E (acmd_ProposalID cmd) ProposalAssessment s) (\<lambda>proposal.
          case prop_Assessment proposal of
            None \<Rightarrow> Inl (err_code CodeStaleProposal)
          | Some a \<Rightarrow> if art_AttemptID a \<noteq> att_ID attempt \<or> art_ActivityID a \<noteq> act_ID activity
              then Inl (err_code CodeStaleProposal) else Inr a))"

definition record_artifact :: "command_env \<Rightarrow> AssessmentArtifact \<Rightarrow> KnowledgeOwner list \<Rightarrow> AssessmentDecision \<Rightarrow> prepared \<Rightarrow> prepared" where
  "record_artifact E artifact owners decision p =
     set_payload EventAssessmentRecorded [js_artifact (ce_json E) artifact]
       (set_batch (\<lambda>b. b\<lparr>cb_Assessment := Some artifact, cb_Decisions := [decision], cb_Disposition := dec_Disposition decision,
          cb_Authority := (cb_Authority b)\<lparr>ap_AssessmentItems := owners\<rparr>\<rparr>) p)"

definition record_evidence ::
  "command_env \<Rightarrow> AssessmentArtifact \<Rightarrow> AssessmentDecision \<Rightarrow> AcceptedEvidence \<Rightarrow> EvidenceOwner \<Rightarrow> MisconceptionHypothesis list
    \<Rightarrow> prepared \<Rightarrow> prepared" where
  "record_evidence E artifact decision evidence owner ms p =
     (let p = set_batch (\<lambda>b. b\<lparr>cb_Decisions := [decision], cb_Evidence := [evidence], cb_Misconceptions := ms,
            cb_Authority := (cb_Authority b)\<lparr>ap_Evidence := [(ev_ID evidence, owner)]\<rparr>\<rparr>) p;
          p = set_payload EventAssessmentAccepted [js_assessment_event (ce_json E)
            \<lparr>ape_AssessmentID = art_ID artifact, ape_NodeRevisionID = ev_NodeRevisionID evidence, ape_Reasons = [],
             ape_Decision = decision\<rparr>] p;
          p = set_payload EventEvidenceAccepted [js_evidence (ce_json E) evidence] p
      in if ms = [] then p
         else set_payload EventMisconceptionHypothesisRevised (map (js_misconception (ce_json E)) ms) p)"

text \<open>The accepted branch: one piece of evidence, its owner and the misconceptions it revises.\<close>

definition accept_evidence ::
  "command_env \<Rightarrow> string \<Rightarrow> Activity \<Rightarrow> Attempt \<Rightarrow> AssessmentArtifact \<Rightarrow> AssessmentDecision \<Rightarrow> Outcome \<Rightarrow> prepared \<Rightarrow> error + prepared" where
  "accept_evidence E i activity attempt artifact decision outcome p =
     (if att_Help attempt = HelpAnswerRevealed
      then Inl (err_reason CodeAssessmentDispositionConflict ''answer_revealed'')
      else
        let evidence = makeEvidence E i activity attempt artifact decision (art_Items artifact) outcome;
            decision = decision\<lparr>dec_ProducedEvidenceID := Some (ev_ID evidence)\<rparr>
        in bindE (evidenceAuthority activity evidence) (\<lambda>owner.
           bindE (recomputeMisconceptions E (ev_NodeRevisionID evidence) [] (Some evidence)) (\<lambda>ms.
             Inr (record_evidence E artifact decision evidence owner ms p))))"

definition prepare_assessment :: "command_env \<Rightarrow> ActionCommand \<Rightarrow> prepared \<Rightarrow> error + prepared" where
  "prepare_assessment E cmd p =
     (let s = pr_Session p
      in case (ctx_ActivityID (sess_Context s), ctx_AttemptID (sess_Context s)) of
        (Some activityID, Some attemptID) \<Rightarrow>
          bindE (au_activity (ce_authority E) activityID) (\<lambda>activity.
          bindE (au_attempt (ce_authority E) attemptID) (\<lambda>attempt.
          bindE (assessment_artifact E cmd s activity attempt) (\<lambda>artifact.
            let n = (if act_Type activity = ActivityObjective then 1 else 0);
                artifact = artifact\<lparr>
                  art_EvidenceEligibility := (att_EvidenceEligibility attempt \<or> att_EvidenceIneligibleReason attempt = []),
                  art_EvidenceIneligibleReason := att_EvidenceIneligibleReason attempt\<rparr>
            in bindE (EvaluateAssessment (ce_lib E) activity attempt artifact) (\<lambda>acceptance.
               let acceptance = (if att_EvidenceIneligibleReason attempt \<noteq> []
                     then provisional [att_EvidenceIneligibleReason attempt] else acceptance)
               in bindE (assessmentAuthority activity artifact) (\<lambda>owners.
                  let decision = \<lparr>dec_ID = ce_uuid E n, dec_AssessmentID = art_ID artifact, dec_Version = 1,
                        dec_Disposition = acc_Disposition acceptance, dec_Items = art_Items artifact, dec_Reason = [],
                        dec_ActorDeviceID = ce_device E, dec_CreatedAt = now_of E, dec_ReplacesDecisionID = None,
                        dec_ProducedEvidenceID = None\<rparr>;
                      p = record_artifact E artifact owners decision p
                  in if acc_Disposition acceptance = DispositionProvisional
                     then Inr (set_payload EventAssessmentMarkedProvisional [js_assessment_event (ce_json E)
                       \<lparr>ape_AssessmentID = art_ID artifact, ape_NodeRevisionID = act_TargetNodeRevisionID activity,
                        ape_Reasons = acc_Reasons acceptance, ape_Decision = decision\<rparr>] p)
                     else accept_evidence E (ce_uuid E (n + 1)) activity attempt artifact decision (acc_Outcome acceptance) p)))))
      | _ \<Rightarrow> Inl (err_code CodeActivityStateConflict))"

definition exposure_content :: "command_env \<Rightarrow> ActionCommand \<Rightarrow> Session \<Rightarrow> Exposure \<Rightarrow> error + Exposure" where
  "exposure_content E cmd s exposure =
     (if acmd_ProposalID cmd \<noteq> [] then
        bindE (requireProposal E (acmd_ProposalID cmd) ProposalExplanation s) (\<lambda>proposal.
          let t = the (prop_Text proposal) \<comment> \<open>present: the proposal was validated\<close>
          in Inr (exposure\<lparr>exp_Text := tp_Text t, exp_References := tp_References t, exp_SourceProposalID := prop_ID proposal\<rparr>))
      else if exp_References exposure \<noteq> [] then
        (if ctx_KnowledgeRevisionID (sess_Context s) = [] then Inl (err_code CodeKnowledgeReferenceInvalid)
         else bindE (canonicalReferences (ce_authority E) (ctx_KnowledgeRevisionID (sess_Context s)) (exp_References exposure) None)
                (\<lambda>refs. Inr (exposure\<lparr>exp_References := refs\<rparr>)))
      else Inr exposure)"

definition prepare_exposure :: "command_env \<Rightarrow> ActionCommand \<Rightarrow> prepared \<Rightarrow> error + prepared" where
  "prepare_exposure E cmd p =
     (let s = pr_Session p
      in bindE (exposure_content E cmd s \<lparr>exp_ID = ce_uuid E 0, exp_SessionID = sess_ID s, exp_Kind = acmd_ExposureKind cmd,
             exp_Text = acmd_ExposureText cmd, exp_References = acmd_References cmd, exp_SourceProposalID = [],
             exp_ReceivedAt = now_of E\<rparr>) (\<lambda>exposure.
           let exposure = (if acmd_ProposalID cmd \<noteq> [] \<and> exp_Kind exposure = []
                 then exposure\<lparr>exp_Kind := ''explanation''\<rparr> else exposure)
           in if exp_Kind exposure \<noteq> ''reading'' \<and> exp_Kind exposure \<noteq> ''explanation''
              then Inl (err_reason CodeInvalidRequest ''invalid_exposure_kind'')
              else if trim_space (exp_Text exposure) = [] then Inl (err_code CodeInvalidRequest)
              else Inr (set_payload EventExposureRecorded [js_exposure (ce_json E) exposure]
                     (set_batch (\<lambda>b. b\<lparr>cb_Exposures := [exposure]\<rparr>) p))))"

definition prepare_question :: "command_env \<Rightarrow> ActionCommand \<Rightarrow> prepared \<Rightarrow> error + prepared" where
  "prepare_question E cmd p =
     (if trim_space (acmd_Question cmd) = [] \<or> rune_count (acmd_Question cmd) > MaxQuestionRunes
      then Inl (err_code CodeInvalidRequest)
      else
        let s = pr_Session p;
            frameID = (case sess_ActiveFrame s of None \<Rightarrow> ce_uuid E 0 | Some f \<Rightarrow> frame_ID f);
            question = \<lparr>fq_ID = ce_uuid E 1, fq_SessionID = sess_ID s, fq_FocusFrameID = frameID, fq_SessionAggregateVer = 0,
              fq_Text = acmd_Question cmd, fq_KnowledgeRevisionID = ctx_KnowledgeRevisionID (sess_Context s), fq_References = [],
              fq_ActorDeviceID = ce_device E, fq_OccurredAt = op_OccurredAt (acmd_Operation cmd), fq_ReceivedAt = now_of E\<rparr>;
            p = p\<lparr>pr_Command := (pr_Command p)\<lparr>cmd_FrameID := frameID\<rparr>\<rparr>;
            p = set_batch (\<lambda>b. b\<lparr>cb_FreeQuestion := Some question\<rparr>) p
        in Inr (set_payload EventFreeQuestionAsked [js_question (ce_json E) question] p))"

definition prepare_answer :: "command_env \<Rightarrow> ActionCommand \<Rightarrow> prepared \<Rightarrow> error + prepared" where
  "prepare_answer E cmd p =
     (let s = pr_Session p
      in bindE (requireProposal E (acmd_ProposalID cmd) ProposalFreeAnswer s) (\<lambda>proposal.
        case prop_Text proposal of
          None \<Rightarrow> Inl (err_code CodeFocusFrameInvalidated)
        | Some t \<Rightarrow>
            if \<not> validActiveFocusFrame s then Inl (err_code CodeFocusFrameInvalidated)
            else bindE (au_latest_question (ce_authority E) (sess_ID s) (frame_ID (active_frame s))) (\<lambda>questionID.
              bindE (au_question (ce_authority E) questionID) (\<lambda>question.
                if questionID \<noteq> preq_FreeQuestionID (prop_FrozenRequest proposal)
                   \<or> \<not> currentFreeQuestionMatchesSession s question
                   \<or> prop_KnowledgeRevisionID proposal \<noteq> fq_KnowledgeRevisionID question
                then Inl (stale ''free_question_context_changed'')
                else
                  let answer = \<lparr>fa_ID = ce_uuid E 0, fa_SessionID = sess_ID s, fa_FocusFrameID = frame_ID (active_frame s),
                        fa_FreeQuestionID = questionID, fa_Text = tp_Text t,
                        fa_KnowledgeRevisionID = prop_KnowledgeRevisionID proposal, fa_References = toFrozen (tp_References t),
                        fa_SourceProposalID = prop_ID proposal, fa_ReceivedAt = now_of E\<rparr>;
                      exposure = \<lparr>exp_ID = ce_uuid E 1, exp_SessionID = sess_ID s, exp_Kind = ''free_answer'',
                        exp_Text = fa_Text answer, exp_References = tp_References t, exp_SourceProposalID = prop_ID proposal,
                        exp_ReceivedAt = now_of E\<rparr>;
                      p = set_batch (\<lambda>b. b\<lparr>cb_FreeAnswer := Some answer, cb_Exposures := [exposure]\<rparr>) p;
                      p = set_payload EventFreeAnswerRecorded [js_answer (ce_json E) answer] p
                  in Inr (set_payload EventExposureRecorded [js_exposure (ce_json E) exposure] p)))))"

definition prepare_switch_goal :: "command_env \<Rightarrow> ActionCommand \<Rightarrow> prepared \<Rightarrow> error + prepared" where
  "prepare_switch_goal E cmd p =
     (let s = pr_Session p
      in bindE (au_goal (ce_authority E) (ctx_GoalRevisionID (sess_Context s))) (\<lambda>previousGoal.
         bindE (au_goal (ce_authority E) (acmd_GoalRevisionID cmd)) (\<lambda>replacement.
           if goal_GoalID previousGoal \<noteq> goal_GoalID replacement
           then Inl (err_reason CodeInvalidTransition ''different_goal_requires_new_session'')
           else if acmd_GoalRevisionID cmd = [] then Inl (err_code CodeInvalidRequest)
           else bindE (au_goal (ce_authority E) (acmd_GoalRevisionID cmd)) (\<lambda>goal.
             let p = set_context (\<lambda>_. empty_context\<lparr>ctx_GoalRevisionID := acmd_GoalRevisionID cmd\<rparr>) p;
                 p = set_batch (\<lambda>b. b\<lparr>cb_InvalidateFrame := True\<rparr>) p
             in Inr (p\<lparr>pr_Expectations := pr_Expectations p @
                  [\<lparr>ae_Type = ''goal'', ae_ID = goal_GoalID goal, ae_ExpectedVersion = goal_Revision goal\<rparr>]\<rparr>)))))"

text \<open>The steps after the current one; the code looks the current step up by its index.\<close>

fun steps_after :: "string \<Rightarrow> RouteStep list \<Rightarrow> RouteStep list option" where
  "steps_after i [] = None"
| "steps_after i (st # sts) = (if step_ID st = i then Some sts else steps_after i sts)"

definition prepare_acknowledge :: "command_env \<Rightarrow> prepared \<Rightarrow> error + prepared" where
  "prepare_acknowledge E p =
     (let s = pr_Session p; c = sess_Context s
      in if sess_AttachedQuiz s then Inr p
         else if ctx_RouteRevisionID c = [] \<or> ctx_RouteStepID c = []
         then Inl (err_reason CodeInvalidTransition ''route_context_missing'')
         else bindE (au_route (ce_authority E) (ctx_RouteRevisionID c)) (\<lambda>route.
           if route_ID route \<noteq> ctx_RouteRevisionID c \<or> route_GoalRevisionID route \<noteq> ctx_GoalRevisionID c
              \<or> route_KnowledgeRevisionID route \<noteq> ctx_KnowledgeRevisionID c
           then Inl (err_reason CodeInvalidTransition ''route_ownership'')
           else case steps_after (ctx_RouteStepID c) (route_Steps route) of
               None \<Rightarrow> Inl (err_reason CodeInvalidTransition ''route_step_missing'')
             | Some [] \<Rightarrow>
                 let p = set_context (\<lambda>c. c\<lparr>ctx_ActivityID := None, ctx_AttemptID := None\<rparr>) p
                 in Inr (p\<lparr>pr_Command := (pr_Command p)\<lparr>cmd_Complete := True\<rparr>,
                           pr_Session := (pr_Session p)\<lparr>sess_CompletedRoute := True\<rparr>\<rparr>)
             | Some (st # _) \<Rightarrow>
                 Inr (set_context (\<lambda>c. c\<lparr>ctx_RouteStepID := step_ID st, ctx_FocusNodeRevisionID := step_NodeRevisionID st,
                   ctx_ActivityID := None, ctx_AttemptID := None\<rparr>) p)))"

definition prepare_action :: "command_env \<Rightarrow> ActionCommand \<Rightarrow> prepared \<Rightarrow> error + prepared" where
  "prepare_action E cmd p =
     (case acmd_Action cmd of
        ActionApplyRoute \<Rightarrow> prepare_route E cmd p
      | ActionIssueActivity \<Rightarrow> prepare_activity E cmd p
      | ActionPresentReview \<Rightarrow> prepare_activity E cmd p
      | ActionConvertFreeAnswerToQuiz \<Rightarrow> prepare_activity E cmd p
      | ActionPresentActivity \<Rightarrow> prepare_present E p
      | ActionSubmitAttempt \<Rightarrow> prepare_attempt E cmd p
      | ActionRecordAssessment \<Rightarrow> prepare_assessment E cmd p
      | ActionRecordExposure \<Rightarrow> prepare_exposure E cmd p
      | ActionAskFreeQuestion \<Rightarrow> prepare_question E cmd p
      | ActionRecordFreeAnswer \<Rightarrow> prepare_answer E cmd p
      | ActionSwitchGoal \<Rightarrow> prepare_switch_goal E cmd p
      | ActionAcknowledgeFeedback \<Rightarrow> prepare_acknowledge E p
      | ActionResumeFocus \<Rightarrow> Inr (set_batch (\<lambda>b. b\<lparr>cb_ResumeFrame := True\<rparr>) p)
      | ActionEndActivity \<Rightarrow> Inr (set_batch (\<lambda>b. b\<lparr>cb_InvalidateFrame := \<not> HasAdaptiveFocus (pr_Session p)\<rparr>) p)
      | ActionCompleteSession \<Rightarrow> Inr (set_batch (\<lambda>b. b\<lparr>cb_InvalidateFrame := \<not> HasAdaptiveFocus (pr_Session p)\<rparr>) p)
      | ActionStartDiagnostic \<Rightarrow> Inr p
      | _ \<Rightarrow> Inl (err_code CodeInvalidRequest))"

section \<open>The handlers\<close>

definition version_conflict :: "string \<Rightarrow> string \<Rightarrow> int \<Rightarrow> int \<Rightarrow> int \<Rightarrow> error" where
  "version_conflict kind i expected current asOf = LearningError (no_error_fields\<lparr>err_Code := CodeVersionConflict,
     err_AggregateType := kind, err_AggregateID := i, err_ExpectedVersion := expected, err_CurrentVersion := current,
     err_AsOfEventSequence := asOf\<rparr>) None"

definition guardFeedbackExit :: "command_env \<Rightarrow> Session \<Rightarrow> Action \<Rightarrow> error option" where
  "guardFeedbackExit E s action =
     (if sess_State s \<noteq> StateFeedback
         \<or> (action \<noteq> ActionAcknowledgeFeedback \<and> action \<noteq> ActionEndActivity \<and> action \<noteq> ActionSwitchGoal)
      then None
      else case ctx_AttemptID (sess_Context s) of
          None \<Rightarrow> Some (err_reason CodeActivityStateConflict ''feedback_attempt_missing'')
        | Some attemptID \<Rightarrow>
            (case au_assessment_for_attempt (ce_authority E) attemptID of
               Inl e \<Rightarrow> Some e
             | Inr (artifact, decision) \<Rightarrow>
                 if art_SessionID artifact \<noteq> sess_ID s \<or> art_AttemptID artifact \<noteq> attemptID
                    \<or> dec_AssessmentID decision \<noteq> art_ID artifact
                 then Some (err_reason CodeActivityStateConflict ''feedback_assessment_ownership'')
                 else if dec_Disposition decision = DispositionProvisional
                 then Some (LearningError (no_error_fields\<lparr>err_Code := CodeAssessmentDispositionConflict,
                   err_CurrentDisposition := disposition_text (dec_Disposition decision),
                   err_Reason := ''provisional_feedback_unresolved''\<rparr>) None)
                 else None))"

definition session_fence :: "Session \<Rightarrow> int \<Rightarrow> AggregateExpectation" where
  "session_fence s v = \<lparr>ae_Type = ''session'', ae_ID = sess_ID s, ae_ExpectedVersion = v\<rparr>"

definition start_prepared :: "string \<Rightarrow> ActionCommand \<Rightarrow> Session \<Rightarrow> prepared" where
  "start_prepared sessionID cmd s =
     \<lparr>pr_Session = s,
      pr_Command = \<lparr>cmd_Action = acmd_Action cmd, cmd_SessionID = sessionID, cmd_FrameID = [],
        cmd_CreatedEventSequence = 0, cmd_Complete = acmd_Complete cmd, cmd_Context = None\<rparr>,
      pr_Batch = empty_batch,
      pr_Expectations = [session_fence s (op_ExpectedVersion (acmd_Operation cmd))], pr_Payloads = []\<rparr>"

text \<open>Everything of \<open>applyAction\<close> up to the accepted transition, and then the commit.\<close>

definition run_action :: "command_env \<Rightarrow> string \<Rightarrow> ActionCommand \<Rightarrow> error + (prepared \<times> Transition)" where
  "run_action E sessionID cmd =
     (let op = acmd_Operation cmd
      in checkE (ValidateOperation (ce_lib E) op)
        (if op_AggregateType op \<noteq> ''session'' \<or> op_AggregateID op \<noteq> sessionID then Inl (err_code CodeInvalidRequest)
         else bindE (au_session (ce_authority E) sessionID) (\<lambda>auth.
           let s = sa_Session auth
           in if sess_AggregateVer s \<noteq> op_ExpectedVersion op
              then Inl (version_conflict ''session'' sessionID (op_ExpectedVersion op) (sess_AggregateVer s) (sa_AsOfEventSequence auth))
              else checkE (guardFeedbackExit E s (acmd_Action cmd))
                (bindE (prepare_action E cmd (start_prepared sessionID cmd s)) (\<lambda>p.
                  case Apply (pr_Session p) (pr_Command p) of
                    Inl e \<Rightarrow> Inl (mapTransitionError e)
                  | Inr tr \<Rightarrow> Inr (p, tr))))))"

definition finish_action ::
  "command_env \<Rightarrow> ActionCommand \<Rightarrow> prepared \<Rightarrow> Transition \<Rightarrow> EventDraft list \<Rightarrow> error + CommitRequest" where
  "finish_action E cmd p tr events =
     (let s = tr_Session tr;
          b = pr_Batch p;
          b = b\<lparr>cb_Session := Some s,
                cb_FocusFrame := (case sess_ActiveFrame s of None \<Rightarrow> cb_FocusFrame b | Some f \<Rightarrow> Some f),
                cb_TutoringState := state_text (sess_State s), cb_ResultSession := True, cb_Events := events\<rparr>
      in commit_request E (acmd_Operation cmd) (pr_Expectations p) b (ce_hash_action E cmd))"

definition applyAction :: "command_env \<Rightarrow> string \<Rightarrow> ActionCommand \<Rightarrow> (error + CommitRequest) option" where
  "applyAction E sessionID cmd =
     (case run_action E sessionID cmd of
        Inl e \<Rightarrow> Some (Inl e)
      | Inr (p, tr) \<Rightarrow>
          map_option (finish_action E cmd p tr)
            (transitionDrafts (ce_json E) (sess_ID (tr_Session tr)) tr (pr_Payloads p)))"

definition createGoal :: "command_env \<Rightarrow> GoalCommand \<Rightarrow> (error + CommitRequest) option" where
  "createGoal E command =
     (let op = gcmd_Operation command
      in Some (checkE (ValidateOperation (ce_lib E) op)
        (if op_AggregateType op \<noteq> ''goal'' \<or> op_AggregateID op = [] \<or> ValidateGoal (gcmd_Text command) \<noteq> None
            \<or> ValidateGoalSource (gcmd_Source command) \<noteq> None
         then Inl (err_code CodeInvalidRequest)
         else
           let goalID = (if gcmd_GoalID command = [] then op_AggregateID op else gcmd_GoalID command);
               command = command\<lparr>gcmd_GoalID := goalID\<rparr>
           in if goalID \<noteq> op_AggregateID op then Inl (err_code CodeInvalidRequest)
              else bindE (if op_ExpectedVersion op = 0 then
                  (if gcmd_PreviousRevisionID command \<noteq> None
                   then Inl (err_reason CodeInvalidRequest ''first_goal_revision_has_previous'') else Inr None)
                else (case gcmd_PreviousRevisionID command of
                    None \<Rightarrow> Inl (err_reason CodeInvalidRequest ''previous_goal_revision_required'')
                  | Some previousID \<Rightarrow>
                      if previousID = [] then Inl (err_reason CodeInvalidRequest ''previous_goal_revision_required'')
                      else bindE (au_goal (ce_authority E) previousID) (\<lambda>previous.
                        if goal_ID previous \<noteq> previousID \<or> goal_GoalID previous \<noteq> goalID
                           \<or> goal_Revision previous \<noteq> op_ExpectedVersion op
                        then Inl (err_reason CodeInvalidRequest ''goal_revision_lineage'')
                        else if LearningSpaceID previous \<noteq> Scope (ce_scope E) then Inl (err_code CodeNotFound)
                        else Inr (Some previous)))) (\<lambda>previous.
              bindE (nextGoalManagement (ce_lib E) (ce_goal_hashes E) previous command (ce_device E) (now_of E)) (\<lambda>management.
                let v = \<lparr>goal_SpaceID = Scope (ce_scope E), goal_Management = Some management, goal_ID = ce_uuid E 0,
                      goal_GoalID = goalID, goal_Revision = int64 (op_ExpectedVersion op + 1),
                      goal_Text = trim_space (gcmd_Text command), goal_Source = trim_space (gcmd_Source command),
                      goal_ActorDeviceID = ce_device E, goal_CreatedAt = now_of E,
                      goal_PreviousRevisionID = gcmd_PreviousRevisionID command\<rparr>;
                    b = empty_batch\<lparr>cb_GoalRevision := Some v,
                      cb_Events := [draft EventGoalRevisionCreated ''goal'' goalID (js_goal (ce_json E) v)],
                      cb_TypedResult := js_goal (ce_json E) v\<rparr>
                in commit_request E op [\<lparr>ae_Type = ''goal'', ae_ID = goalID, ae_ExpectedVersion = op_ExpectedVersion op\<rparr>]
                     b (ce_hash_goal E command))))))"

definition ReviewTaskID :: "command_env \<Rightarrow> string \<Rightarrow> string \<Rightarrow> string" where
  "ReviewTaskID E goal node = ce_sha1_uuid E (''edu-agent/review/v1/'' @ goal @ ''/'' @ node)"

definition prepareReviewSession ::
  "command_env \<Rightarrow> SessionCommand \<Rightarrow> ReviewSessionSource \<Rightarrow> Session \<Rightarrow> error + (Session \<times> AggregateExpectation)" where
  "prepareReviewSession E command source s =
     (if lib_uuid_parse (ce_lib E) (rss_TaskID source) = None \<or> lib_uuid_parse (ce_lib E) (rss_EvidenceID source) = None
         \<or> lib_uuid_parse (ce_lib E) (rss_AttemptID source) = None
      then Inl (err_code CodeInvalidRequest)
      else bindE (ce_feedback E (rss_AttemptID source)) (\<lambda>view.
        let activity = fv_Activity view
        in if goal_ID (fv_Goal view) \<noteq> scmd_GoalRevisionID command
              \<or> rss_TaskID source \<noteq> ReviewTaskID E (goal_GoalID (fv_Goal view)) (act_TargetNodeRevisionID activity)
           then Inl (err_reason CodeInvalidRequest ''review_source_mismatch'')
           else if \<not> (\<exists>e \<in> set (fv_Evidence view). ev_ID e = rss_EvidenceID source)
           then Inl (err_reason CodeInvalidTransition ''review_evidence_unavailable'')
           else Inr (s\<lparr>sess_State := StateRouteActive, sess_Context := \<lparr>ctx_GoalRevisionID = act_GoalRevisionID activity,
                  ctx_RouteRevisionID = act_RouteRevisionID activity, ctx_RouteStepID = act_RouteStepID activity,
                  ctx_KnowledgeRevisionID = act_KnowledgeRevisionID activity,
                  ctx_FocusNodeRevisionID = act_TargetNodeRevisionID activity, ctx_ActivityID = None, ctx_AttemptID = None\<rparr>\<rparr>,
                  \<lparr>ae_Type = ''session'', ae_ID = act_SessionID activity, ae_ExpectedVersion = fv_SessionVersion view\<rparr>)))"

text \<open>The transition of a new session, its batch without the events, and the expectations.\<close>

definition run_session :: "command_env \<Rightarrow> SessionCommand \<Rightarrow> error + (Transition \<times> CommandBatch \<times> AggregateExpectation list)" where
  "run_session E command =
     (let op = scmd_Operation command
      in checkE (ValidateOperation (ce_lib E) op)
        (if op_AggregateType op \<noteq> ''session'' \<or> scmd_GoalRevisionID command = [] \<or> op_ExpectedVersion op \<noteq> 0
         then Inl (err_code CodeInvalidRequest)
         else bindE (au_goal (ce_authority E) (scmd_GoalRevisionID command)) (\<lambda>_.
           let s = (idle_session (op_AggregateID op))\<lparr>sess_Context := empty_context\<lparr>ctx_GoalRevisionID := scmd_GoalRevisionID command\<rparr>\<rparr>
           in case Apply s \<lparr>cmd_Action = ActionCreateSession, cmd_SessionID = sess_ID s, cmd_FrameID = [],
                  cmd_CreatedEventSequence = 0, cmd_Complete = False, cmd_Context = None\<rparr> of
               Inl e \<Rightarrow> Inl (mapTransitionError e)
             | Inr tr \<Rightarrow>
                 let s = tr_Session tr;
                     b = empty_batch\<lparr>cb_Session := Some s, cb_TutoringState := state_text (sess_State s), cb_ResultSession := True\<rparr>;
                     fences = [session_fence s 0]
                 in case scmd_ReviewSource command of
                     None \<Rightarrow> Inr (tr, b, fences)
                   | Some source \<Rightarrow> bindE (prepareReviewSession E command source s) (\<lambda>(s, fence).
                       Inr (tr\<lparr>tr_Session := s, tr_After := sess_State s\<rparr>,
                            b\<lparr>cb_Session := Some s, cb_ReviewSource := Some source, cb_TutoringState := state_text (sess_State s)\<rparr>,
                            fences @ [fence])))))"

definition createSession :: "command_env \<Rightarrow> SessionCommand \<Rightarrow> (error + CommitRequest) option" where
  "createSession E command =
     (case run_session E command of
        Inl e \<Rightarrow> Some (Inl e)
      | Inr (tr, b, fences) \<Rightarrow>
          map_option (\<lambda>events. commit_request E (scmd_Operation command) fences (b\<lparr>cb_Events := events\<rparr>) (ce_hash_session E command))
            (transitionDrafts (ce_json E) (sess_ID (tr_Session tr)) tr []))"

text \<open>
  \<open>decide\<close>: the immutable chain of the assessment, the effect of the decision, and its batch. The
  identifiers are drawn for the decision, then for an invalidation, then for new evidence.
\<close>

definition decision_chain ::
  "command_env \<Rightarrow> string \<Rightarrow> AssessmentDecisionCommand
    \<Rightarrow> error + (Session \<times> AssessmentArtifact \<times> AssessmentDecision \<times> Activity \<times> Attempt)" where
  "decision_chain E assessmentID command =
     (let op = adc_Operation command
      in checkE (ValidateOperation (ce_lib E) op)
        (if op_AggregateType op \<noteq> ''session'' \<or> op_AggregateID op = [] \<or> assessmentID = [] then Inl (err_code CodeInvalidRequest)
         else bindE (au_session (ce_authority E) (op_AggregateID op)) (\<lambda>auth.
           let s = sa_Session auth
           in if sess_AggregateVer s \<noteq> op_ExpectedVersion op
              then Inl (version_conflict ''session'' (sess_ID s) (op_ExpectedVersion op) (sess_AggregateVer s) (sa_AsOfEventSequence auth))
              else bindE (au_assessment (ce_authority E) assessmentID) (\<lambda>(artifact, current).
                if art_ID artifact \<noteq> assessmentID \<or> art_SessionID artifact \<noteq> sess_ID s
                   \<or> dec_AssessmentID current \<noteq> art_ID artifact
                then Inl (err_reason CodeActivityStateConflict ''assessment_decision_not_current'')
                else bindE (au_activity (ce_authority E) (art_ActivityID artifact)) (\<lambda>activity.
                     bindE (au_attempt (ce_authority E) (art_AttemptID artifact)) (\<lambda>attempt.
                       if act_SessionID activity \<noteq> sess_ID s \<or> att_SessionID attempt \<noteq> sess_ID s
                          \<or> act_ID activity \<noteq> art_ActivityID artifact \<or> act_Revision activity \<noteq> art_ActivityRevision artifact
                          \<or> att_ID attempt \<noteq> art_AttemptID artifact \<or> att_ActivityID attempt \<noteq> act_ID activity
                          \<or> att_ActivityRevision attempt \<noteq> act_Revision activity \<or> att_OfflineSubmissionID attempt \<noteq> []
                       then Inl (err_reason CodeActivityStateConflict ''assessment_decision_chain_mismatch'')
                       else Inr (s, artifact, current, activity, attempt)))))))"

definition decision_effect ::
  "command_env \<Rightarrow> AssessmentDecisionCommand \<Rightarrow> AssessmentArtifact \<Rightarrow> AssessmentDecision \<Rightarrow> Activity \<Rightarrow> Attempt
    \<Rightarrow> error + DecisionEffect" where
  "decision_effect E command artifact current activity attempt =
     bindE (DecideAssessment current artifact
         \<lparr>dc_Kind = adc_Kind command, dc_ExpectedVersion = adc_ExpectedDispositionVersion command,
          dc_Reason = adc_Reason command, dc_Items = adc_Items command\<rparr>
         (ConfirmableAssessment (ce_lib E) activity attempt artifact)) (\<lambda>effect.
       let conflict = (\<lambda>reason. LearningError (no_error_fields\<lparr>err_Code := CodeAssessmentDispositionConflict,
             err_CurrentDisposition := disposition_text (dec_Disposition current), err_Reason := reason\<rparr>) None)
       in if de_CreateEvidence effect \<and> att_EvidenceIneligibleReason attempt \<noteq> []
          then Inl (conflict (att_EvidenceIneligibleReason attempt))
          else if de_CreateEvidence effect \<and> att_Help attempt = HelpAnswerRevealed then Inl (conflict ''answer_revealed'')
          else Inr effect)"

text \<open>The evidence of the decision with its owner, when the effect creates one.\<close>

fun with_disposition :: "AssessmentDecision \<Rightarrow> error \<Rightarrow> error" where
  "with_disposition current (LearningError f cause) =
     (if err_Code f = CodeAssessmentDispositionConflict \<and> err_CurrentDisposition f = []
      then LearningError (f\<lparr>err_CurrentDisposition := disposition_text (dec_Disposition current)\<rparr>) cause
      else LearningError f cause)"
| "with_disposition current e = e"

definition decision_evidence ::
  "command_env \<Rightarrow> string \<Rightarrow> AssessmentArtifact \<Rightarrow> AssessmentDecision \<Rightarrow> Activity \<Rightarrow> Attempt \<Rightarrow> DecisionEffect
    \<Rightarrow> AssessmentDecision \<Rightarrow> error + (AcceptedEvidence \<times> EvidenceOwner) option" where
  "decision_evidence E i artifact current activity attempt effect decision =
     (if \<not> de_CreateEvidence effect then Inr None
      else case ValidateAssessmentReplacement (ce_lib E) activity attempt artifact (de_Items effect) of
          Inl e \<Rightarrow> Inl (with_disposition current e)
        | Inr outcome \<Rightarrow>
            let evidence = makeEvidence E i activity attempt artifact decision (de_Items effect) outcome
            in bindE (evidenceAuthority activity evidence) (\<lambda>owner. Inr (Some (evidence, owner))))"

definition decision_event :: "Disposition \<Rightarrow> EventType" where
  "decision_event d = (if d = DispositionAccepted then EventAssessmentAccepted
     else if d = DispositionVoided then EventAssessmentVoided else EventAssessmentOverridden)"

definition decision_events ::
  "command_codec \<Rightarrow> Session \<Rightarrow> AssessmentArtifact \<Rightarrow> string \<Rightarrow> AssessmentDecision \<Rightarrow> string \<Rightarrow> AcceptedEvidence option
    \<Rightarrow> MisconceptionHypothesis list \<Rightarrow> EventDraft list" where
  "decision_events C s artifact node decision invalidated created ms =
     (let sid = art_SessionID artifact
      in [draft (decision_event (dec_Disposition decision)) ''session'' sid (js_assessment_event C
            \<lparr>ape_AssessmentID = art_ID artifact, ape_NodeRevisionID = node, ape_Reasons = [], ape_Decision = decision\<rparr>)]
         @ (if invalidated \<noteq> [] then [draft EventEvidenceInvalidated ''session'' sid (js_evidence_id C invalidated)] else [])
         @ (case created of None \<Rightarrow> [] | Some e \<Rightarrow> [draft EventEvidenceAccepted ''session'' sid (js_evidence C e)])
         @ map (\<lambda>m. draft EventMisconceptionHypothesisRevised ''session'' sid (js_misconception C m)) ms
         @ [draft EventTutoringStateChanged ''session'' sid (js_session C \<lparr>sp_Session = s, sp_UpdatedEventSequence = 0\<rparr>)])"

definition decide_batch ::
  "command_env \<Rightarrow> AssessmentDecisionCommand \<Rightarrow> Session \<Rightarrow> AssessmentArtifact \<Rightarrow> AssessmentDecision \<Rightarrow> Activity \<Rightarrow> Attempt
    \<Rightarrow> DecisionEffect \<Rightarrow> error + CommandBatch" where
  "decide_batch E command s artifact current activity attempt effect =
     (let decision = \<lparr>dec_ID = ce_uuid E 0, dec_AssessmentID = art_ID artifact, dec_Version = int64 (dec_Version current + 1),
            dec_Disposition = de_Disposition effect, dec_Items = de_Items effect, dec_Reason = adc_Reason command,
            dec_ActorDeviceID = ce_device E, dec_CreatedAt = now_of E, dec_ReplacesDecisionID = Some (dec_ID current),
            dec_ProducedEvidenceID = None\<rparr>;
          node = act_TargetNodeRevisionID activity;
          invalidating = de_InvalidateEvidence effect \<and> dec_ProducedEvidenceID current \<noteq> None;
          invalidated = (if invalidating then the (dec_ProducedEvidenceID current) else []);
          invalidations = (if invalidating then [\<lparr>inv_ID = ce_uuid E 1, inv_EvidenceID = invalidated,
            inv_DecisionID = Some (dec_ID decision), inv_Reason = adc_Kind command, inv_EventSeq = 0, inv_CreatedAt = None\<rparr>] else [])
      in bindE (decision_evidence E (ce_uuid E (if invalidating then 2 else 1)) artifact current activity attempt effect decision)
           (\<lambda>produced.
         let decision = (case produced of None \<Rightarrow> decision
               | Some (e, _) \<Rightarrow> decision\<lparr>dec_ProducedEvidenceID := Some (ev_ID e)\<rparr>);
             created = map_option fst produced
         in bindE (if invalidated \<noteq> [] \<or> created \<noteq> None then recomputeMisconceptions E node invalidated created else Inr [])
              (\<lambda>ms.
            Inr (empty_batch\<lparr>cb_Session := Some s, cb_Decisions := [decision], cb_Disposition := de_Disposition effect,
              cb_TutoringState := state_text (sess_State s), cb_Invalidations := invalidations,
              cb_Evidence := (case created of None \<Rightarrow> [] | Some e \<Rightarrow> [e]),
              cb_Authority := \<lparr>ap_RouteSteps = [], ap_AssessmentItems = [],
                ap_Evidence = (case produced of None \<Rightarrow> [] | Some (e, owner) \<Rightarrow> [(ev_ID e, owner)])\<rparr>,
              cb_Misconceptions := ms,
              cb_Events := decision_events (ce_json E) s artifact node decision invalidated created ms,
              cb_TypedResult := js_decision (ce_json E) decision\<rparr>))))"

definition decide :: "command_env \<Rightarrow> string \<Rightarrow> AssessmentDecisionCommand \<Rightarrow> error + CommitRequest" where
  "decide E assessmentID command =
     bindE (decision_chain E assessmentID command) (\<lambda>(s, artifact, current, activity, attempt).
     bindE (decision_effect E command artifact current activity attempt) (\<lambda>effect.
     bindE (decide_batch E command s artifact current activity attempt effect) (\<lambda>b.
       commit_request E (adc_Operation command)
         [\<lparr>ae_Type = ''session'', ae_ID = art_SessionID artifact, ae_ExpectedVersion = op_ExpectedVersion (adc_Operation command)\<rparr>]
         b (ce_hash_decision E command))))"

section \<open>Operations and their archive\<close>

record OperationLookup =
  ol_DeviceID :: string
  ol_OperationID :: string
  ol_RequestHash :: string

record OperationRejection =
  or_Lookup :: OperationLookup
  or_AggregateType :: string
  or_AggregateID :: string
  or_Expectations :: "AggregateExpectation list"
  or_Error :: ErrorFields
  or_CompletedAt :: time

definition archivable_code :: "ErrCode \<Rightarrow> bool" where
  "archivable_code c \<longleftrightarrow> c \<in> {CodeInvalidRequest, CodeNotFound, CodeVersionConflict, CodeInvalidTransition,
     CodeActivityStateConflict, CodeKnowledgeReferenceInvalid, CodeStaleProposal, CodeProposalRejected,
     CodeAssessmentDispositionConflict, CodeFocusFrameInvalidated}"

definition archivableRejection :: "error \<Rightarrow> bool" where
  "archivableRejection e \<longleftrightarrow> archivable_code (ErrorCode e)"

definition rejection_fences :: "OperationEnvelope \<Rightarrow> ErrorFields \<Rightarrow> AggregateExpectation list" where
  "rejection_fences op f =
     (let fence = \<lparr>ae_Type = op_AggregateType op, ae_ID = op_AggregateID op, ae_ExpectedVersion = op_ExpectedVersion op\<rparr>;
          conflict = \<lparr>ae_Type = err_AggregateType f, ae_ID = err_AggregateID f, ae_ExpectedVersion = err_ExpectedVersion f\<rparr>
      in if err_Code f = CodeVersionConflict \<and> err_AggregateType f \<noteq> [] \<and> err_AggregateID f \<noteq> []
            \<and> (ae_Type conflict \<noteq> ae_Type fence \<or> ae_ID conflict \<noteq> ae_ID fence)
         then [fence, conflict] else [fence])"

text \<open>
  \<open>authorityOperation\<close> over a store with a state: the archive is asked first, a found answer is the
  answer; otherwise the command runs, a successful one is committed, an archivable rejection is
  archived, and any other error leaves the store alone. A looked-up answer is a result, an error,
  or nothing; \<open>None\<close> for the whole is a command that does not return.
\<close>

datatype lookup_answer = NotFound | FoundResult OperationResult | FoundError error

record 's archive_store =
  st_lookup :: "OperationLookup \<Rightarrow> 's \<Rightarrow> lookup_answer"
  st_commit :: "CommitRequest \<Rightarrow> 's \<Rightarrow> (error + OperationResult) \<times> 's"
  st_archive :: "OperationRejection \<Rightarrow> 's \<Rightarrow> (error + OperationResult) \<times> 's"

fun rejection_of :: "error \<Rightarrow> ErrorFields option" where
  "rejection_of (LearningError f _) = (if archivable_code (err_Code f) then Some f else None)"
| "rejection_of _ = None"

definition authorityOperation ::
  "'s archive_store \<Rightarrow> string \<Rightarrow> OperationEnvelope \<Rightarrow> error + string \<Rightarrow> time \<Rightarrow> (error + CommitRequest) option \<Rightarrow> 's
    \<Rightarrow> ((error + OperationResult) \<times> 's) option" where
  "authorityOperation S device op hash now execute s =
     (case hash of
        Inl e \<Rightarrow> Some (Inl e, s)
      | Inr h \<Rightarrow>
          let lookup = \<lparr>ol_DeviceID = device, ol_OperationID = op_OperationID op, ol_RequestHash = h\<rparr>
          in case st_lookup S lookup s of
              FoundResult r \<Rightarrow> Some (Inr r, s)
            | FoundError e \<Rightarrow> Some (Inl e, s)
            | NotFound \<Rightarrow>
                Option.bind execute (\<lambda>outcome. Some (
                  let (result, s') = (case outcome of Inl e \<Rightarrow> (Inl e, s) | Inr request \<Rightarrow> st_commit S request s)
                  in case result of
                      Inr r \<Rightarrow> (Inr r, s')
                    | Inl e \<Rightarrow>
                        (case rejection_of e of
                           None \<Rightarrow> (Inl e, s')
                         | Some f \<Rightarrow> st_archive S \<lparr>or_Lookup = lookup, or_AggregateType = op_AggregateType op,
                             or_AggregateID = op_AggregateID op, or_Expectations = rejection_fences op f, or_Error = f,
                             or_CompletedAt = trunc_microsecond now\<rparr> s'))))"

text \<open>The entry points of the service. What the store answers depends on its state.\<close>

definition CreateGoal ::
  "'s archive_store \<Rightarrow> ('s \<Rightarrow> command_env) \<Rightarrow> GoalCommand \<Rightarrow> 's \<Rightarrow> ((error + OperationResult) \<times> 's) option" where
  "CreateGoal S env command s =
     (let E = env s;
          command = (if gcmd_GoalID command = [] then command\<lparr>gcmd_GoalID := op_AggregateID (gcmd_Operation command)\<rparr> else command)
      in if gcmd_SpaceID command \<noteq> [] \<and> gcmd_SpaceID command \<noteq> Scope (ce_scope E) then Some (Inl (err_code CodeInvalidRequest), s)
         else
           let command = (if Scope (ce_scope E) \<noteq> DefaultID then command\<lparr>gcmd_SpaceID := Scope (ce_scope E)\<rparr> else command)
           in authorityOperation S (ce_device E) (gcmd_Operation command) (ce_hash_goal E command) (ce_now E) (createGoal E command) s)"

definition CreateSession ::
  "'s archive_store \<Rightarrow> ('s \<Rightarrow> command_env) \<Rightarrow> SessionCommand \<Rightarrow> 's \<Rightarrow> ((error + OperationResult) \<times> 's) option" where
  "CreateSession S env command s =
     (let E = env s
      in case au_goal (ce_authority E) (scmd_GoalRevisionID command) of
          Inl e \<Rightarrow> Some (Inl e, s)
        | Inr goal \<Rightarrow>
            if scmd_ReviewSource command \<noteq> None \<and> goal_Source goal = ''privacy_erasure''
            then Some (Inl (err_code CodeContentRedacted), s)
            else authorityOperation S (ce_device E) (scmd_Operation command) (ce_hash_session E command) (ce_now E)
                   (createSession E command) s)"

definition validateSessionScope :: "command_env \<Rightarrow> string \<Rightarrow> error option" where
  "validateSessionScope E i = (case au_session_scope (ce_authority E) of None \<Rightarrow> None | Some validate \<Rightarrow> validate i)"

definition ApplyAction ::
  "'s archive_store \<Rightarrow> ('s \<Rightarrow> command_env) \<Rightarrow> string \<Rightarrow> ActionCommand \<Rightarrow> 's \<Rightarrow> ((error + OperationResult) \<times> 's) option" where
  "ApplyAction S env sessionID command s =
     (let E = env s
      in case validateSessionScope E sessionID of
          Some e \<Rightarrow> Some (Inl e, s)
        | None \<Rightarrow> authorityOperation S (ce_device E) (acmd_Operation command) (ce_hash_action E command) (ce_now E)
                   (applyAction E sessionID command) s)"

text \<open>\<open>assessment_of\<close> reads the assessment's identifier from a stored result, if it is a decision.\<close>

definition Decide ::
  "'s archive_store \<Rightarrow> ('s \<Rightarrow> command_env) \<Rightarrow> (string \<Rightarrow> string option) \<Rightarrow> string \<Rightarrow> AssessmentDecisionCommand \<Rightarrow> 's
    \<Rightarrow> ((error + OperationResult) \<times> 's) option" where
  "Decide S env assessment_of assessmentID command s =
     (let E = env s
      in case validateSessionScope E (op_AggregateID (adc_Operation command)) of
          Some e \<Rightarrow> Some (Inl e, s)
        | None \<Rightarrow>
            Option.bind (authorityOperation S (ce_device E) (adc_Operation command) (ce_hash_decision E command) (ce_now E)
                (Some (decide E assessmentID command)) s) (\<lambda>(result, s'). Some (
              case result of
                Inl e \<Rightarrow> (Inl e, s')
              | Inr r \<Rightarrow> if res_Replayed r \<and> assessment_of (res_Result r) \<noteq> Some assessmentID
                  then (Inl (err_code CodeOperationConflict), s') else (Inr r, s'))))"

section \<open>What preparing keeps\<close>

text \<open>
  Preparing an action touches the context and the completed flag of the session, the context, frame
  and completion of the command, adds expectations behind those given, and queues no payload for a
  snapshot event.
\<close>

definition same_lesson :: "Session \<Rightarrow> Session \<Rightarrow> bool" where
  "same_lesson s s' \<longleftrightarrow> sess_ID s' = sess_ID s \<and> sess_State s' = sess_State s \<and> sess_AggregateVer s' = sess_AggregateVer s
     \<and> sess_ActiveFrame s' = sess_ActiveFrame s \<and> sess_FocusFrameInvalidated s' = sess_FocusFrameInvalidated s
     \<and> sess_AttachedQuiz s' = sess_AttachedQuiz s"

definition keeps :: "prepared \<Rightarrow> prepared \<Rightarrow> bool" where
  "keeps p p' \<longleftrightarrow> same_lesson (pr_Session p) (pr_Session p')
     \<and> cmd_Action (pr_Command p') = cmd_Action (pr_Command p) \<and> cmd_SessionID (pr_Command p') = cmd_SessionID (pr_Command p)
     \<and> prefix (pr_Expectations p) (pr_Expectations p')
     \<and> (no_snapshot_payload (pr_Payloads p) \<longrightarrow> no_snapshot_payload (pr_Payloads p'))"

lemma keeps_refl [simp]: "keeps p p"
  by (simp add: keeps_def same_lesson_def)

lemma prepared_simps [simp]:
  "pr_Payloads (set_context f p) = pr_Payloads p" "pr_Batch (set_context f p) = pr_Batch p"
  "pr_Expectations (set_context f p) = pr_Expectations p"
  "sess_Context (pr_Session (set_context f p)) = f (sess_Context (pr_Session p))"
  "pr_Payloads (set_payload k vs p) = AList.update k vs (pr_Payloads p)" "pr_Batch (set_payload k vs p) = pr_Batch p"
  "pr_Expectations (set_payload k vs p) = pr_Expectations p" "pr_Session (set_payload k vs p) = pr_Session p"
  "pr_Command (set_payload k vs p) = pr_Command p"
  "pr_Payloads (add_payload k v p) = AList.update k (queued (pr_Payloads p) k @ [v]) (pr_Payloads p)"
  "pr_Batch (add_payload k v p) = pr_Batch p" "pr_Expectations (add_payload k v p) = pr_Expectations p"
  "pr_Session (add_payload k v p) = pr_Session p" "pr_Command (add_payload k v p) = pr_Command p"
  by (simp_all add: set_context_def set_payload_def add_payload_def Let_def)

lemma keeps_simps [simp]:
  "keeps p (set_context f p') \<longleftrightarrow> keeps p p'"
  "\<not> sessionSnapshotEvent k \<Longrightarrow> keeps p p' \<Longrightarrow> keeps p (set_payload k vs p')"
  "\<not> sessionSnapshotEvent k \<Longrightarrow> keeps p p' \<Longrightarrow> keeps p (add_payload k v p')"
  "keeps p (p'\<lparr>pr_Batch := b\<rparr>) \<longleftrightarrow> keeps p p'"
  "keeps p (p'\<lparr>pr_Session := (pr_Session p')\<lparr>sess_CompletedRoute := d\<rparr>\<rparr>) \<longleftrightarrow> keeps p p'"
  "keeps p (p'\<lparr>pr_Command := (pr_Command p')\<lparr>cmd_FrameID := i\<rparr>\<rparr>) \<longleftrightarrow> keeps p p'"
  "keeps p (p'\<lparr>pr_Command := (pr_Command p')\<lparr>cmd_Complete := d\<rparr>, pr_Session := (pr_Session p')\<lparr>sess_CompletedRoute := d\<rparr>\<rparr>) \<longleftrightarrow> keeps p p'"
  "keeps p p' \<Longrightarrow> prefix (pr_Expectations p) fences \<Longrightarrow> keeps p (p'\<lparr>pr_Expectations := fences\<rparr>)"
  by (auto simp: keeps_def same_lesson_def set_context_def set_payload_def add_payload_def Let_def no_snapshot_payload_def)

lemma prepare_route_keeps: "prepare_route E cmd p = Inr p' \<Longrightarrow> keeps p p'"
  by (auto simp: prepare_route_def Let_def split: if_splits)

lemma keeps_records [simp]:
  "keeps p p' \<Longrightarrow> keeps p (issue_activity E action activity p')"
  "keeps p p' \<Longrightarrow> keeps p (record_artifact E artifact owners decision p')"
  "keeps p p' \<Longrightarrow> keeps p (record_evidence E artifact decision evidence owner ms p')"
  by (simp_all add: issue_activity_def record_artifact_def record_evidence_def Let_def)

lemma prepare_activity_keeps: "prepare_activity E cmd p = Inr p' \<Longrightarrow> keeps p p'"
  by (auto simp: prepare_activity_def Let_def split: if_splits)

lemma prepare_present_keeps: "prepare_present E p = Inr p' \<Longrightarrow> keeps p p'"
  by (auto simp: prepare_present_def split: option.splits)

lemma prepare_attempt_keeps: "prepare_attempt E cmd p = Inr p' \<Longrightarrow> keeps p p'"
  by (auto simp: prepare_attempt_def Let_def split: option.splits if_splits)

lemma accept_evidence_keeps: "accept_evidence E i activity attempt artifact decision outcome q = Inr p' \<Longrightarrow> keeps p q \<Longrightarrow> keeps p p'"
  by (auto simp: accept_evidence_def Let_def split: if_splits)

lemma prepare_assessment_keeps: "prepare_assessment E cmd p = Inr p' \<Longrightarrow> keeps p p'"
  by (auto simp: prepare_assessment_def Let_def split: option.splits if_split_asm elim!: accept_evidence_keeps)

lemma prepare_exposure_keeps: "prepare_exposure E cmd p = Inr p' \<Longrightarrow> keeps p p'"
  by (auto simp: prepare_exposure_def Let_def split: if_splits)

lemma prepare_question_keeps: "prepare_question E cmd p = Inr p' \<Longrightarrow> keeps p p'"
  by (auto simp: prepare_question_def Let_def split: if_splits)

lemma prepare_answer_keeps: "prepare_answer E cmd p = Inr p' \<Longrightarrow> keeps p p'"
  by (auto simp: prepare_answer_def Let_def split: if_splits option.splits)

lemma prepare_switch_goal_keeps: "prepare_switch_goal E cmd p = Inr p' \<Longrightarrow> keeps p p'"
  by (auto simp: prepare_switch_goal_def Let_def split: if_splits)

lemma prepare_acknowledge_keeps: "prepare_acknowledge E p = Inr p' \<Longrightarrow> keeps p p'"
  by (auto simp: prepare_acknowledge_def Let_def split: if_splits option.splits list.splits)

lemmas prepare_keeps = prepare_route_keeps prepare_activity_keeps prepare_present_keeps prepare_attempt_keeps
  prepare_assessment_keeps prepare_exposure_keeps prepare_question_keeps prepare_answer_keeps
  prepare_switch_goal_keeps prepare_acknowledge_keeps

lemma prepare_action_keeps: "prepare_action E cmd p = Inr p' \<Longrightarrow> keeps p p'"
  by (cases "acmd_Action cmd") (auto simp: prepare_action_def dest: prepare_keeps)

section \<open>A committed action\<close>

lemma run_action_cases:
  assumes "run_action E sessionID cmd = Inr (p, tr)"
  obtains auth where "au_session (ce_authority E) sessionID = Inr auth"
    "op_AggregateType (acmd_Operation cmd) = ''session''" "op_AggregateID (acmd_Operation cmd) = sessionID"
    "sess_AggregateVer (sa_Session auth) = op_ExpectedVersion (acmd_Operation cmd)"
    "guardFeedbackExit E (sa_Session auth) (acmd_Action cmd) = None"
    "prepare_action E cmd (start_prepared sessionID cmd (sa_Session auth)) = Inr p"
    "Apply (pr_Session p) (pr_Command p) = Inr tr"
proof -
  from assms obtain auth q where "au_session (ce_authority E) sessionID = Inr auth"
    "op_AggregateType (acmd_Operation cmd) = ''session''" "op_AggregateID (acmd_Operation cmd) = sessionID"
    "sess_AggregateVer (sa_Session auth) = op_ExpectedVersion (acmd_Operation cmd)"
    "guardFeedbackExit E (sa_Session auth) (acmd_Action cmd) = None"
    "prepare_action E cmd (start_prepared sessionID cmd (sa_Session auth)) = Inr q"
    "(case Apply (pr_Session q) (pr_Command q) of Inl e \<Rightarrow> Inl (mapTransitionError e) | Inr tr \<Rightarrow> Inr (q, tr)) = Inr (p, tr)"
    by (auto simp: run_action_def Let_def split: if_split_asm)
  then show thesis using that by (auto split: sum.splits)
qed

lemma start_keeps:
  assumes "keeps (start_prepared sessionID cmd s) p"
  shows "same_lesson s (pr_Session p)" "cmd_Action (pr_Command p) = acmd_Action cmd"
    "cmd_SessionID (pr_Command p) = sessionID" "no_snapshot_payload (pr_Payloads p)"
    "prefix [session_fence s (op_ExpectedVersion (acmd_Operation cmd))] (pr_Expectations p)"
  using assms by (simp_all add: keeps_def start_prepared_def no_snapshot_payload_def queued_def)

lemma run_action_payloads:
  assumes "run_action E sessionID cmd = Inr (p, tr)" shows "no_snapshot_payload (pr_Payloads p)"
  by (rule run_action_cases [OF assms]) (blast intro: start_keeps(4) prepare_action_keeps)

lemma applyAction_Inr:
  assumes "applyAction E sessionID cmd = Some (Inr req)"
  obtains p tr events h where "run_action E sessionID cmd = Inr (p, tr)"
    "transitionDrafts (ce_json E) (sess_ID (tr_Session tr)) tr (pr_Payloads p) = Some events"
    "ce_hash_action E cmd = Inr h" "finish_action E cmd p tr events = Inr req"
    "cr_Expectations req = pr_Expectations p" "cb_Session (cr_Batch req) = Some (tr_Session tr)"
    "cb_Events (cr_Batch req) = events" "cr_RequestHash req = h" "cr_Operation req = acmd_Operation cmd"
    "cb_Decisions (cr_Batch req) = cb_Decisions (pr_Batch p)" "cb_Evidence (cr_Batch req) = cb_Evidence (pr_Batch p)"
    "cb_Disposition (cr_Batch req) = cb_Disposition (pr_Batch p)" "cb_Assessment (cr_Batch req) = cb_Assessment (pr_Batch p)"
    "cb_Authority (cr_Batch req) = cb_Authority (pr_Batch p)"
proof -
  obtain p tr where r: "run_action E sessionID cmd = Inr (p, tr)"
    using assms by (cases "run_action E sessionID cmd") (auto simp: applyAction_def)
  then obtain events where ev: "transitionDrafts (ce_json E) (sess_ID (tr_Session tr)) tr (pr_Payloads p) = Some events"
    and f: "finish_action E cmd p tr events = Inr req"
    using assms by (auto simp: applyAction_def)
  from f obtain h where h: "ce_hash_action E cmd = Inr h" by (auto simp: finish_action_def commit_request_def Let_def)
  show thesis
    by (rule that [OF r ev h f]; use f h in \<open>simp add: finish_action_def commit_request_def Let_def\<close>; elim subst; simp)
qed

text \<open>
  C15: Every command returns. Whatever the store answers, \<open>applyAction\<close> and \<open>createSession\<close> produce a result:
  no handler queues a payload for a snapshot event, so the loop of \<open>transitionDrafts\<close> ends.
\<close>

theorem commands_return: "applyAction E sessionID cmd \<noteq> None \<and> createSession E command \<noteq> None"
proof
  show "applyAction E sessionID cmd \<noteq> None"
  proof (cases "run_action E sessionID cmd")
    case (Inr r)
    obtain p tr where r: "r = (p, tr)" by fastforce
    have "no_snapshot_payload (pr_Payloads p)" using Inr unfolding r by (rule run_action_payloads)
    then have "transitionDrafts (ce_json E) (sess_ID (tr_Session tr)) tr (pr_Payloads p) \<noteq> None"
      unfolding transitionDrafts_returns_iff .
    with Inr r show ?thesis by (simp add: applyAction_def)
  qed (simp add: applyAction_def)
next
  show "createSession E command \<noteq> None"
  proof (cases "run_session E command")
    case (Inr r)
    obtain tr b fences where r: "r = (tr, b, fences)" by (cases r) auto
    have "transitionDrafts (ce_json E) (sess_ID (tr_Session tr)) tr [] \<noteq> None"
      unfolding transitionDrafts_returns_iff by (simp add: no_snapshot_payload_def queued_def)
    with Inr r show ?thesis by (simp add: createSession_def)
  qed (simp add: createSession_def)
qed

lemma accepts_same_lesson:
  assumes "same_lesson s s'" shows "accepts s' a = accepts s a"
proof -
  have "sess_State s' = sess_State s" "sess_ActiveFrame s' = sess_ActiveFrame s"
    "sess_FocusFrameInvalidated s' = sess_FocusFrameInvalidated s"
    using assms by (simp_all add: same_lesson_def)
  note eq = this
  show ?thesis unfolding accepts_def live_frame_def eq ..
qed

section \<open>The step of an action\<close>

text \<open>
  Reference tables, read off the documentation of the state machine: the state an action leads to, from the session and
  whether its route is finished. The state to which a focus returns is the one its frame saved.
\<close>

fun action_target :: "Session \<Rightarrow> bool \<Rightarrow> Action \<Rightarrow> State" where
  "action_target s finished ActionStartDiagnostic = StateDiagnostic"
| "action_target s finished ActionApplyRoute = StateRouteActive"
| "action_target s finished ActionIssueActivity = StateActivityIssued"
| "action_target s finished ActionPresentReview = StateActivityIssued"
| "action_target s finished ActionConvertFreeAnswerToQuiz = StateActivityIssued"
| "action_target s finished ActionPresentActivity = StateAwaitingResponse"
| "action_target s finished ActionSubmitAttempt = StateEvaluating"
| "action_target s finished ActionRecordAssessment = StateFeedback"
| "action_target s finished ActionRecordExposure = StateRouteActive"
| "action_target s finished ActionAskFreeQuestion = StateFreeQuestion"
| "action_target s finished ActionRecordFreeAnswer = StateFreeAnswer"
| "action_target s finished ActionEndActivity = StateRouteActive"
| "action_target s finished ActionSwitchGoal = StateGoalReady"
| "action_target s finished ActionCompleteSession = StateCompleted"
| "action_target s finished ActionAcknowledgeFeedback =
     (if sess_AttachedQuiz s then StateFreeAnswer else if finished then StateCompleted else StateRouteActive)"
| "action_target s finished ActionResumeFocus =
     (case sess_ActiveFrame s of None \<Rightarrow> StateUnset | Some f \<Rightarrow> frame_SavedState f)"
| "action_target s finished _ = StateUnset"

text \<open>The events an action writes, apart from those of what it records besides.\<close>

fun action_events :: "Session \<Rightarrow> bool \<Rightarrow> Action \<Rightarrow> EventType set" where
  "action_events s finished ActionApplyRoute = {EventRouteRevisionCreated, EventTutoringStateChanged}"
| "action_events s finished ActionIssueActivity = {EventActivityIssued, EventTutoringStateChanged}"
| "action_events s finished ActionPresentReview = {EventReviewPresented, EventActivityIssued, EventTutoringStateChanged}"
| "action_events s finished ActionConvertFreeAnswerToQuiz = {EventActivityIssued, EventTutoringStateChanged}"
| "action_events s finished ActionPresentActivity = {EventActivityPresented, EventTutoringStateChanged}"
| "action_events s finished ActionSubmitAttempt = {EventAttemptSubmitted, EventTutoringStateChanged}"
| "action_events s finished ActionRecordAssessment = {EventAssessmentRecorded, EventTutoringStateChanged}"
| "action_events s finished ActionRecordExposure = {EventExposureRecorded}"
| "action_events s finished ActionAskFreeQuestion = {EventFreeQuestionAsked, EventTutoringStateChanged}
     \<union> (if sess_State s = StateFreeAnswer then {} else {EventFocusSuspended})"
| "action_events s finished ActionRecordFreeAnswer = {EventFreeAnswerRecorded, EventExposureRecorded, EventTutoringStateChanged}"
| "action_events s finished ActionResumeFocus = {EventFocusResumed, EventTutoringStateChanged}"
| "action_events s finished ActionEndActivity = {EventActivityEnded, EventTutoringStateChanged}"
| "action_events s finished ActionCompleteSession = {EventLearningCompleted, EventTutoringStateChanged}"
| "action_events s finished ActionAcknowledgeFeedback = {EventTutoringStateChanged}
     \<union> (if sess_AttachedQuiz s then {} else if finished then {EventLearningCompleted} else {EventRouteAdvanced})"
| "action_events s finished _ = {EventTutoringStateChanged}"

text \<open>
  What becomes of the focus frame. A question suspends the lesson where it is, unless it follows an answer; resuming
  goes back there; ending an activity or the lesson drops the frame, unless the lesson is focused on another route.
\<close>

definition other_route_focus :: "Session \<Rightarrow> bool" where
  "other_route_focus s \<longleftrightarrow> \<not> sess_AttachedQuiz s \<and> (\<exists>f. sess_ActiveFrame s = Some f \<and> \<not> frame_Invalidated f
     \<and> ctx_RouteRevisionID (frame_Context f) \<noteq> ctx_RouteRevisionID (sess_Context s))"

definition focus_moves :: "Session \<Rightarrow> Action \<Rightarrow> Session \<Rightarrow> bool" where
  "focus_moves s a t \<longleftrightarrow>
     (case a of
        ActionAskFreeQuestion \<Rightarrow>
          if sess_State s = StateFreeAnswer then sess_ActiveFrame t = sess_ActiveFrame s
          else \<exists>f. sess_ActiveFrame t = Some f \<and> frame_SessionID f = sess_ID s \<and> frame_SavedState f = sess_State s
            \<and> frame_Context f = sess_Context s \<and> frame_SavedAggregateVersion f = sess_AggregateVer s \<and> \<not> frame_Invalidated f
      | ActionResumeFocus \<Rightarrow> sess_ActiveFrame t = None \<and> map_option frame_Context (sess_ActiveFrame s) = Some (sess_Context t)
      | ActionSwitchGoal \<Rightarrow> \<not> live_frame t
      | ActionEndActivity \<Rightarrow> if other_route_focus s then sess_ActiveFrame t = sess_ActiveFrame s else \<not> live_frame t
      | ActionCompleteSession \<Rightarrow> if other_route_focus s then sess_ActiveFrame t = sess_ActiveFrame s else \<not> live_frame t
      | _ \<Rightarrow> sess_ActiveFrame t = sess_ActiveFrame s)"

definition quiz_closing :: "Action set" where
  "quiz_closing = {ActionIssueActivity, ActionPresentReview, ActionAcknowledgeFeedback, ActionEndActivity, ActionSwitchGoal}"

definition lesson_step :: "Session \<Rightarrow> bool \<Rightarrow> Action \<Rightarrow> Session \<Rightarrow> bool" where
  "lesson_step s finished a t \<longleftrightarrow> accepts s a \<and> sess_State t = action_target s finished a \<and> focus_moves s a t
     \<and> (sess_AttachedQuiz t \<longleftrightarrow> a = ActionConvertFreeAnswerToQuiz \<or> sess_AttachedQuiz s \<and> a \<notin> quiz_closing)"

lemma apply_switch_steps:
  assumes "session_inv s"
  shows "case_sum (\<lambda>_. True) (\<lambda>tr. cmd_Action c \<noteq> ActionCreateSession \<longrightarrow>
     (let a = cmd_Action c; finished = cmd_Complete c \<or> sess_CompletedRoute s; t = tr_Session tr
      in sess_State t = action_target s finished a \<and> focus_moves s a t
     \<and> (sess_AttachedQuiz t \<longleftrightarrow> a = ActionConvertFreeAnswerToQuiz \<or> sess_AttachedQuiz s \<and> a \<notin> quiz_closing)
     \<and> set (tr_Events tr) = action_events s finished a)) (apply_switch s c)"
  using assms
  by (cases "cmd_Action c"; cases "sess_ActiveFrame s"; cases "cmd_Context c";
      simp add: apply_unfold session_inv_def focus_moves_def quiz_closing_def other_route_focus_def)
     auto

lemma Apply_lesson_step:
  assumes "session_inv s" "Apply s c = Inr tr" "cmd_Action c \<noteq> ActionCreateSession"
  shows "sess_State (tr_Session tr) = action_target s (cmd_Complete c \<or> sess_CompletedRoute s) (cmd_Action c)"
    and "focus_moves s (cmd_Action c) (tr_Session tr)"
    and "sess_AttachedQuiz (tr_Session tr) \<longleftrightarrow>
      cmd_Action c = ActionConvertFreeAnswerToQuiz \<or> sess_AttachedQuiz s \<and> cmd_Action c \<notin> quiz_closing"
    and "set (tr_Events tr) = action_events s (cmd_Complete c \<or> sess_CompletedRoute s) (cmd_Action c)"
  using apply_switch_steps [OF assms(1), of c] Apply_cases [OF session_inv_not_unset [OF assms(1)] assms(2)] assms(3)
  by (simp_all add: Let_def)

text \<open>What the reference looks at is the same in the prepared session.\<close>

lemma prepare_keeps_session:
  assumes "prepare_action E cmd p = Inr q"
    and "acmd_Action cmd \<in> {ActionAskFreeQuestion, ActionEndActivity, ActionCompleteSession}"
  shows "pr_Session q = pr_Session p"
  using assms by (auto simp: prepare_action_def prepare_question_def Let_def split: if_splits)

lemma reference_same_lesson:
  assumes "same_lesson s s'"
  shows "action_target s' finished a = action_target s finished a" "action_events s' finished a = action_events s finished a"
  using assms by (cases a; simp add: same_lesson_def)+

lemma steps_after_Nil:
  "steps_after i steps = Some [] \<longleftrightarrow> (\<exists>before st. steps = before @ [st] \<and> step_ID st = i \<and> i \<notin> step_ID ` set before)"
proof (induction steps)
  case (Cons st sts)
  show ?case
  proof (cases "step_ID st = i")
    case True
    then show ?thesis by (auto simp: Cons_eq_append_conv)
  next
    case False
    then show ?thesis using Cons.IH by (auto simp: Cons_eq_append_conv)
  qed
qed simp

text \<open>The command or the session says that the route is done, or the session is at the last step of its route.\<close>

definition route_finished :: "command_env \<Rightarrow> ActionCommand \<Rightarrow> Session \<Rightarrow> bool" where
  "route_finished E cmd s \<longleftrightarrow> acmd_Complete cmd \<or> sess_CompletedRoute s
     \<or> (\<exists>route before st. au_route (ce_authority E) (ctx_RouteRevisionID (sess_Context s)) = Inr route
          \<and> route_Steps route = before @ [st] \<and> step_ID st = ctx_RouteStepID (sess_Context s)
          \<and> ctx_RouteStepID (sess_Context s) \<notin> step_ID ` set before)"

lemma acknowledge_finished:
  assumes "prepare_acknowledge E (start_prepared i cmd s) = Inr p" "\<not> sess_AttachedQuiz s"
  shows "cmd_Complete (pr_Command p) \<or> sess_CompletedRoute (pr_Session p) \<longleftrightarrow> route_finished E cmd s"
proof -
  obtain route where r: "au_route (ce_authority E) (ctx_RouteRevisionID (sess_Context s)) = Inr route"
    using assms by (auto simp: prepare_acknowledge_def start_prepared_def Let_def split: if_splits)
  have f: "route_finished E cmd s \<longleftrightarrow> acmd_Complete cmd \<or> sess_CompletedRoute s
      \<or> steps_after (ctx_RouteStepID (sess_Context s)) (route_Steps route) = Some []"
    unfolding route_finished_def steps_after_Nil r by auto
  show ?thesis
    using assms r unfolding f
    by (auto simp: prepare_acknowledge_def start_prepared_def set_context_def Let_def split: if_splits option.splits list.splits)
qed

lemma target_finished:
  assumes "a \<noteq> ActionAcknowledgeFeedback \<or> sess_AttachedQuiz s"
  shows "action_target s finished a = action_target s finished' a" "action_events s finished a = action_events s finished' a"
  using assms by (cases a; simp)+

lemma run_action_step:
  assumes "run_action E sessionID cmd = Inr (p, tr)" "au_session (ce_authority E) sessionID = Inr auth" "session_inv (sa_Session auth)"
  shows "lesson_step (sa_Session auth) (route_finished E cmd (sa_Session auth)) (acmd_Action cmd) (tr_Session tr)
    \<and> set (tr_Events tr) = action_events (sa_Session auth) (route_finished E cmd (sa_Session auth)) (acmd_Action cmd)"
proof -
  let ?s = "sa_Session auth" and ?a = "acmd_Action cmd"
  have p: "prepare_action E cmd (start_prepared sessionID cmd ?s) = Inr p" and ap: "Apply (pr_Session p) (pr_Command p) = Inr tr"
    using run_action_cases [OF assms(1)] assms(2) by (metis sum.inject(2))+
  note k = start_keeps [OF prepare_action_keeps [OF p]]
  let ?done = "cmd_Complete (pr_Command p) \<or> sess_CompletedRoute (pr_Session p)"
  have inv: "session_inv (pr_Session p)" using k(1) assms(3) by (simp add: same_lesson_def session_inv_def live_frame_def)
  have no_create: "cmd_Action (pr_Command p) \<noteq> ActionCreateSession" using p k(2) by (auto simp: prepare_action_def)
  note step = Apply_lesson_step [OF inv ap no_create, unfolded k(2) reference_same_lesson [OF k(1)]]
  have "accepts (pr_Session p) ?a"
    using Apply_accept_iff_aux [OF session_inv_not_unset [OF inv], of "pr_Command p"] ap session_inv_not_unset [OF inv] k(2)
    by (auto simp: Apply_def Let_def split: if_splits)
  then have "accepts ?s ?a" using accepts_same_lesson [OF k(1)] by simp
  moreover have "action_target ?s ?done ?a = action_target ?s (route_finished E cmd ?s) ?a
      \<and> action_events ?s ?done ?a = action_events ?s (route_finished E cmd ?s) ?a"
  proof (cases "?a \<noteq> ActionAcknowledgeFeedback \<or> sess_AttachedQuiz ?s")
    case True
    then show ?thesis using target_finished by metis
  next
    case False
    then show ?thesis using acknowledge_finished [of E sessionID cmd ?s p] p by (simp add: prepare_action_def)
  qed
  moreover have "focus_moves ?s ?a (tr_Session tr)"
  proof (cases "?a \<in> {ActionAskFreeQuestion, ActionEndActivity, ActionCompleteSession}")
    case True
    then have "pr_Session p = ?s" using prepare_keeps_session [OF p] by (simp add: start_prepared_def)
    then show ?thesis using step(2) by simp
  next
    case False
    then show ?thesis using step(2) k(1) by (cases ?a) (simp_all add: focus_moves_def same_lesson_def)
  qed
  moreover have "sess_AttachedQuiz (pr_Session p) = sess_AttachedQuiz ?s" using k(1) by (simp add: same_lesson_def)
  ultimately show ?thesis using step unfolding lesson_step_def by simp
qed

text \<open>Every event of a transition is drafted.\<close>

lemma draft_loop_covers:
  assumes "draft_loop C i tr ks states q = Some (ds, q')" shows "set ks \<subseteq> ed_Type ` set ds"
  using assms
proof (induction ks arbitrary: states q ds)
  case (Cons k ks)
  from Cons.prems obtain before q1 d q2 ds' where
    a: "appendEvent C i (tr_Session tr) k (fst (event_state tr k states)) q1 = (d, q2)"
    and l: "draft_loop C i tr ks (snd (event_state tr k states)) q2 = Some (ds', q')" and ds: "ds = before @ d # ds'"
    unfolding draft_loop_Cons by blast
  have "ed_Type d = k" using a by (auto simp: appendEvent_def draft_def split: if_splits list.splits)
  then show ?case using Cons.IH [OF l] ds by auto
qed simp

lemma transition_covers:
  assumes "transitionDrafts C i tr q = Some ds" shows "set (tr_Events tr) \<subseteq> ed_Type ` set ds"
  using assms draft_loop_covers by (fastforce simp: transitionDrafts_def Option.bind_eq_Some_conv)

text \<open>
  C14: A committed action is one step of the lesson it read. The request is fenced by the version of the session loaded,
  which is the version the client expected; the session it writes is the one the reference tables lead to from the
  session read, in its state, its focus frame and its attached quiz, and satisfies the invariant; the events it writes
  include those of the action; and the last session snapshot among them is that very session.
\<close>

theorem committed_action_legal:
  assumes "applyAction E sessionID cmd = Some (Inr req)"
    and "au_session (ce_authority E) sessionID = Inr auth" "session_inv (sa_Session auth)"
  shows "hd (cr_Expectations req) = session_fence (sa_Session auth) (sess_AggregateVer (sa_Session auth))
    \<and> sess_AggregateVer (sa_Session auth) = op_ExpectedVersion (acmd_Operation cmd)
    \<and> (\<exists>t. cb_Session (cr_Batch req) = Some t \<and> session_inv t \<and> sess_ID t = sess_ID (sa_Session auth)
         \<and> sess_AggregateVer t = sess_AggregateVer (sa_Session auth)
         \<and> lesson_step (sa_Session auth) (route_finished E cmd (sa_Session auth)) (acmd_Action cmd) t
         \<and> action_events (sa_Session auth) (route_finished E cmd (sa_Session auth)) (acmd_Action cmd)
             \<subseteq> ed_Type ` set (cb_Events (cr_Batch req))
         \<and> (acmd_Action cmd \<noteq> ActionRecordExposure \<longrightarrow> snapshots_in (cb_Events (cr_Batch req)) \<noteq> []
             \<and> ed_Payload (last (snapshots_in (cb_Events (cr_Batch req)))) = js_session (ce_json E) \<lparr>sp_Session = t, sp_UpdatedEventSequence = 0\<rparr>))"
proof -
  let ?s = "sa_Session auth" and ?a = "acmd_Action cmd"
  obtain p tr where r: "run_action E sessionID cmd = Inr (p, tr)" and e: "cr_Expectations req = pr_Expectations p"
    and b: "cb_Session (cr_Batch req) = Some (tr_Session tr)"
    and d: "transitionDrafts (ce_json E) (sess_ID (tr_Session tr)) tr (pr_Payloads p) = Some (cb_Events (cr_Batch req))"
    using applyAction_Inr [OF assms(1)] by metis
  have p: "prepare_action E cmd (start_prepared sessionID cmd ?s) = Inr p"
    and a: "Apply (pr_Session p) (pr_Command p) = Inr tr" and v: "sess_AggregateVer ?s = op_ExpectedVersion (acmd_Operation cmd)"
    using run_action_cases [OF r] assms(2) by (metis sum.inject(2))+
  note k = start_keeps [OF prepare_action_keeps [OF p]]
  have inv: "session_inv (pr_Session p)" using k(1) assms(3) by (simp add: same_lesson_def session_inv_def live_frame_def)
  have step: "tutoring_step (pr_Session p) (pr_Command p) = Inr (tr_Session tr)" using a by (simp add: tutoring_step_def)
  note moved = run_action_step [OF r assms(2,3)]
  have id: "same_identity (pr_Session p) (tr_Session tr)" "sess_State (tr_Session tr) = tr_After tr"
    using apply_switch_frame_sum [of "pr_Session p" "pr_Command p"] Apply_cases [OF session_inv_not_unset [OF inv] a] by simp_all
  have "hd (pr_Expectations p) = session_fence ?s (sess_AggregateVer ?s)" using k(5) v by (auto simp: prefix_def)
  moreover have "snapshots_in (cb_Events (cr_Batch req)) \<noteq> []
      \<and> ed_Payload (last (snapshots_in (cb_Events (cr_Batch req)))) = js_session (ce_json E) \<lparr>sp_Session = tr_Session tr, sp_UpdatedEventSequence = 0\<rparr>"
    if "?a \<noteq> ActionRecordExposure"
  proof -
    have "EventTutoringStateChanged \<in> set (tr_Events tr)" using moved that by (cases ?a) simp_all
    from last_snapshot_after [OF a d this] show ?thesis by (simp add: snapshot_def flip: id(2))
  qed
  ultimately show ?thesis
    using b e v k(1) id(1) moved transition_covers [OF d] tutoring_step_inv [OF inv step]
    by (simp add: same_identity_def same_lesson_def)
qed

text \<open>
  Provisional feedback cannot be left. An action that leaves the feedback of an attempt (acknowledging it,
  ending the activity, switching the goal) is committed only if the attempt's assessment belongs to the
  session and its decision is not provisional.
\<close>

theorem provisional_feedback_held:
  assumes "applyAction E sessionID cmd = Some (Inr req)" "au_session (ce_authority E) sessionID = Inr auth"
    and "sess_State (sa_Session auth) = StateFeedback"
    and "acmd_Action cmd \<in> {ActionAcknowledgeFeedback, ActionEndActivity, ActionSwitchGoal}"
  shows "\<exists>attemptID artifact decision. ctx_AttemptID (sess_Context (sa_Session auth)) = Some attemptID
    \<and> au_assessment_for_attempt (ce_authority E) attemptID = Inr (artifact, decision)
    \<and> art_SessionID artifact = sess_ID (sa_Session auth) \<and> dec_AssessmentID decision = art_ID artifact
    \<and> dec_Disposition decision \<noteq> DispositionProvisional"
proof -
  obtain p tr where r: "run_action E sessionID cmd = Inr (p, tr)"
    using applyAction_Inr [OF assms(1)] by metis
  have "guardFeedbackExit E (sa_Session auth) (acmd_Action cmd) = None"
    using run_action_cases [OF r] assms(2) by (metis sum.inject(2))
  with assms(3,4) show ?thesis
    by (auto simp: guardFeedbackExit_def split: option.splits sum.splits if_splits)
qed

section \<open>Evidence\<close>

text \<open>Only recording an assessment writes a decision or evidence.\<close>

definition same_judgement :: "prepared \<Rightarrow> prepared \<Rightarrow> bool" where
  "same_judgement p p' \<longleftrightarrow> cb_Evidence (pr_Batch p') = cb_Evidence (pr_Batch p)
     \<and> cb_Decisions (pr_Batch p') = cb_Decisions (pr_Batch p)"

lemma same_judgement_refl [simp]: "same_judgement p p"
  by (simp add: same_judgement_def)

lemma same_judgement_simps [simp]:
  "same_judgement p (set_context f p') \<longleftrightarrow> same_judgement p p'"
  "same_judgement p (set_payload k vs p') \<longleftrightarrow> same_judgement p p'"
  "same_judgement p (add_payload k v p') \<longleftrightarrow> same_judgement p p'"
  "same_judgement p (p'\<lparr>pr_Session := s\<rparr>) \<longleftrightarrow> same_judgement p p'"
  "same_judgement p (p'\<lparr>pr_Command := c\<rparr>) \<longleftrightarrow> same_judgement p p'"
  "same_judgement p (p'\<lparr>pr_Expectations := x\<rparr>) \<longleftrightarrow> same_judgement p p'"
  "same_judgement p (p'\<lparr>pr_Batch := b\<rparr>) \<longleftrightarrow>
     cb_Evidence b = cb_Evidence (pr_Batch p) \<and> cb_Decisions b = cb_Decisions (pr_Batch p)"
  "same_judgement p (issue_activity E a activity p') \<longleftrightarrow> same_judgement p p'"
  by (auto simp: same_judgement_def issue_activity_def Let_def)

lemma prepare_same_judgement:
  "prepare_route E cmd p = Inr p' \<Longrightarrow> same_judgement p p'"
  "prepare_activity E cmd p = Inr p' \<Longrightarrow> same_judgement p p'"
  "prepare_present E p = Inr p' \<Longrightarrow> same_judgement p p'"
  "prepare_attempt E cmd p = Inr p' \<Longrightarrow> same_judgement p p'"
  "prepare_exposure E cmd p = Inr p' \<Longrightarrow> same_judgement p p'"
  "prepare_question E cmd p = Inr p' \<Longrightarrow> same_judgement p p'"
  "prepare_answer E cmd p = Inr p' \<Longrightarrow> same_judgement p p'"
  "prepare_switch_goal E cmd p = Inr p' \<Longrightarrow> same_judgement p p'"
  "prepare_acknowledge E p = Inr p' \<Longrightarrow> same_judgement p p'"
          apply (auto simp: prepare_route_def Let_def split: if_splits)[1]
         apply (auto simp: prepare_activity_def Let_def split: if_splits)[1]
        apply (auto simp: prepare_present_def split: option.splits)[1]
       apply (auto simp: prepare_attempt_def Let_def split: option.splits if_splits)[1]
      apply (auto simp: prepare_exposure_def Let_def split: if_splits)[1]
     apply (auto simp: prepare_question_def Let_def split: if_splits)[1]
    apply (auto simp: prepare_answer_def Let_def split: if_splits option.splits)[1]
   apply (auto simp: prepare_switch_goal_def Let_def split: if_splits)[1]
  apply (auto simp: prepare_acknowledge_def Let_def split: if_splits option.splits list.splits)[1]
  done

lemma prepare_action_same_judgement:
  "prepare_action E cmd p = Inr p' \<Longrightarrow> acmd_Action cmd \<noteq> ActionRecordAssessment \<Longrightarrow> same_judgement p p'"
  by (cases "acmd_Action cmd") (auto simp: prepare_action_def dest: prepare_same_judgement)

text \<open>A judgement: one decision, which accepts with one piece of owned evidence or is provisional without any.\<close>

definition judged :: "command_env \<Rightarrow> CommandBatch \<Rightarrow> bool" where
  "judged E b \<longleftrightarrow> (\<exists>artifact d i activity j attempt acceptance.
     au_activity (ce_authority E) i = Inr activity \<and> au_attempt (ce_authority E) j = Inr attempt
     \<and> cb_Assessment b = Some artifact \<and> cb_Decisions b = [d] \<and> cb_Disposition b = dec_Disposition d
     \<and> dec_AssessmentID d = art_ID artifact
     \<and> EvaluateAssessment (ce_lib E) activity attempt artifact = Inr acceptance
     \<and> (if dec_Disposition d = DispositionProvisional
        then dec_ProducedEvidenceID d = None \<and> cb_Evidence b = []
          \<and> (acc_Disposition acceptance = DispositionProvisional \<or> att_EvidenceIneligibleReason attempt \<noteq> [])
        else dec_Disposition d = acc_Disposition acceptance \<and> att_EvidenceIneligibleReason attempt = []
          \<and> (\<exists>e owner. cb_Evidence b = [e] \<and> dec_ProducedEvidenceID d = Some (ev_ID e)
               \<and> ev_DispositionDecisionID e = dec_ID d \<and> ev_AssessmentID e = art_ID artifact
               \<and> ev_Outcome e = acc_Outcome acceptance \<and> ev_Help e \<noteq> HelpAnswerRevealed
               \<and> ap_Evidence (cb_Authority b) = [(ev_ID e, owner)] \<and> evidenceAuthority activity e = Inr owner)))"

lemma record_batch [simp]:
  "cb_Assessment (pr_Batch (record_artifact E a ws d p)) = Some a"
  "cb_Decisions (pr_Batch (record_artifact E a ws d p)) = [d]"
  "cb_Disposition (pr_Batch (record_artifact E a ws d p)) = dec_Disposition d"
  "cb_Evidence (pr_Batch (record_artifact E a ws d p)) = cb_Evidence (pr_Batch p)"
  "cb_Assessment (pr_Batch (record_evidence E a d e w ms p)) = cb_Assessment (pr_Batch p)"
  "cb_Disposition (pr_Batch (record_evidence E a d e w ms p)) = cb_Disposition (pr_Batch p)"
  "cb_Decisions (pr_Batch (record_evidence E a d e w ms p)) = [d]"
  "cb_Evidence (pr_Batch (record_evidence E a d e w ms p)) = [e]"
  "ap_Evidence (cb_Authority (pr_Batch (record_evidence E a d e w ms p))) = [(ev_ID e, w)]"
  by (simp_all add: record_artifact_def record_evidence_def Let_def)

lemma accept_evidence_Inr:
  assumes "accept_evidence E i activity attempt artifact decision outcome p = Inr p'"
  obtains e owner ms where "att_Help attempt \<noteq> HelpAnswerRevealed"
    "e = makeEvidence E i activity attempt artifact decision (art_Items artifact) outcome"
    "evidenceAuthority activity e = Inr owner"
    "p' = record_evidence E artifact (decision\<lparr>dec_ProducedEvidenceID := Some (ev_ID e)\<rparr>) e owner ms p"
  using assms by (auto simp: accept_evidence_def Let_def split: if_splits)

lemma makeEvidence_fields [simp]:
  "ev_ID (makeEvidence E i activity attempt artifact d items out) = i"
  "ev_DispositionDecisionID (makeEvidence E i activity attempt artifact d items out) = dec_ID d"
  "ev_AssessmentID (makeEvidence E i activity attempt artifact d items out) = art_ID artifact"
  "ev_Outcome (makeEvidence E i activity attempt artifact d items out) = out"
  "ev_Help (makeEvidence E i activity attempt artifact d items out) = att_Help attempt"
  "ev_NodeRevisionID (makeEvidence E i activity attempt artifact d items out) = act_TargetNodeRevisionID activity"
  by (simp_all add: makeEvidence_def)

text \<open>The decision an assessment starts with.\<close>

definition first_decision :: "command_env \<Rightarrow> nat \<Rightarrow> AssessmentArtifact \<Rightarrow> Disposition \<Rightarrow> AssessmentDecision" where
  "first_decision E n artifact disposition =
     \<lparr>dec_ID = ce_uuid E n, dec_AssessmentID = art_ID artifact, dec_Version = 1, dec_Disposition = disposition,
      dec_Items = art_Items artifact, dec_Reason = [], dec_ActorDeviceID = ce_device E, dec_CreatedAt = now_of E,
      dec_ReplacesDecisionID = None, dec_ProducedEvidenceID = None\<rparr>"

lemma prepare_assessment_Inr:
  assumes "prepare_assessment E cmd p = Inr p'"
  obtains i activity j attempt artifact n acceptance verdict owners q where
    "au_activity (ce_authority E) i = Inr activity" "au_attempt (ce_authority E) j = Inr attempt"
    "EvaluateAssessment (ce_lib E) activity attempt artifact = Inr acceptance"
    "verdict = (if att_EvidenceIneligibleReason attempt \<noteq> [] then provisional [att_EvidenceIneligibleReason attempt] else acceptance)"
    "q = record_artifact E artifact owners (first_decision E n artifact (acc_Disposition verdict)) p"
    "if acc_Disposition verdict = DispositionProvisional
     then p' = set_payload EventAssessmentMarkedProvisional [js_assessment_event (ce_json E)
            \<lparr>ape_AssessmentID = art_ID artifact, ape_NodeRevisionID = act_TargetNodeRevisionID activity,
             ape_Reasons = acc_Reasons verdict, ape_Decision = first_decision E n artifact (acc_Disposition verdict)\<rparr>] q
     else accept_evidence E (ce_uuid E (n + 1)) activity attempt artifact (first_decision E n artifact (acc_Disposition verdict))
            (acc_Outcome verdict) q = Inr p'"
proof -
  obtain i j where ij: "ctx_ActivityID (sess_Context (pr_Session p)) = Some i" "ctx_AttemptID (sess_Context (pr_Session p)) = Some j"
    using assms by (auto simp: prepare_assessment_def Let_def split: option.splits)
  from assms obtain activity attempt raw acceptance owners where
    1: "au_activity (ce_authority E) i = Inr activity" "au_attempt (ce_authority E) j = Inr attempt"
      "assessment_artifact E cmd (pr_Session p) activity attempt = Inr raw"
    by (auto simp: prepare_assessment_def Let_def ij)
  define artifact where "artifact = raw\<lparr>
    art_EvidenceEligibility := (att_EvidenceEligibility attempt \<or> att_EvidenceIneligibleReason attempt = []),
    art_EvidenceIneligibleReason := att_EvidenceIneligibleReason attempt\<rparr>"
  define n :: nat where "n = (if act_Type activity = ActivityObjective then 1 else 0)"
  from assms obtain acceptance where
    2: "EvaluateAssessment (ce_lib E) activity attempt artifact = Inr acceptance"
    by (auto simp: prepare_assessment_def Let_def ij 1 artifact_def [symmetric])
  define verdict where "verdict = (if att_EvidenceIneligibleReason attempt \<noteq> [] then provisional [att_EvidenceIneligibleReason attempt] else acceptance)"
  from assms obtain owners where 3: "assessmentAuthority activity artifact = Inr owners"
    by (auto simp: prepare_assessment_def Let_def ij 1 2 artifact_def [symmetric])
  have 4: "(if acc_Disposition verdict = DispositionProvisional
     then Inr (set_payload EventAssessmentMarkedProvisional [js_assessment_event (ce_json E)
            \<lparr>ape_AssessmentID = art_ID artifact, ape_NodeRevisionID = act_TargetNodeRevisionID activity,
             ape_Reasons = acc_Reasons verdict, ape_Decision = first_decision E n artifact (acc_Disposition verdict)\<rparr>]
           (record_artifact E artifact owners (first_decision E n artifact (acc_Disposition verdict)) p))
     else accept_evidence E (ce_uuid E (n + 1)) activity attempt artifact (first_decision E n artifact (acc_Disposition verdict))
            (acc_Outcome verdict) (record_artifact E artifact owners (first_decision E n artifact (acc_Disposition verdict)) p)) = Inr p'"
    using assms
    unfolding prepare_assessment_def Let_def ij prod.case option.case 1 bindE_simps artifact_def [symmetric] 2
      verdict_def [symmetric] 3 first_decision_def [symmetric] n_def [symmetric] by simp
  show thesis
    by (rule that [OF 1(1,2) 2 verdict_def HOL.refl]) (use 4 in \<open>auto split: if_splits\<close>)
qed

section \<open>Examples\<close>

definition example_env :: "authority \<Rightarrow> command_env" where
  "example_env A = \<lparr>ce_lib = example_lib, ce_proposals = example_proposal_codec, ce_json = example_command_codec,
     ce_goal_hashes = \<lparr>gh_deadline = (\<lambda>_. []), gh_weekly = (\<lambda>_. [])\<rparr>, ce_authority = A, ce_scope = None,
     ce_device = ''dev'', ce_now = 5000, ce_uuid = (\<lambda>n. replicate (Suc n) (CHR ''u'')),
     ce_hash_goal = (\<lambda>_. Inr ''h''), ce_hash_session = (\<lambda>_. Inr ''h''), ce_hash_action = (\<lambda>_. Inr ''h''),
     ce_hash_decision = (\<lambda>_. Inr ''h''), ce_hash_objective = (\<lambda>_ _. Inr ''o''),
     ce_feedback = (\<lambda>_. Inl (PlainError ''no feedback'')), ce_sha1_uuid = (\<lambda>s. s)\<rparr>"

definition example_operation :: "int \<Rightarrow> OperationEnvelope" where
  "example_operation v = \<lparr>op_OperationID = ''op'', op_PayloadSchemaVersion = 1, op_AggregateType = ''session'',
     op_AggregateID = ''s'', op_ExpectedVersion = v, op_OccurredAt = None, op_Payload = ''{}''\<rparr>"

definition example_action :: "Action \<Rightarrow> int \<Rightarrow> ActionCommand" where
  "example_action a v = \<lparr>acmd_Operation = example_operation v, acmd_Action = a, acmd_ProposalID = [], acmd_Question = [],
     acmd_Answer = [], acmd_Help = HelpNone, acmd_Complete = False, acmd_GoalRevisionID = [], acmd_ExposureKind = [],
     acmd_ExposureText = [], acmd_References = []\<rparr>"

lemma example_valid_operation [simp]: "0 \<le> v \<Longrightarrow> ValidateOperation example_lib (example_operation v) = None"
  by (simp add: ValidateOperation_def example_operation_def example_lib_def)

lemma example_command_fields [simp]:
  "ce_lib (example_env A) = example_lib" "ce_authority (example_env A) = A" "ce_hash_action (example_env A) cmd = Inr ''h''"
  "ce_hash_decision (example_env A) c = Inr ''h''" "ce_hash_objective (example_env A) act att = Inr ''o''"
  "acmd_Operation (example_action a v) = example_operation v" "acmd_Action (example_action a v) = a"
  "op_AggregateType (example_operation v) = ''session''" "op_AggregateID (example_operation v) = ''s''"
  "op_ExpectedVersion (example_operation v) = v" "au_session (example_authority s) i = Inr \<lparr>sa_Session = s, sa_AsOfEventSequence = 7\<rparr>"
  by (simp_all add: example_env_def example_action_def example_operation_def example_authority_def)

lemma run_action_commits:
  assumes "run_action E sessionID cmd = Inr r" "ce_hash_action E cmd = Inr h"
  shows "\<exists>req. applyAction E sessionID cmd = Some (Inr req)"
proof -
  obtain p tr where r: "r = (p, tr)" by fastforce
  have "transitionDrafts (ce_json E) (sess_ID (tr_Session tr)) tr (pr_Payloads p) \<noteq> None"
    unfolding transitionDrafts_returns_iff by (rule run_action_payloads [OF assms(1) [unfolded r]])
  then show ?thesis using assms by (auto simp: applyAction_def r finish_action_def commit_request_def Let_def)
qed

lemma example_diagnostic:
  "\<exists>r. run_action (example_env (example_authority ready_session)) ''s'' (example_action ActionStartDiagnostic 3) = Inr r"
  by (simp add: run_action_def guardFeedbackExit_def prepare_action_def start_prepared_def apply_unfold Let_def
      ready_session_def lesson_defs)

theorem committed_action_legal_witness:
  "\<exists>req t. applyAction (example_env (example_authority ready_session)) ''s'' (example_action ActionStartDiagnostic 3) = Some (Inr req)
     \<and> hd (cr_Expectations req) = session_fence ready_session 3 \<and> cb_Session (cr_Batch req) = Some t \<and> sess_State t = StateDiagnostic
     \<and> EventTutoringStateChanged \<in> ed_Type ` set (cb_Events (cr_Batch req))"
proof -
  let ?E = "example_env (example_authority ready_session)"
  obtain req where req: "applyAction ?E ''s'' (example_action ActionStartDiagnostic 3) = Some (Inr req)"
    using example_diagnostic run_action_commits [of ?E] by fastforce
  have "session_inv ready_session" by (simp add: session_inv_def live_frame_def ready_session_def lesson_defs)
  moreover have "sess_AggregateVer ready_session = 3" by (simp add: ready_session_def)
  moreover have "acmd_Action (example_action ActionStartDiagnostic 3) = ActionStartDiagnostic" by (simp add: example_action_def)
  ultimately show ?thesis
    using committed_action_legal [OF req, of "\<lparr>sa_Session = ready_session, sa_AsOfEventSequence = 7\<rparr>"] req
    by (auto simp: lesson_step_def)
qed

definition feedback_session :: Session where
  "feedback_session = (lesson_session StateFeedback)\<lparr>sess_AggregateVer := 4,
     sess_Context := (sess_Context (lesson_session StateFeedback))\<lparr>ctx_ActivityID := Some ''a'', ctx_AttemptID := Some ''t''\<rparr>\<rparr>"

definition judged_authority :: "Disposition \<Rightarrow> authority" where
  "judged_authority d = (example_authority feedback_session)\<lparr>
     au_assessment_for_attempt := (\<lambda>_. Inr (example_artifact 900, example_decision d)),
     au_assessment := (\<lambda>_. Inr (example_artifact 900, example_decision d))\<rparr>"

lemma judged_authority_fields [simp]:
  "au_session (judged_authority d) i = Inr \<lparr>sa_Session = feedback_session, sa_AsOfEventSequence = 7\<rparr>"
  "au_assessment_for_attempt (judged_authority d) i = Inr (example_artifact 900, example_decision d)"
  "au_assessment (judged_authority d) i = Inr (example_artifact 900, example_decision d)"
  "au_activity (judged_authority d) i = Inr ((example_activity ActivityOpen)\<lparr>act_ID := i\<rparr>)"
  "au_attempt (judged_authority d) i = Inr (example_attempt\<lparr>att_ID := i\<rparr>)"
  "au_evidence (judged_authority d) i = Inr []" "au_misconceptions (judged_authority d) i = Inr []"
  by (simp_all add: judged_authority_def example_authority_def)

lemma example_end:
  "\<exists>r. run_action (example_env (judged_authority DispositionAccepted)) ''s'' (example_action ActionEndActivity 4) = Inr r"
  by (simp add: run_action_def guardFeedbackExit_def prepare_action_def start_prepared_def apply_unfold Let_def HasAdaptiveFocus_def
      feedback_session_def lesson_defs example_artifact_def example_decision_def)

theorem provisional_feedback_held_witness:
  "\<exists>req. applyAction (example_env (judged_authority DispositionAccepted)) ''s'' (example_action ActionEndActivity 4) = Some (Inr req)
     \<and> (\<exists>attemptID artifact decision. ctx_AttemptID (sess_Context feedback_session) = Some attemptID
        \<and> au_assessment_for_attempt (judged_authority DispositionAccepted) attemptID = Inr (artifact, decision)
        \<and> dec_Disposition decision \<noteq> DispositionProvisional)"
proof -
  let ?E = "example_env (judged_authority DispositionAccepted)"
  obtain req where req: "applyAction ?E ''s'' (example_action ActionEndActivity 4) = Some (Inr req)"
    using example_end run_action_commits [of ?E] by fastforce
  have "sess_State feedback_session = StateFeedback" by (simp add: feedback_session_def lesson_defs)
  then show ?thesis
    using provisional_feedback_held [OF req, of "\<lparr>sa_Session = feedback_session, sa_AsOfEventSequence = 7\<rparr>"] req by auto
qed

end
