(* ===== verification/Judgements.thy ===== *)
theory Judgements
  imports Commands
begin

text \<open>
  What the commands do with evidence. Recording an assessment is the only action that writes a
  decision or evidence; the decisions of \<open>decide\<close> supersede the current one, and along any
  sequence of them an assessment has exactly the evidence its current decision names: the
  evidence a decision replaces is invalidated in the same commit.

  \<open>ledger\<close> is the abstract state these properties are about: the current decision of one
  assessment and the identifiers of its live evidence. \<open>decision_step\<close> runs \<open>decide\<close> of
  \<open>command.go\<close> on it; the locale \<open>guarded_machine\<close> of the prelude gives the induction.
\<close>

section \<open>Recording an assessment\<close>

lemma judged_cong:
  assumes "cb_Assessment b' = cb_Assessment b" "cb_Decisions b' = cb_Decisions b" "cb_Disposition b' = cb_Disposition b"
    "cb_Evidence b' = cb_Evidence b" "cb_Authority b' = cb_Authority b"
  shows "judged E b' = judged E b"
  unfolding judged_def assms ..

lemma first_decision_fields [simp]:
  "dec_ID (first_decision E n artifact d) = ce_uuid E n" "dec_AssessmentID (first_decision E n artifact d) = art_ID artifact"
  "dec_Version (first_decision E n artifact d) = 1" "dec_Disposition (first_decision E n artifact d) = d"
  "dec_ProducedEvidenceID (first_decision E n artifact d) = None"
  by (simp_all add: first_decision_def)

lemma EvaluateAssessment_disposition:
  assumes "EvaluateAssessment L activity attempt artifact = Inr acc"
  shows "acc_Disposition acc = DispositionProvisional \<or> acc_Disposition acc = DispositionAccepted"
  using assms
  by (auto simp: EvaluateAssessment_def evaluate_objective_def evaluate_open_def conclude_def Let_def
      split: if_splits option.splits sum.splits)

lemma prepare_assessment_judged:
  assumes "prepare_assessment E cmd p = Inr p'" and "cb_Evidence (pr_Batch p) = []"
  shows "judged E (pr_Batch p')"
proof -
  obtain i activity j attempt artifact n acceptance verdict owners q where
    src: "au_activity (ce_authority E) i = Inr activity" "au_attempt (ce_authority E) j = Inr attempt"
      "EvaluateAssessment (ce_lib E) activity attempt artifact = Inr acceptance"
    and verdict: "verdict = (if att_EvidenceIneligibleReason attempt \<noteq> []
        then provisional [att_EvidenceIneligibleReason attempt] else acceptance)"
    and q: "q = record_artifact E artifact owners (first_decision E n artifact (acc_Disposition verdict)) p"
    and rest: "if acc_Disposition verdict = DispositionProvisional
     then p' = set_payload EventAssessmentMarkedProvisional [js_assessment_event (ce_json E)
            \<lparr>ape_AssessmentID = art_ID artifact, ape_NodeRevisionID = act_TargetNodeRevisionID activity,
             ape_Reasons = acc_Reasons verdict, ape_Decision = first_decision E n artifact (acc_Disposition verdict)\<rparr>] q
     else accept_evidence E (ce_uuid E (n + 1)) activity attempt artifact (first_decision E n artifact (acc_Disposition verdict))
            (acc_Outcome verdict) q = Inr p'"
    by (rule prepare_assessment_Inr [OF assms(1)])
  show ?thesis
  proof (cases "acc_Disposition verdict = DispositionProvisional")
    case True
    let ?d = "first_decision E n artifact DispositionProvisional"
    have b: "pr_Batch p' = pr_Batch q" using rest True by simp
    have "acc_Disposition acceptance = DispositionProvisional \<or> att_EvidenceIneligibleReason attempt \<noteq> []"
      using True verdict by (auto split: if_splits)
    then show ?thesis
      unfolding judged_def b q True
      by (intro exI [of _ artifact] exI [of _ ?d] exI [of _ i] exI [of _ activity] exI [of _ j] exI [of _ attempt] exI [of _ acceptance])
         (simp add: src assms(2))
  next
    case False
    then have eligible: "att_EvidenceIneligibleReason attempt = []" and same: "verdict = acceptance"
      using verdict by (auto simp: provisional_def split: if_splits)
    have "accept_evidence E (ce_uuid E (n + 1)) activity attempt artifact (first_decision E n artifact (acc_Disposition acceptance))
            (acc_Outcome acceptance) q = Inr p'"
      using rest False same by simp
    then obtain e owner ms where e: "att_Help attempt \<noteq> HelpAnswerRevealed"
      "e = makeEvidence E (ce_uuid E (n + 1)) activity attempt artifact (first_decision E n artifact (acc_Disposition acceptance))
        (art_Items artifact) (acc_Outcome acceptance)"
      "evidenceAuthority activity e = Inr owner"
      "p' = record_evidence E artifact ((first_decision E n artifact (acc_Disposition acceptance))\<lparr>dec_ProducedEvidenceID := Some (ev_ID e)\<rparr>) e owner ms q"
      by (rule accept_evidence_Inr)
    let ?d = "(first_decision E n artifact (acc_Disposition acceptance))\<lparr>dec_ProducedEvidenceID := Some (ev_ID e)\<rparr>"
    show ?thesis
      unfolding judged_def
      using src eligible False same e(1,3)
      by (intro exI [of _ artifact] exI [of _ ?d] exI [of _ i] exI [of _ activity] exI [of _ j] exI [of _ attempt] exI [of _ acceptance])
         (simp add: e(4) q; simp add: e(2))
  qed
qed

lemma evidence_committed:
  assumes "applyAction E sessionID cmd = Some (Inr req)"
  shows "if acmd_Action cmd = ActionRecordAssessment then judged E (cr_Batch req)
     else cb_Decisions (cr_Batch req) = [] \<and> cb_Evidence (cr_Batch req) = []"
proof -
  obtain p tr where r: "run_action E sessionID cmd = Inr (p, tr)"
    and b: "cb_Assessment (cr_Batch req) = cb_Assessment (pr_Batch p)" "cb_Decisions (cr_Batch req) = cb_Decisions (pr_Batch p)"
      "cb_Disposition (cr_Batch req) = cb_Disposition (pr_Batch p)" "cb_Evidence (cr_Batch req) = cb_Evidence (pr_Batch p)"
      "cb_Authority (cr_Batch req) = cb_Authority (pr_Batch p)"
    by (rule applyAction_Inr [OF assms]) blast
  obtain auth :: SessionAuthority where p: "prepare_action E cmd (start_prepared sessionID cmd (sa_Session auth)) = Inr p"
    by (rule run_action_cases [OF r]) blast
  have fresh: "pr_Batch (start_prepared sessionID cmd s) = empty_batch" for s by (simp add: start_prepared_def)
  show ?thesis
  proof (cases "acmd_Action cmd = ActionRecordAssessment")
    case True
    with p have "prepare_assessment E cmd (start_prepared sessionID cmd (sa_Session auth)) = Inr p"
      by (simp add: prepare_action_def)
    then have "judged E (pr_Batch p)" by (rule prepare_assessment_judged) (simp add: fresh empty_batch_def)
    with True show ?thesis by (simp add: judged_cong [OF b])
  next
    case False
    with prepare_action_same_judgement [OF p] show ?thesis
      by (simp add: b same_judgement_def fresh empty_batch_def)
  qed
qed

text \<open>
  Evidence comes from accepted assessments only. A committed \<open>record_assessment\<close> writes one decision; if
  it is provisional there is no evidence, and it is accepted only for an eligible attempt the evaluation
  accepts without a revealed answer, with one piece of evidence whose owner is a reference of the
  activity. No other action writes a decision or evidence.
\<close>

theorem evidence_iff_accepted:
  assumes "applyAction E sessionID cmd = Some (Inr req)"
  shows "if acmd_Action cmd = ActionRecordAssessment then judged E (cr_Batch req)
     else cb_Decisions (cr_Batch req) = [] \<and> cb_Evidence (cr_Batch req) = []"
  using assms by (rule evidence_committed)

section \<open>Decisions on an assessment\<close>

lemma decision_chain_Inr:
  assumes "decision_chain E assessmentID command = Inr (s, artifact, current, activity, attempt)"
  shows "au_assessment (ce_authority E) assessmentID = Inr (artifact, current)" "art_ID artifact = assessmentID"
    "dec_AssessmentID current = assessmentID" "act_ID activity = art_ActivityID artifact" "att_ID attempt = art_AttemptID artifact"
    "sess_AggregateVer s = op_ExpectedVersion (adc_Operation command)" "art_SessionID artifact = sess_ID s"
  using assms by (simp_all add: decision_chain_def Let_def case_prod_unfold split: if_split_asm)

lemma decision_effect_Inr:
  assumes "decision_effect E command artifact current activity attempt = Inr effect"
  shows "DecideAssessment current artifact \<lparr>dc_Kind = adc_Kind command, dc_ExpectedVersion = adc_ExpectedDispositionVersion command,
      dc_Reason = adc_Reason command, dc_Items = adc_Items command\<rparr> (ConfirmableAssessment (ce_lib E) activity attempt artifact) = Inr effect"
    "de_CreateEvidence effect \<Longrightarrow> att_EvidenceIneligibleReason attempt = [] \<and> att_Help attempt \<noteq> HelpAnswerRevealed"
  using assms by (auto simp: decision_effect_def Let_def split: if_split_asm)

lemma decision_evidence_Inr:
  assumes "decision_evidence E i artifact current activity attempt effect decision = Inr produced"
  shows "case produced of None \<Rightarrow> \<not> de_CreateEvidence effect
    | Some (e, owner) \<Rightarrow> de_CreateEvidence effect \<and> ev_ID e = i \<and> ev_DispositionDecisionID e = dec_ID decision
        \<and> ev_AssessmentID e = art_ID artifact \<and> evidenceAuthority activity e = Inr owner
        \<and> ValidateAssessmentReplacement (ce_lib E) activity attempt artifact (de_Items effect) = Inr (ev_Outcome e)"
  using assms by (auto simp: decision_evidence_def Let_def split: if_split_asm sum.split_asm)

lemma decide_batch_Inr:
  assumes "decide_batch E command s artifact current activity attempt effect = Inr b"
  obtains d produced where "cb_Decisions b = [d]" "dec_AssessmentID d = art_ID artifact" "dec_ID d = ce_uuid E 0"
    "dec_Version d = int64 (dec_Version current + 1)" "dec_ReplacesDecisionID d = Some (dec_ID current)"
    "dec_Disposition d = de_Disposition effect" "cb_Disposition b = de_Disposition effect"
    "cb_Evidence b = (case produced of None \<Rightarrow> [] | Some (e, owner) \<Rightarrow> [e])"
    "dec_ProducedEvidenceID d = map_option (\<lambda>(e, owner). ev_ID e) produced"
    "map inv_EvidenceID (cb_Invalidations b) =
       (if de_InvalidateEvidence effect then (case dec_ProducedEvidenceID current of None \<Rightarrow> [] | Some i \<Rightarrow> [i]) else [])"
    "case produced of None \<Rightarrow> \<not> de_CreateEvidence effect
      | Some (e, owner) \<Rightarrow> de_CreateEvidence effect \<and> ev_DispositionDecisionID e = dec_ID d
        \<and> evidenceAuthority activity e = Inr owner
        \<and> ValidateAssessmentReplacement (ce_lib E) activity attempt artifact (de_Items effect) = Inr (ev_Outcome e)"
    "cb_Session b = Some s"
proof -
  define decision where "decision = \<lparr>dec_ID = ce_uuid E 0, dec_AssessmentID = art_ID artifact, dec_Version = int64 (dec_Version current + 1),
            dec_Disposition = de_Disposition effect, dec_Items = de_Items effect, dec_Reason = adc_Reason command,
            dec_ActorDeviceID = ce_device E, dec_CreatedAt = now_of E, dec_ReplacesDecisionID = Some (dec_ID current),
            dec_ProducedEvidenceID = None\<rparr>"
  define i where "i = ce_uuid E (if de_InvalidateEvidence effect \<and> dec_ProducedEvidenceID current \<noteq> None then 2 else 1)"
  from assms obtain produced where p: "decision_evidence E i artifact current activity attempt effect decision = Inr produced"
    by (auto simp: decide_batch_def Let_def decision_def i_def)
  note facts = decision_evidence_Inr [OF p]
  note b = assms [unfolded decide_batch_def Let_def decision_def [symmetric] i_def [symmetric] p bindE_simps]
  show thesis
  proof (cases produced)
    case None
    show thesis
      by (rule that [of decision None]) (use b facts None in \<open>auto simp: decision_def split: option.splits\<close>)
  next
    case (Some x)
    obtain e owner where x: "x = (e, owner)" by fastforce
    show thesis
      by (rule that [of "decision\<lparr>dec_ProducedEvidenceID := Some (ev_ID e)\<rparr>" produced])
         (use b facts Some x in \<open>auto simp: decision_def split: option.splits\<close>)
  qed
qed

lemma decide_Inr:
  assumes "decide E assessmentID command = Inr req"
  obtains s artifact current activity attempt effect b h where
    "decision_chain E assessmentID command = Inr (s, artifact, current, activity, attempt)"
    "decision_effect E command artifact current activity attempt = Inr effect"
    "decide_batch E command s artifact current activity attempt effect = Inr b"
    "req = \<lparr>cr_DeviceID = ce_device E, cr_Operation = adc_Operation command, cr_RequestHash = h,
       cr_Expectations = [\<lparr>ae_Type = ''session'', ae_ID = art_SessionID artifact,
         ae_ExpectedVersion = op_ExpectedVersion (adc_Operation command)\<rparr>],
       cr_Batch = b, cr_ReceivedAt = now_of E\<rparr>"
  using assms by (auto simp: decide_def commit_request_def case_prod_unfold)

text \<open>What the effect of a decision is, by the kind of the command.\<close>

lemma DecideAssessment_effect:
  assumes "DecideAssessment current artifact command confirmable = Inr effect"
  shows "dc_ExpectedVersion command = dec_Version current"
    "dc_Kind command = ''confirm'' \<or> dc_Kind command = ''override'' \<or> dc_Kind command = ''void''"
    "de_CreateEvidence effect \<longleftrightarrow> dc_Kind command \<noteq> ''void''"
    "de_InvalidateEvidence effect \<longleftrightarrow> dc_Kind command \<noteq> ''confirm'' \<and> dec_ProducedEvidenceID current \<noteq> None"
    "de_Disposition effect = (if dc_Kind command = ''confirm'' then DispositionAccepted
       else if dc_Kind command = ''override'' then DispositionOverridden else DispositionVoided)"
    "dc_Kind command = ''confirm'' \<Longrightarrow> dec_Disposition current = DispositionProvisional"
    "dec_Disposition current \<noteq> DispositionVoided"
  using assms by (auto simp: DecideAssessment_def Let_def split: if_splits option.splits)

lemma decision_version:
  assumes "decide E assessmentID command = Inr req"
  shows "\<exists>d. cb_Decisions (cr_Batch req) = [d] \<and> dec_Version d = int64 (adc_ExpectedDispositionVersion command + 1)"
proof -
  obtain s artifact current activity attempt effect b h where
    effect: "decision_effect E command artifact current activity attempt = Inr effect"
    and batch: "decide_batch E command s artifact current activity attempt effect = Inr b" and req: "cr_Batch req = b"
    by (rule decide_Inr [OF assms]) auto
  have "adc_ExpectedDispositionVersion command = dec_Version current"
    using DecideAssessment_effect(1) [OF decision_effect_Inr(1) [OF effect]] by simp
  then show ?thesis by (rule_tac decide_batch_Inr [OF batch]) (auto simp: req)
qed

text \<open>
  A decision supersedes the current one. A committed decision was made against the version of the current
  decision; it names that decision and has the next version; confirming and overriding produce one
  piece of evidence of this decision, voiding none; overriding and voiding invalidate the evidence the
  current decision produced.
\<close>

theorem decision_supersedes:
  assumes "decide E assessmentID command = Inr req"
  shows "\<exists>artifact current d. au_assessment (ce_authority E) assessmentID = Inr (artifact, current)
    \<and> cb_Decisions (cr_Batch req) = [d] \<and> dec_AssessmentID d = assessmentID
    \<and> dec_Version current = adc_ExpectedDispositionVersion command
    \<and> dec_Version d = int64 (dec_Version current + 1) \<and> dec_ReplacesDecisionID d = Some (dec_ID current)
    \<and> (if adc_Kind command = ''void'' then cb_Evidence (cr_Batch req) = [] \<and> dec_ProducedEvidenceID d = None
       else \<exists>e. cb_Evidence (cr_Batch req) = [e] \<and> dec_ProducedEvidenceID d = Some (ev_ID e)
              \<and> ev_DispositionDecisionID e = dec_ID d)
    \<and> map inv_EvidenceID (cb_Invalidations (cr_Batch req)) =
        (if adc_Kind command = ''confirm'' then []
         else case dec_ProducedEvidenceID current of None \<Rightarrow> [] | Some i \<Rightarrow> [i])"
proof -
  obtain s artifact current activity attempt effect b h where
    chain: "decision_chain E assessmentID command = Inr (s, artifact, current, activity, attempt)"
    and effect: "decision_effect E command artifact current activity attempt = Inr effect"
    and batch: "decide_batch E command s artifact current activity attempt effect = Inr b"
    and req: "cr_Batch req = b"
    by (rule decide_Inr [OF assms]) auto
  note table = DecideAssessment_effect [OF decision_effect_Inr(1) [OF effect], simplified]
  note chain = decision_chain_Inr [OF chain]
  show ?thesis
    by (rule decide_batch_Inr [OF batch])
       (use table chain req in \<open>fastforce split: option.splits if_splits\<close>)
qed

section \<open>One live piece of evidence\<close>

record ledger =
  lg_current :: AssessmentDecision
  lg_live :: "string list"

definition produced_ids :: "AssessmentDecision \<Rightarrow> string list" where
  "produced_ids d = (case dec_ProducedEvidenceID d of None \<Rightarrow> [] | Some i \<Rightarrow> [i])"

definition first_ledger :: "CommandBatch \<Rightarrow> ledger" where
  "first_ledger b = \<lparr>lg_current = hd (cb_Decisions b), lg_live = map ev_ID (cb_Evidence b)\<rparr>"

definition recorded :: "CommandBatch \<Rightarrow> ledger \<Rightarrow> ledger" where
  "recorded b l = \<lparr>lg_current = last (lg_current l # cb_Decisions b),
     lg_live = filter (\<lambda>i. i \<notin> set (map inv_EvidenceID (cb_Invalidations b))) (lg_live l) @ map ev_ID (cb_Evidence b)\<rparr>"

text \<open>A decision runs against a store whose current decision is that of the ledger.\<close>

fun decision_step :: "ledger \<Rightarrow> command_env \<times> string \<times> AssessmentDecisionCommand \<Rightarrow> error + ledger" where
  "decision_step l (E, assessmentID, command) =
     bindE (au_assessment (ce_authority E) assessmentID) (\<lambda>(artifact, current).
       if current \<noteq> lg_current l then Inl (err_code CodeVersionConflict)
       else bindE (decide E assessmentID command) (\<lambda>req. Inr (recorded (cr_Batch req) l)))"

definition one_live :: "ledger \<Rightarrow> bool" where
  "one_live l \<longleftrightarrow> lg_live l = produced_ids (lg_current l)
     \<and> (dec_Disposition (lg_current l) = DispositionProvisional \<or> dec_Disposition (lg_current l) = DispositionVoided
        \<longrightarrow> lg_live l = [])"

lemma judged_one_live: "judged E b \<Longrightarrow> one_live (first_ledger b)"
  by (auto simp: judged_def one_live_def first_ledger_def produced_ids_def dest: EvaluateAssessment_disposition split: if_splits)

lemma decision_step_one_live:
  assumes "one_live l" "decision_step l c = Inr l'"
  shows "one_live l'"
proof -
  obtain E assessmentID command where c: "c = (E, assessmentID, command)" by (cases c) auto
  from assms(2) obtain req artifact where d: "decide E assessmentID command = Inr req"
    and cur: "au_assessment (ce_authority E) assessmentID = Inr (artifact, lg_current l)"
    and l': "l' = recorded (cr_Batch req) l"
    by (auto simp: c case_prod_unfold split: if_splits)
  obtain s artifact' current activity attempt effect b h where
    chain: "decision_chain E assessmentID command = Inr (s, artifact', current, activity, attempt)"
    and effect: "decision_effect E command artifact' current activity attempt = Inr effect"
    and batch: "decide_batch E command s artifact' current activity attempt effect = Inr b"
    and req: "cr_Batch req = b"
    by (rule decide_Inr [OF d]) auto
  have current: "current = lg_current l" using decision_chain_Inr(1) [OF chain] cur by simp
  note table = DecideAssessment_effect [OF decision_effect_Inr(1) [OF effect], simplified]
  obtain d produced where d: "cb_Decisions b = [d]" "dec_Disposition d = de_Disposition effect"
      "dec_ProducedEvidenceID d = map_option (\<lambda>(e, owner). ev_ID e) produced"
    and e: "cb_Evidence b = (case produced of None \<Rightarrow> [] | Some (e, owner) \<Rightarrow> [e])"
      "case produced of None \<Rightarrow> \<not> de_CreateEvidence effect
       | Some (e, owner) \<Rightarrow> de_CreateEvidence effect \<and> ev_DispositionDecisionID e = dec_ID d
         \<and> evidenceAuthority activity e = Inr owner
         \<and> ValidateAssessmentReplacement (ce_lib E) activity attempt artifact' (de_Items effect) = Inr (ev_Outcome e)"
    and i: "map inv_EvidenceID (cb_Invalidations b) =
       (if de_InvalidateEvidence effect then (case dec_ProducedEvidenceID current of None \<Rightarrow> [] | Some i \<Rightarrow> [i]) else [])"
    by (rule decide_batch_Inr [OF batch]) blast
  have live: "lg_live l = produced_ids current" using assms(1) unfolding one_live_def current ..
  have confirmed: "adc_Kind command = ''confirm'' \<Longrightarrow> lg_live l = []"
    using assms(1) table(6) unfolding one_live_def current by blast
  have "filter (\<lambda>x. x \<notin> set (map inv_EvidenceID (cb_Invalidations b))) (lg_live l) = []"
  proof (cases "adc_Kind command = ''confirm''")
    case False
    then show ?thesis
      unfolding i live produced_ids_def using table(4) by (cases "dec_ProducedEvidenceID current") simp_all
  qed (simp add: confirmed)
  then have "lg_current l' = d" "lg_live l' = map ev_ID (cb_Evidence b)"
    by (simp_all add: l' recorded_def req d(1))
  then show ?thesis
    using d(2,3) e table(2,3,5) by (cases produced) (auto simp: one_live_def produced_ids_def)
qed

interpretation judgement: guarded_machine decision_step one_live
  by unfold_locales (rule decision_step_one_live)

text \<open>
  C19: An assessment never has two live pieces of evidence. After the commit that records it, and after any
  sequence of decisions each made against the current one, the live evidence is exactly what the current
  decision names, and none while the decision is provisional or voided.
\<close>

theorem one_live_evidence:
  assumes "applyAction E sessionID cmd = Some (Inr req)" "acmd_Action cmd = ActionRecordAssessment"
    and "reaches decision_step (first_ledger (cr_Batch req)) l"
  shows "lg_live l = produced_ids (lg_current l)
    \<and> (dec_Disposition (lg_current l) = DispositionProvisional \<or> dec_Disposition (lg_current l) = DispositionVoided
       \<longrightarrow> lg_live l = [])"
proof -
  have "judged E (cr_Batch req)" using evidence_committed [OF assms(1)] assms(2) by simp
  then have "one_live l" by (intro judgement.reaches_inv [OF assms(3)] judged_one_live)
  then show ?thesis unfolding one_live_def .
qed

section \<open>Examples\<close>

definition evaluating_session :: Session where
  "evaluating_session = (lesson_session StateEvaluating)\<lparr>sess_AggregateVer := 4,
     sess_Context := (sess_Context (lesson_session StateEvaluating))\<lparr>ctx_ActivityID := Some ''a'', ctx_AttemptID := Some ''t''\<rparr>\<rparr>"

definition evaluating_authority :: authority where
  "evaluating_authority = (example_authority evaluating_session)\<lparr>
     au_activity := (\<lambda>i. Inr ((example_activity ActivityObjective)\<lparr>act_ID := i\<rparr>))\<rparr>"

lemma evaluating_fields [simp]:
  "au_session evaluating_authority i = Inr \<lparr>sa_Session = evaluating_session, sa_AsOfEventSequence = 7\<rparr>"
  "au_activity evaluating_authority i = Inr ((example_activity ActivityObjective)\<lparr>act_ID := i\<rparr>)"
  "au_attempt evaluating_authority i = Inr (example_attempt\<lparr>att_ID := i\<rparr>)"
  "au_evidence evaluating_authority i = Inr []" "au_misconceptions evaluating_authority i = Inr []"
  by (simp_all add: evaluating_authority_def example_authority_def)

abbreviation evaluating_env :: command_env where
  "evaluating_env \<equiv> example_env evaluating_authority"

definition objective_artifact :: AssessmentArtifact where
  "objective_artifact = \<lparr>art_ID = ''u'', art_SessionID = ''s'', art_AttemptID = ''t'', art_ActivityID = ''a'',
     art_ActivityRevision = 1, art_Items = [], art_RubricComplete = True, art_Confidence = 1000,
     art_RiskFlags = [], art_ModelID = ''deterministic-objective'', art_ModelParameters = [],
     art_PromptRevision = ''objective-rule-v1'', art_ProposalInputHash = ''o'', art_Attempts = 1,
     art_AttemptCategories = [''deterministic''], art_CreatedAt = 5000, art_EvidenceEligibility = True,
     art_EvidenceIneligibleReason = []\<rparr>"

lemma objective_accepted:
  "EvaluateAssessment example_lib ((example_activity ActivityObjective)\<lparr>act_ID := ''a''\<rparr>) (example_attempt\<lparr>att_ID := ''t''\<rparr>) objective_artifact
     = Inr (accepted OutcomePass)"
  by (simp add: EvaluateAssessment_def has_target_reference_def evaluate_objective_def objective_matches_def
      objective_artifact_def example_defs)

lemma recompute_returns:
  assumes "au_evidence (ce_authority E) node = Inr stored" "au_misconceptions (ce_authority E) node = Inr previous"
  shows "\<exists>ms. recomputeMisconceptions E node i e = Inr ms"
  using assms by (simp add: recomputeMisconceptions_def Let_def)

definition objective_decision :: AssessmentDecision where
  "objective_decision = (first_decision evaluating_env 1 objective_artifact DispositionAccepted)\<lparr>dec_ProducedEvidenceID := Some ''uuu''\<rparr>"

lemma evaluating_prepared:
  "\<exists>p. prepare_assessment evaluating_env (example_action ActionRecordAssessment 4)
       (start_prepared ''s'' (example_action ActionRecordAssessment 4) evaluating_session) = Inr p
     \<and> cb_Decisions (pr_Batch p) = [objective_decision]"
proof -
  let ?cmd = "example_action ActionRecordAssessment 4"
  let ?p = "start_prepared ''s'' ?cmd evaluating_session"
  let ?act = "(example_activity ActivityObjective)\<lparr>act_ID := ''a''\<rparr>" and ?att = "example_attempt\<lparr>att_ID := ''t''\<rparr>"
  have raw: "assessment_artifact evaluating_env ?cmd (pr_Session ?p) ?act ?att
      = Inr (objective_artifact\<lparr>art_EvidenceEligibility := False\<rparr>)"
    by (simp add: assessment_artifact_def start_prepared_def objective_artifact_def evaluating_session_def lesson_defs
        example_activity_def example_attempt_def example_env_def now_of_def trunc_microsecond_def)
  have art: "objective_artifact\<lparr>art_EvidenceEligibility := True, art_EvidenceIneligibleReason := []\<rparr> = objective_artifact"
    by (simp add: objective_artifact_def)
  have ctx: "ctx_ActivityID (sess_Context (pr_Session ?p)) = Some ''a''" "ctx_AttemptID (sess_Context (pr_Session ?p)) = Some ''t''"
    by (simp_all add: start_prepared_def evaluating_session_def)
  have fields: "act_Type ?act = ActivityObjective" "att_EvidenceEligibility ?att" "att_EvidenceIneligibleReason ?att = []"
      "att_Help ?att = HelpNone"
    by (simp_all add: example_activity_def example_attempt_def)
  have own: "assessmentAuthority ?act objective_artifact = Inr []"
    by (simp add: assessmentAuthority_def objective_artifact_def)
  define e where "e = makeEvidence evaluating_env (ce_uuid evaluating_env 2) ?act ?att objective_artifact
     (first_decision evaluating_env 1 objective_artifact DispositionAccepted) (art_Items objective_artifact) OutcomePass"
  have e: "ev_ID e = ''uuu''" by (simp add: e_def example_env_def numeral_2_eq_2)
  obtain owner where owner: "evidenceAuthority ?act e = Inr owner"
    by (simp add: evidenceAuthority_def e_def makeEvidence_def example_activity_def example_reference_def)
  obtain ms where ms: "recomputeMisconceptions evaluating_env (ev_NodeRevisionID e) [] (Some e) = Inr ms"
    using recompute_returns [of evaluating_env] by fastforce
  have accept: "accept_evidence evaluating_env (ce_uuid evaluating_env 2) ?act ?att objective_artifact
      (first_decision evaluating_env 1 objective_artifact DispositionAccepted) OutcomePass q
     = Inr (record_evidence evaluating_env objective_artifact objective_decision e owner ms q)" for q
    unfolding accept_evidence_def Let_def e_def [symmetric] owner ms bindE_simps fields objective_decision_def e by simp
  have p': "prepare_assessment evaluating_env ?cmd ?p = Inr (record_evidence evaluating_env objective_artifact objective_decision e owner ms
      (record_artifact evaluating_env objective_artifact [] (first_decision evaluating_env 1 objective_artifact DispositionAccepted) ?p))"
    by (simp add: prepare_assessment_def Let_def ctx raw fields art objective_accepted own del: One_nat_def)
       (simp add: accept [symmetric] first_decision_def accepted_def numeral_2_eq_2)
  show ?thesis unfolding p' by simp
qed

lemma evaluating_committed:
  "\<exists>req. applyAction evaluating_env ''s'' (example_action ActionRecordAssessment 4) = Some (Inr req)
     \<and> cb_Decisions (cr_Batch req) = [objective_decision]"
proof -
  let ?cmd = "example_action ActionRecordAssessment 4"
  obtain p where p: "prepare_assessment evaluating_env ?cmd (start_prepared ''s'' ?cmd evaluating_session) = Inr p"
    "cb_Decisions (pr_Batch p) = [objective_decision]" using evaluating_prepared by blast
  note k = start_keeps [OF prepare_assessment_keeps [OF p(1)]]
  have st: "sess_State (pr_Session p) = StateEvaluating" "sess_ID (pr_Session p) = ''s''" "sess_ActiveFrame (pr_Session p) = None"
    using k(1) by (simp_all add: same_lesson_def evaluating_session_def lesson_defs)
  have "accepts (pr_Session p) (cmd_Action (pr_Command p))"
    using k(2) st by (simp add: accepts_def)
  then obtain tr where tr: "Apply (pr_Session p) (pr_Command p) = Inr tr"
    using Apply_accept_iff_aux [of "pr_Session p" "pr_Command p"] st k(3) by auto
  have "sess_AggregateVer evaluating_session = 4" "sess_State evaluating_session = StateEvaluating"
    by (simp_all add: evaluating_session_def lesson_defs)
  then have r: "run_action evaluating_env ''s'' ?cmd = Inr (p, tr)"
    by (simp add: run_action_def guardFeedbackExit_def prepare_action_def p(1) tr)
  obtain req where req: "applyAction evaluating_env ''s'' ?cmd = Some (Inr req)"
    using run_action_commits [OF r] by fastforce
  then have "cb_Decisions (cr_Batch req) = cb_Decisions (pr_Batch p)"
    using r by (auto elim!: applyAction_Inr)
  with req p(2) show ?thesis by auto
qed

theorem evidence_iff_accepted_witness:
  "\<exists>req. applyAction evaluating_env ''s'' (example_action ActionRecordAssessment 4) = Some (Inr req)
     \<and> judged evaluating_env (cr_Batch req)"
proof -
  obtain req where req: "applyAction evaluating_env ''s'' (example_action ActionRecordAssessment 4) = Some (Inr req)"
    using evaluating_committed by blast
  then show ?thesis using evidence_iff_accepted [OF req] by simp
qed

text \<open>The assessment is then voided.\<close>

definition void_command :: AssessmentDecisionCommand where
  "void_command = \<lparr>adc_Operation = example_operation 4, adc_Kind = ''void'', adc_ExpectedDispositionVersion = 1,
     adc_Reason = [], adc_Items = []\<rparr>"

definition voiding_authority :: authority where
  "voiding_authority = evaluating_authority\<lparr>au_assessment := (\<lambda>_. Inr (objective_artifact, objective_decision))\<rparr>"

lemma voiding_fields [simp]:
  "au_session voiding_authority i = Inr \<lparr>sa_Session = evaluating_session, sa_AsOfEventSequence = 7\<rparr>"
  "au_activity voiding_authority i = Inr ((example_activity ActivityObjective)\<lparr>act_ID := i\<rparr>)"
  "au_attempt voiding_authority i = Inr (example_attempt\<lparr>att_ID := i\<rparr>)"
  "au_evidence voiding_authority i = Inr []" "au_misconceptions voiding_authority i = Inr []"
  "au_assessment voiding_authority i = Inr (objective_artifact, objective_decision)"
  by (simp_all add: voiding_authority_def evaluating_authority_def example_authority_def)

lemma objective_decision_fields [simp]:
  "dec_AssessmentID objective_decision = ''u''" "dec_Version objective_decision = 1" "art_ID objective_artifact = ''u''"
  "dec_Disposition objective_decision = DispositionAccepted" "dec_ProducedEvidenceID objective_decision = Some ''uuu''"
  by (simp_all add: objective_decision_def objective_artifact_def)

lemma example_voided: "\<exists>req. decide (example_env voiding_authority) ''u'' void_command = Inr req"
proof -
  let ?E = "example_env voiding_authority"
  let ?act = "(example_activity ActivityObjective)\<lparr>act_ID := ''a''\<rparr>" and ?att = "example_attempt\<lparr>att_ID := ''t''\<rparr>"
  have chain: "decision_chain ?E ''u'' void_command = Inr (evaluating_session, objective_artifact, objective_decision, ?act, ?att)"
    by (simp add: decision_chain_def Let_def void_command_def)
       (simp add: objective_artifact_def evaluating_session_def lesson_defs example_activity_def example_attempt_def)
  obtain effect where effect: "decision_effect ?E void_command objective_artifact objective_decision ?act ?att = Inr effect"
      "\<not> de_CreateEvidence effect"
    by (simp add: decision_effect_def DecideAssessment_def Let_def void_command_def)
  have "\<exists>b. decide_batch ?E void_command evaluating_session objective_artifact objective_decision ?act ?att effect = Inr b"
    using effect(2) recompute_returns [of ?E] by (simp add: decide_batch_def Let_def decision_evidence_def)
  then show ?thesis by (auto simp: decide_def chain effect commit_request_def)
qed

theorem decision_supersedes_witness:
  "\<exists>req d. decide (example_env voiding_authority) ''u'' void_command = Inr req \<and> cb_Decisions (cr_Batch req) = [d]
     \<and> dec_Version d = 2 \<and> map inv_EvidenceID (cb_Invalidations (cr_Batch req)) = [''uuu'']"
proof -
  obtain req where req: "decide (example_env voiding_authority) ''u'' void_command = Inr req" using example_voided by blast
  have "in_int64 2" by (simp add: in_int64_def)
  with decision_supersedes [OF req] req show ?thesis by (auto simp: void_command_def)
qed

theorem one_live_evidence_witness:
  "\<exists>req l. applyAction evaluating_env ''s'' (example_action ActionRecordAssessment 4) = Some (Inr req)
     \<and> reaches decision_step (first_ledger (cr_Batch req)) l \<and> l \<noteq> first_ledger (cr_Batch req)
     \<and> lg_live l = produced_ids (lg_current l)"
proof -
  obtain req where req: "applyAction evaluating_env ''s'' (example_action ActionRecordAssessment 4) = Some (Inr req)"
    "cb_Decisions (cr_Batch req) = [objective_decision]" using evaluating_committed by blast
  let ?l = "first_ledger (cr_Batch req)"
  have cur: "lg_current ?l = objective_decision" by (simp add: first_ledger_def req(2))
  obtain r where r: "decide (example_env voiding_authority) ''u'' void_command = Inr r" using example_voided by blast
  have step: "decision_step ?l (example_env voiding_authority, ''u'', void_command) = Inr (recorded (cr_Batch r) ?l)"
    by (simp add: cur r)
  then have go: "reaches decision_step ?l (recorded (cr_Batch r) ?l)"
    by (blast intro: reaches.intros)
  obtain d where "cb_Decisions (cr_Batch r) = [d]" "dec_Version d = 2"
    using decision_version [OF r] by (auto simp: void_command_def in_int64_def)
  then have "lg_current (recorded (cr_Batch r) ?l) \<noteq> lg_current ?l" using cur by (auto simp: recorded_def)
  then have "recorded (cr_Batch r) ?l \<noteq> ?l" by metis
  moreover have "lg_live (recorded (cr_Batch r) ?l) = produced_ids (lg_current (recorded (cr_Batch r) ?l))"
    using one_live_evidence [OF req(1) _ go] by simp
  ultimately show ?thesis using req(1) go by blast
qed

end
