(* ===== verification/Store.thy ===== *)
theory Store
  imports Commands
begin

text \<open>
  The transaction authority of the learning commands, \<open>learning/postgresstore/store.go\<close>: the archive of
  operations (\<open>LookupOperation\<close>, \<open>ArchiveRejection\<close>, \<open>lookupArchivedOperation\<close>), the commit protocol
  (\<open>Commit\<close> and its helpers) and \<open>replaceProjection\<close> of \<open>projection.go\<close>.

  \<open>db\<close> holds the tables the protocol reads and writes: the inbox of finished operations, the heads
  with the version of each aggregate, the event clock, the event log, the claims and the eligibility
  of attempts, and the generations of the projection. A transaction is a function that returns an
  error or the new tables; \<open>transact\<close> is the rollback. Transactions are run one at a time: the
  advisory locks and row locks of the code serialise those that touch the same rows.

  Parameters (\<open>store_env\<close>): JSON, SHA-1 identifiers, and the tables of other packages (\<open>db_Other\<close>), which
  \<open>se_begin\<close> (goal and teaching-scope checks), \<open>se_content\<close>, \<open>se_insert\<close> (the typed records), \<open>se_progress\<close>
  and \<open>se_offline\<close> read and write. A failing SQL statement is an error of these.
\<close>

section \<open>Tables\<close>

type_synonym akey = "string \<times> string"

record inbox_row =
  ib_RequestHash :: string \<comment> \<open>the 32 bytes\<close>
  ib_Rejected :: bool \<comment> \<open>\<open>terminal_status\<close> is \<open>rejected\<close>, else \<open>succeeded\<close>\<close>
  ib_AggregateType :: string
  ib_AggregateID :: string
  ib_Result :: string

record generation =
  gen_Active :: bool \<comment> \<open>\<open>status\<close> is \<open>active\<close>\<close>
  gen_ProjectionVersion :: string
  gen_Checkpoint :: int
  gen_Fingerprint :: string
  gen_Incomplete :: bool
  gen_Reasons :: "string list"
  gen_Projection :: Projection

record 'r db =
  db_Inbox :: "(string \<times> string, inbox_row) gomap"
  db_Heads :: "(akey, int) gomap"
  db_Clock :: int
  db_Events :: "LearningEvent list"
  db_Claims :: "(string \<times> int, string) gomap"
  db_Attempts :: "(string, bool \<times> string) gomap"
  db_Active :: string
  db_Generations :: "(string, generation) gomap"
  db_Other :: 'r

record 'r store_env =
  se_lib :: golib
  se_events :: event_codec
  se_json :: command_codec
  se_question :: "string \<Rightarrow> error + FreeQuestion"
  se_print_result :: "OperationResult \<Rightarrow> string"
  se_result :: "string \<Rightarrow> error + OperationResult"
  se_print_error :: "ErrorFields \<Rightarrow> string"
  se_error :: "string \<Rightarrow> error + ErrorFields"
  se_print_session :: "Session \<Rightarrow> string"
  se_canonical :: "string \<Rightarrow> error + string" \<comment> \<open>decode with \<open>UseNumber\<close> and encode again\<close>
  se_object :: "string \<Rightarrow> (string, string) gomap option" \<comment> \<open>an object, neither an error nor null\<close>
  se_print_object :: "(string, string) gomap \<Rightarrow> string"
  se_print_route_owners :: "(string, KnowledgeOwner) gomap \<Rightarrow> string"
  se_print_item_owners :: "KnowledgeOwner list \<Rightarrow> string"
  se_print_evidence_owners :: "(string, EvidenceOwner) gomap \<Rightarrow> string"
  se_event_uuid :: "string \<Rightarrow> string" \<comment> \<open>\<open>uuid.NewSHA1(eventNamespace, _)\<close>\<close>
  se_begin :: "CommitRequest \<Rightarrow> 'r \<Rightarrow> error + 'r"
  se_content :: "Attempt \<Rightarrow> 'r \<Rightarrow> error + 'r"
  se_insert :: "CommitRequest \<Rightarrow> 'r \<Rightarrow> error + 'r"
  se_progress :: "string \<Rightarrow> Projection \<Rightarrow> int \<Rightarrow> 'r \<Rightarrow> error + 'r"
  se_offline :: "string \<Rightarrow> OperationResult \<Rightarrow> 'r \<Rightarrow> error + 'r"

definition transact :: "('r db \<Rightarrow> error + ('a \<times> 'r db)) \<Rightarrow> 'r db \<Rightarrow> (error + 'a) \<times> 'r db" where
  "transact body D = (case body D of Inl e \<Rightarrow> (Inl e, D) | Inr (x, D') \<Rightarrow> (Inr x, D'))"

definition invalid_reason :: "string \<Rightarrow> error" where
  "invalid_reason r = err_reason CodeInvalidRequest r"

section \<open>Hashes\<close>

definition hex_value :: "char \<Rightarrow> nat option" where
  "hex_value c =
     (let n = byte c
      in if 48 \<le> n \<and> n \<le> 57 then Some (n - 48)
         else if 97 \<le> n \<and> n \<le> 102 then Some (n - 87)
         else if 65 \<le> n \<and> n \<le> 70 then Some (n - 55) else None)"

fun hex_decode :: "string \<Rightarrow> string option" where
  "hex_decode [] = Some []"
| "hex_decode [c] = None"
| "hex_decode (c # d # cs) =
     (case (hex_value c, hex_value d, hex_decode cs) of
        (Some h, Some l, Some bs) \<Rightarrow> Some (char_of (16 * h + l) # bs)
      | _ \<Rightarrow> None)"

definition decodeHash :: "string \<Rightarrow> string option" where
  "decodeHash v = (case hex_decode v of Some bs \<Rightarrow> if length bs = 32 then Some bs else None | None \<Rightarrow> None)"

section \<open>The archive of operations\<close>

definition invalid_hash :: error where
  "invalid_hash = err_cause CodeInvalidRequest ''invalid_request_hash'' (Some (PlainError ''invalid SHA-256''))"

definition validateOperationLookup :: "golib \<Rightarrow> OperationLookup \<Rightarrow> error option" where
  "validateOperationLookup L lookup =
     (if lib_uuid_parse L (ol_DeviceID lookup) = None \<or> lib_uuid_parse L (ol_OperationID lookup) = None
      then Some (err_code CodeInvalidRequest)
      else if decodeHash (ol_RequestHash lookup) = None then Some invalid_hash else None)"

definition lookupArchivedOperation :: "'r store_env \<Rightarrow> OperationLookup \<Rightarrow> 'r db \<Rightarrow> lookup_answer" where
  "lookupArchivedOperation S lookup D =
     (case map_of (db_Inbox D) (ol_DeviceID lookup, ol_OperationID lookup) of
        None \<Rightarrow> NotFound
      | Some row \<Rightarrow>
          if hex_encode (ib_RequestHash row) \<noteq> ol_RequestHash lookup then FoundError (err_code CodeIdempotencyConflict)
          else if ib_Rejected row then
            (case se_error S (ib_Result row) of
               Inl _ \<Rightarrow> FoundError (PlainError ''decode learning inbox rejection'')
             | Inr f \<Rightarrow> FoundError (LearningError f None))
          else
            (case se_result S (ib_Result row) of
               Inl _ \<Rightarrow> FoundError (PlainError ''decode learning inbox result'')
             | Inr r \<Rightarrow> FoundResult (r\<lparr>res_Replayed := True, res_Archived := True\<rparr>)))"

definition LookupOperation :: "'r store_env \<Rightarrow> OperationLookup \<Rightarrow> 'r db \<Rightarrow> lookup_answer" where
  "LookupOperation S lookup D =
     (case validateOperationLookup (se_lib S) lookup of
        Some e \<Rightarrow> FoundError e
      | None \<Rightarrow> lookupArchivedOperation S lookup D)"

definition expectation_less :: "AggregateExpectation \<Rightarrow> AggregateExpectation \<Rightarrow> bool" where
  "expectation_less a b =
     (if ae_Type a \<noteq> ae_Type b then ae_Type a < ae_Type b else ae_ID a < ae_ID b)"

definition head_version :: "'r db \<Rightarrow> akey \<Rightarrow> int" where
  "head_version D k = (case map_of (db_Heads D) k of None \<Rightarrow> 0 | Some v \<Rightarrow> v)"

definition head_conflict :: "AggregateExpectation \<Rightarrow> int \<Rightarrow> ErrorFields" where
  "head_conflict x current = no_error_fields\<lparr>err_Code := CodeVersionConflict, err_AggregateType := ae_Type x,
     err_AggregateID := ae_ID x, err_ExpectedVersion := ae_ExpectedVersion x, err_CurrentVersion := current\<rparr>"

text \<open>The loop over the fences of a rejection: the first conflict with a head, and the current version filled in.\<close>

fun check_rejection ::
  "'r db \<Rightarrow> akey list \<Rightarrow> ErrorFields option \<Rightarrow> ErrorFields \<Rightarrow> AggregateExpectation list \<Rightarrow> error + (ErrorFields option \<times> ErrorFields)" where
  "check_rejection D seen conflict f [] = Inr (conflict, f)"
| "check_rejection D seen conflict f (x # xs) =
     (let k = (ae_Type x, ae_ID x)
      in if (ae_Type x \<noteq> ''goal'' \<and> ae_Type x \<noteq> ''session'') \<or> ae_ID x = [] \<or> ae_ExpectedVersion x < 0
         then Inl (invalid_reason ''invalid_rejection_expectation'')
         else if k \<in> set seen then Inl (invalid_reason ''duplicate_rejection_expectation'')
         else
           let current = head_version D k;
               conflict = (if current \<noteq> ae_ExpectedVersion x \<and> conflict = None then Some (head_conflict x current) else conflict);
               f = (if err_Code f = CodeVersionConflict \<and> err_AggregateType f = ae_Type x \<and> err_AggregateID f = ae_ID x
                    then f\<lparr>err_CurrentVersion := current\<rparr> else f)
           in check_rejection D (k # seen) conflict f xs)"

definition final_rejection :: "'r db \<Rightarrow> ErrorFields option \<Rightarrow> ErrorFields \<Rightarrow> ErrorFields" where
  "final_rejection D conflict f =
     (case conflict of
        Some c \<Rightarrow> c\<lparr>err_AsOfEventSequence := db_Clock D\<rparr>
      | None \<Rightarrow> if err_Code f = CodeVersionConflict then f\<lparr>err_AsOfEventSequence := db_Clock D\<rparr> else f)"

definition archive_row :: "'r store_env \<Rightarrow> OperationRejection \<Rightarrow> 'r db \<Rightarrow> error + (ErrorFields \<times> 'r db)" where
  "archive_row S rejection D =
     bindE (check_rejection D [] None (or_Error rejection) (go_sort expectation_less (or_Expectations rejection)))
       (\<lambda>(conflict, f). let f = final_rejection D conflict f; lookup = or_Lookup rejection
        in case decodeHash (ol_RequestHash lookup) of
             None \<Rightarrow> Inl invalid_hash
           | Some bs \<Rightarrow> Inr (f, D\<lparr>db_Inbox := ((ol_DeviceID lookup, ol_OperationID lookup),
               \<lparr>ib_RequestHash = bs, ib_Rejected = True, ib_AggregateType = or_AggregateType rejection,
                ib_AggregateID = or_AggregateID rejection, ib_Result = se_print_error S f\<rparr>) # db_Inbox D\<rparr>))"

text \<open>Archiving answers with the archived error, never with a new result. \<open>lockGoalSpace\<close> is the parameter \<open>space\<close>.\<close>

definition ArchiveRejection ::
  "'r store_env \<Rightarrow> ('r \<Rightarrow> error option) \<Rightarrow> OperationRejection \<Rightarrow> 'r db \<Rightarrow> (error + OperationResult) \<times> 'r db" where
  "ArchiveRejection S space rejection D =
     (case validateOperationLookup (se_lib S) (or_Lookup rejection) of
        Some e \<Rightarrow> (Inl e, D)
      | None \<Rightarrow>
          if (or_AggregateType rejection \<noteq> ''goal'' \<and> or_AggregateType rejection \<noteq> ''session'') \<or> or_AggregateID rejection = []
             \<or> or_Expectations rejection = [] \<or> err_Code (or_Error rejection) = NoCode \<or> or_CompletedAt rejection = 0
          then (Inl (err_code CodeInvalidRequest), D)
          else case (if or_AggregateType rejection = ''goal'' then space (db_Other D) else None) of
              Some e \<Rightarrow> (Inl e, D)
            | None \<Rightarrow>
                (case lookupArchivedOperation S (or_Lookup rejection) D of
                   FoundResult r \<Rightarrow> (Inr r, D)
                 | FoundError e \<Rightarrow> (Inl e, D)
                 | NotFound \<Rightarrow>
                     (case archive_row S rejection D of
                        Inl e \<Rightarrow> (Inl e, D)
                      | Inr (f, D') \<Rightarrow> (Inl (LearningError f None), D'))))"

section \<open>What a commit request has to be\<close>

definition valid_fence :: "AggregateExpectation \<Rightarrow> bool" where
  "valid_fence x \<longleftrightarrow> (ae_Type x = ''goal'' \<or> ae_Type x = ''session'' \<or> ae_Type x = ''offline_attempt'')
     \<and> ae_ID x \<noteq> [] \<and> 0 \<le> ae_ExpectedVersion x"

definition worker_event :: "EventType \<Rightarrow> bool" where
  "worker_event k \<longleftrightarrow> k \<in> {EventAssessmentRecorded, EventAssessmentMarkedProvisional, EventAssessmentAccepted,
     EventEvidenceAccepted, EventMisconceptionHypothesisRevised}"

definition offline_decision_event :: "EventType \<Rightarrow> bool" where
  "offline_decision_event k \<longleftrightarrow> k \<in> {EventAssessmentAccepted, EventAssessmentOverridden, EventAssessmentVoided,
     EventEvidenceAccepted, EventMisconceptionHypothesisRevised}"

fun check_offline_events :: "string \<Rightarrow> bool \<Rightarrow> EventDraft list \<Rightarrow> error option" where
  "check_offline_events i worker [] = None"
| "check_offline_events i worker (d # ds) =
     (if ed_AggregateType d \<noteq> ''offline_attempt'' \<or> ed_AggregateID d \<noteq> i
      then Some (invalid_reason ''invalid_offline_assessment_event'')
      else if worker \<and> \<not> worker_event (ed_Type d) then Some (invalid_reason ''invalid_offline_evaluation_event'')
      else if \<not> worker \<and> \<not> offline_decision_event (ed_Type d) then Some (invalid_reason ''invalid_offline_decision_event'')
      else check_offline_events i worker ds)"

definition check_offline_commit :: "CommitRequest \<Rightarrow> error option" where
  "check_offline_commit req =
     (let op = cr_Operation req; b = cr_Batch req; worker = cb_Assessment b \<noteq> None
      in if cr_Expectations req \<noteq> [\<lparr>ae_Type = ''offline_attempt'', ae_ID = op_AggregateID op,
              ae_ExpectedVersion = op_ExpectedVersion op\<rparr>]
            \<or> length (cb_Decisions b) \<noteq> 1 \<or> cb_GoalRevision b \<noteq> None \<or> cb_RouteRevision b \<noteq> None
            \<or> cb_Session b \<noteq> None \<or> cb_Activity b \<noteq> None \<or> cb_Attempt b \<noteq> None
         then Some (invalid_reason ''invalid_offline_assessment_commit'')
         else if \<not> worker \<and> cb_OfflineSubmission b \<noteq> Some (op_AggregateID op)
         then Some (invalid_reason ''invalid_offline_assessment_commit_kind'')
         else check_offline_events (op_AggregateID op) worker (cb_Events b))"

definition check_goal_commit :: "CommitRequest \<Rightarrow> GoalRevision \<Rightarrow> error option" where
  "check_goal_commit req goal =
     (let op = cr_Operation req; events = cb_Events (cr_Batch req)
      in if op_AggregateType op \<noteq> ''goal'' \<or> op_AggregateID op \<noteq> goal_GoalID goal
            \<or> goal_Revision goal \<noteq> int64 (op_ExpectedVersion op + 1)
         then Some (invalid_reason ''goal_revision_head_mismatch'')
         else if (goal_Revision goal = 1) \<noteq> (goal_PreviousRevisionID goal = None)
         then Some (invalid_reason ''goal_revision_lineage'')
         else if length (filter (\<lambda>d. ed_Type d = EventGoalRevisionCreated \<and> ed_AggregateType d = ''goal''
                   \<and> ed_AggregateID d = goal_GoalID goal) events) \<noteq> 1 \<or> length events \<noteq> 1
         then Some (invalid_reason ''goal_revision_event_count'') else None)"

definition validateCommitRequest :: "golib \<Rightarrow> CommitRequest \<Rightarrow> error option" where
  "validateCommitRequest L req =
     (let op = cr_Operation req
      in case ValidateOperation L op of
          Some e \<Rightarrow> Some e
        | None \<Rightarrow>
            if lib_uuid_parse L (cr_DeviceID req) = None \<or> cr_RequestHash req = [] \<or> cr_ReceivedAt req = 0 \<or> cr_Expectations req = []
            then Some (err_code CodeInvalidRequest)
            else if op_AggregateType op \<noteq> ''goal'' \<and> op_AggregateType op \<noteq> ''session'' \<and> op_AggregateType op \<noteq> ''offline_attempt''
            then Some (err_code CodeInvalidRequest)
            else if \<not> list_all valid_fence (cr_Expectations req) then Some (err_code CodeInvalidRequest)
            else case (if op_AggregateType op = ''offline_attempt'' then check_offline_commit req else None) of
                Some e \<Rightarrow> Some e
              | None \<Rightarrow> (case cb_GoalRevision (cr_Batch req) of None \<Rightarrow> None | Some goal \<Rightarrow> check_goal_commit req goal))"

section \<open>Fences\<close>

text \<open>
  The loop over the sorted expectations: each aggregate's head is locked, created when the aggregate is
  new, and compared with the expected version.
\<close>

fun lock_heads :: "AggregateExpectation list \<Rightarrow> (akey, int) gomap \<Rightarrow> 'r db \<Rightarrow> error + ((akey, int) gomap \<times> 'r db)" where
  "lock_heads [] versions D = Inr (versions, D)"
| "lock_heads (x # xs) versions D =
     (let k = (ae_Type x, ae_ID x); expected = ae_ExpectedVersion x
      in if map_of versions k \<noteq> None then Inl (invalid_reason ''duplicate_aggregate_expectation'')
         else case map_of (db_Heads D) k of
             None \<Rightarrow>
               if expected = 0 then lock_heads xs (AList.update k 0 versions) (D\<lparr>db_Heads := AList.update k 0 (db_Heads D)\<rparr>)
               else Inl (version_conflict (ae_Type x) (ae_ID x) expected 0 (db_Clock D))
           | Some current \<Rightarrow>
               if current \<noteq> expected then Inl (version_conflict (ae_Type x) (ae_ID x) expected current (db_Clock D))
               else lock_heads xs (AList.update k current versions) D)"

section \<open>Stamping the batch\<close>

definition set_event_payloads :: "EventType \<Rightarrow> string \<Rightarrow> EventDraft list \<Rightarrow> EventDraft list" where
  "set_event_payloads k v ds = map (\<lambda>d. if ed_Type d = k then d\<lparr>ed_Payload := v\<rparr> else d) ds"

text \<open>\<open>prepareOnlineEvidenceEligibility\<close>: the attempt and its claim, the assessment, the evidence.\<close>

definition claim_attempt :: "'r db \<Rightarrow> Attempt \<Rightarrow> Attempt \<times> bool" where
  "claim_attempt D a =
     (let a = a\<lparr>att_ArchiveDisposition := ''online''\<rparr>;
          eligible = a\<lparr>att_EvidenceEligibility := True, att_EvidenceIneligibleReason := []\<rparr>
      in if att_Help a = HelpAnswerRevealed
         then (a\<lparr>att_EvidenceEligibility := False, att_EvidenceIneligibleReason := ''answer_revealed''\<rparr>, False)
         else case map_of (db_Claims D) (att_ActivityID a, att_ActivityRevision a) of
             None \<Rightarrow> (eligible, True)
           | Some winner \<Rightarrow>
               if winner = att_ID a then (eligible, False)
               else (a\<lparr>att_EvidenceEligibility := False, att_EvidenceIneligibleReason := ''duplicate_activity_submission''\<rparr>, False))"

definition prepare_attempt_eligibility :: "command_codec \<Rightarrow> 'r db \<Rightarrow> CommandBatch \<Rightarrow> CommandBatch" where
  "prepare_attempt_eligibility C D b =
     (case cb_Attempt b of
        None \<Rightarrow> b
      | Some a \<Rightarrow>
          let (a, claims) = claim_attempt D a
          in b\<lparr>cb_Attempt := Some a, cb_ClaimSource := (if claims then ''online'' else cb_ClaimSource b),
               cb_Events := set_event_payloads EventAttemptSubmitted (js_attempt C a) (cb_Events b)\<rparr>)"

definition prepare_assessment_eligibility :: "command_codec \<Rightarrow> 'r db \<Rightarrow> CommandBatch \<Rightarrow> error + CommandBatch" where
  "prepare_assessment_eligibility C D b =
     (case cb_Assessment b of
        None \<Rightarrow> Inr b
      | Some m \<Rightarrow>
          bindE (case cb_Attempt b of
              Some a \<Rightarrow> if art_AttemptID m = att_ID a then Inr (att_EvidenceEligibility a, att_EvidenceIneligibleReason a)
                 else (case map_of (db_Attempts D) (art_AttemptID m) of
                     None \<Rightarrow> Inl (PlainError ''load assessment attempt evidence eligibility'') | Some v \<Rightarrow> Inr v)
            | None \<Rightarrow> (case map_of (db_Attempts D) (art_AttemptID m) of
                     None \<Rightarrow> Inl (PlainError ''load assessment attempt evidence eligibility'') | Some v \<Rightarrow> Inr v))
            (\<lambda>(eligible, reason).
              let m = m\<lparr>art_EvidenceEligibility := eligible, art_EvidenceIneligibleReason := reason\<rparr>
              in Inr (b\<lparr>cb_Assessment := Some m,
                   cb_Events := set_event_payloads EventAssessmentRecorded (js_artifact C m) (cb_Events b)\<rparr>)))"

definition evidence_conflict :: "string \<Rightarrow> error" where
  "evidence_conflict reason = err_reason CodeAssessmentDispositionConflict reason"

definition evidence_claim_error :: "'r db \<Rightarrow> Attempt option \<Rightarrow> AcceptedEvidence \<Rightarrow> error option" where
  "evidence_claim_error D attempt e =
     (case attempt of
        Some a \<Rightarrow> if ev_AttemptID e = att_ID a
           then (if att_EvidenceEligibility a then None else Some (evidence_conflict (att_EvidenceIneligibleReason a)))
           else (case map_of (db_Claims D) (ev_ActivityID e, ev_ActivityRevision e) of
               None \<Rightarrow> Some (PlainError ''load evidence winning attempt'')
             | Some winner \<Rightarrow> if winner \<noteq> ev_AttemptID e then Some (evidence_conflict ''duplicate_activity_submission'') else None)
      | None \<Rightarrow> (case map_of (db_Claims D) (ev_ActivityID e, ev_ActivityRevision e) of
               None \<Rightarrow> Some (PlainError ''load evidence winning attempt'')
             | Some winner \<Rightarrow> if winner \<noteq> ev_AttemptID e then Some (evidence_conflict ''duplicate_activity_submission'') else None))"

fun first_error :: "('a \<Rightarrow> error option) \<Rightarrow> 'a list \<Rightarrow> error option" where
  "first_error f [] = None"
| "first_error f (x # xs) = (case f x of Some e \<Rightarrow> Some e | None \<Rightarrow> first_error f xs)"

definition prepareOnlineEvidenceEligibility :: "command_codec \<Rightarrow> 'r db \<Rightarrow> CommandBatch \<Rightarrow> error + CommandBatch" where
  "prepareOnlineEvidenceEligibility C D b =
     bindE (prepare_assessment_eligibility C D (prepare_attempt_eligibility C D b)) (\<lambda>b.
       checkE (first_error (evidence_claim_error D (cb_Attempt b)) (cb_Evidence b)) (Inr b))"

text \<open>\<open>stampFreeQuestionVersion\<close>: the version the session will have after the whole batch.\<close>

fun count_questions ::
  "'r store_env \<Rightarrow> FreeQuestion \<Rightarrow> int \<Rightarrow> nat \<Rightarrow> EventDraft list \<Rightarrow> error + (int \<times> nat)" where
  "count_questions S q version n [] = Inr (version, n)"
| "count_questions S q version n (d # ds) =
     (let version = (if ed_AggregateType d = ''session'' \<and> ed_AggregateID d = fq_SessionID q then int64 (version + 1) else version)
      in if ed_Type d \<noteq> EventFreeQuestionAsked then count_questions S q version n ds
         else case se_question S (ed_Payload d) of
             Inl e \<Rightarrow> Inl (err_cause CodeInvalidRequest ''free_question_event_mismatch'' (Some e))
           | Inr v \<Rightarrow> if fq_ID v \<noteq> fq_ID q \<or> fq_SessionID v \<noteq> fq_SessionID q
               then Inl (err_cause CodeInvalidRequest ''free_question_event_mismatch'' None)
               else count_questions S q version (Suc n) ds)"

definition stampFreeQuestionVersion :: "'r store_env \<Rightarrow> (akey, int) gomap \<Rightarrow> CommandBatch \<Rightarrow> error + CommandBatch" where
  "stampFreeQuestionVersion S versions b =
     (case cb_FreeQuestion b of
        None \<Rightarrow> Inr b
      | Some q \<Rightarrow>
          (case map_of versions (''session'', fq_SessionID q) of
             None \<Rightarrow> Inl (invalid_reason ''free_question_session_not_locked'')
           | Some version \<Rightarrow>
               bindE (count_questions S q version 0 (cb_Events b)) (\<lambda>(version, n).
                 if n \<noteq> 1 \<or> version < 1 then Inl (invalid_reason ''free_question_event_count'')
                 else let q = q\<lparr>fq_SessionAggregateVer := version\<rparr>
                   in Inr (b\<lparr>cb_FreeQuestion := Some q,
                        cb_Events := set_event_payloads EventFreeQuestionAsked (js_question (se_json S) q) (cb_Events b)\<rparr>))))"

text \<open>The sequence number of the first \<open>FocusSuspended\<close> event, 0 when there is none.\<close>

fun focus_sequence :: "int \<Rightarrow> EventDraft list \<Rightarrow> int" where
  "focus_sequence sequence [] = 0"
| "focus_sequence sequence (d # ds) =
     (if ed_Type d = EventFocusSuspended then sequence else focus_sequence (int64 (sequence + 1)) ds)"

definition stamp_frame :: "int \<Rightarrow> FocusFrame \<Rightarrow> FocusFrame" where
  "stamp_frame focus f = (if frame_CreatedEventSequence f = 0 then f\<lparr>frame_CreatedEventSequence := focus\<rparr> else f)"

text \<open>\<open>stampAcceptedEventSequences\<close>, on the events, the evidence and the claim.\<close>

fun set_first :: "('a \<Rightarrow> bool) \<Rightarrow> ('a \<Rightarrow> 'a) \<Rightarrow> 'a list \<Rightarrow> 'a list" where
  "set_first P f [] = []"
| "set_first P f (x # xs) = (if P x then f x # xs else x # set_first P f xs)"

definition stamp_evidence_event ::
  "'r store_env \<Rightarrow> int \<Rightarrow> EventDraft \<Rightarrow> CommandBatch \<Rightarrow> error + (EventDraft \<times> CommandBatch)" where
  "stamp_evidence_event S sequence d b =
     (if ed_Type d \<noteq> EventEvidenceAccepted then Inr (d, b)
      else case cod_evidence (se_events S) (ed_Payload d) of
          Inl e \<Rightarrow> Inl (err_cause CodeInvalidRequest ''invalid_evidence_event_payload'' (Some e))
        | Inr projected \<Rightarrow>
            (case find (\<lambda>e. ev_ID e = ev_ID projected) (cb_Evidence b) of
               None \<Rightarrow> Inl (invalid_reason ''evidence_event_not_in_batch'')
             | Some e \<Rightarrow>
                 let e = e\<lparr>ev_AcceptedEventSequence := sequence\<rparr>
                 in Inr (d\<lparr>ed_Payload := js_evidence (se_json S) e\<rparr>,
                      b\<lparr>cb_Evidence := set_first (\<lambda>v. ev_ID v = ev_ID projected) (\<lambda>_. e) (cb_Evidence b)\<rparr>)))"

fun stampAcceptedEventSequences ::
  "'r store_env \<Rightarrow> int \<Rightarrow> EventDraft list \<Rightarrow> CommandBatch \<Rightarrow> error + (EventDraft list \<times> CommandBatch)" where
  "stampAcceptedEventSequences S sequence [] b = Inr ([], b)"
| "stampAcceptedEventSequences S sequence (d # ds) b =
     (let b = (if ed_Type d = EventAttemptSubmitted \<and> cb_ClaimSource b \<noteq> [] then b\<lparr>cb_ClaimEventSeq := sequence\<rparr> else b)
      in bindE (stamp_evidence_event S sequence d b) (\<lambda>(d, b).
         bindE (stampAcceptedEventSequences S (int64 (sequence + 1)) ds b) (\<lambda>(ds, b). Inr (d # ds, b))))"

section \<open>The events of a commit\<close>

definition authority_object :: "'r store_env \<Rightarrow> EventType \<Rightarrow> AuthorityProvenance \<Rightarrow> string option" where
  "authority_object S k prov =
     (if k = EventRouteRevisionCreated \<and> ap_RouteSteps prov \<noteq> [] then Some (se_print_route_owners S (ap_RouteSteps prov))
      else if k = EventAssessmentRecorded \<and> ap_AssessmentItems prov \<noteq> [] then Some (se_print_item_owners S (ap_AssessmentItems prov))
      else if k = EventEvidenceAccepted \<and> ap_Evidence prov \<noteq> [] then Some (se_print_evidence_owners S (ap_Evidence prov))
      else None)"

definition payloadWithAuthority :: "'r store_env \<Rightarrow> EventType \<Rightarrow> string \<Rightarrow> AuthorityProvenance \<Rightarrow> error + string" where
  "payloadWithAuthority S k payload prov =
     (case authority_object S k prov of
        None \<Rightarrow> Inr payload
      | Some owners \<Rightarrow>
          (case se_object S payload of
             None \<Rightarrow> Inl (invalid_reason ''authority_event_payload_not_object'')
           | Some fs \<Rightarrow>
               if map_of fs ''_authority'' \<noteq> None then Inl (invalid_reason ''authority_event_payload_reserved'')
               else Inr (se_print_object S (AList.update ''_authority'' owners fs))))"

definition canonicalJSON :: "'r store_env \<Rightarrow> string \<Rightarrow> error + string" where
  "canonicalJSON S v = se_canonical S (if v = [] then ''{}'' else v)"

text \<open>A snapshot event carries the session with the version of the event and the number of its frame.\<close>

definition stamped_session :: "int \<Rightarrow> int \<Rightarrow> Session \<Rightarrow> Session" where
  "stamped_session version focus s =
     s\<lparr>sess_AggregateVer := version, sess_ActiveFrame := map_option (stamp_frame focus) (sess_ActiveFrame s)\<rparr>"

definition snapshot_payload :: "'r store_env \<Rightarrow> int \<Rightarrow> int \<Rightarrow> EventDraft \<Rightarrow> error + string" where
  "snapshot_payload S version focus d =
     (if \<not> sessionSnapshotEvent (ed_Type d) then Inr (ed_Payload d)
      else case cod_session (se_events S) (ed_Payload d) of
          Inl e \<Rightarrow> Inl (err_cause CodeInvalidRequest ''invalid_session_projection_payload'' (Some e))
        | Inr snap \<Rightarrow>
            if sess_ID (sp_Session snap) \<noteq> ed_AggregateID d
            then Inl (err_cause CodeInvalidRequest ''invalid_session_projection_payload'' None)
            else Inr (js_session (se_json S) (snap\<lparr>sp_Session := stamped_session version focus (sp_Session snap)\<rparr>)))"

definition event_payload :: "'r store_env \<Rightarrow> AuthorityProvenance \<Rightarrow> int \<Rightarrow> int \<Rightarrow> EventDraft \<Rightarrow> error + string" where
  "event_payload S prov version focus d =
     bindE (snapshot_payload S version focus d) (\<lambda>source.
     bindE (payloadWithAuthority S (ed_Type d) source prov) (\<lambda>source.
       case canonicalJSON S source of
         Inl e \<Rightarrow> Inl (err_cause CodeInvalidRequest ''invalid_event_payload'' (Some e))
       | Inr payload \<Rightarrow> Inr payload))"

definition make_event ::
  "'r store_env \<Rightarrow> CommitRequest \<Rightarrow> nat \<Rightarrow> int \<Rightarrow> int \<Rightarrow> EventDraft \<Rightarrow> string \<Rightarrow> LearningEvent" where
  "make_event S req ordinal sequence version d payload =
     (let op = cr_Operation req;
          i = se_event_uuid S (cr_DeviceID req @ [CHR 0x0A] @ op_OperationID op @ [CHR 0x0A] @ nat_text ordinal)
      in \<lparr>le_EventSequence = sequence, le_ID = i, le_Type = ed_Type d, le_SchemaVersion = EventSchemaVersion,
          le_AggregateType = ed_AggregateType d, le_AggregateID = ed_AggregateID d, le_AggregateVersion = version,
          le_DeviceID = cr_DeviceID req, le_OperationID = op_OperationID op, le_OperationOrdinal = int ordinal,
          le_ReceivedAt = cr_ReceivedAt req, le_OccurredAt = op_OccurredAt op,
          le_PayloadID = se_event_uuid S (''payload'' @ [CHR 0x0A] @ i), le_PayloadHash = SHA256 (se_lib S) payload,
          le_Payload = payload, le_ParentSessionID = ed_ParentSessionID d,
          le_Source = (if ed_Source d = [] then ''online'' else ed_Source d),
          le_ArchiveDisposition = ed_ArchiveDisposition d, le_EvidenceDisposition = ed_EvidenceDisposition d,
          le_GoalRevisionID = ed_GoalRevisionID d, le_RouteRevisionID = ed_RouteRevisionID d,
          le_KnowledgeRevisionID = ed_KnowledgeRevisionID d, le_ActivityID = ed_ActivityID d,
          le_ActivityRevision = ed_ActivityRevision d, le_Redacted = False\<rparr>)"

fun build_events ::
  "'r store_env \<Rightarrow> CommitRequest \<Rightarrow> int \<Rightarrow> int \<Rightarrow> nat \<Rightarrow> (akey, int) gomap \<Rightarrow> EventDraft list
    \<Rightarrow> error + (LearningEvent list \<times> (akey, int) gomap)" where
  "build_events S req first focus ordinal versions [] = Inr ([], versions)"
| "build_events S req first focus ordinal versions (d # ds) =
     (let k = (ed_AggregateType d, ed_AggregateID d)
      in case map_of versions k of
          None \<Rightarrow> Inl (invalid_reason ''event_aggregate_not_locked'')
        | Some version \<Rightarrow>
            let version = int64 (version + 1)
            in bindE (event_payload S (cb_Authority (cr_Batch req)) version focus d) (\<lambda>payload.
               bindE (build_events S req first focus (Suc ordinal) (AList.update k version versions) ds) (\<lambda>(es, versions).
                 Inr (make_event S req ordinal (int64 (first + int ordinal)) version d payload # es, versions))))"

definition stamp_invalidation :: "time \<Rightarrow> LearningEvent list \<Rightarrow> EvidenceInvalidation \<Rightarrow> EvidenceInvalidation" where
  "stamp_invalidation now es v =
     (let v = (if inv_EventSeq v = 0 then (case find (\<lambda>e. le_Type e = EventEvidenceInvalidated) es of
                None \<Rightarrow> v | Some e \<Rightarrow> v\<lparr>inv_EventSeq := le_EventSequence e\<rparr>) else v)
      in if inv_CreatedAt v = None then v\<lparr>inv_CreatedAt := Some now\<rparr> else v)"

definition finalizeSessionResult ::
  "'r store_env \<Rightarrow> (akey, int) gomap \<Rightarrow> int \<Rightarrow> CommandBatch \<Rightarrow> error + CommandBatch" where
  "finalizeSessionResult S versions focus b =
     (let b = (case cb_Session b of
            None \<Rightarrow> b
          | Some s \<Rightarrow>
              let s = (case map_of versions (''session'', sess_ID s) of None \<Rightarrow> s | Some v \<Rightarrow> s\<lparr>sess_AggregateVer := v\<rparr>)
              in b\<lparr>cb_Session := Some (s\<lparr>sess_ActiveFrame := map_option (stamp_frame focus) (sess_ActiveFrame s)\<rparr>)\<rparr>)
      in if \<not> cb_ResultSession b then Inr b
         else case cb_Session b of
             None \<Rightarrow> Inl (invalid_reason ''session_result_missing'')
           | Some s \<Rightarrow> Inr (b\<lparr>cb_TypedResult := se_print_session S s\<rparr>))"

section \<open>Writing\<close>

text \<open>The owners \<open>insertTypedRecords\<close> requires of route steps, assessment items and evidence.\<close>

definition route_owner_error :: "RouteRevision \<Rightarrow> (string, KnowledgeOwner) gomap \<Rightarrow> RouteStep \<Rightarrow> error option" where
  "route_owner_error r owners st =
     (case map_of owners (step_ID st) of
        None \<Rightarrow> Some (err_reason CodeKnowledgeReferenceInvalid ''route_step_owner_missing'')
      | Some w \<Rightarrow>
          if ko_KnowledgeRevisionID w \<noteq> route_KnowledgeRevisionID r \<or> ko_NodeID w \<noteq> step_NodeID st
             \<or> ko_NodeRevisionID w \<noteq> step_NodeRevisionID st \<or> ko_DocumentRevisionID w = []
          then Some (err_reason CodeKnowledgeReferenceInvalid ''route_step_owner_missing'') else None)"

fun item_owner_error :: "KnowledgeOwner list \<Rightarrow> AssessmentItem list \<Rightarrow> error option" where
  "item_owner_error ws [] = None"
| "item_owner_error ws (it # its) =
     (let rest = item_owner_error (tl ws) its
      in if ai_KnowledgeReferenceID it = [] then rest
         else case ws of
             [] \<Rightarrow> Some (err_reason CodeKnowledgeReferenceInvalid ''assessment_item_owner_missing'')
           | w # _ \<Rightarrow>
               if ko_KnowledgeRevisionID w = [] \<or> ko_NodeID w = [] \<or> ko_NodeRevisionID w \<noteq> ai_KnowledgeReferenceID it
                  \<or> ko_DocumentRevisionID w = []
               then Some (err_reason CodeKnowledgeReferenceInvalid ''assessment_item_owner_invalid'') else rest)"

definition evidence_owner_error :: "(string, EvidenceOwner) gomap \<Rightarrow> AcceptedEvidence \<Rightarrow> error option" where
  "evidence_owner_error owners e =
     (case map_of owners (ev_ID e) of
        None \<Rightarrow> Some (err_reason CodeKnowledgeReferenceInvalid ''evidence_owner_missing'')
      | Some w \<Rightarrow>
          if eo_SessionID w = [] \<or> ko_KnowledgeRevisionID (eo_KnowledgeOwner w) \<noteq> ev_KnowledgeRevisionID e
             \<or> ko_NodeRevisionID (eo_KnowledgeOwner w) \<noteq> ev_NodeRevisionID e
             \<or> ko_NodeID (eo_KnowledgeOwner w) = [] \<or> ko_DocumentRevisionID (eo_KnowledgeOwner w) = []
          then Some (err_reason CodeKnowledgeReferenceInvalid ''evidence_owner_missing'')
          else if ev_AcceptedEventSequence e < 1 then Some (invalid_reason ''evidence_accepted_event_seq_missing'') else None)"

definition owners_error :: "CommandBatch \<Rightarrow> error option" where
  "owners_error b =
     (let prov = cb_Authority b
      in case (case cb_RouteRevision b of None \<Rightarrow> None | Some r \<Rightarrow> first_error (route_owner_error r (ap_RouteSteps prov)) (route_Steps r)) of
          Some e \<Rightarrow> Some e
        | None \<Rightarrow>
            (case (case cb_Assessment b of None \<Rightarrow> None | Some m \<Rightarrow> item_owner_error (ap_AssessmentItems prov) (art_Items m)) of
               Some e \<Rightarrow> Some e
             | None \<Rightarrow> first_error (evidence_owner_error (ap_Evidence prov)) (cb_Evidence b)))"

text \<open>
  \<open>insertTypedRecords\<close>: the owner checks, the attempt and its claim, and (\<open>se_insert\<close>) the rows of the other
  tables. The key of the claims refuses a second claim.
\<close>

definition insert_attempt :: "CommandBatch \<Rightarrow> 'r db \<Rightarrow> error + 'r db" where
  "insert_attempt b D =
     (case cb_Attempt b of
        None \<Rightarrow> Inr D
      | Some a \<Rightarrow>
          let D = D\<lparr>db_Attempts := AList.update (att_ID a) (att_EvidenceEligibility a, att_EvidenceIneligibleReason a) (db_Attempts D)\<rparr>;
              k = (att_ActivityID a, att_ActivityRevision a)
          in if cb_ClaimSource b = [] then Inr D
             else if map_of (db_Claims D) k \<noteq> None then Inl (PlainError ''insert activity evidence claim'')
             else Inr (D\<lparr>db_Claims := AList.update k (att_ID a) (db_Claims D)\<rparr>))"

definition insertTypedRecords :: "'r store_env \<Rightarrow> CommitRequest \<Rightarrow> 'r db \<Rightarrow> error + 'r db" where
  "insertTypedRecords S req D =
     checkE (owners_error (cr_Batch req))
       (bindE (insert_attempt (cr_Batch req) D) (\<lambda>D.
        bindE (se_insert S req (db_Other D)) (\<lambda>r. Inr (D\<lparr>db_Other := r\<rparr>))))"

text \<open>Inserting an event: the checks and keys of the table \<open>learning_events\<close>.\<close>

definition event_insertable :: "LearningEvent list \<Rightarrow> LearningEvent \<Rightarrow> bool" where
  "event_insertable es e \<longleftrightarrow> 1 \<le> le_EventSequence e \<and> 1 \<le> le_AggregateVersion e
     \<and> (\<forall>x \<in> set es. le_EventSequence x \<noteq> le_EventSequence e \<and> le_ID x \<noteq> le_ID e
          \<and> (le_AggregateType x, le_AggregateID x, le_AggregateVersion x)
             \<noteq> (le_AggregateType e, le_AggregateID e, le_AggregateVersion e))"

fun insert_events :: "LearningEvent list \<Rightarrow> LearningEvent list \<Rightarrow> error + LearningEvent list" where
  "insert_events log [] = Inr log"
| "insert_events log (e # es) =
     (if event_insertable log e then insert_events (log @ [e]) es else Inl (PlainError ''insert learning event''))"

definition advance_heads :: "(akey, int) gomap \<Rightarrow> (akey, int) gomap \<Rightarrow> (akey, int) gomap" where
  "advance_heads versions heads = foldl (\<lambda>m (k, v). AList.update k v m) heads versions"

section \<open>The projection of a commit\<close>

text \<open>\<open>loadEvents\<close>: the events after one number through another, by number, each payload checked against its hash.\<close>

definition load_event :: "'r store_env \<Rightarrow> LearningEvent \<Rightarrow> error + LearningEvent" where
  "load_event S e =
     (if le_Redacted e then Inr (e\<lparr>le_Payload := []\<rparr>)
      else case canonicalJSON S (le_Payload e) of
          Inl c \<Rightarrow> Inl (err_cause CodeProjectionUnavailable ''invalid_event_payload'' (Some c))
        | Inr canonical \<Rightarrow>
            if SHA256 (se_lib S) canonical \<noteq> le_PayloadHash e
            then Inl (err_reason CodeProjectionUnavailable ''event_payload_hash_mismatch'')
            else Inr (e\<lparr>le_Payload := canonical\<rparr>))"

fun load_all :: "'r store_env \<Rightarrow> LearningEvent list \<Rightarrow> error + LearningEvent list" where
  "load_all S [] = Inr []"
| "load_all S (e # es) = bindE (load_event S e) (\<lambda>e. bindE (load_all S es) (\<lambda>es. Inr (e # es)))"

definition loadEvents :: "'r store_env \<Rightarrow> 'r db \<Rightarrow> int \<Rightarrow> int \<Rightarrow> error + LearningEvent list" where
  "loadEvents S D after through =
     load_all S (go_sort event_less (filter (\<lambda>e. after < le_EventSequence e \<and> le_EventSequence e \<le> through) (db_Events D)))"

text \<open>\<open>replaceProjection\<close>: the rows of the generation are replaced and its seal (checkpoint, fingerprint) renewed.\<close>

definition renewed_generation :: "generation \<Rightarrow> Projection \<Rightarrow> int \<Rightarrow> string \<Rightarrow> generation" where
  "renewed_generation old p high fingerprint =
     (let sticky = gen_Active old \<and> gen_Incomplete old;
          own = md_ReasonCodes (pj_Metadata p);
          reasons = (if sticky then foldl appendUnique own
            (filter (\<lambda>c. c \<noteq> ''projection_version_upgrade_required'') (gen_Reasons old)) else own)
      in \<lparr>gen_Active = gen_Active old, gen_ProjectionVersion = ProjectionVersion, gen_Checkpoint = high,
          gen_Fingerprint = fingerprint, gen_Incomplete = (md_Incomplete (pj_Metadata p) \<or> sticky \<and> reasons \<noteq> []),
          gen_Reasons = reasons, gen_Projection = p\<rparr>)"

definition replaceProjection :: "'r store_env \<Rightarrow> string \<Rightarrow> Projection \<Rightarrow> int \<Rightarrow> 'r db \<Rightarrow> error + 'r db" where
  "replaceProjection S g p high D =
     (case map_of (db_Generations D) g of
        None \<Rightarrow> Inl (PlainError ''lock learning projection generation'')
      | Some old \<Rightarrow>
          bindE (se_progress S g p high (db_Other D)) (\<lambda>r.
          case ProjectionFingerprint (se_lib S) (se_events S) p of
            Inl _ \<Rightarrow> Inl (PlainError ''fingerprint learning projection'')
          | Inr fingerprint \<Rightarrow> Inr (D\<lparr>db_Other := r,
              db_Generations := AList.update g (renewed_generation old p high fingerprint) (db_Generations D)\<rparr>)))"

definition project_commit :: "'r store_env \<Rightarrow> int \<Rightarrow> 'r db \<Rightarrow> error + 'r db" where
  "project_commit S high D =
     bindE (loadEvents S D 0 high) (\<lambda>events.
       case Replay (se_lib S) (se_events S) events (NewEventRegistry (se_lib S)) (db_Active D) of
         (_, Some e) \<Rightarrow> Inl e
       | (p, None) \<Rightarrow> replaceProjection S (db_Active D) p high D)"

section \<open>Commit\<close>

text \<open>
  The batch with its numbers: \<open>versions\<close> are those of the locked heads, \<open>first\<close> the next event number.
  The result holds the events, the advanced versions and the batch the records are written from.
\<close>

definition stamp_batch ::
  "'r store_env \<Rightarrow> CommitRequest \<Rightarrow> (akey, int) gomap \<Rightarrow> 'r db
    \<Rightarrow> error + (LearningEvent list \<times> (akey, int) gomap \<times> CommandBatch)" where
  "stamp_batch S req versions D =
     bindE (prepareOnlineEvidenceEligibility (se_json S) D (cr_Batch req)) (\<lambda>b.
       if cb_Events b = [] then Inl (invalid_reason ''empty_event_batch'')
       else
         bindE (stampFreeQuestionVersion S versions b) (\<lambda>b.
           let first = int64 (db_Clock D + 1);
               focus = focus_sequence first (cb_Events b);
               b = b\<lparr>cb_FocusFrame := map_option (stamp_frame focus) (cb_FocusFrame b)\<rparr>
           in bindE (stampAcceptedEventSequences S first (cb_Events b) b) (\<lambda>(ds, b).
              bindE (build_events S (req\<lparr>cr_Batch := b\<rparr>) first focus 0 versions ds) (\<lambda>(es, versions).
              let b = b\<lparr>cb_Events := ds, cb_Invalidations := map (stamp_invalidation (cr_ReceivedAt req) es) (cb_Invalidations b)\<rparr>
              in bindE (finalizeSessionResult S versions focus b) (\<lambda>b. Inr (es, versions, b))))))"

definition commit_result :: "CommitRequest \<Rightarrow> CommandBatch \<Rightarrow> (akey, int) gomap \<Rightarrow> LearningEvent list \<Rightarrow> OperationResult" where
  "commit_result req b versions es =
     (let op = cr_Operation req;
          last_seq = le_EventSequence (last es)
      in \<lparr>res_Status = ''succeeded'', res_Replayed = False, res_Archived = True, res_AggregateType = op_AggregateType op,
          res_AggregateID = op_AggregateID op,
          res_AggregateVersion = (case map_of versions (op_AggregateType op, op_AggregateID op) of None \<Rightarrow> 0 | Some v \<Rightarrow> v),
          res_FirstEventSequence = le_EventSequence (hd es), res_LastEventSequence = last_seq, res_ProjectionAsOf = last_seq,
          res_TutoringState = cb_TutoringState b, res_EvidenceDisposition = cb_Disposition b,
          res_Result = (if cb_TypedResult b = [] then ''{}'' else cb_TypedResult b)\<rparr>)"

definition archive_result :: "'r store_env \<Rightarrow> CommitRequest \<Rightarrow> OperationResult \<Rightarrow> 'r db \<Rightarrow> error + 'r db" where
  "archive_result S req r D =
     (case decodeHash (cr_RequestHash req) of
        None \<Rightarrow> Inl invalid_hash
      | Some bs \<Rightarrow> Inr (D\<lparr>db_Inbox := ((cr_DeviceID req, op_OperationID (cr_Operation req)),
          \<lparr>ib_RequestHash = bs, ib_Rejected = False, ib_AggregateType = res_AggregateType r,
           ib_AggregateID = res_AggregateID r, ib_Result = se_print_result S r\<rparr>) # db_Inbox D\<rparr>))"

text \<open>The writes of a stamped batch: records, events, heads, clock, projection, result.\<close>

definition write_batch ::
  "'r store_env \<Rightarrow> CommitRequest \<Rightarrow> LearningEvent list \<Rightarrow> (akey, int) gomap \<Rightarrow> CommandBatch \<Rightarrow> 'r db
    \<Rightarrow> error + (OperationResult \<times> 'r db)" where
  "write_batch S req es versions b D =
     bindE (insertTypedRecords S (req\<lparr>cr_Batch := b\<rparr>) D) (\<lambda>D.
     bindE (insert_events (db_Events D) es) (\<lambda>log.
       let high = le_EventSequence (last es);
           D = D\<lparr>db_Events := log, db_Heads := advance_heads versions (db_Heads D), db_Clock := high\<rparr>
       in bindE (project_commit S high D) (\<lambda>D.
          let r = commit_result req b versions es
          in bindE (case cb_OfflineSubmission b of None \<Rightarrow> Inr D
                | Some i \<Rightarrow> bindE (se_offline S i r (db_Other D)) (\<lambda>other. Inr (D\<lparr>db_Other := other\<rparr>))) (\<lambda>D.
             bindE (archive_result S req r D) (\<lambda>D. Inr (r, D))))))"

definition commit_body :: "'r store_env \<Rightarrow> CommitRequest \<Rightarrow> 'r db \<Rightarrow> error + (OperationResult \<times> 'r db)" where
  "commit_body S req D =
     bindE (se_begin S req (db_Other D)) (\<lambda>r.
     bindE (lock_heads (go_sort expectation_less (cr_Expectations req)) [] (D\<lparr>db_Other := r\<rparr>)) (\<lambda>(versions, D).
     bindE (case cb_Attempt (cr_Batch req) of None \<Rightarrow> Inr D
         | Some a \<Rightarrow> bindE (se_content S a (db_Other D)) (\<lambda>r. Inr (D\<lparr>db_Other := r\<rparr>))) (\<lambda>D.
     bindE (stamp_batch S req versions D) (\<lambda>(es, versions, b). write_batch S req es versions b D))))"

definition request_lookup :: "CommitRequest \<Rightarrow> OperationLookup" where
  "request_lookup req = \<lparr>ol_DeviceID = cr_DeviceID req, ol_OperationID = op_OperationID (cr_Operation req),
     ol_RequestHash = cr_RequestHash req\<rparr>"

definition Commit :: "'r store_env \<Rightarrow> CommitRequest \<Rightarrow> 'r db \<Rightarrow> (error + OperationResult) \<times> 'r db" where
  "Commit S req D =
     (case validateCommitRequest (se_lib S) req of
        Some e \<Rightarrow> (Inl e, D)
      | None \<Rightarrow>
          (case lookupArchivedOperation S (request_lookup req) D of
             FoundResult r \<Rightarrow> (Inr r, D)
           | FoundError e \<Rightarrow> (Inl e, D)
           | NotFound \<Rightarrow> transact (commit_body S req) D))"

text \<open>The store as the command handlers use it.\<close>

definition learning_archive :: "'r store_env \<Rightarrow> ('r \<Rightarrow> error option) \<Rightarrow> 'r db archive_store" where
  "learning_archive S space = \<lparr>st_lookup = LookupOperation S, st_commit = Commit S, st_archive = ArchiveRejection S space\<rparr>"

section \<open>What each step writes\<close>

lemma lock_heads_frame:
  "lock_heads xs versions D = Inr (versions', D') \<Longrightarrow> D' = D\<lparr>db_Heads := db_Heads D'\<rparr>"
proof (induction xs versions D rule: lock_heads.induct)
  case (2 x xs versions D)
  let ?k = "(ae_Type x, ae_ID x)"
  have "map_of versions ?k = None"
    using 2(3) by (auto simp: Let_def split: if_splits)
  show ?case
  proof (cases "map_of (db_Heads D) ?k")
    case None
    have "lock_heads xs (AList.update ?k 0 versions) (D\<lparr>db_Heads := AList.update ?k 0 (db_Heads D)\<rparr>) = Inr (versions', D')"
      using 2(3) None by (simp add: Let_def split: if_splits)
    with 2(1) None \<open>map_of versions ?k = None\<close> show ?thesis using 2(3) by (fastforce simp: Let_def split: if_splits)
  next
    case (Some current)
    with 2(2,3) show ?thesis by (fastforce simp: Let_def split: if_splits)
  qed
qed simp

lemma insertTypedRecords_frame:
  assumes "insertTypedRecords S req D = Inr D'"
  shows "D' = D\<lparr>db_Claims := db_Claims D', db_Attempts := db_Attempts D', db_Other := db_Other D'\<rparr>"
    and "owners_error (cr_Batch req) = None"
  using assms by (auto simp: insertTypedRecords_def insert_attempt_def Let_def split: option.splits if_splits)

lemma renewed_generation_fields [simp]:
  "gen_Active (renewed_generation old p high fp) = gen_Active old" "gen_Projection (renewed_generation old p high fp) = p"
  "gen_Checkpoint (renewed_generation old p high fp) = high" "gen_Fingerprint (renewed_generation old p high fp) = fp"
  "gen_ProjectionVersion (renewed_generation old p high fp) = ProjectionVersion"
  by (simp_all add: renewed_generation_def Let_def)

lemma replaceProjection_Inr:
  assumes "replaceProjection S g p high D = Inr D'"
  obtains old fp r where "map_of (db_Generations D) g = Some old" "ProjectionFingerprint (se_lib S) (se_events S) p = Inr fp"
    "D' = D\<lparr>db_Other := r, db_Generations := AList.update g (renewed_generation old p high fp) (db_Generations D)\<rparr>"
proof -
  obtain old where old: "map_of (db_Generations D) g = Some old"
    using assms by (auto simp: replaceProjection_def split: option.splits)
  obtain fp where fp: "ProjectionFingerprint (se_lib S) (se_events S) p = Inr fp"
    using assms old by (cases "ProjectionFingerprint (se_lib S) (se_events S) p") (auto simp: replaceProjection_def)
  show thesis using assms that [OF old fp] by (auto simp: replaceProjection_def old fp)
qed

lemma project_commit_Inr:
  assumes "project_commit S high D = Inr D'"
  obtains events p where "loadEvents S D 0 high = Inr events"
    "Replay (se_lib S) (se_events S) events (NewEventRegistry (se_lib S)) (db_Active D) = (p, None)"
    "replaceProjection S (db_Active D) p high D = Inr D'"
proof -
  obtain events where ev: "loadEvents S D 0 high = Inr events" using assms by (auto simp: project_commit_def)
  obtain p e where r: "Replay (se_lib S) (se_events S) events (NewEventRegistry (se_lib S)) (db_Active D) = (p, e)" by fastforce
  show thesis using assms that [OF ev] by (cases e) (simp_all add: project_commit_def ev r)
qed

text \<open>The parts of the tables a commit leaves, and what it puts in the others.\<close>

lemma write_batch_Inr:
  assumes "write_batch S req es versions b D = Inr (r, D')"
  obtains log bs where "insert_events (db_Events D) es = Inr log" "owners_error b = None"
    "r = commit_result req b versions es" "db_Events D' = log"
    "db_Heads D' = advance_heads versions (db_Heads D)" "db_Clock D' = le_EventSequence (last es)" "db_Active D' = db_Active D"
    "decodeHash (cr_RequestHash req) = Some bs"
    "db_Inbox D' = ((cr_DeviceID req, op_OperationID (cr_Operation req)),
        \<lparr>ib_RequestHash = bs, ib_Rejected = False, ib_AggregateType = res_AggregateType r,
         ib_AggregateID = res_AggregateID r, ib_Result = se_print_result S r\<rparr>) # db_Inbox D"
    "\<exists>E E'. project_commit S (db_Clock D') E = Inr E' \<and> db_Events E = log \<and> db_Active E = db_Active D
       \<and> db_Generations D' = db_Generations E'"
proof -
  let ?high = "le_EventSequence (last es)" and ?r = "commit_result req b versions es"
  obtain D1 log where 1: "insertTypedRecords S (req\<lparr>cr_Batch := b\<rparr>) D = Inr D1" "insert_events (db_Events D1) es = Inr log"
    using assms by (auto simp: write_batch_def)
  let ?E = "D1\<lparr>db_Events := log, db_Heads := advance_heads versions (db_Heads D1), db_Clock := ?high\<rparr>"
  obtain E' where 2: "project_commit S ?high ?E = Inr E'"
    using assms 1 by (auto simp: write_batch_def Let_def)
  obtain D2 where 3: "(case cb_OfflineSubmission b of None \<Rightarrow> Inr E'
      | Some i \<Rightarrow> bindE (se_offline S i ?r (db_Other E')) (\<lambda>other. Inr (E'\<lparr>db_Other := other\<rparr>))) = Inr D2"
    and 4: "archive_result S req ?r D2 = Inr D'" "r = ?r"
    using assms 1 2 by (auto simp: write_batch_def Let_def)
  note f1 = insertTypedRecords_frame [OF 1(1)]
  have d1: "db_Events D1 = db_Events D" "db_Heads D1 = db_Heads D" "db_Active D1 = db_Active D" "db_Inbox D1 = db_Inbox D"
    by (subst f1(1), simp)+
  obtain p where rp: "replaceProjection S (db_Active ?E) p ?high ?E = Inr E'"
    using project_commit_Inr [OF 2] by metis
  have e': "db_Events E' = log" "db_Heads E' = advance_heads versions (db_Heads D)" "db_Clock E' = ?high" "db_Active E' = db_Active D"
    "db_Inbox E' = db_Inbox D"
    by (rule replaceProjection_Inr [OF rp], simp add: d1)+
  obtain other where d2: "D2 = E'\<lparr>db_Other := other\<rparr>"
    using 3 by (cases "cb_OfflineSubmission b") (auto intro: that [of "db_Other E'"])
  obtain bs where bs: "decodeHash (cr_RequestHash req) = Some bs"
    and d': "D' = D2\<lparr>db_Inbox := ((cr_DeviceID req, op_OperationID (cr_Operation req)),
        \<lparr>ib_RequestHash = bs, ib_Rejected = False, ib_AggregateType = res_AggregateType r,
         ib_AggregateID = res_AggregateID r, ib_Result = se_print_result S r\<rparr>) # db_Inbox D2\<rparr>"
    using 4 by (auto simp: archive_result_def split: option.splits)
  show thesis
  proof (rule that [of log bs])
    show "\<exists>E E'. project_commit S (db_Clock D') E = Inr E' \<and> db_Events E = log \<and> db_Active E = db_Active D
       \<and> db_Generations D' = db_Generations E'"
      by (intro exI [of _ ?E] exI [of _ E']) (use 2 in \<open>simp add: d' d2 e' d1\<close>)
  qed (use 1(2) f1(2) 4(2) bs in \<open>simp_all add: d' d2 e' d1\<close>)
qed

lemma commit_body_Inr:
  assumes "commit_body S req D = Inr (r, D')"
  obtains versions other F E es versions' b where
    "lock_heads (go_sort expectation_less (cr_Expectations req)) [] (D\<lparr>db_Other := other\<rparr>) = Inr (versions, F)"
    "db_Heads E = db_Heads F" "db_Inbox E = db_Inbox D" "db_Clock E = db_Clock D" "db_Events E = db_Events D"
    "db_Active E = db_Active D" "db_Generations E = db_Generations D" "db_Claims E = db_Claims D" "db_Attempts E = db_Attempts D"
    "stamp_batch S req versions E = Inr (es, versions', b)" "write_batch S req es versions' b E = Inr (r, D')"
proof -
  let ?fences = "go_sort expectation_less (cr_Expectations req)"
  obtain other where other: "se_begin S req (db_Other D) = Inr other" using assms by (auto simp: commit_body_def)
  obtain versions F where lock: "lock_heads ?fences [] (D\<lparr>db_Other := other\<rparr>) = Inr (versions, F)"
    using assms by (auto simp: commit_body_def other)
  obtain other' es versions' b where rest: "stamp_batch S req versions (F\<lparr>db_Other := other'\<rparr>) = Inr (es, versions', b)"
    "write_batch S req es versions' b (F\<lparr>db_Other := other'\<rparr>) = Inr (r, D')"
  proof (cases "cb_Attempt (cr_Batch req)")
    case None
    with assms that [of "db_Other F"] show ?thesis by (auto simp: commit_body_def other lock)
  next
    case (Some a)
    with assms that show ?thesis by (auto simp: commit_body_def other lock)
  qed
  note frame = lock_heads_frame [OF lock]
  have keep: "db_Inbox F = db_Inbox D" "db_Clock F = db_Clock D" "db_Events F = db_Events D" "db_Active F = db_Active D"
    "db_Generations F = db_Generations D" "db_Claims F = db_Claims D" "db_Attempts F = db_Attempts D"
    by (subst frame, simp)+
  show thesis by (rule that [OF lock]; (rule rest)?; simp add: keep)
qed

end
