(* ===== verification/Archive.thy ===== *)
theory Archive
  imports Store
begin

text \<open>
  What the archive of operations promises, and what the command service makes of it. The locale
  \<open>operation_archive\<close> states the contract of \<open>LookupOperation\<close>, \<open>Commit\<close> and \<open>ArchiveRejection\<close> towards
  \<open>authorityOperation\<close>: what succeeded or was archived is found again, for good, and a failed commit
  changes nothing. Inside it: a finished operation answers every repetition with its first answer and
  leaves the store alone. The store of theory \<open>Store\<close> interprets it.
\<close>

section \<open>The contract\<close>

text \<open>The ways an operation ends.\<close>

definition operation_lookup :: "string \<Rightarrow> OperationEnvelope \<Rightarrow> string \<Rightarrow> OperationLookup" where
  "operation_lookup device op h = \<lparr>ol_DeviceID = device, ol_OperationID = op_OperationID op, ol_RequestHash = h\<rparr>"

lemma authority_cases:
  assumes "authorityOperation A device op hash now execute s = Some (x, s')"
  obtains (hash) e where "hash = Inl e" "x = Inl e" "s' = s"
  | (found) h r where "hash = Inr h" "st_lookup A (operation_lookup device op h) s = FoundResult r" "x = Inr r" "s' = s"
  | (refused) h e where "hash = Inr h" "st_lookup A (operation_lookup device op h) s = FoundError e" "x = Inl e" "s' = s"
  | (failed) h e where "hash = Inr h" "st_lookup A (operation_lookup device op h) s = NotFound" "execute = Some (Inl e)"
      "rejection_of e = None" "x = Inl e" "s' = s"
  | (archived) h e rejection where "hash = Inr h" "st_lookup A (operation_lookup device op h) s = NotFound" "execute = Some (Inl e)"
      "or_Lookup rejection = operation_lookup device op h" "st_archive A rejection s = (x, s')"
  | (committed) h req r where "hash = Inr h" "st_lookup A (operation_lookup device op h) s = NotFound" "execute = Some (Inr req)"
      "st_commit A req s = (Inr r, s')" "x = Inr r"
  | (uncommitted) h req e where "hash = Inr h" "st_lookup A (operation_lookup device op h) s = NotFound" "execute = Some (Inr req)"
      "st_commit A req s = (Inl e, s')" "x = Inl e"
  | (rejected) h req e t rejection where "hash = Inr h" "st_lookup A (operation_lookup device op h) s = NotFound" "execute = Some (Inr req)"
      "st_commit A req s = (Inl e, t)" "or_Lookup rejection = operation_lookup device op h" "st_archive A rejection t = (x, s')"
proof (cases hash)
  case (Inl e)
  with assms hash show thesis by (auto simp: authorityOperation_def)
next
  case (Inr h)
  define rej where "rej f = \<lparr>or_Lookup = operation_lookup device op h, or_AggregateType = op_AggregateType op,
    or_AggregateID = op_AggregateID op, or_Expectations = rejection_fences op f, or_Error = f,
    or_CompletedAt = trunc_microsecond now\<rparr>" for f
  have own: "or_Lookup (rej f) = operation_lookup device op h" for f by (simp add: rej_def)
  note unfolded = assms [unfolded authorityOperation_def Inr Let_def sum.case operation_lookup_def [symmetric] rej_def [symmetric]]
  show thesis
  proof (cases "st_lookup A (operation_lookup device op h) s")
    case NotFound
    with unfolded obtain outcome where run: "execute = Some outcome" by (auto simp: bind_eq_Some_conv)
    show thesis
    proof (cases outcome)
      case o: (Inl e)
      with unfolded NotFound run Inr show thesis
        by (cases "rejection_of e") (auto intro: failed archived [OF _ _ _ own])
    next
      case o: (Inr req)
      obtain y t where c: "st_commit A req s = (y, t)" by fastforce
      show thesis
      proof (cases y)
        case (Inl e)
        with unfolded NotFound run Inr o c \<open>hash = Inr h\<close> show thesis
          by (cases "rejection_of e") (auto intro: uncommitted rejected [OF _ _ _ _ own])
      next
        case (Inr r)
        with unfolded NotFound run o c \<open>hash = Inr h\<close> show thesis by (auto intro: committed)
      qed
    qed
  next
    case (FoundResult r)
    show thesis by (rule found [OF Inr FoundResult]) (use unfolded FoundResult in simp_all)
  next
    case (FoundError e)
    show thesis by (rule refused [OF Inr FoundError]) (use unfolded FoundError in simp_all)
  qed
qed

text \<open>Other operations in between, of any device and command.\<close>

inductive later :: "'s archive_store \<Rightarrow> 's \<Rightarrow> 's \<Rightarrow> bool" for A where
  now: "later A s s"
| operation: "later A s t \<Longrightarrow> authorityOperation A device op hash clock execute t = Some (x, u) \<Longrightarrow> later A s u"

locale operation_archive =
  fixes A :: "'s archive_store"
    and canonical :: "string \<Rightarrow> bool"
    and repeats :: "OperationResult \<Rightarrow> OperationResult \<Rightarrow> bool"
  assumes commit_found: "st_commit A req s = (Inr r, s') \<Longrightarrow> st_lookup A (request_lookup req) s = NotFound \<Longrightarrow> canonical (cr_RequestHash req)
      \<Longrightarrow> (\<exists>r'. st_lookup A (request_lookup req) s' = FoundResult r' \<and> repeats r r')"
    and commit_failed: "st_commit A req s = (Inl e, s') \<Longrightarrow> s' = s"
    and archive_found: "st_archive A rejection s = (x, s') \<Longrightarrow> s' \<noteq> s \<Longrightarrow> canonical (ol_RequestHash (or_Lookup rejection))
      \<Longrightarrow> (\<exists>f. x = Inl (LearningError f None) \<and> st_lookup A (or_Lookup rejection) s' = FoundError (LearningError f None))"
    and archive_result: "st_archive A rejection s = (Inr r, s') \<Longrightarrow> s' = s \<and> st_lookup A (or_Lookup rejection) s = FoundResult r"
    and lookup_repeats: "st_lookup A l s = FoundResult r \<Longrightarrow> repeats r r"
    and commit_stable: "st_lookup A l s \<noteq> NotFound \<Longrightarrow> st_lookup A l (snd (st_commit A req s)) = st_lookup A l s"
    and archive_stable: "st_lookup A l s \<noteq> NotFound \<Longrightarrow> st_lookup A l (snd (st_archive A rejection s)) = st_lookup A l s"
begin

lemma operation_stable:
  assumes "authorityOperation A device op hash now execute s = Some (x, s')" and "st_lookup A l s \<noteq> NotFound"
  shows "st_lookup A l s' = st_lookup A l s"
  using assms(1)
proof (cases rule: authority_cases)
  case (archived h e rejection)
  then show ?thesis using archive_stable [OF assms(2), of rejection] by simp
next
  case (committed h req r)
  then show ?thesis using commit_stable [OF assms(2), of req] by simp
next
  case (uncommitted h req e)
  then show ?thesis using commit_stable [OF assms(2), of req] by simp
next
  case (rejected h req e t rejection)
  then show ?thesis using archive_stable [OF assms(2), of rejection] commit_failed [of req s e t] by simp
qed auto

text \<open>A success is found again, and so is a rejection that was archived.\<close>

lemma success_found:
  assumes "authorityOperation A device op (Inr h) now execute s = Some (Inr r, s')" and "canonical h"
    and own: "\<And>req. execute = Some (Inr req) \<Longrightarrow> request_lookup req = operation_lookup device op h"
  shows "\<exists>r'. st_lookup A (operation_lookup device op h) s' = FoundResult r' \<and> repeats r r'"
  using assms(1)
proof (cases rule: authority_cases)
  case (found h' r')
  then show ?thesis using lookup_repeats [of "operation_lookup device op h" s r] by simp
next
  case (archived h' e rejection)
  then show ?thesis using archive_result [of rejection s r s'] lookup_repeats [of "operation_lookup device op h" s r] by simp
next
  case (committed h' req r')
  have "cr_RequestHash req = h" using own [OF committed(3)] by (simp add: request_lookup_def operation_lookup_def)
  with committed assms(2) own [OF committed(3)] show ?thesis using commit_found [of req s r s'] by simp
next
  case (rejected h' req e t rejection)
  then show ?thesis
    using commit_failed [of req s e t] archive_result [of rejection s r s'] lookup_repeats [of "operation_lookup device op h" s r] by auto
qed auto

lemma rejection_found:
  assumes "authorityOperation A device op (Inr h) now execute s = Some (Inl e, s')" and "canonical h" and "s' \<noteq> s"
  shows "st_lookup A (operation_lookup device op h) s' = FoundError e"
  using assms(1)
proof (cases rule: authority_cases)
  case (archived h' e' rejection)
  then show ?thesis using archive_found [of rejection s "Inl e" s'] assms(2,3) by (auto simp: operation_lookup_def)
next
  case (uncommitted h' req e')
  then show ?thesis using commit_failed [of req s e' s'] assms(3) by simp
next
  case (rejected h' req e' t rejection)
  then have "t = s" using commit_failed [of req s e' t] by simp
  with rejected show ?thesis using archive_found [of rejection s "Inl e" s'] assms(2,3) by (auto simp: operation_lookup_def)
qed (use assms(3) in auto)

text \<open>A found operation is answered from the archive, whatever the handler would do now.\<close>

lemma answered:
  "st_lookup A (operation_lookup device op h) s = FoundResult r \<Longrightarrow>
   authorityOperation A device op (Inr h) now execute s = Some (Inr r, s)"
  "st_lookup A (operation_lookup device op h) s = FoundError e \<Longrightarrow>
   authorityOperation A device op (Inr h) now execute s = Some (Inl e, s)"
  by (simp_all add: authorityOperation_def operation_lookup_def)

lemma later_stable: "later A s t \<Longrightarrow> st_lookup A l s \<noteq> NotFound \<Longrightarrow> st_lookup A l t = st_lookup A l s"
  by (induction rule: later.induct) (metis operation_stable)+

lemma success_replayed:
  assumes "authorityOperation A device op (Inr h) now execute s = Some (Inr r, s')" and "canonical h"
    and "\<And>req. execute = Some (Inr req) \<Longrightarrow> request_lookup req = operation_lookup device op h"
    and "later A s' t"
  shows "\<exists>r'. repeats r r' \<and> authorityOperation A device op (Inr h) now' execute' t = Some (Inr r', t)"
proof -
  obtain r' where r': "st_lookup A (operation_lookup device op h) s' = FoundResult r'" "repeats r r'"
    using success_found [OF assms(1-3)] by blast
  then have "st_lookup A (operation_lookup device op h) t = FoundResult r'" using later_stable [OF assms(4)] by simp
  with r'(2) show ?thesis by (blast intro: answered)
qed

lemma rejection_replayed:
  assumes "authorityOperation A device op (Inr h) now execute s = Some (Inl e, s')" and "canonical h" and "s' \<noteq> s"
    and "later A s' t"
  shows "authorityOperation A device op (Inr h) now' execute' t = Some (Inl e, t)"
  using rejection_found [OF assms(1-3)] later_stable [OF assms(4)] by (intro answered) simp

end

section \<open>The store keeps the contract\<close>

text \<open>
  The laws of the parameters: a printed error reads back; a printed result reads back with the JSON of its
  payload as the \<open>jsonb\<close> column normalises it.
\<close>

definition archive_laws :: "'r store_env \<Rightarrow> (string \<Rightarrow> string) \<Rightarrow> bool" where
  "archive_laws S jsonb \<longleftrightarrow> (\<forall>f. se_error S (se_print_error S f) = Inr f)
     \<and> (\<forall>r. se_result S (se_print_result S r) = Inr (r\<lparr>res_Result := jsonb (res_Result r)\<rparr>))"

definition canonical_hash :: "string \<Rightarrow> bool" where
  "canonical_hash h \<longleftrightarrow> (\<exists>bs. length bs = 32 \<and> h = hex_encode bs)"

definition repeats :: "(string \<Rightarrow> string) \<Rightarrow> OperationResult \<Rightarrow> OperationResult \<Rightarrow> bool" where
  "repeats jsonb r r' \<longleftrightarrow> r' = r\<lparr>res_Replayed := True, res_Archived := True, res_Result := res_Result r'\<rparr>
     \<and> (res_Result r' = res_Result r \<or> res_Result r' = jsonb (res_Result r))"

lemma byte_digits: "byte c < 256" "hex_value (hex_digit (byte c div 16)) = Some (byte c div 16)"
  "hex_value (hex_digit (byte c mod 16)) = Some (byte c mod 16)" "char_of (byte c) = c"
proof -
  show b: "byte c < 256" by (simp add: byte_def)
  have digit: "n < 16 \<Longrightarrow> hex_value (hex_digit n) = Some n" for n :: nat
    by (auto simp: hex_value_def hex_digit_def byte_def Let_def)
  show "hex_value (hex_digit (byte c div 16)) = Some (byte c div 16)" "hex_value (hex_digit (byte c mod 16)) = Some (byte c mod 16)"
    using b by (auto intro!: digit)
  show "char_of (byte c) = c" by (simp add: byte_def)
qed

lemma hex_decode_encode [simp]: "hex_decode (hex_encode bs) = Some bs"
  by (induction bs) (simp_all add: hex_encode_def byte_digits)

lemma decodeHash_canonical: "canonical_hash h \<Longrightarrow> \<exists>bs. decodeHash h = Some bs \<and> hex_encode bs = h"
  by (auto simp: canonical_hash_def decodeHash_def)

lemma Commit_cases:
  assumes "Commit S req D = (x, D')"
  obtains (invalid) e where "validateCommitRequest (se_lib S) req = Some e" "x = Inl e" "D' = D"
  | (found) r where "lookupArchivedOperation S (request_lookup req) D = FoundResult r" "x = Inr r" "D' = D"
  | (refused) e where "lookupArchivedOperation S (request_lookup req) D = FoundError e" "x = Inl e" "D' = D"
  | (failed) e where "commit_body S req D = Inl e" "x = Inl e" "D' = D"
  | (committed) r where "validateCommitRequest (se_lib S) req = None" "lookupArchivedOperation S (request_lookup req) D = NotFound"
      "commit_body S req D = Inr (r, D')" "x = Inr r"
proof (cases "validateCommitRequest (se_lib S) req")
  case None
  note eq = assms [unfolded Commit_def None option.case]
  show thesis
  proof (cases "lookupArchivedOperation S (request_lookup req) D")
    case NotFound
    show thesis
    proof (cases "commit_body S req D")
      case (Inl e)
      show thesis by (rule failed [OF Inl]) (use eq in \<open>simp_all add: NotFound transact_def Inl\<close>)
    next
      case (Inr y)
      obtain r E where y: "y = (r, E)" by fastforce
      have "x = Inr r" "D' = E" using eq by (simp_all add: NotFound transact_def Inr y)
      with committed [OF None NotFound] Inr y show thesis by simp
    qed
  next
    case (FoundResult r)
    show thesis by (rule found [OF FoundResult]) (use eq in \<open>simp_all add: FoundResult\<close>)
  next
    case (FoundError e)
    show thesis by (rule refused [OF FoundError]) (use eq in \<open>simp_all add: FoundError\<close>)
  qed
next
  case (Some e)
  show thesis by (rule invalid [OF Some]) (use assms in \<open>simp_all add: Commit_def Some\<close>)
qed

lemma commit_body_inbox:
  assumes "commit_body S req D = Inr (r, D')"
  obtains bs where "decodeHash (cr_RequestHash req) = Some bs"
    "db_Inbox D' = ((cr_DeviceID req, op_OperationID (cr_Operation req)),
        \<lparr>ib_RequestHash = bs, ib_Rejected = False, ib_AggregateType = res_AggregateType r,
         ib_AggregateID = res_AggregateID r, ib_Result = se_print_result S r\<rparr>) # db_Inbox D"
    "res_Archived r" "\<not> res_Replayed r"
proof (rule commit_body_Inr [OF assms])
  fix versions other F E es versions' b
  assume w: "write_batch S req es versions' b E = Inr (r, D')" and "db_Inbox E = db_Inbox D"
  then show thesis
    by (elim write_batch_Inr) (use \<open>db_Inbox E = db_Inbox D\<close> in \<open>auto simp: commit_result_def Let_def intro!: that\<close>)
qed

text \<open>A lookup depends on the row of its key only.\<close>

lemma lookup_stable:
  assumes "LookupOperation S l D \<noteq> NotFound" "map_of (db_Inbox D') (ol_DeviceID l, ol_OperationID l) = map_of (db_Inbox D) (ol_DeviceID l, ol_OperationID l)
     \<or> map_of (db_Inbox D) (ol_DeviceID l, ol_OperationID l) = None"
  shows "LookupOperation S l D' = LookupOperation S l D"
  using assms by (auto simp: LookupOperation_def lookupArchivedOperation_def split: option.splits)

lemma lookup_NotFound: "lookupArchivedOperation S l D = NotFound \<Longrightarrow> map_of (db_Inbox D) (ol_DeviceID l, ol_OperationID l) = None"
  by (auto simp: lookupArchivedOperation_def split: option.splits if_splits sum.splits)

lemma lookup_found_repeats: "lookupArchivedOperation S l D = FoundResult r \<Longrightarrow> repeats jsonb r r"
  by (auto simp: lookupArchivedOperation_def repeats_def split: option.splits if_splits sum.splits)

lemma archive_row_Inr:
  assumes "archive_row S rejection D = Inr (f, D')"
  obtains bs where "decodeHash (ol_RequestHash (or_Lookup rejection)) = Some bs"
    "D' = D\<lparr>db_Inbox := ((ol_DeviceID (or_Lookup rejection), ol_OperationID (or_Lookup rejection)),
               \<lparr>ib_RequestHash = bs, ib_Rejected = True, ib_AggregateType = or_AggregateType rejection,
                ib_AggregateID = or_AggregateID rejection, ib_Result = se_print_error S f\<rparr>) # db_Inbox D\<rparr>"
  using assms by (auto simp: archive_row_def Let_def split: option.splits)

lemma archive_cases:
  assumes "ArchiveRejection S space rejection D = (x, D')"
  obtains (same) "D' = D" "\<And>r. x = Inr r \<Longrightarrow> validateOperationLookup (se_lib S) (or_Lookup rejection) = None
      \<and> lookupArchivedOperation S (or_Lookup rejection) D = FoundResult r"
  | (archived) f where "validateOperationLookup (se_lib S) (or_Lookup rejection) = None"
      "lookupArchivedOperation S (or_Lookup rejection) D = NotFound" "x = Inl (LearningError f None)"
      "archive_row S rejection D = Inr (f, D')"
proof (cases "validateOperationLookup (se_lib S) (or_Lookup rejection)")
  case (Some e)
  show thesis by (rule same) (use assms in \<open>simp_all add: ArchiveRejection_def Some\<close>)
next
  case None
  note eq = assms [unfolded ArchiveRejection_def None option.case]
  show thesis
  proof (cases "lookupArchivedOperation S (or_Lookup rejection) D")
    case (FoundResult r)
    show thesis by (rule same) (use eq None in \<open>auto simp: FoundResult split: if_splits option.splits\<close>)
  next
    case (FoundError e)
    show thesis by (rule same) (use eq in \<open>auto simp: FoundError split: if_splits option.splits\<close>)
  next
    case NotFound
    show thesis
    proof (cases "archive_row S rejection D")
      case (Inl e)
      show thesis by (rule same) (use eq in \<open>auto simp: NotFound Inl split: if_splits option.splits\<close>)
    next
      case (Inr y)
      obtain f E where y: "y = (f, E)" by fastforce
      have "(D' = D \<and> (\<exists>e. x = Inl e)) \<or> (x = Inl (LearningError f None) \<and> D' = E)"
        using eq by (auto simp: NotFound Inr y split: if_splits option.splits)
      then show thesis using archived [OF None NotFound, of f] same Inr y by auto
    qed
  qed
qed

lemma archive_simps [simp]:
  "st_lookup (learning_archive S space) = LookupOperation S" "st_commit (learning_archive S space) = Commit S"
  "st_archive (learning_archive S space) = ArchiveRejection S space"
  by (simp_all add: learning_archive_def)

lemma commit_found:
  assumes "Commit S req D = (Inr r, D')" "LookupOperation S (request_lookup req) D = NotFound"
    and "archive_laws S jsonb" "canonical_hash (cr_RequestHash req)"
  shows "\<exists>r'. LookupOperation S (request_lookup req) D' = FoundResult r' \<and> repeats jsonb r r'"
proof -
  let ?r = "r\<lparr>res_Result := jsonb (res_Result r), res_Replayed := True, res_Archived := True\<rparr>"
  have valid: "validateOperationLookup (se_lib S) (request_lookup req) = None"
    using assms(2) by (auto simp: LookupOperation_def split: option.splits)
  then have nf: "lookupArchivedOperation S (request_lookup req) D = NotFound"
    using assms(2) by (simp add: LookupOperation_def)
  have body: "commit_body S req D = Inr (r, D')"
    using assms(1) by (rule Commit_cases) (use nf in auto)
  obtain bs where "decodeHash (cr_RequestHash req) = Some bs"
    and inbox: "db_Inbox D' = ((cr_DeviceID req, op_OperationID (cr_Operation req)),
        \<lparr>ib_RequestHash = bs, ib_Rejected = False, ib_AggregateType = res_AggregateType r,
         ib_AggregateID = res_AggregateID r, ib_Result = se_print_result S r\<rparr>) # db_Inbox D"
    by (rule commit_body_inbox [OF body])
  with decodeHash_canonical [OF assms(4)] have "hex_encode bs = cr_RequestHash req" by auto
  with inbox assms(3) have "LookupOperation S (request_lookup req) D' = FoundResult ?r"
    using valid by (simp add: LookupOperation_def lookupArchivedOperation_def request_lookup_def archive_laws_def)
  moreover have "repeats jsonb r ?r" by (simp add: repeats_def)
  ultimately show ?thesis by blast
qed

lemma rejection_archived:
  assumes "ArchiveRejection S space rejection D = (x, D')" "D' \<noteq> D" "archive_laws S jsonb"
    and "canonical_hash (ol_RequestHash (or_Lookup rejection))"
  shows "\<exists>f. x = Inl (LearningError f None) \<and> LookupOperation S (or_Lookup rejection) D' = FoundError (LearningError f None)"
  using assms(1)
proof (cases rule: archive_cases)
  case (archived f)
  obtain bs where "decodeHash (ol_RequestHash (or_Lookup rejection)) = Some bs"
    and inbox: "D' = D\<lparr>db_Inbox := ((ol_DeviceID (or_Lookup rejection), ol_OperationID (or_Lookup rejection)),
               \<lparr>ib_RequestHash = bs, ib_Rejected = True, ib_AggregateType = or_AggregateType rejection,
                ib_AggregateID = or_AggregateID rejection, ib_Result = se_print_error S f\<rparr>) # db_Inbox D\<rparr>"
    by (rule archive_row_Inr [OF archived(4)])
  with decodeHash_canonical [OF assms(4)] have "hex_encode bs = ol_RequestHash (or_Lookup rejection)" by auto
  with archived(1,3) assms(3) show ?thesis
    by (simp add: LookupOperation_def lookupArchivedOperation_def inbox archive_laws_def)
qed (use assms(2) in simp)

lemma commit_lookup_stable:
  assumes "LookupOperation S l D \<noteq> NotFound"
  shows "LookupOperation S l (snd (Commit S req D)) = LookupOperation S l D"
proof -
  obtain x D' where c: "Commit S req D = (x, D')" by fastforce
  then show ?thesis
  proof (cases rule: Commit_cases)
    case (committed r)
    have "map_of (db_Inbox D) (cr_DeviceID req, op_OperationID (cr_Operation req)) = None"
      using lookup_NotFound [OF committed(2)] by (simp add: request_lookup_def)
    then show ?thesis
      using committed(3) c by (elim commit_body_inbox) (auto intro!: lookup_stable [OF assms])
  qed (simp_all add: c)
qed

lemma archive_lookup_stable:
  assumes "LookupOperation S l D \<noteq> NotFound"
  shows "LookupOperation S l (snd (ArchiveRejection S space rejection D)) = LookupOperation S l D"
proof -
  obtain x D' where c: "ArchiveRejection S space rejection D = (x, D')" by fastforce
  then show ?thesis
  proof (cases rule: archive_cases)
    case (archived f)
    show ?thesis
      using lookup_NotFound [OF archived(2)] archived(4) c
      by (elim archive_row_Inr) (auto intro!: lookup_stable [OF assms])
  qed (simp add: c)
qed

interpretation archive: operation_archive "learning_archive S space" "\<lambda>h. archive_laws S jsonb \<and> canonical_hash h" "repeats jsonb"
  for S :: "'r store_env" and space jsonb
proof unfold_locales
  fix req r and s s' :: "'r db"
  assume "st_commit (learning_archive S space) req s = (Inr r, s')"
    "st_lookup (learning_archive S space) (request_lookup req) s = NotFound"
    "archive_laws S jsonb \<and> canonical_hash (cr_RequestHash req)"
  then show "\<exists>r'. st_lookup (learning_archive S space) (request_lookup req) s' = FoundResult r' \<and> repeats jsonb r r'"
    by (simp add: commit_found)
next
  fix req e and s s' :: "'r db"
  assume "st_commit (learning_archive S space) req s = (Inl e, s')"
  then show "s' = s" by (auto elim: Commit_cases)
next
  fix rejection x and s s' :: "'r db"
  assume "st_archive (learning_archive S space) rejection s = (x, s')" "s' \<noteq> s"
    "archive_laws S jsonb \<and> canonical_hash (ol_RequestHash (or_Lookup rejection))"
  then show "\<exists>f. x = Inl (LearningError f None) \<and> st_lookup (learning_archive S space) (or_Lookup rejection) s' = FoundError (LearningError f None)"
    using rejection_archived [of S space rejection s x s' jsonb] by simp
next
  fix rejection r and s s' :: "'r db"
  assume "st_archive (learning_archive S space) rejection s = (Inr r, s')"
  then show "s' = s \<and> st_lookup (learning_archive S space) (or_Lookup rejection) s = FoundResult r"
    by (auto elim!: archive_cases simp: LookupOperation_def)
next
  fix l r and s :: "'r db"
  assume "st_lookup (learning_archive S space) l s = FoundResult r"
  then show "repeats jsonb r r" by (auto simp: LookupOperation_def lookup_found_repeats split: option.splits)
qed (simp_all add: commit_lookup_stable archive_lookup_stable)

section \<open>Commands are executed once\<close>

lemma applyAction_own:
  assumes "applyAction E sessionID cmd = Some (Inr req)" "ce_hash_action E cmd = Inr h"
  shows "request_lookup req = operation_lookup (ce_device E) (acmd_Operation cmd) h"
  using assms(1)
  by (rule applyAction_Inr)
     (use assms(2) in \<open>auto simp: request_lookup_def operation_lookup_def finish_action_def commit_request_def Let_def\<close>)

lemma decide_own:
  assumes "decide E assessmentID command = Inr req" "ce_hash_decision E command = Inr h"
  shows "request_lookup req = operation_lookup (ce_device E) (adc_Operation command) h"
  using assms by (auto simp: decide_def commit_request_def request_lookup_def operation_lookup_def)

text \<open>The environment of a repeated command: the same device and hash, and a session the request may address.\<close>

definition same_caller :: "ActionCommand \<Rightarrow> string \<Rightarrow> command_env \<Rightarrow> command_env \<Rightarrow> bool" where
  "same_caller cmd sessionID E E' \<longleftrightarrow> ce_device E' = ce_device E \<and> ce_hash_action E' cmd = ce_hash_action E cmd
     \<and> validateSessionScope E' sessionID = None"

text \<open>
  C1: An action is executed at most once. When \<open>ApplyAction\<close> has succeeded, sending the command again, after
  any number of other operations of any device, gives the first result marked as replayed and leaves the
  store as it is, whatever the state the session has reached by then.
\<close>

theorem action_executed_once:
  assumes "ApplyAction (learning_archive S space) env sessionID cmd D = Some (Inr r, D')"
    and "ce_hash_action (env D) cmd = Inr h" "canonical_hash h" "archive_laws S jsonb"
    and "later (learning_archive S space) D' D''" "same_caller cmd sessionID (env D) (env D'')"
  shows "\<exists>r'. repeats jsonb r r' \<and> ApplyAction (learning_archive S space) env sessionID cmd D'' = Some (Inr r', D'')"
proof -
  let ?E = "env D"
  have run: "authorityOperation (learning_archive S space) (ce_device ?E) (acmd_Operation cmd) (Inr h) (ce_now ?E)
      (applyAction ?E sessionID cmd) D = Some (Inr r, D')"
    using assms(1,2) by (auto simp: ApplyAction_def Let_def split: option.splits)
  have own: "applyAction ?E sessionID cmd = Some (Inr req) \<Longrightarrow>
      request_lookup req = operation_lookup (ce_device ?E) (acmd_Operation cmd) h" for req
    using applyAction_own assms(2) by blast
  have laws: "archive_laws S jsonb \<and> canonical_hash h" using assms(3,4) by simp
  obtain r' where "repeats jsonb r r'" "authorityOperation (learning_archive S space) (ce_device ?E) (acmd_Operation cmd) (Inr h)
      (ce_now (env D'')) (applyAction (env D'') sessionID cmd) D'' = Some (Inr r', D'')"
    using archive.success_replayed [OF run laws own assms(5)] by blast
  moreover have "ce_device (env D'') = ce_device ?E" "ce_hash_action (env D'') cmd = Inr h" "validateSessionScope (env D'') sessionID = None"
    using assms(2,6) by (simp_all add: same_caller_def)
  ultimately show ?thesis by (auto simp: ApplyAction_def Let_def)
qed

text \<open>
  C11: An archived rejection is final. When \<open>ApplyAction\<close> was refused and the refusal changed the store (it was
  archived), sending the command again gives the same error for good, also when the action has become
  legal in the meantime.
\<close>

theorem rejection_final:
  assumes "ApplyAction (learning_archive S space) env sessionID cmd D = Some (Inl e, D')" "D' \<noteq> D"
    and "ce_hash_action (env D) cmd = Inr h" "canonical_hash h" "archive_laws S jsonb"
    and "later (learning_archive S space) D' D''" "same_caller cmd sessionID (env D) (env D'')"
  shows "ApplyAction (learning_archive S space) env sessionID cmd D'' = Some (Inl e, D'')"
proof -
  let ?E = "env D"
  have run: "authorityOperation (learning_archive S space) (ce_device ?E) (acmd_Operation cmd) (Inr h) (ce_now ?E)
      (applyAction ?E sessionID cmd) D = Some (Inl e, D')"
    using assms(1,2,3) by (auto simp: ApplyAction_def Let_def split: option.splits)
  have laws: "archive_laws S jsonb \<and> canonical_hash h" using assms(4,5) by simp
  have "authorityOperation (learning_archive S space) (ce_device ?E) (acmd_Operation cmd) (Inr h)
      (ce_now (env D'')) (applyAction (env D'') sessionID cmd) D'' = Some (Inl e, D'')"
    by (rule archive.rejection_replayed [OF run laws assms(2,6)])
  moreover have "ce_device (env D'') = ce_device ?E" "ce_hash_action (env D'') cmd = Inr h" "validateSessionScope (env D'') sessionID = None"
    using assms(3,7) by (simp_all add: same_caller_def)
  ultimately show ?thesis by (simp add: ApplyAction_def Let_def)
qed

text \<open>
  An operation identifier is bound to its request. Once an operation of a device is in the archive, a
  command of that device with the same identifier and another hash is refused with an idempotency
  conflict, and nothing changes.
\<close>

theorem operation_bound_to_request:
  assumes "map_of (db_Inbox D) (ce_device (env D), op_OperationID (acmd_Operation cmd)) = Some row"
    and "ce_hash_action (env D) cmd = Inr h" "canonical_hash h" "h \<noteq> hex_encode (ib_RequestHash row)"
    and "lib_uuid_parse (se_lib S) (ce_device (env D)) \<noteq> None" "lib_uuid_parse (se_lib S) (op_OperationID (acmd_Operation cmd)) \<noteq> None"
    and "validateSessionScope (env D) sessionID = None"
  shows "ApplyAction (learning_archive S space) env sessionID cmd D = Some (Inl (err_code CodeIdempotencyConflict), D)"
proof -
  have "LookupOperation S (operation_lookup (ce_device (env D)) (acmd_Operation cmd) h) D = FoundError (err_code CodeIdempotencyConflict)"
    using assms(1,4,5,6) decodeHash_canonical [OF assms(3)]
    by (auto simp: LookupOperation_def lookupArchivedOperation_def validateOperationLookup_def operation_lookup_def)
  then show ?thesis
    using assms(2,7) by (simp add: ApplyAction_def Let_def archive.answered)
qed

end
