(* ===== verification/Store_Example.thy ===== *)
theory Store_Example
  imports Archive
begin

text \<open>
  One concrete store: simple parameters (a printer of fields that reads back what it wrote, the identity
  as canonical JSON and as SHA-1), a generation without events, and the action that starts a lesson's
  diagnosis sent to it, with the right and with a stale version. The whole commands are evaluated in the
  kernel, and the properties of theory \<open>Archive\<close> are applied to them.
\<close>

section \<open>Fields as text\<close>

fun frame_text :: "string \<Rightarrow> string" where
  "frame_text [] = ''.''"
| "frame_text (c # cs) = CHR ''x'' # c # frame_text cs"

fun take_frame :: "string \<Rightarrow> string \<times> string" where
  "take_frame (x # c # cs) = (if x = CHR ''.'' then ([], c # cs) else case take_frame cs of (f, rest) \<Rightarrow> (c # f, rest))"
| "take_frame s = ([], [])"

primrec read_fields :: "nat \<Rightarrow> string \<Rightarrow> string list" where
  "read_fields 0 s = []"
| "read_fields (Suc n) s = (case take_frame s of (f, rest) \<Rightarrow> f # read_fields n rest)"

definition print_fields :: "string list \<Rightarrow> string" where
  "print_fields fs = concat (map frame_text fs)"

lemma take_frame_text [simp]: "take_frame (frame_text s @ t) = (s, t)"
proof (induction s)
  case Nil
  show ?case by (cases t) simp_all
qed simp

lemma read_print_fields: "length fs = n \<Longrightarrow> read_fields n (print_fields fs) = fs"
  by (induction fs arbitrary: n) (auto simp: print_fields_def)

definition int_field :: "int \<Rightarrow> string" where
  "int_field i = (if i < 0 then ''-'' else []) @ replicate (nat \<bar>i\<bar>) (CHR ''1'')"

definition read_int :: "string \<Rightarrow> int" where
  "read_int s = (case s of [] \<Rightarrow> 0 | c # cs \<Rightarrow> if c = CHR ''-'' then - int (length cs) else int (length s))"

lemma read_int_field [simp]: "read_int (int_field i) = i"
  by (cases "nat \<bar>i\<bar>") (auto simp: read_int_def int_field_def)

definition bool_field :: "bool \<Rightarrow> string" where
  "bool_field b = (if b then ''1'' else [])"

lemma read_bool_field [simp]: "(bool_field b \<noteq> []) = b"
  by (simp add: bool_field_def)

definition read_by :: "('a \<Rightarrow> string) \<Rightarrow> 'a \<Rightarrow> 'a list \<Rightarrow> string \<Rightarrow> 'a" where
  "read_by f d xs s = (case find (\<lambda>x. f x = s) xs of None \<Rightarrow> d | Some x \<Rightarrow> x)"

definition read_code :: "string \<Rightarrow> ErrCode" where
  "read_code = read_by code_text NoCode [CodeInvalidRequest, CodeNotFound, CodeIdempotencyConflict, CodeVersionConflict,
     CodeInvalidTransition, CodeActivityStateConflict, CodeKnowledgeReferenceInvalid, CodeStaleProposal, CodeProposalRejected,
     CodeAssessmentDispositionConflict, CodeFocusFrameInvalidated, CodeUnsupportedEventSchema, CodeProjectionUnavailable,
     CodeContentRedacted, CodeStaleCursor, CodeModelUnavailable, CodeOfflinePrepareUnavailable, CodeOfflineSignerUnavailable,
     CodeOfflineOperationNotFound, CodeOperationConflict, CodeEvidenceCarryoverClosed, CodeEvidenceCarryoverNoCandidates]"

lemma read_code_text [simp]: "read_code (code_text c) = c"
  by (cases c) (simp_all add: read_code_def read_by_def)

fun disposition_field :: "Disposition \<Rightarrow> string" where
  "disposition_field DispositionUnset = []"
| "disposition_field DispositionAccepted = ''a''"
| "disposition_field DispositionProvisional = ''p''"
| "disposition_field DispositionOverridden = ''o''"
| "disposition_field DispositionVoided = ''v''"
| "disposition_field (DispositionOther s) = CHR ''x'' # s"

definition read_disposition :: "string \<Rightarrow> Disposition" where
  "read_disposition s = (if take 1 s = ''x'' then DispositionOther (drop 1 s) else read_by disposition_field DispositionUnset
     [DispositionAccepted, DispositionProvisional, DispositionOverridden, DispositionVoided] s)"

lemma read_disposition_field [simp]: "read_disposition (disposition_field d) = d"
  by (cases d) (simp_all add: read_disposition_def read_by_def)

definition print_result :: "OperationResult \<Rightarrow> string" where
  "print_result r = print_fields [res_Status r, bool_field (res_Replayed r), bool_field (res_Archived r), res_AggregateType r,
     res_AggregateID r, int_field (res_AggregateVersion r), int_field (res_FirstEventSequence r),
     int_field (res_LastEventSequence r), int_field (res_ProjectionAsOf r), res_TutoringState r,
     disposition_field (res_EvidenceDisposition r), res_Result r]"

definition read_result :: "string \<Rightarrow> error + OperationResult" where
  "read_result s = (case read_fields 12 s of
      [st, rp, ar, ty, i, v, f, l, p, t, d, r] \<Rightarrow> Inr \<lparr>res_Status = st, res_Replayed = (rp \<noteq> []), res_Archived = (ar \<noteq> []),
        res_AggregateType = ty, res_AggregateID = i, res_AggregateVersion = read_int v, res_FirstEventSequence = read_int f,
        res_LastEventSequence = read_int l, res_ProjectionAsOf = read_int p, res_TutoringState = t,
        res_EvidenceDisposition = read_disposition d, res_Result = r\<rparr>
    | _ \<Rightarrow> Inl (PlainError ''result''))"

definition print_error :: "ErrorFields \<Rightarrow> string" where
  "print_error f = print_fields [code_text (err_Code f), err_AggregateType f, err_AggregateID f, int_field (err_ExpectedVersion f),
     int_field (err_CurrentVersion f), int_field (err_AsOfEventSequence f), err_CurrentDisposition f, err_Reason f]"

definition read_error :: "string \<Rightarrow> error + ErrorFields" where
  "read_error s = (case read_fields 8 s of
      [c, ty, i, x, v, n, d, r] \<Rightarrow> Inr \<lparr>err_Code = read_code c, err_AggregateType = ty, err_AggregateID = i,
        err_ExpectedVersion = read_int x, err_CurrentVersion = read_int v, err_AsOfEventSequence = read_int n,
        err_CurrentDisposition = d, err_Reason = r\<rparr>
    | _ \<Rightarrow> Inl (PlainError ''error''))"

lemma read_print_result [simp]: "read_result (print_result r) = Inr r"
  unfolding read_result_def print_result_def by (subst read_print_fields) simp_all

lemma read_print_error [simp]: "read_error (print_error f) = Inr f"
  unfolding read_error_def print_error_def by (subst read_print_fields) simp_all

section \<open>The store\<close>

definition lesson_hash :: string where
  "lesson_hash = hex_encode (replicate 32 CHR ''h'')"

definition new_session :: Session where
  "new_session = ready_session\<lparr>sess_AggregateVer := 0\<rparr>"

definition store_codec :: event_codec where
  "store_codec = example_codec\<lparr>
     cod_session := (\<lambda>_. Inr \<lparr>sp_Session = new_session, sp_UpdatedEventSequence = 0\<rparr>),
     cod_print_projection := (\<lambda>p. Inr (md_GenerationID (pj_Metadata p)))\<rparr>"

definition example_store :: "unit store_env" where
  "example_store = \<lparr>se_lib = example_lib, se_events = store_codec, se_json = example_command_codec,
     se_question = (\<lambda>_. Inl (PlainError ''no question'')),
     se_print_result = print_result, se_result = read_result,
     se_print_error = print_error, se_error = read_error,
     se_print_session = sess_ID, se_canonical = Inr, se_object = (\<lambda>_. None), se_print_object = (\<lambda>_. []),
     se_print_route_owners = (\<lambda>_. []), se_print_item_owners = (\<lambda>_. []), se_print_evidence_owners = (\<lambda>_. []),
     se_event_uuid = (\<lambda>s. s), se_begin = (\<lambda>_ r. Inr r), se_content = (\<lambda>_ r. Inr r), se_insert = (\<lambda>_ r. Inr r),
     se_progress = (\<lambda>_ _ _ r. Inr r), se_offline = (\<lambda>_ _ r. Inr r)\<rparr>"

definition empty_db :: "unit db" where
  "empty_db = \<lparr>db_Inbox = [], db_Heads = [], db_Clock = 0, db_Events = [], db_Claims = [], db_Attempts = [],
     db_Active = ''g'', db_Generations = [(''g'', \<lparr>gen_Active = True, gen_ProjectionVersion = ProjectionVersion, gen_Checkpoint = 0,
       gen_Fingerprint = [], gen_Incomplete = False, gen_Reasons = [], gen_Projection = EmptyProjection ''g''\<rparr>)],
     db_Other = ()\<rparr>"

definition store_caller :: command_env where
  "store_caller = (example_env (example_authority new_session))\<lparr>ce_hash_action := (\<lambda>_. Inr lesson_hash)\<rparr>"

definition lesson_start :: "string \<Rightarrow> int \<Rightarrow> ActionCommand" where
  "lesson_start i v = (example_action ActionStartDiagnostic v)\<lparr>acmd_Operation := (example_operation v)\<lparr>op_OperationID := i\<rparr>\<rparr>"

abbreviation example_archive :: "unit db archive_store" where
  "example_archive \<equiv> learning_archive example_store (\<lambda>_. None)"

definition lesson_run :: "string \<Rightarrow> int \<Rightarrow> unit db \<Rightarrow> ((error + OperationResult) \<times> unit db) option" where
  "lesson_run i v D = ApplyAction example_archive (\<lambda>_. store_caller) ''s'' (lesson_start i v) D"

lemma lesson_committed: "\<exists>r D. lesson_run ''op'' 0 empty_db = Some (Inr r, D) \<and> db_Clock D = 1 \<and> db_Inbox D \<noteq> []"
proof -
  have *: "case lesson_run ''op'' 0 empty_db of Some (Inr r, D) \<Rightarrow> db_Clock D = 1 \<and> db_Inbox D \<noteq> [] | _ \<Rightarrow> False"
    by code_simp
  then obtain y D where run: "lesson_run ''op'' 0 empty_db = Some (y, D)" by (auto split: option.splits)
  with * show ?thesis by (cases y) auto
qed

lemma lesson_stale: "\<exists>f D. lesson_run ''op'' 1 empty_db = Some (Inl (LearningError f None), D) \<and> err_Code f = CodeVersionConflict
    \<and> db_Inbox D \<noteq> []"
proof -
  have *: "case lesson_run ''op'' 1 empty_db of Some (Inl (LearningError f None), D) \<Rightarrow> err_Code f = CodeVersionConflict \<and> db_Inbox D \<noteq> []
      | _ \<Rightarrow> False"
    by code_simp
  then obtain y D where run: "lesson_run ''op'' 1 empty_db = Some (y, D)" by (auto split: option.splits)
  with * show ?thesis by (cases y) (auto split: error.splits option.splits)
qed

lemma lesson_laws: "archive_laws example_store (\<lambda>s. s)" "canonical_hash lesson_hash" "ce_hash_action store_caller cmd = Inr lesson_hash"
  "same_caller cmd i store_caller store_caller \<longleftrightarrow> validateSessionScope store_caller i = None" "validateSessionScope store_caller i = None"
  "db_Inbox empty_db = []"
  by (simp_all add: archive_laws_def example_store_def canonical_hash_def lesson_hash_def store_caller_def same_caller_def
      validateSessionScope_def example_env_def example_authority_def empty_db_def) (rule exI, rule conjI [rotated], rule HOL.refl, simp)

theorem action_executed_once_witness:
  "\<exists>r D r'. lesson_run ''op'' 0 empty_db = Some (Inr r, D) \<and> lesson_run ''op'' 0 D = Some (Inr r', D) \<and> repeats (\<lambda>s. s) r r'"
proof -
  obtain r D where run: "lesson_run ''op'' 0 empty_db = Some (Inr r, D)" using lesson_committed by blast
  show ?thesis
    using action_executed_once [OF run [unfolded lesson_run_def] lesson_laws(3,2,1) later.now] run
    by (auto simp: lesson_laws lesson_run_def)
qed

theorem rejection_final_witness:
  "\<exists>e D. lesson_run ''op'' 1 empty_db = Some (Inl e, D) \<and> lesson_run ''op'' 1 D = Some (Inl e, D)"
proof -
  obtain e D where run: "lesson_run ''op'' 1 empty_db = Some (Inl e, D)" and new: "db_Inbox D \<noteq> []" using lesson_stale by blast
  then have "D \<noteq> empty_db" by (auto simp: lesson_laws)
  then show ?thesis
    using rejection_final [OF run [unfolded lesson_run_def] _ lesson_laws(3,2,1) later.now] run
    by (auto simp: lesson_laws lesson_run_def)
qed

definition other_row :: inbox_row where
  "other_row = \<lparr>ib_RequestHash = ''other'', ib_Rejected = False, ib_AggregateType = [], ib_AggregateID = [], ib_Result = []\<rparr>"

theorem operation_bound_to_request_witness:
  "lesson_run ''op'' 0 (empty_db\<lparr>db_Inbox := [((''dev'', ''op''), other_row)]\<rparr>)
   = Some (Inl (err_code CodeIdempotencyConflict), empty_db\<lparr>db_Inbox := [((''dev'', ''op''), other_row)]\<rparr>)"
  (is "_ = Some (_, ?D)")
  unfolding lesson_run_def
proof (rule operation_bound_to_request [OF _ lesson_laws(3,2)])
  show "map_of (db_Inbox ?D) (ce_device store_caller, op_OperationID (acmd_Operation (lesson_start ''op'' 0))) = Some other_row"
    by (simp add: store_caller_def example_env_def lesson_start_def)
  show "lesson_hash \<noteq> hex_encode (ib_RequestHash other_row)"
  proof
    assume "lesson_hash = hex_encode (ib_RequestHash other_row)"
    then have "length lesson_hash = length (hex_encode (ib_RequestHash other_row))" by (rule arg_cong)
    then show False by (simp add: lesson_hash_def other_row_def length_hex_encode)
  qed
  show "validateSessionScope store_caller ''s'' = None" by (rule lesson_laws)
qed (simp_all add: example_store_def example_lib_def)

end
