(* ===== verification/Event_Log.thy ===== *)
theory Event_Log
  imports Store_Example
begin

text \<open>
  What a commit does to the event log. \<open>log_inv\<close> is the contract of the log: the events are numbered
  1, 2, ... without a gap and the clock is the last number; the events of each aggregate have the
  versions 1, 2, ... and its head is the last. Every operation of the store keeps it (the checks of
  the event table make it hold also where \<open>int64\<close> would wrap), a commit appends its events in order and
  only against the expected heads, and the active projection is always the replay of the whole log.
\<close>

section \<open>Numbered lists\<close>

definition numbered :: "int list \<Rightarrow> bool" where
  "numbered ns \<longleftrightarrow> ns = map int [1..<Suc (length ns)]"

lemma numbered_Nil [simp]: "numbered []"
  by (simp add: numbered_def)

lemma numbered_snoc [simp]: "numbered (ns @ [n]) \<longleftrightarrow> numbered ns \<and> n = int (length ns) + 1"
  by (auto simp: numbered_def)

lemma numbered_nth: "numbered ns \<Longrightarrow> i < length ns \<Longrightarrow> ns ! i = int i + 1"
proof -
  assume "numbered ns" "i < length ns"
  then have "ns ! i = map int [1..<Suc (length ns)] ! i" by (metis numbered_def)
  with \<open>i < length ns\<close> show ?thesis by (simp del: upt_Suc)
qed

lemma int64_next:
  assumes "in_int64 n" "0 \<le> n" "1 \<le> int64 (n + 1)"
  shows "int64 (n + 1) = n + 1" "in_int64 (n + 1)"
proof -
  have "n + 1 < 2 ^ 63"
  proof (rule ccontr)
    assume "\<not> n + 1 < 2 ^ 63"
    then have "n + 1 = 2 ^ 63" using assms(1) by (simp add: in_int64_def)
    moreover have "int64 (2 ^ 63) = - (2 ^ 63)" by (simp add: int64_def)
    ultimately show False using assms(3) by simp
  qed
  then show "in_int64 (n + 1)" using assms(2) by (simp add: in_int64_def)
  then show "int64 (n + 1) = n + 1" by simp
qed

section \<open>The log\<close>

abbreviation agg_key :: "LearningEvent \<Rightarrow> akey" where
  "agg_key e \<equiv> (le_AggregateType e, le_AggregateID e)"

definition agg_versions :: "akey \<Rightarrow> LearningEvent list \<Rightarrow> int list" where
  "agg_versions k es = map le_AggregateVersion (filter (\<lambda>e. agg_key e = k) es)"

lemma agg_versions_simps [simp]:
  "agg_versions k [] = []" "agg_versions k (es @ fs) = agg_versions k es @ agg_versions k fs"
  "agg_versions k (e # es) = (if agg_key e = k then [le_AggregateVersion e] else []) @ agg_versions k es"
  by (simp_all add: agg_versions_def)

definition log_inv :: "'r db \<Rightarrow> bool" where
  "log_inv D \<longleftrightarrow> numbered (map le_EventSequence (db_Events D)) \<and> db_Clock D = int (length (db_Events D)) \<and> in_int64 (db_Clock D)
     \<and> (\<forall>k. numbered (agg_versions k (db_Events D)) \<and> head_version D k = int (length (agg_versions k (db_Events D)))
          \<and> in_int64 (head_version D k))"

text \<open>The versions a commit works with are the heads of the log.\<close>

definition heads_of :: "(akey, int) gomap \<Rightarrow> LearningEvent list \<Rightarrow> bool" where
  "heads_of versions es \<longleftrightarrow> distinct (map fst versions)
     \<and> (\<forall>k v. map_of versions k = Some v \<longrightarrow> v = int (length (agg_versions k es)) \<and> in_int64 v)"

lemma event_insertable_positive: "event_insertable es e \<Longrightarrow> 1 \<le> le_EventSequence e \<and> 1 \<le> le_AggregateVersion e"
  by (simp add: event_insertable_def)

lemma insert_events_Inr: "insert_events log es = Inr log' \<Longrightarrow> log' = log @ es \<and> (\<forall>e \<in> set es. 1 \<le> le_EventSequence e \<and> 1 \<le> le_AggregateVersion e)"
  by (induction log es rule: insert_events.induct) (auto dest: event_insertable_positive split: if_splits)

lemma build_events_Inr:
  assumes "build_events S req first focus n versions (d # ds) = Inr (es, versions')"
  obtains v payload fs where "map_of versions (ed_AggregateType d, ed_AggregateID d) = Some v"
    "event_payload S (cb_Authority (cr_Batch req)) (int64 (v + 1)) focus d = Inr payload"
    "build_events S req first focus (Suc n) (AList.update (ed_AggregateType d, ed_AggregateID d) (int64 (v + 1)) versions) ds = Inr (fs, versions')"
    "es = make_event S req n (int64 (first + int n)) (int64 (v + 1)) d payload # fs"
  using assms by (auto simp: Let_def split: option.splits)

lemma make_event_fields [simp]:
  "le_EventSequence (make_event S req n i v d payload) = i" "le_AggregateVersion (make_event S req n i v d payload) = v"
  "le_AggregateType (make_event S req n i v d payload) = ed_AggregateType d" "le_Type (make_event S req n i v d payload) = ed_Type d"
  "le_AggregateID (make_event S req n i v d payload) = ed_AggregateID d" "le_Payload (make_event S req n i v d payload) = payload"
  "le_DeviceID (make_event S req n i v d payload) = cr_DeviceID req" "le_OperationOrdinal (make_event S req n i v d payload) = int n"
  "le_OperationID (make_event S req n i v d payload) = op_OperationID (cr_Operation req)"
  "le_SchemaVersion (make_event S req n i v d payload) = EventSchemaVersion" "le_Redacted (make_event S req n i v d payload) = False"
  "le_PayloadHash (make_event S req n i v d payload) = SHA256 (se_lib S) payload"
  by (simp_all add: make_event_def Let_def)

lemma built_versions:
  assumes "build_events S req first focus n versions ds = Inr (es, versions')"
    and "\<forall>e \<in> set es. 1 \<le> le_AggregateVersion e" and "heads_of versions log" and "\<forall>k. numbered (agg_versions k log)"
  shows "heads_of versions' (log @ es) \<and> (\<forall>k. numbered (agg_versions k (log @ es)))
    \<and> (\<forall>k. (map_of versions' k = None \<longleftrightarrow> map_of versions k = None) \<and> (map_of versions k = None \<longrightarrow> agg_versions k es = []))"
  using assms
proof (induction ds arbitrary: n versions es log)
  case (Cons d ds)
  let ?k = "(ed_AggregateType d, ed_AggregateID d)"
  obtain v payload fs where v: "map_of versions ?k = Some v"
    and rest: "build_events S req first focus (Suc n) (AList.update ?k (int64 (v + 1)) versions) ds = Inr (fs, versions')"
    and es: "es = make_event S req n (int64 (first + int n)) (int64 (v + 1)) d payload # fs"
    by (rule build_events_Inr [OF Cons.prems(1)])
  let ?e = "make_event S req n (int64 (first + int n)) (int64 (v + 1)) d payload"
  have len: "v = int (length (agg_versions ?k log))" and range: "in_int64 v" using Cons.prems(3) v by (auto simp: heads_of_def)
  have "1 \<le> int64 (v + 1)" using Cons.prems(2) es by auto
  then have next_v: "int64 (v + 1) = v + 1" "in_int64 (v + 1)" using int64_next [OF range] len by auto
  have heads: "heads_of (AList.update ?k (int64 (v + 1)) versions) (log @ [?e])"
    using Cons.prems(3) len next_v by (auto simp: heads_of_def distinct_keys_update split: if_splits)
  have nums: "\<forall>k. numbered (agg_versions k (log @ [?e]))"
    using Cons.prems(4) len next_v by auto
  have "\<forall>e \<in> set fs. 1 \<le> le_AggregateVersion e" using Cons.prems(2) es by simp
  note ih = Cons.IH [OF rest this heads nums]
  have "heads_of versions' (log @ es)" "\<forall>k. numbered (agg_versions k (log @ es))" using ih by (simp_all add: es)
  moreover have "(map_of versions' k = None \<longleftrightarrow> map_of versions k = None) \<and> (map_of versions k = None \<longrightarrow> agg_versions k es = [])" for k
  proof (cases "k = ?k")
    case False
    have "(map_of versions' k = None \<longleftrightarrow> map_of (AList.update ?k (int64 (v + 1)) versions) k = None)
       \<and> (map_of (AList.update ?k (int64 (v + 1)) versions) k = None \<longrightarrow> agg_versions k fs = [])" using ih by blast
    with False show ?thesis by (simp add: es)
  qed (use ih v in auto)
  ultimately show ?case by blast
qed simp

lemma built_sequences:
  "build_events S req first focus n versions ds = Inr (es, versions') \<Longrightarrow>
   map le_EventSequence es = map (\<lambda>i. int64 (first + int i)) [n..<n + length ds]"
proof (induction ds arbitrary: n versions es)
  case (Cons d ds)
  have "[n..<n + length (d # ds)] = n # [Suc n..<Suc n + length ds]" by (simp add: upt_conv_Cons del: upt_Suc)
  then show ?case
    by (rule_tac build_events_Inr [OF Cons.prems]) (use Cons.IH in \<open>simp del: upt_Suc\<close>)
qed simp

lemma int64_add: "int64 (int64 a + b) = int64 (a + b)"
  unfolding int64_def by (metis signed_take_bit_add signed_take_bit_signed_take_bit min.idem)

text \<open>Numbers from the clock on that pass the check of the table are the next ones.\<close>

lemma clock_numbers:
  assumes "in_int64 c" "0 \<le> c" "\<forall>i < m. 1 \<le> int64 (int64 (c + 1) + int i)"
  shows "i < m \<Longrightarrow> int64 (int64 (c + 1) + int i) = c + 1 + int i \<and> in_int64 (c + 1 + int i)"
proof (induction i)
  case 0
  then show ?case using int64_next [OF assms(1,2)] assms(3) by (auto simp: int64_add)
next
  case (Suc i)
  then have ih: "in_int64 (c + 1 + int i)" by simp
  have next_i: "int64 (int64 (c + 1) + int (Suc i)) = int64 (c + 1 + int i + 1)" by (simp only: int64_add) (simp add: ac_simps)
  then have "1 \<le> int64 (c + 1 + int i + 1)" using assms(3) Suc.prems by metis
  from int64_next [OF ih _ this] assms(2) show ?case unfolding next_i by (simp add: ac_simps)
qed

section \<open>The fences\<close>

abbreviation fence_key :: "AggregateExpectation \<Rightarrow> akey" where
  "fence_key x \<equiv> (ae_Type x, ae_ID x)"

lemma lock_heads_spec:
  assumes "lock_heads xs versions D = Inr (versions', F)" "distinct (map fst versions)"
  shows "(\<forall>k. head_version F k = head_version D k) \<and> distinct (map fst versions')
    \<and> (\<forall>k. map_of versions' k = (if k \<in> fence_key ` set xs then Some (head_version D k) else map_of versions k))
    \<and> (\<forall>x \<in> set xs. head_version D (fence_key x) = ae_ExpectedVersion x)"
  using assms
proof (induction xs versions D rule: lock_heads.induct)
  case (2 x xs versions D)
  let ?k = "fence_key x"
  have fresh: "map_of versions ?k = None" using 2(3) by (auto simp: Let_def split: if_splits)
  let ?D = "if map_of (db_Heads D) ?k = None then D\<lparr>db_Heads := AList.update ?k 0 (db_Heads D)\<rparr> else D"
  have now: "head_version D ?k = ae_ExpectedVersion x"
    and rest: "lock_heads xs (AList.update ?k (ae_ExpectedVersion x) versions) ?D = Inr (versions', F)"
    using 2(3) by (auto simp: Let_def head_version_def split: if_splits option.splits)
  have same: "head_version ?D k = head_version D k" for k by (auto simp: head_version_def)
  have "(\<forall>k. head_version F k = head_version ?D k) \<and> distinct (map fst versions')
    \<and> (\<forall>k. map_of versions' k = (if k \<in> fence_key ` set xs then Some (head_version ?D k)
         else map_of (AList.update ?k (ae_ExpectedVersion x) versions) k))
    \<and> (\<forall>y \<in> set xs. head_version ?D (fence_key y) = ae_ExpectedVersion y)"
  proof (cases "map_of (db_Heads D) ?k")
    case None
    then have "ae_ExpectedVersion x = 0" using now by (simp add: head_version_def)
    with 2(1) [OF HOL.refl HOL.refl] None fresh rest 2(4) show ?thesis by (simp add: distinct_keys_update)
  next
    case (Some current)
    then have "current = ae_ExpectedVersion x" using now by (simp add: head_version_def)
    with 2(2) [OF HOL.refl HOL.refl] Some fresh rest 2(4) show ?thesis by (simp add: distinct_keys_update)
  qed
  then show ?case unfolding same using now by (simp del: split_paired_All)
qed simp

definition headers :: "EventDraft list \<Rightarrow> (EventType \<times> akey) list" where
  "headers ds = map (\<lambda>d. (ed_Type d, (ed_AggregateType d, ed_AggregateID d))) ds"

lemma headers_set_event_payloads [simp]: "headers (set_event_payloads k v ds) = headers ds"
  by (simp add: headers_def set_event_payloads_def)

lemma headers_eq_Nil [simp]: "headers ds = [] \<longleftrightarrow> ds = []" "[] = headers ds \<longleftrightarrow> ds = []"
  by (auto simp: headers_def)

lemma prepare_eligibility_headers:
  "prepareOnlineEvidenceEligibility C D b = Inr b' \<Longrightarrow> headers (cb_Events b') = headers (cb_Events b)"
  by (auto simp: prepareOnlineEvidenceEligibility_def prepare_assessment_eligibility_def prepare_attempt_eligibility_def Let_def
      split: option.splits prod.splits if_splits)

lemma stampFreeQuestionVersion_headers:
  "stampFreeQuestionVersion S versions b = Inr b' \<Longrightarrow> headers (cb_Events b') = headers (cb_Events b)"
  by (auto simp: stampFreeQuestionVersion_def Let_def split: option.splits if_splits)

lemma stamp_evidence_event_header:
  "stamp_evidence_event S sequence d b = Inr (d', b') \<Longrightarrow>
   ed_Type d' = ed_Type d \<and> ed_AggregateType d' = ed_AggregateType d \<and> ed_AggregateID d' = ed_AggregateID d"
  by (auto simp: stamp_evidence_event_def Let_def split: if_splits sum.splits option.splits)

lemma stampAccepted_headers:
  "stampAcceptedEventSequences S sequence ds b = Inr (ds', b') \<Longrightarrow> headers ds' = headers ds"
proof (induction ds arbitrary: sequence b ds' b')
  case (Cons d ds)
  from Cons.prems obtain b0 d' b1 es where "stamp_evidence_event S sequence d b0 = Inr (d', b1)"
    "stampAcceptedEventSequences S (int64 (sequence + 1)) ds b1 = Inr (es, b')" "ds' = d' # es"
    by (auto simp: Let_def)
  with Cons.IH stamp_evidence_event_header [of S sequence d b0 d' b1] show ?case by (simp add: headers_def)
qed simp

lemma finalizeSessionResult_events:
  "finalizeSessionResult S versions focus b = Inr b' \<Longrightarrow> cb_Events b' = cb_Events b"
  by (auto simp: finalizeSessionResult_def Let_def split: option.splits if_splits)

lemma stamp_batch_Inr:
  assumes "stamp_batch S req versions D = Inr (es, versions', b)"
  obtains req' focus ds where
    "build_events S req' (int64 (db_Clock D + 1)) focus 0 versions ds = Inr (es, versions')"
    "headers ds = headers (cb_Events (cr_Batch req))" "ds \<noteq> []" "cb_Events b = ds"
    "cr_DeviceID req' = cr_DeviceID req" "cr_Operation req' = cr_Operation req"
proof -
  obtain b1 where 1: "prepareOnlineEvidenceEligibility (se_json S) D (cr_Batch req) = Inr b1" and ne: "cb_Events b1 \<noteq> []"
    using assms by (auto simp: stamp_batch_def split: if_splits)
  obtain b2 where 2: "stampFreeQuestionVersion S versions b1 = Inr b2"
    using assms 1 ne by (auto simp: stamp_batch_def)
  define first where "first = int64 (db_Clock D + 1)"
  define focus where "focus = focus_sequence first (cb_Events b2)"
  obtain ds b3 where 3: "stampAcceptedEventSequences S first (cb_Events b2) (b2\<lparr>cb_FocusFrame := map_option (stamp_frame focus) (cb_FocusFrame b2)\<rparr>) = Inr (ds, b3)"
    using assms 1 ne 2 by (auto simp: stamp_batch_def Let_def first_def focus_def)
  obtain es' vs' where 4: "build_events S (req\<lparr>cr_Batch := b3\<rparr>) first focus 0 versions ds = Inr (es', vs')"
    using assms 1 ne 2 3 by (auto simp: stamp_batch_def Let_def first_def focus_def)
  have 5: "es' = es" "vs' = versions'" "cb_Events b = ds"
    using assms 1 ne 2 3 4 by (auto simp: stamp_batch_def Let_def first_def focus_def dest: finalizeSessionResult_events)
  have h: "headers ds = headers (cb_Events (cr_Batch req))"
    using prepare_eligibility_headers [OF 1] stampFreeQuestionVersion_headers [OF 2] stampAccepted_headers [OF 3] by simp
  moreover have "ds \<noteq> []" using ne prepare_eligibility_headers [OF 1] h by (metis headers_eq_Nil(1))
  ultimately show thesis using that [of "req\<lparr>cr_Batch := b3\<rparr>" focus ds] 4 5 by (simp add: first_def)
qed

section \<open>A commit and the log\<close>

lemma map_of_advance_heads:
  "distinct (map fst vs) \<Longrightarrow> map_of (advance_heads vs hs) k = (case map_of vs k of Some v \<Rightarrow> Some v | None \<Rightarrow> map_of hs k)"
proof (induction vs arbitrary: hs)
  case (Cons p vs)
  obtain j v where p: "p = (j, v)" by fastforce
  have "map_of vs j = None" using Cons.prems by (simp add: p map_of_eq_None_iff)
  with Cons p show ?case by (simp add: advance_heads_def split: option.split)
qed (simp add: advance_heads_def)

lemma built_headers:
  "build_events S req first focus n versions ds = Inr (es, versions') \<Longrightarrow>
   map (\<lambda>e. (le_Type e, agg_key e)) es = headers ds
   \<and> (\<forall>e \<in> set es. le_DeviceID e = cr_DeviceID req \<and> le_OperationID e = op_OperationID (cr_Operation req))"
proof (induction ds arbitrary: n versions es versions')
  case (Cons d ds)
  show ?case
    by (rule build_events_Inr [OF Cons.prems]) (use Cons.IH in \<open>auto simp: headers_def\<close>)
qed (simp add: headers_def)

lemma appended_numbers:
  assumes "map le_EventSequence es = map (\<lambda>i. int64 (int64 (c + 1) + int i)) [0..<m]"
    and "\<forall>e \<in> set es. 1 \<le> le_EventSequence e" "in_int64 c" "c = int (length log)" "numbered (map le_EventSequence log)"
  shows "length es = m" "numbered (map le_EventSequence (log @ es))"
    and "es \<noteq> [] \<Longrightarrow> le_EventSequence (hd es) = c + 1 \<and> le_EventSequence (last es) = c + int (length es) \<and> in_int64 (c + int (length es))"
proof -
  note seqs = assms(1)
  show len: "length es = m" using arg_cong [OF seqs, of length] by simp
  have pos: "\<forall>i < m. 1 \<le> int64 (int64 (c + 1) + int i)"
  proof (intro allI impI)
    fix i assume "i < m"
    then have "int64 (int64 (c + 1) + int i) \<in> set (map le_EventSequence es)" unfolding seqs by auto
    with assms(2) show "1 \<le> int64 (int64 (c + 1) + int i)" by auto
  qed
  have nums: "i < m \<Longrightarrow> int64 (int64 (c + 1) + int i) = c + 1 + int i \<and> in_int64 (c + 1 + int i)" for i
    using clock_numbers [OF assms(3) _ pos] assms(4) by simp
  then have new: "map le_EventSequence es = map (\<lambda>i. c + 1 + int i) [0..<length es]"
    unfolding seqs len by simp
  have "map int [1..<Suc (length log + length es)] = map int [1..<Suc (length log)] @ map (\<lambda>i. c + 1 + int i) [0..<length es]"
    by (rule nth_equalityI) (auto simp: nth_append assms(4) simp del: upt_Suc)
  moreover have "map le_EventSequence log = map int [1..<Suc (length log)]"
    using assms(5) by (simp add: numbered_def)
  ultimately show "numbered (map le_EventSequence (log @ es))"
    unfolding numbered_def map_append new by (simp del: upt_Suc)
  assume ne: "es \<noteq> []"
  then have pos: "0 < length es" by simp
  have at: "i < length es \<Longrightarrow> le_EventSequence (es ! i) = c + 1 + int i" for i
    using arg_cong [OF new, of "\<lambda>xs. xs ! i"] by simp
  have "le_EventSequence (hd es) = c + 1" using at [of 0] pos ne by (simp add: hd_conv_nth)
  moreover have "le_EventSequence (last es) = c + int (length es)"
    using at [of "length es - 1"] pos ne by (simp add: last_conv_nth of_nat_diff)
  moreover have "in_int64 (c + int (length es))"
    using nums [of "length es - 1"] pos len by (simp add: of_nat_diff)
  ultimately show "le_EventSequence (hd es) = c + 1 \<and> le_EventSequence (last es) = c + int (length es) \<and> in_int64 (c + int (length es))"
    by blast
qed

lemma built_numbers:
  assumes "build_events S req (int64 (c + 1)) focus 0 versions ds = Inr (es, versions')"
    and "\<forall>e \<in> set es. 1 \<le> le_EventSequence e" "in_int64 c" "c = int (length log)" "numbered (map le_EventSequence log)"
  shows "length es = length ds" "numbered (map le_EventSequence (log @ es))"
    and "es \<noteq> [] \<Longrightarrow> le_EventSequence (hd es) = c + 1 \<and> le_EventSequence (last es) = c + int (length es) \<and> in_int64 (c + int (length es))"
  using appended_numbers [OF _ assms(2-5), of "length ds"] built_sequences [OF assms(1)] by simp_all

lemma commit_log:
  assumes "commit_body S req D = Inr (r, D')" "log_inv D"
  obtains es where "log_inv D'" "es \<noteq> []" "db_Events D' = db_Events D @ es"
    "map (\<lambda>e. (le_Type e, agg_key e)) es = headers (cb_Events (cr_Batch req))"
    "\<forall>e \<in> set es. le_DeviceID e = cr_DeviceID req \<and> le_OperationID e = op_OperationID (cr_Operation req)"
    "\<forall>x \<in> set (cr_Expectations req). head_version D (fence_key x) = ae_ExpectedVersion x"
    "\<forall>k. k \<notin> fence_key ` set (cr_Expectations req) \<longrightarrow> head_version D' k = head_version D k"
    "res_FirstEventSequence r = db_Clock D + 1" "res_LastEventSequence r = db_Clock D'"
proof (rule commit_body_Inr [OF assms(1)])
  fix versions other and F E :: "'a db" and es versions' b
  let ?H = "D\<lparr>db_Other := other\<rparr>"
  assume lock: "lock_heads (go_sort expectation_less (cr_Expectations req)) [] ?H = Inr (versions, F)"
    and E: "db_Heads E = db_Heads F" "db_Clock E = db_Clock D" "db_Events E = db_Events D"
    and stamp: "stamp_batch S req versions E = Inr (es, versions', b)"
    and wb: "write_batch S req es versions' b E = Inr (r, D')"
  have hv: "head_version ?H k = head_version D k" for k by (simp add: head_version_def)
  note heads = lock_heads_spec [OF lock, unfolded hv, simplified list.map distinct.simps set_go_sort, OF TrueI]
  obtain req' focus ds where build: "build_events S req' (int64 (db_Clock E + 1)) focus 0 versions ds = Inr (es, versions')"
    and ds: "headers ds = headers (cb_Events (cr_Batch req))" "ds \<noteq> []"
    and own: "cr_DeviceID req' = cr_DeviceID req" "cr_Operation req' = cr_Operation req"
    by (rule stamp_batch_Inr [OF stamp])
  obtain log where ins: "insert_events (db_Events E) es = Inr log"
    and D': "db_Events D' = log" "db_Heads D' = advance_heads versions' (db_Heads E)" "db_Clock D' = le_EventSequence (last es)"
    and r: "r = commit_result req b versions' es"
    by (rule write_batch_Inr [OF wb])
  note ins = insert_events_Inr [OF ins]
  have log: "log = db_Events D @ es" and pos: "\<forall>e \<in> set es. 1 \<le> le_EventSequence e" "\<forall>e \<in> set es. 1 \<le> le_AggregateVersion e"
    using ins by (simp_all add: E)
  have inv: "numbered (map le_EventSequence (db_Events D))" "db_Clock D = int (length (db_Events D))" "in_int64 (db_Clock D)"
    "\<forall>k. numbered (agg_versions k (db_Events D))" "\<forall>k. head_version D k = int (length (agg_versions k (db_Events D)))"
    "\<forall>k. in_int64 (head_version D k)"
    using assms(2) unfolding log_inv_def by blast+
  note numbers = built_numbers [OF build [unfolded E] pos(1) inv(3,2,1)]
  have es: "es \<noteq> []" using numbers(1) ds(2) by auto
  have vs: "map_of versions k = (if k \<in> fence_key ` set (cr_Expectations req) then Some (head_version D k) else None)" for k
    using heads unfolding map_of.simps by blast
  have "heads_of versions (db_Events D)"
    unfolding heads_of_def
  proof (intro conjI allI impI)
    fix k v assume "map_of versions k = Some v"
    then have "v = head_version D k" unfolding vs by (auto split: if_splits)
    then show "v = int (length (agg_versions k (db_Events D)))" "in_int64 v" using inv(5,6) by metis+
  qed (use heads in blast)
  note built = built_versions [OF build pos(2) this inv(4)]
  have heads': "head_version D' k = int (length (agg_versions k (db_Events D @ es))) \<and> in_int64 (head_version D' k)
      \<and> (k \<notin> fence_key ` set (cr_Expectations req) \<longrightarrow> head_version D' k = head_version D k)" for k
  proof (cases "map_of versions' k")
    case None
    have "map_of versions k = None \<and> agg_versions k es = []" using built None by blast
    moreover have "head_version D' k = head_version F k"
      using built None by (simp add: head_version_def D'(2) map_of_advance_heads heads_of_def E)
    moreover have "head_version F k = head_version D k" using heads by blast
    moreover have "head_version D k = int (length (agg_versions k (db_Events D)))" "in_int64 (head_version D k)" using inv(5,6) by blast+
    ultimately show ?thesis by simp
  next
    case (Some v)
    have "map_of versions k \<noteq> None" using built Some by (metis option.distinct(1))
    then have "k \<in> fence_key ` set (cr_Expectations req)" unfolding vs by (auto split: if_splits)
    moreover have "head_version D' k = v" using built Some by (simp add: head_version_def D'(2) map_of_advance_heads heads_of_def)
    moreover have "v = int (length (agg_versions k (db_Events D @ es))) \<and> in_int64 v"
      using built Some unfolding heads_of_def by blast
    ultimately show ?thesis by blast
  qed
  show thesis
  proof (rule that [of es])
    show "log_inv D'"
      unfolding log_inv_def
    proof (intro conjI allI)
      fix k show "numbered (agg_versions k (db_Events D'))" unfolding D'(1) log using built by blast
    next
      fix k show "head_version D' k = int (length (agg_versions k (db_Events D')))" "in_int64 (head_version D' k)"
        unfolding D'(1) log using heads' [of k] by blast+
    qed (use numbers(2,3) es inv(2) in \<open>simp_all add: D'(1,3) log\<close>)
    show "res_FirstEventSequence r = db_Clock D + 1" "res_LastEventSequence r = db_Clock D'"
      using numbers(3) es by (simp_all add: r commit_result_def Let_def D'(3))
    show "\<forall>k. k \<notin> fence_key ` set (cr_Expectations req) \<longrightarrow> head_version D' k = head_version D k"
      using heads' by blast
    show "\<forall>x \<in> set (cr_Expectations req). head_version D (fence_key x) = ae_ExpectedVersion x" using heads by blast
  qed (use es D'(1) log built_headers [OF build] ds(1) own in auto)
qed

section \<open>Every operation keeps the log\<close>

lemma log_inv_inbox [simp]: "log_inv (D\<lparr>db_Inbox := rows\<rparr>) = log_inv D"
  by (simp add: log_inv_def head_version_def)

lemma Commit_log_inv: "log_inv D \<Longrightarrow> log_inv (snd (Commit S req D))"
proof -
  assume inv: "log_inv D"
  obtain x D' where c: "Commit S req D = (x, D')" by fastforce
  then show ?thesis
    by (cases rule: Commit_cases) (use c inv in \<open>auto elim: commit_log\<close>)
qed

lemma ArchiveRejection_log_inv: "log_inv D \<Longrightarrow> log_inv (snd (ArchiveRejection S space rejection D))"
proof -
  assume inv: "log_inv D"
  obtain x D' where c: "ArchiveRejection S space rejection D = (x, D')" by fastforce
  then show ?thesis
    by (cases rule: archive_cases) (use c inv in \<open>auto elim: archive_row_Inr\<close>)
qed

text \<open>An invariant both writers keep is kept by every operation of the service.\<close>

definition store_step :: "'r store_env \<Rightarrow> ('r \<Rightarrow> error option) \<Rightarrow> 'r db \<Rightarrow> CommitRequest + OperationRejection \<Rightarrow> error + 'r db" where
  "store_step S space D c = Inr (case c of Inl req \<Rightarrow> snd (Commit S req D) | Inr rejection \<Rightarrow> snd (ArchiveRejection S space rejection D))"

lemma operation_reaches:
  assumes "authorityOperation (learning_archive S space) device op hash clock execute D = Some (x, D')"
  shows "reaches (store_step S space) D D'"
proof -
  have commit: "Commit S req E = (y, E') \<Longrightarrow> reaches (store_step S space) D E \<Longrightarrow> reaches (store_step S space) D E'" for req E y E'
    using reaches.step [of "store_step S space" D E "Inl req" E'] by (simp add: store_step_def)
  have archive: "ArchiveRejection S space rejection E = (y, E') \<Longrightarrow> reaches (store_step S space) D E \<Longrightarrow> reaches (store_step S space) D E'"
    for rejection E y E'
    using reaches.step [of "store_step S space" D E "Inr rejection" E'] by (simp add: store_step_def)
  from assms show ?thesis
    by (cases rule: authority_cases) (simp_all, (blast intro: reaches.refl commit archive)+)
qed

lemma later_reaches: "later (learning_archive S space) D D' \<Longrightarrow> reaches (store_step S space) D D'"
  by (induction rule: later.induct) (auto intro: reaches.refl reaches_trans operation_reaches)

interpretation event_log: guarded_machine "store_step S space" log_inv for S :: "'r store_env" and space
  by unfold_locales (auto simp: store_step_def Commit_log_inv ArchiveRejection_log_inv split: sum.splits)

section \<open>The projection is the replay of the log\<close>

definition projection_current :: "'r store_env \<Rightarrow> 'r db \<Rightarrow> bool" where
  "projection_current S D \<longleftrightarrow> (\<exists>g events. map_of (db_Generations D) (db_Active D) = Some g
     \<and> loadEvents S D 0 (db_Clock D) = Inr events
     \<and> Replay (se_lib S) (se_events S) events (NewEventRegistry (se_lib S)) (db_Active D) = (gen_Projection g, None)
     \<and> gen_Checkpoint g = db_Clock D
     \<and> ProjectionFingerprint (se_lib S) (se_events S) (gen_Projection g) = Inr (gen_Fingerprint g))"

lemma loadEvents_cong: "db_Events D = db_Events E \<Longrightarrow> loadEvents S D a b = loadEvents S E a b"
  by (simp add: loadEvents_def)

lemma project_commit_current:
  assumes "project_commit S high F = Inr D" "db_Clock D = high"
  shows "projection_current S D"
proof (rule project_commit_Inr [OF assms(1)])
  fix events p
  assume load: "loadEvents S F 0 high = Inr events"
    and replay: "Replay (se_lib S) (se_events S) events (NewEventRegistry (se_lib S)) (db_Active F) = (p, None)"
    and rp: "replaceProjection S (db_Active F) p high F = Inr D"
  show ?thesis
    by (rule replaceProjection_Inr [OF rp])
       (use load replay assms(2) loadEvents_cong [of F D S] in \<open>auto simp: projection_current_def\<close>)
qed

lemma projection_current_inbox [simp]: "projection_current S (D\<lparr>db_Inbox := rows\<rparr>) = projection_current S D"
  unfolding projection_current_def using loadEvents_cong [of "D\<lparr>db_Inbox := rows\<rparr>" D S] by simp

lemma commit_projection_current:
  assumes "commit_body S req D = Inr (r, D')" shows "projection_current S D'"
proof (rule commit_body_Inr [OF assms])
  fix versions other and F E :: "'a db" and es versions' b
  assume wb: "write_batch S req es versions' b E = Inr (r, D')"
  obtain G G' log where p: "project_commit S (db_Clock D') G = Inr G'" and same: "db_Events G = db_Events D'" "db_Active G = db_Active D'"
      "db_Generations D' = db_Generations G'"
    by (rule write_batch_Inr [OF wb]) auto
  show "projection_current S D'"
  proof (rule project_commit_Inr [OF p])
    fix events p
    assume load: "loadEvents S G 0 (db_Clock D') = Inr events"
      and replay: "Replay (se_lib S) (se_events S) events (NewEventRegistry (se_lib S)) (db_Active G) = (p, None)"
      and rp: "replaceProjection S (db_Active G) p (db_Clock D') G = Inr G'"
    show ?thesis
      by (rule replaceProjection_Inr [OF rp])
         (use load replay same loadEvents_cong [OF same(1), of S] in \<open>auto simp: projection_current_def\<close>)
  qed
qed

lemma store_step_projection: "projection_current S D \<Longrightarrow> store_step S space D c = Inr D' \<Longrightarrow> projection_current S D'"
proof (cases c)
  case (Inl req)
  assume inv: "projection_current S D" and step: "store_step S space D c = Inr D'"
  obtain x E where e: "Commit S req D = (x, E)" by fastforce
  then have "E = D'" using step Inl by (simp add: store_step_def)
  from e this inv show ?thesis
    by (cases rule: Commit_cases) (auto intro: commit_projection_current)
next
  case (Inr rejection)
  assume inv: "projection_current S D" and step: "store_step S space D c = Inr D'"
  obtain x E where e: "ArchiveRejection S space rejection D = (x, E)" by fastforce
  then have "E = D'" using step Inr by (simp add: store_step_def)
  from e this inv show ?thesis
    by (cases rule: archive_cases) (auto elim: archive_row_Inr)
qed

interpretation projected: guarded_machine "store_step S space" "projection_current S" for S :: "'r store_env" and space
  by unfold_locales (rule store_step_projection)

section \<open>The log only grows\<close>

definition grown :: "'r db \<Rightarrow> 'r db \<Rightarrow> bool" where
  "grown D E \<longleftrightarrow> log_inv E \<and> prefix (db_Events D) (db_Events E)"

lemma Commit_events: "log_inv D \<Longrightarrow> prefix (db_Events D) (db_Events (snd (Commit S req D)))"
proof -
  assume inv: "log_inv D"
  obtain x D' where c: "Commit S req D = (x, D')" by fastforce
  then show ?thesis by (cases rule: Commit_cases) (use c inv in \<open>auto elim: commit_log\<close>)
qed

lemma ArchiveRejection_events: "db_Events (snd (ArchiveRejection S space rejection D)) = db_Events D"
proof -
  obtain x D' where c: "ArchiveRejection S space rejection D = (x, D')" by fastforce
  then show ?thesis by (cases rule: archive_cases) (use c in \<open>auto elim: archive_row_Inr\<close>)
qed

interpretation growing: guarded_machine "store_step S space" "grown D" for S :: "'r store_env" and space D
proof unfold_locales
  fix E F c assume g: "grown D E" and step: "store_step S space E c = Inr F"
  have "log_inv F" using event_log.step_inv g step by (auto simp: grown_def)
  moreover have "prefix (db_Events E) (db_Events F)"
    using g step Commit_events by (auto simp: store_step_def grown_def ArchiveRejection_events split: sum.splits)
  ultimately show "grown D F" using g by (auto simp: grown_def intro: prefix_order.trans)
qed

lemma later_grown: "log_inv D \<Longrightarrow> later (learning_archive S space) D D' \<Longrightarrow> grown D D'"
  using growing.reaches_inv [OF later_reaches, of S space D D' D] by (simp add: grown_def)

lemma log_inv_head: "log_inv D \<Longrightarrow> head_version D k = int (length (agg_versions k (db_Events D)))"
  unfolding log_inv_def by blast

lemma grown_heads: "log_inv D \<Longrightarrow> grown D E \<Longrightarrow> head_version D k \<le> head_version E k"
  by (auto simp: grown_def log_inv_head prefix_def)

text \<open>
  C4: The event log is an append-only log without gaps. From a log that is one, any number of operations
  of any device leads to a log that is one: the events are numbered 1, 2, ..., the clock is the last
  number, the events of every aggregate have the versions 1, 2, ..., its head is the last of them, and
  none of the numbers has overflowed; the earlier events stand where they stood, and no head goes back.
\<close>

theorem log_kept:
  assumes "log_inv D" "later (learning_archive S space) D D'"
  shows "log_inv D' \<and> prefix (db_Events D) (db_Events D') \<and> head_version D k \<le> head_version D' k"
  using later_grown [OF assms] grown_heads [OF assms(1)] by (auto simp: grown_def)

text \<open>
  C8: What a commit does to the log. A command that is committed (not found in the archive) had every expected
  version equal to the aggregate's head; exactly its drafts are appended, in their order, as events of
  its device and operation; the heads of the aggregates it did not fence stay; and the answer names the
  first and last number of its events, the last being the clock.
\<close>

theorem commit_appends_drafts:
  assumes "Commit S req D = (Inr r, D')" "lookupArchivedOperation S (request_lookup req) D = NotFound" "log_inv D"
  shows "\<exists>es. db_Events D' = db_Events D @ es \<and> map (\<lambda>e. (le_Type e, agg_key e)) es = headers (cb_Events (cr_Batch req))
    \<and> (\<forall>e \<in> set es. le_DeviceID e = cr_DeviceID req \<and> le_OperationID e = op_OperationID (cr_Operation req))
    \<and> (\<forall>x \<in> set (cr_Expectations req). head_version D (fence_key x) = ae_ExpectedVersion x)
    \<and> (\<forall>k. k \<notin> fence_key ` set (cr_Expectations req) \<longrightarrow> head_version D' k = head_version D k)
    \<and> res_FirstEventSequence r = db_Clock D + 1 \<and> res_LastEventSequence r = db_Clock D' \<and> es \<noteq> []"
  using assms(1)
proof (cases rule: Commit_cases)
  case (committed r')
  then have "commit_body S req D = Inr (r, D')" by simp
  from commit_log [OF this assms(3)] show ?thesis by (smt (verit))
qed (use assms(2) in auto)

text \<open>A head moves with every event of its aggregate.\<close>

lemma commit_head_moves:
  assumes "commit_body S req D = Inr (r, D')" "log_inv D" "k \<in> snd ` set (headers (cb_Events (cr_Batch req)))"
  shows "head_version D k < head_version D' k"
proof (rule commit_log [OF assms(1,2)])
  fix es assume inv: "log_inv D'" and es: "db_Events D' = db_Events D @ es"
    "map (\<lambda>e. (le_Type e, agg_key e)) es = headers (cb_Events (cr_Batch req))"
  have "k \<in> snd ` set (map (\<lambda>e. (le_Type e, agg_key e)) es)" using assms(3) by (simp only: es(2))
  then have "agg_versions k es \<noteq> []" by (auto simp: agg_versions_def filter_empty_conv)
  then show ?thesis using log_inv_head [OF inv, of k] log_inv_head [OF assms(2), of k] by (simp add: es(1))
qed

text \<open>
  C2: No update is lost. When a command has been committed that wrote an event of an aggregate, a command
  that still expects the version before it (another device that read the aggregate earlier) can never be
  committed afterwards, whatever happens in between: it is answered with an error and changes nothing.
\<close>

theorem no_lost_update:
  assumes "Commit S first D = (Inr r, D')" "lookupArchivedOperation S (request_lookup first) D = NotFound" "log_inv D"
    and "k \<in> snd ` set (headers (cb_Events (cr_Batch first)))"
    and "later (learning_archive S space) D' D''" "lookupArchivedOperation S (request_lookup late) D'' = NotFound"
    and "x \<in> set (cr_Expectations late)" "fence_key x = k" "ae_ExpectedVersion x = head_version D k"
  shows "\<exists>e. Commit S late D'' = (Inl e, D'')"
proof -
  have body: "commit_body S first D = Inr (r, D')"
    using assms(1) by (rule Commit_cases) (use assms(2) in auto)
  have "log_inv D'" by (rule commit_log [OF body assms(3)])
  then have g: "grown D' D''" and moved: "head_version D k < head_version D' k" "head_version D' k \<le> head_version D'' k"
    using later_grown [OF _ assms(5)] commit_head_moves [OF body assms(3,4)] grown_heads by blast+
  obtain y E where c: "Commit S late D'' = (y, E)" by fastforce
  then show ?thesis
  proof (cases rule: Commit_cases)
    case (committed r')
    have "log_inv D''" using g by (simp add: grown_def)
    from commit_log [OF committed(3) this] have "head_version D'' k = head_version D k"
      using assms(7-9) by metis
    with moved show ?thesis by simp
  qed (use c assms(6) in auto)
qed

text \<open>
  C3: The projection is never stale. After a command has been committed, and after any number of operations
  since, the active generation is the replay of the whole log up to the clock, with the clock as its
  checkpoint and its own fingerprint.
\<close>

theorem projection_always_current:
  assumes "Commit S req D = (Inr r, D')" "lookupArchivedOperation S (request_lookup req) D = NotFound"
    and "later (learning_archive S space) D' D''"
  shows "\<exists>g events. map_of (db_Generations D'') (db_Active D'') = Some g
     \<and> loadEvents S D'' 0 (db_Clock D'') = Inr events
     \<and> Replay (se_lib S) (se_events S) events (NewEventRegistry (se_lib S)) (db_Active D'') = (gen_Projection g, None)
     \<and> gen_Checkpoint g = db_Clock D''
     \<and> ProjectionFingerprint (se_lib S) (se_events S) (gen_Projection g) = Inr (gen_Fingerprint g)"
proof -
  have "commit_body S req D = Inr (r, D')"
    using assms(1) by (rule Commit_cases) (use assms(2) in auto)
  then have "projection_current S D'" by (rule commit_projection_current)
  then have "projection_current S D''" using projected.reaches_inv [OF later_reaches [OF assms(3)]] by blast
  then show ?thesis unfolding projection_current_def .
qed

section \<open>The example store\<close>

definition unfound :: "'r store_env \<Rightarrow> CommitRequest \<Rightarrow> 'r db \<Rightarrow> bool" where
  "unfound S req D = (case lookupArchivedOperation S (request_lookup req) D of NotFound \<Rightarrow> True | _ \<Rightarrow> False)"

lemma unfound: "unfound S req D \<Longrightarrow> lookupArchivedOperation S (request_lookup req) D = NotFound"
  by (simp add: unfound_def split: lookup_answer.splits)

text \<open>The committed request of the lesson, and the same action sent by a client that has not seen the commit.\<close>

definition two_lessons :: "(CommitRequest \<times> CommitRequest) option" where
  "two_lessons = (case (applyAction store_caller ''s'' (lesson_start ''op'' 0), applyAction store_caller ''s'' (lesson_start ''late'' 0)) of
     (Some (Inr req), Some (Inr late)) \<Rightarrow> Some (req, late) | _ \<Rightarrow> None)"

lemma two_lessons:
  obtains req late r D where "Commit example_store req empty_db = (Inr r, D)" "unfound example_store req empty_db"
    "unfound example_store late D" "(''session'', ''s'') \<in> snd ` set (headers (cb_Events (cr_Batch req)))"
    "cr_Expectations late = [session_fence new_session 0]"
proof -
  have eval: "case two_lessons of None \<Rightarrow> False | Some (req, late) \<Rightarrow>
      (case Commit example_store req empty_db of (y, D) \<Rightarrow> (case y of Inl e \<Rightarrow> False | Inr r \<Rightarrow>
         unfound example_store req empty_db \<and> unfound example_store late D
         \<and> (''session'', ''s'') \<in> snd ` set (headers (cb_Events (cr_Batch req)))
         \<and> cr_Expectations late = [session_fence new_session 0]))"
    by code_simp
  then obtain req late where two: "two_lessons = Some (req, late)" by (auto split: option.splits)
  obtain y D where c: "Commit example_store req empty_db = (y, D)" by fastforce
  note known = eval [unfolded two option.case prod.case c]
  then obtain r where "y = Inr r" by (cases y) simp_all
  with known c show thesis by (intro that [of req r D late]) simp_all
qed

lemma empty_log_inv: "log_inv empty_db"
  by (simp add: log_inv_def empty_db_def head_version_def in_int64_def)

theorem log_kept_witness:
  "\<exists>x D. lesson_run ''op'' 0 empty_db = Some (x, D) \<and> db_Clock D = 1 \<and> log_inv D"
proof -
  obtain r D where run: "lesson_run ''op'' 0 empty_db = Some (Inr r, D)" "db_Clock D = 1" using lesson_committed by blast
  then have "later example_archive empty_db D"
    by (auto simp: lesson_run_def ApplyAction_def Let_def lesson_laws intro: later.operation [OF later.now])
  with run log_kept [OF empty_log_inv] show ?thesis by blast
qed

theorem commit_appends_drafts_witness:
  "\<exists>req r D. Commit example_store req empty_db = (Inr r, D) \<and> db_Events D \<noteq> [] \<and> res_LastEventSequence r = db_Clock D"
proof (rule two_lessons)
  fix req late r D
  assume c: "Commit example_store req empty_db = (Inr r, D)" and u: "unfound example_store req empty_db"
  obtain es where "db_Events D = db_Events empty_db @ es" "es \<noteq> []" "res_LastEventSequence r = db_Clock D"
    using commit_appends_drafts [OF c unfound [OF u] empty_log_inv] by blast
  with c show ?thesis by (intro exI [of _ req] exI [of _ r] exI [of _ D]) simp
qed

theorem no_lost_update_witness:
  "\<exists>req late r e D. Commit example_store req empty_db = (Inr r, D) \<and> Commit example_store late D = (Inl e, D)"
proof (rule two_lessons)
  fix req late r D
  assume c: "Commit example_store req empty_db = (Inr r, D)" and u: "unfound example_store req empty_db" "unfound example_store late D"
    and k: "(''session'', ''s'') \<in> snd ` set (headers (cb_Events (cr_Batch req)))"
    and x: "cr_Expectations late = [session_fence new_session 0]"
  have fence: "fence_key (session_fence new_session 0) = (''session'', ''s'')"
    "ae_ExpectedVersion (session_fence new_session 0) = head_version empty_db (''session'', ''s'')"
    by (simp_all add: session_fence_def new_session_def ready_session_def lesson_defs empty_db_def head_version_def)
  have "session_fence new_session 0 \<in> set (cr_Expectations late)" by (simp add: x)
  from no_lost_update [OF c unfound [OF u(1)] empty_log_inv k later.now unfound [OF u(2)] this fence] c show ?thesis by blast
qed

theorem projection_always_current_witness:
  "\<exists>(D :: unit db) g. log_inv D \<and> db_Clock D \<noteq> 0 \<and> map_of (db_Generations D) (db_Active D) = Some g \<and> gen_Checkpoint g = db_Clock D"
proof (rule two_lessons)
  fix req late r D
  assume c: "Commit example_store req empty_db = (Inr r, D)" and u: "unfound example_store req empty_db"
  have "commit_body example_store req empty_db = Inr (r, D)"
    using c by (rule Commit_cases) (use unfound [OF u] in auto)
  from commit_log [OF this empty_log_inv] obtain es where "log_inv D" "db_Events D = db_Events empty_db @ es" "es \<noteq> []" by metis
  moreover from this have "db_Clock D = int (length (db_Events D))" unfolding log_inv_def by blast
  ultimately have "log_inv D" "db_Clock D \<noteq> 0" by (simp_all add: add_nonneg_eq_0_iff)
  moreover obtain g where "map_of (db_Generations D) (db_Active D) = Some g" "gen_Checkpoint g = db_Clock D"
    using projection_always_current [OF c unfound [OF u] later.now] by (elim exE conjE)
  ultimately show ?thesis by (intro exI [of _ D] exI [of _ g]) simp
qed

end
