(* ===== verification/Versioned_Log.thy ===== *)
theory Versioned_Log
  imports Event_Log
begin

text \<open>
  What the store promises, without its tables. A \<open>vlog\<close> is a list of entries (the kind and the aggregate of each
  event) and the set of operations that are settled. It has two operations: append entries for an
  operation, if every fence names the number of entries of its aggregate, and settle an operation
  with a rejection. No sequence numbers, heads, clock, payloads or projection: the store of theory
  \<open>Store\<close> refines it: every run of the store is the run of it on what the store answered (\<open>store_action\<close>).
\<close>

section \<open>The specification\<close>

record vlog =
  vl_Entries :: "(EventType \<times> akey) list"
  vl_Settled :: "akey set"

datatype vlog_action =
    Append akey "(akey \<times> int) list" "(EventType \<times> akey) list"
  | Settle akey

definition vlog_version :: "vlog \<Rightarrow> akey \<Rightarrow> int" where
  "vlog_version V k = int (length (filter (\<lambda>e. snd e = k) (vl_Entries V)))"

fun vlog_step :: "vlog \<Rightarrow> vlog_action \<Rightarrow> unit + vlog" where
  "vlog_step V (Append operation fences entries) =
     (if operation \<in> vl_Settled V \<or> entries = [] \<or> (\<exists>(k, v) \<in> set fences. vlog_version V k \<noteq> v) then Inl ()
      else Inr (V\<lparr>vl_Entries := vl_Entries V @ entries, vl_Settled := insert operation (vl_Settled V)\<rparr>))"
| "vlog_step V (Settle operation) =
     (if operation \<in> vl_Settled V then Inl () else Inr (V\<lparr>vl_Settled := insert operation (vl_Settled V)\<rparr>))"

declare vlog_step.simps [simp del]

section \<open>Simulation\<close>

text \<open>
  A run of the specification in which every action succeeds, and the actions a run of an implementation stands for:
  each command's \<open>label\<close>, in the state it meets.
\<close>

fun all_succeed :: "('a \<Rightarrow> 'd \<Rightarrow> 'f + 'a) \<Rightarrow> 'a \<Rightarrow> 'd list \<Rightarrow> 'f + 'a" where
  "all_succeed step a [] = Inr a"
| "all_succeed step a (d # ds) = (case step a d of Inl e \<Rightarrow> Inl e | Inr b \<Rightarrow> all_succeed step b ds)"

fun labels :: "('s \<Rightarrow> 'c \<Rightarrow> 'e + 's) \<Rightarrow> ('s \<Rightarrow> 'c \<Rightarrow> 'd list) \<Rightarrow> 's \<Rightarrow> 'c list \<Rightarrow> 'd list" where
  "labels step label s [] = []"
| "labels step label s (c # cs) =
     (case step s c of Inl _ \<Rightarrow> labels step label s cs | Inr t \<Rightarrow> label s c @ labels step label t cs)"

lemma all_succeed_append:
  "all_succeed step a (ds @ es) = (case all_succeed step a ds of Inl e \<Rightarrow> Inl e | Inr b \<Rightarrow> all_succeed step b es)"
  by (induction ds arbitrary: a) (auto split: sum.split)

locale simulation =
  fixes concrete :: "'s \<Rightarrow> 'c \<Rightarrow> 'e + 's"
    and abstract :: "'a \<Rightarrow> 'd \<Rightarrow> 'f + 'a"
    and abstraction :: "'s \<Rightarrow> 'a"
    and label :: "'s \<Rightarrow> 'c \<Rightarrow> 'd list"
    and good :: "'s \<Rightarrow> bool"
  assumes good_step: "good s \<Longrightarrow> concrete s c = Inr t \<Longrightarrow> good t"
    and simulates: "good s \<Longrightarrow> concrete s c = Inr t \<Longrightarrow> all_succeed abstract (abstraction s) (label s c) = Inr (abstraction t)"
begin

lemma run_simulated:
  "good s \<Longrightarrow> all_succeed abstract (abstraction s) (labels concrete label s cs) = Inr (abstraction (run concrete s cs))"
proof (induction cs arbitrary: s)
  case (Cons c cs)
  then show ?case
    by (cases "concrete s c") (simp_all add: all_succeed_append simulates good_step)
qed simp

end

text \<open>An operation takes effect once in a run of the specification.\<close>

fun action_key :: "vlog_action \<Rightarrow> akey" where
  "action_key (Append operation fences entries) = operation"
| "action_key (Settle operation) = operation"

lemma vlog_step_settles:
  "vlog_step V d = Inr W \<Longrightarrow> action_key d \<notin> vl_Settled V \<and> vl_Settled W = insert (action_key d) (vl_Settled V)"
  by (cases d) (auto simp: vlog_step.simps split: if_splits)

lemma vlog_run_once:
  "all_succeed vlog_step V ds = Inr W \<Longrightarrow>
   distinct (map action_key ds) \<and> vl_Settled W = vl_Settled V \<union> action_key ` set ds \<and> vl_Settled V \<inter> action_key ` set ds = {}"
proof (induction ds arbitrary: V)
  case (Cons d ds)
  then obtain U where u: "vlog_step V d = Inr U" "all_succeed vlog_step U ds = Inr W" by (auto split: sum.splits)
  from Cons.IH [OF u(2)] vlog_step_settles [OF u(1)] show ?case by auto
qed simp

section \<open>The store refines it\<close>

definition abs_log :: "'r db \<Rightarrow> vlog" where
  "abs_log D = \<lparr>vl_Entries = map (\<lambda>e. (le_Type e, agg_key e)) (db_Events D), vl_Settled = fst ` set (db_Inbox D)\<rparr>"

definition abs_fences :: "CommitRequest \<Rightarrow> (akey \<times> int) list" where
  "abs_fences req = map (\<lambda>x. (fence_key x, ae_ExpectedVersion x)) (cr_Expectations req)"

definition operation_key :: "CommitRequest \<Rightarrow> akey" where
  "operation_key req = (cr_DeviceID req, op_OperationID (cr_Operation req))"

lemma vlog_version_head: "log_inv D \<Longrightarrow> vlog_version (abs_log D) k = head_version D k"
  by (simp add: vlog_version_def abs_log_def log_inv_head agg_versions_def filter_map o_def)

lemma unsettled: "lookupArchivedOperation S l D = NotFound \<Longrightarrow> (ol_DeviceID l, ol_OperationID l) \<notin> vl_Settled (abs_log D)"
  using lookup_NotFound [of S l D] by (auto simp: abs_log_def map_of_eq_None_iff)

lemma commit_body_appends:
  assumes "commit_body S req D = Inr (r, D')" "lookupArchivedOperation S (request_lookup req) D = NotFound" "log_inv D"
  shows "vlog_step (abs_log D) (Append (operation_key req) (abs_fences req) (headers (cb_Events (cr_Batch req)))) = Inr (abs_log D')"
proof (rule commit_log [OF assms(1,3)])
  fix es assume es: "es \<noteq> []" "db_Events D' = db_Events D @ es"
      "map (\<lambda>e. (le_Type e, agg_key e)) es = headers (cb_Events (cr_Batch req))"
    and fences: "\<forall>x \<in> set (cr_Expectations req). head_version D (fence_key x) = ae_ExpectedVersion x"
  have "operation_key req \<notin> vl_Settled (abs_log D)"
    using unsettled [OF assms(2)] by (simp add: operation_key_def request_lookup_def)
  moreover have "headers (cb_Events (cr_Batch req)) \<noteq> []" unfolding es(3) [symmetric] using es(1) by simp
  moreover have "\<not> (\<exists>(k, v) \<in> set (abs_fences req). vlog_version (abs_log D) k \<noteq> v)"
    using fences by (auto simp: abs_fences_def vlog_version_head [OF assms(3)])
  moreover have "vl_Settled (abs_log D') = insert (operation_key req) (vl_Settled (abs_log D))"
    by (rule commit_body_inbox [OF assms(1)]) (simp add: abs_log_def operation_key_def)
  moreover have "vl_Entries (abs_log D') = vl_Entries (abs_log D) @ headers (cb_Events (cr_Batch req))"
    by (simp add: abs_log_def es)
  ultimately show ?thesis by (simp add: vlog_step.simps del: headers_eq_Nil)
qed

lemma Commit_refines:
  assumes "Commit S req D = (x, D')" "log_inv D"
  shows "(abs_log D' = abs_log D \<and> D' = D)
    \<or> (\<exists>r. x = Inr r \<and> vlog_step (abs_log D) (Append (operation_key req) (abs_fences req) (headers (cb_Events (cr_Batch req)))) = Inr (abs_log D'))"
  using assms(1)
proof (cases rule: Commit_cases)
  case (committed r)
  then show ?thesis using commit_body_appends [OF committed(3,2) assms(2)] by blast
qed simp_all

lemma ArchiveRejection_refines:
  assumes "ArchiveRejection S space rejection D = (x, D')"
  shows "D' = D \<or> (\<exists>f. x = Inl (LearningError f None)
    \<and> vlog_step (abs_log D) (Settle (ol_DeviceID (or_Lookup rejection), ol_OperationID (or_Lookup rejection))) = Inr (abs_log D'))"
  using assms
proof (cases rule: archive_cases)
  case (archived f)
  have "abs_log D' = (abs_log D)\<lparr>vl_Settled := insert (ol_DeviceID (or_Lookup rejection), ol_OperationID (or_Lookup rejection))
      (vl_Settled (abs_log D))\<rparr>"
    by (rule archive_row_Inr [OF archived(4)]) (simp add: abs_log_def)
  with archived(3) show ?thesis using unsettled [OF archived(2)] by (simp add: vlog_step.simps)
qed simp

text \<open>
  What a command given to the store stands for. A request answered with a success that is not a replay stands for its own
  append: its operation, its expected versions, its drafts. A rejection that was archived by the command settles its
  operation. Everything else stands for nothing.
\<close>

definition rejection_key :: "OperationRejection \<Rightarrow> akey" where
  "rejection_key rejection = (ol_DeviceID (or_Lookup rejection), ol_OperationID (or_Lookup rejection))"

definition store_action :: "'r store_env \<Rightarrow> ('r \<Rightarrow> error option) \<Rightarrow> 'r db \<Rightarrow> CommitRequest + OperationRejection \<Rightarrow> vlog_action list" where
  "store_action S space D c =
     (case c of
        Inl req \<Rightarrow>
          (case fst (Commit S req D) of
             Inr r \<Rightarrow> if res_Replayed r then []
                 else [Append (operation_key req) (abs_fences req) (headers (cb_Events (cr_Batch req)))]
           | Inl _ \<Rightarrow> [])
      | Inr rejection \<Rightarrow>
          if rejection_key rejection \<notin> fst ` set (db_Inbox D)
             \<and> rejection_key rejection \<in> fst ` set (db_Inbox (snd (ArchiveRejection S space rejection D)))
          then [Settle (rejection_key rejection)] else [])"

lemma found_replayed: "lookupArchivedOperation S l D = FoundResult r \<Longrightarrow> res_Replayed r"
  by (auto simp: lookupArchivedOperation_def split: option.splits if_splits sum.splits)

lemma Commit_simulated:
  assumes "Commit S req D = (x, D')" "log_inv D"
  shows "all_succeed vlog_step (abs_log D) (store_action S space D (Inl req)) = Inr (abs_log D')"
  using assms(1)
proof (cases rule: Commit_cases)
  case (found r)
  then show ?thesis using assms(1) found_replayed [OF found(1)] by (simp add: store_action_def)
next
  case (committed r)
  have "\<not> res_Replayed r" by (rule commit_body_inbox [OF committed(3)])
  then show ?thesis
    using assms(1) committed(4) commit_body_appends [OF committed(3,2) assms(2)] by (simp add: store_action_def)
qed (use assms(1) in \<open>simp_all add: store_action_def\<close>)

lemma ArchiveRejection_simulated:
  assumes "ArchiveRejection S space rejection D = (x, D')"
  shows "all_succeed vlog_step (abs_log D) (store_action S space D (Inr rejection)) = Inr (abs_log D')"
proof (cases "D' = D")
  case True
  then show ?thesis using assms by (auto simp: store_action_def)
next
  case False
  then have step: "vlog_step (abs_log D) (Settle (rejection_key rejection)) = Inr (abs_log D')"
    using ArchiveRejection_refines [OF assms] by (auto simp: rejection_key_def)
  then show ?thesis
    using assms vlog_step_settles [OF step] by (simp add: store_action_def abs_log_def)
qed

interpretation refined: simulation "store_step S space" vlog_step abs_log "store_action S space" log_inv for S :: "'r store_env" and space
proof unfold_locales
  fix D c D' assume inv: "log_inv D" and step: "store_step S space D c = Inr D'"
  show "log_inv D'" using event_log.step_inv [OF inv step] .
  show "all_succeed vlog_step (abs_log D) (store_action S space D c) = Inr (abs_log D')"
  proof (cases c)
    case (Inl req)
    with step obtain x where "Commit S req D = (x, D')" by (cases "Commit S req D") (simp add: store_step_def)
    from Commit_simulated [OF this inv] show ?thesis by (simp add: Inl)
  next
    case (Inr rejection)
    with step obtain x where "ArchiveRejection S space rejection D = (x, D')"
      by (cases "ArchiveRejection S space rejection D") (simp add: store_step_def)
    from ArchiveRejection_simulated [OF this] show ?thesis by (simp add: Inr)
  qed
qed

section \<open>Properties\<close>

lemma authority_refines:
  assumes "authorityOperation (learning_archive S space) device op hash now execute D = Some (x, D')" "log_inv D"
    and own: "\<And>h req. hash = Inr h \<Longrightarrow> execute = Some (Inr req) \<Longrightarrow> request_lookup req = operation_lookup device op h"
  shows "abs_log D' = abs_log D
    \<or> (\<exists>r req. x = Inr r \<and> execute = Some (Inr req)
         \<and> vlog_step (abs_log D) (Append (device, op_OperationID op) (abs_fences req) (headers (cb_Events (cr_Batch req)))) = Inr (abs_log D'))
    \<or> (\<exists>f. x = Inl (LearningError f None) \<and> vlog_step (abs_log D) (Settle (device, op_OperationID op)) = Inr (abs_log D'))"
  using assms(1)
proof (cases rule: authority_cases)
  case (archived h e rejection)
  then have "ArchiveRejection S space rejection D = (x, D')" by simp
  from ArchiveRejection_refines [OF this] archived(4) show ?thesis by (auto simp: operation_lookup_def)
next
  case (committed h req r)
  then have c: "Commit S req D = (Inr r, D')" by simp
  have "operation_key req = (device, op_OperationID op)"
    using own [OF committed(1,3)] by (simp add: operation_key_def request_lookup_def operation_lookup_def)
  with Commit_refines [OF c assms(2)] committed(3,5) show ?thesis by auto
next
  case (uncommitted h req e)
  then have "Commit S req D = (Inl e, D')" by simp
  from Commit_refines [OF this assms(2)] show ?thesis by auto
next
  case (rejected h req e t rejection)
  then have c: "Commit S req D = (Inl e, t)" and a: "ArchiveRejection S space rejection t = (x, D')" by simp_all
  from Commit_refines [OF c assms(2)] have "t = D" by auto
  with ArchiveRejection_refines [OF a] rejected(5) show ?thesis by (auto simp: operation_lookup_def)
qed auto

text \<open>
  C9: An action does to the store what the specification does. There are three outcomes: the specification's log is
  unchanged; or the action succeeded, the drafts of its request were appended and its operation settled,
  against fences that held, for an operation that was not settled; or it was refused with an
  archived error, and only its operation was settled.
\<close>

theorem action_refines:
  assumes "ApplyAction (learning_archive S space) env sessionID cmd D = Some (x, D')" "log_inv D"
  shows "abs_log D' = abs_log D
    \<or> (\<exists>r req. x = Inr r \<and> applyAction (env D) sessionID cmd = Some (Inr req)
         \<and> vlog_step (abs_log D) (Append (ce_device (env D), op_OperationID (acmd_Operation cmd)) (abs_fences req)
             (headers (cb_Events (cr_Batch req)))) = Inr (abs_log D'))
    \<or> (\<exists>f. x = Inl (LearningError f None)
         \<and> vlog_step (abs_log D) (Settle (ce_device (env D), op_OperationID (acmd_Operation cmd))) = Inr (abs_log D'))"
proof (cases "validateSessionScope (env D) sessionID")
  case None
  with assms(1) have "authorityOperation (learning_archive S space) (ce_device (env D)) (acmd_Operation cmd) (ce_hash_action (env D) cmd)
      (ce_now (env D)) (applyAction (env D) sessionID cmd) D = Some (x, D')"
    by (simp add: ApplyAction_def Let_def)
  from authority_refines [OF this assms(2)] show ?thesis using applyAction_own by blast
next
  case (Some e)
  with assms(1) show ?thesis by (simp add: ApplyAction_def Let_def)
qed

text \<open>
  C10: The store is the specification's log, command by command. Whatever requests and rejections it is given, in whatever
  order, the entries and the settled operations it ends with are those of running the specification on what it
  answered: the append of every request it answered with a new success, under the versions that very request
  expected and with its own drafts, and the settlement of every rejection it archived, in their order. Each of them
  succeeds in the specification, so its versions held there, and no operation takes effect twice.
\<close>

theorem store_refines_log:
  assumes "log_inv D"
  shows "all_succeed vlog_step (abs_log D) (labels (store_step S space) (store_action S space) D commands)
      = Inr (abs_log (run (store_step S space) D commands))
    \<and> distinct (map action_key (labels (store_step S space) (store_action S space) D commands))
    \<and> vl_Settled (abs_log D) \<inter> action_key ` set (labels (store_step S space) (store_action S space) D commands) = {}"
  using refined.run_simulated [OF assms] vlog_run_once by blast

section \<open>Examples\<close>

theorem action_refines_witness:
  "\<exists>r D operation fences entries. lesson_run ''op'' 0 empty_db = Some (Inr r, D)
     \<and> vlog_step (abs_log empty_db) (Append operation fences entries) = Inr (abs_log D) \<and> entries \<noteq> []"
proof -
  obtain r D where run: "lesson_run ''op'' 0 empty_db = Some (Inr r, D)" and new: "db_Inbox D \<noteq> []" using lesson_committed by blast
  have "abs_log D \<noteq> abs_log empty_db" using new by (simp add: abs_log_def lesson_laws)
  with action_refines [OF run [unfolded lesson_run_def] empty_log_inv] obtain operation fences entries
    where step: "vlog_step (abs_log empty_db) (Append operation fences entries) = Inr (abs_log D)" by blast
  then have "entries \<noteq> []" by (auto simp: vlog_step.simps split: if_splits)
  with run step show ?thesis by blast
qed

lemma run_append: "run step s (cs @ ds) = run step (run step s cs) ds"
  by (induction cs arbitrary: s) (auto split: sum.split)

lemma reaches_run: "reaches step s t \<Longrightarrow> \<exists>cs. run step s cs = t"
proof (induction rule: reaches.induct)
  case (refl s)
  have "run step s [] = s" by simp
  then show ?case by blast
next
  case (step s t c u)
  then obtain cs where "run step s cs = t" by blast
  then have "run step s (cs @ [c]) = u" using step.hyps(2) by (simp add: run_append)
  then show ?case by blast
qed

theorem store_refines_log_witness:
  "\<exists>x D commands. lesson_run ''op'' 0 empty_db = Some (x, D)
     \<and> labels (store_step example_store (\<lambda>_. None)) (store_action example_store (\<lambda>_. None)) empty_db commands \<noteq> []
     \<and> all_succeed vlog_step (abs_log empty_db)
         (labels (store_step example_store (\<lambda>_. None)) (store_action example_store (\<lambda>_. None)) empty_db commands) = Inr (abs_log D)"
proof -
  obtain r D where run: "lesson_run ''op'' 0 empty_db = Some (Inr r, D)" "db_Inbox D \<noteq> []" using lesson_committed by blast
  then have "later example_archive empty_db D"
    by (auto simp: lesson_run_def ApplyAction_def Let_def lesson_laws intro: later.operation [OF later.now])
  from reaches_run [OF later_reaches [OF this]] obtain commands where "run (store_step example_store (\<lambda>_. None)) empty_db commands = D" by blast
  moreover have "abs_log D \<noteq> abs_log empty_db" using run(2) by (simp add: abs_log_def lesson_laws)
  ultimately show ?thesis using run(1) store_refines_log [OF empty_log_inv] by (metis all_succeed.simps(1) sum.inject(2))
qed

end
