(* ===== verification/Adaptive.thy ===== *)
theory Adaptive
  imports Commands
begin

text \<open>
  Changes of the route that a learner confirms, \<open>server/internal/learning/adaptive.go\<close>: the boundary suspends
  the open activity of a lesson (or none) and opens a new route, and the focus is resumed later. The
  lesson's state machine runs in between, so the machine here has both: the actions of \<open>Apply\<close> and the two
  operations. It remembers the frames a boundary handed to its change (\<open>learningchange/apply.go\<close> stores the
  frame of the session as \<open>c.FrameID\<close>); only those are resumed. Frame identifiers are fresh UUIDs.
\<close>

section \<open>The operations\<close>

definition boundary_frame :: "string \<Rightarrow> Session \<Rightarrow> FocusFrame" where
  "boundary_frame i v = \<lparr>frame_ID = i, frame_SessionID = sess_ID v, frame_SavedState = sess_State v,
     frame_Context = sess_Context v, frame_SavedAggregateVersion = sess_AggregateVer v, frame_CreatedEventSequence = 0,
     frame_Invalidated = False, frame_InvalidationReason = []\<rparr>"

text \<open>The switch over the state: what is suspended, and the events.\<close>

definition suspend_lesson :: "string \<Rightarrow> bool \<Rightarrow> Session \<Rightarrow> error + (Session \<times> EventType list)" where
  "suspend_lesson i immediate v =
     (if sess_State v \<in> {StateGoalReady, StateDiagnostic, StateRouteActive, StateCompleted}
      then Inr (v, [EventTutoringStateChanged])
      else if sess_State v \<in> {StateActivityIssued, StateAwaitingResponse, StateEvaluating, StateFeedback}
      then (if \<not> immediate \<or> sess_ActiveFrame v \<noteq> None then Inl (err_code CodeInvalidTransition)
            else Inr (v\<lparr>sess_ActiveFrame := Some (boundary_frame i v)\<rparr>, [EventFocusSuspended, EventTutoringStateChanged]))
      else Inl (err_code CodeInvalidTransition))"

definition boundary_context :: "string \<Rightarrow> string \<Rightarrow> FocusContext \<Rightarrow> FocusContext" where
  "boundary_context goalRevision scope c =
     (let c = (if ctx_GoalRevisionID c \<noteq> goalRevision \<or> ctx_KnowledgeRevisionID c \<noteq> scope
               then c\<lparr>ctx_RouteRevisionID := [], ctx_RouteStepID := [], ctx_FocusNodeRevisionID := []\<rparr> else c)
      in c\<lparr>ctx_GoalRevisionID := goalRevision, ctx_KnowledgeRevisionID := scope, ctx_ActivityID := None, ctx_AttemptID := None\<rparr>)"

definition open_route :: "string \<Rightarrow> string \<Rightarrow> Session \<Rightarrow> Session" where
  "open_route goalRevision scope v = v\<lparr>sess_State := StateRouteActive, sess_CompletedRoute := False,
     sess_Context := boundary_context goalRevision scope (sess_Context v)\<rparr>"

definition same_goal :: "authority \<Rightarrow> string \<Rightarrow> string \<Rightarrow> error option" where
  "same_goal A old new =
     (case au_goal A old of
        Inl e \<Rightarrow> Some e
      | Inr oldGoal \<Rightarrow>
          (case au_goal A new of
             Inl e \<Rightarrow> Some e
           | Inr newGoal \<Rightarrow>
               if goal_GoalID oldGoal \<noteq> goal_GoalID newGoal \<or> LearningSpaceID oldGoal \<noteq> LearningSpaceID newGoal
               then Some (err_code CodeInvalidRequest) else None))"

text \<open>Reading the session an operation is for; both operations begin with it.\<close>

definition session_for :: "command_env \<Rightarrow> OperationEnvelope \<Rightarrow> error + Session" where
  "session_for E op = checkE (ValidateOperation (ce_lib E) op)
     (bindE (au_session (ce_authority E) (op_AggregateID op)) (\<lambda>a.
        if op_AggregateType op \<noteq> ''session'' \<or> sess_AggregateVer (sa_Session a) \<noteq> op_ExpectedVersion op
        then Inl (err_code CodeVersionConflict) else Inr (sa_Session a)))"

definition boundary :: "command_env \<Rightarrow> OperationEnvelope \<Rightarrow> bool \<Rightarrow> string \<Rightarrow> string \<Rightarrow> error + Transition" where
  "boundary E op immediate goalRevision scope =
     bindE (session_for E op) (\<lambda>v.
     bindE (suspend_lesson (ce_uuid E 0) immediate v) (\<lambda>(w, events).
     checkE (same_goal (ce_authority E) (ctx_GoalRevisionID (sess_Context w)) goalRevision)
       (Inr \<lparr>tr_Before = sess_State v, tr_Intermediate = [], tr_After = StateRouteActive, tr_Events = events,
             tr_Session = open_route goalRevision scope w\<rparr>)))"

text \<open>The commit of both: the fence of the session, and the time of the clock as it is.\<close>

definition adaptive_commit ::
  "command_env \<Rightarrow> OperationEnvelope \<Rightarrow> error + string \<Rightarrow> CommandBatch \<Rightarrow> Transition \<Rightarrow> (error + CommitRequest) option" where
  "adaptive_commit E op hash b tr =
     (let s = tr_Session tr
      in map_option (\<lambda>events. map_sum id (\<lambda>r. r\<lparr>cr_ReceivedAt := ce_now E\<rparr>)
           (commit_request E op [session_fence s (op_ExpectedVersion op)]
             (b\<lparr>cb_Session := Some s, cb_TutoringState := state_text (sess_State s), cb_ResultSession := True, cb_Events := events\<rparr>) hash))
         (transitionDrafts (ce_json E) (sess_ID s) tr []))"

definition PrepareAdaptiveBoundary ::
  "command_env \<Rightarrow> (bool \<Rightarrow> error + string) \<Rightarrow> OperationEnvelope \<Rightarrow> bool \<Rightarrow> string \<Rightarrow> string \<Rightarrow> (error + CommitRequest) option" where
  "PrepareAdaptiveBoundary E hash op immediate goalRevision scope =
     (case boundary E op immediate goalRevision scope of
        Inl e \<Rightarrow> Some (Inl e)
      | Inr tr \<Rightarrow> adaptive_commit E op (hash immediate) (empty_batch\<lparr>cb_FocusFrame := sess_ActiveFrame (tr_Session tr)\<rparr>) tr)"

definition resume_lesson :: "string \<Rightarrow> Session \<Rightarrow> error + Session" where
  "resume_lesson frame v =
     (case sess_ActiveFrame v of
        None \<Rightarrow> Inl (err_code CodeFocusFrameInvalidated)
      | Some f \<Rightarrow>
          if frame_Invalidated f \<or> frame_ID f \<noteq> frame then Inl (err_code CodeFocusFrameInvalidated)
          else if sess_State v \<in> {StateEvaluating, StateFeedback, StateFreeQuestion, StateFreeAnswer}
          then Inl (err_code CodeInvalidTransition)
          else Inr (v\<lparr>sess_State := frame_SavedState f, sess_Context := frame_Context f, sess_ActiveFrame := None,
                      sess_CompletedRoute := False\<rparr>))"

definition resume_focus :: "command_env \<Rightarrow> OperationEnvelope \<Rightarrow> string \<Rightarrow> error + Transition" where
  "resume_focus E op frame =
     bindE (session_for E op) (\<lambda>v.
     bindE (resume_lesson frame v) (\<lambda>w.
       Inr \<lparr>tr_Before = sess_State v, tr_Intermediate = [], tr_After = sess_State w,
            tr_Events = [EventFocusResumed, EventTutoringStateChanged], tr_Session = w\<rparr>))"

definition ResumeAdaptiveFocus ::
  "command_env \<Rightarrow> (string \<Rightarrow> error + string) \<Rightarrow> OperationEnvelope \<Rightarrow> string \<Rightarrow> (error + CommitRequest) option" where
  "ResumeAdaptiveFocus E hash op frame =
     (case resume_focus E op frame of
        Inl e \<Rightarrow> Some (Inl e)
      | Inr tr \<Rightarrow> adaptive_commit E op (hash frame) (empty_batch\<lparr>cb_ResumeFrame := True\<rparr>) tr)"

section \<open>The lesson with both machines\<close>

datatype adaptive_action =
    Lesson Command
  | Boundary string bool string string \<comment> \<open>frame identifier, immediate, goal revision, knowledge revision\<close>
  | ResumeFrame string

text \<open>A session and the frames that changes may resume. A question's new frame has a new identifier.\<close>

type_synonym adaptive_state = "Session \<times> string list"

fun adaptive_step :: "adaptive_state \<Rightarrow> adaptive_action \<Rightarrow> error + adaptive_state" where
  "adaptive_step (v, frames) (Lesson c) =
     (if cmd_Action c = ActionAskFreeQuestion \<and> cmd_FrameID c \<in> set frames then Inl (PlainError ''frame identifier in use'')
      else case tutoring_step v c of Inl e \<Rightarrow> Inl (TutoringError e) | Inr w \<Rightarrow> Inr (w, frames))"
| "adaptive_step (v, frames) (Boundary i immediate goalRevision scope) =
     bindE (suspend_lesson i immediate v) (\<lambda>(w, _).
       Inr (open_route goalRevision scope w, map frame_ID (case sess_ActiveFrame w of None \<Rightarrow> [] | Some f \<Rightarrow> [f]) @ frames))"
| "adaptive_step (v, frames) (ResumeFrame i) =
     (if i \<notin> set frames then Inl (err_code CodeFocusFrameInvalidated)
      else bindE (resume_lesson i v) (\<lambda>w. Inr (w, frames)))"

text \<open>A question or an attached quiz inside a frame that a change may resume would be stranded by resuming it.\<close>

definition stranded :: "string set \<Rightarrow> Session \<Rightarrow> bool" where
  "stranded F v = (\<exists>f. sess_ActiveFrame v = Some f \<and> \<not> frame_Invalidated f \<and> frame_ID f \<in> F
     \<and> (free_state (sess_State v) \<or> sess_AttachedQuiz v))"

lemma stranded_None: "sess_ActiveFrame v = None \<Longrightarrow> \<not> stranded F v"
  by (simp add: stranded_def)

lemma stranded_Some:
  "sess_ActiveFrame v = Some f \<Longrightarrow> stranded F v \<longleftrightarrow> \<not> frame_Invalidated f \<and> frame_ID f \<in> F
     \<and> (free_state (sess_State v) \<or> sess_AttachedQuiz v)"
  by (simp add: stranded_def)

definition adaptive_inv :: "adaptive_state \<Rightarrow> bool" where
  "adaptive_inv x = (session_inv (fst x) \<and> \<not> stranded (set (snd x)) (fst x))"

lemma apply_switch_not_stranded:
  assumes "session_inv s" "cmd_Action c = ActionAskFreeQuestion \<longrightarrow> cmd_FrameID c \<notin> F" and "\<not> stranded F s"
  shows "case_sum (\<lambda>_. True) (\<lambda>t. \<not> stranded F (tr_Session t)) (apply_switch s c)"
  using assms
  by (cases "cmd_Action c"; cases "sess_ActiveFrame s"; cases "cmd_Context c";
      simp add: apply_unfold session_inv_def stranded_None stranded_Some)
     (fastforce split: if_splits)+

lemma lesson_adaptive_inv:
  assumes "adaptive_inv (v, frames)" "tutoring_step v c = Inr w" "cmd_Action c = ActionAskFreeQuestion \<longrightarrow> cmd_FrameID c \<notin> set frames"
  shows "adaptive_inv (w, frames)"
proof -
  have inv: "session_inv v" using assms(1) by (simp add: adaptive_inv_def)
  obtain tr where tr: "Apply v c = Inr tr" "w = tr_Session tr"
    using assms(2) by (auto simp: tutoring_step_def split: sum.splits)
  have "apply_switch v c = Inr tr" using Apply_cases [OF session_inv_not_unset [OF inv] tr(1)] .
  then show ?thesis
    using apply_switch_not_stranded [OF inv assms(3)] assms(1) tutoring_step_inv [OF inv assms(2)] tr(2)
    by (simp add: adaptive_inv_def)
qed

lemma suspend_lesson_Inr:
  assumes "suspend_lesson i immediate v = Inr (w, events)"
  obtains (idle) "w = v" "sess_State v \<in> {StateGoalReady, StateDiagnostic, StateRouteActive, StateCompleted}" "events = [EventTutoringStateChanged]"
  | (suspended) "w = v\<lparr>sess_ActiveFrame := Some (boundary_frame i v)\<rparr>" "immediate" "sess_ActiveFrame v = None"
      "sess_State v \<in> {StateActivityIssued, StateAwaitingResponse, StateEvaluating, StateFeedback}"
      "events = [EventFocusSuspended, EventTutoringStateChanged]"
  using assms by (auto simp: suspend_lesson_def split: if_splits)

lemma boundary_frame_simps [simp]:
  "frame_ID (boundary_frame i v) = i" "frame_SavedState (boundary_frame i v) = sess_State v"
  "frame_Context (boundary_frame i v) = sess_Context v" "frame_Invalidated (boundary_frame i v) = False"
  by (simp_all add: boundary_frame_def)

lemma open_route_simps [simp]:
  "sess_State (open_route goalRevision scope v) = StateRouteActive" "sess_ID (open_route goalRevision scope v) = sess_ID v"
  "ctx_GoalRevisionID (sess_Context (open_route goalRevision scope v)) = goalRevision"
  "ctx_ActivityID (sess_Context (open_route goalRevision scope v)) = None"
  by (simp_all add: open_route_def boundary_context_def Let_def)

lemma open_route_inv:
  assumes "session_inv v" "suspend_lesson i immediate v = Inr (w, events)"
  shows "session_inv (open_route goalRevision scope w)" "\<not> sess_AttachedQuiz w"
  using assms(2,1) by (cases rule: suspend_lesson_Inr, auto simp: session_inv_def live_frame_def open_route_def)+

lemma resume_lesson_Inr:
  assumes "resume_lesson i v = Inr w"
  obtains f where "sess_ActiveFrame v = Some f" "\<not> frame_Invalidated f" "frame_ID f = i"
    "sess_State v \<notin> {StateEvaluating, StateFeedback, StateFreeQuestion, StateFreeAnswer}"
    "w = v\<lparr>sess_State := frame_SavedState f, sess_Context := frame_Context f, sess_ActiveFrame := None, sess_CompletedRoute := False\<rparr>"
  using assms by (auto simp: resume_lesson_def split: option.splits if_splits)

lemma adaptive_step_inv: "adaptive_inv x \<Longrightarrow> adaptive_step x a = Inr y \<Longrightarrow> adaptive_inv y"
proof -
  assume inv: "adaptive_inv x" and step: "adaptive_step x a = Inr y"
  obtain v frames where x: "x = (v, frames)" by fastforce
  have v: "session_inv v" using inv by (simp add: adaptive_inv_def x)
  show ?thesis
  proof (cases a)
    case (Lesson c)
    with step x obtain w where "tutoring_step v c = Inr w" "y = (w, frames)" "cmd_Action c = ActionAskFreeQuestion \<longrightarrow> cmd_FrameID c \<notin> set frames"
      by (auto split: if_splits sum.splits)
    with inv x show ?thesis by (auto intro: lesson_adaptive_inv)
  next
    case (Boundary i immediate goalRevision scope)
    with step x obtain w events where w: "suspend_lesson i immediate v = Inr (w, events)"
      and y: "fst y = open_route goalRevision scope w" by auto
    show ?thesis using open_route_inv [OF v w] y by (cases y) (simp add: adaptive_inv_def open_route_def stranded_def)
  next
    case (ResumeFrame i)
    with step x obtain w where i: "i \<in> set frames" and w: "resume_lesson i v = Inr w" and y: "y = (w, frames)"
      by (auto split: if_splits)
    show ?thesis
    proof (rule resume_lesson_Inr [OF w])
      fix f assume f: "sess_ActiveFrame v = Some f" "\<not> frame_Invalidated f" "frame_ID f = i"
        and eq: "w = v\<lparr>sess_State := frame_SavedState f, sess_Context := frame_Context f, sess_ActiveFrame := None, sess_CompletedRoute := False\<rparr>"
      have "\<not> sess_AttachedQuiz v" "suspendable_state (frame_SavedState f)"
        using inv f i by (auto simp: adaptive_inv_def x session_inv_def stranded_Some)
      then show ?thesis by (auto simp: adaptive_inv_def y eq session_inv_def stranded_def)
    qed
  qed
qed

interpretation adaptive: guarded_machine adaptive_step adaptive_inv
  by unfold_locales (rule adaptive_step_inv)

text \<open>
  C17: Route changes and lessons compose. Whatever actions, boundaries and resumptions of changes a lesson has
  taken since it was created, it satisfies the invariant of the lesson's own state machine, and a frame
  that a change may resume never belongs to a question or an attached quiz: resuming it cannot strand one.
\<close>

theorem adaptive_lesson_inv:
  assumes "reaches adaptive_step (idle_session i, []) (v, frames)"
  shows "session_inv v \<and> \<not> stranded (set frames) v"
proof -
  have "adaptive_inv (idle_session i, [])" by (simp add: adaptive_inv_def session_inv_idle stranded_def)
  from adaptive.reaches_inv [OF assms this] show ?thesis by (simp add: adaptive_inv_def)
qed

text \<open>
  A suspended activity comes back as it was. After an immediate boundary in an open activity, any actions may
  be taken in the new route that do not leave the focus; when no answer is being settled, resuming the
  change's frame is accepted and gives back the state, the activity and attempt, and the route that the
  boundary found.
\<close>

theorem boundary_resume_round_trip:
  assumes "session_inv v" "suspend_lesson i True v = Inr (w, events)" "sess_ActiveFrame w \<noteq> sess_ActiveFrame v"
    and "\<forall>c \<in> set cs. \<not> leaves_focus (cmd_Action c)"
    and "sess_State (run tutoring_step (open_route goalRevision scope w) cs)
      \<notin> {StateEvaluating, StateFeedback, StateFreeQuestion, StateFreeAnswer}"
  shows "\<exists>t. resume_lesson i (run tutoring_step (open_route goalRevision scope w) cs) = Inr t
     \<and> sess_State t = sess_State v \<and> sess_Context t = sess_Context v \<and> sess_ActiveFrame t = None
     \<and> sess_ID t = sess_ID v \<and> sess_AggregateVer t = sess_AggregateVer v"
proof -
  have w: "w = v\<lparr>sess_ActiveFrame := Some (boundary_frame i v)\<rparr>"
    using assms(2,3) by (auto elim: suspend_lesson_Inr)
  let ?o = "open_route goalRevision scope w"
  have "sess_ActiveFrame (run tutoring_step ?o cs) = Some (boundary_frame i v)" "same_identity ?o (run tutoring_step ?o cs)"
    using run_keeps_frame [OF open_route_inv(1) [OF assms(1,2)] _ _ assms(4), where f = "boundary_frame i v"]
    by (simp_all add: w open_route_def)
  with assms(5) show ?thesis by (simp add: resume_lesson_def same_identity_def open_route_def w)
qed

lemma session_for_Inr:
  "session_for E op = Inr v \<Longrightarrow> \<exists>auth. au_session (ce_authority E) (op_AggregateID op) = Inr auth \<and> v = sa_Session auth
     \<and> sess_AggregateVer v = op_ExpectedVersion op \<and> op_AggregateType op = ''session''"
  by (auto simp: session_for_def split: if_splits)

lemma adaptive_commit_Inr:
  assumes "adaptive_commit E op hash b tr = Some (Inr req)"
  obtains events where "transitionDrafts (ce_json E) (sess_ID (tr_Session tr)) tr [] = Some events"
    "cr_Expectations req = [session_fence (tr_Session tr) (op_ExpectedVersion op)]" "cb_Session (cr_Batch req) = Some (tr_Session tr)"
    "cb_Events (cr_Batch req) = events" "cr_Operation req = op"
  using assms by (cases hash) (auto simp: adaptive_commit_def commit_request_def Let_def)

text \<open>
  C18: A committed boundary stays within the learner's goal. Its request is fenced by the version of the session it
  read; the lesson it writes is at the new route with no activity, keeps its identity and the invariant,
  belongs to the same goal and learning space as before; and the last snapshot among its events is that lesson.
\<close>

theorem boundary_committed:
  assumes "PrepareAdaptiveBoundary E hash op immediate goalRevision scope = Some (Inr req)"
    and "au_session (ce_authority E) (op_AggregateID op) = Inr auth" "session_inv (sa_Session auth)"
  shows "\<exists>t oldGoal newGoal. cb_Session (cr_Batch req) = Some t \<and> session_inv t \<and> sess_State t = StateRouteActive
     \<and> cr_Expectations req = [session_fence (sa_Session auth) (sess_AggregateVer (sa_Session auth))]
     \<and> ctx_GoalRevisionID (sess_Context t) = goalRevision \<and> ctx_ActivityID (sess_Context t) = None
     \<and> au_goal (ce_authority E) (ctx_GoalRevisionID (sess_Context (sa_Session auth))) = Inr oldGoal
     \<and> au_goal (ce_authority E) goalRevision = Inr newGoal \<and> goal_GoalID newGoal = goal_GoalID oldGoal
     \<and> LearningSpaceID newGoal = LearningSpaceID oldGoal \<and> ed_Payload (last (snapshots_in (cb_Events (cr_Batch req)))) = snapshot (ce_json E) (sess_ID t) t StateRouteActive"
proof -
  obtain tr where b: "boundary E op immediate goalRevision scope = Inr tr"
    and c: "adaptive_commit E op (hash immediate) (empty_batch\<lparr>cb_FocusFrame := sess_ActiveFrame (tr_Session tr)\<rparr>) tr = Some (Inr req)"
    using assms(1) by (auto simp: PrepareAdaptiveBoundary_def split: sum.splits)
  obtain v w events where v: "session_for E op = Inr v" and w: "suspend_lesson (ce_uuid E 0) immediate v = Inr (w, events)"
    and g: "same_goal (ce_authority E) (ctx_GoalRevisionID (sess_Context w)) goalRevision = None"
    and tr: "tr = \<lparr>tr_Before = sess_State v, tr_Intermediate = [], tr_After = StateRouteActive, tr_Events = events,
             tr_Session = open_route goalRevision scope w\<rparr>"
    using b by (auto simp: boundary_def)
  have read: "v = sa_Session auth" "sess_AggregateVer v = op_ExpectedVersion op" using session_for_Inr [OF v] assms(2) by auto
  have same: "sess_ID w = sess_ID v" "sess_Context w = sess_Context v" and ev: "last events = EventTutoringStateChanged"
     "state_sequence tr = [StateRouteActive]" and ks: "\<exists>ks. events = ks @ [EventTutoringStateChanged] \<and> EventTutoringStateChanged \<notin> set ks"
    using w by (cases rule: suspend_lesson_Inr; simp add: tr state_sequence_def)+
  obtain oldGoal newGoal where goals: "au_goal (ce_authority E) (ctx_GoalRevisionID (sess_Context v)) = Inr oldGoal"
      "au_goal (ce_authority E) goalRevision = Inr newGoal" "goal_GoalID newGoal = goal_GoalID oldGoal"
      "LearningSpaceID newGoal = LearningSpaceID oldGoal"
    using g by (auto simp: same_goal_def same split: sum.splits if_splits)
  show ?thesis
  proof (rule adaptive_commit_Inr [OF c])
    fix ds assume ds: "transitionDrafts (ce_json E) (sess_ID (tr_Session tr)) tr [] = Some ds"
      and r: "cr_Expectations req = [session_fence (tr_Session tr) (op_ExpectedVersion op)]" "cb_Session (cr_Batch req) = Some (tr_Session tr)"
        "cb_Events (cr_Batch req) = ds"
    have "ed_Payload (last (snapshots_in ds)) = snapshot (ce_json E) (sess_ID (tr_Session tr)) (tr_Session tr) StateRouteActive"
      unfolding transition_snapshots [OF ds] using w
      by (cases rule: suspend_lesson_Inr) (simp_all add: tr state_sequence_def draft_def event_state_def)
    moreover have "session_inv (open_route goalRevision scope w)" using open_route_inv(1) [OF assms(3)] w read(1) by simp
    ultimately show ?thesis using r goals read same
      by (intro exI [of _ "open_route goalRevision scope w"] exI [of _ oldGoal] exI [of _ newGoal]) (auto simp: tr session_fence_def)
  qed
qed

section \<open>Completing a lesson\<close>

definition lesson_command :: "Session \<Rightarrow> Action \<Rightarrow> Command" where
  "lesson_command v a = \<lparr>cmd_Action = a, cmd_SessionID = sess_ID v, cmd_FrameID = [], cmd_CreatedEventSequence = 0,
     cmd_Complete = False, cmd_Context = None\<rparr>"

text \<open>Some commands complete the lesson without giving up its goal.\<close>

definition finishes :: "Session \<Rightarrow> bool" where
  "finishes v = (\<exists>cs. (\<forall>c \<in> set cs. cmd_Action c \<noteq> ActionSwitchGoal) \<and> sess_State (run tutoring_step v cs) = StateCompleted)"

lemma finishes_completed: "sess_State v = StateCompleted \<Longrightarrow> finishes v"
  unfolding finishes_def by (rule exI [of _ "[]"]) simp

lemma finishes_step:
  assumes "finishes (tr_Session t)" "Apply v (lesson_command v a) = Inr t" "a \<noteq> ActionSwitchGoal"
  shows "finishes v"
proof -
  obtain cs where cs: "\<forall>c \<in> set cs. cmd_Action c \<noteq> ActionSwitchGoal" "sess_State (run tutoring_step (tr_Session t) cs) = StateCompleted"
    using assms(1) unfolding finishes_def by blast
  with assms(2,3) show ?thesis
    unfolding finishes_def by (intro exI [of _ "lesson_command v a # cs"]) (simp add: tutoring_step_def lesson_command_def)
qed

lemma finishes_route: "sess_State v = StateRouteActive \<Longrightarrow> finishes v"
  by (rule finishes_step [of _ v ActionCompleteSession, OF finishes_completed])
     (auto simp: apply_unfold lesson_command_def split: option.splits)

lemma finishes_suspendable: "suspendable_state (sess_State v) \<Longrightarrow> finishes v"
proof (cases "sess_State v = StateRouteActive")
  case False
  assume "suspendable_state (sess_State v)"
  with False have "sess_State v \<in> {StateActivityIssued, StateAwaitingResponse, StateEvaluating, StateFeedback}"
    by (cases "sess_State v") auto
  then obtain t where "Apply v (lesson_command v ActionEndActivity) = Inr t" "sess_State (tr_Session t) = StateRouteActive"
    by (auto simp: apply_unfold lesson_command_def)
  then show ?thesis by (auto intro: finishes_step [OF finishes_route])
qed (rule finishes_route)

lemma finishes_before_route: "sess_State v \<in> {StateGoalReady, StateDiagnostic} \<Longrightarrow> finishes v"
proof -
  assume "sess_State v \<in> {StateGoalReady, StateDiagnostic}"
  then obtain t where "Apply v (lesson_command v ActionApplyRoute) = Inr t" "sess_State (tr_Session t) = StateRouteActive"
    by (auto simp: apply_unfold lesson_command_def)
  then show ?thesis by (auto intro: finishes_step [OF finishes_route])
qed

lemma finishes_idle: "sess_State v = StateIdle \<Longrightarrow> finishes v"
proof -
  assume "sess_State v = StateIdle"
  then obtain t where "Apply v (lesson_command v ActionCreateSession) = Inr t" "sess_State (tr_Session t) = StateGoalReady"
    by (auto simp: apply_unfold lesson_command_def)
  then show ?thesis by (auto intro: finishes_step [OF finishes_before_route])
qed

lemma finishes_free:
  assumes "session_inv v" "free_state (sess_State v)" "\<not> sess_FocusFrameInvalidated v"
  shows "finishes v"
proof -
  obtain f where f: "sess_ActiveFrame v = Some f" "\<not> frame_Invalidated f" "suspendable_state (frame_SavedState f)"
    using assms(1,2) by (auto simp: session_inv_def live_frame_def split: option.splits)
  obtain s where s: "tutoring_step v (lesson_command v ActionResumeFocus) = Inr s" "sess_State s = frame_SavedState f"
    using resume_restores [OF assms(1) f(1,2) assms(3,2), of "lesson_command v ActionResumeFocus"]
    by (auto simp: lesson_command_def)
  then obtain t where t: "Apply v (lesson_command v ActionResumeFocus) = Inr t" "s = tr_Session t"
    by (auto simp: tutoring_step_def split: sum.splits)
  show ?thesis by (rule finishes_step [OF finishes_suspendable t(1)]) (use s(2) f(3) t(2) in simp_all)
qed

lemma finishes_inv: "session_inv v \<Longrightarrow> \<not> sess_FocusFrameInvalidated v \<Longrightarrow> finishes v"
  by (cases "sess_State v")
     (auto simp: session_inv_def intro: finishes_completed finishes_suspendable finishes_before_route finishes_idle finishes_free)

definition unflagged :: "adaptive_state \<Rightarrow> bool" where
  "unflagged x = (adaptive_inv x \<and> \<not> sess_FocusFrameInvalidated (fst x))"

lemma unflagged_step: "unflagged x \<Longrightarrow> adaptive_step x a = Inr y \<Longrightarrow> unflagged y"
proof -
  assume x: "unflagged x" and step: "adaptive_step x a = Inr y"
  have "\<not> sess_FocusFrameInvalidated (fst y)"
  proof (cases a)
    case (Lesson c)
    with step obtain w where "tutoring_step (fst x) c = Inr w" "fst y = w" by (cases x) (auto split: if_splits sum.splits)
    with x show ?thesis
      using tutoring_step_same_identity [OF session_inv_not_unset] by (auto simp: unflagged_def adaptive_inv_def same_identity_def)
  next
    case (Boundary i immediate goalRevision scope)
    with x step show ?thesis by (cases x) (auto simp: unflagged_def open_route_def elim!: suspend_lesson_Inr)
  next
    case (ResumeFrame i)
    with x step show ?thesis by (cases x) (auto simp: unflagged_def split: if_splits elim!: resume_lesson_Inr)
  qed
  with x step show ?thesis by (auto simp: unflagged_def intro: adaptive_step_inv)
qed

interpretation unflagged_lesson: guarded_machine adaptive_step unflagged
  by unfold_locales (rule unflagged_step)

text \<open>
  C16: A lesson is never stuck. Whatever actions, boundaries and resumptions it has taken since it was created, some
  further commands of the state machine complete it, and none of them needs to give up the goal.
\<close>

theorem lesson_can_complete:
  assumes "reaches adaptive_step (idle_session i, []) (v, frames)"
  shows "\<exists>cs. (\<forall>c \<in> set cs. cmd_Action c \<noteq> ActionSwitchGoal) \<and> sess_State (run tutoring_step v cs) = StateCompleted"
proof -
  have "unflagged (idle_session i, [])"
    by (simp add: unflagged_def adaptive_inv_def session_inv_idle stranded_def) (simp add: idle_session_def empty_session_def)
  from unflagged_lesson.reaches_inv [OF assms this] have "session_inv v" "\<not> sess_FocusFrameInvalidated v"
    by (simp_all add: unflagged_def adaptive_inv_def)
  then show ?thesis using finishes_inv by (simp add: finishes_def)
qed

section \<open>Examples\<close>

text \<open>A change of the route while an answer is awaited, a question in the new route, and the lesson resumed.\<close>

definition awaiting_session :: Session where
  "awaiting_session = (lesson_session StateAwaitingResponse)\<lparr>sess_AggregateVer := 4,
     sess_Context := (sess_Context (lesson_session StateAwaitingResponse))\<lparr>ctx_ActivityID := Some ''a'', ctx_AttemptID := Some ''t''\<rparr>\<rparr>"

definition detour :: "Command list" where
  "detour = map plain_command [ActionIssueActivity, ActionPresentActivity]"

theorem adaptive_lesson_inv_witness:
  "\<exists>v. run adaptive_step (idle_session ''s'', [])
       [Lesson (plain_command ActionCreateSession), Lesson (plain_command ActionApplyRoute), Lesson (plain_command ActionIssueActivity),
        Boundary ''c'' True ''g'' ''k'', Lesson (plain_command ActionIssueActivity), ResumeFrame ''c''] = (v, [''c''])
     \<and> sess_State v = StateActivityIssued \<and> session_inv v \<and> \<not> stranded (set [''c'']) v"
proof -
  let ?as = "[Lesson (plain_command ActionCreateSession), Lesson (plain_command ActionApplyRoute), Lesson (plain_command ActionIssueActivity),
        Boundary ''c'' True ''g'' ''k'', Lesson (plain_command ActionIssueActivity), ResumeFrame ''c'']"
  obtain v where v: "run adaptive_step (idle_session ''s'', []) ?as = (v, [''c''])" and s: "sess_State v = StateActivityIssued"
    by (simp add: tutoring_step_def apply_unfold lesson_defs suspend_lesson_def open_route_def resume_lesson_def)
  have "reaches adaptive_step (idle_session ''s'', []) (v, [''c''])"
    using run_reaches [of adaptive_step "(idle_session ''s'', [])" ?as] unfolding v .
  from adaptive_lesson_inv [OF this] v s show ?thesis by blast
qed

theorem boundary_resume_round_trip_witness:
  "\<exists>w t. suspend_lesson ''c'' True awaiting_session = Inr (w, [EventFocusSuspended, EventTutoringStateChanged])
     \<and> resume_lesson ''c'' (run tutoring_step (open_route ''g'' ''k'' w) detour) = Inr t \<and> sess_State t = StateAwaitingResponse"
proof -
  let ?w = "awaiting_session\<lparr>sess_ActiveFrame := Some (boundary_frame ''c'' awaiting_session)\<rparr>"
  have w: "suspend_lesson ''c'' True awaiting_session = Inr (?w, [EventFocusSuspended, EventTutoringStateChanged])"
    by (simp add: suspend_lesson_def awaiting_session_def lesson_defs)
  have "session_inv awaiting_session" "sess_ActiveFrame ?w \<noteq> sess_ActiveFrame awaiting_session"
    by (simp_all add: session_inv_def live_frame_def awaiting_session_def lesson_defs)
  moreover have "\<forall>c \<in> set detour. \<not> leaves_focus (cmd_Action c)" by (simp add: detour_def plain_command_def)
  moreover have "sess_State (run tutoring_step (open_route ''g'' ''k'' ?w) detour)
      \<notin> {StateEvaluating, StateFeedback, StateFreeQuestion, StateFreeAnswer}"
    by (simp add: detour_def tutoring_step_def apply_unfold lesson_defs open_route_def awaiting_session_def)
  ultimately obtain t where "resume_lesson ''c'' (run tutoring_step (open_route ''g'' ''k'' ?w) detour) = Inr t"
      "sess_State t = sess_State awaiting_session"
    using boundary_resume_round_trip [OF _ w] by blast
  with w show ?thesis by (auto simp: awaiting_session_def lesson_session_def)
qed

theorem boundary_committed_witness:
  "\<exists>req t. PrepareAdaptiveBoundary (example_env (example_authority awaiting_session)) (\<lambda>_. Inr ''h'') (example_operation 4) True ''g'' ''k''
       = Some (Inr req)
     \<and> cb_Session (cr_Batch req) = Some t \<and> sess_State t = StateRouteActive \<and> session_inv t"
proof -
  let ?E = "example_env (example_authority awaiting_session)"
  obtain tr where tr: "boundary ?E (example_operation 4) True ''g'' ''k'' = Inr tr" and "EventTutoringStateChanged \<in> set (tr_Events tr)"
    by (simp add: boundary_def session_for_def suspend_lesson_def same_goal_def example_authority_def awaiting_session_def lesson_defs)
  have "transitionDrafts (ce_json ?E) (sess_ID (tr_Session tr)) tr [] \<noteq> None"
    unfolding transitionDrafts_returns_iff by (simp add: no_snapshot_payload_def queued_def)
  then obtain req where req: "PrepareAdaptiveBoundary ?E (\<lambda>_. Inr ''h'') (example_operation 4) True ''g'' ''k'' = Some (Inr req)"
    by (auto simp: PrepareAdaptiveBoundary_def tr adaptive_commit_def commit_request_def Let_def)
  have "session_inv awaiting_session" by (simp add: session_inv_def live_frame_def awaiting_session_def lesson_defs)
  with boundary_committed [OF req, of "\<lparr>sa_Session = awaiting_session, sa_AsOfEventSequence = 7\<rparr>"] req
  show ?thesis by auto
qed

theorem lesson_can_complete_witness:
  "\<exists>v cs. run adaptive_step (idle_session ''s'', [])
       [Lesson (plain_command ActionCreateSession), Lesson (plain_command ActionApplyRoute), Lesson (plain_command ActionAskFreeQuestion)]
         = (v, [])
     \<and> sess_State v = StateFreeQuestion \<and> sess_State (run tutoring_step v cs) = StateCompleted"
proof -
  let ?as = "[Lesson (plain_command ActionCreateSession), Lesson (plain_command ActionApplyRoute), Lesson (plain_command ActionAskFreeQuestion)]"
  obtain v where v: "run adaptive_step (idle_session ''s'', []) ?as = (v, [])" and s: "sess_State v = StateFreeQuestion"
    by (simp add: tutoring_step_def apply_unfold lesson_defs)
  have "reaches adaptive_step (idle_session ''s'', []) (v, [])"
    using run_reaches [of adaptive_step "(idle_session ''s'', [])" ?as] unfolding v .
  from lesson_can_complete [OF this] v s show ?thesis by blast
qed

end
