(* ===== verification/Unicode.thy ===== *)
theory Unicode
  imports Go_Prelude
begin

text \<open>
  UTF-8 and UTF-16 as Go's \<open>unicode/utf8\<close> and \<open>unicode/utf16\<close> have them: encoding a scalar value and decoding
  the front of a string are inverse, a string is valid exactly when it encodes some scalar values, and
  the UTF-16 units of a string determine it.
\<close>

definition scalar :: "nat \<Rightarrow> bool" where
  "scalar r \<longleftrightarrow> r < 0xD800 \<or> (0xE000 \<le> r \<and> r \<le> 0x10FFFF)"

section \<open>UTF-8\<close>

lemma byte_char_of: "n < 256 \<Longrightarrow> byte (char_of n) = n"
  by (simp add: byte_def)

lemma byte_less: "byte c < 256"
  by (simp add: byte_def)

lemma char_of_byte [simp]: "char_of (byte c) = c"
  by (simp add: byte_def)

lemma byte_eq_iff: "n < 256 \<Longrightarrow> byte c = n \<longleftrightarrow> c = char_of n"
  by (auto simp: byte_char_of)

lemma encode_scalar:
  "scalar r \<Longrightarrow> encode_rune r = map char_of
     (if r < 0x80 then [r]
      else if r < 0x800 then [0xC0 + r div 64, 0x80 + r mod 64]
      else if r < 0x10000 then [0xE0 + r div 4096, 0x80 + r div 64 mod 64, 0x80 + r mod 64]
      else [0xF0 + r div 262144, 0x80 + r div 4096 mod 64, 0x80 + r div 64 mod 64, 0x80 + r mod 64])"
proof -
  assume "scalar r"
  then have "\<not> (r > 0x10FFFF \<or> (0xD800 \<le> r \<and> r \<le> 0xDFFF))" by (auto simp: scalar_def)
  then show ?thesis by (simp only: encode_rune_def Let_def if_False)
qed

lemma scalar_cases:
  assumes "scalar r"
  obtains (one) "r < 0x80" "encode_rune r = [char_of r]"
  | (two) a b where "0xC2 \<le> a" "a \<le> 0xDF" "b < 64" "r = (a - 0xC0) * 64 + b" "encode_rune r = map char_of [a, 0x80 + b]"
  | (three) a b c where "0xE0 \<le> a" "a \<le> 0xEF" "b < 64" "c < 64" "a = 0xE0 \<longrightarrow> 0x20 \<le> b" "a = 0xED \<longrightarrow> b < 0x20"
      "r = (a - 0xE0) * 4096 + b * 64 + c" "encode_rune r = map char_of [a, 0x80 + b, 0x80 + c]"
  | (four) a b c d where "0xF0 \<le> a" "a \<le> 0xF4" "b < 64" "c < 64" "d < 64" "a = 0xF0 \<longrightarrow> 0x10 \<le> b" "a = 0xF4 \<longrightarrow> b < 0x10"
      "r = (a - 0xF0) * 262144 + b * 4096 + c * 64 + d" "encode_rune r = map char_of [a, 0x80 + b, 0x80 + c, 0x80 + d]"
proof -
  have ok: "\<not> (r > 0x10FFFF \<or> (0xD800 \<le> r \<and> r \<le> 0xDFFF))" using assms by (auto simp: scalar_def)
  consider "r < 0x80" | "0x80 \<le> r" "r < 0x800" | "0x800 \<le> r" "r < 0x10000" | "0x10000 \<le> r" by linarith
  then show thesis
  proof cases
    case 1
    then show thesis using one assms by (simp add: encode_scalar)
  next
    case 2
    then show thesis using two [of "0xC0 + r div 64" "r mod 64"] assms by (simp add: encode_scalar)
  next
    case 3
    have q: "r div 4096 = r div 64 div 64" by (simp add: div_mult2_eq [symmetric])
    define x y z where "x = r div 4096" and "y = r div 64 mod 64" and "z = r mod 64"
    have "r div 64 * 64 + z = r" "x * 64 + y = r div 64" unfolding z_def y_def x_def q by (simp_all only: div_mult_mod_eq)
    then have r: "r = x * 4096 + y * 64 + z" by linarith
    have "y < 64" "z < 64" by (simp_all add: y_def z_def)
    moreover from this r 3 ok have "x = 0 \<longrightarrow> 32 \<le> y" "x = 13 \<longrightarrow> y < 32" "x < 16" by linarith+
    moreover have "encode_rune r = map char_of [0xE0 + x, 0x80 + y, 0x80 + z]"
      using assms 3 by (simp add: encode_scalar x_def y_def z_def)
    ultimately show thesis using three [of "0xE0 + x" y z] r by simp
  next
    case 4
    have q: "r div 4096 = r div 64 div 64" "r div 262144 = r div 64 div 64 div 64" by (simp_all add: div_mult2_eq [symmetric])
    define x y z u where "x = r div 262144" and "y = r div 4096 mod 64" and "z = r div 64 mod 64" and "u = r mod 64"
    have "r div 64 * 64 + u = r" "r div 4096 * 64 + z = r div 64" "x * 64 + y = r div 4096"
      unfolding u_def z_def y_def x_def q by (simp_all only: div_mult_mod_eq)
    then have r: "r = x * 262144 + y * 4096 + z * 64 + u" by linarith
    have "y < 64" "z < 64" "u < 64" by (simp_all add: y_def z_def u_def)
    moreover from this r 4 ok have "x = 0 \<longrightarrow> 16 \<le> y" "x = 4 \<longrightarrow> y < 16" "x \<le> 4" by linarith+
    moreover have "encode_rune r = map char_of [0xF0 + x, 0x80 + y, 0x80 + z, 0x80 + u]"
      using assms 4 by (simp add: encode_scalar x_def y_def z_def u_def)
    ultimately show thesis using four [of "0xF0 + x" y z u] r by simp
  qed
qed

lemma decode_encode: "scalar r \<Longrightarrow> decode_rune (map byte (encode_rune r @ t)) = (Some r, length (encode_rune r))"
  by (cases rule: scalar_cases, assumption) (auto simp: byte_char_of cont_byte_def)

lemma encode_rune_nonempty [simp]: "encode_rune r \<noteq> []"
  by (simp add: encode_rune_def Let_def)

lemma encode_rune_pos [simp]: "0 < length (encode_rune r)"
  by simp

lemma map_byte_char_of: "\<forall>n \<in> set ns. n < 256 \<Longrightarrow> map byte (map char_of ns) = ns"
  by (induction ns) (simp_all add: byte_char_of)

lemma encode_two: "0xC2 \<le> a \<Longrightarrow> a \<le> 0xDF \<Longrightarrow> b < 64 \<Longrightarrow>
    encode_rune ((a - 0xC0) * 64 + b) = map char_of [a, 0x80 + b] \<and> scalar ((a - 0xC0) * 64 + b)"
proof -
  assume a: "0xC2 \<le> a" "a \<le> 0xDF" "b < 64"
  define x where "x = a - 0xC0"
  have x: "a = 0xC0 + x" "2 \<le> x" "x < 32" using a by (auto simp: x_def)
  show ?thesis using a x by (simp add: encode_scalar scalar_def)
qed

lemma base64_digit: "c < 64 \<Longrightarrow> (y * 64 + c) div 64 = y" "c < 64 \<Longrightarrow> (y * 64 + c) mod 64 = (c :: nat)"
  by simp_all

lemma encode_three:
  assumes "0xE0 \<le> a" "a \<le> 0xEF" "b < 64" "c < 64" "a = 0xE0 \<longrightarrow> 0x20 \<le> b" "a = 0xED \<longrightarrow> b < 0x20"
  shows "encode_rune ((a - 0xE0) * 4096 + b * 64 + c) = map char_of [a, 0x80 + b, 0x80 + c]
     \<and> scalar ((a - 0xE0) * 4096 + b * 64 + c)"
proof -
  define r x where "r = (a - 0xE0) * 4096 + b * 64 + c" and "x = a - 0xE0"
  have x: "x < 16" "a = 0xE0 + x" "x = 0 \<longrightarrow> 0x20 \<le> b" "x = 13 \<longrightarrow> b < 0x20" using assms by (auto simp: x_def)
  have r: "r = (x * 64 + b) * 64 + c" and lin: "r = x * 4096 + b * 64 + c" by (simp_all add: r_def x_def)
  have s: "scalar r"
  proof -
    consider "x \<le> 12" | "x = 13" "b < 32" | "14 \<le> x" using x by linarith
    then show ?thesis
    proof cases
      case 1
      with assms(3,4) have "r < 55296" unfolding lin by linarith
      then show ?thesis by (simp add: scalar_def)
    next
      case 2
      with assms(4) have "r < 55296" unfolding lin by linarith
      then show ?thesis by (simp add: scalar_def)
    next
      case 3
      with assms(3,4) x(1) have "57344 \<le> r" "r \<le> 1114111" unfolding lin by linarith+
      then show ?thesis by (simp add: scalar_def)
    qed
  qed
  moreover have "0x800 \<le> r" using x(3) assms(4) unfolding r by (cases "x = 0") auto
  moreover have "r < 0x10000" using x(1) assms(3,4) unfolding lin by linarith
  moreover have d: "r div 64 = x * 64 + b" "r mod 64 = c" unfolding r using assms(4) by (simp_all only: base64_digit)
  moreover have "r div 4096 = x" "r div 64 mod 64 = b"
    using div_mult2_eq [of r 64 64] assms(3) by (simp_all add: d base64_digit)
  ultimately show ?thesis
    using x(2) unfolding r_def [symmetric] by (simp add: encode_scalar)
qed

lemma encode_four:
  assumes "0xF0 \<le> a" "a \<le> 0xF4" "b < 64" "c < 64" "d < 64" "a = 0xF0 \<longrightarrow> 0x10 \<le> b" "a = 0xF4 \<longrightarrow> b < 0x10"
  shows "encode_rune ((a - 0xF0) * 262144 + b * 4096 + c * 64 + d) = map char_of [a, 0x80 + b, 0x80 + c, 0x80 + d]
     \<and> scalar ((a - 0xF0) * 262144 + b * 4096 + c * 64 + d)"
proof -
  define r x where "r = (a - 0xF0) * 262144 + b * 4096 + c * 64 + d" and "x = a - 0xF0"
  have x: "x \<le> 4" "a = 0xF0 + x" "x = 0 \<longrightarrow> 0x10 \<le> b" "x = 4 \<longrightarrow> b < 0x10" using assms by (auto simp: x_def)
  have r: "r = ((x * 64 + b) * 64 + c) * 64 + d" and lin: "r = x * 262144 + b * 4096 + c * 64 + d" by (simp_all add: r_def x_def)
  have low: "0x10000 \<le> r" using x(3) unfolding r by (cases "x = 0") auto
  have "r \<le> 0x10FFFF"
  proof (cases "x = 4")
    case True
    then show ?thesis using x(4) assms(4,5) unfolding r by simp
  next
    case False
    then have "x \<le> 3" using x(1) by simp
    then show ?thesis using assms(3-5) unfolding lin by linarith
  qed
  with low have s: "scalar r" by (simp add: scalar_def)
  moreover note low
  moreover have e: "r div 64 = (x * 64 + b) * 64 + c" "r mod 64 = d" unfolding r using assms(5) by (simp_all only: base64_digit)
  moreover have f: "r div 4096 = x * 64 + b" "r div 64 mod 64 = c"
    using base64_digit [OF assms(4), of "x * 64 + b"] div_mult2_eq [of r 64 64] by (simp_all only: e) simp_all
  moreover have "r div 262144 = x" "r div 4096 mod 64 = b"
    using div_mult2_eq [of r 4096 64] assms(3) by (simp_all add: f base64_digit)
  ultimately show ?thesis
    using x(2) unfolding r_def [symmetric] by (simp add: encode_scalar)
qed

lemma decode_rune_Some:
  assumes "decode_rune bs = (Some r, w)"
  shows "scalar r \<and> w \<noteq> 0 \<and> take w bs = map byte (encode_rune r)"
proof -
  obtain b0 t where bs: "bs = b0 # t" using assms by (cases bs) auto
  have sub: "n - 128 < 64 \<and> 128 + (n - 128) = n" if "cont_byte n" for n using that by (auto simp: cont_byte_def)
  consider "b0 < 0x80" "r = b0" "w = 1"
    | b1 u where "0xC2 \<le> b0" "b0 \<le> 0xDF" "t = b1 # u" "cont_byte b1" "r = (b0 - 0xC0) * 64 + (b1 - 0x80)" "w = 2"
    | b1 b2 u where "0xE0 \<le> b0" "b0 \<le> 0xEF" "t = b1 # b2 # u" "cont_byte b1" "cont_byte b2" "b0 = 0xE0 \<longrightarrow> 0xA0 \<le> b1" "b0 = 0xED \<longrightarrow> b1 \<le> 0x9F"
       "r = (b0 - 0xE0) * 4096 + (b1 - 0x80) * 64 + (b2 - 0x80)" "w = 3"
    | b1 b2 b3 u where "0xF0 \<le> b0" "b0 \<le> 0xF4" "t = b1 # b2 # b3 # u" "cont_byte b1" "cont_byte b2" "cont_byte b3"
       "b0 = 0xF0 \<longrightarrow> 0x90 \<le> b1" "b0 = 0xF4 \<longrightarrow> b1 \<le> 0x8F"
       "r = (b0 - 0xF0) * 262144 + (b1 - 0x80) * 4096 + (b2 - 0x80) * 64 + (b3 - 0x80)" "w = 4"
    using assms unfolding bs by (auto simp: cont_byte_def split: if_splits list.splits)
  then show ?thesis
  proof cases
    case 1
    then show ?thesis by (simp add: bs scalar_def encode_rune_def byte_char_of)
  next
    case 2
    have "b1 - 128 < 64" "128 + (b1 - 128) = b1" using sub [OF 2(4)] by simp_all
    with 2 encode_two [OF 2(1,2), of "b1 - 128"] show ?thesis by (auto simp: bs byte_char_of cont_byte_def)
  next
    case 3
    have "b1 - 128 < 64" "128 + (b1 - 128) = b1" "b2 - 128 < 64" "128 + (b2 - 128) = b2" using sub [OF 3(4)] sub [OF 3(5)] by simp_all
    moreover have "b0 = 0xE0 \<longrightarrow> 0x20 \<le> b1 - 128" "b0 = 0xED \<longrightarrow> b1 - 128 < 0x20" using 3 by auto
    ultimately show ?thesis using 3 encode_three [OF 3(1,2), of "b1 - 128" "b2 - 128"] by (auto simp: bs byte_char_of cont_byte_def)
  next
    case 4
    have "b1 - 128 < 64" "128 + (b1 - 128) = b1" "b2 - 128 < 64" "128 + (b2 - 128) = b2" "b3 - 128 < 64" "128 + (b3 - 128) = b3"
      using sub [OF 4(4)] sub [OF 4(5)] sub [OF 4(6)] by simp_all
    moreover have "b0 = 0xF0 \<longrightarrow> 0x10 \<le> b1 - 128" "b0 = 0xF4 \<longrightarrow> b1 - 128 < 0x10" using 4 by auto
    ultimately show ?thesis
      using 4 encode_four [OF 4(1,2), of "b1 - 128" "b2 - 128" "b3 - 128"] by (auto simp: bs byte_char_of cont_byte_def)
  qed
qed

lemma chunks_encode:
  assumes "scalar r" shows "chunks (encode_rune r @ t) = (Some r, encode_rune r) # chunks t"
proof -
  obtain c cs where e: "encode_rune r @ t = c # cs" by (cases "encode_rune r @ t") auto
  have w: "max 1 (length (encode_rune r)) = length (encode_rune r)" using encode_rune_pos [of r] by linarith
  have d: "decode_rune (map byte (c # cs)) = (Some r, length (encode_rune r))" using decode_encode [OF assms, of t] by (simp only: e)
  have "chunks (c # cs) = (Some r, take (length (encode_rune r)) (c # cs)) # chunks (drop (length (encode_rune r)) (c # cs))"
    by (simp only: chunks.simps Let_def d prod.case w)
  then show ?thesis by (simp add: e [symmetric])
qed

definition scalars :: "nat list \<Rightarrow> bool" where
  "scalars rs = list_all scalar rs"

lemma scalars_simps [simp]:
  "scalars []" "scalars (r # rs) \<longleftrightarrow> scalar r \<and> scalars rs" "scalars (rs @ us) \<longleftrightarrow> scalars rs \<and> scalars us"
  by (simp_all add: scalars_def)

lemma string_of_runes_simps [simp]:
  "string_of_runes [] = []" "string_of_runes (r # rs) = encode_rune r @ string_of_runes rs"
  "string_of_runes (rs @ us) = string_of_runes rs @ string_of_runes us"
  by (simp_all add: string_of_runes_def)

lemma chunks_runes: "scalars rs \<Longrightarrow> chunks (string_of_runes rs @ t) = map (\<lambda>r. (Some r, encode_rune r)) rs @ chunks t"
  by (induction rs) (simp_all add: chunks_encode)

lemma runes_string_of_runes [simp]: "scalars rs \<Longrightarrow> runes (string_of_runes rs) = rs"
  using chunks_runes [of rs "[]"] by (simp add: runes_def o_def)

lemma valid_string_of_runes [simp]: "scalars rs \<Longrightarrow> valid_utf8 (string_of_runes rs)"
  using chunks_runes [of rs "[]"] by (auto simp: valid_utf8_def)

lemma valid_utf8_cases:
  assumes "valid_utf8 s" obtains rs where "scalars rs" "s = string_of_runes rs"
proof -
  have "\<exists>rs. scalars rs \<and> s = string_of_runes rs"
    using assms
  proof (induction s rule: chunks.induct)
    case 1
    then show ?case by (intro exI [of _ "[]"]) simp
  next
    case (2 c cs)
    obtain x w where d: "decode_rune (map byte (c # cs)) = (x, w)" by fastforce
    have ch: "chunks (c # cs) = (x, take (max 1 w) (c # cs)) # chunks (drop (max 1 w) (c # cs))"
      by (simp only: chunks.simps Let_def d prod.case)
    have rest: "valid_utf8 (drop (max 1 w) (c # cs))" and "x \<noteq> None" using 2(2) unfolding valid_utf8_def ch by auto
    then obtain r where r: "x = Some r" by blast
    have f: "scalar r" "w \<noteq> 0" "take w (map byte (c # cs)) = map byte (encode_rune r)" using decode_rune_Some d r by blast+
    have "map byte (take w (c # cs)) = map byte (encode_rune r)" using f(3) by (simp only: take_map)
    moreover have "inj byte" by (rule injI) (metis char_of_byte)
    ultimately have e: "take w (c # cs) = encode_rune r" by (simp only: inj_map_eq_map)
    obtain rs where rs: "scalars rs" "drop (max 1 w) (c # cs) = string_of_runes rs"
      using "2.IH" [OF HOL.refl d [symmetric] HOL.refl rest] by blast
    have "max 1 w = w" using f(2) by simp
    then have "c # cs = encode_rune r @ string_of_runes rs" using e rs(2) append_take_drop_id [of w "c # cs"] by simp
    then show ?case using rs(1) f(1) by (intro exI [of _ "r # rs"]) simp
  qed
  with that show thesis by blast
qed

lemma valid_utf8_append: "valid_utf8 s \<Longrightarrow> valid_utf8 t \<Longrightarrow> valid_utf8 (s @ t)"
proof -
  assume "valid_utf8 s" "valid_utf8 t"
  then obtain rs us where "scalars rs" "s = string_of_runes rs" "scalars us" "t = string_of_runes us"
    by (metis valid_utf8_cases)
  then show "valid_utf8 (s @ t)" using valid_string_of_runes [of "rs @ us"] by simp
qed

lemma encode_ascii: "n < 0x80 \<Longrightarrow> encode_rune n = [char_of n]"
  by (simp add: encode_scalar scalar_def)

lemma scalar_ascii: "n < 0x80 \<Longrightarrow> scalar n"
  by (simp add: scalar_def)

lemma valid_utf8_Nil [simp]: "valid_utf8 []"
  by (simp add: valid_utf8_def)

lemma valid_utf8_Cons: "byte c < 0x80 \<Longrightarrow> valid_utf8 s \<Longrightarrow> valid_utf8 (c # s)"
  using valid_utf8_append [OF valid_string_of_runes [of "[byte c]"], of s] by (simp add: encode_ascii scalar_ascii)

text \<open>A rune of more than one byte has no byte below 0x80 in its encoding.\<close>

lemma encode_high: "scalar r \<Longrightarrow> 0x80 \<le> r \<Longrightarrow> c \<in> set (encode_rune r) \<Longrightarrow> 0x80 \<le> byte c"
  by (cases rule: scalar_cases, assumption) (auto simp: byte_char_of)

section \<open>UTF-16\<close>

definition utf16_units :: "nat \<Rightarrow> nat list" where
  "utf16_units r =
     (if scalar r then (if r < 0x10000 then [r] else [0xD800 + (r - 0x10000) div 1024, 0xDC00 + (r - 0x10000) mod 1024])
      else [rune_error])"

definition utf16_encode :: "nat list \<Rightarrow> nat list" where
  "utf16_encode rs = concat (map utf16_units rs)"

lemma utf16_encode_simps [simp]: "utf16_encode [] = []" "utf16_encode (r # rs) = utf16_units r @ utf16_encode rs"
  by (simp_all add: utf16_encode_def)

lemma utf16_units_front:
  assumes "scalar r" "scalar u" "utf16_units r @ s = utf16_units u @ t" shows "r = u \<and> s = t"
proof (cases "r < 0x10000 \<or> u < 0x10000")
  case True
  with assms show ?thesis by (auto simp: utf16_units_def scalar_def split: if_splits)
next
  case False
  with assms have q: "(r - 0x10000) div 1024 = (u - 0x10000) div 1024" "(r - 0x10000) mod 1024 = (u - 0x10000) mod 1024" "s = t"
    by (simp_all add: utf16_units_def)
  then have "r - 0x10000 = u - 0x10000" using div_mod_decomp [of "r - 0x10000" 1024] div_mod_decomp [of "u - 0x10000" 1024] by simp
  with False have "r = u" by linarith
  with q(3) show ?thesis by simp
qed

lemma utf16_units_nonempty [simp]: "utf16_units r \<noteq> []"
  by (simp add: utf16_units_def)

lemma utf16_encode_eq_Nil [simp]: "utf16_encode rs = [] \<longleftrightarrow> rs = []"
  by (cases rs) simp_all

lemma utf16_inj: "scalars rs \<Longrightarrow> scalars us \<Longrightarrow> utf16_encode rs = utf16_encode us \<Longrightarrow> rs = us"
proof (induction rs arbitrary: us)
  case Nil
  then have "utf16_encode us = []" by simp
  then show ?case by simp
next
  case (Cons r rs)
  have "utf16_encode us \<noteq> []" using Cons.prems(3) [symmetric] by simp
  then obtain u us' where us: "us = u # us'" by (cases us) simp_all
  have "utf16_units r @ utf16_encode rs = utf16_units u @ utf16_encode us'" using Cons.prems(3) by (simp only: us utf16_encode_simps)
  from utf16_units_front [OF _ _ this] Cons.prems(1,2) have "r = u" "utf16_encode rs = utf16_encode us'" by (simp_all add: us)
  moreover from Cons.IH [OF _ _ this(2)] Cons.prems(1,2) have "rs = us'" by (simp add: us)
  ultimately show ?case by (simp add: us)
qed

end
