(* ===== verification/Jcs.thy ===== *)
theory Jcs
  imports Unicode Learning_Domain
begin

text \<open>
  Canonical JSON, \<open>server/internal/learning/jcs.go\<close>: signed payloads and request hashes are taken over the canonical
  text of a JSON value, so two parties agree on a hash exactly when they agree on the value. The tokens come
  from \<open>encoding/json\<close>, whose \<open>Decoder\<close> is modelled here as far as \<open>decodeJCSValue\<close> uses it (\<open>Token\<close>, \<open>More\<close> and
  \<open>UseNumber\<close>): the state of its token machine, the stack of the states of the enclosing arrays and objects,
  and the input that is left. Numbers are kept as their text.
\<close>

section \<open>Decimal numbers of 63 bits\<close>

definition MaxUint63 :: nat where
  "MaxUint63 = 2 ^ 63 - 1"

definition is_digit :: "char \<Rightarrow> bool" where
  "is_digit c \<longleftrightarrow> 48 \<le> byte c \<and> byte c \<le> 57"

text \<open>The regular expression \<open>^(0|[1-9][0-9]*)$\<close>.\<close>

definition decimal_text :: "string \<Rightarrow> bool" where
  "decimal_text s \<longleftrightarrow> s \<noteq> [] \<and> list_all is_digit s \<and> (hd s = CHR ''0'' \<longrightarrow> tl s = [])"

definition decimal_value :: "string \<Rightarrow> nat" where
  "decimal_value s = foldl (\<lambda>n c. 10 * n + (byte c - 48)) 0 s"

definition ParseUint63Decimal :: "string \<Rightarrow> error + nat" where
  "ParseUint63Decimal s =
     (if \<not> decimal_text s then Inl (PlainError ''invalid uint63 decimal'')
      else if decimal_value s > MaxUint63 then Inl (PlainError ''uint63 decimal out of range'')
      else Inr (decimal_value s))"

definition FormatUint63Decimal :: "nat \<Rightarrow> error + string" where
  "FormatUint63Decimal n = (if n > MaxUint63 then Inl (PlainError ''uint63 decimal out of range'') else Inr (nat_text n))"

section \<open>The check of Unicode escapes\<close>

text \<open>Four hexadecimal digits at the front: \<open>parseHex16\<close>.\<close>

definition hex_nibble :: "char \<Rightarrow> nat option" where
  "hex_nibble c =
     (let n = byte c
      in if 48 \<le> n \<and> n \<le> 57 then Some (n - 48)
         else if 97 \<le> n \<and> n \<le> 102 then Some (n - 97 + 10)
         else if 65 \<le> n \<and> n \<le> 70 then Some (n - 65 + 10)
         else None)"

fun parseHex16 :: "string \<Rightarrow> nat option" where
  "parseHex16 (a # b # c # d # s) =
     (case (hex_nibble a, hex_nibble b, hex_nibble c, hex_nibble d) of
        (Some x, Some y, Some z, Some u) \<Rightarrow> Some (((x * 16 + y) * 16 + z) * 16 + u)
      | _ \<Rightarrow> None)"
| "parseHex16 _ = None"

definition high_surrogate :: "nat \<Rightarrow> bool" where "high_surrogate n \<longleftrightarrow> 0xD800 \<le> n \<and> n \<le> 0xDBFF"
definition low_surrogate :: "nat \<Rightarrow> bool" where "low_surrogate n \<longleftrightarrow> 0xDC00 \<le> n \<and> n \<le> 0xDFFF"

text \<open>The loop over the input, with the flag \<open>inString\<close>. In the branch of a \<open>\u\<close> escape, \<open>s\<close> is the input after it.\<close>

function validateJCSUnicodeEscapes :: "bool \<Rightarrow> string \<Rightarrow> error option" where
  "validateJCSUnicodeEscapes inString [] = None"
| "validateJCSUnicodeEscapes inString (c # cs) =
     (if c = CHR 0x22 then validateJCSUnicodeEscapes (\<not> inString) cs
      else if c \<noteq> CHR 0x5C \<or> \<not> inString \<or> cs = [] then validateJCSUnicodeEscapes inString cs
      else if hd cs \<noteq> CHR ''u'' then validateJCSUnicodeEscapes inString (tl cs)
      else
        (let s = tl cs
         in case parseHex16 s of
              None \<Rightarrow> validateJCSUnicodeEscapes inString cs
            | Some v \<Rightarrow>
                if high_surrogate v then
                  (if length s < 10 \<or> s ! 4 \<noteq> CHR 0x5C \<or> s ! 5 \<noteq> CHR ''u''
                   then Some (PlainError ''JCS input contains an unpaired high surrogate'')
                   else case parseHex16 (drop 6 s) of
                          None \<Rightarrow> Some (PlainError ''JCS input contains an unpaired high surrogate'')
                        | Some low \<Rightarrow>
                            if \<not> low_surrogate low then Some (PlainError ''JCS input contains an unpaired high surrogate'')
                            else validateJCSUnicodeEscapes inString (drop 10 s))
                else if low_surrogate v then Some (PlainError ''JCS input contains an unpaired low surrogate'')
                else validateJCSUnicodeEscapes inString (drop 4 s)))"
  by pat_completeness auto
termination
  by (relation "measure (length \<circ> snd)") auto

section \<open>Tokens\<close>

text \<open>A string literal after its opening quote: the runes it denotes, and the input behind the closing quote.\<close>

definition simple_escape :: "char \<Rightarrow> nat option" where
  "simple_escape c =
     (if c = CHR 0x22 \<or> c = CHR 0x5C \<or> c = CHR ''/'' then Some (byte c)
      else if c = CHR ''b'' then Some 8 else if c = CHR ''f'' then Some 12 else if c = CHR ''n'' then Some 10
      else if c = CHR ''r'' then Some 13 else if c = CHR ''t'' then Some 9 else None)"

definition prepend :: "nat \<Rightarrow> (nat list \<times> string) option \<Rightarrow> (nat list \<times> string) option" where
  "prepend r x = map_option (\<lambda>(rs, rest). (r # rs, rest)) x"

definition surrogate_pair :: "nat \<Rightarrow> string \<Rightarrow> nat option" where
  "surrogate_pair high s =
     (if high_surrogate high \<and> take 2 s = [CHR 0x5C, CHR ''u''] then
        (case parseHex16 (drop 2 s) of
           None \<Rightarrow> None
         | Some low \<Rightarrow> if low_surrogate low then Some (0x10000 + (high - 0xD800) * 1024 + (low - 0xDC00)) else None)
      else None)"

function string_literal :: "string \<Rightarrow> (nat list \<times> string) option" where
  "string_literal [] = None"
| "string_literal (c # cs) =
     (if c = CHR 0x22 then Some ([], cs)
      else if c = CHR 0x5C then
        (case cs of
           [] \<Rightarrow> None
         | e # s \<Rightarrow>
             if e = CHR ''u'' then
               (case parseHex16 s of
                  None \<Rightarrow> None
                | Some v \<Rightarrow>
                    (case surrogate_pair v (drop 4 s) of
                       Some r \<Rightarrow> prepend r (string_literal (drop 10 s))
                     | None \<Rightarrow> prepend (if scalar v then v else rune_error) (string_literal (drop 4 s))))
             else (case simple_escape e of None \<Rightarrow> None | Some r \<Rightarrow> prepend r (string_literal s)))
      else if byte c < 0x20 then None
      else
        (let (r, w) = decode_rune (map byte (c # cs))
         in prepend (case r of None \<Rightarrow> rune_error | Some r \<Rightarrow> r) (string_literal (drop (max 1 w) (c # cs)))))"
  by pat_completeness auto
termination
  by (relation "measure length") auto

text \<open>A number literal by the scanner's states: sign, integer part, fraction, exponent.\<close>

definition digits :: "string \<Rightarrow> string \<times> string" where
  "digits s = (takeWhile is_digit s, dropWhile is_digit s)"

definition integer_part :: "string \<Rightarrow> (string \<times> string) option" where
  "integer_part s =
     (case s of
        [] \<Rightarrow> None
      | c # cs \<Rightarrow> if c = CHR ''0'' then Some ([c], cs) else if is_digit c then Some (digits s) else None)"

definition fraction_part :: "string \<Rightarrow> (string \<times> string) option" where
  "fraction_part s =
     (case s of
        c # cs \<Rightarrow> if c = CHR ''.'' then (if fst (digits cs) = [] then None else Some (c # fst (digits cs), snd (digits cs))) else Some ([], s)
      | [] \<Rightarrow> Some ([], s))"

definition exponent_part :: "string \<Rightarrow> (string \<times> string) option" where
  "exponent_part s =
     (case s of
        c # cs \<Rightarrow>
          if c = CHR ''e'' \<or> c = CHR ''E'' then
            (let sign = (if cs \<noteq> [] \<and> (hd cs = CHR ''+'' \<or> hd cs = CHR ''-'') then [hd cs] else []);
                 (ds, rest) = digits (drop (length sign) cs)
             in if ds = [] then None else Some (c # sign @ ds, rest))
          else Some ([], s)
      | [] \<Rightarrow> Some ([], s))"

definition number_literal :: "string \<Rightarrow> (string \<times> string) option" where
  "number_literal s =
     (let sign = (if s \<noteq> [] \<and> hd s = CHR ''-'' then ''-'' else [])
      in case integer_part (drop (length sign) s) of
           None \<Rightarrow> None
         | Some (i, s1) \<Rightarrow>
             (case fraction_part s1 of
                None \<Rightarrow> None
              | Some (f, s2) \<Rightarrow> (case exponent_part s2 of None \<Rightarrow> None | Some (e, s3) \<Rightarrow> Some (sign @ i @ f @ e, s3))))"

datatype token = TDelim char | TString string | TNumber string | TBool bool | TNull

text \<open>\<open>Decoder.Decode\<close> at the front of a value that is no array or object.\<close>

definition word_literal :: "string \<Rightarrow> token \<Rightarrow> string \<Rightarrow> (token \<times> string) option" where
  "word_literal w t s = (if take (length w) s = w then Some (t, drop (length w) s) else None)"

definition scalar_literal :: "string \<Rightarrow> (token \<times> string) option" where
  "scalar_literal s =
     (if s = [] then None
      else if hd s = CHR 0x22 then map_option (\<lambda>(rs, rest). (TString (string_of_runes rs), rest)) (string_literal (tl s))
      else if hd s = CHR ''t'' then word_literal ''true'' (TBool True) s
      else if hd s = CHR ''f'' then word_literal ''false'' (TBool False) s
      else if hd s = CHR ''n'' then word_literal ''null'' TNull s
      else map_option (\<lambda>(n, rest). (TNumber n, rest)) (number_literal s))"

datatype token_state =
  TopValue | ArrayStart | ArrayValue | ArrayComma | ObjectStart | ObjectKey | ObjectColon | ObjectValue | ObjectComma

record decoder =
  dec_Input :: string
  dec_State :: token_state
  dec_Stack :: "token_state list"

datatype json_error = EndOfInput | SyntaxError

definition json_space :: "char \<Rightarrow> bool" where
  "json_space c \<longleftrightarrow> c = CHR 0x20 \<or> c = CHR 0x09 \<or> c = CHR 0x0A \<or> c = CHR 0x0D"

definition skip_space :: "string \<Rightarrow> string" where
  "skip_space s = dropWhile json_space s"

definition tokenValueAllowed :: "token_state \<Rightarrow> bool" where
  "tokenValueAllowed st \<longleftrightarrow> st \<in> {TopValue, ArrayStart, ArrayValue, ObjectValue}"

definition tokenValueEnd :: "token_state \<Rightarrow> token_state" where
  "tokenValueEnd st =
     (if st \<in> {ArrayStart, ArrayValue} then ArrayComma else if st = ObjectValue then ObjectComma else st)"

text \<open>Opening pushes the state; closing restores the state of the value that has just ended.\<close>

definition opened :: "string \<Rightarrow> token_state \<Rightarrow> decoder \<Rightarrow> decoder" where
  "opened cs st d = \<lparr>dec_Input = cs, dec_State = st, dec_Stack = dec_State d # dec_Stack d\<rparr>"

definition closed :: "string \<Rightarrow> decoder \<Rightarrow> decoder" where
  "closed cs d = \<lparr>dec_Input = cs, dec_State = tokenValueEnd (hd (dec_Stack d)), dec_Stack = tl (dec_Stack d)\<rparr>"

function Token :: "decoder \<Rightarrow> json_error + token \<times> decoder" where
  "Token d =
     (case skip_space (dec_Input d) of
        [] \<Rightarrow> Inl EndOfInput
      | c # cs \<Rightarrow>
          let st = dec_State d
          in if c = CHR ''['' then
               (if tokenValueAllowed st then Inr (TDelim c, opened cs ArrayStart d) else Inl SyntaxError)
             else if c = CHR '']'' then
               (if st = ArrayStart \<or> st = ArrayComma then Inr (TDelim c, closed cs d) else Inl SyntaxError)
             else if c = CHR ''{'' then
               (if tokenValueAllowed st then Inr (TDelim c, opened cs ObjectStart d) else Inl SyntaxError)
             else if c = CHR ''}'' then
               (if st = ObjectStart \<or> st = ObjectComma then Inr (TDelim c, closed cs d) else Inl SyntaxError)
             else if c = CHR '':'' then
               (if st = ObjectColon then Token (d\<lparr>dec_Input := cs, dec_State := ObjectValue\<rparr>) else Inl SyntaxError)
             else if c = CHR '','' then
               (if st = ArrayComma then Token (d\<lparr>dec_Input := cs, dec_State := ArrayValue\<rparr>)
                else if st = ObjectComma then Token (d\<lparr>dec_Input := cs, dec_State := ObjectKey\<rparr>)
                else Inl SyntaxError)
             else if c = CHR 0x22 \<and> (st = ObjectStart \<or> st = ObjectKey) then
               (case scalar_literal (c # cs) of
                  None \<Rightarrow> Inl SyntaxError
                | Some (t, rest) \<Rightarrow> Inr (t, d\<lparr>dec_Input := rest, dec_State := ObjectColon\<rparr>))
             else if \<not> tokenValueAllowed st then Inl SyntaxError
             else
               (case scalar_literal (c # cs) of
                  None \<Rightarrow> Inl SyntaxError
                | Some (t, rest) \<Rightarrow> Inr (t, d\<lparr>dec_Input := rest, dec_State := tokenValueEnd st\<rparr>)))"
  by pat_completeness auto

lemma skip_space_Cons: "skip_space s = c # cs \<Longrightarrow> length cs < length s"
  using length_dropWhile_le [of json_space s] by (simp add: skip_space_def)

termination Token
  by (relation "measure (length \<circ> dec_Input)") (auto dest: skip_space_Cons)

declare Token.simps [simp del]

definition More :: "decoder \<Rightarrow> bool" where
  "More d = (case skip_space (dec_Input d) of [] \<Rightarrow> False | c # cs \<Rightarrow> c \<noteq> CHR '']'' \<and> c \<noteq> CHR ''}'')"

section \<open>Values\<close>

datatype jcs =
    CNull
  | CBool bool
  | CString string
  | CNumber string
  | CArray "jcs list"
  | CObject "(string \<times> jcs) list"

text \<open>The regular expression \<open>^-?(0|[1-9][0-9]*)$\<close> and the value \<open>strconv.ParseInt\<close> reads.\<close>

definition integer_text :: "string \<Rightarrow> bool" where
  "integer_text s \<longleftrightarrow> decimal_text (if s \<noteq> [] \<and> hd s = CHR ''-'' then tl s else s)"

definition integer_value :: "string \<Rightarrow> int" where
  "integer_value s = (if s \<noteq> [] \<and> hd s = CHR ''-'' then - int (decimal_value (tl s)) else int (decimal_value s))"

definition jcs_number :: "string \<Rightarrow> error + jcs" where
  "jcs_number s =
     (if \<not> integer_text s then Inl (PlainError ''JCS profile rejects floating-point number'')
      else
        (let s = (if s = ''-0'' then ''0'' else s)
         in if \<not> in_int64 (integer_value s) then Inl (PlainError ''JCS integer is outside int64'') else Inr (CNumber s)))"

text \<open>
  The command line client has its own copy of this file (\<open>clients/cli-go/internal/offline/jcs.go\<close>). It differs in the texts
  of its errors, which are the same for the model, and in how a number is read: the client refuses \<open>-0\<close>.
\<close>

definition client_number :: "string \<Rightarrow> error + jcs" where
  "client_number s =
     (if \<not> integer_text s \<or> s = ''-0'' then Inl (PlainError ''JCS profile rejects floating-point number'')
      else if \<not> in_int64 (integer_value s) then Inl (PlainError ''JCS integer is outside int64'') else Inr (CNumber s))"

type_synonym number_reader = "string \<Rightarrow> error + jcs"

definition jcs_error :: error where
  "jcs_error = PlainError ''invalid JSON''"

definition next_token :: "decoder \<Rightarrow> error + token \<times> decoder" where
  "next_token d = map_sum (\<lambda>_. jcs_error) id (Token d)"

text \<open>
  \<open>decodeJCSValue\<close> with its two loops; \<open>num\<close> reads a number. The fuel bounds the depth of the calls; \<open>None\<close> is running out of it,
  which \<open>CanonicalizeJCS_returns\<close> excludes for the fuel \<open>CanonicalizeJCS\<close> gives.
\<close>

fun decodeJCSValue :: "number_reader \<Rightarrow> nat \<Rightarrow> decoder \<Rightarrow> (error + jcs \<times> decoder) option"
and decode_entries :: "number_reader \<Rightarrow> nat \<Rightarrow> (string \<times> jcs) list \<Rightarrow> decoder \<Rightarrow> (error + jcs \<times> decoder) option"
and decode_items :: "number_reader \<Rightarrow> nat \<Rightarrow> jcs list \<Rightarrow> decoder \<Rightarrow> (error + jcs \<times> decoder) option" where
  "decodeJCSValue num 0 d = None"
| "decodeJCSValue num (Suc n) d =
     (case next_token d of
        Inl e \<Rightarrow> Some (Inl e)
      | Inr (t, d') \<Rightarrow>
          (case t of
             TDelim c \<Rightarrow> if c = CHR ''{'' then decode_entries num n [] d'
                         else if c = CHR ''['' then decode_items num n [] d'
                         else Some (Inl (PlainError ''unexpected JCS delimiter''))
           | TNumber s \<Rightarrow> Some (map_sum id (\<lambda>v. (v, d')) (num s))
           | TString s \<Rightarrow> Some (Inr (CString s, d'))
           | TBool b \<Rightarrow> Some (Inr (CBool b, d'))
           | TNull \<Rightarrow> Some (Inr (CNull, d'))))"
| "decode_entries num 0 es d = None"
| "decode_entries num (Suc n) es d =
     (if More d then
        (case next_token d of
           Inl e \<Rightarrow> Some (Inl e)
         | Inr (t, d') \<Rightarrow>
             (case t of
                TString k \<Rightarrow>
                  if k \<in> fst ` set es then Some (Inl (PlainError ''JCS object contains duplicate key''))
                  else
                    (case decodeJCSValue num n d' of
                       None \<Rightarrow> None
                     | Some (Inl e) \<Rightarrow> Some (Inl e)
                     | Some (Inr (v, d'')) \<Rightarrow> decode_entries num n (es @ [(k, v)]) d'')
              | _ \<Rightarrow> Some (Inl (PlainError ''JCS object key is not a string''))))
      else
        (case next_token d of
           Inl e \<Rightarrow> Some (Inl (PlainError ''JCS object is not closed''))
         | Inr (t, d') \<Rightarrow> if t = TDelim (CHR ''}'') then Some (Inr (CObject es, d')) else Some (Inl (PlainError ''JCS object is not closed''))))"
| "decode_items num 0 vs d = None"
| "decode_items num (Suc n) vs d =
     (if More d then
        (case decodeJCSValue num n d of
           None \<Rightarrow> None
         | Some (Inl e) \<Rightarrow> Some (Inl e)
         | Some (Inr (v, d')) \<Rightarrow> decode_items num n (vs @ [v]) d')
      else
        (case next_token d of
           Inl e \<Rightarrow> Some (Inl (PlainError ''JCS array is not closed''))
         | Inr (t, d') \<Rightarrow> if t = TDelim (CHR '']'') then Some (Inr (CArray vs, d')) else Some (Inl (PlainError ''JCS array is not closed''))))"

section \<open>Canonical text\<close>

fun units_less :: "nat list \<Rightarrow> nat list \<Rightarrow> bool" where
  "units_less (a # l) (b # r) = (if a \<noteq> b then a < b else units_less l r)"
| "units_less [] r = (r \<noteq> [])"
| "units_less (a # l) [] = False"

definition utf16Less :: "string \<Rightarrow> string \<Rightarrow> bool" where
  "utf16Less left right = units_less (utf16_encode (runes left)) (utf16_encode (runes right))"

definition rune_escape :: "nat \<Rightarrow> string" where
  "rune_escape r =
     (if r = 0x22 \<or> r = 0x5C then CHR 0x5C # encode_rune r
      else if r = 8 then [CHR 0x5C, CHR ''b''] else if r = 9 then [CHR 0x5C, CHR ''t''] else if r = 10 then [CHR 0x5C, CHR ''n'']
      else if r = 12 then [CHR 0x5C, CHR ''f''] else if r = 13 then [CHR 0x5C, CHR ''r'']
      else if r < 0x20 then [CHR 0x5C, CHR ''u'', CHR ''0'', CHR ''0'', hex_digit (r div 16), hex_digit (r mod 16)]
      else encode_rune r)"

definition appendJCSString :: "string \<Rightarrow> string" where
  "appendJCSString s = [CHR 0x22] @ concat (map rune_escape (runes s)) @ [CHR 0x22]"

definition key_less :: "string \<times> 'a \<Rightarrow> string \<times> 'a \<Rightarrow> bool" where
  "key_less a b = utf16Less (fst a) (fst b)"

lemma size_entry: "e \<in> set es \<Longrightarrow> size (snd e) < size (CObject es)"
  by (induction es) auto

function appendJCSValue :: "jcs \<Rightarrow> string" where
  "appendJCSValue CNull = ''null''"
| "appendJCSValue (CBool b) = (if b then ''true'' else ''false'')"
| "appendJCSValue (CString s) = appendJCSString s"
| "appendJCSValue (CNumber s) = s"
| "appendJCSValue (CArray vs) = ''['' @ join '','' (map appendJCSValue vs) @ '']''"
| "appendJCSValue (CObject es) =
     ''{'' @ join '','' (map (\<lambda>e. appendJCSString (fst e) @ '':'' @ appendJCSValue (snd e)) (go_sort key_less es)) @ ''}''"
  by pat_completeness auto
termination
  by (relation "measure size") (auto simp: less_Suc_eq_le intro: size_list_estimation' dest: size_entry)

text \<open>
  \<open>CanonicalizeJCS\<close>. The first of the checks that fails gives the error.
\<close>

definition canonicalize :: "number_reader \<Rightarrow> string \<Rightarrow> (error + string) option" where
  "canonicalize num input =
     (if \<not> valid_utf8 input then Some (Inl (PlainError ''JCS input is not UTF-8''))
      else
        (case validateJCSUnicodeEscapes False input of
           Some e \<Rightarrow> Some (Inl e)
         | None \<Rightarrow>
             (case decodeJCSValue num (2 * length input + 1) \<lparr>dec_Input = input, dec_State = TopValue, dec_Stack = []\<rparr> of
                None \<Rightarrow> None
              | Some (Inl e) \<Rightarrow> Some (Inl e)
              | Some (Inr (v, d)) \<Rightarrow>
                  Some (if Token d \<noteq> Inl EndOfInput then Inl (PlainError ''JCS input has trailing content'')
                        else Inr (appendJCSValue v)))))"

definition CanonicalizeJCS :: "string \<Rightarrow> (error + string) option" where
  "CanonicalizeJCS = canonicalize jcs_number"

definition ClientCanonicalizeJCS :: "string \<Rightarrow> (error + string) option" where
  "ClientCanonicalizeJCS = canonicalize client_number"

definition JCSSHA256 :: "golib \<Rightarrow> string \<Rightarrow> (error + string) option" where
  "JCSSHA256 L input = map_option (map_sum id (\<lambda>canonical. hex_encode (lib_sha256 L canonical))) (CanonicalizeJCS input)"

end
