(* ===== verification/Jcs_Canonical.thy ===== *)
theory Jcs_Canonical
  imports Jcs
begin

text \<open>
  The canonical text of theory \<open>Jcs\<close>: the decoder returns for every input, printing and decoding are inverse up to
  the order of the entries of objects, the canonical text is a fixed point of \<open>CanonicalizeJCS\<close>, and it is
  the same for two values exactly when they have the same sorted form.
\<close>

section \<open>Tokens consume input\<close>

declare decode_rune.simps [simp del]

lemma parseHex16_Some: "parseHex16 s = Some v \<Longrightarrow> 4 \<le> length s"
  by (cases s rule: parseHex16.cases) simp_all

lemma prepend_Some: "prepend r x = Some (rs, rest) \<longleftrightarrow> (\<exists>us. x = Some (us, rest) \<and> rs = r # us)"
  by (auto simp: prepend_def)

lemma hex_nibble_less: "hex_nibble c = Some n \<Longrightarrow> n < 16"
  by (auto simp: hex_nibble_def Let_def split: if_splits)

lemma simple_escape_scalar: "simple_escape c = Some r \<Longrightarrow> scalar r"
  by (auto simp: simple_escape_def scalar_def byte_def split: if_splits)

lemma surrogate_pair_scalar: "surrogate_pair high s = Some r \<Longrightarrow> scalar r"
  by (auto simp: surrogate_pair_def scalar_def high_surrogate_def low_surrogate_def split: if_splits option.splits)

lemma scalar_rune_error: "scalar rune_error"
  by (simp add: rune_error_def scalar_def)

lemma string_literal_Some: "string_literal s = Some (rs, rest) \<Longrightarrow> length rest < length s \<and> scalars rs"
proof (induction s arbitrary: rs rest rule: string_literal.induct)
  case 1
  then show ?case by simp
next
  case (2 c cs)
  consider "c = CHR 0x22" | "c = CHR 0x5C" | "c \<noteq> CHR 0x22" "c \<noteq> CHR 0x5C" by blast
  then show ?case
  proof cases
    case 1
    with "2.prems" show ?thesis by simp
  next
    case 2
    note c = 2
    then obtain e s where cs: "cs = e # s" using "2.prems" by (cases cs) auto
    show ?thesis
    proof (cases "e = CHR ''u''")
      case True
      then obtain v where v: "parseHex16 s = Some v" using "2.prems" c by (auto simp: cs split: option.splits)
      show ?thesis
      proof (cases "surrogate_pair v (drop 4 s)")
        case None
        with "2.prems" c cs True v obtain us where us: "string_literal (drop 4 s) = Some (us, rest)"
          "rs = (if scalar v then v else rune_error) # us" by (auto simp: prepend_Some)
        from "2.IH"(1) [OF _ c cs True v None us(1)] c us(2) show ?thesis
          using scalar_rune_error by (auto simp: cs)
      next
        case (Some r)
        with "2.prems" c cs True v obtain us where us: "string_literal (drop 10 s) = Some (us, rest)" "rs = r # us" by (auto simp: prepend_Some)
        from "2.IH"(2) [OF _ c cs True v Some us(1)] c us(2) surrogate_pair_scalar [OF Some] show ?thesis by (auto simp: cs)
      qed
    next
      case False
      then obtain r us where r: "simple_escape e = Some r" and us: "string_literal s = Some (us, rest)" "rs = r # us"
        using "2.prems" c by (auto simp: cs prepend_Some split: option.splits)
      from "2.IH"(3) [OF _ c cs False r us(1)] c us(2) simple_escape_scalar [OF r] show ?thesis by (auto simp: cs)
    qed
  next
    case 3
    obtain x w where d: "decode_rune (map byte (c # cs)) = (x, w)" by fastforce
    have low: "\<not> byte c < 0x20" using "2.prems" 3 by (auto split: if_splits)
    obtain us where us: "string_literal (drop (max 1 w) (c # cs)) = Some (us, rest)"
      and rs: "rs = (case x of None \<Rightarrow> rune_error | Some r \<Rightarrow> r) # us"
      using "2.prems" 3 low by (simp only: string_literal.simps d Let_def prod.case if_False prepend_Some) blast
    have x: "scalar (case x of None \<Rightarrow> rune_error | Some r \<Rightarrow> r)"
    proof (cases x)
      case None
      then show ?thesis using scalar_rune_error by simp
    next
      case (Some r)
      with decode_rune_Some d show ?thesis by auto
    qed
    have "length rest < length (drop (max 1 w) (c # cs)) \<and> scalars us"
      by (rule "2.IH"(4) [OF 3 low d [symmetric] HOL.refl us])
    then show ?thesis using rs x by auto
  qed
qed

lemma integer_part_Some: "integer_part s = Some (i, rest) \<Longrightarrow> s = i @ rest \<and> i \<noteq> []"
  by (auto simp: integer_part_def digits_def split: list.splits if_splits)

lemma fraction_part_Some: "fraction_part s = Some (f, rest) \<Longrightarrow> s = f @ rest"
  by (auto simp: fraction_part_def digits_def split: list.splits if_splits)

lemma exponent_part_Some: "exponent_part s = Some (e, rest) \<Longrightarrow> s = e @ rest"
proof (cases s)
  case (Cons c cs)
  assume "exponent_part s = Some (e, rest)"
  then show ?thesis by (cases cs) (auto simp: Cons exponent_part_def digits_def Let_def split: if_splits)
qed (simp add: exponent_part_def)

lemma number_literal_Some: "number_literal s = Some (n, rest) \<Longrightarrow> s = n @ rest \<and> n \<noteq> []"
proof -
  assume a: "number_literal s = Some (n, rest)"
  define sign where "sign = (if s \<noteq> [] \<and> hd s = CHR ''-'' then ''-'' else [])"
  obtain i s1 f s2 e where p: "integer_part (drop (length sign) s) = Some (i, s1)" "fraction_part s1 = Some (f, s2)"
    "exponent_part s2 = Some (e, rest)" "n = sign @ i @ f @ e"
    using a unfolding number_literal_def sign_def [symmetric] Let_def by (auto split: option.splits)
  have "s = sign @ drop (length sign) s" by (cases s) (simp_all add: sign_def)
  with integer_part_Some [OF p(1)] fraction_part_Some [OF p(2)] exponent_part_Some [OF p(3)] p(4) show ?thesis by auto
qed

text \<open>What a token is that is no delimiter.\<close>

fun proper_token :: "token \<Rightarrow> bool" where
  "proper_token (TString s) = valid_utf8 s"
| "proper_token (TDelim c) = (c = CHR ''['' \<or> c = CHR '']'' \<or> c = CHR ''{'' \<or> c = CHR ''}'')"
| "proper_token _ = True"

lemma scalar_literal_Some: "scalar_literal s = Some (t, rest) \<Longrightarrow> length rest < length s \<and> proper_token t"
proof -
  assume a: "scalar_literal s = Some (t, rest)"
  then obtain c cs where s: "s = c # cs" by (cases s) (simp_all add: scalar_literal_def)
  have word: "word_literal w u s = Some (t, rest) \<Longrightarrow> w \<noteq> [] \<Longrightarrow> t = u \<and> length rest < length s" for w u
    by (auto simp: word_literal_def s split: if_splits)
  consider "c = CHR 0x22" | "c = CHR ''t''" | "c = CHR ''f''" | "c = CHR ''n''"
    | "c \<noteq> CHR 0x22" "c \<noteq> CHR ''t''" "c \<noteq> CHR ''f''" "c \<noteq> CHR ''n''" by blast
  then show ?thesis
  proof cases
    case 1
    with a obtain rs where "string_literal cs = Some (rs, rest)" "t = TString (string_of_runes rs)" by (auto simp: scalar_literal_def s)
    with string_literal_Some [OF this(1)] show ?thesis by (simp add: s)
  next
    case 2
    with a word [of "''true''" "TBool True"] show ?thesis by (simp add: scalar_literal_def s)
  next
    case 3
    with a word [of "''false''" "TBool False"] show ?thesis by (simp add: scalar_literal_def s)
  next
    case 4
    with a word [of "''null''" TNull] show ?thesis by (simp add: scalar_literal_def s)
  next
    case 5
    with a obtain n where "number_literal s = Some (n, rest)" "t = TNumber n" by (auto simp: scalar_literal_def s)
    with number_literal_Some [OF this(1)] show ?thesis by auto
  qed
qed

lemma skip_space_length: "length (skip_space s) \<le> length s"
  by (simp add: skip_space_def length_dropWhile_le)

lemma Token_Some: "Token d = Inr (t, d') \<Longrightarrow> length (dec_Input d') < length (dec_Input d) \<and> proper_token t"
proof (induction d arbitrary: t d' rule: Token.induct)
  case (1 d)
  obtain c cs where s: "skip_space (dec_Input d) = c # cs" using "1.prems" by (cases "skip_space (dec_Input d)") (simp_all add: Token.simps [of d])
  note len = skip_space_Cons [OF s]
  have lit: "scalar_literal (c # cs) = Some (t, dec_Input d') \<Longrightarrow> ?case"
    using scalar_literal_Some [of "c # cs" t "dec_Input d'"] len by simp
  consider (delim) "c = CHR ''['' \<or> c = CHR '']'' \<or> c = CHR ''{'' \<or> c = CHR ''}''" | (colon) "c = CHR '':''" | (comma) "c = CHR '',''"
    | (other) "c \<noteq> CHR ''[''" "c \<noteq> CHR '']''" "c \<noteq> CHR ''{''" "c \<noteq> CHR ''}''" "c \<noteq> CHR '':''" "c \<noteq> CHR '',''" by blast
  then show ?case
  proof cases
    case delim
    with "1.prems" len show ?thesis by (auto simp: Token.simps [of d] s opened_def closed_def Let_def split: if_splits)
  next
    case colon
    then have st: "dec_State d = ObjectColon" and r: "Token (d\<lparr>dec_Input := cs, dec_State := ObjectValue\<rparr>) = Inr (t, d')"
      using "1.prems" by (auto simp: Token.simps [of d] s split: if_splits)
    have "length (dec_Input d') < length (dec_Input (d\<lparr>dec_Input := cs, dec_State := ObjectValue\<rparr>)) \<and> proper_token t"
      by (rule "1.IH"(1) [OF s HOL.refl _ _ _ _ colon st r]) (simp_all add: colon)
    with len show ?thesis by simp
  next
    case comma
    then consider "dec_State d = ArrayComma" "Token (d\<lparr>dec_Input := cs, dec_State := ArrayValue\<rparr>) = Inr (t, d')"
      | "dec_State d = ObjectComma" "Token (d\<lparr>dec_Input := cs, dec_State := ObjectKey\<rparr>) = Inr (t, d')"
      using "1.prems" by (auto simp: Token.simps [of d] s Let_def split: if_splits)
    then show ?thesis
    proof cases
      case 1
      have "length (dec_Input d') < length (dec_Input (d\<lparr>dec_Input := cs, dec_State := ArrayValue\<rparr>)) \<and> proper_token t"
        by (rule "1.IH"(2) [OF s HOL.refl _ _ _ _ _ comma 1(1,2)]) (simp_all add: comma)
      with len show ?thesis by simp
    next
      case 2
      have "length (dec_Input d') < length (dec_Input (d\<lparr>dec_Input := cs, dec_State := ObjectKey\<rparr>)) \<and> proper_token t"
        by (rule "1.IH"(3) [OF s HOL.refl _ _ _ _ _ comma _ 2(1,2)]) (simp_all add: comma 2(1))
      with len show ?thesis by simp
    qed
  next
    case other
    then have "scalar_literal (c # cs) = Some (t, dec_Input d')"
      using "1.prems" by (auto simp: Token.simps [of d] s Let_def split: if_splits option.splits)
    then show ?thesis by (rule lit)
  qed
qed

lemma next_token_Some: "next_token d = Inr (t, d') \<Longrightarrow> length (dec_Input d') < length (dec_Input d) \<and> proper_token t"
  using Token_Some by (auto simp: next_token_def map_sum_def split: sum.splits)

section \<open>The decoder returns well-formed values\<close>

definition number_ok :: "string \<Rightarrow> bool" where
  "number_ok s \<longleftrightarrow> integer_text s \<and> s \<noteq> ''-0'' \<and> in_int64 (integer_value s)"

fun wf_jcs :: "jcs \<Rightarrow> bool" where
  "wf_jcs (CString s) = valid_utf8 s"
| "wf_jcs (CNumber s) = number_ok s"
| "wf_jcs (CArray vs) = list_all wf_jcs vs"
| "wf_jcs (CObject es) = (distinct (map fst es) \<and> list_all (\<lambda>e. valid_utf8 (fst e) \<and> wf_jcs (snd e)) es)"
| "wf_jcs _ = True"

lemma jcs_number_Inr: "jcs_number s = Inr v \<Longrightarrow> wf_jcs v"
proof -
  assume a: "jcs_number s = Inr v"
  show ?thesis
  proof (cases "s = ''-0''")
    case True
    have "number_ok ''0''"
      by (simp add: number_ok_def integer_text_def integer_value_def decimal_text_def decimal_value_def is_digit_def byte_def in_int64_def)
    with a True show ?thesis by (auto simp: jcs_number_def Let_def split: if_splits)
  next
    case False
    with a show ?thesis by (auto simp: jcs_number_def Let_def number_ok_def split: if_splits)
  qed
qed

text \<open>Enough fuel for a result that is an error or a well-formed value with less input left.\<close>

definition decoded :: "nat \<Rightarrow> (error + jcs \<times> decoder) option \<Rightarrow> bool" where
  "decoded n x = (case x of None \<Rightarrow> False | Some (Inl e) \<Rightarrow> True
     | Some (Inr (v, d)) \<Rightarrow> wf_jcs v \<and> length (dec_Input d) < n)"

lemma decoded_simps [simp]:
  "\<not> decoded n None" "decoded n (Some (Inl e))" "decoded n (Some (Inr (v, d))) \<longleftrightarrow> wf_jcs v \<and> length (dec_Input d) < n"
  by (simp_all add: decoded_def)

lemma decoded_mono: "decoded n x \<Longrightarrow> n \<le> m \<Longrightarrow> decoded m x"
  by (auto simp: decoded_def split: option.splits sum.splits)

lemma decoded_cases:
  assumes "decoded n x"
  obtains (error) e where "x = Some (Inl e)" | (read) v d where "x = Some (Inr (v, d))" "wf_jcs v" "length (dec_Input d) < n"
  using assms by (auto simp: decoded_def split: option.splits sum.splits)

text \<open>
  What decoding needs of the reader of numbers: it returns well-formed values and reads a canonical number as it is.
  The server's reader and the client's both do, so what follows holds for both programs.
\<close>

locale number_reading =
  fixes num :: number_reader
  assumes num_wf: "num s = Inr v \<Longrightarrow> wf_jcs v"
    and num_reads: "number_ok s \<Longrightarrow> num s = Inr (CNumber s)"
begin

lemma decode_decoded:
  "(2 * length (dec_Input d) + 1 \<le> n \<longrightarrow> decoded (length (dec_Input d)) (decodeJCSValue num n d))
   \<and> (2 * length (dec_Input d) + 2 \<le> n \<longrightarrow> distinct (map fst es) \<and> list_all (\<lambda>e. valid_utf8 (fst e) \<and> wf_jcs (snd e)) es
        \<longrightarrow> decoded (length (dec_Input d)) (decode_entries num n es d))
   \<and> (2 * length (dec_Input d) + 2 \<le> n \<longrightarrow> list_all wf_jcs vs \<longrightarrow> decoded (length (dec_Input d)) (decode_items num n vs d))"
proof (induction n arbitrary: d es vs)
  case 0
  then show ?case by simp
next
  case (Suc n)
  have "decoded (length (dec_Input d)) (decodeJCSValue num (Suc n) d)" if fuel: "2 * length (dec_Input d) + 1 \<le> Suc n"
  proof (cases "next_token d")
    case (Inl e)
    then show ?thesis by simp
  next
    case (Inr y)
    obtain t d' where y: "y = (t, d')" by fastforce
    note less = next_token_Some [OF Inr [unfolded y]]
    have go: "2 * length (dec_Input d') + 2 \<le> n" using less fuel by linarith
    then have entries: "decoded (length (dec_Input d')) (decode_entries num n [] d')" and items: "decoded (length (dec_Input d')) (decode_items num n [] d')"
      using Suc.IH [where d = d' and es = "[]" and vs = "[]"] by simp_all
    have le: "length (dec_Input d') \<le> length (dec_Input d)" using less by simp
    show ?thesis
    proof (cases t)
      case (TNumber s)
      then show ?thesis using Inr y less num_wf [of s] by (cases "num s") simp_all
    next
      case (TDelim c)
      then show ?thesis using Inr y decoded_mono [OF entries le] decoded_mono [OF items le] by simp
    qed (use Inr y less in simp_all)
  qed
  moreover have "decoded (length (dec_Input d)) (decode_entries num (Suc n) es d)"
    if fuel: "2 * length (dec_Input d) + 2 \<le> Suc n" and es: "distinct (map fst es)" "list_all (\<lambda>e. valid_utf8 (fst e) \<and> wf_jcs (snd e)) es"
  proof (cases "next_token d")
    case (Inl e)
    then show ?thesis by simp
  next
    case (Inr y)
    obtain t d' where y: "y = (t, d')" by fastforce
    note less = next_token_Some [OF Inr [unfolded y]]
    show ?thesis
    proof (cases "More d")
      case False
      then show ?thesis using Inr y less es by simp
    next
      case True
      show ?thesis
      proof (cases t)
        case (TString k)
        show ?thesis
        proof (cases "k \<in> fst ` set es")
          case new: False
          have "2 * length (dec_Input d') + 1 \<le> n" using less fuel by linarith
          then have "decoded (length (dec_Input d')) (decodeJCSValue num n d')" using Suc.IH by blast
          then show ?thesis
          proof (cases rule: decoded_cases)
            case (error e)
            with True Inr y TString new show ?thesis by simp
          next
            case (read v d'')
            have "distinct (map fst (es @ [(k, v)])) \<and> list_all (\<lambda>e. valid_utf8 (fst e) \<and> wf_jcs (snd e)) (es @ [(k, v)])"
              using es new read(2) less TString by auto
            moreover have "2 * length (dec_Input d'') + 2 \<le> n" using less fuel read(3) by linarith
            ultimately have "decoded (length (dec_Input d'')) (decode_entries num n (es @ [(k, v)]) d'')" using Suc.IH by blast
            moreover have "length (dec_Input d'') \<le> length (dec_Input d)" using read(3) less by simp
            ultimately show ?thesis using True Inr y TString new read(1) decoded_mono by simp
          qed
        qed (use True Inr y TString in simp)
      qed (use True Inr y in simp_all)
    qed
  qed
  moreover have "decoded (length (dec_Input d)) (decode_items num (Suc n) vs d)"
    if fuel: "2 * length (dec_Input d) + 2 \<le> Suc n" and vs: "list_all wf_jcs vs"
  proof (cases "More d")
    case True
    have "2 * length (dec_Input d) + 1 \<le> n" using fuel by linarith
    then have "decoded (length (dec_Input d)) (decodeJCSValue num n d)" using Suc.IH by blast
    then show ?thesis
    proof (cases rule: decoded_cases)
      case (error e)
      with True show ?thesis by simp
    next
      case (read v d')
      have "2 * length (dec_Input d') + 2 \<le> n" "list_all wf_jcs (vs @ [v])" using fuel read vs by simp_all
      then have "decoded (length (dec_Input d')) (decode_items num n (vs @ [v]) d')" using Suc.IH by blast
      moreover have "length (dec_Input d') \<le> length (dec_Input d)" using read(3) by simp
      ultimately show ?thesis using True read(1) decoded_mono by simp
    qed
  next
    case False
    then show ?thesis using next_token_Some [of d] vs by (auto split: sum.splits)
  qed
  ultimately show ?case by blast
qed

lemma decodeJCSValue_decoded: "2 * length (dec_Input d) + 1 \<le> n \<Longrightarrow> decoded (length (dec_Input d)) (decodeJCSValue num n d)"
  using decode_decoded [of d n "[]" "[]"] by blast

end

section \<open>Reading back what was printed\<close>

abbreviation dec :: "string \<Rightarrow> token_state \<Rightarrow> token_state list \<Rightarrow> decoder" where
  "dec s st stk \<equiv> \<lparr>dec_Input = s, dec_State = st, dec_Stack = stk\<rparr>"

text \<open>Behind a printed value comes the end, a comma or a closing bracket.\<close>

definition value_end :: "string \<Rightarrow> bool" where
  "value_end t \<longleftrightarrow> t = [] \<or> hd t = CHR '','' \<or> hd t = CHR '']'' \<or> hd t = CHR ''}''"

lemma string_literal_rune:
  assumes "scalar r" "0x20 \<le> r" "r \<noteq> 0x22" "r \<noteq> 0x5C"
  shows "string_literal (encode_rune r @ t) = prepend r (string_literal t)"
proof -
  obtain c cs where e: "encode_rune r @ t = c # cs" by (cases "encode_rune r @ t") auto
  have w: "max 1 (length (encode_rune r)) = length (encode_rune r)" using encode_rune_pos [of r] by linarith
  have c: "0x20 \<le> byte c \<and> c \<noteq> CHR 0x22 \<and> c \<noteq> CHR 0x5C"
  proof (cases "r < 0x80")
    case True
    then have "c = char_of r" using e by (simp add: encode_ascii)
    then have "byte c = r" using True by (simp add: byte_char_of)
    then show ?thesis using assms by (auto simp: byte_def)
  next
    case False
    then have "c \<in> set (encode_rune r)" using e by (cases "encode_rune r") auto
    then have "0x80 \<le> byte c" using encode_high [OF assms(1)] False by simp
    then show ?thesis by (auto simp: byte_def)
  qed
  then have q: "c \<noteq> CHR 0x22" "c \<noteq> CHR 0x5C" "\<not> byte c < 0x20" by auto
  have d: "decode_rune (map byte (c # cs)) = (Some r, length (encode_rune r))" using decode_encode [OF assms(1), of t] by (simp only: e)
  have "string_literal (c # cs) = prepend r (string_literal (drop (length (encode_rune r)) (c # cs)))"
    using q by (simp only: string_literal.simps d Let_def prod.case w if_False option.case)
  then show ?thesis by (simp add: e [symmetric])
qed

lemma hex_nibble_digit: "n < 16 \<Longrightarrow> hex_nibble (hex_digit n) = Some n"
  by (auto simp: hex_nibble_def hex_digit_def byte_def Let_def)

lemma parse_control: "r < 0x20 \<Longrightarrow> parseHex16 (CHR ''0'' # CHR ''0'' # hex_digit (r div 16) # hex_digit (r mod 16) # t) = Some r"
proof -
  have "hex_nibble CHR ''0'' = Some 0" by (simp add: hex_nibble_def byte_def)
  moreover assume "r < 0x20"
  then have "r div 16 < 16" by simp
  ultimately show ?thesis by (simp add: hex_nibble_digit)
qed

lemma control_no_pair: "r < 0x20 \<Longrightarrow> surrogate_pair r s = None"
  by (simp add: surrogate_pair_def high_surrogate_def)

lemma string_literal_escape: "scalar r \<Longrightarrow> string_literal (rune_escape r @ t) = prepend r (string_literal t)"
proof -
  assume r: "scalar r"
  consider "r = 0x22 \<or> r = 0x5C" | "r = 8 \<or> r = 9 \<or> r = 10 \<or> r = 12 \<or> r = 13"
    | "r < 0x20" "r \<noteq> 8" "r \<noteq> 9" "r \<noteq> 10" "r \<noteq> 12" "r \<noteq> 13" | "0x20 \<le> r" "r \<noteq> 0x22" "r \<noteq> 0x5C" by linarith
  then show ?thesis
  proof cases
    case 1
    moreover have "char_of (0x22 :: nat) = CHR 0x22" "char_of (0x5C :: nat) = CHR 0x5C" by (simp_all add: char_of_def bit_0)
    ultimately show ?thesis by (auto simp: rune_escape_def encode_ascii simple_escape_def byte_def)
  next
    case 2
    then show ?thesis by (auto simp: rune_escape_def simple_escape_def)
  next
    case 3
    then show ?thesis
      using parse_control [OF 3(1), of t] control_no_pair [OF 3(1)] r by (simp add: rune_escape_def del: parseHex16.simps)
  next
    case 4
    then show ?thesis using string_literal_rune [OF r 4] by (simp add: rune_escape_def)
  qed
qed

lemma string_literal_escapes:
  "scalars rs \<Longrightarrow> string_literal (concat (map rune_escape rs) @ CHR 0x22 # t) = Some (rs, t)"
  by (induction rs) (simp_all add: string_literal_escape, simp add: prepend_def)

lemma printed_string: "valid_utf8 s \<Longrightarrow> scalar_literal (appendJCSString s @ t) = Some (TString s, t)"
proof -
  assume "valid_utf8 s"
  then obtain rs where "scalars rs" "s = string_of_runes rs" by (rule valid_utf8_cases)
  then show ?thesis using string_literal_escapes [of rs t] by (simp add: scalar_literal_def appendJCSString_def)
qed

lemma digits_append: "list_all is_digit s \<Longrightarrow> t = [] \<or> \<not> is_digit (hd t) \<Longrightarrow> digits (s @ t) = (s, t)"
  by (induction s) (auto simp: digits_def dropWhile_eq_self_iff takeWhile_eq_Nil_iff)

lemma value_end_no_number: "value_end t \<Longrightarrow> t = [] \<or> (\<not> is_digit (hd t) \<and> hd t \<noteq> CHR ''.'' \<and> hd t \<noteq> CHR ''e'' \<and> hd t \<noteq> CHR ''E'')"
  by (auto simp: value_end_def is_digit_def byte_def)

lemma integer_part_append:
  assumes "decimal_text s" "t = [] \<or> \<not> is_digit (hd t)" shows "integer_part (s @ t) = Some (s, t)"
proof -
  obtain c cs where s: "s = c # cs" "is_digit c" "list_all is_digit s" "c = CHR ''0'' \<longrightarrow> cs = []"
    using assms(1) by (cases s) (auto simp: decimal_text_def)
  show ?thesis
  proof (cases "c = CHR ''0''")
    case True
    then show ?thesis using s by (simp add: integer_part_def)
  next
    case False
    then show ?thesis using s digits_append [OF s(3) assms(2)] by (simp add: integer_part_def)
  qed
qed

lemma number_tail: "value_end t \<Longrightarrow> fraction_part t = Some ([], t)" "value_end t \<Longrightarrow> exponent_part t = Some ([], t)"
  using value_end_no_number [of t] by (cases t; simp add: fraction_part_def exponent_part_def)+

lemma decimal_text_hd: "decimal_text s \<Longrightarrow> \<exists>c cs. s = c # cs \<and> is_digit c"
  by (cases s) (auto simp: decimal_text_def)

lemma printed_number: "integer_text s \<Longrightarrow> value_end t \<Longrightarrow> number_literal (s @ t) = Some (s, t)"
proof -
  assume i: "integer_text s" and t: "value_end t"
  have nd: "t = [] \<or> \<not> is_digit (hd t)" using value_end_no_number [OF t] by blast
  show ?thesis
  proof (cases "s \<noteq> [] \<and> hd s = CHR ''-''")
    case True
    then obtain u where s: "s = CHR ''-'' # u" by (cases s) auto
    with i have "decimal_text u" by (simp add: integer_text_def)
    then show ?thesis using integer_part_append [OF _ nd] number_tail [OF t] by (simp add: number_literal_def s)
  next
    case False
    with i have d: "decimal_text s" unfolding integer_text_def by (simp only: if_False)
    then obtain c cs where "s = c # cs" "is_digit c" using decimal_text_hd by blast
    with False show ?thesis using integer_part_append [OF d nd] number_tail [OF t] by (simp add: number_literal_def)
  qed
qed

lemma number_first: "integer_text s \<Longrightarrow> \<exists>c cs. s = c # cs \<and> (is_digit c \<or> c = CHR ''-'')"
proof (cases "s \<noteq> [] \<and> hd s = CHR ''-''")
  case True
  then show ?thesis by (cases s) auto
next
  case False
  assume "integer_text s"
  with False have "decimal_text s" unfolding integer_text_def by (simp only: if_False)
  then show ?thesis using decimal_text_hd by blast
qed

text \<open>The first character of a printed value is no space and none of the separators.\<close>

definition value_start :: "char \<Rightarrow> bool" where
  "value_start c \<longleftrightarrow> \<not> json_space c \<and> c \<noteq> CHR '']'' \<and> c \<noteq> CHR ''}'' \<and> c \<noteq> CHR '':'' \<and> c \<noteq> CHR '',''"

fun plain_value :: "jcs \<Rightarrow> bool" where
  "plain_value (CArray vs) = False"
| "plain_value (CObject es) = False"
| "plain_value _ = True"

lemma number_char: "is_digit c \<or> c = CHR ''-'' \<Longrightarrow> value_start c \<and> c \<noteq> CHR ''['' \<and> c \<noteq> CHR ''{'' \<and> c \<noteq> CHR 0x22
    \<and> c \<noteq> CHR ''t'' \<and> c \<noteq> CHR ''f'' \<and> c \<noteq> CHR ''n''"
  by (auto simp: value_start_def json_space_def is_digit_def byte_def)

lemma printed_start: "wf_jcs v \<Longrightarrow> \<exists>c cs. appendJCSValue v = c # cs \<and> value_start c
    \<and> (plain_value v \<longrightarrow> c \<noteq> CHR ''['' \<and> c \<noteq> CHR ''{'')"
proof (cases v)
  case (CNumber s)
  assume "wf_jcs v"
  then have "integer_text s" by (simp add: CNumber number_ok_def)
  then obtain c cs where "s = c # cs" "is_digit c \<or> c = CHR ''-''" using number_first by blast
  with number_char [OF this(2)] show ?thesis by (simp add: CNumber)
qed (auto simp: value_start_def json_space_def appendJCSString_def)

fun value_token :: "jcs \<Rightarrow> token" where
  "value_token (CString s) = TString s"
| "value_token (CNumber s) = TNumber s"
| "value_token (CBool b) = TBool b"
| "value_token _ = TNull"

lemma printed_scalar:
  "wf_jcs v \<Longrightarrow> plain_value v \<Longrightarrow> value_end t \<Longrightarrow> scalar_literal (appendJCSValue v @ t) = Some (value_token v, t)"
proof (cases v)
  case (CNumber s)
  assume wf: "wf_jcs v" and t: "value_end t"
  then have i: "integer_text s" by (simp add: CNumber number_ok_def)
  then obtain c cs where s: "s = c # cs" "is_digit c \<or> c = CHR ''-''" using number_first by blast
  show ?thesis using printed_number [OF i t] number_char [OF s(2)] by (simp add: CNumber scalar_literal_def s(1))
next
  case (CString s)
  assume "wf_jcs v"
  then show ?thesis by (simp add: CString printed_string)
qed (auto simp: scalar_literal_def word_literal_def)

lemma skip_space_start: "\<not> json_space c \<Longrightarrow> skip_space (c # cs) = c # cs"
  by (simp add: skip_space_def)

lemma next_token_plain:
  assumes "wf_jcs v" "plain_value v" "value_end t" "tokenValueAllowed st"
  shows "next_token (dec (appendJCSValue v @ t) st stk) = Inr (value_token v, dec t (tokenValueEnd st) stk)"
proof -
  obtain c cs where c: "appendJCSValue v = c # cs" "value_start c" "c \<noteq> CHR ''['' \<and> c \<noteq> CHR ''{''"
    using printed_start [OF assms(1)] assms(2) by blast
  have "st \<noteq> ObjectStart" "st \<noteq> ObjectKey" using assms(4) by (auto simp: tokenValueAllowed_def)
  then show ?thesis
    using c(2,3) assms(4) printed_scalar [OF assms(1-3)]
    by (simp add: next_token_def Token.simps [of "dec (c # cs @ t) st stk"] c(1) value_start_def skip_space_start Let_def)
qed

lemma next_token_delim:
  "tokenValueAllowed st \<Longrightarrow> next_token (dec (CHR ''['' # s) st stk) = Inr (TDelim CHR ''['', dec s ArrayStart (st # stk))"
  "tokenValueAllowed st \<Longrightarrow> next_token (dec (CHR ''{'' # s) st stk) = Inr (TDelim CHR ''{'', dec s ObjectStart (st # stk))"
  "a \<in> {ArrayStart, ArrayComma} \<Longrightarrow> next_token (dec (CHR '']'' # s) a (st # stk)) = Inr (TDelim CHR '']'', dec s (tokenValueEnd st) stk)"
  "b \<in> {ObjectStart, ObjectComma} \<Longrightarrow> next_token (dec (CHR ''}'' # s) b (st # stk)) = Inr (TDelim CHR ''}'', dec s (tokenValueEnd st) stk)"
  by (auto simp: next_token_def Token.simps skip_space_def json_space_def opened_def closed_def)

lemma next_token_separator:
  "next_token (dec (CHR '','' # s) ArrayComma stk) = next_token (dec s ArrayValue stk)"
  "next_token (dec (CHR '','' # s) ObjectComma stk) = next_token (dec s ObjectKey stk)"
  "next_token (dec (CHR '':'' # s) ObjectColon stk) = next_token (dec s ObjectValue stk)"
  by (simp_all add: next_token_def Token.simps [of "dec (_ # s) _ stk"] skip_space_def json_space_def)

lemma next_token_key:
  assumes "valid_utf8 k" "st = ObjectStart \<or> st = ObjectKey"
  shows "next_token (dec (appendJCSString k @ t) st stk) = Inr (TString k, dec t ObjectColon stk)"
proof -
  have "scalar_literal (CHR 0x22 # concat (map rune_escape (runes k)) @ CHR 0x22 # t) = Some (TString k, t)"
    using printed_string [OF assms(1), of t] by (simp add: appendJCSString_def)
  then show ?thesis
    using assms(2)
    by (auto simp: next_token_def Token.simps [of "dec (CHR 0x22 # _) _ _"] appendJCSString_def skip_space_def json_space_def)
qed

lemma decode_separator:
  "decodeJCSValue num n (dec (CHR '','' # s) ArrayComma stk) = decodeJCSValue num n (dec s ArrayValue stk)"
  "decodeJCSValue num n (dec (CHR '':'' # s) ObjectColon stk) = decodeJCSValue num n (dec s ObjectValue stk)"
  by (cases n; simp only: decodeJCSValue.simps next_token_separator)+

lemma More_simps:
  "value_start c \<Longrightarrow> More (dec (c # s) st stk)" "More (dec (CHR '','' # s) st stk)"
  "\<not> More (dec (CHR '']'' # s) st stk)" "\<not> More (dec (CHR ''}'' # s) st stk)"
  by (auto simp: More_def skip_space_def value_start_def json_space_def)

section \<open>The sorted form of a value\<close>

interpretation entry_order: strict_weak "key_less :: string \<times> 'a \<Rightarrow> string \<times> 'a \<Rightarrow> bool"
proof -
  have irrefl: "\<not> units_less xs xs" for xs by (induction xs) simp_all
  have trans: "units_less xs ys \<Longrightarrow> units_less ys zs \<Longrightarrow> units_less xs zs" for xs ys zs
  proof (induction xs ys arbitrary: zs rule: units_less.induct)
    case (1 a l b r)
    then show ?case by (cases zs) (auto split: if_splits)
  next
    case (2 r)
    then show ?case by (cases zs; cases r) auto
  qed simp
  have neg: "units_less xs zs \<Longrightarrow> units_less xs ys \<or> units_less ys zs" for xs ys zs
  proof (induction xs zs arbitrary: ys rule: units_less.induct)
    case (1 a l b r)
    then show ?case by (cases ys) (auto split: if_splits)
  next
    case (2 r)
    then show ?case by (cases ys) auto
  qed simp
  show "strict_weak (key_less :: string \<times> 'a \<Rightarrow> string \<times> 'a \<Rightarrow> bool)"
  proof unfold_locales
    fix x y z :: "string \<times> 'a"
    show "\<not> key_less x x" by (simp add: key_less_def utf16Less_def irrefl)
    show "key_less x y \<Longrightarrow> key_less y z \<Longrightarrow> key_less x z" unfolding key_less_def utf16Less_def by (rule trans)
    show "key_less x z \<Longrightarrow> key_less x y \<or> key_less y z" unfolding key_less_def utf16Less_def by (rule neg)
  qed
qed

lemma units_less_total: "xs \<noteq> ys \<Longrightarrow> units_less xs ys \<or> units_less ys xs"
  by (induction xs ys rule: units_less.induct) auto

lemma go_sort_id: "sorted_wrt (\<lambda>x y. \<not> lt y x) xs \<Longrightarrow> go_sort lt xs = xs"
proof (induction xs)
  case (Cons x xs)
  then show ?case by (cases xs) auto
qed simp

function normal :: "jcs \<Rightarrow> jcs" where
  "normal CNull = CNull"
| "normal (CBool b) = CBool b"
| "normal (CString s) = CString s"
| "normal (CNumber s) = CNumber s"
| "normal (CArray vs) = CArray (map normal vs)"
| "normal (CObject es) = CObject (map (\<lambda>e. (fst e, normal (snd e))) (go_sort key_less es))"
  by pat_completeness auto
termination
  by (relation "measure size") (auto simp: less_Suc_eq_le intro: size_list_estimation' dest: size_entry)

lemma sorted_wrt_keys: "sorted_wrt (\<lambda>x y. \<not> key_less y x) es \<Longrightarrow>
    sorted_wrt (\<lambda>x y. \<not> key_less y x) (map (\<lambda>e. (fst e, f (snd e))) es)"
  by (induction es) (auto simp: key_less_def)

lemma append_normal: "appendJCSValue (normal v) = appendJCSValue v"
proof (induction v rule: appendJCSValue.induct)
  case (5 vs)
  then have "map (appendJCSValue \<circ> normal) vs = map appendJCSValue vs" by simp
  then show ?case by (simp only: normal.simps appendJCSValue.simps list.map_comp)
next
  case (6 es)
  have "go_sort key_less (map (\<lambda>e. (fst e, normal (snd e))) (go_sort key_less es)) = map (\<lambda>e. (fst e, normal (snd e))) (go_sort key_less es)"
    by (intro go_sort_id sorted_wrt_keys entry_order.go_sort_sorted)
  moreover have "map (\<lambda>e. appendJCSString (fst e) @ '':'' @ appendJCSValue (normal (snd e))) (go_sort key_less es)
      = map (\<lambda>e. appendJCSString (fst e) @ '':'' @ appendJCSValue (snd e)) (go_sort key_less es)"
    using 6 by simp
  ultimately show ?case
    by (simp only: normal.simps appendJCSValue.simps list.map_comp o_def fst_conv snd_conv)
qed simp_all

section \<open>Decoding a printed value\<close>

text \<open>What the loops find in front of them: nothing more, or a comma and the next element.\<close>

definition tail_text :: "('a \<Rightarrow> string) \<Rightarrow> 'a list \<Rightarrow> string" where
  "tail_text f xs = concat (map (\<lambda>x. CHR '','' # f x) xs)"

lemma tail_text_simps [simp]: "tail_text f [] = []" "tail_text f (x # xs) = CHR '','' # f x @ tail_text f xs"
  by (simp_all add: tail_text_def)

lemma join_tail: "join '','' (map f (x # xs)) = f x @ tail_text f xs"
proof (induction xs arbitrary: x)
  case (Cons y ys)
  have "join '','' (map f (x # y # ys)) = f x @ '','' @ join '','' (map f (y # ys))" by simp
  also have "\<dots> = f x @ '','' @ f y @ tail_text f ys" by (simp only: Cons.IH)
  finally show ?case by simp
qed simp

lemma tail_value_end: "value_end (CHR '']'' # t)" "value_end (CHR ''}'' # t)"
    "value_end (tail_text f xs @ CHR '']'' # t)" "value_end (tail_text f xs @ CHR ''}'' # t)"
  by (simp_all add: value_end_def) (cases xs; simp)+

text \<open>The statement of the round trip for one value, so that the loops can use it for their elements.\<close>

definition reads_back :: "number_reader \<Rightarrow> jcs \<Rightarrow> bool" where
  "reads_back num v \<longleftrightarrow> (\<forall>n t st stk. 2 * length (appendJCSValue v @ t) + 1 \<le> n \<and> value_end t \<and> tokenValueAllowed st \<longrightarrow>
     decodeJCSValue num n (dec (appendJCSValue v @ t) st stk) = Some (Inr (normal v, dec t (tokenValueEnd st) stk)))"

lemma reads_backD:
  "reads_back num v \<Longrightarrow> 2 * length (appendJCSValue v @ t) + 1 \<le> n \<Longrightarrow> value_end t \<Longrightarrow> tokenValueAllowed st \<Longrightarrow>
   decodeJCSValue num n (dec (appendJCSValue v @ t) st stk) = Some (Inr (normal v, dec t (tokenValueEnd st) stk))"
  unfolding reads_back_def by blast

lemma state_simps [simp]:
  "tokenValueAllowed ArrayStart" "tokenValueAllowed ArrayValue" "tokenValueAllowed ObjectValue" "tokenValueAllowed TopValue"
  "tokenValueEnd ArrayStart = ArrayComma" "tokenValueEnd ArrayValue = ArrayComma" "tokenValueEnd ObjectValue = ObjectComma"
  "tokenValueEnd TopValue = TopValue"
  by (simp_all add: tokenValueAllowed_def tokenValueEnd_def)

lemma decode_items_tail:
  assumes "\<And>v. v \<in> set vs \<Longrightarrow> reads_back num v" "2 * length (tail_text appendJCSValue vs @ CHR '']'' # t) + 2 \<le> n"
  shows "decode_items num n acc (dec (tail_text appendJCSValue vs @ CHR '']'' # t) ArrayComma (st # stk))
     = Some (Inr (CArray (acc @ map normal vs), dec t (tokenValueEnd st) stk))"
  using assms
proof (induction vs arbitrary: n acc)
  case Nil
  then obtain m where "n = Suc m" by (cases n) auto
  then show ?case by (simp add: More_simps next_token_delim)
next
  case (Cons v vs)
  then obtain m where n: "n = Suc m" by (cases n) auto
  let ?rest = "tail_text appendJCSValue vs @ CHR '']'' # t"
  have "decodeJCSValue num m (dec (appendJCSValue v @ ?rest) ArrayValue (st # stk)) = Some (Inr (normal v, dec ?rest ArrayComma (st # stk)))"
    using reads_backD [OF Cons.prems(1) [of v], of ?rest m ArrayValue "st # stk"] Cons.prems(2) by (simp add: n tail_value_end)
  moreover have "decode_items num m (acc @ [normal v]) (dec ?rest ArrayComma (st # stk))
      = Some (Inr (CArray ((acc @ [normal v]) @ map normal vs), dec t (tokenValueEnd st) stk))"
    using Cons.prems by (intro Cons.IH) (simp_all add: n)
  ultimately show ?case by (simp add: n More_simps decode_separator)
qed

abbreviation entry_text :: "string \<times> jcs \<Rightarrow> string" where
  "entry_text e \<equiv> appendJCSString (fst e) @ '':'' @ appendJCSValue (snd e)"

lemma decode_entry:
  assumes "valid_utf8 k" "reads_back num v" "2 * length (appendJCSString k @ '':'' @ appendJCSValue v @ t) + 1 \<le> n" "value_end t"
    "st = ObjectStart \<or> st = ObjectKey" "k \<notin> fst ` set es"
    and "next_token d = next_token (dec (appendJCSString k @ '':'' @ appendJCSValue v @ t) st stk)" "More d"
  shows "decode_entries num (Suc n) es d = decode_entries num n (es @ [(k, normal v)]) (dec t ObjectComma stk)"
proof -
  have "next_token d = Inr (TString k, dec ('':'' @ appendJCSValue v @ t) ObjectColon stk)"
    unfolding assms(7) by (rule next_token_key [OF assms(1,5)])
  moreover have "decodeJCSValue num n (dec ('':'' @ appendJCSValue v @ t) ObjectColon stk) = Some (Inr (normal v, dec t ObjectComma stk))"
    using reads_backD [OF assms(2), of t n ObjectValue stk] assms(3,4) by (simp add: decode_separator)
  ultimately show ?thesis using assms(6,8) by simp
qed

lemma decode_entries_tail:
  assumes "\<And>e. e \<in> set es \<Longrightarrow> valid_utf8 (fst e) \<and> reads_back num (snd e)" "distinct (map fst acc @ map fst es)"
    "2 * length (tail_text entry_text es @ CHR ''}'' # t) + 2 \<le> n"
  shows "decode_entries num n acc (dec (tail_text entry_text es @ CHR ''}'' # t) ObjectComma (st # stk))
     = Some (Inr (CObject (acc @ map (\<lambda>e. (fst e, normal (snd e))) es), dec t (tokenValueEnd st) stk))"
  using assms
proof (induction es arbitrary: n acc)
  case Nil
  then obtain m where "n = Suc m" by (cases n) auto
  then show ?case by (simp add: More_simps next_token_delim)
next
  case (Cons e es)
  then obtain m where n: "n = Suc m" by (cases n) auto
  let ?rest = "tail_text entry_text es @ CHR ''}'' # t"
  let ?d = "dec (tail_text entry_text (e # es) @ CHR ''}'' # t) ObjectComma (st # stk)"
  have "decode_entries num (Suc m) acc ?d = decode_entries num m (acc @ [(fst e, normal (snd e))]) (dec ?rest ObjectComma (st # stk))"
  proof (rule decode_entry)
    show "valid_utf8 (fst e)" "reads_back num (snd e)" using Cons.prems(1) by simp_all
    show "2 * length (appendJCSString (fst e) @ '':'' @ appendJCSValue (snd e) @ ?rest) + 1 \<le> m" using Cons.prems(3) by (simp add: n)
    show "value_end ?rest" by (rule tail_value_end)
    show "fst e \<notin> fst ` set acc" using Cons.prems(2) by auto
    show "next_token ?d = next_token (dec (appendJCSString (fst e) @ '':'' @ appendJCSValue (snd e) @ ?rest) ObjectKey (st # stk))"
      by (simp add: next_token_separator)
    show "More ?d" by (simp add: More_simps)
  qed simp
  moreover have "decode_entries num m (acc @ [(fst e, normal (snd e))]) (dec ?rest ObjectComma (st # stk))
      = Some (Inr (CObject ((acc @ [(fst e, normal (snd e))]) @ map (\<lambda>e. (fst e, normal (snd e))) es), dec t (tokenValueEnd st) stk))"
    using Cons.prems by (intro Cons.IH) (simp_all add: n)
  ultimately show ?case by (simp add: n)
qed

lemma reads_back_array:
  assumes "\<And>v. v \<in> set vs \<Longrightarrow> wf_jcs v \<and> reads_back num v" shows "reads_back num (CArray vs)"
  unfolding reads_back_def
proof (intro allI impI, elim conjE)
  fix n t st and stk :: "token_state list"
  let ?txt = "appendJCSValue (CArray vs) @ t"
  assume fuel: "2 * length ?txt + 1 \<le> n" and t: "value_end t" and st: "tokenValueAllowed st"
  obtain m where n: "n = Suc m" using fuel by (cases n) auto
  let ?body = "join '','' (map appendJCSValue vs) @ CHR '']'' # t"
  have go: "decodeJCSValue num (Suc m) (dec ?txt st stk) = decode_items num m [] (dec ?body ArrayStart (st # stk))"
    using st by (simp add: next_token_delim)
  show "decodeJCSValue num n (dec ?txt st stk) = Some (Inr (normal (CArray vs), dec t (tokenValueEnd st) stk))"
  proof (cases vs)
    case Nil
    obtain l where "m = Suc l" using fuel by (cases m) (auto simp: n)
    then show ?thesis using go by (simp add: n Nil More_simps next_token_delim)
  next
    case (Cons w ws)
    let ?rest = "tail_text appendJCSValue ws @ CHR '']'' # t"
    have body: "?body = appendJCSValue w @ ?rest" using join_tail [of appendJCSValue w ws] by (simp add: Cons)
    have len: "2 * length (appendJCSValue w @ ?rest) + 2 \<le> m" using fuel by (simp add: n flip: body)
    obtain l where l: "m = Suc l" using len by (cases m) auto
    have w: "wf_jcs w" "reads_back num w" using assms Cons by auto
    have "More (dec (appendJCSValue w @ ?rest) ArrayStart (st # stk))"
      using printed_start [OF w(1)] More_simps(1) by auto
    moreover have "decodeJCSValue num l (dec (appendJCSValue w @ ?rest) ArrayStart (st # stk)) = Some (Inr (normal w, dec ?rest ArrayComma (st # stk)))"
      using reads_backD [OF w(2), of ?rest l ArrayStart "st # stk"] len by (simp add: l tail_value_end)
    moreover have "decode_items num l [normal w] (dec ?rest ArrayComma (st # stk))
        = Some (Inr (CArray ([normal w] @ map normal ws), dec t (tokenValueEnd st) stk))"
      using assms Cons len printed_start [OF w(1)] by (intro decode_items_tail) (auto simp: l)
    ultimately show ?thesis using go unfolding n body by (simp add: l Cons)
  qed
qed

lemma reads_back_object:
  assumes es: "\<And>e. e \<in> set es \<Longrightarrow> valid_utf8 (fst e) \<and> reads_back num (snd e)" and "distinct (map fst es)" shows "reads_back num (CObject es)"
  unfolding reads_back_def
proof (intro allI impI, elim conjE)
  fix n t st and stk :: "token_state list"
  let ?txt = "appendJCSValue (CObject es) @ t"
  assume fuel: "2 * length ?txt + 1 \<le> n" and t: "value_end t" and st: "tokenValueAllowed st"
  obtain m where n: "n = Suc m" using fuel by (cases n) auto
  define fs where "fs = go_sort key_less es"
  let ?body = "join '','' (map entry_text fs) @ CHR ''}'' # t"
  have printed: "?txt = CHR ''{'' # ?body" by (simp add: fs_def)
  have go: "decodeJCSValue num (Suc m) (dec ?txt st stk) = decode_entries num m [] (dec ?body ObjectStart (st # stk))"
    unfolding printed using st by (simp add: next_token_delim)
  have fs: "\<And>e. e \<in> set fs \<Longrightarrow> valid_utf8 (fst e) \<and> reads_back num (snd e)" "distinct (map fst fs)"
  proof -
    have "mset (map fst fs) = mset (map fst es)" by (simp add: fs_def)
    then show "distinct (map fst fs)" using assms(2) mset_eq_imp_distinct_iff by blast
  qed (use es in \<open>simp add: fs_def\<close>)
  have nf: "normal (CObject es) = CObject (map (\<lambda>e. (fst e, normal (snd e))) fs)" by (simp add: fs_def)
  show "decodeJCSValue num n (dec ?txt st stk) = Some (Inr (normal (CObject es), dec t (tokenValueEnd st) stk))"
  proof (cases fs)
    case Nil
    obtain l where "m = Suc l" using fuel by (cases m) (auto simp: n)
    then show ?thesis unfolding n go nf by (simp add: Nil More_simps next_token_delim)
  next
    case (Cons e gs)
    let ?rest = "tail_text entry_text gs @ CHR ''}'' # t"
    have body: "?body = appendJCSString (fst e) @ '':'' @ appendJCSValue (snd e) @ ?rest"
      using join_tail [of entry_text e gs] by (simp add: Cons)
    have len: "2 * length (appendJCSString (fst e) @ '':'' @ appendJCSValue (snd e) @ ?rest) + 2 \<le> m"
      using fuel unfolding printed n body by simp
    obtain l where l: "m = Suc l" using len by (cases m) auto
    have first: "decode_entries num (Suc l) [] (dec ?body ObjectStart (st # stk))
        = decode_entries num l ([] @ [(fst e, normal (snd e))]) (dec ?rest ObjectComma (st # stk))"
    proof (rule decode_entry)
      show "valid_utf8 (fst e)" "reads_back num (snd e)" using fs(1) Cons by simp_all
      show "2 * length (appendJCSString (fst e) @ '':'' @ appendJCSValue (snd e) @ ?rest) + 1 \<le> l" using len by (simp add: l)
      show "value_end ?rest" by (rule tail_value_end)
      show "next_token (dec ?body ObjectStart (st # stk))
          = next_token (dec (appendJCSString (fst e) @ '':'' @ appendJCSValue (snd e) @ ?rest) ObjectStart (st # stk))"
        by (simp only: body)
      show "More (dec ?body ObjectStart (st # stk))"
        unfolding body by (simp add: appendJCSString_def More_simps value_start_def json_space_def)
    qed simp_all
    have step: "decodeJCSValue num n (dec ?txt st stk) = decode_entries num l ([] @ [(fst e, normal (snd e))]) (dec ?rest ObjectComma (st # stk))"
      using go first unfolding n l by (rule trans)
    have "decode_entries num l [(fst e, normal (snd e))] (dec ?rest ObjectComma (st # stk))
        = Some (Inr (CObject ([(fst e, normal (snd e))] @ map (\<lambda>e. (fst e, normal (snd e))) gs), dec t (tokenValueEnd st) stk))"
      using fs Cons len by (intro decode_entries_tail) (auto simp: l)
    then show ?thesis unfolding step nf by (simp add: Cons)
  qed
qed

context number_reading
begin

lemma reads_back_plain: "wf_jcs v \<Longrightarrow> plain_value v \<Longrightarrow> reads_back num v"
  unfolding reads_back_def
proof (intro allI impI, elim conjE)
  fix n t st and stk :: "token_state list"
  assume v: "wf_jcs v" "plain_value v" and fuel: "2 * length (appendJCSValue v @ t) + 1 \<le> n" and t: "value_end t" "tokenValueAllowed st"
  obtain m where n: "n = Suc m" using fuel by (cases n) auto
  show "decodeJCSValue num n (dec (appendJCSValue v @ t) st stk) = Some (Inr (normal v, dec t (tokenValueEnd st) stk))"
    unfolding n decodeJCSValue.simps next_token_plain [OF v t, of stk] sum.case prod.case
    using v by (cases v) (simp_all add: num_reads)
qed

lemma value_reads_back: "wf_jcs v \<Longrightarrow> reads_back num v"
proof (induction v rule: wf_jcs.induct)
  case (3 vs)
  then show ?case by (intro reads_back_array) (simp add: list_all_iff)
next
  case (4 es)
  then show ?case by (intro reads_back_object) (auto simp: list_all_iff)
qed (simp_all add: reads_back_plain)

end

section \<open>The canonical text passes the checks of the input\<close>

text \<open>Text that is valid UTF-8 and leaves the check of escapes where it was: outside a string.\<close>

definition clean :: "string \<Rightarrow> bool" where
  "clean s \<longleftrightarrow> valid_utf8 s \<and> (\<forall>t. validateJCSUnicodeEscapes False (s @ t) = validateJCSUnicodeEscapes False t)"

lemma clean_append: "clean s \<Longrightarrow> clean t \<Longrightarrow> clean (s @ t)"
  by (simp add: clean_def valid_utf8_append)

lemma clean_Nil: "clean []"
  by (simp add: clean_def)

lemma clean_Cons: "byte c < 0x80 \<Longrightarrow> c \<noteq> CHR 0x22 \<Longrightarrow> clean s \<Longrightarrow> clean (c # s)"
  by (auto simp: clean_def valid_utf8_Cons)

lemma clean_join: "(\<And>x. x \<in> set xs \<Longrightarrow> clean x) \<Longrightarrow> clean (join '','' xs)"
proof (induction "'','' :: string" xs rule: join.induct)
  case (3 x y ys)
  then have "clean x" "clean (join '','' (y # ys))" by simp_all
  moreover have "clean '',''" by (rule clean_Cons [OF _ _ clean_Nil]) (simp_all add: byte_def)
  ultimately show ?case by (simp only: join.simps clean_append)
qed (simp_all add: clean_Nil)

lemma escapes_plain: "\<forall>c \<in> set s. c \<noteq> CHR 0x22 \<and> c \<noteq> CHR 0x5C \<Longrightarrow> validateJCSUnicodeEscapes True (s @ t) = validateJCSUnicodeEscapes True t"
  by (induction s) auto

lemma escapes_rune:
  assumes "scalar r" shows "validateJCSUnicodeEscapes True (rune_escape r @ t) = validateJCSUnicodeEscapes True t"
proof -
  consider "r = 0x22 \<or> r = 0x5C" | "r = 8 \<or> r = 9 \<or> r = 10 \<or> r = 12 \<or> r = 13"
    | "r < 0x20" "r \<noteq> 8" "r \<noteq> 9" "r \<noteq> 10" "r \<noteq> 12" "r \<noteq> 13" | "0x20 \<le> r" "r \<noteq> 0x22" "r \<noteq> 0x5C" by linarith
  then show ?thesis
  proof cases
    case 1
    moreover have "char_of (0x22 :: nat) = CHR 0x22" "char_of (0x5C :: nat) = CHR 0x5C" by (simp_all add: char_of_def bit_0)
    ultimately show ?thesis by (auto simp: rune_escape_def encode_ascii)
  next
    case 2
    then show ?thesis by (auto simp: rune_escape_def)
  next
    case 3
    have "\<not> high_surrogate r" "\<not> low_surrogate r" using 3 by (simp_all add: high_surrogate_def low_surrogate_def)
    then show ?thesis using 3 parse_control [OF 3(1), of t] by (simp add: rune_escape_def del: parseHex16.simps)
  next
    case 4
    have "\<forall>c \<in> set (encode_rune r). c \<noteq> CHR 0x22 \<and> c \<noteq> CHR 0x5C"
    proof (cases "r < 0x80")
      case True
      then have "byte c = r" if "c \<in> set (encode_rune r)" for c using that by (simp add: byte_char_of encode_ascii)
      then show ?thesis using 4 by (force simp: byte_def)
    next
      case False
      then show ?thesis using encode_high [OF assms] by (force simp: byte_def)
    qed
    then show ?thesis using 4 escapes_plain by (simp add: rune_escape_def)
  qed
qed

lemma valid_rune_escape: "scalar r \<Longrightarrow> valid_utf8 (rune_escape r)"
proof -
  assume r: "scalar r"
  have e: "valid_utf8 (encode_rune r)" using valid_string_of_runes [of "[r]"] r by simp
  have h: "n < 16 \<Longrightarrow> byte (hex_digit n) < 0x80" for n by (auto simp: hex_digit_def byte_char_of)
  show ?thesis
    using e by (auto simp: rune_escape_def intro!: valid_utf8_Cons h) (simp_all add: byte_def)
qed

lemma clean_string: "valid_utf8 s \<Longrightarrow> clean (appendJCSString s)"
proof -
  assume "valid_utf8 s"
  then obtain rs where rs: "scalars rs" "s = string_of_runes rs" by (rule valid_utf8_cases)
  have body: "scalars us \<Longrightarrow> valid_utf8 (concat (map rune_escape us))
      \<and> validateJCSUnicodeEscapes True (concat (map rune_escape us) @ t) = validateJCSUnicodeEscapes True t" for us t
    by (induction us) (simp_all add: valid_rune_escape valid_utf8_append escapes_rune)
  have q: "byte (CHR 0x22) < 0x80" by (simp add: byte_def)
  have "valid_utf8 ([CHR 0x22] @ concat (map rune_escape rs) @ [CHR 0x22])"
    using body [OF rs(1)] q by (intro valid_utf8_append) (simp_all add: valid_utf8_Cons)
  then show ?thesis using body [OF rs(1)] rs by (simp add: clean_def appendJCSString_def)
qed

lemma clean_number: "number_ok s \<Longrightarrow> clean s"
proof -
  assume "number_ok s"
  then have "list_all (\<lambda>c. is_digit c \<or> c = CHR ''-'') s"
    by (cases s) (auto simp: number_ok_def integer_text_def decimal_text_def list_all_iff split: if_splits)
  then show ?thesis
    by (induction s) (auto intro!: clean_Nil clean_Cons simp: is_digit_def byte_def)
qed

lemma clean_value: "wf_jcs v \<Longrightarrow> clean (appendJCSValue v)"
proof (induction v rule: appendJCSValue.induct)
  case (5 vs)
  then have "clean (join '','' (map appendJCSValue vs))" by (intro clean_join) (auto simp: list_all_iff)
  then show ?case by (auto intro!: clean_Cons clean_append clean_Nil simp: byte_def)
next
  case (6 es)
  have "clean (join '','' (map entry_text (go_sort key_less es)))"
  proof (rule clean_join)
    fix x assume "x \<in> set (map entry_text (go_sort key_less es))"
    then obtain e where e: "e \<in> set es" "x = entry_text e" by auto
    have "clean (appendJCSString (fst e))" "clean (appendJCSValue (snd e))"
      using 6 e(1) by (auto simp: list_all_iff intro: clean_string)
    moreover have "clean '':''" by (rule clean_Cons [OF _ _ clean_Nil]) (simp_all add: byte_def)
    ultimately show "clean x" unfolding e(2) by (intro clean_append)
  qed
  then show ?case by (auto intro!: clean_Cons clean_append clean_Nil simp: byte_def)
next
  case (4 s)
  then show ?case by (simp add: clean_number)
qed (auto intro!: clean_Cons clean_Nil clean_string simp: byte_def)

section \<open>Properties\<close>

context number_reading
begin

lemma text_reads_back: "wf_jcs v \<Longrightarrow> canonicalize num (appendJCSValue v) = Some (Inr (appendJCSValue v))"
proof -
  assume v: "wf_jcs v"
  have c: "valid_utf8 (appendJCSValue v)" "validateJCSUnicodeEscapes False (appendJCSValue v) = None"
    using clean_value [OF v] by (auto simp: clean_def dest: spec [of _ "[]"])
  have d: "decodeJCSValue num (2 * length (appendJCSValue v) + 1) (dec (appendJCSValue v) TopValue []) = Some (Inr (normal v, dec [] TopValue []))"
    using reads_backD [OF value_reads_back [OF v], of "[]" "2 * length (appendJCSValue v) + 1" TopValue "[]"] by (simp add: value_end_def)
  have e: "Token (dec [] TopValue []) = Inl EndOfInput" by (simp add: Token.simps [of "dec [] TopValue []"] skip_space_def)
  show ?thesis
    unfolding canonicalize_def
    by (simp only: c d e option.case sum.case prod.case not_True_eq_False if_False append_normal HOL.simp_thms)
qed

lemma text_value:
  assumes "canonicalize num input = Some (Inr out)" obtains v where "wf_jcs v" "out = appendJCSValue v"
proof -
  obtain v d where v: "decodeJCSValue num (2 * length input + 1) (dec input TopValue []) = Some (Inr (v, d))" "out = appendJCSValue v"
    using assms by (auto simp: canonicalize_def split: if_splits option.splits sum.splits)
  have "wf_jcs v" using decodeJCSValue_decoded [of "dec input TopValue []" "2 * length input + 1"] v(1) by simp
  with v(2) show thesis using that by blast
qed

lemma canonicalize_returns: "canonicalize num input \<noteq> None"
proof -
  have "decoded (length input) (decodeJCSValue num (2 * length input + 1) (dec input TopValue []))"
    using decodeJCSValue_decoded [of "dec input TopValue []" "2 * length input + 1"] by simp
  then show ?thesis
    by (cases rule: decoded_cases) (auto simp: canonicalize_def split: option.splits)
qed

lemma text_again:
  assumes "canonicalize num input = Some (Inr out)"
  shows "canonicalize num out = Some (Inr out)"
  using assms by (rule text_value) (simp add: text_reads_back)

end

lemma jcs_number_reads: "number_ok s \<Longrightarrow> jcs_number s = Inr (CNumber s)"
  by (simp add: jcs_number_def number_ok_def)

interpretation server: number_reading jcs_number
  by unfold_locales (simp_all add: jcs_number_Inr jcs_number_reads)

interpretation client: number_reading client_number
  by unfold_locales (auto simp: client_number_def number_ok_def split: if_splits)

lemmas canonical_reads_back = server.text_reads_back [folded CanonicalizeJCS_def]
lemmas canonical_value = server.text_value [folded CanonicalizeJCS_def]
lemmas canonical_returns = server.canonicalize_returns [folded CanonicalizeJCS_def]
lemmas canonical_again = server.text_again [folded CanonicalizeJCS_def]

text \<open>A reader that reads more numbers decodes what a stricter one decodes.\<close>

lemma decode_stricter:
  assumes num: "\<And>s v. num s = Inr v \<Longrightarrow> num' s = Inr v"
  shows "(decodeJCSValue num n d = Some (Inr r) \<longrightarrow> decodeJCSValue num' n d = Some (Inr r))
    \<and> (decode_entries num n es d = Some (Inr r) \<longrightarrow> decode_entries num' n es d = Some (Inr r))
    \<and> (decode_items num n vs d = Some (Inr r) \<longrightarrow> decode_items num' n vs d = Some (Inr r))"
proof (induction n arbitrary: d es vs r)
  case (Suc n)
  have IH: "decodeJCSValue num n d = Some (Inr r) \<Longrightarrow> decodeJCSValue num' n d = Some (Inr r)"
    "decode_entries num n es d = Some (Inr r) \<Longrightarrow> decode_entries num' n es d = Some (Inr r)"
    "decode_items num n vs d = Some (Inr r) \<Longrightarrow> decode_items num' n vs d = Some (Inr r)" for d es vs r
    using Suc.IH by blast+
  have "decodeJCSValue num' (Suc n) d = Some (Inr r)" if a: "decodeJCSValue num (Suc n) d = Some (Inr r)"
  proof -
    obtain t d' where t: "next_token d = Inr (t, d')" using a by (cases "next_token d") auto
    show ?thesis
    proof (cases t)
      case (TNumber s)
      then show ?thesis using a t num by (cases "num s") auto
    next
      case (TDelim c)
      then show ?thesis using a t IH(2) [of "[]" d'] IH(3) [of "[]" d'] by (auto split: if_splits)
    qed (use a t in simp_all)
  qed
  moreover have "decode_entries num' (Suc n) es d = Some (Inr r)" if a: "decode_entries num (Suc n) es d = Some (Inr r)"
  proof (cases "More d")
    case True
    obtain t d' where t: "next_token d = Inr (t, d')" using a True by (cases "next_token d") auto
    obtain k where k: "t = TString k" "k \<notin> fst ` set es" using a True t by (cases t) (auto split: if_splits)
    obtain v d'' where v: "decodeJCSValue num n d' = Some (Inr (v, d''))"
      using a True t k by (cases "decodeJCSValue num n d'") (auto split: sum.splits)
    then show ?thesis using a True t k IH(1) [OF v] IH(2) by simp
  qed (use a in simp)
  moreover have "decode_items num' (Suc n) vs d = Some (Inr r)" if a: "decode_items num (Suc n) vs d = Some (Inr r)"
  proof (cases "More d")
    case True
    obtain v d' where v: "decodeJCSValue num n d = Some (Inr (v, d'))"
      using a True by (cases "decodeJCSValue num n d") (auto split: sum.splits)
    then show ?thesis using a True IH(1) [OF v] IH(3) by simp
  qed (use a in simp)
  ultimately show ?case by blast
qed simp

text \<open>
  C28: The server and the command line client agree on the canonical text: what the client makes of an input is what
  the server makes of it, and each leaves a text alone that the other made. (The client refuses some inputs, those with
  a negative zero.)
\<close>

theorem programs_agree:
  "(ClientCanonicalizeJCS input = Some (Inr c) \<longrightarrow> CanonicalizeJCS input = Some (Inr c))
    \<and> (CanonicalizeJCS input = Some (Inr c) \<longrightarrow> ClientCanonicalizeJCS c = Some (Inr c))"
proof (intro conjI impI)
  assume c: "ClientCanonicalizeJCS input = Some (Inr c)"
  then obtain v d where v: "decodeJCSValue client_number (2 * length input + 1) (dec input TopValue []) = Some (Inr (v, d))"
    by (auto simp: ClientCanonicalizeJCS_def canonicalize_def split: if_splits option.splits sum.splits)
  have "jcs_number s = Inr v" if "client_number s = Inr v" for s v
    using that by (auto simp: client_number_def jcs_number_def split: if_splits)
  then have "decodeJCSValue jcs_number (2 * length input + 1) (dec input TopValue []) = Some (Inr (v, d))"
    using decode_stricter [of client_number jcs_number] v by blast
  with v c show "CanonicalizeJCS input = Some (Inr c)"
    by (auto simp: ClientCanonicalizeJCS_def CanonicalizeJCS_def canonicalize_def split: if_splits option.splits)
next
  assume "CanonicalizeJCS input = Some (Inr c)"
  then show "ClientCanonicalizeJCS c = Some (Inr c)"
    by (rule canonical_value) (simp add: ClientCanonicalizeJCS_def client.text_reads_back)
qed

text \<open>
  C31: Canonicalising ends on every input: each call of the decoder is followed by a token, so a fuel of twice the
  length and one is never used up.
\<close>

theorem CanonicalizeJCS_returns: "CanonicalizeJCS input \<noteq> None"
  by (rule canonical_returns)

text \<open>
  C30: The canonical text is a fixed point: canonicalising what \<open>CanonicalizeJCS\<close> returned returns it unchanged, so
  a hash taken over it does not depend on how often it was canonicalised on the way.
\<close>

theorem canonical_fixed_point:
  assumes "CanonicalizeJCS input = Some (Inr out)"
  shows "CanonicalizeJCS out = Some (Inr out)"
  using assms by (rule canonical_again)

text \<open>
  C29: Two values have the same canonical text exactly when they are the same up to the order of the entries of
  their objects: nothing else is forgotten, so a signature over the text is one over the value. And any
  order of the entries of an object gives the same text.
\<close>

theorem canonical_text_decides:
  assumes "wf_jcs v" "wf_jcs w"
  shows "(appendJCSValue v = appendJCSValue w \<longleftrightarrow> normal v = normal w)
    \<and> (v = CObject es \<and> w = CObject fs \<and> mset es = mset fs \<longrightarrow> appendJCSValue v = appendJCSValue w)"
proof (intro conjI impI)
  have again: "wf_jcs u \<Longrightarrow> decodeJCSValue jcs_number (2 * length (appendJCSValue u) + 1) (dec (appendJCSValue u) TopValue [])
      = Some (Inr (normal u, dec [] TopValue []))" for u
    using reads_backD [OF server.value_reads_back, of u "[]" "2 * length (appendJCSValue u) + 1" TopValue "[]"] by (simp add: value_end_def)
  have "normal v = normal w" if "appendJCSValue v = appendJCSValue w"
    using again [OF assms(1)] again [OF assms(2)] unfolding that by simp
  moreover have "appendJCSValue v = appendJCSValue w" if "normal v = normal w"
    using append_normal [of v] append_normal [of w] unfolding that by simp
  ultimately show "appendJCSValue v = appendJCSValue w \<longleftrightarrow> normal v = normal w" by blast
next
  assume p: "v = CObject es \<and> w = CObject fs \<and> mset es = mset fs"
  have "go_sort key_less es = go_sort key_less fs"
  proof (rule entry_order.go_sort_unique)
    fix x y assume xy: "x \<in> set es" "y \<in> set es" "x \<noteq> y"
    have "distinct (map fst es)" "valid_utf8 (fst x)" "valid_utf8 (fst y)" using assms(1) p xy by (auto simp: list_all_iff)
    then have "fst x \<noteq> fst y" using xy by (meson distinct_map inj_onD)
    moreover obtain rs us where "scalars rs" "fst x = string_of_runes rs" "scalars us" "fst y = string_of_runes us"
      using \<open>valid_utf8 (fst x)\<close> \<open>valid_utf8 (fst y)\<close> by (metis valid_utf8_cases)
    ultimately have "utf16_encode (runes (fst x)) \<noteq> utf16_encode (runes (fst y))" using utf16_inj by auto
    then show "key_less x y \<or> key_less y x" unfolding key_less_def utf16Less_def by (rule units_less_total)
  qed (use p in blast)
  then show "appendJCSValue v = appendJCSValue w" using p by simp
qed

section \<open>Decimal numbers\<close>

lemma decimal_value_snoc: "decimal_value (s @ [c]) = 10 * decimal_value s + (byte c - 48)"
  by (simp add: decimal_value_def)

lemma digit_char: "n < 10 \<Longrightarrow> is_digit (char_of (48 + n)) \<and> byte (char_of (48 + n)) = 48 + n"
  by (simp add: is_digit_def byte_char_of)

lemma digit_value: "is_digit c \<Longrightarrow> c = char_of (48 + (byte c - 48)) \<and> byte c - 48 < 10"
  using char_of_byte [of c] by (auto simp: is_digit_def)

lemma nat_text_decimal: "decimal_text (nat_text n) \<and> decimal_value (nat_text n) = n \<and> (0 < n \<longrightarrow> hd (nat_text n) \<noteq> CHR ''0'')"
proof (induction n rule: nat_text.induct)
  case (1 n)
  show ?case
  proof (cases "n < 10")
    case True
    have "byte (char_of (48 + n)) \<noteq> byte (CHR ''0'')" if "0 < n" using digit_char [OF True] that by (simp add: byte_def)
    then have "char_of (48 + n) \<noteq> CHR ''0''" if "0 < n" using that by metis
    then show ?thesis
      using digit_char [OF True] True by (simp add: nat_text.simps [of n] decimal_text_def decimal_value_def)
  next
    case False
    then have ih: "decimal_text (nat_text (n div 10))" "decimal_value (nat_text (n div 10)) = n div 10" "hd (nat_text (n div 10)) \<noteq> CHR ''0''"
      using 1 by simp_all
    have "n mod 10 < 10" by simp
    then show ?thesis
      using ih digit_char [of "n mod 10"] False
      by (auto simp: nat_text.simps [of n] decimal_value_snoc decimal_text_def hd_append)
  qed
qed

lemma decimal_value_pos: "list_all is_digit s \<Longrightarrow> s \<noteq> [] \<Longrightarrow> hd s \<noteq> CHR ''0'' \<Longrightarrow> 0 < decimal_value s"
proof (induction s rule: rev_induct)
  case (snoc c s)
  show ?case
  proof (cases "s = []")
    case True
    have "byte c \<noteq> 48"
    proof
      assume "byte c = 48"
      then have "c = char_of (48 :: nat)" using char_of_byte [of c] by simp
      then show False using snoc.prems(3) True by (simp add: char_of_def bit_0)
    qed
    then show ?thesis using snoc.prems True by (simp add: decimal_value_def is_digit_def)
  next
    case False
    then show ?thesis using snoc by (simp add: decimal_value_snoc)
  qed
qed simp

lemma decimal_text_value: "decimal_text s \<Longrightarrow> nat_text (decimal_value s) = s"
proof (induction s rule: rev_induct)
  case Nil
  then show ?case by (simp add: decimal_text_def)
next
  case (snoc c s)
  have c: "is_digit c" using snoc.prems by (simp add: decimal_text_def)
  note v = digit_value [OF c]
  show ?case
  proof (cases "s = []")
    case True
    then show ?thesis using v by (simp add: decimal_value_def nat_text.simps)
  next
    case False
    then have s: "decimal_text s" "hd s \<noteq> CHR ''0''" using snoc.prems by (auto simp: decimal_text_def)
    have pos: "0 < decimal_value s" using decimal_value_pos s False by (auto simp: decimal_text_def)
    then have "\<not> 10 * decimal_value s + (byte c - 48) < 10" by linarith
    moreover have "(10 * decimal_value s + (byte c - 48)) div 10 = decimal_value s" "(10 * decimal_value s + (byte c - 48)) mod 10 = byte c - 48"
      using v by simp_all
    ultimately have "nat_text (decimal_value (s @ [c])) = nat_text (decimal_value s) @ [char_of (48 + (byte c - 48))]"
      by (simp add: decimal_value_snoc nat_text.simps [of "10 * decimal_value s + (byte c - 48)"])
    then show ?thesis using snoc.IH [OF s(1)] v by metis
  qed
qed

text \<open>
  Decimal numbers of 63 bits have one text: a text is read as a number exactly when it is how the number is
  written, so signed payloads cannot spell the same number in two ways.
\<close>

theorem uint63_round_trip: "ParseUint63Decimal s = Inr n \<longleftrightarrow> FormatUint63Decimal n = Inr s"
  using nat_text_decimal [of n] decimal_text_value [of s]
  by (auto simp: ParseUint63Decimal_def FormatUint63Decimal_def)

section \<open>Examples\<close>

definition example_object :: "(string \<times> jcs) list" where
  "example_object = [(''b'', CNumber ''-1''), (''a'', CArray [CNull, CString ''x''])]"

lemma example_runes: "valid_utf8 ''a''" "valid_utf8 ''b''" "valid_utf8 ''x''"
  by (intro valid_utf8_Cons; simp add: byte_def)+

theorem canonical_text_decides_witness:
  "appendJCSValue (CObject example_object) = appendJCSValue (CObject (rev example_object)) \<and> example_object \<noteq> rev example_object"
proof -
  have num: "number_ok ''-1''"
    by (simp add: number_ok_def integer_text_def integer_value_def decimal_text_def decimal_value_def is_digit_def byte_def in_int64_def)
  have wf: "wf_jcs (CObject example_object)" "wf_jcs (CObject (rev example_object))"
    by (simp_all add: example_object_def example_runes num)
  show ?thesis
    using canonical_text_decides [OF wf, of example_object "rev example_object"] by (simp add: example_object_def)
qed

theorem canonical_fixed_point_witness:
  "\<exists>out. CanonicalizeJCS '' [ 1 , {} , true ] '' = Some (Inr out) \<and> CanonicalizeJCS out = Some (Inr out) \<and> out = ''[1,{},true]''"
proof -
  have c: "CanonicalizeJCS '' [ 1 , {} , true ] '' = Some (Inr ''[1,{},true]'')" by code_simp
  from canonical_fixed_point [OF this] c show ?thesis by blast
qed

theorem programs_agree_witness:
  "ClientCanonicalizeJCS ''{}'' = Some (Inr ''{}'') \<and> CanonicalizeJCS ''{}'' = Some (Inr ''{}'')"
proof -
  have c: "CanonicalizeJCS ''{}'' = Some (Inr ''{}'')" by code_simp
  with programs_agree [of "''{}''" "''{}''"] show ?thesis by blast
qed

end
