(* ===== verification/Offline.thy ===== *)
theory Offline
  imports Archive Jcs_Canonical
begin

text \<open>
  Operations recorded without a connection (\<open>learning/offline.go\<close>, the wire part of \<open>offline_protocol.go\<close> and
  \<open>OfflineService.Sync\<close> in \<open>offline_service.go\<close>): the states of a submission, what a device may send, how it is
  decoded, bound to the authorization the server signed, and uploaded in the order of its sequence numbers.

  A string type of the source whose constants are listed is a datatype with these constants and \<open>Other\<close>; the empty
  string of a status is \<open>Other []\<close>. Parameters (\<open>offline_lib\<close>): the strict decoders of \<open>encoding/json\<close> for the
  protocol's structs and its encoder, \<open>net/url\<close>, \<open>uuid.Validate\<close>. The canonical form of JSON is that of \<open>Jcs\<close>,
  which also reads the fields of an object.
\<close>

section \<open>States\<close>

datatype OfflineSubmissionState = OfflineSubmissionReserved | OfflineSubmissionClaimedSucceeded
  | OfflineSubmissionClaimedRejected | OfflineSubmissionExpired | OfflineSubmissionRevoked | OtherSubmissionState string

definition CanTransitionOfflineSubmission :: "OfflineSubmissionState \<Rightarrow> OfflineSubmissionState \<Rightarrow> bool" where
  "CanTransitionOfflineSubmission old new \<longleftrightarrow> old = OfflineSubmissionReserved
     \<and> new \<in> {OfflineSubmissionClaimedSucceeded, OfflineSubmissionClaimedRejected, OfflineSubmissionExpired, OfflineSubmissionRevoked}"

datatype OfflineLocalState = OfflineLocalDraft | OfflineLocalQueued | OfflineLocalUploading | OfflineLocalArchivedPendingEvidence
  | OfflineLocalTerminal | OfflineLocalConflict | OfflineLocalBlocked | OfflineLocalDiscarded | OtherLocalState string

definition CanTransitionOfflineLocal :: "OfflineLocalState \<Rightarrow> OfflineLocalState \<Rightarrow> bool \<Rightarrow> bool" where
  "CanTransitionOfflineLocal old new privacyPurge =
     (if privacyPurge \<and> new = OfflineLocalDiscarded then True
      else case old of
          OfflineLocalDraft \<Rightarrow> new = OfflineLocalQueued \<or> new = OfflineLocalDiscarded
        | OfflineLocalQueued \<Rightarrow> new = OfflineLocalUploading \<or> new = OfflineLocalDiscarded
        | OfflineLocalUploading \<Rightarrow> new = OfflineLocalQueued \<or> new = OfflineLocalArchivedPendingEvidence
            \<or> new = OfflineLocalTerminal \<or> new = OfflineLocalConflict \<or> new = OfflineLocalBlocked
        | OfflineLocalArchivedPendingEvidence \<Rightarrow> new = OfflineLocalTerminal \<or> new = OfflineLocalBlocked
        | OfflineLocalTerminal \<Rightarrow> new = OfflineLocalDiscarded
        | OfflineLocalConflict \<Rightarrow> new = OfflineLocalDiscarded
        | OfflineLocalBlocked \<Rightarrow> new = OfflineLocalDiscarded
        | _ \<Rightarrow> False)"

datatype OfflineWorkerStatus = OfflineWorkerQueued | OfflineWorkerProcessing | OfflineWorkerPendingRetry
  | OfflineWorkerCompleted | OfflineWorkerFailed | OtherWorkerStatus string

definition CanTransitionOfflineWorker :: "OfflineWorkerStatus \<Rightarrow> OfflineWorkerStatus \<Rightarrow> bool" where
  "CanTransitionOfflineWorker old new =
     (case old of
        OfflineWorkerQueued \<Rightarrow> new = OfflineWorkerProcessing
      | OfflineWorkerProcessing \<Rightarrow> new = OfflineWorkerPendingRetry \<or> new = OfflineWorkerCompleted \<or> new = OfflineWorkerFailed
      | OfflineWorkerPendingRetry \<Rightarrow> new = OfflineWorkerProcessing \<or> new = OfflineWorkerCompleted \<or> new = OfflineWorkerFailed
      | _ \<Rightarrow> False)"

datatype OfflineArchiveStatus = OfflineArchivedSucceeded | OfflineArchivedRejected | OfflineNotArchivedRetry
  | OfflineNotArchivedBlocked | OfflineIdempotencyConflict | OfflineSequenceConflict | OfflineNotProcessed | OtherArchiveStatus string

datatype OfflineAssessmentStatus = OfflineAssessmentNotRequested | OfflineAssessmentQueued | OfflineAssessmentProcessing
  | OfflineAssessmentPendingRetry | OfflineAssessmentCompleted | OfflineAssessmentFailed | OtherAssessmentStatus string

datatype OfflineEvidenceStatus = OfflineEvidenceAccepted | OfflineEvidenceProvisional | OfflineEvidencePendingEvaluation
  | OfflineEvidenceNotEligible | OfflineEvidenceNotApplicable | OfflineEvidenceUnchanged | OtherEvidenceStatus string

datatype OfflineResultKind = OfflineResultArchived | OfflineResultRetryable | OfflineResultBlocked | OfflineResultConflict
  | OfflineResultNotProcessed | OtherResultKind string

definition ValidateOfflineResultCombination ::
  "OfflineArchiveStatus \<Rightarrow> OfflineAssessmentStatus \<Rightarrow> OfflineEvidenceStatus \<Rightarrow> error option" where
  "ValidateOfflineResultCombination archive assessment evidence =
     (let valid =
        (case archive of
           OfflineArchivedRejected \<Rightarrow> assessment = OfflineAssessmentNotRequested \<and> evidence = OfflineEvidenceUnchanged
         | OfflineArchivedSucceeded \<Rightarrow>
             (case assessment of
                OfflineAssessmentNotRequested \<Rightarrow> evidence \<in> {OfflineEvidenceProvisional, OfflineEvidenceNotEligible, OfflineEvidenceNotApplicable}
              | OfflineAssessmentQueued \<Rightarrow> evidence = OfflineEvidencePendingEvaluation
              | OfflineAssessmentCompleted \<Rightarrow> evidence \<in> {OfflineEvidenceAccepted, OfflineEvidenceProvisional, OfflineEvidenceNotEligible}
              | OfflineAssessmentFailed \<Rightarrow> evidence = OfflineEvidenceUnchanged
              | _ \<Rightarrow> False)
         | OtherArchiveStatus _ \<Rightarrow> False
         | _ \<Rightarrow> assessment = OtherAssessmentStatus [] \<and> evidence = OtherEvidenceStatus [])
      in if \<not> valid then Some (err_reason CodeInvalidRequest ''invalid_offline_result_combination'') else None)"

section \<open>The texts of the wire\<close>

text \<open>\<open>base64.RawURLEncoding\<close>: the decoder skips line breaks and does not look at the unused low bits.\<close>

definition b64_digit :: "nat \<Rightarrow> char" where
  "b64_digit n = (if n < 26 then char_of (65 + n) else if n < 52 then char_of (71 + n) else if n < 62 then char_of (n - 4)
     else if n = 62 then CHR ''-'' else CHR ''_'')"

definition b64_value :: "char \<Rightarrow> nat option" where
  "b64_value c =
     (let n = byte c
      in if 65 \<le> n \<and> n \<le> 90 then Some (n - 65) else if 97 \<le> n \<and> n \<le> 122 then Some (n - 71)
         else if 48 \<le> n \<and> n \<le> 57 then Some (n + 4) else if c = CHR ''-'' then Some 62
         else if c = CHR ''_'' then Some 63 else None)"

fun b64_encode :: "string \<Rightarrow> string" where
  "b64_encode [] = []"
| "b64_encode [a] = [b64_digit (byte a div 4), b64_digit (byte a mod 4 * 16)]"
| "b64_encode [a, b] = [b64_digit (byte a div 4), b64_digit (byte a mod 4 * 16 + byte b div 16), b64_digit (byte b mod 16 * 4)]"
| "b64_encode (a # b # c # s) = b64_digit (byte a div 4) # b64_digit (byte a mod 4 * 16 + byte b div 16)
     # b64_digit (byte b mod 16 * 4 + byte c div 64) # b64_digit (byte c mod 64) # b64_encode s"

fun b64_groups :: "nat list \<Rightarrow> string option" where
  "b64_groups [] = Some []"
| "b64_groups [a] = None"
| "b64_groups [a, b] = Some [char_of (a * 4 + b div 16)]"
| "b64_groups [a, b, c] = Some [char_of (a * 4 + b div 16), char_of (b mod 16 * 16 + c div 4)]"
| "b64_groups (a # b # c # d # ns) =
     map_option (\<lambda>s. char_of (a * 4 + b div 16) # char_of (b mod 16 * 16 + c div 4) # char_of (c mod 4 * 64 + d) # s) (b64_groups ns)"

definition b64_decode :: "string \<Rightarrow> string option" where
  "b64_decode s =
     (let vs = map b64_value (filter (\<lambda>c. byte c \<noteq> 10 \<and> byte c \<noteq> 13) s)
      in if None \<in> set vs then None else b64_groups (map the vs))"

definition offlineBase64Digest :: "golib \<Rightarrow> string \<Rightarrow> string" where
  "offlineBase64Digest L v = b64_encode (lib_sha256 L v)"

definition validOfflineDigest :: "string \<Rightarrow> bool" where
  "validOfflineDigest v = (case b64_decode v of None \<Rightarrow> False | Some d \<Rightarrow> length d = 32 \<and> b64_encode d = v)"

text \<open>\<open>CanonicalizeJCS\<close> returns on every input, so its result is taken out of the option here.\<close>

definition jcs_text :: "string \<Rightarrow> error + string" where
  "jcs_text s = the (CanonicalizeJCS s)"

definition jcs_hash :: "golib \<Rightarrow> string \<Rightarrow> error + string" where
  "jcs_hash L s = the (JCSSHA256 L s)"

text \<open>The fields of a canonical text, as unmarshalling into a map finds them; null leaves the map empty.\<close>

definition object_fields :: "string \<Rightarrow> string list option" where
  "object_fields s =
     (case decodeJCSValue jcs_number (2 * length s + 1) \<lparr>dec_Input = s, dec_State = TopValue, dec_Stack = []\<rparr> of
        Some (Inr (CObject es, _)) \<Rightarrow> Some (map fst es)
      | Some (Inr (CNull, _)) \<Rightarrow> Some []
      | _ \<Rightarrow> None)"

section \<open>Operations\<close>

datatype OfflineOperationType = OfflineAttemptCompleted | OfflineActivitySkipped | OtherOperationType string

record OfflineObservation =
  ob_Kind :: string
  ob_OccurredAt :: "ZonedTime option"

record OfflineAttemptPayload =
  oa_Answer :: string
  oa_AnswerSHA256 :: string
  oa_Help :: HelpLevel
  oa_Observations :: "OfflineObservation list"

record OfflineSkipPayload =
  os_Reason :: string

record OfflineOperationWireV1 =
  ow_OperationID :: string
  ow_DeviceID :: string
  ow_DeviceSequence :: string
  ow_SubmissionID :: string
  ow_PayloadSchemaVersion :: int
  ow_AggregateType :: string
  ow_AggregateID :: string
  ow_ExpectedVersion :: string
  ow_OfflineActivityID :: string
  ow_ActivityRevision :: string
  ow_Authorization :: string
  ow_Signature :: string
  ow_OccurredAt :: "ZonedTime option"
  ow_OperationType :: OfflineOperationType
  ow_Payload :: string

record OfflineOperation =
  oo_OperationID :: string
  oo_DeviceID :: string
  oo_CredentialEpoch :: int
  oo_LearnerGeneration :: int
  oo_DeviceSequence :: nat
  oo_SubmissionID :: string
  oo_PayloadSchemaVersion :: int
  oo_AggregateType :: string
  oo_AggregateID :: string
  oo_ExpectedVersion :: int
  oo_OfflineActivityID :: string
  oo_ActivityRevision :: int
  oo_AuthorizationHash :: string
  oo_Authorization :: string
  oo_AuthorizationSig :: string
  oo_OccurredAt :: "ZonedTime option"
  oo_Type :: OfflineOperationType
  oo_Payload :: string
  oo_Attempt :: "OfflineAttemptPayload option"
  oo_Skip :: "OfflineSkipPayload option"

text \<open>The anonymous struct whose text \<open>CanonicalHash\<close> hashes.\<close>

record OfflineHashPayload =
  hp_ProtocolVersion :: int
  hp_OperationID :: string
  hp_DeviceID :: string
  hp_DeviceSequence :: string
  hp_SubmissionID :: string
  hp_PayloadSchemaVersion :: int
  hp_AggregateType :: string
  hp_AggregateID :: string
  hp_ExpectedVersion :: string
  hp_OfflineActivityID :: string
  hp_ActivityRevision :: string
  hp_AuthorizationHash :: string
  hp_OccurredAt :: "ZonedTime option"
  hp_OperationType :: OfflineOperationType
  hp_Payload :: string

record OfflineAuthorizationPayloadV1 =
  au_ProtocolVersion :: int
  au_Format :: string
  au_Issuer :: string
  au_SignerKeyID :: string
  au_PackID :: string
  au_DeviceID :: string
  au_CredentialEpoch :: string
  au_LearnerGeneration :: string
  au_ServerOriginDigest :: string
  au_OfflineActivityID :: string
  au_ActivityRevision :: string
  au_SubmissionID :: string
  au_OperationID :: string
  au_DeviceSequence :: string
  au_ExpectedVersion :: string
  au_ActivityPayloadDigest :: string
  au_EligibleUntil :: time
  au_ArchiveUntil :: time

text \<open>A URL as \<open>net/url\<close> parses it.\<close>

record url =
  url_Scheme :: string
  url_Host :: string
  url_User :: bool \<comment> \<open>\<open>User\<close> is not nil\<close>
  url_Path :: string
  url_RawQuery :: string
  url_Fragment :: string

record offline_lib =
  olib_lib :: golib
  olib_uuid :: "string \<Rightarrow> bool" \<comment> \<open>\<open>uuid.Validate\<close> accepts\<close>
  olib_url :: "string \<Rightarrow> url option"
  olib_url_text :: "url \<Rightarrow> string"
  olib_wire :: "string \<Rightarrow> error + OfflineOperationWireV1"
  olib_attempt :: "string \<Rightarrow> error + OfflineAttemptPayload"
  olib_skip :: "string \<Rightarrow> error + OfflineSkipPayload"
  olib_authorization :: "string \<Rightarrow> error + OfflineAuthorizationPayloadV1"
  olib_print_attempt :: "OfflineAttemptPayload option \<Rightarrow> string"
  olib_print_skip :: "OfflineSkipPayload option \<Rightarrow> string"
  olib_print_operation :: "OfflineHashPayload \<Rightarrow> error + string"

definition invalid_offline :: "string \<Rightarrow> error" where
  "invalid_offline r = err_reason CodeInvalidRequest r"

definition invalid_offline_cause :: "string \<Rightarrow> error \<Rightarrow> error" where
  "invalid_offline_cause r e = err_cause CodeInvalidRequest r (Some e)"

definition canonicalUUID :: "golib \<Rightarrow> string \<Rightarrow> bool" where
  "canonicalUUID L v \<longleftrightarrow> lib_uuid_parse L v = Some v"

definition lower_case :: "golib \<Rightarrow> string \<Rightarrow> string" where
  "lower_case L s = to_lower (lib_lower L) s"

definition utc :: "ZonedTime option \<Rightarrow> bool" where
  "utc t = (case t of None \<Rightarrow> True | Some z \<Rightarrow> zt_Offset z = 0)"

definition decodePayload :: "offline_lib \<Rightarrow> OfflineOperation \<Rightarrow> error + OfflineOperation" where
  "decodePayload P op =
     (case oo_Type op of
        OfflineAttemptCompleted \<Rightarrow>
          (case olib_attempt P (oo_Payload op) of
             Inl e \<Rightarrow> Inl (invalid_offline_cause ''invalid_offline_attempt_payload'' e)
           | Inr a \<Rightarrow> Inr (op\<lparr>oo_Attempt := Some a, oo_Skip := None\<rparr>))
      | OfflineActivitySkipped \<Rightarrow>
          (case olib_skip P (oo_Payload op) of
             Inl e \<Rightarrow> Inl (invalid_offline_cause ''invalid_offline_skip_payload'' e)
           | Inr k \<Rightarrow> Inr (op\<lparr>oo_Attempt := None, oo_Skip := Some k\<rparr>))
      | OtherOperationType _ \<Rightarrow> Inl (invalid_offline ''invalid_offline_operation_type''))"

definition json_object :: "string \<Rightarrow> bool" where
  "json_object s \<longleftrightarrow> s \<noteq> [] \<and> hd s = CHR ''{''"

text \<open>The error of unmarshalling a canonical text that is neither an object nor null into a map.\<close>

definition map_error :: "string \<Rightarrow> error" where
  "map_error s = PlainError (''json: cannot unmarshal ''
     @ (case s of [] \<Rightarrow> [] | c # _ \<Rightarrow>
          if c = CHR 0x22 then ''string'' else if c = CHR ''['' then ''array''
          else if c = CHR ''t'' \<or> c = CHR ''f'' then ''bool'' else ''number'')
     @ '' into Go value of type map[string]json.RawMessage'')"

text \<open>The parts of \<open>Validate\<close>: the envelope, the authorization's hash, and what the payload says.\<close>

definition envelope_valid :: "offline_lib \<Rightarrow> OfflineOperation \<Rightarrow> bool" where
  "envelope_valid P op \<longleftrightarrow>
     (let U = canonicalUUID (olib_lib P)
      in U (oo_OperationID op) \<and> U (oo_DeviceID op) \<and> U (oo_SubmissionID op) \<and> U (oo_AggregateID op) \<and> U (oo_OfflineActivityID op)
         \<and> oo_DeviceSequence op \<noteq> 0 \<and> oo_DeviceSequence op \<le> MaxUint63 \<and> oo_PayloadSchemaVersion op = 1
         \<and> oo_AggregateType op = ''offline_attempt'' \<and> oo_AggregateID op = oo_SubmissionID op \<and> oo_ExpectedVersion op = 0
         \<and> oo_ActivityRevision op = 1 \<and> length (oo_AuthorizationHash op) = 64)"

definition lower_hash :: "golib \<Rightarrow> string \<Rightarrow> bool" where
  "lower_hash L h \<longleftrightarrow> (case hex_decode h of None \<Rightarrow> False | Some bs \<Rightarrow> length bs = 32) \<and> h = lower_case L h"

definition authorization_error :: "golib \<Rightarrow> OfflineOperation \<Rightarrow> error option" where
  "authorization_error L op =
     (if oo_Authorization op = [] then None
      else case jcs_text (oo_Authorization op) of
          Inl _ \<Rightarrow> Some (invalid_offline ''invalid_offline_authorization'')
        | Inr c \<Rightarrow>
            if \<not> json_object c then Some (invalid_offline ''invalid_offline_authorization'')
            else if jcs_hash L c \<noteq> Inr (oo_AuthorizationHash op) then Some (invalid_offline ''authorization_hash_mismatch'')
            else None)"

definition answer_hash_valid :: "golib \<Rightarrow> OfflineAttemptPayload \<Rightarrow> bool" where
  "answer_hash_valid L a \<longleftrightarrow>
     (case (hex_decode (oa_AnswerSHA256 a), hex_decode (SHA256 L (oa_Answer a))) of
        (Some claimed, Some actual) \<Rightarrow> length claimed = 32 \<and> claimed = actual
      | _ \<Rightarrow> False) \<and> oa_AnswerSHA256 a = lower_case L (oa_AnswerSHA256 a)"

definition observation_valid :: "OfflineObservation \<Rightarrow> bool" where
  "observation_valid b \<longleftrightarrow> ob_Kind b \<in> {''activity_presented'', ''answer_recorded''} \<and> utc (ob_OccurredAt b)"

definition attempt_payload_error :: "golib \<Rightarrow> OfflineOperation \<Rightarrow> error option" where
  "attempt_payload_error L op =
     (case oo_Attempt op of
        None \<Rightarrow> Some (invalid_offline ''invalid_offline_attempt_payload'')
      | Some a \<Rightarrow>
          if oo_Skip op \<noteq> None \<or> \<not> validHelp (oa_Help a) \<or> oa_Answer a = [] \<or> 262144 < length (oa_Answer a)
             \<or> \<not> valid_utf8 (oa_Answer a) \<or> 64 < length (oa_Observations a)
          then Some (invalid_offline ''invalid_offline_attempt_payload'')
          else if \<not> answer_hash_valid L a then Some (invalid_offline ''invalid_offline_attempt_payload'')
          else if \<not> list_all observation_valid (oa_Observations a) then Some (invalid_offline ''invalid_offline_observation'')
          else None)"

definition skip_payload_error :: "OfflineOperation \<Rightarrow> error option" where
  "skip_payload_error op =
     (case (oo_Attempt op, oo_Skip op) of
        (None, Some k) \<Rightarrow>
          if os_Reason k \<in> {''user_skipped'', ''expired_locally'', ''unreadable_local_item''} then None
          else Some (invalid_offline ''invalid_offline_skip_payload'')
      | _ \<Rightarrow> Some (invalid_offline ''invalid_offline_skip_payload''))"

definition payload_error :: "golib \<Rightarrow> OfflineOperation \<Rightarrow> error option" where
  "payload_error L op =
     (case oo_Type op of
        OfflineAttemptCompleted \<Rightarrow> attempt_payload_error L op
      | OfflineActivitySkipped \<Rightarrow> skip_payload_error op
      | OtherOperationType _ \<Rightarrow> Some (invalid_offline ''invalid_offline_operation_type''))"

definition ValidateOffline :: "offline_lib \<Rightarrow> OfflineOperation \<Rightarrow> error option" where
  "ValidateOffline P op =
     (let L = olib_lib P
      in if \<not> envelope_valid P op then Some (invalid_offline ''invalid_offline_operation_envelope'')
         else if \<not> lower_hash L (oo_AuthorizationHash op) then Some (invalid_offline ''invalid_authorization_hash'')
         else case authorization_error L op of
             Some e \<Rightarrow> Some e
           | None \<Rightarrow>
               if \<not> utc (oo_OccurredAt op) then Some (invalid_offline ''occurred_at_not_utc'')
               else if oo_Payload op \<noteq> [] \<and> oo_Attempt op = None \<and> oo_Skip op = None
               then (case decodePayload P op of Inl e \<Rightarrow> Some e | Inr op \<Rightarrow> payload_error L op)
               else payload_error L op)"

section \<open>Decoding\<close>

definition wire_fields :: "string list" where
  "wire_fields = [''operation_id'', ''device_id'', ''device_seq'', ''submission_id'', ''payload_schema_version'',
     ''aggregate_type'', ''aggregate_id'', ''expected_version'', ''offline_activity_id'', ''activity_revision'',
     ''authorization'', ''signature'', ''occurred_at'', ''operation_type'', ''payload'']"

definition read_wire :: "offline_lib \<Rightarrow> string \<Rightarrow> error + OfflineOperationWireV1" where
  "read_wire P c =
     (case object_fields c of
        None \<Rightarrow> Inl (invalid_offline_cause ''invalid_offline_operation_json'' (map_error c))
      | Some ks \<Rightarrow>
          if \<not> set wire_fields \<subseteq> set ks then Inl (invalid_offline ''missing_offline_operation_field'')
          else case olib_wire P c of Inl e \<Rightarrow> Inl (invalid_offline_cause ''invalid_offline_operation_json'' e) | Inr w \<Rightarrow> Inr w)"

definition read_object :: "string \<Rightarrow> string \<Rightarrow> error + string" where
  "read_object reason s =
     (case jcs_text s of
        Inl _ \<Rightarrow> Inl (invalid_offline reason)
      | Inr c \<Rightarrow> if json_object c then Inr c else Inl (invalid_offline reason))"

definition read_signature :: "string \<Rightarrow> error + string" where
  "read_signature s =
     (case b64_decode s of
        None \<Rightarrow> Inl (invalid_offline ''invalid_offline_authorization_signature'')
      | Some bs \<Rightarrow> if length bs = 64 \<and> b64_encode bs = s then Inr bs
                  else Inl (invalid_offline ''invalid_offline_authorization_signature''))"

definition read_decimal :: "string \<Rightarrow> string \<Rightarrow> error + nat" where
  "read_decimal reason s = (case ParseUint63Decimal s of Inl _ \<Rightarrow> Inl (invalid_offline reason) | Inr n \<Rightarrow> Inr n)"

definition operation_of_wire :: "offline_lib \<Rightarrow> OfflineOperationWireV1 \<Rightarrow> error + OfflineOperation" where
  "operation_of_wire P w =
     bindE (read_decimal ''invalid_device_sequence'' (ow_DeviceSequence w)) (\<lambda>device_sequence.
     if device_sequence = 0 then Inl (invalid_offline ''invalid_device_sequence'') else
     bindE (read_decimal ''invalid_expected_version'' (ow_ExpectedVersion w)) (\<lambda>expected_version.
     bindE (read_decimal ''invalid_activity_revision'' (ow_ActivityRevision w)) (\<lambda>activity_revision.
     bindE (read_object ''invalid_offline_authorization'' (ow_Authorization w)) (\<lambda>authorization.
     case jcs_hash (olib_lib P) authorization of
       Inl e \<Rightarrow> Inl (invalid_offline_cause ''invalid_offline_authorization'' e)
     | Inr h \<Rightarrow>
     bindE (read_signature (ow_Signature w)) (\<lambda>signature.
     bindE (read_object ''invalid_offline_operation_payload'' (ow_Payload w)) (\<lambda>payload.
       Inr \<lparr>oo_OperationID = ow_OperationID w, oo_DeviceID = ow_DeviceID w, oo_CredentialEpoch = 0, oo_LearnerGeneration = 0,
         oo_DeviceSequence = device_sequence, oo_SubmissionID = ow_SubmissionID w,
         oo_PayloadSchemaVersion = ow_PayloadSchemaVersion w, oo_AggregateType = ow_AggregateType w,
         oo_AggregateID = ow_AggregateID w, oo_ExpectedVersion = int expected_version,
         oo_OfflineActivityID = ow_OfflineActivityID w, oo_ActivityRevision = int activity_revision,
         oo_AuthorizationHash = h, oo_Authorization = authorization, oo_AuthorizationSig = signature,
         oo_OccurredAt = ow_OccurredAt w, oo_Type = ow_OperationType w, oo_Payload = payload,
         oo_Attempt = None, oo_Skip = None\<rparr>))))))"

definition DecodeOfflineOperationWire :: "offline_lib \<Rightarrow> string \<Rightarrow> error + OfflineOperation" where
  "DecodeOfflineOperationWire P input =
     (case jcs_text input of
        Inl e \<Rightarrow> Inl (invalid_offline_cause ''invalid_offline_operation_json'' e)
      | Inr c \<Rightarrow>
          bindE (read_wire P c) (\<lambda>w.
          bindE (operation_of_wire P w) (\<lambda>op.
          bindE (decodePayload P op) (\<lambda>op.
          checkE (ValidateOffline P op) (Inr op)))))"

section \<open>The hash of an operation\<close>

definition canonicalPayload :: "offline_lib \<Rightarrow> OfflineOperation \<Rightarrow> error + string" where
  "canonicalPayload P op =
     (if oo_Payload op \<noteq> [] then
        (case jcs_text (oo_Payload op) of
           Inl e \<Rightarrow> Inl (invalid_offline_cause ''invalid_offline_operation_payload'' e)
         | Inr c \<Rightarrow> if json_object c then Inr c else Inl (invalid_offline ''invalid_offline_operation_payload''))
      else
        (case oo_Type op of
           OfflineAttemptCompleted \<Rightarrow> jcs_text (olib_print_attempt P (oo_Attempt op))
         | OfflineActivitySkipped \<Rightarrow> jcs_text (olib_print_skip P (oo_Skip op))
         | OtherOperationType _ \<Rightarrow> Inl (invalid_offline ''invalid_offline_operation_type'')))"

text \<open>A number that does not fit, or a hash that is not hexadecimal, is written as the empty text.\<close>

definition decimal_or_empty :: "nat \<Rightarrow> string" where
  "decimal_or_empty n = (case FormatUint63Decimal n of Inl _ \<Rightarrow> [] | Inr t \<Rightarrow> t)"

definition uint64 :: "int \<Rightarrow> nat" where
  "uint64 n = nat (n mod 2 ^ 64)"

definition hash_payload :: "OfflineOperation \<Rightarrow> string \<Rightarrow> OfflineHashPayload" where
  "hash_payload op payload =
     \<lparr>hp_ProtocolVersion = 1, hp_OperationID = oo_OperationID op, hp_DeviceID = oo_DeviceID op,
      hp_DeviceSequence = decimal_or_empty (oo_DeviceSequence op), hp_SubmissionID = oo_SubmissionID op,
      hp_PayloadSchemaVersion = oo_PayloadSchemaVersion op, hp_AggregateType = oo_AggregateType op,
      hp_AggregateID = oo_AggregateID op, hp_ExpectedVersion = decimal_or_empty (uint64 (oo_ExpectedVersion op)),
      hp_OfflineActivityID = oo_OfflineActivityID op, hp_ActivityRevision = decimal_or_empty (uint64 (oo_ActivityRevision op)),
      hp_AuthorizationHash = b64_encode (case hex_decode (oo_AuthorizationHash op) of None \<Rightarrow> [] | Some bs \<Rightarrow> bs),
      hp_OccurredAt = oo_OccurredAt op, hp_OperationType = oo_Type op, hp_Payload = payload\<rparr>"

definition CanonicalHash :: "offline_lib \<Rightarrow> OfflineOperation \<Rightarrow> error + string" where
  "CanonicalHash P op =
     checkE (ValidateOffline P op)
       (bindE (canonicalPayload P op) (\<lambda>payload.
        bindE (olib_print_operation P (hash_payload op payload)) (jcs_hash (olib_lib P))))"

section \<open>Binding an operation to its authorization\<close>

definition has_suffix :: "string \<Rightarrow> string \<Rightarrow> bool" where
  "has_suffix s t \<longleftrightarrow> length t \<le> length s \<and> drop (length s - length t) s = t"

definition trim_suffix :: "string \<Rightarrow> string \<Rightarrow> string" where
  "trim_suffix s t = (if has_suffix s t then take (length s - length t) s else s)"

definition normalizeOfflineOrigin :: "offline_lib \<Rightarrow> string \<Rightarrow> error + string" where
  "normalizeOfflineOrigin P raw =
     (case olib_url P raw of
        None \<Rightarrow> Inl (PlainError ''offline server origin must be an absolute HTTP(S) URL'')
      | Some u \<Rightarrow>
          if url_Scheme u = [] \<or> url_Host u = [] \<or> url_Scheme u \<noteq> ''http'' \<and> url_Scheme u \<noteq> ''https''
          then Inl (PlainError ''offline server origin must be an absolute HTTP(S) URL'')
          else if url_User u \<or> url_RawQuery u \<noteq> [] \<or> url_Fragment u \<noteq> []
          then Inl (PlainError ''offline server origin must not include credentials, query, or fragment'')
          else
            (let scheme = lower_case (olib_lib P) (url_Scheme u);
                 host = lower_case (olib_lib P) (url_Host u);
                 host = (if scheme = ''http'' \<and> has_suffix host '':80'' \<or> scheme = ''https'' \<and> has_suffix host '':443''
                         then trim_suffix (trim_suffix host '':80'') '':443'' else host);
                 path = (if url_Path u = [] then ''/'' else if url_Path u \<noteq> ''/'' then trim_suffix (url_Path u) ''/'' else url_Path u)
             in Inr (olib_url_text P (u\<lparr>url_Scheme := scheme, url_Host := host, url_Path := path\<rparr>))))"

definition authorization_matches :: "offline_lib \<Rightarrow> string \<Rightarrow> OfflineOperation \<Rightarrow> OfflineAuthorizationPayloadV1 \<Rightarrow> bool" where
  "authorization_matches P normalizedOrigin op a \<longleftrightarrow>
     (case (ParseUint63Decimal (au_DeviceSequence a), ParseUint63Decimal (au_ExpectedVersion a),
            ParseUint63Decimal (au_ActivityRevision a), normalizeOfflineOrigin P normalizedOrigin) of
        (Inr device_sequence, Inr expected_version, Inr activity_revision, Inr origin) \<Rightarrow>
          au_ProtocolVersion a = 1 \<and> au_Format a = ''offline-authorization-v1'' \<and> au_Issuer a = ''edu-agent''
          \<and> au_SignerKeyID a \<noteq> [] \<and> oo_DeviceID op = au_DeviceID a \<and> oo_OperationID op = au_OperationID a
          \<and> oo_SubmissionID op = au_SubmissionID a \<and> oo_DeviceSequence op = device_sequence
          \<and> oo_OfflineActivityID op = au_OfflineActivityID a \<and> uint64 (oo_ActivityRevision op) = activity_revision
          \<and> uint64 (oo_ExpectedVersion op) = expected_version
          \<and> au_ServerOriginDigest a = offlineBase64Digest (olib_lib P) origin
          \<and> validOfflineDigest (au_ActivityPayloadDigest a) \<and> au_EligibleUntil a \<noteq> 0
          \<and> \<not> au_ArchiveUntil a < au_EligibleUntil a
      | _ \<Rightarrow> False)"

definition BindOfflineAuthorization ::
  "offline_lib \<Rightarrow> OfflineOperation \<Rightarrow> string \<Rightarrow> string \<Rightarrow> error + (OfflineAuthorizationPayloadV1 \<times> OfflineOperation)" where
  "BindOfflineAuthorization P op expectedDeviceID normalizedOrigin =
     (if \<not> olib_uuid P expectedDeviceID \<or> oo_DeviceID op \<noteq> expectedDeviceID
      then Inl (invalid_offline ''offline_device_mismatch'')
      else case olib_authorization P (oo_Authorization op) of
          Inl e \<Rightarrow> Inl (invalid_offline_cause ''invalid_offline_authorization'' e)
        | Inr a \<Rightarrow>
            bindE (read_decimal ''invalid_offline_authorization'' (au_CredentialEpoch a)) (\<lambda>epoch.
            if epoch = 0 then Inl (invalid_offline ''invalid_offline_authorization'') else
            bindE (read_decimal ''invalid_offline_authorization'' (au_LearnerGeneration a)) (\<lambda>generation.
            if generation = 0 then Inl (invalid_offline ''invalid_offline_authorization'')
            else if \<not> authorization_matches P normalizedOrigin op a then Inl (invalid_offline ''offline_authorization_mismatch'')
            else Inr (a, op\<lparr>oo_CredentialEpoch := int epoch, oo_LearnerGeneration := int generation\<rparr>))))"

section \<open>The winner of an activity's evidence slot\<close>

record OfflineWinnerDecision =
  wd_Winner :: bool
  wd_EvidenceEligibility :: bool
  wd_Reason :: string

definition DecideOfflineWinner :: "offline_lib \<Rightarrow> string \<Rightarrow> string \<Rightarrow> bool \<Rightarrow> string \<Rightarrow> error + OfflineWinnerDecision" where
  "DecideOfflineWinner P existing contender eligible reason =
     (if \<not> olib_uuid P contender then Inl (invalid_offline ''invalid_contender_attempt'')
      else if existing \<noteq> [] \<and> \<not> olib_uuid P existing then Inl (invalid_offline ''invalid_existing_winner'')
      else if \<not> eligible then
        (if reason = [] then Inl (invalid_offline ''missing_ineligibility_reason'')
         else Inr \<lparr>wd_Winner = False, wd_EvidenceEligibility = False, wd_Reason = reason\<rparr>)
      else if existing = [] \<or> existing = contender
      then Inr \<lparr>wd_Winner = True, wd_EvidenceEligibility = True, wd_Reason = []\<rparr>
      else Inr \<lparr>wd_Winner = False, wd_EvidenceEligibility = False, wd_Reason = ''duplicate_activity_submission''\<rparr>)"

section \<open>Results\<close>

record OfflineIngestReceipt =
  rc_ReceiptID :: string
  rc_ArchivedAt :: time
  rc_AggregateVersion :: string
  rc_FirstEventSequence :: string
  rc_LastEventSequence :: string
  rc_ProjectionAsOf :: string
  rc_ArchiveStatus :: OfflineArchiveStatus

record OfflineStatusTicket =
  tk_TicketID :: string
  tk_OperationID :: string
  tk_Revision :: string
  tk_UpdatedAt :: time

record OfflineIngestResult =
  ir_ResultKind :: OfflineResultKind
  ir_OperationID :: string
  ir_DeviceSequence :: string
  ir_SubmissionID :: string
  ir_ArchiveStatus :: OfflineArchiveStatus
  ir_AssessmentStatus :: OfflineAssessmentStatus
  ir_EvidenceStatus :: OfflineEvidenceStatus
  ir_ReasonCodes :: "string list"
  ir_Replayed :: bool
  ir_Receipt :: "OfflineIngestReceipt option"
  ir_StatusTicket :: "OfflineStatusTicket option"
  ir_AssessmentID :: string
  ir_EvidenceID :: string

definition receipt_valid :: "OfflineIngestReceipt \<Rightarrow> bool" where
  "receipt_valid r \<longleftrightarrow>
     (case (ParseUint63Decimal (rc_AggregateVersion r), ParseUint63Decimal (rc_FirstEventSequence r),
            ParseUint63Decimal (rc_LastEventSequence r), ParseUint63Decimal (rc_ProjectionAsOf r)) of
        (Inr version, Inr first, Inr last_seq, Inr projected) \<Rightarrow>
          1 \<le> version \<and> 1 \<le> first \<and> first \<le> last_seq \<and> last_seq \<le> projected
      | _ \<Rightarrow> False)"

definition ticket_valid :: "OfflineStatusTicket option \<Rightarrow> bool" where
  "ticket_valid t = (case t of None \<Rightarrow> True | Some k \<Rightarrow> (case ParseUint63Decimal (tk_Revision k) of Inl _ \<Rightarrow> False | Inr n \<Rightarrow> 1 \<le> n))"

definition ValidateIngestResult :: "offline_lib \<Rightarrow> OfflineIngestResult \<Rightarrow> error option" where
  "ValidateIngestResult P r =
     (if \<not> olib_uuid P (ir_OperationID r) \<or> \<not> olib_uuid P (ir_SubmissionID r)
         \<or> (case ParseUint63Decimal (ir_DeviceSequence r) of Inl _ \<Rightarrow> True | Inr n \<Rightarrow> n = 0)
      then Some (PlainError ''offline ingest result identity is invalid'')
      else if ir_ResultKind r = OfflineResultArchived then
        (case ir_Receipt r of
           None \<Rightarrow> Some (PlainError ''archived offline ingest result requires a receipt'')
         | Some c \<Rightarrow>
             if \<not> receipt_valid c then Some (PlainError ''archived offline ingest result requires a receipt'')
             else if \<not> ticket_valid (ir_StatusTicket r) then Some (PlainError ''offline status ticket revision is invalid'')
             else ValidateOfflineResultCombination (ir_ArchiveStatus r) (ir_AssessmentStatus r) (ir_EvidenceStatus r))
      else if ir_Receipt r \<noteq> None \<or> ir_StatusTicket r \<noteq> None \<or> ir_AssessmentID r \<noteq> [] \<or> ir_EvidenceID r \<noteq> []
      then Some (PlainError ''non-archived offline ingest result carries an archive receipt'')
      else None)"

section \<open>Uploading\<close>

record OfflineSyncRequest =
  sy_SyncRequestID :: string
  sy_PayloadSchemaVersion :: int
  sy_Operations :: "string list"

record OfflineSyncResponse =
  sr_SyncRequestID :: string
  sr_Results :: "OfflineIngestResult list"

definition OfflineMaxSyncItems :: nat where "OfflineMaxSyncItems = 50"

definition ValidateSyncRequest :: "offline_lib \<Rightarrow> OfflineSyncRequest \<Rightarrow> error option" where
  "ValidateSyncRequest P r =
     (if \<not> olib_uuid P (sy_SyncRequestID r) \<or> lower_case (olib_lib P) (sy_SyncRequestID r) \<noteq> sy_SyncRequestID r
         \<or> sy_PayloadSchemaVersion r \<noteq> 1 \<or> sy_Operations r = [] \<or> OfflineMaxSyncItems < length (sy_Operations r)
      then Some (invalid_offline ''invalid_offline_sync_request'') else None)"

text \<open>What \<open>errors.As\<close> finds in an error of the store: a privacy error with its code, or none.\<close>

datatype store_failure = PrivacyFailure string | StoreFailure error

text \<open>A result that is not archived carries nothing but what names the operation.\<close>

definition unarchived_result :: "OfflineOperation \<Rightarrow> OfflineResultKind \<Rightarrow> OfflineArchiveStatus \<Rightarrow> string \<Rightarrow> OfflineIngestResult" where
  "unarchived_result op kind status reason =
     \<lparr>ir_ResultKind = kind, ir_OperationID = oo_OperationID op, ir_DeviceSequence = decimal_or_empty (oo_DeviceSequence op),
      ir_SubmissionID = oo_SubmissionID op, ir_ArchiveStatus = status, ir_AssessmentStatus = OtherAssessmentStatus [],
      ir_EvidenceStatus = OtherEvidenceStatus [], ir_ReasonCodes = [reason], ir_Replayed = False, ir_Receipt = None,
      ir_StatusTicket = None, ir_AssessmentID = [], ir_EvidenceID = []\<rparr>"

definition offlineRuntimeFailure :: "OfflineOperation \<Rightarrow> store_failure \<Rightarrow> OfflineIngestResult" where
  "offlineRuntimeFailure op failure =
     (case failure of
        StoreFailure _ \<Rightarrow> unarchived_result op OfflineResultRetryable OfflineNotArchivedRetry ''internal_error''
      | PrivacyFailure code \<Rightarrow> unarchived_result op OfflineResultBlocked OfflineNotArchivedBlocked
          (if code = ''content_redacted'' then ''content_redacted''
           else if code = ''privacy_clear_in_progress'' then ''privacy_clear_in_progress'' else ''internal_error''))"

definition offlineNotProcessedResult :: "OfflineOperation \<Rightarrow> OfflineIngestResult" where
  "offlineNotProcessedResult op = unarchived_result op OfflineResultNotProcessed OfflineNotProcessed ''not_processed''"

text \<open>The first loop of \<open>Sync\<close>; \<open>previous\<close> is the sequence number of the operation before, if there is one.\<close>

fun decode_operations :: "offline_lib \<Rightarrow> string \<Rightarrow> string \<Rightarrow> nat option \<Rightarrow> string list \<Rightarrow> error + OfflineOperation list" where
  "decode_operations P device origin previous [] = Inr []"
| "decode_operations P device origin previous (raw # raws) =
     bindE (DecodeOfflineOperationWire P raw) (\<lambda>op.
     bindE (BindOfflineAuthorization P op device origin) (\<lambda>(_, op).
     if (case previous of None \<Rightarrow> False | Some p \<Rightarrow> oo_DeviceSequence op \<le> p)
     then Inl (invalid_offline ''offline_operations_not_sorted'')
     else bindE (decode_operations P device origin (Some (oo_DeviceSequence op)) raws) (\<lambda>ops. Inr (op # ops))))"

text \<open>The second loop: an operation that fails or is blocked stops the upload, and the rest is answered unprocessed.\<close>

fun ingest_operations ::
  "(OfflineOperation \<Rightarrow> 's \<Rightarrow> (store_failure + OfflineIngestResult) \<times> 's) \<Rightarrow> OfflineOperation list \<Rightarrow> 's
    \<Rightarrow> OfflineIngestResult list \<times> 's" where
  "ingest_operations ingest [] s = ([], s)"
| "ingest_operations ingest (op # ops) s =
     (case ingest op s of
        (Inl failure, s') \<Rightarrow> (offlineRuntimeFailure op failure # map offlineNotProcessedResult ops, s')
      | (Inr result, s') \<Rightarrow>
          if ir_ResultKind result = OfflineResultBlocked then (result # map offlineNotProcessedResult ops, s')
          else (case ingest_operations ingest ops s' of (results, s'') \<Rightarrow> (result # results, s'')))"

definition Sync ::
  "offline_lib \<Rightarrow> (OfflineOperation \<Rightarrow> 's \<Rightarrow> (store_failure + OfflineIngestResult) \<times> 's) \<Rightarrow> string \<Rightarrow> string
    \<Rightarrow> OfflineSyncRequest \<Rightarrow> 's \<Rightarrow> (error + OfflineSyncResponse) \<times> 's" where
  "Sync P ingest origin deviceID request s =
     (if \<not> olib_uuid P deviceID then (Inl (invalid_offline ''invalid_offline_sync_request''), s)
      else case ValidateSyncRequest P request of
          Some e \<Rightarrow> (Inl e, s)
        | None \<Rightarrow>
            (case decode_operations P deviceID origin None (sy_Operations request) of
               Inl e \<Rightarrow> (Inl e, s)
             | Inr ops \<Rightarrow>
                 (case ingest_operations ingest ops s of
                    (results, s') \<Rightarrow> (Inr \<lparr>sr_SyncRequestID = sy_SyncRequestID request, sr_Results = results\<rparr>, s'))))"

section \<open>Asking for a pack\<close>

record OfflinePrepareRequest =
  pr_SessionID :: string
  pr_OperationID :: string
  pr_PayloadSchemaVersion :: int
  pr_ExpectedSessionVersion :: string
  pr_TrustedManifestRevision :: string
  pr_TrustedManifestDigest :: string
  pr_RequestedCount :: "int option"
  pr_RequestedTTLSeconds :: "int option"

definition OfflineDefaultPackCount :: int where "OfflineDefaultPackCount = 5"
definition OfflineMaxPackCount :: int where "OfflineMaxPackCount = 20"
definition OfflineDefaultTTL :: int where "OfflineDefaultTTL = 72 * hour"
definition OfflineMinimumTTL :: int where "OfflineMinimumTTL = 15 * minute"
definition OfflineMaximumTTL :: int where "OfflineMaximumTTL = 7 * 24 * hour"

text \<open>The product of the requested seconds wraps at 64 bits.\<close>

definition Limits :: "OfflinePrepareRequest \<Rightarrow> int \<times> int" where
  "Limits r = (case pr_RequestedCount r of None \<Rightarrow> OfflineDefaultPackCount | Some n \<Rightarrow> n,
     case pr_RequestedTTLSeconds r of None \<Rightarrow> OfflineDefaultTTL | Some n \<Rightarrow> int64 (n * second))"

definition ValidatePrepareRequest :: "offline_lib \<Rightarrow> OfflinePrepareRequest \<Rightarrow> error option" where
  "ValidatePrepareRequest P r =
     (let lower = lower_case (olib_lib P)
      in if pr_SessionID r \<noteq> [] \<and> (\<not> olib_uuid P (pr_SessionID r) \<or> lower (pr_SessionID r) \<noteq> pr_SessionID r)
         then Some (invalid_offline ''invalid_session_id'')
         else if \<not> olib_uuid P (pr_OperationID r) \<or> lower (pr_OperationID r) \<noteq> pr_OperationID r \<or> pr_PayloadSchemaVersion r \<noteq> 1
         then Some (invalid_offline ''invalid_offline_prepare_request'')
         else case ParseUint63Decimal (pr_ExpectedSessionVersion r) of
             Inl _ \<Rightarrow> Some (invalid_offline ''invalid_expected_session_version'')
           | Inr _ \<Rightarrow>
               (case ParseUint63Decimal (pr_TrustedManifestRevision r) of
                  Inl _ \<Rightarrow> Some (invalid_offline ''invalid_trusted_manifest'')
                | Inr _ \<Rightarrow>
                    if \<not> validOfflineDigest (pr_TrustedManifestDigest r) then Some (invalid_offline ''invalid_trusted_manifest'')
                    else (case Limits r of
                        (items, ttl) \<Rightarrow>
                          if items < 1 \<or> OfflineMaxPackCount < items \<or> ttl < OfflineMinimumTTL \<or> OfflineMaximumTTL < ttl
                          then Some (invalid_offline ''invalid_offline_prepare_limits'') else None)))"

end
