(* ===== verification/Offline_Upload.thy ===== *)
theory Offline_Upload
  imports Offline
begin

text \<open>
  What decoding and uploading offline operations guarantee: base64 texts and JSON objects are read in their
  canonical form only, an upload is refused as a whole or processed in the order of the sequence numbers, and
  the requested limits of a pack.
\<close>

section \<open>base64\<close>

lemma b64_value_digit: "n < 64 \<Longrightarrow> b64_value (b64_digit n) = Some n \<and> byte (b64_digit n) \<noteq> 10 \<and> byte (b64_digit n) \<noteq> 13"
  by (cases "n = 62"; cases "n = 63") (auto simp: b64_digit_def b64_value_def Let_def byte_char_of byte_eq_iff byte_def)

fun groups_of :: "string \<Rightarrow> nat list" where
  "groups_of [] = []"
| "groups_of [a] = [byte a div 4, byte a mod 4 * 16]"
| "groups_of [a, b] = [byte a div 4, byte a mod 4 * 16 + byte b div 16, byte b mod 16 * 4]"
| "groups_of (a # b # c # s) = byte a div 4 # (byte a mod 4 * 16 + byte b div 16)
     # (byte b mod 16 * 4 + byte c div 64) # byte c mod 64 # groups_of s"

lemma b64_encode_groups: "b64_encode s = map b64_digit (groups_of s)"
  by (induction s rule: b64_encode.induct) auto

lemma byte_less_256: "byte c < 256"
  by (simp add: byte_def)

lemma groups_of_less: "n \<in> set (groups_of s) \<Longrightarrow> n < 64"
proof (induction s rule: groups_of.induct)
  case (2 a)
  then show ?case using byte_less_256 [of a] by auto
next
  case (3 a b)
  then show ?case using byte_less_256 [of a] byte_less_256 [of b] by auto
next
  case (4 a b c s)
  then show ?case using byte_less_256 [of a] byte_less_256 [of b] byte_less_256 [of c] by auto
qed simp

lemma b64_joins:
  "n < 16 \<Longrightarrow> (x * 16 + n) div 16 = (x::nat)" "n < 16 \<Longrightarrow> (x * 16 + n) mod 16 = (n::nat)"
  "n < 4 \<Longrightarrow> (x * 4 + n) div 4 = (x::nat)" "n < 4 \<Longrightarrow> (x * 4 + n) mod 4 = (n::nat)"
  by simp_all

lemma byte_parts: "byte c div 16 < 16" "byte c div 64 < 4" "byte c div 4 * 4 + byte c mod 4 = byte c"
  "byte c div 16 * 16 + byte c mod 16 = byte c" "byte c div 64 * 64 + byte c mod 64 = byte c"
  using byte_less_256 [of c] by (simp_all add: less_mult_imp_div_less)

lemma b64_groups_of: "b64_groups (groups_of s) = Some s"
  by (induction s rule: groups_of.induct)
    (simp_all add: b64_joins byte_parts mult.commute [of _ 4] mult.commute [of _ 16]
       byte_parts [unfolded mult.commute [of _ 4] mult.commute [of _ 16]] b64_joins [unfolded mult.commute [of _ 4] mult.commute [of _ 16]] char_of_byte)

lemma b64_decode_encode: "b64_decode (b64_encode s) = Some s"
proof -
  let ?d = "map b64_digit (groups_of s)"
  have kept: "filter (\<lambda>c. byte c \<noteq> 10 \<and> byte c \<noteq> 13) ?d = ?d"
    using groups_of_less b64_value_digit by (auto simp: filter_id_conv)
  have read: "map b64_value ?d = map Some (groups_of s)"
    using groups_of_less b64_value_digit by auto
  have "None \<notin> set (map Some (groups_of s))" "map the (map Some (groups_of s)) = groups_of s" by (auto simp: comp_def)
  then show ?thesis
    unfolding b64_decode_def b64_encode_groups kept read Let_def by (simp only: if_False b64_groups_of)
qed

section \<open>The canonical text\<close>

lemma jcs_text_Inr: "jcs_text s = Inr c \<longleftrightarrow> CanonicalizeJCS s = Some (Inr c)"
  using canonical_returns [of s] by (auto simp: jcs_text_def)

lemma jcs_text_again: "jcs_text s = Inr c \<Longrightarrow> jcs_text c = Inr c"
  unfolding jcs_text_Inr by (rule canonical_again)

lemma jcs_hash_text: "jcs_hash L s = map_sum id (\<lambda>c. hex_encode (lib_sha256 L c)) (jcs_text s)"
  using canonical_returns [of s] by (auto simp: jcs_hash_def jcs_text_def JCSSHA256_def)

lemma object_json: "json_object s \<Longrightarrow> s \<noteq> []"
  by (simp add: json_object_def)

lemma read_object_Inr: "read_object reason s = Inr c \<longleftrightarrow> jcs_text s = Inr c \<and> json_object c"
  by (auto simp: read_object_def split: sum.splits)

lemma read_signature_Inr: "read_signature s = Inr bs \<longleftrightarrow> length bs = 64 \<and> s = b64_encode bs"
  by (auto simp: read_signature_def b64_decode_encode split: option.splits if_splits)

lemma operation_of_wire_Inr:
  assumes "operation_of_wire P w = Inr op"
  shows "jcs_text (oo_Authorization op) = Inr (oo_Authorization op)" "jcs_text (oo_Payload op) = Inr (oo_Payload op)"
    and "oo_AuthorizationHash op = hex_encode (lib_sha256 (olib_lib P) (oo_Authorization op))"
    and "length (oo_AuthorizationSig op) = 64" "json_object (oo_Authorization op)" "json_object (oo_Payload op)"
    and "1 \<le> oo_DeviceSequence op"
proof -
  obtain n where n: "read_decimal ''invalid_device_sequence'' (ow_DeviceSequence w) = Inr n" "n \<noteq> 0"
    using assms by (auto simp: operation_of_wire_def split: if_splits)
  obtain v where v: "read_decimal ''invalid_expected_version'' (ow_ExpectedVersion w) = Inr v"
    using assms n by (auto simp: operation_of_wire_def)
  obtain r where r: "read_decimal ''invalid_activity_revision'' (ow_ActivityRevision w) = Inr r"
    using assms n v by (auto simp: operation_of_wire_def)
  obtain a where a: "read_object ''invalid_offline_authorization'' (ow_Authorization w) = Inr a"
    using assms n v r by (auto simp: operation_of_wire_def)
  obtain h where h: "jcs_hash (olib_lib P) a = Inr h"
    using assms n v r a by (auto simp: operation_of_wire_def split: sum.splits)
  obtain g where g: "read_signature (ow_Signature w) = Inr g"
    using assms n v r a h by (auto simp: operation_of_wire_def)
  obtain p where p: "read_object ''invalid_offline_operation_payload'' (ow_Payload w) = Inr p"
    using assms n v r a h g by (auto simp: operation_of_wire_def)
  have "oo_Authorization op = a" "oo_Payload op = p" "oo_AuthorizationSig op = g" "oo_AuthorizationHash op = h" "oo_DeviceSequence op = n"
    using assms by (auto simp: operation_of_wire_def n v r a h g p)
  moreover have "jcs_text a = Inr a" "jcs_text p = Inr p" "json_object a" "json_object p" "length g = 64"
    using a p g jcs_text_again by (auto simp: read_object_Inr read_signature_Inr)
  ultimately show "jcs_text (oo_Authorization op) = Inr (oo_Authorization op)" "jcs_text (oo_Payload op) = Inr (oo_Payload op)"
    "oo_AuthorizationHash op = hex_encode (lib_sha256 (olib_lib P) (oo_Authorization op))" "length (oo_AuthorizationSig op) = 64"
    "json_object (oo_Authorization op)" "json_object (oo_Payload op)" "1 \<le> oo_DeviceSequence op"
    using h n(2) by (auto simp: jcs_hash_text)
qed

lemma decodePayload_Inr:
  assumes "decodePayload P op = Inr op'"
  shows "op' = op\<lparr>oo_Attempt := oo_Attempt op', oo_Skip := oo_Skip op'\<rparr>"
    and "(oo_Attempt op' = None) = (oo_Type op = OfflineActivitySkipped)" "(oo_Skip op' = None) = (oo_Type op = OfflineAttemptCompleted)"
  using assms by (auto simp: decodePayload_def split: OfflineOperationType.splits sum.splits)

text \<open>
  What an operation has to be, written out without the validator of the code: the answer of an attempt is at most 256 KiB
  of UTF-8 and comes with the hexadecimal SHA-256 of itself; a help level is one of the four; times are in UTC.
\<close>

definition at_utc :: "ZonedTime option \<Rightarrow> bool" where
  "at_utc t \<longleftrightarrow> (\<forall>z. t = Some z \<longrightarrow> zt_Offset z = 0)"

definition well_formed_attempt :: "golib \<Rightarrow> OfflineAttemptPayload \<Rightarrow> bool" where
  "well_formed_attempt L a \<longleftrightarrow> oa_Help a \<in> {HelpNone, HelpHint, HelpScaffold, HelpAnswerRevealed}
     \<and> 1 \<le> length (oa_Answer a) \<and> length (oa_Answer a) \<le> 2 ^ 18 \<and> (\<exists>rs. scalars rs \<and> oa_Answer a = string_of_runes rs)
     \<and> hex_decode (oa_AnswerSHA256 a) = Some (lib_sha256 L (oa_Answer a)) \<and> length (lib_sha256 L (oa_Answer a)) = 32
     \<and> length (oa_Observations a) \<le> 64
     \<and> (\<forall>b \<in> set (oa_Observations a). ob_Kind b \<in> {''activity_presented'', ''answer_recorded''} \<and> at_utc (ob_OccurredAt b))"

text \<open>
  The envelope of an operation: canonical identifiers, a sequence number of 63 bits, the fixed version and revision, an
  authorization and a payload that are canonical JSON objects, named by its hash the one, read into the record of its
  type the other.
\<close>

definition well_formed_operation :: "golib \<Rightarrow> OfflineOperation \<Rightarrow> bool" where
  "well_formed_operation L op \<longleftrightarrow>
     (\<forall>i \<in> {oo_OperationID op, oo_DeviceID op, oo_SubmissionID op, oo_OfflineActivityID op}. lib_uuid_parse L i = Some i)
     \<and> 1 \<le> oo_DeviceSequence op \<and> oo_DeviceSequence op < 2 ^ 63
     \<and> oo_PayloadSchemaVersion op = 1 \<and> oo_AggregateType op = ''offline_attempt'' \<and> oo_AggregateID op = oo_SubmissionID op
     \<and> oo_ExpectedVersion op = 0 \<and> oo_ActivityRevision op = 1 \<and> at_utc (oo_OccurredAt op)
     \<and> CanonicalizeJCS (oo_Authorization op) = Some (Inr (oo_Authorization op)) \<and> (\<exists>t. oo_Authorization op = CHR ''{'' # t)
     \<and> oo_AuthorizationHash op = hex_encode (lib_sha256 L (oo_Authorization op)) \<and> length (lib_sha256 L (oo_Authorization op)) = 32
     \<and> length (oo_AuthorizationSig op) = 64
     \<and> CanonicalizeJCS (oo_Payload op) = Some (Inr (oo_Payload op)) \<and> (\<exists>t. oo_Payload op = CHR ''{'' # t)
     \<and> ((\<exists>a. oo_Type op = OfflineAttemptCompleted \<and> oo_Attempt op = Some a \<and> oo_Skip op = None \<and> well_formed_attempt L a)
        \<or> (\<exists>k. oo_Type op = OfflineActivitySkipped \<and> oo_Attempt op = None \<and> oo_Skip op = Some k
             \<and> os_Reason k \<in> {''user_skipped'', ''expired_locally'', ''unreadable_local_item''}))"

lemma utc_at: "utc t \<longleftrightarrow> at_utc t"
  by (simp add: utc_def at_utc_def split: option.split)

lemma object_starts: "json_object s \<longleftrightarrow> (\<exists>t. s = CHR ''{'' # t)"
  by (cases s) (auto simp: json_object_def)

lemma attempt_payload_well_formed:
  assumes "attempt_payload_error L op = None"
  shows "\<exists>a. oo_Attempt op = Some a \<and> oo_Skip op = None \<and> well_formed_attempt L a"
proof -
  obtain a where a: "oo_Attempt op = Some a"
    using assms by (auto simp: attempt_payload_error_def split: option.splits)
  note c = assms [unfolded attempt_payload_error_def a, simplified]
  have b: "oo_Skip op = None" "validHelp (oa_Help a)" "oa_Answer a \<noteq> []" "length (oa_Answer a) \<le> 262144" "valid_utf8 (oa_Answer a)"
      "length (oa_Observations a) \<le> 64" "answer_hash_valid L a" "list_all observation_valid (oa_Observations a)"
    using c by (auto split: if_split_asm)
  have "hex_decode (oa_AnswerSHA256 a) = Some (lib_sha256 L (oa_Answer a)) \<and> length (lib_sha256 L (oa_Answer a)) = 32"
    using b(7) by (auto simp: answer_hash_valid_def SHA256_def split: option.splits)
  moreover obtain rs where "scalars rs" "oa_Answer a = string_of_runes rs" using b(5) by (rule valid_utf8_cases)
  moreover have "1 \<le> length (oa_Answer a)" using b(3) by (cases "oa_Answer a") simp_all
  ultimately have "well_formed_attempt L a"
    using b(2,4,6,8) unfolding well_formed_attempt_def
    by (auto simp: validHelp_def list_all_iff observation_valid_def utc_at)
  with a b(1) show ?thesis by blast
qed

lemma validated_well_formed:
  assumes "ValidateOffline P op = None" "json_object (oo_Authorization op)" "json_object (oo_Payload op)"
    "jcs_text (oo_Authorization op) = Inr (oo_Authorization op)" "jcs_text (oo_Payload op) = Inr (oo_Payload op)"
    "oo_AuthorizationHash op = hex_encode (lib_sha256 (olib_lib P) (oo_Authorization op))" "length (oo_AuthorizationSig op) = 64"
    "oo_Attempt op \<noteq> None \<or> oo_Skip op \<noteq> None"
  shows "well_formed_operation (olib_lib P) op"
proof -
  let ?L = "olib_lib P"
  have v: "envelope_valid P op" "lower_hash ?L (oo_AuthorizationHash op)" "utc (oo_OccurredAt op)" "payload_error ?L op = None"
    using assms(1,8) by (auto simp: ValidateOffline_def Let_def split: if_split_asm option.splits)
  have "length (lib_sha256 ?L (oo_Authorization op)) = 32"
    using v(2) assms(6) by (auto simp: lower_hash_def)
  moreover have "(\<exists>a. oo_Type op = OfflineAttemptCompleted \<and> oo_Attempt op = Some a \<and> oo_Skip op = None \<and> well_formed_attempt ?L a)
        \<or> (\<exists>k. oo_Type op = OfflineActivitySkipped \<and> oo_Attempt op = None \<and> oo_Skip op = Some k
             \<and> os_Reason k \<in> {''user_skipped'', ''expired_locally'', ''unreadable_local_item''})"
    using v(4) attempt_payload_well_formed
    by (cases "oo_Type op") (auto simp: payload_error_def skip_payload_error_def split: option.splits if_split_asm)
  ultimately show ?thesis
    using v(1,3) assms(2-7)
    by (simp add: well_formed_operation_def envelope_valid_def canonicalUUID_def MaxUint63_def Let_def utc_at object_starts jcs_text_Inr)
qed

text \<open>
  C25: Whatever the decoder accepts is a well-formed operation: its identifiers are canonical UUIDs, its numbers are in
  range, its hashes are those of its authorization and its answer, its payload is of its type. A device may write the
  operation in any layout and order of fields: only the canonical text counts, and that text is decoded to the same
  operation again.
\<close>

theorem decoded_operation:
  assumes "DecodeOfflineOperationWire P input = Inr op"
  shows "well_formed_operation (olib_lib P) op
    \<and> (\<forall>other. jcs_text other = jcs_text input \<longrightarrow> DecodeOfflineOperationWire P other = Inr op)
    \<and> DecodeOfflineOperationWire P (projr (jcs_text input)) = Inr op"
proof -
  obtain c where c: "jcs_text input = Inr c"
    using assms by (auto simp: DecodeOfflineOperationWire_def split: sum.splits)
  obtain w raw where w: "read_wire P c = Inr w" "operation_of_wire P w = Inr raw" "decodePayload P raw = Inr op"
    "ValidateOffline P op = None"
    using assms c by (auto simp: DecodeOfflineOperationWire_def)
  have other: "DecodeOfflineOperationWire P other = Inr op" if "jcs_text other = Inr c" for other
    by (simp add: DecodeOfflineOperationWire_def that w)
  have same: "oo_Authorization op = oo_Authorization raw" "oo_Payload op = oo_Payload raw"
    "oo_AuthorizationHash op = oo_AuthorizationHash raw" "oo_AuthorizationSig op = oo_AuthorizationSig raw"
    by (subst decodePayload_Inr(1) [OF w(3)], simp)+
  have "oo_Attempt op \<noteq> None \<or> oo_Skip op \<noteq> None"
    using decodePayload_Inr(2,3) [OF w(3)] by auto
  then have "well_formed_operation (olib_lib P) op"
    using operation_of_wire_Inr [OF w(2)] by (intro validated_well_formed [OF w(4)]) (simp_all add: same)
  then show ?thesis using c other jcs_text_again [OF c] by simp
qed

section \<open>The upload\<close>

text \<open>The store after the first \<open>k\<close> operations were ingested, its answer to the next one, and whether that ends the upload.\<close>

type_synonym 's ingest = "OfflineOperation \<Rightarrow> 's \<Rightarrow> (store_failure + OfflineIngestResult) \<times> 's"

definition ingested :: "'s ingest \<Rightarrow> OfflineOperation list \<Rightarrow> nat \<Rightarrow> 's \<Rightarrow> 's" where
  "ingested ingest ops k s = foldl (\<lambda>s op. snd (ingest op s)) s (take k ops)"

definition upload_answer :: "'s ingest \<Rightarrow> OfflineOperation list \<Rightarrow> 's \<Rightarrow> nat \<Rightarrow> OfflineIngestResult" where
  "upload_answer ingest ops s k =
     (case fst (ingest (ops ! k) (ingested ingest ops k s)) of Inl f \<Rightarrow> offlineRuntimeFailure (ops ! k) f | Inr r \<Rightarrow> r)"

definition upload_stops :: "'s ingest \<Rightarrow> OfflineOperation list \<Rightarrow> 's \<Rightarrow> nat \<Rightarrow> bool" where
  "upload_stops ingest ops s k \<longleftrightarrow>
     (case fst (ingest (ops ! k) (ingested ingest ops k s)) of Inl f \<Rightarrow> True | Inr r \<Rightarrow> ir_ResultKind r = OfflineResultBlocked)"

text \<open>The upload stopped after \<open>k\<close> operations.\<close>

definition uploaded :: "'s ingest \<Rightarrow> OfflineOperation list \<Rightarrow> 's \<Rightarrow> nat \<Rightarrow> OfflineIngestResult list \<Rightarrow> 's \<Rightarrow> bool" where
  "uploaded ingest ops s k results s' \<longleftrightarrow>
     k \<le> length ops \<and> s' = ingested ingest ops k s
     \<and> results = map (upload_answer ingest ops s) [0..<k] @ map offlineNotProcessedResult (drop k ops)
     \<and> (\<forall>i. Suc i < k \<longrightarrow> \<not> upload_stops ingest ops s i) \<and> (k < length ops \<longrightarrow> 0 < k \<and> upload_stops ingest ops s (k - 1))"

lemma ingested_simps [simp]:
  "ingested ingest ops 0 s = s" "ingested ingest (op # ops) (Suc k) s = ingested ingest ops k (snd (ingest op s))"
  by (simp_all add: ingested_def)

lemma upload_answer_simps [simp]:
  "upload_answer ingest (op # ops) s 0 = (case fst (ingest op s) of Inl f \<Rightarrow> offlineRuntimeFailure op f | Inr r \<Rightarrow> r)"
  "upload_answer ingest (op # ops) s (Suc k) = upload_answer ingest ops (snd (ingest op s)) k"
  "upload_stops ingest (op # ops) s 0 = (case fst (ingest op s) of Inl f \<Rightarrow> True | Inr r \<Rightarrow> ir_ResultKind r = OfflineResultBlocked)"
  "upload_stops ingest (op # ops) s (Suc k) = upload_stops ingest ops (snd (ingest op s)) k"
  by (auto simp: upload_answer_def upload_stops_def split: sum.split)

lemma ingest_operations_uploaded:
  "ingest_operations ingest ops s = (results, s') \<Longrightarrow> \<exists>k. uploaded ingest ops s k results s'"
proof (induction ops arbitrary: s results s')
  case Nil
  then show ?case by (simp add: uploaded_def)
next
  case (Cons op ops)
  obtain answer s1 where step: "ingest op s = (answer, s1)" by fastforce
  show ?case
  proof (cases "upload_stops ingest (op # ops) s 0")
    case True
    then have "uploaded ingest (op # ops) s 1 results s'"
      using Cons.prems by (cases answer) (auto simp: uploaded_def step)
    then show ?thesis by blast
  next
    case False
    then obtain r where r: "answer = Inr r" "ir_ResultKind r \<noteq> OfflineResultBlocked" by (cases answer) (auto simp: step)
    obtain rest s2 where rest: "ingest_operations ingest ops s1 = (rest, s2)" by fastforce
    obtain k where k: "uploaded ingest ops s1 k rest s2" using Cons.IH [OF rest] by blast
    have res: "results = r # rest" "s' = s2" using Cons.prems by (simp_all add: step r rest)
    have upt: "map f [0..<Suc k] = f 0 # map (\<lambda>i. f (Suc i)) [0..<k]" for f :: "nat \<Rightarrow> OfflineIngestResult"
      by (simp add: upt_conv_Cons map_Suc_upt [symmetric] del: upt_Suc)
    have stops: "\<not> upload_stops ingest (op # ops) s i" if "Suc i < Suc k" for i
      using that False k by (cases i) (auto simp: uploaded_def step)
    have "uploaded ingest (op # ops) s (Suc k) results s'"
      unfolding uploaded_def upt using k r step stops
      by (cases k) (auto simp: uploaded_def res)
    then show ?thesis by blast
  qed
qed

lemma decode_operations_sorted:
  "decode_operations P device origin previous raws = Inr ops \<Longrightarrow>
   length ops = length raws \<and> sorted_wrt (<) (map oo_DeviceSequence ops)
   \<and> (\<forall>p. previous = Some p \<longrightarrow> (\<forall>op \<in> set ops. p < oo_DeviceSequence op)) \<and> (\<forall>op \<in> set ops. oo_DeviceID op = device)"
proof (induction P device origin previous raws arbitrary: ops rule: decode_operations.induct)
  case (2 P device origin previous raw raws)
  obtain raw_op a op rest where steps: "DecodeOfflineOperationWire P raw = Inr raw_op"
    "BindOfflineAuthorization P raw_op device origin = Inr (a, op)"
    "\<not> (case previous of None \<Rightarrow> False | Some p \<Rightarrow> oo_DeviceSequence op \<le> p)"
    "decode_operations P device origin (Some (oo_DeviceSequence op)) raws = Inr rest" "ops = op # rest"
    using 2(2) by (auto split: if_splits)
  have "oo_DeviceID op = device"
    using steps(2) by (auto simp: BindOfflineAuthorization_def split: if_splits sum.splits)
  moreover have "length rest = length raws \<and> sorted_wrt (<) (map oo_DeviceSequence rest)
      \<and> (\<forall>x \<in> set rest. oo_DeviceSequence op < oo_DeviceSequence x) \<and> (\<forall>x \<in> set rest. oo_DeviceID x = device)"
    using 2(1) [OF steps(3,4)] by simp
  ultimately show ?case using steps(3,5) by (auto split: option.splits)
qed simp

text \<open>
  C26: An upload is refused as a whole, leaving the store alone, or every operation gets one result, in the
  order of the request, which is that of the device's sequence numbers. The operations reach the store one after the
  other; the first one that fails or is blocked is the last one the store sees, and all later ones are
  answered as not processed.
\<close>

theorem upload_in_order:
  assumes "Sync P ingest origin deviceID request s = (answer, s')"
  shows "case answer of
      Inl e \<Rightarrow> s' = s
    | Inr response \<Rightarrow> \<exists>ops k. decode_operations P deviceID origin None (sy_Operations request) = Inr ops
        \<and> length ops = length (sy_Operations request) \<and> sorted_wrt (<) (map oo_DeviceSequence ops)
        \<and> (\<forall>op \<in> set ops. oo_DeviceID op = deviceID)
        \<and> 0 < k \<and> uploaded ingest ops s k (sr_Results response) s'"
proof (cases answer)
  case (Inl e)
  with assms show ?thesis by (auto simp: Sync_def split: if_splits option.splits sum.splits prod.splits)
next
  case (Inr response)
  obtain ops where ops: "decode_operations P deviceID origin None (sy_Operations request) = Inr ops" "sy_Operations request \<noteq> []"
    and upload: "ingest_operations ingest ops s = (sr_Results response, s')"
    using assms Inr by (auto simp: Sync_def ValidateSyncRequest_def split: if_splits option.splits sum.splits prod.splits)
  obtain k where k: "uploaded ingest ops s k (sr_Results response) s'" using ingest_operations_uploaded [OF upload] by blast
  moreover have "0 < k"
    using k ops(2) decode_operations_sorted [OF ops(1)] by (cases "k < length ops") (auto simp: uploaded_def)
  ultimately show ?thesis using Inr ops decode_operations_sorted [OF ops(1)] by auto
qed

section \<open>The limits of a pack\<close>

text \<open>
  C39: A request for a pack that passes is for at most 20 activities, valid between a quarter of an hour and a week.
  The lifetime it is judged by is the requested number of seconds reduced to 64 bits, which is that number only while
  the product does not overflow.
\<close>

theorem prepare_limits:
  assumes "ValidatePrepareRequest P r = None" "Limits r = (items, ttl)"
  shows "1 \<le> items \<and> items \<le> 20 \<and> 15 * minute \<le> ttl \<and> ttl \<le> 7 * 24 * hour
    \<and> (\<forall>n. pr_RequestedTTLSeconds r = Some n \<and> \<bar>n\<bar> \<le> 9000000000 \<longrightarrow> 900 \<le> n \<and> n \<le> 604800)"
proof -
  have bounds: "1 \<le> items \<and> items \<le> OfflineMaxPackCount \<and> OfflineMinimumTTL \<le> ttl \<and> ttl \<le> OfflineMaximumTTL"
    using assms by (auto simp: ValidatePrepareRequest_def Let_def not_less split: if_splits sum.splits)
  have "900 \<le> n \<and> n \<le> 604800" if "pr_RequestedTTLSeconds r = Some n" "\<bar>n\<bar> \<le> 9000000000" for n
  proof -
    have "ttl = int64 (n * second)" using assms(2) that(1) by (auto simp: Limits_def)
    moreover have "in_int64 (n * second)" using that(2) by (auto simp: in_int64_def second_def)
    ultimately have "ttl = n * second" by (simp add: int64_id)
    then show ?thesis
      using bounds by (simp add: OfflineMinimumTTL_def OfflineMaximumTTL_def minute_def hour_def second_def)
  qed
  then show ?thesis
    using bounds by (auto simp: OfflineMaxPackCount_def OfflineMinimumTTL_def OfflineMaximumTTL_def)
qed

section \<open>Examples\<close>

lemma ascii_valid: "list_all (\<lambda>c. byte c < 0x80) s \<Longrightarrow> valid_utf8 s"
  by (induction s) (auto intro: valid_utf8_Cons)

text \<open>Every field of the object is found in its canonical text.\<close>

lemma object_fields_text:
  assumes "wf_jcs (CObject es)"
  obtains ks where "object_fields (appendJCSValue (CObject es)) = Some ks" "set ks = fst ` set es"
proof -
  have "decodeJCSValue jcs_number (2 * length (appendJCSValue (CObject es)) + 1) (dec (appendJCSValue (CObject es)) TopValue [])
      = Some (Inr (normal (CObject es), dec [] TopValue []))"
    using reads_backD [OF server.value_reads_back [OF assms], of "[]" "2 * length (appendJCSValue (CObject es)) + 1" TopValue "[]"]
    by (simp add: value_end_def del: appendJCSValue.simps normal.simps decodeJCSValue.simps)
  then have "object_fields (appendJCSValue (CObject es)) = Some (map fst (map (\<lambda>e. (fst e, normal (snd e))) (go_sort key_less es)))"
    by (simp add: object_fields_def del: appendJCSValue.simps decodeJCSValue.simps)
  then show thesis by (rule that) (simp add: image_image)
qed

definition example_document :: jcs where
  "example_document = CObject (map (\<lambda>k. (k, CNull)) wire_fields)"

definition example_wire :: OfflineOperationWireV1 where
  "example_wire = \<lparr>ow_OperationID = ''op'', ow_DeviceID = ''device'', ow_DeviceSequence = ''7'', ow_SubmissionID = ''sub'',
     ow_PayloadSchemaVersion = 1, ow_AggregateType = ''offline_attempt'', ow_AggregateID = ''sub'', ow_ExpectedVersion = ''0'',
     ow_OfflineActivityID = ''activity'', ow_ActivityRevision = ''1'', ow_Authorization = ''{}'',
     ow_Signature = b64_encode (replicate 64 (CHR ''s'')), ow_OccurredAt = None, ow_OperationType = OfflineActivitySkipped,
     ow_Payload = '' { } ''\<rparr>"

definition example_origin_digest :: string where
  "example_origin_digest = b64_encode (replicate 32 (CHR ''0''))"

definition example_authorization :: OfflineAuthorizationPayloadV1 where
  "example_authorization = \<lparr>au_ProtocolVersion = 1, au_Format = ''offline-authorization-v1'', au_Issuer = ''edu-agent'',
     au_SignerKeyID = ''key'', au_PackID = ''pack'', au_DeviceID = ''device'', au_CredentialEpoch = ''1'',
     au_LearnerGeneration = ''1'', au_ServerOriginDigest = example_origin_digest, au_OfflineActivityID = ''activity'',
     au_ActivityRevision = ''1'', au_SubmissionID = ''sub'', au_OperationID = ''op'', au_DeviceSequence = ''7'',
     au_ExpectedVersion = ''0'', au_ActivityPayloadDigest = example_origin_digest, au_EligibleUntil = 1, au_ArchiveUntil = 2\<rparr>"

definition example_offline :: offline_lib where
  "example_offline = \<lparr>olib_lib = example_lib\<lparr>lib_sha256 := \<lambda>_. replicate 32 (CHR ''0'')\<rparr>, olib_uuid = \<lambda>_. True,
     olib_url = \<lambda>_. Some \<lparr>url_Scheme = ''https'', url_Host = ''h'', url_User = False, url_Path = [], url_RawQuery = [], url_Fragment = []\<rparr>,
     olib_url_text = \<lambda>u. url_Scheme u @ '':'' @ url_Host u @ url_Path u, olib_wire = \<lambda>_. Inr example_wire,
     olib_attempt = \<lambda>_. Inl (PlainError []), olib_skip = \<lambda>_. Inr \<lparr>os_Reason = ''user_skipped''\<rparr>,
     olib_authorization = \<lambda>_. Inr example_authorization, olib_print_attempt = \<lambda>_. [], olib_print_skip = \<lambda>_. [],
     olib_print_operation = \<lambda>h. Inr (hp_OperationID h)\<rparr>"

lemma example_document_text: "read_wire example_offline (appendJCSValue example_document) = Inr example_wire"
  "jcs_text (appendJCSValue example_document) = Inr (appendJCSValue example_document)"
proof -
  have wf: "wf_jcs example_document"
    unfolding example_document_def wf_jcs.simps
    by (simp add: wire_fields_def ascii_valid byte_def)
  obtain ks where "object_fields (appendJCSValue example_document) = Some ks" "set ks = set wire_fields"
    using object_fields_text [OF wf [unfolded example_document_def]] by (auto simp: example_document_def image_image)
  then show "read_wire example_offline (appendJCSValue example_document) = Inr example_wire"
    by (simp add: read_wire_def example_offline_def)
  show "jcs_text (appendJCSValue example_document) = Inr (appendJCSValue example_document)"
    by (simp add: jcs_text_Inr canonical_reads_back [OF wf])
qed

definition example_operation :: OfflineOperation where
  "example_operation = \<lparr>oo_OperationID = ''op'', oo_DeviceID = ''device'', oo_CredentialEpoch = 0, oo_LearnerGeneration = 0,
     oo_DeviceSequence = 7, oo_SubmissionID = ''sub'', oo_PayloadSchemaVersion = 1, oo_AggregateType = ''offline_attempt'',
     oo_AggregateID = ''sub'', oo_ExpectedVersion = 0, oo_OfflineActivityID = ''activity'', oo_ActivityRevision = 1,
     oo_AuthorizationHash = hex_encode (replicate 32 (CHR ''0'')), oo_Authorization = ''{}'',
     oo_AuthorizationSig = replicate 64 (CHR ''s''), oo_OccurredAt = None, oo_Type = OfflineActivitySkipped,
     oo_Payload = ''{}'', oo_Attempt = None, oo_Skip = None\<rparr>"

lemma example_texts [simp]: "jcs_text ''{}'' = Inr ''{}''" "jcs_text '' { } '' = Inr ''{}''"
  by code_simp+

lemma example_decimals [simp]: "ParseUint63Decimal ''0'' = Inr 0" "ParseUint63Decimal ''1'' = Inr 1" "ParseUint63Decimal ''7'' = Inr 7"
  by (simp_all add: ParseUint63Decimal_def decimal_text_def decimal_value_def is_digit_def byte_def MaxUint63_def)

lemma example_wire_read: "operation_of_wire example_offline example_wire = Inr example_operation"
  by (simp add: operation_of_wire_def example_wire_def read_decimal_def read_object_def json_object_def jcs_hash_text
      example_offline_def example_operation_def read_signature_Inr [THEN iffD2])

lemma ascii_lower:
  assumes "list_all (\<lambda>c. byte c < 0x80 \<and> lib_lower L (byte c) = byte c) s"
  shows "lower_case L s = s"
proof -
  have s: "s = string_of_runes (map byte s)" using assms by (induction s) (simp_all add: encode_ascii char_of_byte)
  have "scalars (map byte s)" using assms by (induction s) (simp_all add: scalar_ascii)
  then have r: "runes s = map byte s" by (subst s) simp
  have m: "map (lib_lower L) (map byte s) = map byte s" using assms by (induction s) simp_all
  show ?thesis unfolding lower_case_def to_lower_def r m by (rule s [symmetric])
qed

lemma hex_encode_replicate: "hex_encode (replicate n c) = concat (replicate n [hex_digit (byte c div 16), hex_digit (byte c mod 16)])"
  by (simp add: hex_encode_def)

lemma example_hash_lower: "lower_hash (olib_lib example_offline) (hex_encode (replicate 32 (CHR ''0'')))"
proof -
  have "lower_case (olib_lib example_offline) (hex_encode (replicate 32 (CHR ''0''))) = hex_encode (replicate 32 (CHR ''0''))"
    by (rule ascii_lower)
      (auto simp: hex_encode_replicate list_all_iff hex_digit_def byte_char_of byte_def example_offline_def example_lib_def)
  then show ?thesis by (simp add: lower_hash_def)
qed

definition example_decoded :: OfflineOperation where
  "example_decoded = example_operation\<lparr>oo_Skip := Some \<lparr>os_Reason = ''user_skipped''\<rparr>\<rparr>"

lemma example_decoded_valid: "ValidateOffline example_offline example_decoded = None"
proof -
  have "envelope_valid example_offline example_decoded"
    by (simp add: envelope_valid_def example_decoded_def example_operation_def canonicalUUID_def example_offline_def example_lib_def
        MaxUint63_def length_hex_encode)
  moreover have "authorization_error (olib_lib example_offline) example_decoded = None"
    by (simp add: authorization_error_def example_decoded_def example_operation_def json_object_def jcs_hash_text example_offline_def)
  ultimately show ?thesis using example_hash_lower
    by (simp add: ValidateOffline_def example_decoded_def example_operation_def utc_def payload_error_def skip_payload_error_def)
qed

lemma example_decoding: "DecodeOfflineOperationWire example_offline (appendJCSValue example_document) = Inr example_decoded"
proof -
  have "decodePayload example_offline example_operation = Inr example_decoded"
    by (simp add: decodePayload_def example_operation_def example_decoded_def example_offline_def)
  then show ?thesis
    by (simp add: DecodeOfflineOperationWire_def example_document_text example_wire_read example_decoded_valid)
qed

theorem decoded_operation_witness:
  "\<exists>op. DecodeOfflineOperationWire example_offline (appendJCSValue example_document) = Inr op
    \<and> well_formed_operation (olib_lib example_offline) op \<and> oo_DeviceSequence op = 7 \<and> oo_Payload op = ''{}''"
  using decoded_operation [OF example_decoding] example_decoding by (auto simp: example_decoded_def example_operation_def)

lemma example_digest: "validOfflineDigest example_origin_digest"
  by (simp add: validOfflineDigest_def example_origin_digest_def b64_decode_encode)

lemma example_bound: "BindOfflineAuthorization example_offline example_decoded ''device'' ''x''
    = Inr (example_authorization, example_decoded\<lparr>oo_CredentialEpoch := 1, oo_LearnerGeneration := 1\<rparr>)"
proof -
  have "\<exists>origin. normalizeOfflineOrigin example_offline ''x'' = Inr origin"
    by (simp add: normalizeOfflineOrigin_def example_offline_def Let_def)
  then have "authorization_matches example_offline ''x'' example_decoded example_authorization"
    using example_digest
    by (auto simp: authorization_matches_def example_authorization_def example_decoded_def example_operation_def uint64_def
        offlineBase64Digest_def example_offline_def example_origin_digest_def)
  moreover have "olib_uuid example_offline ''device''" "olib_authorization example_offline (oo_Authorization example_decoded) = Inr example_authorization"
    "oo_DeviceID example_decoded = ''device''" "read_decimal r (au_CredentialEpoch example_authorization) = Inr 1"
    "read_decimal r (au_LearnerGeneration example_authorization) = Inr 1" for r
    by (simp_all add: example_offline_def example_decoded_def example_operation_def example_authorization_def read_decimal_def)
  ultimately show ?thesis by (simp add: BindOfflineAuthorization_def)
qed

definition example_sync :: OfflineSyncRequest where
  "example_sync = \<lparr>sy_SyncRequestID = ''r'', sy_PayloadSchemaVersion = 1, sy_Operations = [appendJCSValue example_document]\<rparr>"

text \<open>A store that counts the operations it sees and fails on each.\<close>

definition counting_store :: "OfflineOperation \<Rightarrow> nat \<Rightarrow> (store_failure + OfflineIngestResult) \<times> nat" where
  "counting_store op n = (Inl (PrivacyFailure ''content_redacted''), Suc n)"

theorem upload_in_order_witness:
  "\<exists>response. Sync example_offline counting_store ''x'' ''device'' example_sync 0 = (Inr response, 1)
    \<and> map ir_DeviceSequence (sr_Results response) = [''7''] \<and> map ir_ResultKind (sr_Results response) = [OfflineResultBlocked]"
proof -
  let ?op = "example_decoded\<lparr>oo_CredentialEpoch := 1, oo_LearnerGeneration := 1\<rparr>"
  have ops: "decode_operations example_offline ''device'' ''x'' None (sy_Operations example_sync) = Inr [?op]"
    by (simp add: example_sync_def example_decoding example_bound)
  have lower: "lower_case (olib_lib example_offline) ''r'' = ''r''"
    by (rule ascii_lower) (simp add: example_offline_def example_lib_def byte_def)
  have valid: "ValidateSyncRequest example_offline example_sync = None"
    using lower by (simp add: ValidateSyncRequest_def example_sync_def OfflineMaxSyncItems_def example_offline_def)
  have device: "olib_uuid example_offline ''device''" by (simp add: example_offline_def)
  obtain response where r: "Sync example_offline counting_store ''x'' ''device'' example_sync 0 = (Inr response, 1)"
    using device valid ops by (simp add: Sync_def counting_store_def)
  obtain k where k: "0 < k" "uploaded counting_store [?op] 0 k (sr_Results response) 1"
    using upload_in_order [OF r] ops by auto
  then have "k = 1" by (simp add: uploaded_def)
  then have "sr_Results response = [offlineRuntimeFailure ?op (PrivacyFailure ''content_redacted'')]"
    using k(2) by (simp add: uploaded_def counting_store_def)
  moreover have "nat_text 7 = ''7''" by code_simp
  then have "decimal_or_empty (oo_DeviceSequence ?op) = ''7''"
    by (simp add: decimal_or_empty_def FormatUint63Decimal_def MaxUint63_def example_decoded_def example_operation_def)
  ultimately show ?thesis using r by (simp add: offlineRuntimeFailure_def unarchived_result_def)
qed

definition example_prepare :: "int option \<Rightarrow> OfflinePrepareRequest" where
  "example_prepare ttl = \<lparr>pr_SessionID = [], pr_OperationID = ''r'', pr_PayloadSchemaVersion = 1, pr_ExpectedSessionVersion = ''0'',
     pr_TrustedManifestRevision = ''0'', pr_TrustedManifestDigest = example_origin_digest, pr_RequestedCount = None,
     pr_RequestedTTLSeconds = ttl\<rparr>"

lemma example_prepare_valid:
  assumes "Limits (example_prepare ttl) = (5, n)" "15 * minute \<le> n" "n \<le> 7 * 24 * hour"
  shows "ValidatePrepareRequest example_offline (example_prepare ttl) = None"
proof -
  have lower: "lower_case (olib_lib example_offline) ''r'' = ''r''"
    by (rule ascii_lower) (simp add: example_offline_def example_lib_def byte_def)
  have "olib_uuid example_offline v" for v by (simp add: example_offline_def)
  then show ?thesis
    using assms lower example_digest
    by (simp add: ValidatePrepareRequest_def Let_def)
      (simp add: example_prepare_def OfflineMaxPackCount_def OfflineMinimumTTL_def OfflineMaximumTTL_def)
qed

theorem prepare_limits_witness:
  "ValidatePrepareRequest example_offline (example_prepare (Some 3600)) = None \<and> Limits (example_prepare (Some 3600)) = (5, hour)
    \<and> (900::int) \<le> 3600 \<and> (3600::int) \<le> 604800"
proof -
  have l: "Limits (example_prepare (Some 3600)) = (5, hour)"
    by (simp add: Limits_def example_prepare_def OfflineDefaultPackCount_def hour_def minute_def second_def int64_id in_int64_def)
  have v: "ValidatePrepareRequest example_offline (example_prepare (Some 3600)) = None"
    by (rule example_prepare_valid [OF l]) (simp_all add: hour_def minute_def second_def)
  show ?thesis using prepare_limits [OF v l] v l by (simp add: example_prepare_def)
qed

text \<open>
  The bound on the lifetime can be passed by a number of seconds that is far too large: 2 to the power 55 seconds more
  than an hour are taken as one hour, since the product with the length of a second overflows.
\<close>

theorem oversized_ttl_accepted:
  "ValidatePrepareRequest example_offline (example_prepare (Some (2 ^ 55 + 3600))) = None
    \<and> Limits (example_prepare (Some (2 ^ 55 + 3600))) = (5, hour)"
proof -
  have l: "Limits (example_prepare (Some (2 ^ 55 + 3600))) = (5, hour)"
    by (simp add: Limits_def example_prepare_def OfflineDefaultPackCount_def hour_def minute_def second_def int64_def
        signed_take_bit_eq_take_bit_minus take_bit_eq_mod bit_iff_odd)
  then show ?thesis using example_prepare_valid [OF l] by (simp add: hour_def minute_def second_def)
qed

end
