(* ===== verification/Offline_Signer.thy ===== *)
theory Offline_Signer
  imports Offline_Upload
begin

text \<open>
  The signer of offline documents (\<open>Ed25519OfflineSigner\<close> in \<open>learning/offline_protocol.go\<close>): the manifests that
  publish its keys form a chain, each naming the digest of the one before and signed by a key that was active
  there. A device that trusts one manifest of the chain gets the rest of it and can verify each step. What such
  a chain is (\<open>chain_of_trust\<close>) is written out apart from the checks of the loader, which are its invariant (\<open>chain_linked\<close>).

  Parameters (\<open>signer_lib\<close>): Ed25519, the strict decoders and the encoder of \<open>encoding/json\<close> for the manifests.
  A time that is compared with \<open>!=\<close> keeps its location (\<open>located\<close>, the empty text for UTC): that comparison looks at it.
\<close>

section \<open>Manifests\<close>

record located =
  at_Instant :: time
  at_Zone :: string

record OfflineSignedEnvelope =
  en_Payload :: string
  en_SignerKeyID :: string
  en_Signature :: string

record OfflineSignerKeyV1 =
  sk_KeyID :: string
  sk_PublicKey :: string
  sk_Fingerprint :: string
  sk_NotBefore :: located
  sk_NotAfter :: located
  sk_StatusEffectiveAt :: time
  sk_Status :: string

record OfflineSignerManifestPayloadV1 =
  mf_ProtocolVersion :: int
  mf_ManifestRevision :: string
  mf_Issuer :: string
  mf_ServerBaseURL :: string
  mf_PreviousDigest :: string
  mf_IssuedAt :: time
  mf_Keys :: "OfflineSignerKeyV1 list"

record signer_lib =
  sl_offline :: offline_lib
  sl_public :: "string \<Rightarrow> string" \<comment> \<open>\<open>PrivateKey.Public\<close>\<close>
  sl_sign :: "string \<Rightarrow> string \<Rightarrow> string" \<comment> \<open>\<open>ed25519.Sign\<close>\<close>
  sl_verify :: "string \<Rightarrow> string \<Rightarrow> string \<Rightarrow> bool" \<comment> \<open>\<open>ed25519.Verify\<close>: public key, message, signature\<close>
  sl_envelope :: "string \<Rightarrow> error + OfflineSignedEnvelope"
  sl_manifest :: "string \<Rightarrow> error + OfflineSignerManifestPayloadV1"
  sl_single :: "string \<Rightarrow> bool" \<comment> \<open>the decoder finds the end of the input behind the first value\<close>
  sl_print_manifest :: "OfflineSignerManifestPayloadV1 \<Rightarrow> error + string"

abbreviation sl_lib :: "signer_lib \<Rightarrow> golib" where
  "sl_lib G \<equiv> olib_lib (sl_offline G)"

record Ed25519OfflineSigner =
  sn_keyID :: string
  sn_origin :: string
  sn_privateKey :: string
  sn_manifests :: "OfflineSignedEnvelope list"
  sn_manifestPayload :: "OfflineSignerManifestPayloadV1 list"
  sn_manifestDigests :: "string list"

definition OfflineZeroDigest :: string where
  "OfflineZeroDigest = b64_encode (replicate 32 (char_of (0::nat)))"

definition OfflineSignerManifestDomain :: string where
  "OfflineSignerManifestDomain = ''edu-agent-signer-manifest-v1'' @ [char_of (10::nat)]"

definition validOfflineSignature :: "string \<Rightarrow> bool" where
  "validOfflineSignature v = (case b64_decode v of None \<Rightarrow> False | Some d \<Rightarrow> length d = 64 \<and> b64_encode d = v)"

definition decodeOfflineManifestEnvelope ::
  "signer_lib \<Rightarrow> string \<Rightarrow> error + (OfflineSignedEnvelope \<times> OfflineSignerManifestPayloadV1)" where
  "decodeOfflineManifestEnvelope G raw =
     bindE (jcs_text raw) (\<lambda>c.
     bindE (sl_envelope G c) (\<lambda>envelope.
     if \<not> sl_single G c then Inl (PlainError ''multiple manifest JSON values'') else
     bindE (jcs_text (en_Payload envelope)) (\<lambda>payload_text.
     bindE (sl_manifest G payload_text) (\<lambda>payload.
     if \<not> sl_single G payload_text then Inl (PlainError ''multiple manifest payload values'')
     else if en_SignerKeyID envelope = [] \<or> \<not> validOfflineSignature (en_Signature envelope)
     then Inl (PlainError ''invalid manifest envelope'')
     else Inr (envelope\<lparr>en_Payload := payload_text\<rparr>, payload)))))"

text \<open>The instant is inside the key's window, and its status was in effect.\<close>

definition in_window :: "time \<Rightarrow> OfflineSignerKeyV1 \<Rightarrow> bool" where
  "in_window t k \<longleftrightarrow> \<not> t < at_Instant (sk_NotBefore k) \<and> t < at_Instant (sk_NotAfter k) \<and> \<not> t < sk_StatusEffectiveAt k"

definition manifest_key_valid :: "golib \<Rightarrow> string list \<Rightarrow> OfflineSignerKeyV1 \<Rightarrow> bool" where
  "manifest_key_valid L seen k \<longleftrightarrow>
     sk_KeyID k \<noteq> [] \<and> length (sk_KeyID k) \<le> 128 \<and> trim_space (sk_KeyID k) = sk_KeyID k \<and> sk_KeyID k \<notin> set seen
     \<and> (case b64_decode (sk_PublicKey k) of
          None \<Rightarrow> False
        | Some p \<Rightarrow> length p = 32 \<and> b64_encode p = sk_PublicKey k
            \<and> (case b64_decode (sk_Fingerprint k) of
                 None \<Rightarrow> False
               | Some f \<Rightarrow> length f = 32 \<and> b64_encode f = sk_Fingerprint k \<and> f = lib_sha256 L p))
     \<and> at_Instant (sk_NotBefore k) \<noteq> 0 \<and> at_Instant (sk_NotBefore k) < at_Instant (sk_NotAfter k)
     \<and> \<not> sk_StatusEffectiveAt k < at_Instant (sk_NotBefore k) \<and> \<not> at_Instant (sk_NotAfter k) < sk_StatusEffectiveAt k"

fun manifest_keys_loop ::
  "golib \<Rightarrow> time \<Rightarrow> string list \<Rightarrow> nat \<Rightarrow> OfflineSignerKeyV1 list \<Rightarrow> error + nat" where
  "manifest_keys_loop L issued seen active [] = Inr active"
| "manifest_keys_loop L issued seen active (k # ks) =
     (if \<not> manifest_key_valid L seen k then Inl (PlainError ''invalid manifest key'')
      else if sk_Status k = ''active'' then
        (if \<not> in_window issued k then Inl (PlainError ''active manifest key is outside its validity window'')
         else manifest_keys_loop L issued (sk_KeyID k # seen) (Suc active) ks)
      else if sk_Status k = ''verify_only'' \<or> sk_Status k = ''retired''
      then manifest_keys_loop L issued (sk_KeyID k # seen) active ks
      else Inl (PlainError ''invalid manifest key status''))"

definition validateOfflineManifestKeys :: "golib \<Rightarrow> OfflineSignerManifestPayloadV1 \<Rightarrow> error option" where
  "validateOfflineManifestKeys L m =
     (if mf_IssuedAt m = 0 \<or> mf_Keys m = [] \<or> 16 < length (mf_Keys m) \<or> \<not> validOfflineDigest (mf_PreviousDigest m)
      then Some (PlainError ''invalid manifest payload'')
      else case manifest_keys_loop L (mf_IssuedAt m) [] 0 (mf_Keys m) of
          Inl e \<Rightarrow> Some e
        | Inr active \<Rightarrow> if active \<noteq> 1 then Some (PlainError ''manifest must contain exactly one active key'') else None)"

definition offlineManifestKey :: "OfflineSignerManifestPayloadV1 \<Rightarrow> string \<Rightarrow> OfflineSignerKeyV1 option" where
  "offlineManifestKey m keyID = find (\<lambda>k. sk_KeyID k = keyID) (mf_Keys m)"

definition signed_message :: "golib \<Rightarrow> string \<Rightarrow> string \<Rightarrow> string" where
  "signed_message L domain payload = domain @ lib_sha256 L payload"

definition verifyOfflineManifestSignature :: "signer_lib \<Rightarrow> OfflineSignedEnvelope \<Rightarrow> OfflineSignerKeyV1 \<Rightarrow> bool" where
  "verifyOfflineManifestSignature G envelope key =
     (case (b64_decode (sk_PublicKey key), b64_decode (en_Signature envelope)) of
        (Some publicKey, Some signature) \<Rightarrow>
          length publicKey = 32 \<and> length signature = 64
          \<and> sl_verify G publicKey (signed_message (sl_lib G) OfflineSignerManifestDomain (en_Payload envelope)) signature
      | _ \<Rightarrow> False)"

section \<open>The chain\<close>

text \<open>
  One turn of the loop of \<open>loadManifestChain\<close>; the number of manifests the signer holds is the index. The two errors of
  the code's branches, and those of decoding, differ in their text only.
\<close>

definition root_manifest_error ::
  "signer_lib \<Rightarrow> OfflineSignedEnvelope \<Rightarrow> OfflineSignerManifestPayloadV1 \<Rightarrow> error option" where
  "root_manifest_error G envelope payload =
     (if mf_PreviousDigest payload \<noteq> OfflineZeroDigest then Some (PlainError ''offline signer root previous digest is invalid'')
      else case offlineManifestKey payload (en_SignerKeyID envelope) of
          None \<Rightarrow> Some (PlainError ''offline signer root signature is invalid'')
        | Some key \<Rightarrow>
            if sk_Status key \<noteq> ''active'' \<or> \<not> verifyOfflineManifestSignature G envelope key
            then Some (PlainError ''offline signer root signature is invalid'') else None)"

definition next_manifest_error ::
  "signer_lib \<Rightarrow> OfflineSignerManifestPayloadV1 \<Rightarrow> string \<Rightarrow> OfflineSignedEnvelope \<Rightarrow> OfflineSignerManifestPayloadV1 \<Rightarrow> error option" where
  "next_manifest_error G previous digest envelope payload =
     (if mf_PreviousDigest payload \<noteq> digest then Some (PlainError ''offline signer manifest previous digest is invalid'')
      else case offlineManifestKey previous (en_SignerKeyID envelope) of
          None \<Rightarrow> Some (PlainError ''offline signer manifest continuity signature is invalid'')
        | Some key \<Rightarrow>
            if sk_Status key \<noteq> ''active'' \<or> \<not> in_window (mf_IssuedAt payload) key \<or> \<not> verifyOfflineManifestSignature G envelope key
            then Some (PlainError ''offline signer manifest continuity signature is invalid'') else None)"

definition load_manifest :: "signer_lib \<Rightarrow> string \<Rightarrow> Ed25519OfflineSigner \<Rightarrow> error + Ed25519OfflineSigner" where
  "load_manifest G raw s =
     (let index = length (sn_manifests s)
      in case decodeOfflineManifestEnvelope G raw of
          Inl e \<Rightarrow> Inl (PlainError ''offline signer manifest revision is invalid'')
        | Inr (envelope, payload) \<Rightarrow>
            if ParseUint63Decimal (mf_ManifestRevision payload) \<noteq> Inr (index + 1) \<or> mf_ProtocolVersion payload \<noteq> 1
               \<or> mf_Issuer payload \<noteq> ''edu-agent'' \<or> mf_ServerBaseURL payload \<noteq> sn_origin s
            then Inl (PlainError ''offline signer manifest revision metadata is invalid'')
            else if validateOfflineManifestKeys (sl_lib G) payload \<noteq> None
            then Inl (PlainError ''offline signer manifest revision keys are invalid'')
            else case (if index = 0 then root_manifest_error G envelope payload
                  else next_manifest_error G (sn_manifestPayload s ! (index - 1)) (sn_manifestDigests s ! (index - 1)) envelope payload) of
                Some e \<Rightarrow> Inl e
              | None \<Rightarrow> Inr (s\<lparr>sn_manifests := sn_manifests s @ [envelope], sn_manifestPayload := sn_manifestPayload s @ [payload],
                  sn_manifestDigests := sn_manifestDigests s @ [offlineBase64Digest (sl_lib G) (en_Payload envelope)]\<rparr>))"

fun load_manifests :: "signer_lib \<Rightarrow> string list \<Rightarrow> Ed25519OfflineSigner \<Rightarrow> error + Ed25519OfflineSigner" where
  "load_manifests G [] s = Inr s"
| "load_manifests G (raw # raws) s = bindE (load_manifest G raw s) (load_manifests G raws)"

definition active_key_error :: "signer_lib \<Rightarrow> located \<Rightarrow> located \<Rightarrow> Ed25519OfflineSigner \<Rightarrow> error option" where
  "active_key_error G issuedAt notAfter s =
     (case offlineManifestKey (last (sn_manifestPayload s)) (sn_keyID s) of
        None \<Rightarrow> Some (PlainError ''offline signer private key does not match the current active manifest key'')
      | Some key \<Rightarrow>
          if sk_Status key \<noteq> ''active'' \<or> sk_NotBefore key \<noteq> issuedAt \<or> sk_NotAfter key \<noteq> notAfter
             \<or> sk_PublicKey key \<noteq> b64_encode (sl_public G (sn_privateKey s))
          then Some (PlainError ''offline signer private key does not match the current active manifest key'') else None)"

definition loadManifestChain ::
  "signer_lib \<Rightarrow> string list \<Rightarrow> located \<Rightarrow> located \<Rightarrow> Ed25519OfflineSigner \<Rightarrow> error + Ed25519OfflineSigner" where
  "loadManifestChain G configured issuedAt notAfter s =
     (if 16 < length configured then Inl (PlainError ''offline signer manifest chain is too long'')
      else bindE (load_manifests G configured s) (\<lambda>s. checkE (active_key_error G issuedAt notAfter s) (Inr s)))"

text \<open>\<open>offlineCanonicalJSON\<close> of a value whose encoding is given.\<close>

definition offlineCanonicalJSON :: "error + string \<Rightarrow> error + string" where
  "offlineCanonicalJSON encoded = bindE encoded jcs_text"

definition Sign :: "signer_lib \<Rightarrow> Ed25519OfflineSigner \<Rightarrow> string \<Rightarrow> error + string \<Rightarrow> error + OfflineSignedEnvelope" where
  "Sign G s domain encoded =
     (if length (sn_privateKey s) \<noteq> 64 \<or> domain = [] then Inl (err_code CodeOfflineSignerUnavailable)
      else bindE (offlineCanonicalJSON encoded) (\<lambda>payload.
        Inr \<lparr>en_Payload = payload, en_SignerKeyID = sn_keyID s,
             en_Signature = b64_encode (sl_sign G (sn_privateKey s) (signed_message (sl_lib G) domain payload))\<rparr>))"

definition fresh_manifest :: "signer_lib \<Rightarrow> Ed25519OfflineSigner \<Rightarrow> located \<Rightarrow> located \<Rightarrow> OfflineSignerManifestPayloadV1" where
  "fresh_manifest G s issuedAt notAfter =
     (let publicKey = sl_public G (sn_privateKey s)
      in \<lparr>mf_ProtocolVersion = 1, mf_ManifestRevision = ''1'', mf_Issuer = ''edu-agent'', mf_ServerBaseURL = sn_origin s,
          mf_PreviousDigest = OfflineZeroDigest, mf_IssuedAt = at_Instant issuedAt,
          mf_Keys = [\<lparr>sk_KeyID = sn_keyID s, sk_PublicKey = b64_encode publicKey,
            sk_Fingerprint = b64_encode (lib_sha256 (sl_lib G) publicKey), sk_NotBefore = issuedAt, sk_NotAfter = notAfter,
            sk_StatusEffectiveAt = at_Instant issuedAt, sk_Status = ''active''\<rparr>]\<rparr>)"

text \<open>\<open>t.UTC().Truncate(time.Microsecond)\<close>.\<close>

definition utc_microsecond :: "time \<Rightarrow> located" where
  "utc_microsecond t = \<lparr>at_Instant = trunc_microsecond t, at_Zone = []\<rparr>"

definition NewEd25519OfflineSignerWithManifestChain ::
  "signer_lib \<Rightarrow> string \<Rightarrow> string \<Rightarrow> string \<Rightarrow> time \<Rightarrow> time \<Rightarrow> string list \<Rightarrow> error + Ed25519OfflineSigner" where
  "NewEd25519OfflineSignerWithManifestChain G keyID privateKey rawOrigin issued until configured =
     bindE (normalizeOfflineOrigin (sl_offline G) rawOrigin) (\<lambda>origin.
     if trim_space keyID = [] \<or> 128 < length keyID \<or> trim_space keyID \<noteq> keyID
     then Inl (PlainError ''offline signer key ID is invalid'')
     else if length privateKey \<noteq> 64 then Inl (PlainError ''offline signer private key must contain 64 bytes'')
     else
       (let issuedAt = utc_microsecond issued; notAfter = utc_microsecond until;
            s = \<lparr>sn_keyID = keyID, sn_origin = origin, sn_privateKey = privateKey, sn_manifests = [], sn_manifestPayload = [],
                 sn_manifestDigests = []\<rparr>
        in if at_Instant issuedAt = 0 \<or> \<not> at_Instant issuedAt < at_Instant notAfter
           then Inl (PlainError ''offline signer validity window is invalid'')
           else if configured = [] then
             (let payload = fresh_manifest G s issuedAt notAfter
              in bindE (Sign G s OfflineSignerManifestDomain (sl_print_manifest G payload)) (\<lambda>manifest.
                 Inr (s\<lparr>sn_manifests := [manifest], sn_manifestPayload := [payload],
                        sn_manifestDigests := [offlineBase64Digest (sl_lib G) (en_Payload manifest)]\<rparr>)))
           else loadManifestChain G configured issuedAt notAfter s))"

definition ManifestDigest :: "Ed25519OfflineSigner \<Rightarrow> string" where
  "ManifestDigest s = (if sn_manifestDigests s = [] then [] else last (sn_manifestDigests s))"

definition manifest_conflict :: error where
  "manifest_conflict = err_reason CodeOfflinePrepareUnavailable ''signer_manifest_conflict''"

definition ManifestChain :: "Ed25519OfflineSigner \<Rightarrow> nat \<Rightarrow> string \<Rightarrow> error + OfflineSignedEnvelope list" where
  "ManifestChain s revision digest =
     (if length (sn_manifests s) < revision \<or> \<not> validOfflineDigest digest then Inl manifest_conflict
      else if revision = 0 then (if digest \<noteq> OfflineZeroDigest then Inl manifest_conflict else Inr (sn_manifests s))
      else if sn_manifestDigests s ! (revision - 1) \<noteq> digest then Inl manifest_conflict
      else Inr (drop revision (sn_manifests s)))"

section \<open>The invariant of the loader\<close>

text \<open>What the loader's checks left behind for the \<open>i\<close>-th manifest; what a chain is, apart from them, comes below.\<close>

definition manifest_linked :: "signer_lib \<Rightarrow> Ed25519OfflineSigner \<Rightarrow> nat \<Rightarrow> bool" where
  "manifest_linked G s i \<longleftrightarrow>
     (let envelope = sn_manifests s ! i; payload = sn_manifestPayload s ! i
      in sn_manifestDigests s ! i = offlineBase64Digest (sl_lib G) (en_Payload envelope)
         \<and> validOfflineSignature (en_Signature envelope)
         \<and> ParseUint63Decimal (mf_ManifestRevision payload) = Inr (i + 1) \<and> mf_ProtocolVersion payload = 1
         \<and> mf_Issuer payload = ''edu-agent'' \<and> mf_ServerBaseURL payload = sn_origin s
         \<and> validateOfflineManifestKeys (sl_lib G) payload = None
         \<and> (if i = 0 then root_manifest_error G envelope payload
             else next_manifest_error G (sn_manifestPayload s ! (i - 1)) (sn_manifestDigests s ! (i - 1)) envelope payload) = None)"

definition chain_linked :: "signer_lib \<Rightarrow> Ed25519OfflineSigner \<Rightarrow> bool" where
  "chain_linked G s \<longleftrightarrow> length (sn_manifestPayload s) = length (sn_manifests s)
     \<and> length (sn_manifestDigests s) = length (sn_manifests s) \<and> (\<forall>i < length (sn_manifests s). manifest_linked G s i)"

text \<open>The current manifest lists the signer's own key as its active one.\<close>

definition current_key :: "signer_lib \<Rightarrow> Ed25519OfflineSigner \<Rightarrow> OfflineSignerKeyV1 \<Rightarrow> bool" where
  "current_key G s key \<longleftrightarrow> sn_manifests s \<noteq> []
     \<and> offlineManifestKey (last (sn_manifestPayload s)) (sn_keyID s) = Some key
     \<and> sk_Status key = ''active'' \<and> sk_PublicKey key = b64_encode (sl_public G (sn_privateKey s))"

text \<open>What is known of Ed25519 and SHA-256: a signature verifies, and the sizes of keys, signatures and digests.\<close>

definition ed25519_laws :: "signer_lib \<Rightarrow> string \<Rightarrow> bool" where
  "ed25519_laws G k \<longleftrightarrow> length (sl_public G k) = 32
     \<and> (\<forall>m. length (sl_sign G k m) = 64 \<and> sl_verify G (sl_public G k) m (sl_sign G k m)) \<and> (\<forall>t. length (lib_sha256 (sl_lib G) t) = 32)"

lemma load_manifest_linked:
  assumes "load_manifest G raw s = Inr s'" "chain_linked G s"
  shows "chain_linked G s' \<and> length (sn_manifests s') = Suc (length (sn_manifests s)) \<and> sn_origin s' = sn_origin s
    \<and> sn_privateKey s' = sn_privateKey s \<and> sn_keyID s' = sn_keyID s"
proof -
  let ?n = "length (sn_manifests s)"
  have len: "length (sn_manifestPayload s) = ?n" "length (sn_manifestDigests s) = ?n"
    using assms(2) by (simp_all add: chain_linked_def)
  obtain e p where d: "decodeOfflineManifestEnvelope G raw = Inr (e, p)"
    using assms(1) by (auto simp: load_manifest_def Let_def split: sum.splits)
  have p: "ParseUint63Decimal (mf_ManifestRevision p) = Inr (?n + 1)" "mf_ProtocolVersion p = 1" "mf_Issuer p = ''edu-agent''"
      "mf_ServerBaseURL p = sn_origin s" "validateOfflineManifestKeys (sl_lib G) p = None"
    and linked: "(if ?n = 0 then root_manifest_error G e p
        else next_manifest_error G (sn_manifestPayload s ! (?n - 1)) (sn_manifestDigests s ! (?n - 1)) e p) = None"
    and s': "s' = s\<lparr>sn_manifests := sn_manifests s @ [e], sn_manifestPayload := sn_manifestPayload s @ [p],
        sn_manifestDigests := sn_manifestDigests s @ [offlineBase64Digest (sl_lib G) (en_Payload e)]\<rparr>"
    using assms(1) by (auto simp: load_manifest_def Let_def d split: if_splits option.splits)
  have signature: "validOfflineSignature (en_Signature e)"
    using d by (auto simp: decodeOfflineManifestEnvelope_def bindE_Inr split: if_splits)
  have "manifest_linked G s' i" if "i < Suc ?n" for i
  proof (cases "i = ?n")
    case True
    then show ?thesis using p linked len signature
      by (cases ?n) (simp_all add: manifest_linked_def s' Let_def nth_append)
  next
    case False
    then have i: "i < ?n" using that by simp
    then have "manifest_linked G s i" using assms(2) by (simp add: chain_linked_def)
    then show ?thesis using i len by (cases i) (simp_all add: manifest_linked_def s' Let_def nth_append)
  qed
  then show ?thesis using len by (simp add: chain_linked_def s')
qed

lemma load_manifests_linked:
  "load_manifests G raws s = Inr s' \<Longrightarrow> chain_linked G s \<Longrightarrow>
   chain_linked G s' \<and> length (sn_manifests s') = length (sn_manifests s) + length raws \<and> sn_origin s' = sn_origin s
     \<and> sn_privateKey s' = sn_privateKey s \<and> sn_keyID s' = sn_keyID s"
proof (induction raws arbitrary: s)
  case (Cons raw raws)
  obtain s1 where s1: "load_manifest G raw s = Inr s1" "load_manifests G raws s1 = Inr s'"
    using Cons.prems(1) by (auto simp: bindE_Inr)
  show ?case using Cons.IH [OF s1(2)] load_manifest_linked [OF s1(1) Cons.prems(2)] by auto
qed simp

lemma verify_signed:
  assumes "ed25519_laws G (sn_privateKey s)" "Sign G s domain encoded = Inr e" "sk_PublicKey key = b64_encode (sl_public G (sn_privateKey s))"
  shows "\<exists>publicKey signature. b64_decode (sk_PublicKey key) = Some publicKey \<and> b64_decode (en_Signature e) = Some signature
    \<and> length publicKey = 32 \<and> length signature = 64 \<and> validOfflineSignature (en_Signature e)
    \<and> sl_verify G publicKey (signed_message (sl_lib G) domain (en_Payload e)) signature \<and> en_SignerKeyID e = sn_keyID s"
  using assms by (auto simp: Sign_def bindE_Inr b64_decode_encode ed25519_laws_def validOfflineSignature_def split: if_splits)

text \<open>A signer without a configured chain publishes one manifest, signed by the key it lists.\<close>

lemma fresh_manifest_key [simp]:
  "offlineManifestKey (fresh_manifest G s issuedAt notAfter) (sn_keyID s) = Some
     \<lparr>sk_KeyID = sn_keyID s, sk_PublicKey = b64_encode (sl_public G (sn_privateKey s)),
      sk_Fingerprint = b64_encode (lib_sha256 (sl_lib G) (sl_public G (sn_privateKey s))), sk_NotBefore = issuedAt,
      sk_NotAfter = notAfter, sk_StatusEffectiveAt = at_Instant issuedAt, sk_Status = ''active''\<rparr>"
  by (simp add: offlineManifestKey_def fresh_manifest_def Let_def)

lemma fresh_manifest_valid:
  assumes "ed25519_laws G (sn_privateKey s)" "sn_keyID s \<noteq> []" "length (sn_keyID s) \<le> 128" "trim_space (sn_keyID s) = sn_keyID s"
    and "at_Instant issuedAt \<noteq> 0" "at_Instant issuedAt < at_Instant notAfter"
  shows "validateOfflineManifestKeys (sl_lib G) (fresh_manifest G s issuedAt notAfter) = None"
proof -
  have "validOfflineDigest OfflineZeroDigest" by (simp add: validOfflineDigest_def OfflineZeroDigest_def b64_decode_encode)
  then show ?thesis
    using assms by (simp add: validateOfflineManifestKeys_def fresh_manifest_def Let_def manifest_key_valid_def in_window_def
        b64_decode_encode ed25519_laws_def)
qed

lemma fresh_root:
  assumes "ed25519_laws G (sn_privateKey s)" "Sign G s OfflineSignerManifestDomain encoded = Inr e"
  shows "root_manifest_error G e (fresh_manifest G s issuedAt notAfter) = None"
proof -
  have "mf_PreviousDigest (fresh_manifest G s issuedAt notAfter) = OfflineZeroDigest" by (simp add: fresh_manifest_def Let_def)
  moreover have "en_SignerKeyID e = sn_keyID s" using assms(2) by (auto simp: Sign_def bindE_Inr split: if_splits)
  moreover have "verifyOfflineManifestSignature G e k" if "sk_PublicKey k = b64_encode (sl_public G (sn_privateKey s))" for k
    using verify_signed [OF assms that] by (auto simp: verifyOfflineManifestSignature_def)
  ultimately show ?thesis by (simp add: root_manifest_error_def)
qed

text \<open>The two ways to set up a signer.\<close>

lemma new_signer_cases:
  assumes "NewEd25519OfflineSignerWithManifestChain G keyID privateKey rawOrigin issued until configured = Inr s"
  obtains (fresh) s0 e where "configured = []" "sn_keyID s0 = keyID" "sn_privateKey s0 = privateKey"
      "Sign G s0 OfflineSignerManifestDomain (sl_print_manifest G (fresh_manifest G s0 (utc_microsecond issued) (utc_microsecond until))) = Inr e"
      "s = s0\<lparr>sn_manifests := [e], sn_manifestPayload := [fresh_manifest G s0 (utc_microsecond issued) (utc_microsecond until)],
         sn_manifestDigests := [offlineBase64Digest (sl_lib G) (en_Payload e)]\<rparr>"
      "keyID \<noteq> []" "length keyID \<le> 128" "trim_space keyID = keyID" "at_Instant (utc_microsecond issued) \<noteq> 0"
      "at_Instant (utc_microsecond issued) < at_Instant (utc_microsecond until)"
  | (loaded) s0 where "configured \<noteq> []" "sn_keyID s0 = keyID" "sn_privateKey s0 = privateKey" "sn_manifests s0 = []"
      "sn_manifestPayload s0 = []" "sn_manifestDigests s0 = []"
      "load_manifests G configured s0 = Inr s" "active_key_error G (utc_microsecond issued) (utc_microsecond until) s = None"
      "length configured \<le> 16"
proof -
  obtain origin where o: "normalizeOfflineOrigin (sl_offline G) rawOrigin = Inr origin"
    using assms by (auto simp: NewEd25519OfflineSignerWithManifestChain_def bindE_Inr)
  let ?s0 = "\<lparr>sn_keyID = keyID, sn_origin = origin, sn_privateKey = privateKey, sn_manifests = [], sn_manifestPayload = [],
      sn_manifestDigests = []\<rparr>"
  have guards: "\<not> (trim_space keyID = [] \<or> 128 < length keyID \<or> trim_space keyID \<noteq> keyID)" "length privateKey = 64"
    "\<not> (at_Instant (utc_microsecond issued) = 0 \<or> \<not> at_Instant (utc_microsecond issued) < at_Instant (utc_microsecond until))"
    using assms by (auto simp: NewEd25519OfflineSignerWithManifestChain_def o Let_def split: if_splits)
  note new = assms [unfolded NewEd25519OfflineSignerWithManifestChain_def o bindE_simps Let_def if_not_P [OF guards(1)]
    if_not_P [OF guards(3)]]
  show thesis
  proof (cases "configured = []")
    case True
    obtain e where "Sign G ?s0 OfflineSignerManifestDomain (sl_print_manifest G
        (fresh_manifest G ?s0 (utc_microsecond issued) (utc_microsecond until))) = Inr e"
      "s = ?s0\<lparr>sn_manifests := [e], sn_manifestPayload := [fresh_manifest G ?s0 (utc_microsecond issued) (utc_microsecond until)],
         sn_manifestDigests := [offlineBase64Digest (sl_lib G) (en_Payload e)]\<rparr>"
      using new True guards(2) by (auto simp: bindE_Inr)
    then show thesis using guards True by (intro fresh [of ?s0 e]) auto
  next
    case False
    have "load_manifests G configured ?s0 = Inr s \<and> active_key_error G (utc_microsecond issued) (utc_microsecond until) s = None
        \<and> length configured \<le> 16"
      using new False guards(2) by (auto simp: loadManifestChain_def bindE_Inr checkE_Inr split: if_splits)
    then show thesis using False by (intro loaded [of ?s0]) auto
  qed
qed

lemma new_signer_linked:
  assumes "NewEd25519OfflineSignerWithManifestChain G keyID privateKey rawOrigin issued until configured = Inr s"
    and "ed25519_laws G privateKey"
  shows "chain_linked G s \<and> (\<exists>key. current_key G s key) \<and> sn_privateKey s = privateKey"
  using assms(1)
proof (cases rule: new_signer_cases)
  case (fresh s0 e)
  let ?m = "fresh_manifest G s0 (utc_microsecond issued) (utc_microsecond until)"
  have fields: "mf_ManifestRevision ?m = ''1''" "mf_ProtocolVersion ?m = 1" "mf_Issuer ?m = ''edu-agent''" "mf_ServerBaseURL ?m = sn_origin s0"
    by (simp_all add: fresh_manifest_def Let_def)
  have laws: "ed25519_laws G (sn_privateKey s0)" using assms(2) fresh by simp
  have "validOfflineSignature (en_Signature e)"
    using fresh(4) laws by (auto simp: Sign_def bindE_Inr ed25519_laws_def validOfflineSignature_def b64_decode_encode split: if_splits)
  then have "chain_linked G s"
    using fresh_manifest_valid [of G s0 "utc_microsecond issued" "utc_microsecond until", OF laws] fresh_root [OF laws fresh(4)] fresh fields
    by (simp add: chain_linked_def manifest_linked_def Let_def)
  then show ?thesis using fresh by (auto simp: current_key_def)
next
  case (loaded s0)
  have "chain_linked G s0" by (simp add: chain_linked_def loaded)
  note all = load_manifests_linked [OF loaded(7) this]
  have "sn_manifests s \<noteq> []" using all loaded by auto
  then have "\<exists>key. current_key G s key"
    using loaded(8) by (auto simp: active_key_error_def current_key_def split: option.splits if_splits)
  then show ?thesis using all loaded by auto
qed

section \<open>What a published chain is\<close>

text \<open>
  Written out without the checks of the code. A manifest is well-formed: one to sixteen keys under different names,
  each with the fingerprint of its public key and a window of validity, exactly one of them active, and that one valid
  at the time of issue.
\<close>

definition well_formed_key :: "golib \<Rightarrow> time \<Rightarrow> OfflineSignerKeyV1 \<Rightarrow> bool" where
  "well_formed_key L issued k \<longleftrightarrow> sk_KeyID k \<noteq> [] \<and> length (sk_KeyID k) \<le> 128
     \<and> (\<exists>p. length p = 32 \<and> sk_PublicKey k = b64_encode p \<and> sk_Fingerprint k = b64_encode (lib_sha256 L p))
     \<and> at_Instant (sk_NotBefore k) < at_Instant (sk_NotAfter k)
     \<and> at_Instant (sk_NotBefore k) \<le> sk_StatusEffectiveAt k \<and> sk_StatusEffectiveAt k \<le> at_Instant (sk_NotAfter k)
     \<and> sk_Status k \<in> {''active'', ''verify_only'', ''retired''}
     \<and> (sk_Status k = ''active'' \<longrightarrow> at_Instant (sk_NotBefore k) \<le> issued \<and> issued < at_Instant (sk_NotAfter k)
          \<and> sk_StatusEffectiveAt k \<le> issued)"

definition well_formed_manifest :: "golib \<Rightarrow> OfflineSignerManifestPayloadV1 \<Rightarrow> bool" where
  "well_formed_manifest L m \<longleftrightarrow> mf_ProtocolVersion m = 1 \<and> mf_Issuer m = ''edu-agent'' \<and> mf_IssuedAt m \<noteq> 0
     \<and> (\<exists>d. length d = 32 \<and> mf_PreviousDigest m = b64_encode d)
     \<and> mf_Keys m \<noteq> [] \<and> length (mf_Keys m) \<le> 16 \<and> distinct (map sk_KeyID (mf_Keys m))
     \<and> (\<forall>k \<in> set (mf_Keys m). well_formed_key L (mf_IssuedAt m) k)
     \<and> length (filter (\<lambda>k. sk_Status k = ''active'') (mf_Keys m)) = 1"

text \<open>An envelope signed under a domain by a key of the manifest \<open>m\<close> that is active at an instant.\<close>

definition signed_under :: "signer_lib \<Rightarrow> string \<Rightarrow> OfflineSignerKeyV1 \<Rightarrow> OfflineSignedEnvelope \<Rightarrow> bool" where
  "signed_under G domain k e \<longleftrightarrow> en_SignerKeyID e = sk_KeyID k
     \<and> (\<exists>p g. length p = 32 \<and> sk_PublicKey k = b64_encode p \<and> length g = 64 \<and> en_Signature e = b64_encode g
          \<and> sl_verify G p (domain @ lib_sha256 (sl_lib G) (en_Payload e)) g)"

definition authorized_at :: "signer_lib \<Rightarrow> OfflineSignerManifestPayloadV1 \<Rightarrow> time \<Rightarrow> OfflineSignedEnvelope \<Rightarrow> bool" where
  "authorized_at G m t e \<longleftrightarrow>
     (\<exists>k \<in> set (mf_Keys m). sk_Status k = ''active'' \<and> at_Instant (sk_NotBefore k) \<le> t \<and> t < at_Instant (sk_NotAfter k)
        \<and> sk_StatusEffectiveAt k \<le> t \<and> signed_under G (''edu-agent-signer-manifest-v1'' @ [CHR 0x0A]) k e)"

text \<open>The envelope carries the manifest: it was decoded from its text, or its text is the manifest's encoding.\<close>

definition carries :: "signer_lib \<Rightarrow> OfflineSignedEnvelope \<Rightarrow> OfflineSignerManifestPayloadV1 \<Rightarrow> bool" where
  "carries G e m \<longleftrightarrow> sl_manifest G (en_Payload e) = Inr m
     \<or> (\<exists>raw. sl_print_manifest G m = Inr raw \<and> CanonicalizeJCS raw = Some (Inr (en_Payload e)))"

text \<open>
  A chain of trust: numbered from one, all of one server, each manifest naming the digest of the text before it and
  authorized by it at its own time of issue; the first names no digest and authorizes itself.
\<close>

definition chain_of_trust ::
  "signer_lib \<Rightarrow> string \<Rightarrow> OfflineSignedEnvelope list \<Rightarrow> OfflineSignerManifestPayloadV1 list \<Rightarrow> bool" where
  "chain_of_trust G origin es ms \<longleftrightarrow> es \<noteq> [] \<and> length es \<le> 16 \<and> length ms = length es
     \<and> (\<forall>i < length es. well_formed_manifest (sl_lib G) (ms ! i) \<and> carries G (es ! i) (ms ! i)
          \<and> mf_ManifestRevision (ms ! i) = nat_text (i + 1) \<and> mf_ServerBaseURL (ms ! i) = origin)
     \<and> mf_PreviousDigest (ms ! 0) = b64_encode (replicate 32 (CHR 0x00)) \<and> authorized_at G (ms ! 0) (mf_IssuedAt (ms ! 0)) (es ! 0)
     \<and> (\<forall>i. Suc i < length es \<longrightarrow> mf_PreviousDigest (ms ! Suc i) = b64_encode (lib_sha256 (sl_lib G) (en_Payload (es ! i)))
          \<and> authorized_at G (ms ! i) (mf_IssuedAt (ms ! Suc i)) (es ! Suc i))"

lemma manifest_key_well_formed:
  assumes "manifest_key_valid L seen k" "sk_Status k \<in> {''active'', ''verify_only'', ''retired''}"
    and "sk_Status k = ''active'' \<Longrightarrow> in_window issued k"
  shows "well_formed_key L issued k"
proof -
  obtain p where p: "length p = 32" "b64_encode p = sk_PublicKey k" "b64_encode (lib_sha256 L p) = sk_Fingerprint k"
    using assms(1) by (auto simp: manifest_key_valid_def split: option.splits)
  then have "\<exists>p. length p = 32 \<and> sk_PublicKey k = b64_encode p \<and> sk_Fingerprint k = b64_encode (lib_sha256 L p)" by metis
  then show ?thesis
    using assms by (simp add: well_formed_key_def manifest_key_valid_def in_window_def not_less)
qed

lemma manifest_keys_well_formed:
  "manifest_keys_loop L issued seen a ks = Inr b \<Longrightarrow>
   b = a + length (filter (\<lambda>k. sk_Status k = ''active'') ks) \<and> distinct (map sk_KeyID ks)
     \<and> (\<forall>k \<in> set ks. sk_KeyID k \<notin> set seen \<and> well_formed_key L issued k)"
proof (induction L issued seen a ks rule: manifest_keys_loop.induct)
  case (2 L issued seen a k ks)
  then show ?case
    by (fastforce simp: manifest_key_valid_def split: if_splits intro: manifest_key_well_formed [of L seen])
qed simp

lemma validated_manifest_well_formed:
  assumes "validateOfflineManifestKeys L m = None" "mf_ProtocolVersion m = 1" "mf_Issuer m = ''edu-agent''"
  shows "well_formed_manifest L m"
proof -
  have "manifest_keys_loop L (mf_IssuedAt m) [] 0 (mf_Keys m) = Inr 1" "validOfflineDigest (mf_PreviousDigest m)"
    "mf_IssuedAt m \<noteq> 0" "mf_Keys m \<noteq> []" "length (mf_Keys m) \<le> 16"
    using assms(1) by (auto simp: validateOfflineManifestKeys_def split: if_splits sum.splits)
  moreover from this(2) have "\<exists>d. length d = 32 \<and> mf_PreviousDigest m = b64_encode d"
    by (auto simp: validOfflineDigest_def split: option.splits)
  ultimately show ?thesis
    using manifest_keys_well_formed [of L "mf_IssuedAt m" "[]" 0 "mf_Keys m" 1] assms(2,3)
    by (simp add: well_formed_manifest_def)
qed

lemma manifest_domain: "OfflineSignerManifestDomain = ''edu-agent-signer-manifest-v1'' @ [CHR 0x0A]"
  unfolding OfflineSignerManifestDomain_def by code_simp

lemma zero_digest: "OfflineZeroDigest = b64_encode (replicate 32 (CHR 0x00))"
  unfolding OfflineZeroDigest_def by code_simp

lemma parsed_number: "ParseUint63Decimal s = Inr n \<Longrightarrow> s = nat_text n"
  using decimal_text_value [of s] by (auto simp: ParseUint63Decimal_def split: if_splits)

lemma verified_authorized:
  assumes "offlineManifestKey m (en_SignerKeyID e) = Some k" "sk_Status k = ''active''" "in_window t k"
    and "verifyOfflineManifestSignature G e k" "validOfflineSignature (en_Signature e)" "well_formed_manifest (sl_lib G) m"
  shows "authorized_at G m t e"
proof -
  have k: "k \<in> set (mf_Keys m)" "en_SignerKeyID e = sk_KeyID k"
    using assms(1) by (auto simp: offlineManifestKey_def find_Some_iff in_set_conv_nth)
  then obtain p where p: "length p = 32" "sk_PublicKey k = b64_encode p"
    using assms(6) by (auto simp: well_formed_manifest_def well_formed_key_def)
  obtain g where g: "length g = 64" "en_Signature e = b64_encode g"
    using assms(5) by (auto simp: validOfflineSignature_def split: option.splits)
  have "signed_under G (''edu-agent-signer-manifest-v1'' @ [CHR 0x0A]) k e"
    using assms(4) k(2) p g
    by (auto simp: verifyOfflineManifestSignature_def signed_under_def signed_message_def manifest_domain b64_decode_encode)
  then show ?thesis
    using k(1) assms(2,3) by (auto simp: authorized_at_def in_window_def not_less)
qed

text \<open>A loaded envelope carries the manifest next to it.\<close>

definition all_carried :: "signer_lib \<Rightarrow> Ed25519OfflineSigner \<Rightarrow> bool" where
  "all_carried G s \<longleftrightarrow> list_all2 (carries G) (sn_manifests s) (sn_manifestPayload s)"

lemma load_manifest_carried:
  assumes "load_manifest G raw s = Inr s'" "all_carried G s" shows "all_carried G s'"
proof -
  obtain e p where d: "decodeOfflineManifestEnvelope G raw = Inr (e, p)"
    using assms(1) by (auto simp: load_manifest_def Let_def split: sum.splits)
  then have "carries G e p"
    by (auto simp: decodeOfflineManifestEnvelope_def bindE_Inr carries_def split: if_splits)
  moreover have "sn_manifests s' = sn_manifests s @ [e] \<and> sn_manifestPayload s' = sn_manifestPayload s @ [p]"
    using assms(1) by (auto simp: load_manifest_def Let_def d split: if_splits option.splits)
  ultimately show ?thesis using assms(2) by (auto simp: all_carried_def intro: list_all2_appendI)
qed

lemma load_manifests_carried: "load_manifests G raws s = Inr s' \<Longrightarrow> all_carried G s \<Longrightarrow> all_carried G s'"
  by (induction raws arbitrary: s) (auto simp: bindE_Inr dest: load_manifest_carried)

lemma new_signer_carried:
  assumes "NewEd25519OfflineSignerWithManifestChain G keyID privateKey rawOrigin issued until configured = Inr s"
  shows "all_carried G s \<and> length (sn_manifests s) \<le> 16"
  using assms
proof (cases rule: new_signer_cases)
  case (fresh s0 e)
  then show ?thesis
    by (auto simp: Sign_def offlineCanonicalJSON_def bindE_Inr all_carried_def carries_def jcs_text_Inr split: if_splits)
next
  case (loaded s0)
  have "chain_linked G s0" "all_carried G s0" using loaded by (simp_all add: chain_linked_def all_carried_def)
  then show ?thesis
    using load_manifests_carried [OF loaded(7)] load_manifests_linked [OF loaded(7)] loaded by simp
qed

lemma linked_chain_of_trust:
  assumes "chain_linked G s" "all_carried G s" "sn_manifests s \<noteq> []" "length (sn_manifests s) \<le> 16"
  shows "chain_of_trust G (sn_origin s) (sn_manifests s) (sn_manifestPayload s)"
proof -
  let ?es = "sn_manifests s" and ?ms = "sn_manifestPayload s"
  have len: "length ?ms = length ?es" using assms(1) by (simp add: chain_linked_def)
  have link: "manifest_linked G s i" if "i < length ?es" for i using that assms(1) by (simp add: chain_linked_def)
  have form: "well_formed_manifest (sl_lib G) (?ms ! i)" "mf_ManifestRevision (?ms ! i) = nat_text (i + 1)"
      "mf_ServerBaseURL (?ms ! i) = sn_origin s" "validOfflineSignature (en_Signature (?es ! i))" if "i < length ?es" for i
    using link [OF that] parsed_number [of "mf_ManifestRevision (?ms ! i)" "i + 1"] validated_manifest_well_formed
    by (auto simp: manifest_linked_def Let_def)
  have carried: "carries G (?es ! i) (?ms ! i)" if "i < length ?es" for i
    using assms(2) that by (simp add: all_carried_def list_all2_conv_all_nth)
  have zero: "0 < length ?es" using assms(3) by simp
  have root: "root_manifest_error G (?es ! 0) (?ms ! 0) = None"
    using link [OF zero] by (simp add: manifest_linked_def Let_def)
  then obtain k where k: "offlineManifestKey (?ms ! 0) (en_SignerKeyID (?es ! 0)) = Some k" "sk_Status k = ''active''"
      "verifyOfflineManifestSignature G (?es ! 0) k"
    by (auto simp: root_manifest_error_def split: if_splits option.splits)
  have "k \<in> set (mf_Keys (?ms ! 0))" using k(1) by (auto simp: offlineManifestKey_def find_Some_iff in_set_conv_nth)
  then have "in_window (mf_IssuedAt (?ms ! 0)) k"
    using form(1) [OF zero] k(2) by (auto simp: well_formed_manifest_def well_formed_key_def in_window_def)
  then have "authorized_at G (?ms ! 0) (mf_IssuedAt (?ms ! 0)) (?es ! 0)"
    using verified_authorized [OF k(1,2) _ k(3) form(4) [OF zero] form(1) [OF zero]] by simp
  moreover have "mf_PreviousDigest (?ms ! 0) = b64_encode (replicate 32 (CHR 0x00))"
    using root by (simp add: root_manifest_error_def split: if_splits) (simp only: zero_digest)
  moreover have "mf_PreviousDigest (?ms ! Suc i) = b64_encode (lib_sha256 (sl_lib G) (en_Payload (?es ! i)))
      \<and> authorized_at G (?ms ! i) (mf_IssuedAt (?ms ! Suc i)) (?es ! Suc i)" if i: "Suc i < length ?es" for i
  proof -
    have "next_manifest_error G (?ms ! i) (sn_manifestDigests s ! i) (?es ! Suc i) (?ms ! Suc i) = None"
      and "sn_manifestDigests s ! i = b64_encode (lib_sha256 (sl_lib G) (en_Payload (?es ! i)))"
      using link [OF i] link [of i] i by (simp_all add: manifest_linked_def Let_def offlineBase64Digest_def)
    then obtain k where "mf_PreviousDigest (?ms ! Suc i) = b64_encode (lib_sha256 (sl_lib G) (en_Payload (?es ! i)))"
        "offlineManifestKey (?ms ! i) (en_SignerKeyID (?es ! Suc i)) = Some k" "sk_Status k = ''active''"
        "in_window (mf_IssuedAt (?ms ! Suc i)) k" "verifyOfflineManifestSignature G (?es ! Suc i) k"
      by (auto simp: next_manifest_error_def split: if_splits option.splits)
    then show ?thesis using verified_authorized [of "?ms ! i" "?es ! Suc i" k] form(1) [of i] form(4) [OF i] i by simp
  qed
  ultimately show ?thesis
    using assms(3,4) len form carried by (simp add: chain_of_trust_def)
qed

text \<open>
  C24: Every signer the constructor returns publishes a chain of trust: at most sixteen well-formed manifests of this
  server, numbered from one, each naming the digest of the one before and signed by a key that was active there when it
  was issued, the first by its own key. The last manifest lists the signer's key as active, and whatever the
  signer signs verifies under that key.
\<close>

theorem signer_chain_linked:
  assumes "NewEd25519OfflineSignerWithManifestChain G keyID privateKey rawOrigin issued until configured = Inr s"
    and "ed25519_laws G privateKey"
  shows "chain_of_trust G (sn_origin s) (sn_manifests s) (sn_manifestPayload s)
    \<and> (\<exists>key \<in> set (mf_Keys (last (sn_manifestPayload s))). sk_KeyID key = sn_keyID s \<and> sk_Status key = ''active''
        \<and> (\<forall>domain encoded e. Sign G s domain encoded = Inr e \<longrightarrow> signed_under G domain key e))"
proof -
  obtain key where key: "chain_linked G s" "current_key G s key" "sn_privateKey s = privateKey"
    using new_signer_linked [OF assms] by blast
  have own: "key \<in> set (mf_Keys (last (sn_manifestPayload s)))" "sk_KeyID key = sn_keyID s"
    using key(2) by (auto simp: current_key_def offlineManifestKey_def find_Some_iff in_set_conv_nth)
  have "signed_under G domain key e" if sign: "Sign G s domain encoded = Inr e" for domain encoded e
  proof -
    let ?m = "domain @ lib_sha256 (sl_lib G) (en_Payload e)"
    have "en_SignerKeyID e = sn_keyID s" "en_Signature e = b64_encode (sl_sign G privateKey ?m)"
      using sign key(3) by (auto simp: Sign_def bindE_Inr signed_message_def split: if_splits)
    then show ?thesis
      using assms(2) key(2,3) own(2) unfolding signed_under_def current_key_def ed25519_laws_def by metis
  qed
  moreover have "sn_manifests s \<noteq> []" "sk_Status key = ''active''" using key(2) by (simp_all add: current_key_def)
  ultimately show ?thesis
    using linked_chain_of_trust [OF key(1)] new_signer_carried [OF assms(1)] own by blast
qed

section \<open>Examples\<close>

text \<open>A chain of two manifests with one key, the second issued at time \<open>t\<close>.\<close>

definition example_signer_key :: OfflineSignerKeyV1 where
  "example_signer_key = \<lparr>sk_KeyID = ''k'', sk_PublicKey = b64_encode (replicate 32 (CHR ''p'')), sk_Fingerprint = example_origin_digest,
     sk_NotBefore = utc_microsecond 1000, sk_NotAfter = utc_microsecond 9000, sk_StatusEffectiveAt = 1000, sk_Status = ''active''\<rparr>"

definition example_manifest :: "string \<Rightarrow> string \<Rightarrow> time \<Rightarrow> OfflineSignerManifestPayloadV1" where
  "example_manifest revision previous t = \<lparr>mf_ProtocolVersion = 1, mf_ManifestRevision = revision, mf_Issuer = ''edu-agent'',
     mf_ServerBaseURL = ''https:h/'', mf_PreviousDigest = previous, mf_IssuedAt = t, mf_Keys = [example_signer_key]\<rparr>"

definition example_envelope :: "string \<Rightarrow> OfflineSignedEnvelope" where
  "example_envelope payload = \<lparr>en_Payload = payload, en_SignerKeyID = ''k'', en_Signature = b64_encode (replicate 64 (CHR ''s''))\<rparr>"

definition example_signer_lib :: "time \<Rightarrow> signer_lib" where
  "example_signer_lib t = \<lparr>sl_offline = example_offline, sl_public = \<lambda>_. replicate 32 (CHR ''p''),
     sl_sign = \<lambda>_ _. replicate 64 (CHR ''s''), sl_verify = \<lambda>_ _ signature. signature = replicate 64 (CHR ''s''),
     sl_envelope = \<lambda>c. if c = ''{}'' then Inr (example_envelope ''1'') else Inr (example_envelope ''2''),
     sl_manifest = \<lambda>c. if c = ''1'' then Inr (example_manifest ''1'' OfflineZeroDigest 2000) else Inr (example_manifest ''2'' example_origin_digest t),
     sl_single = \<lambda>_. True, sl_print_manifest = \<lambda>_. Inr ''1''\<rparr>"

definition example_signer :: "time \<Rightarrow> Ed25519OfflineSigner" where
  "example_signer t = \<lparr>sn_keyID = ''k'', sn_origin = ''https:h/'', sn_privateKey = replicate 64 (CHR ''q''),
     sn_manifests = [example_envelope ''1'', example_envelope ''2''],
     sn_manifestPayload = [example_manifest ''1'' OfflineZeroDigest 2000, example_manifest ''2'' example_origin_digest t],
     sn_manifestDigests = [example_origin_digest, example_origin_digest]\<rparr>"

lemma example_origin: "normalizeOfflineOrigin example_offline raw = Inr ''https:h/''"
proof -
  have lower: "lower_case (olib_lib example_offline) ''https'' = ''https''" "lower_case (olib_lib example_offline) ''h'' = ''h''"
    by (rule ascii_lower, simp add: example_offline_def example_lib_def byte_def)+
  have url: "olib_url example_offline raw = Some \<lparr>url_Scheme = ''https'', url_Host = ''h'', url_User = False, url_Path = [], url_RawQuery = [], url_Fragment = []\<rparr>"
    "olib_url_text example_offline = (\<lambda>u. url_Scheme u @ '':'' @ url_Host u @ url_Path u)"
    by (simp_all add: example_offline_def)
  show ?thesis by (simp add: normalizeOfflineOrigin_def url lower Let_def has_suffix_def)
qed

lemma example_signature: "validOfflineSignature (b64_encode (replicate 64 (CHR ''s'')))"
  by (simp add: validOfflineSignature_def b64_decode_encode)

lemma example_key_id: "trim_space ''k'' = ''k''"
  by code_simp

lemma example_digest_of: "offlineBase64Digest (olib_lib example_offline) c = example_origin_digest"
  by (simp add: offlineBase64Digest_def example_offline_def example_origin_digest_def)

lemma example_manifest_valid:
  assumes "validOfflineDigest previous" "1000 \<le> t" "t < 9000"
  shows "validateOfflineManifestKeys (olib_lib example_offline) (example_manifest revision previous t) = None"
  using assms
  by (simp add: validateOfflineManifestKeys_def example_manifest_def manifest_key_valid_def example_signer_key_def example_key_id
      b64_decode_encode in_window_def utc_microsecond_def trunc_microsecond_def example_origin_digest_def example_offline_def)

lemma example_signature_verifies: "verifyOfflineManifestSignature (example_signer_lib t) (example_envelope c) example_signer_key"
  by (simp add: verifyOfflineManifestSignature_def example_signer_lib_def example_envelope_def example_signer_key_def b64_decode_encode)

lemma example_jcs_numbers: "jcs_text ''1'' = Inr ''1''" "jcs_text ''2'' = Inr ''2''" "jcs_text ''[]'' = Inr ''[]''"
  "ParseUint63Decimal ''2'' = Inr 2"
proof -
  have "wf_jcs (CNumber ''1'')" "wf_jcs (CNumber ''2'')"
    by (simp_all add: number_ok_def integer_text_def integer_value_def decimal_text_def decimal_value_def is_digit_def byte_def in_int64_def)
  then show "jcs_text ''1'' = Inr ''1''" "jcs_text ''2'' = Inr ''2''"
    using canonical_reads_back by (fastforce simp: jcs_text_Inr)+
  show "jcs_text ''[]'' = Inr ''[]''" by code_simp
  show "ParseUint63Decimal ''2'' = Inr 2"
    by (simp add: ParseUint63Decimal_def decimal_text_def decimal_value_def is_digit_def byte_def MaxUint63_def)
qed

lemma example_find: "offlineManifestKey (example_manifest revision previous t) ''k'' = Some example_signer_key"
  by (simp add: offlineManifestKey_def example_manifest_def example_signer_key_def)

lemma example_loaded:
  assumes "1000 \<le> t" "t < 9000"
  shows "NewEd25519OfflineSignerWithManifestChain (example_signer_lib t) ''k'' (replicate 64 (CHR ''q'')) ''x'' 1000 9000 [''{}'', ''[]'']
    = Inr (example_signer t)"
proof -
  let ?G = "example_signer_lib t"
  let ?s0 = "\<lparr>sn_keyID = ''k'', sn_origin = ''https:h/'', sn_privateKey = replicate 64 (CHR ''q''), sn_manifests = [],
      sn_manifestPayload = [], sn_manifestDigests = []\<rparr>"
  let ?m1 = "example_manifest ''1'' OfflineZeroDigest 2000" and ?m2 = "example_manifest ''2'' example_origin_digest t"
  let ?s1 = "?s0\<lparr>sn_manifests := [example_envelope ''1''], sn_manifestPayload := [?m1], sn_manifestDigests := [example_origin_digest]\<rparr>"
  have lib: "sl_lib ?G = olib_lib example_offline" "sl_offline ?G = example_offline" by (simp_all add: example_signer_lib_def)
  have decode: "decodeOfflineManifestEnvelope ?G ''{}'' = Inr (example_envelope ''1'', ?m1)"
    "decodeOfflineManifestEnvelope ?G ''[]'' = Inr (example_envelope ''2'', ?m2)"
    by (simp_all add: decodeOfflineManifestEnvelope_def example_jcs_numbers example_signer_lib_def example_envelope_def example_signature)
  have zero: "validOfflineDigest OfflineZeroDigest"
    by (simp add: validOfflineDigest_def OfflineZeroDigest_def b64_decode_encode)
  have fields: "mf_ManifestRevision (example_manifest r p u) = r" "mf_ProtocolVersion (example_manifest r p u) = 1"
    "mf_Issuer (example_manifest r p u) = ''edu-agent''" "mf_ServerBaseURL (example_manifest r p u) = ''https:h/''"
    "mf_PreviousDigest (example_manifest r p u) = p" "mf_IssuedAt (example_manifest r p u) = u" for r p u
    by (simp_all add: example_manifest_def)
  have env: "en_SignerKeyID (example_envelope c) = ''k''" "en_Payload (example_envelope c) = c" for c by (simp_all add: example_envelope_def)
  have active: "sk_Status example_signer_key = ''active''" "in_window t example_signer_key"
    using assms by (simp_all add: example_signer_key_def in_window_def utc_microsecond_def trunc_microsecond_def)
  have root: "root_manifest_error ?G (example_envelope ''1'') ?m1 = None"
    by (simp add: root_manifest_error_def fields env example_find active example_signature_verifies)
  have linked: "next_manifest_error ?G ?m1 example_origin_digest (example_envelope ''2'') ?m2 = None"
    by (simp add: next_manifest_error_def fields env example_find active example_signature_verifies)
  have step1: "load_manifest ?G ''{}'' ?s0 = Inr ?s1"
    using example_manifest_valid [OF zero, of 2000 "''1''"]
    by (simp add: load_manifest_def decode fields root lib example_digest_of)
  have step2: "load_manifest ?G ''[]'' ?s1 = Inr (example_signer t)"
    using example_manifest_valid [OF example_digest assms, of "''2''"]
    by (simp add: load_manifest_def decode fields linked lib example_digest_of example_jcs_numbers example_signer_def)
  have current: "active_key_error ?G (utc_microsecond 1000) (utc_microsecond 9000) (example_signer t) = None"
    by (simp add: active_key_error_def example_signer_def example_find) (simp add: example_signer_key_def example_signer_lib_def)
  have load: "loadManifestChain ?G [''{}'', ''[]''] (utc_microsecond 1000) (utc_microsecond 9000) ?s0 = Inr (example_signer t)"
    by (simp only: loadManifestChain_def load_manifests.simps step1 step2 bindE_simps checkE_simps current) simp
  show ?thesis
    by (simp add: NewEd25519OfflineSignerWithManifestChain_def lib example_origin example_key_id load Let_def)
      (simp add: utc_microsecond_def trunc_microsecond_def)
qed

lemma example_laws_hold: "ed25519_laws (example_signer_lib t) k"
  by (simp add: ed25519_laws_def example_signer_lib_def example_offline_def)

theorem signer_chain_linked_witness:
  "chain_of_trust (example_signer_lib 3000) (sn_origin (example_signer 3000)) (sn_manifests (example_signer 3000))
      (sn_manifestPayload (example_signer 3000))
    \<and> length (sn_manifests (example_signer 3000)) = 2"
  using signer_chain_linked [OF example_loaded example_laws_hold, of 3000] by (simp add: example_signer_def)

end
