(* ===== verification/Offline_Trust.thy ===== *)
theory Offline_Trust
  imports Offline_Signer
begin

text \<open>
  The client's side of the manifest chain: how the command line client loads a manifest it trusts, follows the chain the
  server sends, and refuses one that does not fit (\<open>clients/cli-go/internal/command/offline_verify.go\<close>, the address check of
  \<open>clients/cli-go/internal/config/config.go\<close>); the two programs together; and what a client can be made to trust by
  an answer that need not come from the server.

  Parameters (\<open>client_lib\<close>): Ed25519, the closed decoder and the encoder of \<open>encoding/json\<close> for the client's types,
  \<open>net/url\<close>, \<open>net.ParseIP\<close> and \<open>time.Parse\<close>. A time of the client's types is the text it was sent as.
\<close>

section \<open>The client's types\<close>

record ApiSignerKey =
  ak_KeyID :: string
  ak_PublicKey :: string
  ak_Fingerprint :: string
  ak_NotBefore :: string
  ak_NotAfter :: string
  ak_StatusEffectiveAt :: string
  ak_Status :: string

record ApiManifestPayload =
  am_ProtocolVersion :: int
  am_ManifestRevision :: string
  am_Issuer :: string
  am_ServerBaseURL :: string
  am_PreviousManifestDigest :: string
  am_IssuedAt :: string
  am_Keys :: "ApiSignerKey list"

record ApiManifestEnvelope =
  ae_Payload :: ApiManifestPayload
  ae_SignerKeyID :: string
  ae_Signature :: string

record client_url =
  cu_Scheme :: string
  cu_Host :: string
  cu_Opaque :: string
  cu_User :: bool
  cu_RawQuery :: string
  cu_ForceQuery :: bool
  cu_Fragment :: string
  cu_Path :: string
  cu_RawPath :: string
  cu_Hostname :: string \<comment> \<open>\<open>Hostname()\<close>\<close>

record client_lib =
  cl_lib :: golib
  cl_verify :: "string \<Rightarrow> string \<Rightarrow> string \<Rightarrow> bool"
  cl_envelope :: "string \<Rightarrow> error + ApiManifestEnvelope" \<comment> \<open>one value and nothing behind it\<close>
  cl_print_payload :: "ApiManifestPayload \<Rightarrow> error + string"
  cl_print_envelope :: "ApiManifestEnvelope \<Rightarrow> error + string"
  cl_parse_time :: "string \<Rightarrow> (time \<times> bool) option" \<comment> \<open>the instant, and whether the location is UTC\<close>
  cl_format_time :: "time \<Rightarrow> string" \<comment> \<open>a UTC time in \<open>RFC3339Nano\<close>\<close>
  cl_url :: "string \<Rightarrow> client_url option"
  cl_url_text :: "client_url \<Rightarrow> string"
  cl_loopback_ip :: "string \<Rightarrow> bool" \<comment> \<open>an IP address, and a loopback one\<close>

record client_config =
  cc_ServerURL :: string
  cc_DeviceID :: string
  cc_AllowInsecureHTTP :: bool
  cc_SignerManifest :: "string option" \<comment> \<open>\<open>Offline\<close> is not nil\<close>

record offlineTrustedKey =
  tk_keyID :: string
  tk_publicKey :: string
  tk_notBefore :: time
  tk_notAfter :: time
  tk_statusEffectiveAt :: time
  tk_status :: string

record offlineTrustRoot =
  tr_canonicalEnvelope :: string
  tr_envelope :: ApiManifestEnvelope
  tr_payloadCanonical :: string
  tr_manifestRevision :: nat
  tr_manifestDigest :: string
  tr_issuedAt :: time
  tr_keys :: "(string, offlineTrustedKey) gomap"
  tr_activeKeyID :: string

section \<open>Reading texts\<close>

text \<open>\<open>canonicalJSON\<close> of a value whose encoding is given.\<close>

definition client_text :: "string \<Rightarrow> error + string" where
  "client_text s = the (ClientCanonicalizeJCS s)"

definition client_json :: "error + string \<Rightarrow> error + string" where
  "client_json encoded = bindE encoded client_text"

definition isLoopback :: "client_lib \<Rightarrow> string \<Rightarrow> bool" where
  "isLoopback C host \<longleftrightarrow> equal_fold (lib_fold (cl_lib C)) host ''localhost'' \<or> cl_loopback_ip C host"

definition ValidateServerURL :: "client_lib \<Rightarrow> string \<Rightarrow> bool \<Rightarrow> error + string" where
  "ValidateServerURL C raw allowInsecure =
     (case cl_url C (trim_space raw) of
        None \<Rightarrow> Inl (PlainError ''server URL must be an absolute HTTP or HTTPS URL'')
      | Some u \<Rightarrow>
          if cu_Scheme u = [] \<or> cu_Host u = [] \<or> cu_Opaque u \<noteq> []
          then Inl (PlainError ''server URL must be an absolute HTTP or HTTPS URL'')
          else if cu_Scheme u \<noteq> ''http'' \<and> cu_Scheme u \<noteq> ''https'' then Inl (PlainError ''server URL scheme must be http or https'')
          else if cu_User u \<or> cu_RawQuery u \<noteq> [] \<or> cu_ForceQuery u \<or> cu_Fragment u \<noteq> []
          then Inl (PlainError ''server URL must not contain credentials, query, or fragment'')
          else if CHR 0x5C \<in> set (cu_Host u) then Inl (PlainError ''server URL host is invalid'')
          else if cu_Hostname u = [] then Inl (PlainError ''server URL host is required'')
          else if cu_Scheme u = ''http'' \<and> \<not> isLoopback C (cu_Hostname u) \<and> \<not> allowInsecure
          then Inl (PlainError ''non-loopback HTTP requires explicit insecure approval'')
          else Inr (trim_suffix (cl_url_text C (u\<lparr>cu_Path := trim_suffix (cu_Path u) ''/'',
                 cu_RawPath := trim_suffix (cu_RawPath u) ''/''\<rparr>)) ''/''))"

definition parseOfflineUint63 :: "string \<Rightarrow> bool \<Rightarrow> error + nat" where
  "parseOfflineUint63 s positive =
     (if s = [] \<or> 1 < length s \<and> hd s = CHR ''0'' then Inl (PlainError ''offline decimal is not canonical'')
      else if \<not> list_all is_digit s \<or> MaxUint63 < decimal_value s \<or> positive \<and> decimal_value s = 0
      then Inl (PlainError ''offline decimal is outside the supported range'')
      else Inr (decimal_value s))"

definition parseOfflineTime :: "client_lib \<Rightarrow> string \<Rightarrow> error + time" where
  "parseOfflineTime C s =
     (case cl_parse_time C s of
        None \<Rightarrow> Inl (PlainError ''offline timestamp is not canonical UTC'')
      | Some (t, utc_location) \<Rightarrow>
          if \<not> utc_location \<or> cl_format_time C t \<noteq> s then Inl (PlainError ''offline timestamp is not canonical UTC'') else Inr t)"

section \<open>Keys and signatures\<close>

definition decodeOfflineTrustedKey :: "client_lib \<Rightarrow> ApiSignerKey \<Rightarrow> error + offlineTrustedKey" where
  "decodeOfflineTrustedKey C k =
     (if ak_KeyID k = [] \<or> 128 < length (ak_KeyID k) then Inl (PlainError ''offline trust key ID is invalid'')
      else case b64_decode (ak_PublicKey k) of
          None \<Rightarrow> Inl (PlainError ''offline trust public key is invalid'')
        | Some publicKey \<Rightarrow>
            if length publicKey \<noteq> 32 \<or> b64_encode publicKey \<noteq> ak_PublicKey k
            then Inl (PlainError ''offline trust public key is invalid'')
            else if b64_encode (lib_sha256 (cl_lib C) publicKey) \<noteq> ak_Fingerprint k
            then Inl (PlainError ''offline trust public key fingerprint does not match'')
            else bindE (parseOfflineTime C (ak_NotBefore k)) (\<lambda>notBefore.
              case parseOfflineTime C (ak_NotAfter k) of
                Inl _ \<Rightarrow> Inl (PlainError ''offline trust key validity window is invalid'')
              | Inr notAfter \<Rightarrow>
                  if \<not> notBefore < notAfter then Inl (PlainError ''offline trust key validity window is invalid'')
                  else case parseOfflineTime C (ak_StatusEffectiveAt k) of
                      Inl _ \<Rightarrow> Inl (PlainError ''offline trust key status time is invalid'')
                    | Inr effective \<Rightarrow>
                        if effective < notBefore \<or> notAfter < effective then Inl (PlainError ''offline trust key status time is invalid'')
                        else if ak_Status k \<notin> {''active'', ''verify_only'', ''retired''}
                        then Inl (PlainError ''offline trust key status is invalid'')
                        else Inr \<lparr>tk_keyID = ak_KeyID k, tk_publicKey = publicKey, tk_notBefore = notBefore,
                          tk_notAfter = notAfter, tk_statusEffectiveAt = effective, tk_status = ak_Status k\<rparr>))"

definition canSign :: "offlineTrustedKey \<Rightarrow> time \<Rightarrow> bool" where
  "canSign k at \<longleftrightarrow> tk_status k = ''active'' \<and> \<not> at < tk_notBefore k \<and> at < tk_notAfter k \<and> \<not> at < tk_statusEffectiveAt k"

definition canVerifyArtifact :: "offlineTrustedKey \<Rightarrow> time \<Rightarrow> bool" where
  "canVerifyArtifact k at \<longleftrightarrow> \<not> (at < tk_notBefore k \<or> \<not> at < tk_notAfter k)
     \<and> (if tk_status k = ''active'' then \<not> at < tk_statusEffectiveAt k else at < tk_statusEffectiveAt k)"

definition verifyOfflineSignature ::
  "client_lib \<Rightarrow> string \<Rightarrow> string \<Rightarrow> string \<Rightarrow> string \<Rightarrow> string \<Rightarrow> string \<Rightarrow> error option" where
  "verifyOfflineSignature C domain payload signerKeyID encoded trustedKeyID publicKey =
     (if signerKeyID \<noteq> trustedKeyID then Some (PlainError ''offline signature uses an untrusted key'')
      else case b64_decode encoded of
          None \<Rightarrow> Some (PlainError ''offline signature encoding is invalid'')
        | Some signature \<Rightarrow>
            if length signature \<noteq> 64 \<or> b64_encode signature \<noteq> encoded then Some (PlainError ''offline signature encoding is invalid'')
            else if \<not> cl_verify C publicKey (signed_message (cl_lib C) domain payload) signature
            then Some (PlainError ''offline signature verification failed'') else None)"

section \<open>Loading a manifest\<close>

text \<open>The loop over the keys: the map built so far and the active key found.\<close>

fun trusted_keys ::
  "client_lib \<Rightarrow> time \<Rightarrow> (string, offlineTrustedKey) gomap \<Rightarrow> string \<Rightarrow> ApiSignerKey list
    \<Rightarrow> error + (string, offlineTrustedKey) gomap \<times> string" where
  "trusted_keys C issuedAt keys active [] = Inr (keys, active)"
| "trusted_keys C issuedAt keys active (k # ks) =
     (if map_of keys (ak_KeyID k) \<noteq> None then Inl (PlainError ''offline trust checkpoint contains a duplicate key'')
      else bindE (decodeOfflineTrustedKey C k) (\<lambda>key.
        if tk_status key = ''active'' then
          (if active \<noteq> [] \<or> issuedAt < tk_notBefore key \<or> \<not> issuedAt < tk_notAfter key \<or> issuedAt < tk_statusEffectiveAt key
           then Inl (PlainError ''offline trust checkpoint active key is invalid'')
           else trusted_keys C issuedAt (AList.update (tk_keyID key) key keys) (tk_keyID key) ks)
        else trusted_keys C issuedAt (AList.update (tk_keyID key) key keys) active ks))"

definition manifest_metadata ::
  "client_lib \<Rightarrow> client_config \<Rightarrow> ApiManifestPayload \<Rightarrow> error + nat \<times> time" where
  "manifest_metadata C cfg p =
     (case (ValidateServerURL C (am_ServerBaseURL p) (cc_AllowInsecureHTTP cfg), parseOfflineUint63 (am_ManifestRevision p) True,
            parseOfflineTime C (am_IssuedAt p)) of
        (Inr origin, Inr revision, Inr issuedAt) \<Rightarrow>
          if am_ProtocolVersion p \<noteq> 1 \<or> am_Issuer p \<noteq> ''edu-agent'' \<or> origin \<noteq> cc_ServerURL cfg
             \<or> \<not> validOfflineDigest (am_PreviousManifestDigest p) \<or> am_Keys p = [] \<or> 16 < length (am_Keys p)
          then Inl (PlainError ''offline trust checkpoint metadata is invalid'') else Inr (revision, issuedAt)
      | _ \<Rightarrow> Inl (PlainError ''offline trust checkpoint metadata is invalid''))"

definition root_error ::
  "client_lib \<Rightarrow> nat \<Rightarrow> string \<Rightarrow> (string, offlineTrustedKey) gomap \<Rightarrow> ApiManifestEnvelope \<Rightarrow> error option" where
  "root_error C revision payload keys a =
     (case map_of keys (ae_SignerKeyID a) of
        None \<Rightarrow> Some (PlainError ''offline pairing trust is not a revision-1 root'')
      | Some key \<Rightarrow>
          if revision \<noteq> 1 \<or> am_PreviousManifestDigest (ae_Payload a) \<noteq> OfflineZeroDigest \<or> tk_status key \<noteq> ''active''
          then Some (PlainError ''offline pairing trust is not a revision-1 root'')
          else verifyOfflineSignature C OfflineSignerManifestDomain payload (ae_SignerKeyID a) (ae_Signature a) (tk_keyID key) (tk_publicKey key))"

definition loadOfflineTrustEnvelope ::
  "client_lib \<Rightarrow> string \<Rightarrow> client_config \<Rightarrow> bool \<Rightarrow> error + offlineTrustRoot" where
  "loadOfflineTrustEnvelope C raw cfg requireRoot =
     (case client_text raw of
        Inl _ \<Rightarrow> Inl (PlainError ''offline trust checkpoint is not canonical JSON'')
      | Inr canonical_text \<Rightarrow>
     (case cl_envelope C canonical_text of
        Inl _ \<Rightarrow> Inl (PlainError ''offline trust checkpoint is not a closed manifest envelope'')
      | Inr a \<Rightarrow>
          bindE (client_json (cl_print_payload C (ae_Payload a))) (\<lambda>payload.
          bindE (manifest_metadata C cfg (ae_Payload a)) (\<lambda>(revision, issuedAt).
          bindE (trusted_keys C issuedAt [] [] (am_Keys (ae_Payload a))) (\<lambda>(keys, active).
          if active = [] then Inl (PlainError ''offline trust checkpoint has no active key'')
          else if map_of keys (ae_SignerKeyID a) = None then Inl (PlainError ''offline manifest signer is absent from its key set'')
          else checkE (if requireRoot then root_error C revision payload keys a else None)
            (Inr \<lparr>tr_canonicalEnvelope = canonical_text, tr_envelope = a, tr_payloadCanonical = payload,
              tr_manifestRevision = revision, tr_manifestDigest = offlineBase64Digest (cl_lib C) payload,
              tr_issuedAt = issuedAt, tr_keys = keys, tr_activeKeyID = active\<rparr>))))))"

definition loadOfflineTrust :: "client_lib \<Rightarrow> client_config \<Rightarrow> error + offlineTrustRoot" where
  "loadOfflineTrust C cfg =
     (case cc_SignerManifest cfg of
        None \<Rightarrow> Inl (PlainError ''paired server did not provide an offline trust root'')
      | Some raw \<Rightarrow> loadOfflineTrustEnvelope C raw cfg True)"

definition loadOfflineTrustCheckpoint :: "client_lib \<Rightarrow> string \<Rightarrow> client_config \<Rightarrow> error + offlineTrustRoot" where
  "loadOfflineTrustCheckpoint C raw cfg = loadOfflineTrustEnvelope C raw cfg False"

section \<open>Following a chain\<close>

text \<open>One turn of the loop of \<open>advanceOfflineTrust\<close>.\<close>

definition advance_trust :: "client_lib \<Rightarrow> client_config \<Rightarrow> offlineTrustRoot \<Rightarrow> ApiManifestEnvelope \<Rightarrow> error + offlineTrustRoot" where
  "advance_trust C cfg current a =
     bindE (client_json (cl_print_envelope C a)) (\<lambda>bytes.
     bindE (loadOfflineTrustEnvelope C bytes cfg False) (\<lambda>new.
     if tr_manifestRevision new \<noteq> tr_manifestRevision current + 1
     then Inl (PlainError ''offline signer manifest chain has a rollback or gap'')
     else if am_PreviousManifestDigest (ae_Payload (tr_envelope new)) \<noteq> tr_manifestDigest current
     then Inl (PlainError ''offline signer manifest chain forks from the trusted checkpoint'')
     else if tr_issuedAt new < tr_issuedAt current then Inl (PlainError ''offline signer manifest time rolled back'')
     else case map_of (tr_keys current) (ae_SignerKeyID (tr_envelope new)) of
         None \<Rightarrow> Inl (PlainError ''offline signer manifest uses an unknown or inactive signer'')
       | Some key \<Rightarrow>
           if tk_status key \<noteq> ''active'' \<or> \<not> canSign key (tr_issuedAt new)
           then Inl (PlainError ''offline signer manifest uses an unknown or inactive signer'')
           else checkE (verifyOfflineSignature C OfflineSignerManifestDomain (tr_payloadCanonical new)
               (ae_SignerKeyID (tr_envelope new)) (ae_Signature (tr_envelope new)) (tk_keyID key) (tk_publicKey key)) (Inr new)))"

fun advanceOfflineTrust ::
  "client_lib \<Rightarrow> client_config \<Rightarrow> offlineTrustRoot \<Rightarrow> ApiManifestEnvelope list \<Rightarrow> error + offlineTrustRoot" where
  "advanceOfflineTrust C cfg current [] = Inr current"
| "advanceOfflineTrust C cfg current (a # chain) =
     bindE (advance_trust C cfg current a) (\<lambda>new. advanceOfflineTrust C cfg new chain)"

definition sameOfflineTrust :: "offlineTrustRoot \<Rightarrow> offlineTrustRoot \<Rightarrow> bool" where
  "sameOfflineTrust x y \<longleftrightarrow> tr_manifestRevision x = tr_manifestRevision y \<and> tr_manifestDigest x = tr_manifestDigest y
     \<and> tr_canonicalEnvelope x = tr_canonicalEnvelope y"

fun on_path :: "client_lib \<Rightarrow> client_config \<Rightarrow> offlineTrustRoot \<Rightarrow> ApiManifestEnvelope list \<Rightarrow> error + bool" where
  "on_path C cfg checkpoint [] = Inr False"
| "on_path C cfg checkpoint (a # chain) =
     bindE (client_json (cl_print_envelope C a)) (\<lambda>bytes.
     bindE (loadOfflineTrustEnvelope C bytes cfg False) (\<lambda>candidate.
     if sameOfflineTrust candidate checkpoint then Inr True else on_path C cfg checkpoint chain))"

definition offlineTrustOnVerifiedPath ::
  "client_lib \<Rightarrow> client_config \<Rightarrow> offlineTrustRoot \<Rightarrow> offlineTrustRoot \<Rightarrow> ApiManifestEnvelope list \<Rightarrow> error + bool" where
  "offlineTrustOnVerifiedPath C cfg base checkpoint chain =
     (if sameOfflineTrust base checkpoint then Inr True else on_path C cfg checkpoint chain)"

text \<open>
  \<open>alignOfflinePrepareReplay\<close> cuts off the part of a replayed chain the client has already followed. The loop checks the
  \<open>left\<close> manifests of that part: \<open>revision\<close> and \<open>digest\<close> are those of the one before, \<open>at\<close> its time (none for the first).
\<close>

fun align_prefix ::
  "client_lib \<Rightarrow> client_config \<Rightarrow> offlineTrustRoot \<Rightarrow> nat \<Rightarrow> string \<Rightarrow> time option \<Rightarrow> nat \<Rightarrow> ApiManifestEnvelope list
    \<Rightarrow> error + ApiManifestEnvelope list" where
  "align_prefix C cfg current revision digest at 0 chain = Inr chain"
| "align_prefix C cfg current revision digest at (Suc left) [] =
     Inl (PlainError ''offline signer manifest replay does not reach the trusted checkpoint'')"
| "align_prefix C cfg current revision digest at (Suc left) (a # chain) =
     bindE (client_json (cl_print_envelope C a)) (\<lambda>bytes.
     bindE (loadOfflineTrustEnvelope C bytes cfg False) (\<lambda>checkpoint.
     if tr_manifestRevision checkpoint \<noteq> revision + 1 \<or> am_PreviousManifestDigest (ae_Payload (tr_envelope checkpoint)) \<noteq> digest
     then Inl (PlainError ''offline signer manifest replay has a rollback, gap, or fork'')
     else if (case at of None \<Rightarrow> False | Some t \<Rightarrow> tr_issuedAt checkpoint < t)
     then Inl (PlainError ''offline signer manifest replay time rolled back'')
     else if left = 0 \<and> \<not> sameOfflineTrust checkpoint current
     then Inl (PlainError ''offline signer manifest replay does not match the trusted checkpoint'')
     else align_prefix C cfg current (revision + 1) (tr_manifestDigest checkpoint) (Some (tr_issuedAt checkpoint)) left chain))"

definition alignOfflinePrepareReplay ::
  "client_lib \<Rightarrow> client_config \<Rightarrow> string \<Rightarrow> string \<Rightarrow> offlineTrustRoot \<Rightarrow> ApiManifestEnvelope list \<Rightarrow> error + ApiManifestEnvelope list" where
  "alignOfflinePrepareReplay C cfg trustedRevision trustedDigest current chain =
     (case parseOfflineUint63 trustedRevision True of
        Inl _ \<Rightarrow> Inl (PlainError ''offline prepare intent trust checkpoint is invalid'')
      | Inr revision \<Rightarrow>
          if \<not> validOfflineDigest trustedDigest then Inl (PlainError ''offline prepare intent trust checkpoint is invalid'')
          else if revision = tr_manifestRevision current then
            (if trustedDigest \<noteq> tr_manifestDigest current then Inl (PlainError ''offline prepare intent forks from the trusted checkpoint'')
             else Inr chain)
          else if tr_manifestRevision current < revision
          then Inl (PlainError ''offline prepare intent trust checkpoint is ahead of local trust'')
          else if length chain < tr_manifestRevision current - revision
          then Inl (PlainError ''offline signer manifest replay does not reach the trusted checkpoint'')
          else align_prefix C cfg current revision trustedDigest None (tr_manifestRevision current - revision) chain)"

section \<open>What the client makes of a manifest of the server\<close>

text \<open>
  The client received the server's manifest: it decodes to the same fields, with times in the form the client insists on,
  and is encoded again to the text the server signed. These are properties of the two codecs.
\<close>

definition same_key :: "client_lib \<Rightarrow> ApiSignerKey \<Rightarrow> OfflineSignerKeyV1 \<Rightarrow> bool" where
  "same_key C k m \<longleftrightarrow> ak_KeyID k = sk_KeyID m \<and> ak_PublicKey k = sk_PublicKey m \<and> ak_Fingerprint k = sk_Fingerprint m
     \<and> ak_Status k = sk_Status m \<and> parseOfflineTime C (ak_NotBefore k) = Inr (at_Instant (sk_NotBefore m))
     \<and> parseOfflineTime C (ak_NotAfter k) = Inr (at_Instant (sk_NotAfter m))
     \<and> parseOfflineTime C (ak_StatusEffectiveAt k) = Inr (sk_StatusEffectiveAt m)"

definition same_manifest :: "client_lib \<Rightarrow> ApiManifestPayload \<Rightarrow> OfflineSignerManifestPayloadV1 \<Rightarrow> bool" where
  "same_manifest C p m \<longleftrightarrow> am_ProtocolVersion p = mf_ProtocolVersion m \<and> am_ManifestRevision p = mf_ManifestRevision m
     \<and> am_Issuer p = mf_Issuer m \<and> am_ServerBaseURL p = mf_ServerBaseURL m \<and> am_PreviousManifestDigest p = mf_PreviousDigest m
     \<and> parseOfflineTime C (am_IssuedAt p) = Inr (mf_IssuedAt m) \<and> list_all2 (same_key C) (am_Keys p) (mf_Keys m)"

definition received :: "client_lib \<Rightarrow> OfflineSignedEnvelope \<Rightarrow> OfflineSignerManifestPayloadV1 \<Rightarrow> ApiManifestEnvelope \<Rightarrow> bool" where
  "received C e m a \<longleftrightarrow> ae_SignerKeyID a = en_SignerKeyID e \<and> ae_Signature a = en_Signature e
     \<and> client_json (cl_print_payload C (ae_Payload a)) = Inr (en_Payload e) \<and> same_manifest C (ae_Payload a) m
     \<and> (\<exists>c. client_json (cl_print_envelope C a) = Inr c \<and> cl_envelope C c = Inr a)"

definition trusted_of :: "OfflineSignerKeyV1 \<Rightarrow> offlineTrustedKey" where
  "trusted_of m = \<lparr>tk_keyID = sk_KeyID m, tk_publicKey = the (b64_decode (sk_PublicKey m)), tk_notBefore = at_Instant (sk_NotBefore m),
     tk_notAfter = at_Instant (sk_NotAfter m), tk_statusEffectiveAt = sk_StatusEffectiveAt m, tk_status = sk_Status m\<rparr>"

lemma trusted_of_simps [simp]:
  "tk_keyID (trusted_of m) = sk_KeyID m" "tk_publicKey (trusted_of m) = the (b64_decode (sk_PublicKey m))"
  "tk_notBefore (trusted_of m) = at_Instant (sk_NotBefore m)" "tk_notAfter (trusted_of m) = at_Instant (sk_NotAfter m)"
  "tk_statusEffectiveAt (trusted_of m) = sk_StatusEffectiveAt m" "tk_status (trusted_of m) = sk_Status m"
  by (simp_all add: trusted_of_def)

text \<open>The client's trust is at the server's manifest \<open>m\<close> with revision \<open>r\<close>.\<close>

definition trusts :: "client_lib \<Rightarrow> offlineTrustRoot \<Rightarrow> OfflineSignedEnvelope \<Rightarrow> OfflineSignerManifestPayloadV1 \<Rightarrow> nat \<Rightarrow> bool" where
  "trusts C root e m r \<longleftrightarrow> tr_manifestRevision root = r \<and> tr_manifestDigest root = offlineBase64Digest (cl_lib C) (en_Payload e)
     \<and> tr_issuedAt root = mf_IssuedAt m \<and> (\<forall>i. map_of (tr_keys root) i = map_option trusted_of (offlineManifestKey m i))"

lemma decode_trusted:
  assumes "same_key C k m" "manifest_key_valid (cl_lib C) seen m" "sk_Status m \<in> {''active'', ''verify_only'', ''retired''}"
  shows "decodeOfflineTrustedKey C k = Inr (trusted_of m)"
proof -
  obtain p where p: "b64_decode (sk_PublicKey m) = Some p" "length p = 32" "b64_encode p = sk_PublicKey m"
    and f: "b64_encode (lib_sha256 (cl_lib C) p) = sk_Fingerprint m"
    using assms(2) by (auto simp: manifest_key_valid_def split: option.splits)
  show ?thesis
    using assms p f by (auto simp: decodeOfflineTrustedKey_def same_key_def manifest_key_valid_def trusted_of_def)
qed

lemma manifest_keys_loop_Inr:
  "manifest_keys_loop L issued seen a ks = Inr b \<Longrightarrow>
   a \<le> b \<and> (\<forall>m \<in> set ks. sk_KeyID m \<notin> set seen \<and> sk_KeyID m \<noteq> []
     \<and> (\<exists>s. manifest_key_valid L s m) \<and> sk_Status m \<in> {''active'', ''verify_only'', ''retired''})"
proof (induction L issued seen a ks rule: manifest_keys_loop.induct)
  case (2 L issued seen a k ks)
  then show ?case by (fastforce simp: manifest_key_valid_def split: if_splits)
qed simp

lemma keys_agree:
  assumes "manifest_keys_loop (cl_lib C) issued seen a ms = Inr 1" "list_all2 (same_key C) ks ms"
    "fst ` set keys = set seen" "(active = []) = (a = 0)"
  shows "\<exists>keys' active'. trusted_keys C issued keys active ks = Inr (keys', active') \<and> active' \<noteq> []
    \<and> (\<forall>i. map_of keys' i = (case find (\<lambda>m. sk_KeyID m = i) ms of None \<Rightarrow> map_of keys i | Some m \<Rightarrow> Some (trusted_of m)))"
  using assms(2,1,3,4)
proof (induction ks ms arbitrary: seen a keys active rule: list_all2_induct)
  case Nil
  then show ?case by simp
next
  case (Cons k ks m ms)
  have valid: "manifest_key_valid (cl_lib C) seen m" "sk_Status m \<in> {''active'', ''verify_only'', ''retired''}"
    using Cons.prems(1) by (auto split: if_splits)
  have id: "ak_KeyID k = sk_KeyID m" using Cons.hyps by (simp add: same_key_def)
  have new: "map_of keys (ak_KeyID k) = None"
    using valid(1) Cons.prems(2) by (auto simp: id manifest_key_valid_def map_of_eq_None_iff)
  note dec = decode_trusted [OF Cons.hyps(1) valid]
  let ?keys = "AList.update (sk_KeyID m) (trusted_of m) keys"
  have seen: "fst ` set ?keys = set (sk_KeyID m # seen)"
    using Cons.prems(2) by (simp add: AList.dom_update)
  have find: "find (\<lambda>m. sk_KeyID m = i) ms \<noteq> None \<Longrightarrow> i \<noteq> sk_KeyID m" 
    if "manifest_keys_loop (cl_lib C) issued (sk_KeyID m # seen) b ms = Inr c" for i b c
    using manifest_keys_loop_Inr [OF that] by (auto simp: find_Some_iff)
  have finish: ?case
    if loop: "manifest_keys_loop (cl_lib C) issued (sk_KeyID m # seen) b ms = Inr 1" and act: "(active' = []) = (b = 0)"
      and step: "trusted_keys C issued keys active (k # ks) = trusted_keys C issued ?keys active' ks" for b active'
  proof -
    obtain keys' active'' where ih: "trusted_keys C issued ?keys active' ks = Inr (keys', active'')" "active'' \<noteq> []"
      "\<forall>i. map_of keys' i = (case find (\<lambda>m. sk_KeyID m = i) ms of None \<Rightarrow> map_of ?keys i | Some m \<Rightarrow> Some (trusted_of m))"
      using Cons.IH [OF loop seen act] by blast
    have "map_of keys' i = (case find (\<lambda>m. sk_KeyID m = i) (m # ms) of None \<Rightarrow> map_of keys i | Some m \<Rightarrow> Some (trusted_of m))" for i
      using ih(3) find [OF loop, of i] by (cases "find (\<lambda>m. sk_KeyID m = i) ms") (auto simp: map_of_update)
    then show ?case using ih(1,2) step by auto
  qed
  show ?case
  proof (cases "sk_Status m = ''active''")
    case True
    have loop: "manifest_keys_loop (cl_lib C) issued (sk_KeyID m # seen) (Suc a) ms = Inr 1" and window: "in_window issued m"
      using Cons.prems(1) True by (auto split: if_splits)
    have "a = 0" using manifest_keys_loop_Inr [OF loop] by simp
    then have "active = []" using Cons.prems(3) by simp
    moreover have "sk_KeyID m \<noteq> []" using valid(1) by (simp add: manifest_key_valid_def)
    ultimately show ?thesis
      using finish [OF loop, of "sk_KeyID m"] new dec True window by (simp add: in_window_def)
  next
    case False
    then have loop: "manifest_keys_loop (cl_lib C) issued (sk_KeyID m # seen) a ms = Inr 1"
      using Cons.prems(1) by (auto split: if_splits)
    then show ?thesis using finish [OF loop Cons.prems(3)] new dec False by simp
  qed
qed

lemma parse_positive: "ParseUint63Decimal s = Inr (Suc n) \<Longrightarrow> parseOfflineUint63 s True = Inr (Suc n)"
  by (cases s) (auto simp: ParseUint63Decimal_def parseOfflineUint63_def decimal_text_def split: if_splits)

lemma client_text_again: "client_json x = Inr c \<Longrightarrow> client_text c = Inr c"
  using client.canonicalize_returns client.text_again
  by (auto simp: client_json_def client_text_def ClientCanonicalizeJCS_def bindE_Inr) (metis option.collapse option.sel)

text \<open>A manifest that is valid for the server is one for the client, if it lists the key that signed it.\<close>

lemma load_received:
  assumes "received C e m a" "client_json (cl_print_envelope C a) = Inr bytes"
    and "validateOfflineManifestKeys (cl_lib C) m = None" "ParseUint63Decimal (mf_ManifestRevision m) = Inr (Suc r)"
    and "mf_ProtocolVersion m = 1" "mf_Issuer m = ''edu-agent''"
    and "ValidateServerURL C (mf_ServerBaseURL m) (cc_AllowInsecureHTTP cfg) = Inr (cc_ServerURL cfg)"
  shows "case loadOfflineTrustEnvelope C bytes cfg False of
      Inl _ \<Rightarrow> offlineManifestKey m (en_SignerKeyID e) = None
    | Inr root \<Rightarrow> offlineManifestKey m (en_SignerKeyID e) \<noteq> None \<and> trusts C root e m (Suc r) \<and> tr_envelope root = a
        \<and> tr_payloadCanonical root = en_Payload e"
proof -
  let ?p = "ae_Payload a"
  have a: "ae_SignerKeyID a = en_SignerKeyID e" "client_json (cl_print_payload C ?p) = Inr (en_Payload e)" "same_manifest C ?p m"
    "cl_envelope C bytes = Inr a"
    using assms(1,2) by (auto simp: received_def)
  note p = a(3) [unfolded same_manifest_def]
  have keys: "mf_Keys m \<noteq> []" "length (mf_Keys m) \<le> 16" "validOfflineDigest (mf_PreviousDigest m)"
    and loop: "manifest_keys_loop (cl_lib C) (mf_IssuedAt m) [] 0 (mf_Keys m) = Inr 1"
    using assms(3) by (auto simp: validateOfflineManifestKeys_def split: if_splits sum.splits)
  have meta: "manifest_metadata C cfg ?p = Inr (Suc r, mf_IssuedAt m)"
    using p keys assms(4-7) parse_positive list_all2_lengthD [of "same_key C" "am_Keys ?p" "mf_Keys m"]
    by (auto simp: manifest_metadata_def)
  obtain ks active where ks: "trusted_keys C (mf_IssuedAt m) [] [] (am_Keys ?p) = Inr (ks, active)" "active \<noteq> []"
    "\<forall>i. map_of ks i = (case find (\<lambda>m. sk_KeyID m = i) (mf_Keys m) of None \<Rightarrow> map_of [] i | Some m \<Rightarrow> Some (trusted_of m))"
    using keys_agree [OF loop, of "am_Keys ?p" "[]" "[]"] p by auto
  have lookup: "map_of ks i = map_option trusted_of (offlineManifestKey m i)" for i
    using ks(3) by (auto simp: offlineManifestKey_def split: option.splits)
  show ?thesis
    using client_text_again [OF assms(2)] a meta ks(1,2) lookup
    by (auto simp: loadOfflineTrustEnvelope_def trusts_def)
qed

text \<open>The conditions a client adds to those of the server: the time of issue does not go back, and the signer is listed.\<close>

definition followable :: "Ed25519OfflineSigner \<Rightarrow> nat \<Rightarrow> bool" where
  "followable s i \<longleftrightarrow> mf_IssuedAt (sn_manifestPayload s ! (i - 1)) \<le> mf_IssuedAt (sn_manifestPayload s ! i)
     \<and> offlineManifestKey (sn_manifestPayload s ! i) (en_SignerKeyID (sn_manifests s ! i)) \<noteq> None"

definition same_crypto :: "signer_lib \<Rightarrow> client_lib \<Rightarrow> bool" where
  "same_crypto G C \<longleftrightarrow> cl_lib C = sl_lib G \<and> cl_verify C = sl_verify G"

lemma verify_agree:
  assumes "same_crypto G C" "verifyOfflineManifestSignature G e key" "validOfflineSignature (en_Signature e)"
  shows "verifyOfflineSignature C OfflineSignerManifestDomain (en_Payload e) (sk_KeyID key) (en_Signature e) (sk_KeyID key)
      (the (b64_decode (sk_PublicKey key))) = None"
  using assms by (auto simp: verifyOfflineManifestSignature_def verifyOfflineSignature_def validOfflineSignature_def same_crypto_def
      split: option.splits)

lemma advance_received:
  assumes chain: "chain_linked G s" and crypto: "same_crypto G C" and i: "0 < i" "i < length (sn_manifests s)"
    and trust: "trusts C current (sn_manifests s ! (i - 1)) (sn_manifestPayload s ! (i - 1)) i"
    and a: "received C (sn_manifests s ! i) (sn_manifestPayload s ! i) a"
    and url: "ValidateServerURL C (sn_origin s) (cc_AllowInsecureHTTP cfg) = Inr (cc_ServerURL cfg)"
  shows "case advance_trust C cfg current a of
      Inl _ \<Rightarrow> \<not> followable s i
    | Inr new \<Rightarrow> followable s i \<and> trusts C new (sn_manifests s ! i) (sn_manifestPayload s ! i) (i + 1)"
proof -
  let ?e = "sn_manifests s ! i" and ?m = "sn_manifestPayload s ! i" and ?prev = "sn_manifestPayload s ! (i - 1)"
  have link: "manifest_linked G s i" "manifest_linked G s (i - 1)" using chain i by (simp_all add: chain_linked_def)
  obtain bytes where bytes: "client_json (cl_print_envelope C a) = Inr bytes" using a by (auto simp: received_def)
  have lib: "cl_lib C = sl_lib G" using crypto by (simp add: same_crypto_def)
  have m: "validateOfflineManifestKeys (cl_lib C) ?m = None" "ParseUint63Decimal (mf_ManifestRevision ?m) = Inr (Suc i)"
    "mf_ProtocolVersion ?m = 1" "mf_Issuer ?m = ''edu-agent''" "validOfflineSignature (en_Signature ?e)"
    "ValidateServerURL C (mf_ServerBaseURL ?m) (cc_AllowInsecureHTTP cfg) = Inr (cc_ServerURL cfg)"
    using link(1) url by (simp_all add: manifest_linked_def Let_def lib)
  have "next_manifest_error G ?prev (sn_manifestDigests s ! (i - 1)) ?e ?m = None"
    using link(1) i by (simp add: manifest_linked_def Let_def)
  then obtain key where key: "mf_PreviousDigest ?m = sn_manifestDigests s ! (i - 1)" "offlineManifestKey ?prev (en_SignerKeyID ?e) = Some key"
    "sk_Status key = ''active''" "in_window (mf_IssuedAt ?m) key" "verifyOfflineManifestSignature G ?e key"
    by (auto simp: next_manifest_error_def split: if_splits option.splits)
  have digest: "mf_PreviousDigest ?m = tr_manifestDigest current"
    using trust key(1) link(2) by (simp add: trusts_def manifest_linked_def Let_def lib)
  have key_id: "sk_KeyID key = en_SignerKeyID ?e"
    using key(2) by (auto simp: offlineManifestKey_def find_Some_iff)
  have fields: "ae_SignerKeyID a = en_SignerKeyID ?e" "ae_Signature a = en_Signature ?e"
    "am_PreviousManifestDigest (ae_Payload a) = mf_PreviousDigest ?m"
    using a by (simp_all add: received_def same_manifest_def)
  have known: "map_of (tr_keys current) (ae_SignerKeyID a) = Some (trusted_of key)" "tr_manifestRevision current = i"
    "tr_issuedAt current = mf_IssuedAt ?prev"
    using trust key(2) fields by (simp_all add: trusts_def)
  have sign: "canSign (trusted_of key) (mf_IssuedAt ?m)" using key(3,4) by (simp add: canSign_def in_window_def)
  show ?thesis
  proof (cases "loadOfflineTrustEnvelope C bytes cfg False")
    case (Inl err)
    then have "offlineManifestKey ?m (en_SignerKeyID ?e) = None" using load_received [OF a bytes m(1-4,6)] by simp
    then show ?thesis using Inl bytes by (simp add: advance_trust_def followable_def)
  next
    case (Inr root)
    have root: "offlineManifestKey ?m (en_SignerKeyID ?e) \<noteq> None" "trusts C root ?e ?m (Suc i)" "tr_envelope root = a"
      "tr_payloadCanonical root = en_Payload ?e"
      using load_received [OF a bytes m(1-4,6)] Inr by simp_all
    have issued: "tr_issuedAt root = mf_IssuedAt ?m" "tr_manifestRevision root = Suc i" using root(2) by (simp_all add: trusts_def)
    have verified: "verifyOfflineSignature C OfflineSignerManifestDomain (en_Payload ?e) (ae_SignerKeyID a) (ae_Signature a)
        (sk_KeyID key) (the (b64_decode (sk_PublicKey key))) = None"
      using verify_agree [OF crypto key(5) m(5)] by (simp add: fields key_id)
    have "advance_trust C cfg current a = (if mf_IssuedAt ?m < mf_IssuedAt ?prev
        then Inl (PlainError ''offline signer manifest time rolled back'') else Inr root)"
      by (simp add: advance_trust_def bytes Inr root(3,4) issued known digest fields(3) sign key(3) verified)
    then show ?thesis using root by (auto simp: followable_def)
  qed
qed

text \<open>The manifests from \<open>i\<close> on, as the client received them.\<close>

lemma advance_chain:
  assumes "chain_linked G s" "same_crypto G C" "0 < i" "i + length chain = length (sn_manifests s)"
    and "trusts C current (sn_manifests s ! (i - 1)) (sn_manifestPayload s ! (i - 1)) i"
    and "\<forall>j < length chain. received C (sn_manifests s ! (i + j)) (sn_manifestPayload s ! (i + j)) (chain ! j)"
    and "ValidateServerURL C (sn_origin s) (cc_AllowInsecureHTTP cfg) = Inr (cc_ServerURL cfg)"
  shows "case advanceOfflineTrust C cfg current chain of
      Inl _ \<Rightarrow> \<exists>j. i \<le> j \<and> j < length (sn_manifests s) \<and> \<not> followable s j
    | Inr final \<Rightarrow> (\<forall>j. i \<le> j \<and> j < length (sn_manifests s) \<longrightarrow> followable s j)
        \<and> trusts C final (last (sn_manifests s)) (last (sn_manifestPayload s)) (length (sn_manifests s))"
  using assms
proof (induction chain arbitrary: current i)
  case Nil
  have "sn_manifests s \<noteq> []" "length (sn_manifestPayload s) = length (sn_manifests s)"
    using Nil.prems by (auto simp: chain_linked_def)
  moreover from this have "sn_manifestPayload s \<noteq> []" by auto
  ultimately show ?case using Nil.prems by (auto simp: last_conv_nth)
next
  case (Cons a chain)
  have "received C (sn_manifests s ! i) (sn_manifestPayload s ! i) a" using Cons.prems(6) by (auto dest: spec [of _ 0])
  then have step: "case advance_trust C cfg current a of Inl _ \<Rightarrow> \<not> followable s i
      | Inr new \<Rightarrow> followable s i \<and> trusts C new (sn_manifests s ! i) (sn_manifestPayload s ! i) (i + 1)"
    using Cons.prems by (intro advance_received) auto
  show ?case
  proof (cases "advance_trust C cfg current a")
    case (Inl err)
    then show ?thesis using step Cons.prems(4) by auto
  next
    case (Inr new)
    have followed: "followable s i" and new: "trusts C new (sn_manifests s ! (Suc i - 1)) (sn_manifestPayload s ! (Suc i - 1)) (Suc i)"
      using step Inr by simp_all
    have rest: "\<forall>j < length chain. received C (sn_manifests s ! (Suc i + j)) (sn_manifestPayload s ! (Suc i + j)) (chain ! j)"
      using Cons.prems(6) by (auto dest: spec [of _ "Suc _"])
    have ih: "case advanceOfflineTrust C cfg new chain of
        Inl _ \<Rightarrow> \<exists>j. Suc i \<le> j \<and> j < length (sn_manifests s) \<and> \<not> followable s j
      | Inr final \<Rightarrow> (\<forall>j. Suc i \<le> j \<and> j < length (sn_manifests s) \<longrightarrow> followable s j)
          \<and> trusts C final (last (sn_manifests s)) (last (sn_manifestPayload s)) (length (sn_manifests s))"
      using Cons.prems(4) by (intro Cons.IH [OF Cons.prems(1,2) _ _ new rest Cons.prems(7)]) simp_all
    show ?thesis
    proof (cases "advanceOfflineTrust C cfg new chain")
      case (Inl err)
      then have "\<exists>j. i \<le> j \<and> j < length (sn_manifests s) \<and> \<not> followable s j" using ih by (auto intro: Suc_leD)
      then show ?thesis using Inl Inr by simp
    next
      case final: (Inr final)
      have "followable s j" if "i \<le> j \<and> j < length (sn_manifests s)" for j
        using that ih final followed by (cases "j = i") auto
      then show ?thesis using final Inr ih by simp
    qed
  qed
qed


section \<open>What a client can be made to trust\<close>

text \<open>
  Whatever a server sends. A client moves from the trust \<open>r\<close> to the trust \<open>n\<close> on an answer \<open>a\<close> only if \<open>n\<close> is what
  \<open>a\<close> says, in canonical form, and \<open>r\<close> authorizes it. Written out without the checks of the code: \<open>key_read\<close> is a key as
  it was listed, \<open>manifest_read\<close> a manifest as it was sent, \<open>authorizes\<close> the continuity of two of them.
\<close>

definition key_read :: "client_lib \<Rightarrow> ApiSignerKey \<Rightarrow> offlineTrustedKey \<Rightarrow> bool" where
  "key_read C a k \<longleftrightarrow> tk_keyID k = ak_KeyID a \<and> ak_KeyID a \<noteq> [] \<and> length (ak_KeyID a) \<le> 128
     \<and> length (tk_publicKey k) = 32 \<and> ak_PublicKey a = b64_encode (tk_publicKey k)
     \<and> ak_Fingerprint a = b64_encode (lib_sha256 (cl_lib C) (tk_publicKey k))
     \<and> cl_parse_time C (ak_NotBefore a) = Some (tk_notBefore k, True) \<and> cl_parse_time C (ak_NotAfter a) = Some (tk_notAfter k, True)
     \<and> cl_parse_time C (ak_StatusEffectiveAt a) = Some (tk_statusEffectiveAt k, True)
     \<and> tk_notBefore k < tk_notAfter k \<and> tk_notBefore k \<le> tk_statusEffectiveAt k \<and> tk_statusEffectiveAt k \<le> tk_notAfter k
     \<and> tk_status k = ak_Status a \<and> ak_Status a \<in> {''active'', ''verify_only'', ''retired''}"

definition valid_at :: "offlineTrustedKey \<Rightarrow> time \<Rightarrow> bool" where
  "valid_at k t \<longleftrightarrow> tk_status k = ''active'' \<and> tk_notBefore k \<le> t \<and> t < tk_notAfter k \<and> tk_statusEffectiveAt k \<le> t"

definition keys_read :: "client_lib \<Rightarrow> time \<Rightarrow> ApiSignerKey list \<Rightarrow> string \<Rightarrow> (string, offlineTrustedKey) gomap \<Rightarrow> bool" where
  "keys_read C issued listed active keys \<longleftrightarrow>
     (\<forall>i k. map_of keys i = Some k \<longrightarrow> (\<exists>a \<in> set listed. ak_KeyID a = i \<and> key_read C a k) \<and> (tk_status k = ''active'' \<longleftrightarrow> i = active))
     \<and> (\<forall>a \<in> set listed. \<exists>k. map_of keys (ak_KeyID a) = Some k \<and> key_read C a k)
     \<and> distinct (map ak_KeyID listed)
     \<and> (active \<noteq> [] \<longrightarrow> (\<exists>k. map_of keys active = Some k \<and> valid_at k issued))"

definition manifest_read :: "client_lib \<Rightarrow> client_config \<Rightarrow> ApiManifestEnvelope \<Rightarrow> offlineTrustRoot \<Rightarrow> bool" where
  "manifest_read C cfg a n \<longleftrightarrow>
     (let p = ae_Payload (tr_envelope n)
      in client_json (cl_print_envelope C a) = Inr (tr_canonicalEnvelope n) \<and> cl_envelope C (tr_canonicalEnvelope n) = Inr (tr_envelope n)
         \<and> client_json (cl_print_payload C p) = Inr (tr_payloadCanonical n)
         \<and> tr_manifestDigest n = b64_encode (lib_sha256 (cl_lib C) (tr_payloadCanonical n))
         \<and> am_ProtocolVersion p = 1 \<and> am_Issuer p = ''edu-agent'' \<and> am_ManifestRevision p = nat_text (tr_manifestRevision n)
         \<and> ValidateServerURL C (am_ServerBaseURL p) (cc_AllowInsecureHTTP cfg) = Inr (cc_ServerURL cfg)
         \<and> cl_parse_time C (am_IssuedAt p) = Some (tr_issuedAt n, True) \<and> length (am_Keys p) \<le> 16
         \<and> tr_activeKeyID n \<noteq> [] \<and> keys_read C (tr_issuedAt n) (am_Keys p) (tr_activeKeyID n) (tr_keys n)
         \<and> (\<exists>k. map_of (tr_keys n) (ae_SignerKeyID (tr_envelope n)) = Some k))"

definition authorizes :: "client_lib \<Rightarrow> offlineTrustRoot \<Rightarrow> offlineTrustRoot \<Rightarrow> bool" where
  "authorizes C r n \<longleftrightarrow> tr_manifestRevision n = tr_manifestRevision r + 1
     \<and> am_PreviousManifestDigest (ae_Payload (tr_envelope n)) = tr_manifestDigest r \<and> tr_issuedAt r \<le> tr_issuedAt n
     \<and> (\<exists>k g. map_of (tr_keys r) (ae_SignerKeyID (tr_envelope n)) = Some k \<and> tk_keyID k = ae_SignerKeyID (tr_envelope n)
          \<and> valid_at k (tr_issuedAt n) \<and> length g = 64 \<and> ae_Signature (tr_envelope n) = b64_encode g
          \<and> cl_verify C (tk_publicKey k)
              (''edu-agent-signer-manifest-v1'' @ [CHR 0x0A] @ lib_sha256 (cl_lib C) (tr_payloadCanonical n)) g)"

inductive trust_path :: "client_lib \<Rightarrow> client_config \<Rightarrow> offlineTrustRoot \<Rightarrow> ApiManifestEnvelope list \<Rightarrow> offlineTrustRoot \<Rightarrow> bool"
  for C cfg where
  stay: "trust_path C cfg r [] r"
| move: "manifest_read C cfg a n \<Longrightarrow> authorizes C r n \<Longrightarrow> trust_path C cfg n answer final \<Longrightarrow> trust_path C cfg r (a # answer) final"

lemma parseOfflineTime_Inr: "parseOfflineTime C s = Inr t \<Longrightarrow> cl_parse_time C s = Some (t, True)"
  by (auto simp: parseOfflineTime_def split: option.splits if_splits)

lemma parseOfflineUint63_Inr:
  assumes "parseOfflineUint63 s positive = Inr n" shows "s = nat_text n"
proof -
  have "decimal_text s" "decimal_value s = n"
    using assms by (cases s; auto simp: parseOfflineUint63_def decimal_text_def split: if_splits)+
  then show ?thesis using decimal_text_value by metis
qed

lemma decodeOfflineTrustedKey_Inr:
  assumes "decodeOfflineTrustedKey C a = Inr k" shows "key_read C a k"
proof -
  obtain p where p: "b64_decode (ak_PublicKey a) = Some p"
    using assms by (auto simp: decodeOfflineTrustedKey_def split: if_splits option.splits)
  note u = assms [unfolded decodeOfflineTrustedKey_def p, simplified]
  have g: "ak_KeyID a \<noteq> []" "length (ak_KeyID a) \<le> 128" "length p = 32" "b64_encode p = ak_PublicKey a"
      "b64_encode (lib_sha256 (cl_lib C) p) = ak_Fingerprint a"
    using u by (auto split: if_splits)
  obtain nb where nb: "parseOfflineTime C (ak_NotBefore a) = Inr nb"
    using u by (auto simp: bindE_Inr split: if_split_asm)
  obtain na where na: "parseOfflineTime C (ak_NotAfter a) = Inr na"
    using u nb by (cases "parseOfflineTime C (ak_NotAfter a)") (auto split: if_split_asm)
  obtain ef where ef: "parseOfflineTime C (ak_StatusEffectiveAt a) = Inr ef"
    using u nb na by (cases "parseOfflineTime C (ak_StatusEffectiveAt a)") (auto split: if_split_asm)
  note t = nb na ef
  have "nb < na \<and> nb \<le> ef \<and> ef \<le> na \<and> ak_Status a \<in> {''active'', ''verify_only'', ''retired''}
      \<and> k = \<lparr>tk_keyID = ak_KeyID a, tk_publicKey = p, tk_notBefore = nb, tk_notAfter = na, tk_statusEffectiveAt = ef, tk_status = ak_Status a\<rparr>"
    using u by (simp add: t split: if_splits)
  then show ?thesis using g t [THEN parseOfflineTime_Inr] by (simp add: key_read_def)
qed

lemma keys_read_snoc:
  assumes read: "keys_read C issued listed active keys" and k: "key_read C a k" "map_of keys (ak_KeyID a) = None"
    and active: "if tk_status k = ''active'' then active = [] \<and> active' = ak_KeyID a \<and> valid_at k issued else active' = active"
  shows "keys_read C issued (listed @ [a]) active' (AList.update (ak_KeyID a) k keys)"
proof -
  have id: "ak_KeyID a \<noteq> []" using k(1) by (simp add: key_read_def)
  have other: "ak_KeyID b \<noteq> ak_KeyID a" if "b \<in> set listed" for b
    using that read k(2) by (fastforce simp: keys_read_def)
  have named: "i \<noteq> []" if "map_of keys i = Some v" for i v
    using that read by (auto simp: keys_read_def key_read_def)
  show ?thesis
    unfolding keys_read_def
  proof (intro conjI allI impI ballI)
    fix i v assume v: "map_of (AList.update (ak_KeyID a) k keys) i = Some v"
    show "\<exists>b \<in> set (listed @ [a]). ak_KeyID b = i \<and> key_read C b v"
      using v read k(1) by (auto simp: map_of_update keys_read_def split: if_splits)
    show "(tk_status v = ''active'') = (i = active')"
      using v read active k(2) named [of i v] id by (auto simp: map_of_update keys_read_def split: if_splits)
  next
    fix b assume "b \<in> set (listed @ [a])"
    then show "\<exists>v. map_of (AList.update (ak_KeyID a) k keys) (ak_KeyID b) = Some v \<and> key_read C b v"
      using read k(1) other by (auto simp: map_of_update keys_read_def)
  next
    show "distinct (map ak_KeyID (listed @ [a]))" using read other by (force simp: keys_read_def)
  next
    assume "active' \<noteq> []"
    then show "\<exists>v. map_of (AList.update (ak_KeyID a) k keys) active' = Some v \<and> valid_at v issued"
      using read active k(2) by (auto simp: map_of_update keys_read_def split: if_splits)
  qed
qed

lemma trusted_keys_read:
  "trusted_keys C issued keys active ks = Inr (keys', active') \<Longrightarrow> keys_read C issued listed active keys \<Longrightarrow>
   keys_read C issued (listed @ ks) active' keys'"
proof (induction ks arbitrary: keys active listed)
  case (Cons a ks)
  obtain k where new: "map_of keys (ak_KeyID a) = None" and k: "decodeOfflineTrustedKey C a = Inr k"
    using Cons.prems(1) by (auto simp: bindE_Inr split: if_splits)
  note read = decodeOfflineTrustedKey_Inr [OF k]
  have id: "tk_keyID k = ak_KeyID a" using read by (simp add: key_read_def)
  let ?active = "if tk_status k = ''active'' then ak_KeyID a else active"
  have "trusted_keys C issued (AList.update (ak_KeyID a) k keys) ?active ks = Inr (keys', active')"
    and "if tk_status k = ''active'' then active = [] \<and> ?active = ak_KeyID a \<and> valid_at k issued else ?active = active"
    using Cons.prems(1) by (auto simp: new k id valid_at_def split: if_splits)
  from Cons.IH [OF this(1) keys_read_snoc [OF Cons.prems(2) read new this(2)]] show ?case by simp
qed simp

lemma load_trust_read:
  assumes "client_json (cl_print_envelope C a) = Inr bytes" "loadOfflineTrustEnvelope C bytes cfg False = Inr n"
  shows "manifest_read C cfg a n"
proof -
  obtain env where canonical_text: "client_text bytes = Inr bytes" "cl_envelope C bytes = Inr env"
    using assms client_text_again [OF assms(1)] by (auto simp: loadOfflineTrustEnvelope_def split: sum.splits)
  note load = assms(2) [unfolded loadOfflineTrustEnvelope_def canonical_text sum.case]
  obtain payload revision issuedAt keys active where parts:
      "client_json (cl_print_payload C (ae_Payload env)) = Inr payload" "manifest_metadata C cfg (ae_Payload env) = Inr (revision, issuedAt)"
      "trusted_keys C issuedAt [] [] (am_Keys (ae_Payload env)) = Inr (keys, active)" "active \<noteq> []" "map_of keys (ae_SignerKeyID env) \<noteq> None"
      "n = \<lparr>tr_canonicalEnvelope = bytes, tr_envelope = env, tr_payloadCanonical = payload,
              tr_manifestRevision = revision, tr_manifestDigest = offlineBase64Digest (cl_lib C) payload,
              tr_issuedAt = issuedAt, tr_keys = keys, tr_activeKeyID = active\<rparr>"
    using load by (auto simp: bindE_Inr split: if_splits)
  have meta: "parseOfflineUint63 (am_ManifestRevision (ae_Payload env)) True = Inr revision"
      "parseOfflineTime C (am_IssuedAt (ae_Payload env)) = Inr issuedAt" "am_ProtocolVersion (ae_Payload env) = 1"
      "am_Issuer (ae_Payload env) = ''edu-agent''" "length (am_Keys (ae_Payload env)) \<le> 16"
      "ValidateServerURL C (am_ServerBaseURL (ae_Payload env)) (cc_AllowInsecureHTTP cfg) = Inr (cc_ServerURL cfg)"
    using parts(2) by (auto simp: manifest_metadata_def split: sum.splits if_splits)
  have "keys_read C issuedAt (am_Keys (ae_Payload env)) active keys"
    using trusted_keys_read [OF parts(3), of "[]"] by (simp add: keys_read_def)
  then show ?thesis
    using assms(1) canonical_text(2) parts meta parseOfflineTime_Inr [OF meta(2)] parseOfflineUint63_Inr [OF meta(1)]
    by (simp add: manifest_read_def offlineBase64Digest_def)
qed

lemma verified_signature:
  assumes "verifyOfflineSignature C OfflineSignerManifestDomain payload signer encoded trusted publicKey = None"
  shows "signer = trusted \<and> (\<exists>g. length g = 64 \<and> encoded = b64_encode g
    \<and> cl_verify C publicKey (''edu-agent-signer-manifest-v1'' @ [CHR 0x0A] @ lib_sha256 (cl_lib C) payload) g)"
proof -
  obtain g where "signer = trusted" "length g = 64" "b64_encode g = encoded"
      "cl_verify C publicKey (signed_message (cl_lib C) OfflineSignerManifestDomain payload) g"
    using assms by (auto simp: verifyOfflineSignature_def split: if_splits option.splits)
  then show ?thesis by (auto simp: signed_message_def manifest_domain)
qed

lemma advance_trust_moves:
  assumes "advance_trust C cfg r a = Inr n" shows "manifest_read C cfg a n \<and> authorizes C r n"
proof -
  obtain bytes where bytes: "client_json (cl_print_envelope C a) = Inr bytes" "loadOfflineTrustEnvelope C bytes cfg False = Inr n"
    using assms by (auto simp: advance_trust_def bindE_Inr checkE_Inr split: if_splits option.splits)
  obtain k where k: "tr_manifestRevision n = tr_manifestRevision r + 1" "am_PreviousManifestDigest (ae_Payload (tr_envelope n)) = tr_manifestDigest r"
      "tr_issuedAt r \<le> tr_issuedAt n" "map_of (tr_keys r) (ae_SignerKeyID (tr_envelope n)) = Some k" "canSign k (tr_issuedAt n)"
      "verifyOfflineSignature C OfflineSignerManifestDomain (tr_payloadCanonical n) (ae_SignerKeyID (tr_envelope n))
         (ae_Signature (tr_envelope n)) (tk_keyID k) (tk_publicKey k) = None"
    using assms by (auto simp: advance_trust_def bytes bindE_Inr checkE_Inr not_less split: if_splits option.splits)
  have "valid_at k (tr_issuedAt n)" using k(5) by (auto simp: canSign_def valid_at_def not_less)
  then show ?thesis
    using load_trust_read [OF bytes] k(1-4) verified_signature [OF k(6)] by (auto simp: authorizes_def)
qed

lemma advance_path: "advanceOfflineTrust C cfg r answer = Inr final \<Longrightarrow> trust_path C cfg r answer final"
proof (induction answer arbitrary: r)
  case (Cons a answer)
  obtain n where n: "advance_trust C cfg r a = Inr n" "advanceOfflineTrust C cfg n answer = Inr final"
    using Cons.prems by (auto simp: bindE_Inr)
  show ?case using advance_trust_moves [OF n(1)] Cons.IH [OF n(2)] by (blast intro: trust_path.move)
qed (simp add: trust_path.stay)

lemma trust_path_forward:
  "trust_path C cfg r answer final \<Longrightarrow>
   tr_manifestRevision final = tr_manifestRevision r + length answer \<and> tr_issuedAt r \<le> tr_issuedAt final"
  by (induction rule: trust_path.induct) (auto simp: authorizes_def)

text \<open>
  C40: A client can be made to trust only what its trust authorizes, whatever it is sent and whoever sends it. If it
  follows an answer to the end, then step by step: the manifest is the one that was sent, for the server the client is
  paired with; it is numbered one higher and names the digest of the trusted one, so nothing is skipped, rolled back or
  forked; its time does not go back; and it is signed by a key the trusted manifest lists as active and valid then.
\<close>

theorem only_authorized_trusted:
  assumes "advanceOfflineTrust C cfg trust answer = Inr final"
  shows "trust_path C cfg trust answer final
    \<and> tr_manifestRevision final = tr_manifestRevision trust + length answer \<and> tr_issuedAt trust \<le> tr_issuedAt final"
  using advance_path [OF assms] trust_path_forward by blast

section \<open>Examples\<close>

definition example_time_text :: "time \<Rightarrow> string" where
  "example_time_text u = (if u = 1000 then ''n'' else if u = 9000 then ''e'' else ''t'')"

definition example_api_key :: ApiSignerKey where
  "example_api_key = \<lparr>ak_KeyID = ''k'', ak_PublicKey = b64_encode (replicate 32 (CHR ''p'')), ak_Fingerprint = example_origin_digest,
     ak_NotBefore = ''n'', ak_NotAfter = ''e'', ak_StatusEffectiveAt = ''n'', ak_Status = ''active''\<rparr>"

definition example_answer :: "time \<Rightarrow> ApiManifestEnvelope" where
  "example_answer t = \<lparr>ae_Payload = \<lparr>am_ProtocolVersion = 1, am_ManifestRevision = ''2'', am_Issuer = ''edu-agent'',
       am_ServerBaseURL = ''https:h/'', am_PreviousManifestDigest = example_origin_digest, am_IssuedAt = example_time_text t,
       am_Keys = [example_api_key]\<rparr>,
     ae_SignerKeyID = ''k'', ae_Signature = b64_encode (replicate 64 (CHR ''s''))\<rparr>"

definition example_client :: "time \<Rightarrow> client_lib" where
  "example_client t = \<lparr>cl_lib = olib_lib example_offline, cl_verify = \<lambda>_ _ signature. signature = replicate 64 (CHR ''s''),
     cl_envelope = \<lambda>_. Inr (example_answer t), cl_print_payload = \<lambda>_. Inr ''2'', cl_print_envelope = \<lambda>_. Inr ''[]'',
     cl_parse_time = \<lambda>s. Some (if s = ''n'' then 1000 else if s = ''e'' then 9000 else 3000, True),
     cl_format_time = example_time_text,
     cl_url = \<lambda>_. Some \<lparr>cu_Scheme = ''https'', cu_Host = ''h'', cu_Opaque = [], cu_User = False, cu_RawQuery = [],
       cu_ForceQuery = False, cu_Fragment = [], cu_Path = ''/'', cu_RawPath = [], cu_Hostname = ''h''\<rparr>,
     cl_url_text = \<lambda>u. cu_Scheme u @ '':'' @ cu_Host u @ cu_Path u, cl_loopback_ip = \<lambda>_. False\<rparr>"

definition example_paired :: client_config where
  "example_paired = \<lparr>cc_ServerURL = ''https:h'', cc_DeviceID = ''device'', cc_AllowInsecureHTTP = False, cc_SignerManifest = None\<rparr>"

definition example_trust :: offlineTrustRoot where
  "example_trust = \<lparr>tr_canonicalEnvelope = [], tr_envelope = example_answer 1000, tr_payloadCanonical = ''1'', tr_manifestRevision = 1,
     tr_manifestDigest = example_origin_digest, tr_issuedAt = 2000, tr_keys = [(''k'', trusted_of example_signer_key)],
     tr_activeKeyID = ''k''\<rparr>"

lemma example_url: "ValidateServerURL (example_client t) raw False = Inr ''https:h''"
  by (simp add: ValidateServerURL_def example_client_def trim_suffix_def has_suffix_def)

lemma example_times:
  "parseOfflineTime (example_client t) ''n'' = Inr 1000" "parseOfflineTime (example_client t) ''e'' = Inr 9000"
  "u \<in> {1000, 3000} \<Longrightarrow> parseOfflineTime (example_client t) (example_time_text u) = Inr u"
  by (auto simp: parseOfflineTime_def example_client_def example_time_text_def)

lemma example_received:
  assumes "t \<in> {1000, 3000}"
  shows "received (example_client t) (example_envelope ''2'') (example_manifest ''2'' example_origin_digest t) (example_answer t)"
proof -
  have "wf_jcs (CNumber ''2'')"
    by (simp add: number_ok_def integer_text_def integer_value_def decimal_text_def decimal_value_def is_digit_def byte_def in_int64_def)
  then have texts: "client_text ''2'' = Inr ''2''" "client_text ''[]'' = Inr ''[]''"
    using client.text_reads_back [of "CNumber ''2''"] client.text_reads_back [of "CArray []"]
    by (simp_all add: client_text_def ClientCanonicalizeJCS_def)
  have "same_key (example_client t) example_api_key example_signer_key"
    using example_times by (simp add: same_key_def example_api_key_def example_signer_key_def utc_microsecond_def trunc_microsecond_def)
  then have "same_manifest (example_client t) (ae_Payload (example_answer t)) (example_manifest ''2'' example_origin_digest t)"
    using example_times(3) [OF assms] by (simp add: same_manifest_def example_answer_def example_manifest_def)
  moreover have "ae_SignerKeyID (example_answer t) = ''k''" "ae_Signature (example_answer t) = b64_encode (replicate 64 (CHR ''s''))"
    by (simp_all add: example_answer_def)
  ultimately show ?thesis
    using texts by (simp add: received_def client_json_def example_client_def example_envelope_def)
qed

lemma example_trusts: "trusts (example_client t) example_trust (example_envelope ''1'') (example_manifest ''1'' OfflineZeroDigest 2000) 1"
  by (simp add: trusts_def example_trust_def example_client_def example_digest_of)
    (simp add: offlineManifestKey_def example_manifest_def example_signer_key_def)

lemma example_crypto: "same_crypto (example_signer_lib t) (example_client t)"
  by (simp add: same_crypto_def example_signer_lib_def example_client_def)

lemma example_chain: "ManifestChain (example_signer t) 1 (tr_manifestDigest example_trust) = Inr [example_envelope ''2'']"
  using example_digest by (simp add: ManifestChain_def example_signer_def example_trust_def)

lemma example_followable: "followable (example_signer t) 1 \<longleftrightarrow> 2000 \<le> t"
  by (simp add: followable_def example_signer_def example_envelope_def example_find) (simp add: example_manifest_def)


lemma example_followed: "\<exists>new. advanceOfflineTrust (example_client 3000) example_paired example_trust [example_answer 3000] = Inr new"
proof -
  have linked: "chain_linked (example_signer_lib 3000) (example_signer 3000)"
    using new_signer_linked [OF example_loaded example_laws_hold, of 3000] by simp
  have two: "sn_manifests (example_signer 3000) = [example_envelope ''1'', example_envelope ''2'']"
    "sn_manifestPayload (example_signer 3000) = [example_manifest ''1'' OfflineZeroDigest 2000, example_manifest ''2'' example_origin_digest 3000]"
    by (simp_all add: example_signer_def)
  have "followable (example_signer 3000) i" if "1 \<le> i \<and> i < 2" for i
    using that example_followable [of 3000] by (cases "i = 1") auto
  then show ?thesis
    using advance_chain [OF linked example_crypto, of 1 "[example_answer 3000]" example_trust example_paired]
      example_trusts [of 3000] example_received [of 3000] example_url [of 3000]
    by (fastforce simp: two example_paired_def split: sum.splits)
qed

theorem only_authorized_trusted_witness:
  "\<exists>final. advanceOfflineTrust (example_client 3000) example_paired example_trust [example_answer 3000] = Inr final
    \<and> trust_path (example_client 3000) example_paired example_trust [example_answer 3000] final \<and> tr_manifestRevision final = 2"
proof -
  obtain final where "advanceOfflineTrust (example_client 3000) example_paired example_trust [example_answer 3000] = Inr final"
    using example_followed by blast
  with only_authorized_trusted [OF this] show ?thesis by (auto simp: example_trust_def)
qed

text \<open>
  The chain of the finding. The server starts with a chain whose second manifest claims to be issued before the first,
  and a client refuses it: the server compares the time of issue with the validity of the signing key only, the client
  also with the time before.
\<close>

theorem stale_chain_refused:
  "(\<exists>s. NewEd25519OfflineSignerWithManifestChain (example_signer_lib 1000) ''k'' (replicate 64 (CHR ''q'')) ''x'' 1000 9000 [''{}'', ''[]''] = Inr s
      \<and> ManifestChain s 1 (tr_manifestDigest example_trust) = Inr [example_envelope ''2''])
    \<and> isl (advanceOfflineTrust (example_client 1000) example_paired example_trust [example_answer 1000])"
proof -
  have linked: "chain_linked (example_signer_lib 1000) (example_signer 1000)"
    using new_signer_linked [OF example_loaded example_laws_hold, of 1000] by simp
  have two: "sn_manifests (example_signer 1000) = [example_envelope ''1'', example_envelope ''2'']"
    "sn_manifestPayload (example_signer 1000) = [example_manifest ''1'' OfflineZeroDigest 2000, example_manifest ''2'' example_origin_digest 1000]"
    by (simp_all add: example_signer_def)
  have "isl (advanceOfflineTrust (example_client 1000) example_paired example_trust [example_answer 1000])"
    using advance_chain [OF linked example_crypto, of 1 "[example_answer 1000]" example_trust example_paired]
      example_trusts [of 1000] example_received [of 1000] example_url [of 1000] example_followable [of 1000]
    by (fastforce simp: two example_paired_def split: sum.splits)
  then show ?thesis using example_loaded [of 1000] example_chain [of 1000] by auto
qed

end
