(* ===== verification/Offline_Ingest.thy ===== *)
theory Offline_Ingest
  imports Event_Log Offline_Upload
begin

text \<open>
  Archiving an uploaded operation: \<open>IngestOffline\<close> of \<open>learning/postgresstore/offline_store.go\<close>. It is the \<open>ingest\<close>
  that \<open>Sync\<close> calls: one transaction looks the operation up in the inbox, finds the authorization its device and
  sequence number were reserved for, decides whether the answer may count as evidence, appends the events, claims the
  sequence number, settles the submission, replays the log into the projection, and archives the result.

  \<open>offline_db\<close> adds the tables of the protocol to those of \<open>Store\<close>. The keys and checks of the tables that an
  insertion meets are part of the insertion. Parameters (\<open>ingest_env\<close>): the privacy gates of the packages, the
  knowledge store, the outbox, the rows of the other learning tables (\<open>db_Other\<close>), and JSON. The store is taken to be
  set up with its collaborators.
\<close>

section \<open>Tables\<close>

text \<open>A row of \<open>offline_submission_authorizations\<close>, and the row as it is read with the head of its submission.\<close>

record authorization_row =
  sa_SubmissionID :: string
  sa_PackID :: string
  sa_DeviceID :: string
  sa_OperationID :: string
  sa_DeviceSequence :: int
  sa_ActivityID :: string
  sa_ActivityRevision :: int
  sa_LearnerGeneration :: int
  sa_CredentialEpoch :: int
  sa_ExpectedVersion :: int
  sa_AuthorizationHash :: string
  sa_Authorization :: string
  sa_SignerKeyID :: string
  sa_Signature :: string
  sa_EligibleUntil :: time
  sa_ArchiveUntil :: time

record storedOfflineAuthorization = authorization_row +
  sa_HeadState :: OfflineSubmissionState
  sa_AggregateVersion :: int

record storedOfflineActivity =
  sv_Activity :: Activity
  sv_LearnerGeneration :: int
  sv_PracticeKind :: string
  sv_PayloadHash :: string
  sv_IssuedAt :: time
  sv_EligibleUntil :: time
  sv_ArchiveUntil :: time

text \<open>\<open>offline_attempt_heads\<close>, \<open>offline_device_sequence_claims\<close>, and a ticket with its first revision.\<close>

record attempt_head =
  ah_State :: OfflineSubmissionState
  ah_TerminalOperationID :: string
  ah_AggregateVersion :: int
  ah_FirstEventSeq :: int
  ah_LastEventSeq :: int

record sequence_claim =
  sq_OperationID :: string
  sq_SubmissionID :: string
  sq_OperationHash :: string
  sq_Rejected :: bool

record status_ticket =
  to_DeviceID :: string
  to_OperationID :: string
  to_SubmissionID :: string
  to_ReceiptID :: string
  to_RevisionID :: string
  to_ArchiveStatus :: OfflineArchiveStatus
  to_AssessmentStatus :: OfflineAssessmentStatus
  to_EvidenceStatus :: OfflineEvidenceStatus
  to_ReasonCodes :: "string list"
  to_AggregateVersion :: int
  to_FirstEventSeq :: int
  to_LastEventSeq :: int
  to_AssessmentID :: string
  to_EvidenceID :: string

record evaluation_job =
  ej_SubmissionID :: string
  ej_AttemptID :: string
  ej_LearnerGeneration :: int
  ej_FrozenRequest :: string
  ej_FrozenHash :: string
  ej_OutboxID :: string
  ej_AvailableAt :: time
  ej_RetryDeadline :: time

record 'r offline_db =
  od_Store :: "'r db"
  od_Devices :: "(string, time option \<times> int) gomap" \<comment> \<open>\<open>revoked_at\<close> and the epoch of the credential\<close>
  od_Reservations :: "(string \<times> int, string \<times> string) gomap" \<comment> \<open>operation and submission\<close>
  od_Authorizations :: "(string, authorization_row) gomap"
  od_Heads :: "(string, attempt_head) gomap"
  od_SequenceClaims :: "(string \<times> int, sequence_claim) gomap"
  od_Activities :: "(string \<times> int, storedOfflineActivity) gomap"
  od_Tickets :: "(string, status_ticket) gomap"
  od_Jobs :: "(string, evaluation_job) gomap"

record outbox_message =
  om_ID :: string
  om_Text :: string

record OfflineEvaluationTask =
  et_JobID :: string
  et_SubmissionID :: string
  et_FutureAssessmentID :: string
  et_LearnerGeneration :: int

record offlinePlan =
  pl_activity :: Activity
  pl_materialize :: bool
  pl_attempt :: "Attempt option"
  pl_assessment :: "AssessmentArtifact option"
  pl_decision :: "AssessmentDecision option"
  pl_evidence :: "AcceptedEvidence option"
  pl_assessmentStatus :: OfflineAssessmentStatus
  pl_evidenceStatus :: OfflineEvidenceStatus
  pl_reasons :: "string list"
  pl_jobID :: string
  pl_futureAssessmentID :: string
  pl_outboxMessage :: "outbox_message option"
  pl_evidenceClaim :: bool
  pl_evidenceClaimSource :: string

record 'r ingest_env =
  ie_store :: "'r store_env"
  ie_offline :: offline_lib
  ie_gate :: "int \<Rightarrow> 'r \<Rightarrow> string + int" \<comment> \<open>\<open>privacy_lock_owner_gate\<close>: the text of its error, or the generation\<close>
  ie_tutoring :: "'r \<Rightarrow> store_failure + int"
  ie_knowledge :: "'r \<Rightarrow> store_failure + int"
  ie_scope :: "string \<Rightarrow> 'r \<Rightarrow> error + 'r" \<comment> \<open>the space of a goal revision, made the scope of the writes\<close>
  ie_knowledge_head :: "string \<Rightarrow> 'r \<Rightarrow> error + (bool \<times> string)" \<comment> \<open>\<open>RevisionHeadLockedWith\<close>: redacted, head\<close>
  ie_materialized :: "Activity \<Rightarrow> 'r \<Rightarrow> error + bool"
  ie_materialize :: "Activity \<Rightarrow> 'r \<Rightarrow> error + 'r"
  ie_session :: "string \<Rightarrow> 'r \<Rightarrow> error + Session"
  ie_message :: "string \<Rightarrow> int \<Rightarrow> string \<Rightarrow> time \<Rightarrow> error + outbox_message" \<comment> \<open>\<open>outbox.NewMessage\<close>\<close>
  ie_enqueue :: "outbox_message \<Rightarrow> 'r \<Rightarrow> error + 'r"
  ie_insert_attempt :: "Attempt \<Rightarrow> 'r \<Rightarrow> error + 'r"
  ie_insert_assessment :: "AssessmentArtifact \<Rightarrow> AssessmentDecision \<Rightarrow> 'r \<Rightarrow> error + 'r"
  ie_insert_evidence :: "AcceptedEvidence \<Rightarrow> string \<Rightarrow> KnowledgeReference \<Rightarrow> 'r \<Rightarrow> error + 'r"
  ie_uuid :: "string \<Rightarrow> string" \<comment> \<open>\<open>uuid.NewSHA1(offlineNamespace, _)\<close>\<close>
  ie_print_task :: "OfflineEvaluationTask \<Rightarrow> string"
  ie_print_frozen :: "Activity \<Rightarrow> Attempt \<Rightarrow> string \<Rightarrow> string"
  ie_print_rejected :: "OfflineOperation \<Rightarrow> string \<Rightarrow> time \<Rightarrow> string"
  ie_print_skipped :: "OfflineOperation \<Rightarrow> string \<Rightarrow> time \<Rightarrow> string"
  ie_print_queued :: "string \<Rightarrow> string \<Rightarrow> string \<Rightarrow> string"
  ie_print_result :: "OfflineIngestResult \<Rightarrow> string"
  ie_result :: "string \<Rightarrow> error + OfflineIngestResult"

definition plain :: "error + 'a \<Rightarrow> store_failure + 'a" where
  "plain m = (case m of Inl e \<Rightarrow> Inl (StoreFailure e) | Inr x \<Rightarrow> Inr x)"

lemma plain_Inr [simp]: "plain m = Inr x \<longleftrightarrow> m = Inr x"
  by (simp add: plain_def split: sum.split)

definition offlineID :: "'r ingest_env \<Rightarrow> string \<Rightarrow> string \<Rightarrow> string" where
  "offlineID E kind v = ie_uuid E (kind @ [CHR 0x0A] @ v)"

section \<open>Answers without an archive\<close>

definition blockedOfflineResult :: "OfflineOperation \<Rightarrow> string \<Rightarrow> OfflineIngestResult" where
  "blockedOfflineResult op reason = unarchived_result op OfflineResultBlocked OfflineNotArchivedBlocked reason"

definition conflictOfflineResult :: "OfflineOperation \<Rightarrow> OfflineArchiveStatus \<Rightarrow> string \<Rightarrow> OfflineIngestResult" where
  "conflictOfflineResult op status reason = unarchived_result op OfflineResultConflict status reason"

section \<open>Who may write\<close>

definition is_infix :: "string \<Rightarrow> string \<Rightarrow> bool" where
  "is_infix s t \<longleftrightarrow> (\<exists>n \<in> set [0..<Suc (length t)]. take (length s) (drop n t) = s)"

definition databaseMessage :: "string \<Rightarrow> string" where
  "databaseMessage e = (case find (\<lambda>m. is_infix m e) [''content_redacted'', ''privacy_clear_in_progress'', ''privacy owner generation changed''] of
     None \<Rightarrow> [] | Some m \<Rightarrow> m)"

definition lockLearningWriteGeneration :: "'r ingest_env \<Rightarrow> int \<Rightarrow> 'r \<Rightarrow> store_failure + int" where
  "lockLearningWriteGeneration E expected r =
     (case ie_gate E expected r of
        Inr generation \<Rightarrow> Inr generation
      | Inl e \<Rightarrow>
          let message = databaseMessage e
          in if message = ''content_redacted'' then Inl (PrivacyFailure ''content_redacted'')
             else if message = ''privacy_clear_in_progress'' \<or> message = ''privacy owner generation changed''
             then Inl (PrivacyFailure ''privacy_clear_in_progress'')
             else Inl (StoreFailure (PlainError ''lock learning privacy write generation'')))"

text \<open>The checks before the operation is looked up: the device, its credential, and the generations of the packages.\<close>

definition admission :: "'r ingest_env \<Rightarrow> OfflineOperation \<Rightarrow> 'r offline_db \<Rightarrow> store_failure + OfflineIngestResult option" where
  "admission E op X =
     (case map_of (od_Devices X) (oo_DeviceID op) of
        None \<Rightarrow> Inr (Some (blockedOfflineResult op ''device_revoked''))
      | Some (revoked, epoch) \<Rightarrow>
          if revoked \<noteq> None \<or> epoch \<noteq> oo_CredentialEpoch op then Inr (Some (blockedOfflineResult op ''device_revoked''))
          else let r = db_Other (od_Store X)
            in bindE (lockLearningWriteGeneration E (oo_LearnerGeneration op) r) (\<lambda>learning.
               bindE (ie_tutoring E r) (\<lambda>tutoring.
               bindE (ie_knowledge E r) (\<lambda>knowledge.
                 Inr (if tutoring \<noteq> learning \<or> knowledge \<noteq> learning
                      then Some (blockedOfflineResult op ''content_redacted'') else None)))))"

section \<open>Replays and authorizations\<close>

definition lookupOfflineReplay :: "'r ingest_env \<Rightarrow> OfflineOperation \<Rightarrow> string \<Rightarrow> 'r db \<Rightarrow> (error + OfflineIngestResult) option" where
  "lookupOfflineReplay E op requestHash D =
     (case map_of (db_Inbox D) (oo_DeviceID op, oo_OperationID op) of
        None \<Rightarrow> None
      | Some row \<Rightarrow> Some
          (if hex_encode (ib_RequestHash row) \<noteq> requestHash
           then Inr (conflictOfflineResult op OfflineIdempotencyConflict ''idempotency_conflict'')
           else case ie_result E (ib_Result row) of
               Inl _ \<Rightarrow> Inl (PlainError ''decode offline inbox result'')
             | Inr r \<Rightarrow> Inr (r\<lparr>ir_Replayed := True\<rparr>)))"

text \<open>The reservation of the device's sequence number, joined with its authorization and the head of the submission.\<close>

definition reserved_authorization :: "'r offline_db \<Rightarrow> string \<Rightarrow> int \<Rightarrow> storedOfflineAuthorization option" where
  "reserved_authorization X device sequence =
     (case map_of (od_Reservations X) (device, sequence) of
        None \<Rightarrow> None
      | Some (operation, submission) \<Rightarrow>
          (case (map_of (od_Authorizations X) submission, map_of (od_Heads X) submission) of
             (Some a, Some h) \<Rightarrow>
               if sa_DeviceID a = device \<and> sa_DeviceSequence a = sequence \<and> sa_OperationID a = operation
                  \<and> sa_SubmissionID a = submission
               then Some (authorization_row.extend a (storedOfflineAuthorization.fields (ah_State h) (ah_AggregateVersion h)))
               else None
           | _ \<Rightarrow> None))"

definition reserved_operation :: "'r offline_db \<Rightarrow> string \<Rightarrow> string \<Rightarrow> bool" where
  "reserved_operation X device operation \<longleftrightarrow>
     list_ex (\<lambda>(_, a). sa_DeviceID a = device \<and> sa_OperationID a = operation) (od_Authorizations X)"

definition lockOfflineAuthorization ::
  "'r offline_db \<Rightarrow> OfflineOperation \<Rightarrow> error + (OfflineIngestResult + storedOfflineAuthorization)" where
  "lockOfflineAuthorization X op =
     (case reserved_authorization X (oo_DeviceID op) (int64 (int (oo_DeviceSequence op))) of
        None \<Rightarrow> Inr (Inl
          (if reserved_operation X (oo_DeviceID op) (oo_OperationID op)
           then conflictOfflineResult op OfflineIdempotencyConflict ''idempotency_conflict''
           else conflictOfflineResult op OfflineSequenceConflict ''device_sequence_conflict''))
      | Some a \<Rightarrow>
          (case jcs_text (sa_Authorization a) of
             Inl _ \<Rightarrow> Inl (PlainError ''canonicalize stored offline authorization'')
           | Inr canonical \<Rightarrow>
               let a = a\<lparr>sa_Authorization := canonical\<rparr>
               in if sa_OperationID a \<noteq> oo_OperationID op \<or> sa_SubmissionID a \<noteq> oo_SubmissionID op
                     \<or> sa_ActivityID a \<noteq> oo_OfflineActivityID op \<or> sa_ActivityRevision a \<noteq> oo_ActivityRevision op
                  then Inr (Inl (conflictOfflineResult op OfflineSequenceConflict ''device_sequence_conflict''))
                  else Inr (Inr a)))"

definition equalHash :: "string \<Rightarrow> string \<Rightarrow> bool" where
  "equalHash stored encoded \<longleftrightarrow> hex_encode stored = encoded"

definition authorization_agrees :: "storedOfflineAuthorization \<Rightarrow> OfflineOperation \<Rightarrow> bool" where
  "authorization_agrees a op \<longleftrightarrow> equalHash (sa_AuthorizationHash a) (oo_AuthorizationHash op)
     \<and> sa_Authorization a = oo_Authorization op \<and> sa_Signature a = oo_AuthorizationSig op
     \<and> sa_ExpectedVersion a = oo_ExpectedVersion op \<and> sa_CredentialEpoch a = oo_CredentialEpoch op
     \<and> sa_LearnerGeneration a = oo_LearnerGeneration op"

text \<open>The row of an activity and its references; the identifier and the revision are the key.\<close>

definition loadOfflineActivityLocked :: "'r offline_db \<Rightarrow> string \<Rightarrow> int \<Rightarrow> error + storedOfflineActivity" where
  "loadOfflineActivityLocked X i revision =
     (case map_of (od_Activities X) (i, revision) of
        None \<Rightarrow> Inl (err_reason CodeNotFound ''offline_activity_invalid'')
      | Some v \<Rightarrow>
          if act_References (sv_Activity v) = [] then Inl (err_reason CodeKnowledgeReferenceInvalid ''offline_activity_invalid'')
          else Inr (v\<lparr>sv_Activity := (sv_Activity v)\<lparr>act_ID := i, act_Revision := revision\<rparr>\<rparr>))"

section \<open>What an answer is worth\<close>

definition nil_dereference :: error where
  "nil_dereference = PlainError ''runtime error: invalid memory address or nil pointer dereference''"

text \<open>The reason an attempt is not evidence, empty when there is none: first what the activity says, then the lesson.\<close>

definition attempt_reason :: "storedOfflineActivity \<Rightarrow> OfflineAttemptPayload \<Rightarrow> time \<Rightarrow> string \<Rightarrow> string" where
  "attempt_reason v payload received knowledgeHead =
     (let a = sv_Activity v
      in if sv_EligibleUntil v < received then ''expired_activity''
         else if knowledgeHead = [] \<or> knowledgeHead \<noteq> act_KnowledgeRevisionID a then ''stale_knowledge_head''
         else if act_ActivityPolicyVersion a \<noteq> ActivityPolicyVersion \<or> act_AssessmentPolicyVersion a \<noteq> AssessmentPolicyVersion
           \<or> act_ReviewPolicyVersion a \<noteq> ReviewPolicyVersion then ''stale_policy''
         else if oa_Help payload = HelpAnswerRevealed then ''answer_revealed'' else [])"

definition context_reason :: "'r ingest_env \<Rightarrow> Activity \<Rightarrow> string \<Rightarrow> 'r \<Rightarrow> error + string" where
  "context_reason E a reason r =
     (if reason \<noteq> [] then Inr reason
      else case ie_session E (act_SessionID a) r of
          Inl _ \<Rightarrow> Inl (PlainError ''load offline source session context'')
        | Inr source \<Rightarrow> Inr
            (if ctx_GoalRevisionID (sess_Context source) \<noteq> act_GoalRevisionID a
                \<or> ctx_RouteRevisionID (sess_Context source) \<noteq> act_RouteRevisionID a then ''stale_context'' else []))"

definition offline_attempt :: "'r ingest_env \<Rightarrow> OfflineOperation \<Rightarrow> Activity \<Rightarrow> OfflineAttemptPayload \<Rightarrow> time \<Rightarrow> Attempt" where
  "offline_attempt E op a payload received =
     \<lparr>att_ID = oo_SubmissionID op, att_SessionID = act_SessionID a, att_ActivityID = act_ID a,
      att_ActivityRevision = act_Revision a, att_AnswerPayloadID = offlineID E ''attempt-payload'' (oo_SubmissionID op),
      att_Answer = oa_Answer payload, att_AnswerSHA256 = oa_AnswerSHA256 payload, att_Help = oa_Help payload,
      att_ActorDeviceID = oo_DeviceID op, att_OccurredAt = map_option zt_Instant (oo_OccurredAt op), att_ReceivedAt = received,
      att_EvidenceEligibility = False, att_EvidenceIneligibleReason = [], att_ArchiveDisposition = ''offline_succeeded'',
      att_OfflineSubmissionID = oo_SubmissionID op\<rparr>"

text \<open>An objective activity is judged at once, by its rule.\<close>

definition objective_artifact :: "'r ingest_env \<Rightarrow> OfflineOperation \<Rightarrow> Activity \<Rightarrow> time \<Rightarrow> AssessmentArtifact" where
  "objective_artifact E op a received =
     \<lparr>art_ID = offlineID E ''assessment'' (oo_SubmissionID op), art_SessionID = act_SessionID a, art_AttemptID = oo_SubmissionID op,
      art_ActivityID = act_ID a, art_ActivityRevision = act_Revision a, art_Items = [], art_RubricComplete = True,
      art_Confidence = 1000, art_RiskFlags = [], art_ModelID = ''deterministic-objective'', art_ModelParameters = [],
      art_PromptRevision = ''objective-rule-v1'',
      art_ProposalInputHash = SHA256 (se_lib (ie_store E)) (oo_SubmissionID op @ [CHR 0x0A] @ ''objective''),
      art_Attempts = 1, art_AttemptCategories = [''deterministic''], art_CreatedAt = received,
      art_EvidenceEligibility = True, art_EvidenceIneligibleReason = []\<rparr>"

definition objective_evidence ::
  "'r ingest_env \<Rightarrow> OfflineOperation \<Rightarrow> Activity \<Rightarrow> Attempt \<Rightarrow> Acceptance \<Rightarrow> time \<Rightarrow> AcceptedEvidence" where
  "objective_evidence E op a attempt acceptance received =
     \<lparr>ev_ID = offlineID E ''evidence'' (oo_SubmissionID op),
      ev_DispositionDecisionID = offlineID E ''decision'' (oo_SubmissionID op),
      ev_AssessmentID = offlineID E ''assessment'' (oo_SubmissionID op), ev_AttemptID = att_ID attempt,
      ev_ActivityID = act_ID a, ev_ActivityRevision = act_Revision a, ev_GoalRevisionID = act_GoalRevisionID a,
      ev_RouteRevisionID = act_RouteRevisionID a, ev_KnowledgeRevisionID = act_KnowledgeRevisionID a,
      ev_NodeRevisionID = act_TargetNodeRevisionID a, ev_RubricRevision = rub_Revision (act_Rubric a),
      ev_Kind = (if act_Review a then EvidenceReviewRecall else EvidencePracticeRecall), ev_ActivityType = act_Type a,
      ev_Outcome = acc_Outcome acceptance, ev_Help = att_Help attempt, ev_ReceivedAt = received, ev_AcceptedEventSequence = 0,
      ev_AcceptancePolicyVersion = AssessmentPolicyVersion, ev_ReducerPolicyVersion = MasteryReducerVersion,
      ev_ReviewPolicyVersion = ReviewPolicyVersion, ev_Misconceptions = [], ev_RubricOutcomes = []\<rparr>"

definition objective_plan :: "'r ingest_env \<Rightarrow> OfflineOperation \<Rightarrow> Attempt \<Rightarrow> time \<Rightarrow> offlinePlan \<Rightarrow> error + offlinePlan" where
  "objective_plan E op attempt received plan =
     (let a = pl_activity plan; artifact = objective_artifact E op a received
      in bindE (EvaluateAssessment (se_lib (ie_store E)) a attempt artifact) (\<lambda>acceptance.
         let e = objective_evidence E op a attempt acceptance received;
             decision = \<lparr>dec_ID = offlineID E ''decision'' (oo_SubmissionID op), dec_AssessmentID = art_ID artifact,
               dec_Version = 1, dec_Disposition = acc_Disposition acceptance, dec_Items = art_Items artifact, dec_Reason = [],
               dec_ActorDeviceID = oo_DeviceID op, dec_CreatedAt = received, dec_ReplacesDecisionID = None,
               dec_ProducedEvidenceID = Some (ev_ID e)\<rparr>
         in Inr (plan\<lparr>pl_assessment := Some artifact, pl_decision := Some decision, pl_evidence := Some e,
              pl_assessmentStatus := OfflineAssessmentCompleted, pl_evidenceStatus := OfflineEvidenceAccepted\<rparr>)))"

text \<open>An open activity is queued for the evaluation worker.\<close>

definition open_plan :: "'r ingest_env \<Rightarrow> OfflineOperation \<Rightarrow> time \<Rightarrow> offlinePlan \<Rightarrow> error + offlinePlan" where
  "open_plan E op received plan =
     (let job = offlineID E ''evaluation-job'' (oo_SubmissionID op);
          assessment = offlineID E ''assessment'' (oo_SubmissionID op);
          task = \<lparr>et_JobID = job, et_SubmissionID = oo_SubmissionID op, et_FutureAssessmentID = assessment,
            et_LearnerGeneration = oo_LearnerGeneration op\<rparr>
      in bindE (ie_message E (oo_SubmissionID op) (oo_LearnerGeneration op) (ie_print_task E task) received) (\<lambda>message.
         Inr (plan\<lparr>pl_jobID := job, pl_futureAssessmentID := assessment, pl_outboxMessage := Some message,
           pl_assessmentStatus := OfflineAssessmentQueued, pl_evidenceStatus := OfflineEvidencePendingEvaluation\<rparr>)))"

definition empty_plan :: "Activity \<Rightarrow> bool \<Rightarrow> offlinePlan" where
  "empty_plan a materialize =
     \<lparr>pl_activity = a, pl_materialize = materialize, pl_attempt = None, pl_assessment = None, pl_decision = None,
      pl_evidence = None, pl_assessmentStatus = OtherAssessmentStatus [], pl_evidenceStatus = OtherEvidenceStatus [],
      pl_reasons = [], pl_jobID = [], pl_futureAssessmentID = [], pl_outboxMessage = None, pl_evidenceClaim = False,
      pl_evidenceClaimSource = []\<rparr>"

definition won_plan :: "OfflineWinnerDecision \<Rightarrow> string \<Rightarrow> Attempt \<Rightarrow> Activity \<Rightarrow> bool \<Rightarrow> offlinePlan" where
  "won_plan winner existingWinner attempt a materialize =
     (empty_plan a materialize)\<lparr>pl_attempt := Some attempt, pl_assessmentStatus := OfflineAssessmentNotRequested,
        pl_evidenceStatus := (if wd_Reason winner = ''answer_revealed'' then OfflineEvidenceNotEligible else OfflineEvidenceProvisional),
        pl_evidenceClaim := (wd_Winner winner \<and> existingWinner = []),
        pl_evidenceClaimSource := (if wd_Winner winner then ''offline'' else []),
        pl_reasons := (if wd_Reason winner = [] then [] else [wd_Reason winner])\<rparr>"

definition planOfflineAttempt ::
  "'r ingest_env \<Rightarrow> OfflineOperation \<Rightarrow> storedOfflineActivity \<Rightarrow> time \<Rightarrow> string \<Rightarrow> string \<Rightarrow> bool \<Rightarrow> 'r \<Rightarrow> error + offlinePlan" where
  "planOfflineAttempt E op v received existingWinner knowledgeHead materialize r =
     (case oo_Attempt op of
        None \<Rightarrow> Inl nil_dereference
      | Some payload \<Rightarrow>
          let a = sv_Activity v; attempt = offline_attempt E op a payload received
          in bindE (context_reason E a (attempt_reason v payload received knowledgeHead) r) (\<lambda>reason.
             bindE (DecideOfflineWinner (ie_offline E) existingWinner (att_ID attempt) (reason = []) reason) (\<lambda>winner.
             let attempt = attempt\<lparr>att_EvidenceEligibility := wd_EvidenceEligibility winner,
                   att_EvidenceIneligibleReason := wd_Reason winner\<rparr>;
                 plan = won_plan winner existingWinner attempt a materialize
             in if wd_Reason winner \<noteq> [] then Inr plan
                else if act_Type a = ActivityObjective then objective_plan E op attempt received plan
                else if act_Type a = ActivityOpen then open_plan E op received plan
                else Inl (invalid_offline ''offline_activity_invalid''))))"

section \<open>The events of an operation\<close>

definition offlineDraft :: "EventType \<Rightarrow> OfflineOperation \<Rightarrow> Activity \<Rightarrow> string \<Rightarrow> string \<Rightarrow> EventDraft" where
  "offlineDraft kind op a evidence payload =
     \<lparr>ed_Type = kind, ed_AggregateType = ''offline_attempt'', ed_AggregateID = oo_SubmissionID op, ed_Payload = payload,
      ed_ParentSessionID = act_SessionID a, ed_Source = ''offline'', ed_ArchiveDisposition = ''succeeded'',
      ed_EvidenceDisposition = evidence, ed_GoalRevisionID = act_GoalRevisionID a,
      ed_RouteRevisionID = act_RouteRevisionID a, ed_KnowledgeRevisionID = act_KnowledgeRevisionID a,
      ed_ActivityID = act_ID a, ed_ActivityRevision = act_Revision a\<rparr>"

definition evidence_text :: "OfflineEvidenceStatus \<Rightarrow> string" where
  "evidence_text s = (case s of OfflineEvidenceAccepted \<Rightarrow> ''accepted'' | OfflineEvidenceProvisional \<Rightarrow> ''provisional''
     | OfflineEvidencePendingEvaluation \<Rightarrow> ''pending_evaluation'' | OfflineEvidenceNotEligible \<Rightarrow> ''not_eligible''
     | OfflineEvidenceNotApplicable \<Rightarrow> ''not_applicable'' | OfflineEvidenceUnchanged \<Rightarrow> ''unchanged'' | OtherEvidenceStatus t \<Rightarrow> t)"

definition decided_event :: "offlinePlan \<Rightarrow> AssessmentArtifact \<Rightarrow> AssessmentDecision \<Rightarrow> AssessmentProjectionEvent" where
  "decided_event plan m d = \<lparr>ape_AssessmentID = art_ID m, ape_NodeRevisionID = act_TargetNodeRevisionID (pl_activity plan),
     ape_Reasons = [], ape_Decision = d\<rparr>"

definition optional :: "'a option \<Rightarrow> ('a \<Rightarrow> 'b) \<Rightarrow> 'b list" where
  "optional x f = (case x of None \<Rightarrow> [] | Some y \<Rightarrow> [f y])"

definition attempt_drafts :: "'r ingest_env \<Rightarrow> OfflineOperation \<Rightarrow> offlinePlan \<Rightarrow> EventDraft list" where
  "attempt_drafts E op plan =
     (let J = se_json (ie_store E);
          draft = (\<lambda>kind. offlineDraft kind op (pl_activity plan) (evidence_text (pl_evidenceStatus plan)))
      in optional (pl_attempt plan) (\<lambda>a. draft EventOfflineAttemptSubmitted (js_attempt J a))
         @ optional (pl_assessment plan) (\<lambda>m. draft EventAssessmentRecorded (js_artifact J m))
         @ (case (pl_assessment plan, pl_decision plan) of
              (Some m, Some d) \<Rightarrow> [draft EventAssessmentAccepted (js_assessment_event J (decided_event plan m d))] | _ \<Rightarrow> [])
         @ optional (pl_evidence plan) (\<lambda>e. draft EventEvidenceAccepted (js_evidence J e))
         @ (if pl_jobID plan = [] then []
            else [draft EventOfflineAssessmentQueued (ie_print_queued E (pl_futureAssessmentID plan) (pl_jobID plan)
                    (act_TargetNodeRevisionID (pl_activity plan)))]))"

definition success_drafts :: "'r ingest_env \<Rightarrow> OfflineOperation \<Rightarrow> time \<Rightarrow> offlinePlan \<Rightarrow> error + EventDraft list" where
  "success_drafts E op received plan =
     (let draft = (\<lambda>kind. offlineDraft kind op (pl_activity plan) (evidence_text (pl_evidenceStatus plan)));
          materialized = (if pl_materialize plan
            then [draft EventOfflineActivityMaterialized (js_activity (se_json (ie_store E)) (pl_activity plan))] else [])
      in if oo_Type op = OfflineActivitySkipped then
           (case oo_Skip op of
              None \<Rightarrow> Inl nil_dereference
            | Some k \<Rightarrow> Inr (materialized @ [draft EventOfflineActivitySkipped (ie_print_skipped E op (os_Reason k) received)]))
         else Inr (materialized @ attempt_drafts E op plan))"

section \<open>Writing\<close>

text \<open>\<open>insertOfflineAttemptRecords\<close>; the key of the claims refuses a second claim.\<close>

definition targetReference :: "Activity \<Rightarrow> KnowledgeReference option" where
  "targetReference a = find (\<lambda>w. ref_KnowledgeRevisionID w = act_KnowledgeRevisionID a \<and> ref_NodeID w = act_TargetNodeID a
     \<and> ref_NodeRevisionID w = act_TargetNodeRevisionID a \<and> ref_DocumentRevisionID w \<noteq> []) (act_References a)"

definition claim_evidence :: "offlinePlan \<Rightarrow> Attempt \<Rightarrow> 'r db \<Rightarrow> error + 'r db" where
  "claim_evidence plan a D =
     (let k = (att_ActivityID a, att_ActivityRevision a)
      in if \<not> pl_evidenceClaim plan then Inr D
         else if map_of (db_Claims D) k \<noteq> None then Inl (PlainError ''insert offline activity evidence claim'')
         else Inr (D\<lparr>db_Claims := AList.update k (att_ID a) (db_Claims D)\<rparr>))"

definition insert_judgement :: "'r ingest_env \<Rightarrow> offlinePlan \<Rightarrow> 'r \<Rightarrow> error + 'r" where
  "insert_judgement E plan r =
     (case (pl_assessment plan, pl_decision plan) of
        (Some m, Some d) \<Rightarrow>
          bindE (ie_insert_assessment E m d r) (\<lambda>r.
          case pl_evidence plan of
            None \<Rightarrow> Inr r
          | Some e \<Rightarrow>
              (case targetReference (pl_activity plan) of
                 None \<Rightarrow> Inl (err_reason CodeKnowledgeReferenceInvalid ''offline_activity_invalid'')
               | Some w \<Rightarrow> ie_insert_evidence E e (act_SessionID (pl_activity plan)) w r))
      | _ \<Rightarrow> Inr r)"

definition insertOfflineAttemptRecords :: "'r ingest_env \<Rightarrow> offlinePlan \<Rightarrow> 'r db \<Rightarrow> error + 'r db" where
  "insertOfflineAttemptRecords E plan D =
     (case pl_attempt plan of
        None \<Rightarrow> Inr D
      | Some a \<Rightarrow>
          if decodeHash (att_AnswerSHA256 a) = None then Inl invalid_hash
          else
            bindE (ie_insert_attempt E a (db_Other D)) (\<lambda>r.
            bindE (claim_evidence plan a (D\<lparr>db_Other := r, db_Attempts := AList.update (att_ID a)
                     (att_EvidenceEligibility a, att_EvidenceIneligibleReason a) (db_Attempts D)\<rparr>)) (\<lambda>D.
            bindE (insert_judgement E plan (db_Other D)) (\<lambda>r. Inr (D\<lparr>db_Other := r\<rparr>)))))"

text \<open>The evaluation of an open answer: its message in the outbox and its job, with the checks of the job table.\<close>

definition job_insertable :: "(string, evaluation_job) gomap \<Rightarrow> string \<Rightarrow> evaluation_job \<Rightarrow> time \<Rightarrow> bool" where
  "job_insertable jobs i j created \<longleftrightarrow> created \<le> ej_RetryDeadline j
     \<and> list_all (\<lambda>(k, x). k \<noteq> i \<and> ej_SubmissionID x \<noteq> ej_SubmissionID j \<and> ej_AttemptID x \<noteq> ej_AttemptID j
          \<and> ej_OutboxID x \<noteq> ej_OutboxID j) jobs"

definition enqueue_evaluation ::
  "'r ingest_env \<Rightarrow> OfflineOperation \<Rightarrow> storedOfflineAuthorization \<Rightarrow> time \<Rightarrow> offlinePlan \<Rightarrow> 'r offline_db \<Rightarrow> error + 'r offline_db" where
  "enqueue_evaluation E op a received plan X =
     (case (pl_outboxMessage plan, pl_attempt plan) of
        (Some message, Some attempt) \<Rightarrow>
          bindE (ie_enqueue E message (db_Other (od_Store X))) (\<lambda>r.
          bindE (canonicalJSON (ie_store E) (ie_print_frozen E (pl_activity plan) attempt (pl_futureAssessmentID plan))) (\<lambda>frozen.
          let week = received + 7 * 24 * hour;
              job = \<lparr>ej_SubmissionID = oo_SubmissionID op, ej_AttemptID = att_ID attempt,
                ej_LearnerGeneration = oo_LearnerGeneration op, ej_FrozenRequest = frozen,
                ej_FrozenHash = lib_sha256 (se_lib (ie_store E)) frozen, ej_OutboxID = om_ID message,
                ej_AvailableAt = received, ej_RetryDeadline = (if sa_ArchiveUntil a < week then sa_ArchiveUntil a else week)\<rparr>
          in if job_insertable (od_Jobs X) (pl_jobID plan) job received
             then Inr (X\<lparr>od_Store := (od_Store X)\<lparr>db_Other := r\<rparr>, od_Jobs := AList.update (pl_jobID plan) job (od_Jobs X)\<rparr>)
             else Inl (PlainError ''insert offline evaluation job'')))
      | _ \<Rightarrow> Inr X)"

definition stamp_evidence :: "'r ingest_env \<Rightarrow> int \<Rightarrow> EventDraft list \<Rightarrow> offlinePlan \<Rightarrow> EventDraft list \<times> offlinePlan" where
  "stamp_evidence E first drafts plan =
     (case pl_evidence plan of
        None \<Rightarrow> (drafts, plan)
      | Some e \<Rightarrow>
          let stamp = (\<lambda>n. e\<lparr>ev_AcceptedEventSequence := int64 (first + int n)\<rparr>);
              ordinals = filter (\<lambda>n. ed_Type (drafts ! n) = EventEvidenceAccepted) [0..<length drafts]
          in (map (\<lambda>n. let d = drafts ! n in if ed_Type d = EventEvidenceAccepted
                        then d\<lparr>ed_Payload := js_evidence (se_json (ie_store E)) (stamp n)\<rparr> else d) [0..<length drafts],
              if ordinals = [] then plan else plan\<lparr>pl_evidence := Some (stamp (last ordinals))\<rparr>))"

definition offline_event :: "'r ingest_env \<Rightarrow> OfflineOperation \<Rightarrow> time \<Rightarrow> int \<Rightarrow> nat \<Rightarrow> EventDraft \<Rightarrow> string \<Rightarrow> LearningEvent" where
  "offline_event E op received sequence ordinal d payload =
     (let i = offlineID E (''event-'' @ nat_text ordinal) (oo_OperationID op)
      in \<lparr>le_EventSequence = sequence, le_ID = i, le_Type = ed_Type d, le_SchemaVersion = EventSchemaVersion,
          le_AggregateType = ''offline_attempt'', le_AggregateID = oo_SubmissionID op, le_AggregateVersion = int ordinal + 1,
          le_DeviceID = oo_DeviceID op, le_OperationID = oo_OperationID op, le_OperationOrdinal = int ordinal,
          le_ReceivedAt = received, le_OccurredAt = map_option zt_Instant (oo_OccurredAt op),
          le_PayloadID = offlineID E ''event-payload'' i, le_PayloadHash = SHA256 (se_lib (ie_store E)) payload,
          le_Payload = payload, le_ParentSessionID = ed_ParentSessionID d, le_Source = ''offline'',
          le_ArchiveDisposition = ed_ArchiveDisposition d, le_EvidenceDisposition = ed_EvidenceDisposition d,
          le_GoalRevisionID = ed_GoalRevisionID d, le_RouteRevisionID = ed_RouteRevisionID d,
          le_KnowledgeRevisionID = ed_KnowledgeRevisionID d, le_ActivityID = ed_ActivityID d,
          le_ActivityRevision = ed_ActivityRevision d, le_Redacted = False\<rparr>)"

fun insert_offline_events ::
  "'r ingest_env \<Rightarrow> OfflineOperation \<Rightarrow> time \<Rightarrow> int \<Rightarrow> nat \<Rightarrow> EventDraft list \<Rightarrow> LearningEvent list \<Rightarrow> error + LearningEvent list" where
  "insert_offline_events E op received first ordinal [] log = Inr log"
| "insert_offline_events E op received first ordinal (d # ds) log =
     (case canonicalJSON (ie_store E) (ed_Payload d) of
        Inl e \<Rightarrow> Inl (err_cause CodeInvalidRequest ''invalid_offline_event_payload'' (Some e))
      | Inr payload \<Rightarrow>
          let event = offline_event E op received (int64 (first + int ordinal)) ordinal d payload
          in if event_insertable log event then insert_offline_events E op received first (Suc ordinal) ds (log @ [event])
             else Inl (PlainError ''insert offline event''))"

text \<open>Claiming the sequence number, with the keys of the claims, and settling the head where it is still reserved.\<close>

definition claim_sequence :: "OfflineOperation \<Rightarrow> string \<Rightarrow> bool \<Rightarrow> 'r offline_db \<Rightarrow> error + 'r offline_db" where
  "claim_sequence op requestHash refused X =
     (let k = (oo_DeviceID op, int64 (int (oo_DeviceSequence op)));
          c = \<lparr>sq_OperationID = oo_OperationID op, sq_SubmissionID = oo_SubmissionID op, sq_OperationHash = requestHash,
            sq_Rejected = refused\<rparr>
      in if list_ex (\<lambda>(j, x). j = k \<or> fst j = oo_DeviceID op \<and> sq_OperationID x = oo_OperationID op
              \<or> sq_SubmissionID x = oo_SubmissionID op) (od_SequenceClaims X)
         then Inl (PlainError ''claim offline device sequence'')
         else Inr (X\<lparr>od_SequenceClaims := AList.update k c (od_SequenceClaims X)\<rparr>))"

definition settle_head :: "OfflineOperation \<Rightarrow> OfflineSubmissionState \<Rightarrow> int \<Rightarrow> int \<Rightarrow> int \<Rightarrow> 'r offline_db \<Rightarrow> 'r offline_db" where
  "settle_head op st version first final X =
     (case map_of (od_Heads X) (oo_SubmissionID op) of
        None \<Rightarrow> X
      | Some h \<Rightarrow>
          if ah_State h \<noteq> OfflineSubmissionReserved then X
          else X\<lparr>od_Heads := AList.update (oo_SubmissionID op) \<lparr>ah_State = st, ah_TerminalOperationID = oo_OperationID op,
                 ah_AggregateVersion = version, ah_FirstEventSeq = first, ah_LastEventSeq = final\<rparr> (od_Heads X)\<rparr>)"

definition offline_result ::
  "'r ingest_env \<Rightarrow> OfflineOperation \<Rightarrow> OfflineArchiveStatus \<Rightarrow> OfflineAssessmentStatus \<Rightarrow> OfflineEvidenceStatus \<Rightarrow> string list
    \<Rightarrow> time \<Rightarrow> int \<Rightarrow> int \<Rightarrow> int \<Rightarrow> offlinePlan \<Rightarrow> OfflineIngestResult" where
  "offline_result E op archive assessment evidence reasons received version first final plan =
     (let decimal = (\<lambda>n. decimal_or_empty (uint64 n));
          ticket = \<lparr>tk_TicketID = offlineID E ''status-ticket'' (oo_OperationID op), tk_OperationID = oo_OperationID op,
            tk_Revision = ''1'', tk_UpdatedAt = received\<rparr>
      in \<lparr>ir_ResultKind = OfflineResultArchived, ir_OperationID = oo_OperationID op,
          ir_DeviceSequence = decimal_or_empty (oo_DeviceSequence op), ir_SubmissionID = oo_SubmissionID op,
          ir_ArchiveStatus = archive, ir_AssessmentStatus = assessment, ir_EvidenceStatus = evidence,
          ir_ReasonCodes = reasons, ir_Replayed = False,
          ir_Receipt = Some \<lparr>rc_ReceiptID = offlineID E ''ingest-receipt'' (oo_OperationID op), rc_ArchivedAt = received,
            rc_AggregateVersion = decimal version, rc_FirstEventSequence = decimal first, rc_LastEventSequence = decimal final,
            rc_ProjectionAsOf = decimal final, rc_ArchiveStatus = archive\<rparr>,
          ir_StatusTicket = (if archive = OfflineArchivedSucceeded then Some ticket else None),
          ir_AssessmentID = (case pl_assessment plan of None \<Rightarrow> [] | Some m \<Rightarrow> art_ID m),
          ir_EvidenceID = (case pl_evidence plan of None \<Rightarrow> [] | Some e \<Rightarrow> ev_ID e)\<rparr>)"

definition open_ticket ::
  "'r ingest_env \<Rightarrow> OfflineOperation \<Rightarrow> OfflineIngestResult \<Rightarrow> int \<Rightarrow> int \<Rightarrow> int \<Rightarrow> 'r offline_db \<Rightarrow> error + 'r offline_db" where
  "open_ticket E op r version first final X =
     (let i = offlineID E ''status-ticket'' (oo_OperationID op);
          t = \<lparr>to_DeviceID = oo_DeviceID op, to_OperationID = oo_OperationID op, to_SubmissionID = oo_SubmissionID op,
            to_ReceiptID = offlineID E ''ingest-receipt'' (oo_OperationID op),
            to_RevisionID = offlineID E ''status-revision-1'' (oo_OperationID op), to_ArchiveStatus = ir_ArchiveStatus r,
            to_AssessmentStatus = ir_AssessmentStatus r, to_EvidenceStatus = ir_EvidenceStatus r,
            to_ReasonCodes = ir_ReasonCodes r, to_AggregateVersion = version, to_FirstEventSeq = first, to_LastEventSeq = final,
            to_AssessmentID = ir_AssessmentID r, to_EvidenceID = ir_EvidenceID r\<rparr>
      in if list_ex (\<lambda>(j, x). j = i \<or> to_DeviceID x = oo_DeviceID op \<and> to_OperationID x = oo_OperationID op
              \<or> to_ReceiptID x = to_ReceiptID t \<or> to_RevisionID x = to_RevisionID t) (od_Tickets X)
         then Inl (PlainError ''insert offline operation status'')
         else Inr (X\<lparr>od_Tickets := AList.update i t (od_Tickets X)\<rparr>))"

section \<open>The end of an operation\<close>

definition set_store :: "'r db \<Rightarrow> 'r offline_db \<Rightarrow> 'r offline_db" where
  "set_store D X = X\<lparr>od_Store := D\<rparr>"

text \<open>The events, the claim of the sequence number, the heads, the clock and the projection.\<close>

definition append_offline_events ::
  "'r ingest_env \<Rightarrow> OfflineOperation \<Rightarrow> string \<Rightarrow> bool \<Rightarrow> time \<Rightarrow> EventDraft list \<Rightarrow> 'r offline_db \<Rightarrow> error + 'r offline_db" where
  "append_offline_events E op requestHash refused received drafts X =
     (let first = int64 (db_Clock (od_Store X) + 1);
          final = int64 (first + int (length drafts) - 1);
          version = int (length drafts);
          st = (if refused then OfflineSubmissionClaimedRejected else OfflineSubmissionClaimedSucceeded)
      in bindE (insert_offline_events E op received first 0 drafts (db_Events (od_Store X))) (\<lambda>log.
         bindE (claim_sequence op requestHash refused (set_store ((od_Store X)\<lparr>db_Events := log\<rparr>) X)) (\<lambda>X.
         let X = settle_head op st version first final X;
             D = (od_Store X)\<lparr>db_Heads := AList.update (''offline_attempt'', oo_SubmissionID op) version (db_Heads (od_Store X)),
                    db_Clock := final\<rparr>
         in bindE (project_commit (ie_store E) final D) (\<lambda>D. Inr (set_store D X)))))"

definition archive_offline ::
  "'r ingest_env \<Rightarrow> OfflineOperation \<Rightarrow> string \<Rightarrow> bool \<Rightarrow> OfflineIngestResult \<Rightarrow> 'r offline_db \<Rightarrow> 'r offline_db" where
  "archive_offline E op requestHash refused r X =
     set_store ((od_Store X)\<lparr>db_Inbox := ((oo_DeviceID op, oo_OperationID op),
        \<lparr>ib_RequestHash = requestHash, ib_Rejected = refused, ib_AggregateType = ''offline_attempt'',
         ib_AggregateID = oo_SubmissionID op, ib_Result = ie_print_result E r\<rparr>) # db_Inbox (od_Store X)\<rparr>) X"

definition persistOfflineTerminal ::
  "'r ingest_env \<Rightarrow> OfflineOperation \<Rightarrow> storedOfflineAuthorization \<Rightarrow> string \<Rightarrow> time \<Rightarrow> OfflineArchiveStatus
    \<Rightarrow> OfflineAssessmentStatus \<Rightarrow> OfflineEvidenceStatus \<Rightarrow> string list \<Rightarrow> EventDraft list \<Rightarrow> offlinePlan \<Rightarrow> 'r offline_db
    \<Rightarrow> error + (OfflineIngestResult \<times> 'r offline_db)" where
  "persistOfflineTerminal E op a requestHash received archive assessment evidence reasons drafts plan X =
     checkE (ValidateOfflineResultCombination archive assessment evidence)
       (if drafts = [] then Inl (invalid_offline ''empty_offline_event_batch'')
        else
          let first = int64 (db_Clock (od_Store X) + 1);
              final = int64 (first + int (length drafts) - 1);
              version = int (length drafts);
              refused = (archive = OfflineArchivedRejected);
              (drafts, plan) = stamp_evidence E first drafts plan
          in bindE (insertOfflineAttemptRecords E plan (od_Store X)) (\<lambda>D.
             bindE (enqueue_evaluation E op a received plan (set_store D X)) (\<lambda>X.
             bindE (append_offline_events E op requestHash refused received drafts X) (\<lambda>X.
             let r = offline_result E op archive assessment evidence reasons received version first final plan
             in checkE (ValidateIngestResult (ie_offline E) r)
                  (bindE (open_ticket E op r version first final (archive_offline E op requestHash refused r X)) (\<lambda>X.
                     Inr (r, X)))))))"

text \<open>The activity is copied to the learning tables unless it stands there already.\<close>

definition materialize_activity :: "'r ingest_env \<Rightarrow> Activity \<Rightarrow> 'r offline_db \<Rightarrow> error + (bool \<times> 'r offline_db)" where
  "materialize_activity E a X =
     (let D = od_Store X
      in bindE (ie_materialized E a (db_Other D)) (\<lambda>materialized.
         if materialized then Inr (True, X)
         else bindE (ie_materialize E a (db_Other D)) (\<lambda>r. Inr (False, set_store (D\<lparr>db_Other := r\<rparr>) X))))"

definition commitOfflineRejection ::
  "'r ingest_env \<Rightarrow> OfflineOperation \<Rightarrow> storedOfflineAuthorization \<Rightarrow> string \<Rightarrow> time \<Rightarrow> string \<Rightarrow> 'r offline_db
    \<Rightarrow> error + (OfflineIngestResult \<times> 'r offline_db)" where
  "commitOfflineRejection E op a requestHash received reason X =
     bindE (loadOfflineActivityLocked X (sa_ActivityID a) (sa_ActivityRevision a)) (\<lambda>v.
     bindE (materialize_activity E (sv_Activity v) X) (\<lambda>(_, X).
       let draft = (offlineDraft EventOfflineOperationRejected op (sv_Activity v) (evidence_text OfflineEvidenceUnchanged)
             (ie_print_rejected E op reason received))\<lparr>ed_ArchiveDisposition := ''rejected''\<rparr>
       in persistOfflineTerminal E op a requestHash received OfflineArchivedRejected OfflineAssessmentNotRequested
            OfflineEvidenceUnchanged [reason] [draft] (empty_plan (sv_Activity v) False) X))"

definition commitOfflineSuccess ::
  "'r ingest_env \<Rightarrow> OfflineOperation \<Rightarrow> storedOfflineAuthorization \<Rightarrow> string \<Rightarrow> time \<Rightarrow> offlinePlan \<Rightarrow> 'r offline_db
    \<Rightarrow> error + (OfflineIngestResult \<times> 'r offline_db)" where
  "commitOfflineSuccess E op a requestHash received plan X =
     bindE (success_drafts E op received plan) (\<lambda>drafts.
       persistOfflineTerminal E op a requestHash received OfflineArchivedSucceeded (pl_assessmentStatus plan)
         (pl_evidenceStatus plan) (pl_reasons plan) drafts plan X)"

section \<open>IngestOffline\<close>

text \<open>What a locked operation comes to: a blocked answer without a trace, or an archived one.\<close>

definition settle_attempt ::
  "'r ingest_env \<Rightarrow> OfflineOperation \<Rightarrow> storedOfflineAuthorization \<Rightarrow> string \<Rightarrow> time \<Rightarrow> string \<Rightarrow> storedOfflineActivity
    \<Rightarrow> string \<Rightarrow> 'r offline_db \<Rightarrow> error + (OfflineIngestResult \<times> 'r offline_db)" where
  "settle_attempt E op a requestHash received existingWinner v knowledgeHead X =
     bindE (materialize_activity E (sv_Activity v) X) (\<lambda>(materialized, X).
       if oo_Type op = OfflineActivitySkipped
       then commitOfflineSuccess E op a requestHash received
              ((empty_plan (sv_Activity v) (\<not> materialized))\<lparr>pl_assessmentStatus := OfflineAssessmentNotRequested,
                 pl_evidenceStatus := OfflineEvidenceNotApplicable\<rparr>) X
       else bindE (planOfflineAttempt E op v received existingWinner knowledgeHead (\<not> materialized) (db_Other (od_Store X)))
              (\<lambda>plan. commitOfflineSuccess E op a requestHash received plan X))"

definition settle_operation ::
  "'r ingest_env \<Rightarrow> OfflineOperation \<Rightarrow> storedOfflineAuthorization \<Rightarrow> string \<Rightarrow> time \<Rightarrow> 'r offline_db
    \<Rightarrow> error + (OfflineIngestResult \<times> 'r offline_db)" where
  "settle_operation E op a requestHash received X =
     (let version = head_version (od_Store X) (''offline_attempt'', oo_SubmissionID op);
          existingWinner = (case map_of (db_Claims (od_Store X)) (oo_OfflineActivityID op, oo_ActivityRevision op) of
            None \<Rightarrow> [] | Some w \<Rightarrow> w)
      in if sa_HeadState a \<noteq> OfflineSubmissionReserved \<or> version \<noteq> 0
         then commitOfflineRejection E op a requestHash received ''version_conflict'' X
         else
           bindE (loadOfflineActivityLocked X (sa_ActivityID a) (sa_ActivityRevision a)) (\<lambda>v.
           bindE (ie_scope E (act_GoalRevisionID (sv_Activity v)) (db_Other (od_Store X))) (\<lambda>r.
           let scoped = set_store ((od_Store X)\<lparr>db_Other := r\<rparr>) X
           in if sv_LearnerGeneration v \<noteq> oo_LearnerGeneration op \<or> act_ID (sv_Activity v) \<noteq> oo_OfflineActivityID op
                 \<or> sa_ArchiveUntil a < received \<or> sv_ArchiveUntil v < received
              then commitOfflineRejection E op a requestHash received ''authorization_expired'' scoped
              else case ie_knowledge_head E (act_KnowledgeRevisionID (sv_Activity v)) r of
                  Inl _ \<Rightarrow> Inr (blockedOfflineResult op ''offline_activity_invalid'', X)
                | Inr (redacted, knowledgeHead) \<Rightarrow>
                    if redacted then Inr (blockedOfflineResult op ''content_redacted'', X)
                    else settle_attempt E op a requestHash received existingWinner v knowledgeHead scoped)))"

definition ingest_body ::
  "'r ingest_env \<Rightarrow> time \<Rightarrow> OfflineOperation \<Rightarrow> string \<Rightarrow> 'r offline_db \<Rightarrow> store_failure + (OfflineIngestResult \<times> 'r offline_db)" where
  "ingest_body E now op requestHash X =
     bindE (admission E op X) (\<lambda>blocked.
     case blocked of
       Some r \<Rightarrow> Inr (r, X)
     | None \<Rightarrow>
         (case lookupOfflineReplay E op requestHash (od_Store X) of
            Some found \<Rightarrow> bindE (plain found) (\<lambda>r. Inr (r, X))
          | None \<Rightarrow>
              bindE (plain (lockOfflineAuthorization X op)) (\<lambda>found.
              case found of
                Inl conflict \<Rightarrow> Inr (conflict, X)
              | Inr a \<Rightarrow>
                  if \<not> authorization_agrees a op then Inr (blockedOfflineResult op ''authorization_invalid'', X)
                  else plain (settle_operation E op a (case hex_decode requestHash of None \<Rightarrow> [] | Some bs \<Rightarrow> bs)
                         (trunc_microsecond now) X))))"

definition IngestOffline ::
  "'r ingest_env \<Rightarrow> time \<Rightarrow> OfflineOperation \<Rightarrow> 'r offline_db \<Rightarrow> (store_failure + OfflineIngestResult) \<times> 'r offline_db" where
  "IngestOffline E now op X =
     (case checkE (ValidateOffline (ie_offline E) op) (CanonicalHash (ie_offline E) op) of
        Inl e \<Rightarrow> (Inl (StoreFailure e), X)
      | Inr requestHash \<Rightarrow>
          (case ingest_body E now op requestHash X of
             Inl f \<Rightarrow> (Inl f, X)
           | Inr (r, X') \<Rightarrow> (Inr r, X')))"

end
