(* ===== verification/Offline_Settled.thy ===== *)
theory Offline_Settled
  imports Offline_Ingest
begin

text \<open>
  What archiving an uploaded operation does to the tables, and what stays so however operations of devices
  and of the online service follow each other.
\<close>

section \<open>What each step writes\<close>

lemma set_store_simps [simp]:
  "od_Store (set_store D X) = D" "od_Devices (set_store D X) = od_Devices X" "od_Reservations (set_store D X) = od_Reservations X"
  "od_Authorizations (set_store D X) = od_Authorizations X" "od_Heads (set_store D X) = od_Heads X"
  "od_SequenceClaims (set_store D X) = od_SequenceClaims X" "od_Activities (set_store D X) = od_Activities X"
  "od_Tickets (set_store D X) = od_Tickets X" "od_Jobs (set_store D X) = od_Jobs X"
  "set_store D (set_store D' X) = set_store D X"
  by (simp_all add: set_store_def)

lemma set_store_id [simp]: "set_store (od_Store X) X = X"
  by (simp add: set_store_def)

text \<open>The claims after an operation with a plan: at most one new claim, for an activity that had none.\<close>

definition claims_written :: "offlinePlan \<Rightarrow> (string \<times> int, string) gomap \<Rightarrow> (string \<times> int, string) gomap \<Rightarrow> bool" where
  "claims_written plan old new \<longleftrightarrow>
     (case pl_attempt plan of
        None \<Rightarrow> new = old
      | Some a \<Rightarrow> let k = (att_ActivityID a, att_ActivityRevision a)
          in if pl_evidenceClaim plan then map_of old k = None \<and> new = AList.update k (att_ID a) old else new = old)"

lemma claims_written_cong:
  "pl_attempt plan = pl_attempt plan' \<Longrightarrow> pl_evidenceClaim plan = pl_evidenceClaim plan' \<Longrightarrow>
   claims_written plan old new = claims_written plan' old new"
  by (cases "pl_attempt plan'") (simp_all add: claims_written_def Let_def)

lemma claim_evidence_Inr:
  assumes "claim_evidence plan a D = Inr D'"
  shows "D' = D\<lparr>db_Claims := db_Claims D'\<rparr>"
    and "(if pl_evidenceClaim plan then map_of (db_Claims D) (att_ActivityID a, att_ActivityRevision a) = None
           \<and> db_Claims D' = AList.update (att_ActivityID a, att_ActivityRevision a) (att_ID a) (db_Claims D)
         else db_Claims D' = db_Claims D)"
  using assms by (auto simp: claim_evidence_def Let_def split: if_splits)

lemma insertOfflineAttemptRecords_frame:
  assumes "insertOfflineAttemptRecords E plan D = Inr D'"
  shows "D' = D\<lparr>db_Claims := db_Claims D', db_Attempts := db_Attempts D', db_Other := db_Other D'\<rparr>"
    and "claims_written plan (db_Claims D) (db_Claims D')"
proof -
  have "D' = D\<lparr>db_Claims := db_Claims D', db_Attempts := db_Attempts D', db_Other := db_Other D'\<rparr>
    \<and> claims_written plan (db_Claims D) (db_Claims D')"
  proof (cases "pl_attempt plan")
    case None
    with assms show ?thesis by (simp add: insertOfflineAttemptRecords_def claims_written_def)
  next
    case (Some a)
    from assms Some obtain r F q where
      f: "claim_evidence plan a (D\<lparr>db_Other := r, db_Attempts := AList.update (att_ID a)
             (att_EvidenceEligibility a, att_EvidenceIneligibleReason a) (db_Attempts D)\<rparr>) = Inr F"
      and d': "D' = F\<lparr>db_Other := q\<rparr>"
      by (auto simp: insertOfflineAttemptRecords_def split: if_splits)
    from claim_evidence_Inr [OF f] show ?thesis
      by (cases "pl_evidenceClaim plan") (simp_all add: Some d' claims_written_def Let_def)
  qed
  then show "D' = D\<lparr>db_Claims := db_Claims D', db_Attempts := db_Attempts D', db_Other := db_Other D'\<rparr>"
    and "claims_written plan (db_Claims D) (db_Claims D')" by blast+
qed

lemma enqueue_evaluation_frame:
  assumes "enqueue_evaluation E op a received plan X = Inr X'"
  shows "\<exists>r js. X' = X\<lparr>od_Store := (od_Store X)\<lparr>db_Other := r\<rparr>, od_Jobs := js\<rparr>"
proof (cases "pl_outboxMessage plan = None \<or> pl_attempt plan = None")
  case True
  then have "X' = X" using assms by (auto simp: enqueue_evaluation_def split: option.splits)
  then show ?thesis by (intro exI [of _ "db_Other (od_Store X)"] exI [of _ "od_Jobs X"]) simp
next
  case False
  with assms show ?thesis
    by (auto simp: enqueue_evaluation_def Let_def split: if_splits) blast+
qed

lemma settle_head_simps [simp]:
  "od_Store (settle_head op st v f l X) = od_Store X" "od_Devices (settle_head op st v f l X) = od_Devices X"
  "od_Reservations (settle_head op st v f l X) = od_Reservations X"
  "od_Authorizations (settle_head op st v f l X) = od_Authorizations X"
  "od_SequenceClaims (settle_head op st v f l X) = od_SequenceClaims X" "od_Activities (settle_head op st v f l X) = od_Activities X"
  "od_Tickets (settle_head op st v f l X) = od_Tickets X" "od_Jobs (settle_head op st v f l X) = od_Jobs X"
  by (simp_all add: settle_head_def split: option.split)

lemma claim_sequence_Inr:
  assumes "claim_sequence op h refused X = Inr X'"
  shows "X' = X\<lparr>od_SequenceClaims := AList.update (oo_DeviceID op, int64 (int (oo_DeviceSequence op)))
      \<lparr>sq_OperationID = oo_OperationID op, sq_SubmissionID = oo_SubmissionID op, sq_OperationHash = h, sq_Rejected = refused\<rparr>
      (od_SequenceClaims X)\<rparr>"
    and "\<forall>(j, c) \<in> set (od_SequenceClaims X). j \<noteq> (oo_DeviceID op, int64 (int (oo_DeviceSequence op)))
      \<and> sq_SubmissionID c \<noteq> oo_SubmissionID op"
  using assms by (auto simp: claim_sequence_def Let_def list_ex_iff split: if_splits)

lemma open_ticket_frame:
  "open_ticket E op r v f l X = Inr X' \<Longrightarrow> X' = X\<lparr>od_Tickets := od_Tickets X'\<rparr>"
  by (auto simp: open_ticket_def Let_def split: if_splits)

lemma stamp_evidence_keeps:
  assumes "stamp_evidence E first drafts plan = (ds, plan')"
  shows "map ed_Type ds = map ed_Type drafts" "length ds = length drafts" "pl_attempt plan' = pl_attempt plan"
    "pl_evidenceClaim plan' = pl_evidenceClaim plan"
proof -
  have "map ed_Type ds = map ed_Type drafts \<and> length ds = length drafts"
    using assms by (auto simp: stamp_evidence_def Let_def comp_def map_nth split: option.splits if_splits intro!: nth_equalityI)
  then show "map ed_Type ds = map ed_Type drafts" "length ds = length drafts" by blast+
  show "pl_attempt plan' = pl_attempt plan" "pl_evidenceClaim plan' = pl_evidenceClaim plan"
    using assms by (auto simp: stamp_evidence_def Let_def split: option.splits if_splits)
qed

section \<open>The events of an operation\<close>

abbreviation attempt_key :: "OfflineOperation \<Rightarrow> akey" where
  "attempt_key op \<equiv> (''offline_attempt'', oo_SubmissionID op)"

lemma offline_event_fields [simp]:
  "le_EventSequence (offline_event E op received n i d payload) = n"
  "le_AggregateVersion (offline_event E op received n i d payload) = int i + 1"
  "le_AggregateType (offline_event E op received n i d payload) = ''offline_attempt''"
  "le_AggregateID (offline_event E op received n i d payload) = oo_SubmissionID op"
  "le_Type (offline_event E op received n i d payload) = ed_Type d"
  "le_DeviceID (offline_event E op received n i d payload) = oo_DeviceID op"
  "le_OperationID (offline_event E op received n i d payload) = oo_OperationID op"
  by (simp_all add: offline_event_def Let_def)

lemma insert_offline_events_Inr:
  "insert_offline_events E op received first i ds log = Inr log' \<Longrightarrow>
   \<exists>es. log' = log @ es \<and> map le_EventSequence es = map (\<lambda>n. int64 (first + int n)) [i..<i + length ds]
     \<and> map le_AggregateVersion es = map (\<lambda>n. int n + 1) [i..<i + length ds] \<and> map le_Type es = map ed_Type ds
     \<and> (\<forall>e \<in> set es. agg_key e = attempt_key op \<and> le_DeviceID e = oo_DeviceID op \<and> le_OperationID e = oo_OperationID op
          \<and> 1 \<le> le_EventSequence e)
     \<and> (ds \<noteq> [] \<longrightarrow> int i + 1 \<notin> set (agg_versions (attempt_key op) log))"
proof (induction ds arbitrary: i log)
  case (Cons d ds)
  obtain payload where p: "canonicalJSON (ie_store E) (ed_Payload d) = Inr payload"
    using Cons.prems by (auto split: sum.splits)
  let ?e = "offline_event E op received (int64 (first + int i)) i d payload"
  have ok: "event_insertable log ?e" and rest: "insert_offline_events E op received first (Suc i) ds (log @ [?e]) = Inr log'"
    using Cons.prems p by (auto simp: Let_def split: if_splits)
  obtain es where es: "log' = (log @ [?e]) @ es" "map le_EventSequence es = map (\<lambda>n. int64 (first + int n)) [Suc i..<Suc i + length ds]"
    "map le_AggregateVersion es = map (\<lambda>n. int n + 1) [Suc i..<Suc i + length ds]" "map le_Type es = map ed_Type ds"
    "\<forall>e \<in> set es. agg_key e = attempt_key op \<and> le_DeviceID e = oo_DeviceID op \<and> le_OperationID e = oo_OperationID op
          \<and> 1 \<le> le_EventSequence e"
    using Cons.IH [OF rest] by blast
  have upt: "[i..<i + length (d # ds)] = i # [Suc i..<Suc i + length ds]" by (simp add: upt_conv_Cons del: upt_Suc)
  have "1 \<le> le_EventSequence ?e" using event_insertable_positive [OF ok] by simp
  moreover have "int i + 1 \<notin> set (agg_versions (attempt_key op) log)"
    using ok by (auto simp: event_insertable_def agg_versions_def)
  ultimately show ?case
    by (intro exI [of _ "?e # es"]) (use es upt in \<open>simp del: upt_Suc\<close>)
qed simp

section \<open>An archived operation\<close>

text \<open>
  Everything that \<open>persistOfflineTerminal\<close> leaves behind. \<open>final\<close> and \<open>version\<close> are the last number and the number of
  its events.
\<close>

lemma append_offline_events_Inr:
  assumes "append_offline_events E op h refused received drafts X = Inr Y"
  obtains log final where
    "insert_offline_events E op received (int64 (db_Clock (od_Store X) + 1)) 0 drafts (db_Events (od_Store X)) = Inr log"
    "final = int64 (int64 (db_Clock (od_Store X) + 1) + int (length drafts) - 1)"
    "\<forall>(j, c) \<in> set (od_SequenceClaims X). j \<noteq> (oo_DeviceID op, int64 (int (oo_DeviceSequence op)))
      \<and> sq_SubmissionID c \<noteq> oo_SubmissionID op"
    "od_SequenceClaims Y = AList.update (oo_DeviceID op, int64 (int (oo_DeviceSequence op)))
      \<lparr>sq_OperationID = oo_OperationID op, sq_SubmissionID = oo_SubmissionID op, sq_OperationHash = h, sq_Rejected = refused\<rparr>
      (od_SequenceClaims X)"
    "od_Heads Y = od_Heads (settle_head op (if refused then OfflineSubmissionClaimedRejected else OfflineSubmissionClaimedSucceeded)
      (int (length drafts)) (int64 (db_Clock (od_Store X) + 1)) final X)"
    "od_Devices Y = od_Devices X"
    "db_Events (od_Store Y) = log" "db_Clock (od_Store Y) = final" "db_Active (od_Store Y) = db_Active (od_Store X)"
    "db_Heads (od_Store Y) = AList.update (attempt_key op) (int (length drafts)) (db_Heads (od_Store X))"
    "db_Inbox (od_Store Y) = db_Inbox (od_Store X)" "db_Claims (od_Store Y) = db_Claims (od_Store X)"
    "\<exists>F. project_commit (ie_store E) final F = Inr (od_Store Y)"
proof -
  let ?D = "od_Store X" and ?first = "int64 (db_Clock (od_Store X) + 1)" and ?version = "int (length drafts)"
  let ?final = "int64 (?first + ?version - 1)"
  let ?st = "if refused then OfflineSubmissionClaimedRejected else OfflineSubmissionClaimedSucceeded"
  obtain log where log: "insert_offline_events E op received ?first 0 drafts (db_Events ?D) = Inr log"
    using assms by (auto simp: append_offline_events_def Let_def)
  obtain Z where z: "claim_sequence op h refused (set_store (?D\<lparr>db_Events := log\<rparr>) X) = Inr Z"
    using assms log by (auto simp: append_offline_events_def Let_def)
  let ?W = "settle_head op ?st ?version ?first ?final Z"
  let ?F = "(od_Store ?W)\<lparr>db_Heads := AList.update (attempt_key op) ?version (db_Heads (od_Store ?W)), db_Clock := ?final\<rparr>"
  obtain F' where f: "project_commit (ie_store E) ?final ?F = Inr F'" and y: "Y = set_store F' ?W"
    using assms log z by (auto simp: append_offline_events_def Let_def)
  note claimed = claim_sequence_Inr [OF z]
  have store: "od_Store Z = ?D\<lparr>db_Events := log\<rparr>" by (subst claimed(1)) simp
  have heads: "od_Heads ?W = od_Heads (settle_head op ?st ?version ?first ?final X)"
    by (subst claimed(1)) (simp add: settle_head_def split: option.split)
  obtain p where rp: "replaceProjection (ie_store E) (db_Active ?F) p ?final ?F = Inr F'"
    using project_commit_Inr [OF f] by metis
  have kept: "db_Events F' = log" "db_Clock F' = ?final" "db_Active F' = db_Active ?D" "db_Inbox F' = db_Inbox ?D" "db_Claims F' = db_Claims ?D"
    "db_Heads F' = AList.update (attempt_key op) ?version (db_Heads ?D)"
    by (rule replaceProjection_Inr [OF rp], simp add: store)+
  have z': "od_SequenceClaims Z = AList.update (oo_DeviceID op, int64 (int (oo_DeviceSequence op)))
      \<lparr>sq_OperationID = oo_OperationID op, sq_SubmissionID = oo_SubmissionID op, sq_OperationHash = h, sq_Rejected = refused\<rparr>
      (od_SequenceClaims X)" "od_Devices Z = od_Devices X"
    by (subst claimed(1), simp)+
  have "\<exists>F. project_commit (ie_store E) ?final F = Inr (od_Store Y)" using f y by auto
  then show thesis
    by (intro that [OF log HOL.refl]) (use claimed(2) heads kept z' in \<open>simp_all add: y\<close>)
qed

lemma open_ticket_store:
  assumes "open_ticket E op r v f l X = Inr X'"
  shows "od_Store X' = od_Store X" "od_Heads X' = od_Heads X" "od_SequenceClaims X' = od_SequenceClaims X" "od_Devices X' = od_Devices X"
  by (subst open_ticket_frame [OF assms], simp)+

text \<open>What is left of an operation that was archived, with the plan it was archived by.\<close>

definition archived ::
  "'r ingest_env \<Rightarrow> OfflineOperation \<Rightarrow> string \<Rightarrow> bool \<Rightarrow> offlinePlan \<Rightarrow> OfflineIngestResult \<Rightarrow> 'r offline_db \<Rightarrow> 'r offline_db \<Rightarrow> bool" where
  "archived E op h refused plan r X Y \<longleftrightarrow>
     (\<exists>received ds final. ds \<noteq> []
       \<and> insert_offline_events E op received (int64 (db_Clock (od_Store X) + 1)) 0 ds (db_Events (od_Store X)) = Inr (db_Events (od_Store Y))
       \<and> final = int64 (int64 (db_Clock (od_Store X) + 1) + int (length ds) - 1) \<and> db_Clock (od_Store Y) = final
       \<and> db_Heads (od_Store Y) = AList.update (attempt_key op) (int (length ds)) (db_Heads (od_Store X))
       \<and> od_Heads Y = od_Heads (settle_head op (if refused then OfflineSubmissionClaimedRejected else OfflineSubmissionClaimedSucceeded)
           (int (length ds)) (int64 (db_Clock (od_Store X) + 1)) final X))
   \<and> projection_current (ie_store E) (od_Store Y)
   \<and> (\<forall>(j, c) \<in> set (od_SequenceClaims X). j \<noteq> (oo_DeviceID op, int64 (int (oo_DeviceSequence op)))
        \<and> sq_SubmissionID c \<noteq> oo_SubmissionID op)
   \<and> od_SequenceClaims Y = AList.update (oo_DeviceID op, int64 (int (oo_DeviceSequence op)))
        \<lparr>sq_OperationID = oo_OperationID op, sq_SubmissionID = oo_SubmissionID op, sq_OperationHash = h, sq_Rejected = refused\<rparr>
        (od_SequenceClaims X)
   \<and> db_Inbox (od_Store Y) = ((oo_DeviceID op, oo_OperationID op),
        \<lparr>ib_RequestHash = h, ib_Rejected = refused, ib_AggregateType = ''offline_attempt'',
         ib_AggregateID = oo_SubmissionID op, ib_Result = ie_print_result E r\<rparr>) # db_Inbox (od_Store X)
   \<and> claims_written plan (db_Claims (od_Store X)) (db_Claims (od_Store Y))
   \<and> od_Devices Y = od_Devices X \<and> ir_ResultKind r = OfflineResultArchived \<and> \<not> ir_Replayed r"

lemma persistOfflineTerminal_Inr:
  assumes "persistOfflineTerminal E op a h received archive assessment evidence reasons drafts plan X = Inr (r, Y)"
  shows "archived E op h (archive = OfflineArchivedRejected) plan r X Y" "ir_EvidenceStatus r = evidence"
    "ir_ArchiveStatus r = archive" "ValidateIngestResult (ie_offline E) r = None"
proof -
  let ?first = "int64 (db_Clock (od_Store X) + 1)" and ?refused = "archive = OfflineArchivedRejected"
  have ne: "drafts \<noteq> []" using assms by (auto simp: persistOfflineTerminal_def)
  obtain ds plan' where stamp: "stamp_evidence E ?first drafts plan = (ds, plan')" by fastforce
  note kept = stamp_evidence_keeps [OF stamp]
  obtain D where d: "insertOfflineAttemptRecords E plan' (od_Store X) = Inr D"
    using assms ne stamp by (auto simp: persistOfflineTerminal_def Let_def)
  obtain X1 where x1: "enqueue_evaluation E op a received plan' (set_store D X) = Inr X1"
    using assms ne stamp d by (auto simp: persistOfflineTerminal_def Let_def)
  obtain X2 where x2: "append_offline_events E op h ?refused received ds X1 = Inr X2"
    using assms ne stamp d x1 by (auto simp: persistOfflineTerminal_def Let_def)
  from assms ne stamp d x1 x2 have r: "r = offline_result E op archive assessment evidence reasons received (int (length drafts)) ?first
      (int64 (?first + int (length drafts) - 1)) plan'"
    and valid: "ValidateIngestResult (ie_offline E) r = None"
    and ticket: "open_ticket E op r (int (length drafts)) ?first (int64 (?first + int (length drafts) - 1))
      (archive_offline E op h ?refused r X2) = Inr Y"
    by (auto simp: persistOfflineTerminal_def Let_def)
  note y = open_ticket_store [OF ticket]
  obtain q js where x1': "X1 = (set_store D X)\<lparr>od_Store := D\<lparr>db_Other := q\<rparr>, od_Jobs := js\<rparr>"
    using enqueue_evaluation_frame [OF x1] by auto
  note records = insertOfflineAttemptRecords_frame [OF d]
  have d': "db_Events D = db_Events (od_Store X)" "db_Clock D = db_Clock (od_Store X)" "db_Heads D = db_Heads (od_Store X)"
    "db_Inbox D = db_Inbox (od_Store X)"
    by (subst records(1), simp)+
  have heads: "od_Heads (settle_head op st v f l X1) = od_Heads (settle_head op st v f l X)" for st v f l
    by (simp add: settle_head_def x1' split: option.split)
  have x1s: "db_Events (od_Store X1) = db_Events (od_Store X)" "db_Clock (od_Store X1) = db_Clock (od_Store X)"
    "db_Heads (od_Store X1) = db_Heads (od_Store X)" "db_Inbox (od_Store X1) = db_Inbox (od_Store X)"
    "db_Claims (od_Store X1) = db_Claims D" "od_SequenceClaims X1 = od_SequenceClaims X" "od_Devices X1 = od_Devices X"
    by (simp_all add: x1' d')
  have rest: "ir_ResultKind r = OfflineResultArchived" "\<not> ir_Replayed r" by (simp_all add: r offline_result_def Let_def)
  show "archived E op h ?refused plan r X Y"
  proof (rule append_offline_events_Inr [OF x2], unfold heads x1s)
    fix log final
    assume 1: "insert_offline_events E op received ?first 0 ds (db_Events (od_Store X)) = Inr log"
      "final = int64 (?first + int (length ds) - 1)" "db_Clock (od_Store X2) = final" "db_Events (od_Store X2) = log"
      "db_Heads (od_Store X2) = AList.update (attempt_key op) (int (length ds)) (db_Heads (od_Store X))"
      "od_Heads X2 = od_Heads (settle_head op (if ?refused then OfflineSubmissionClaimedRejected else OfflineSubmissionClaimedSucceeded)
           (int (length ds)) ?first final X)"
      and 2: "\<exists>F. project_commit (ie_store E) final F = Inr (od_Store X2)"
      and 3: "\<forall>(j, c) \<in> set (od_SequenceClaims X). j \<noteq> (oo_DeviceID op, int64 (int (oo_DeviceSequence op)))
        \<and> sq_SubmissionID c \<noteq> oo_SubmissionID op"
      "od_SequenceClaims X2 = AList.update (oo_DeviceID op, int64 (int (oo_DeviceSequence op)))
        \<lparr>sq_OperationID = oo_OperationID op, sq_SubmissionID = oo_SubmissionID op, sq_OperationHash = h, sq_Rejected = ?refused\<rparr>
        (od_SequenceClaims X)" "od_Devices X2 = od_Devices X" "db_Inbox (od_Store X2) = db_Inbox (od_Store X)"
      "db_Claims (od_Store X2) = db_Claims D"
    have "projection_current (ie_store E) (od_Store X2)" using 1(3) 2 project_commit_current by blast
    then have "projection_current (ie_store E) (od_Store Y)" by (simp add: y archive_offline_def)
    moreover have "\<exists>received ds final. ds \<noteq> []
       \<and> insert_offline_events E op received ?first 0 ds (db_Events (od_Store X)) = Inr (db_Events (od_Store Y))
       \<and> final = int64 (?first + int (length ds) - 1) \<and> db_Clock (od_Store Y) = final
       \<and> db_Heads (od_Store Y) = AList.update (attempt_key op) (int (length ds)) (db_Heads (od_Store X))
       \<and> od_Heads Y = od_Heads (settle_head op (if ?refused then OfflineSubmissionClaimedRejected else OfflineSubmissionClaimedSucceeded)
           (int (length ds)) ?first final X)"
    proof (intro exI conjI)
      show "ds \<noteq> []" using ne kept(2) by auto
      show "insert_offline_events E op received ?first 0 ds (db_Events (od_Store X)) = Inr (db_Events (od_Store Y))"
        using 1(1,4) by (simp add: y archive_offline_def)
      show "final = int64 (?first + int (length ds) - 1)" by (rule 1(2))
      show "db_Clock (od_Store Y) = final" using 1(3) by (simp add: y archive_offline_def)
      show "db_Heads (od_Store Y) = AList.update (attempt_key op) (int (length ds)) (db_Heads (od_Store X))"
        using 1(5) by (simp add: y archive_offline_def)
      show "od_Heads Y = od_Heads (settle_head op (if ?refused then OfflineSubmissionClaimedRejected else OfflineSubmissionClaimedSucceeded)
           (int (length ds)) ?first final X)"
        using 1(6) by (simp only: y archive_offline_def set_store_simps)
    qed
    moreover have "claims_written plan (db_Claims (od_Store X)) (db_Claims (od_Store Y))"
      using records(2) claims_written_cong [OF kept(3,4)] 3(5) by (simp add: y archive_offline_def)
    ultimately show ?thesis
      unfolding archived_def using 3 rest by (simp add: y archive_offline_def)
  qed
  show "ir_EvidenceStatus r = evidence" "ir_ArchiveStatus r = archive"
    by (simp_all add: r offline_result_def Let_def)
  show "ValidateIngestResult (ie_offline E) r = None" by (rule valid)
qed

lemma archived_other [simp]:
  "archived E op h refused plan r (set_store ((od_Store X)\<lparr>db_Other := q\<rparr>) X) Y = archived E op h refused plan r X Y"
proof -
  have "od_Heads (settle_head op st v f l (set_store ((od_Store X)\<lparr>db_Other := q\<rparr>) X)) = od_Heads (settle_head op st v f l X)" for st v f l
    by (simp add: settle_head_def split: option.split)
  then show ?thesis by (simp add: archived_def)
qed

lemma materialize_activity_Inr:
  assumes "materialize_activity E a X = Inr (m, Y)"
  obtains q where "Y = set_store ((od_Store X)\<lparr>db_Other := q\<rparr>) X"
proof (cases m)
  case True
  with assms have "Y = set_store ((od_Store X)\<lparr>db_Other := db_Other (od_Store X)\<rparr>) X"
    by (auto simp: materialize_activity_def Let_def split: if_splits)
  then show thesis by (rule that)
qed (use assms that in \<open>auto simp: materialize_activity_def Let_def split: if_splits\<close>)

lemma commitOfflineRejection_Inr:
  assumes "commitOfflineRejection E op a h received reason X = Inr (r, Y)"
  obtains plan where "archived E op h True plan r X Y" "pl_attempt plan = None" "ir_EvidenceStatus r = OfflineEvidenceUnchanged"
    "ir_ArchiveStatus r = OfflineArchivedRejected"
proof -
  obtain v where v: "loadOfflineActivityLocked X (sa_ActivityID a) (sa_ActivityRevision a) = Inr v"
    using assms by (auto simp: commitOfflineRejection_def)
  obtain m Z where z: "materialize_activity E (sv_Activity v) X = Inr (m, Z)"
    using assms v by (auto simp: commitOfflineRejection_def)
  obtain drafts where p: "persistOfflineTerminal E op a h received OfflineArchivedRejected OfflineAssessmentNotRequested
      OfflineEvidenceUnchanged [reason] drafts (empty_plan (sv_Activity v) False) Z = Inr (r, Y)"
    using assms v z by (auto simp: commitOfflineRejection_def Let_def)
  obtain q where q: "Z = set_store ((od_Store X)\<lparr>db_Other := q\<rparr>) X" by (rule materialize_activity_Inr [OF z])
  show thesis
    by (rule that [of "empty_plan (sv_Activity v) False"])
       (use persistOfflineTerminal_Inr [OF p] in \<open>simp_all add: q empty_plan_def\<close>)
qed

lemma commitOfflineSuccess_Inr:
  assumes "commitOfflineSuccess E op a h received plan X = Inr (r, Y)"
  shows "archived E op h False plan r X Y" "ir_EvidenceStatus r = pl_evidenceStatus plan" "ir_ArchiveStatus r = OfflineArchivedSucceeded"
proof -
  from assms obtain drafts where "persistOfflineTerminal E op a h received OfflineArchivedSucceeded (pl_assessmentStatus plan)
         (pl_evidenceStatus plan) (pl_reasons plan) drafts plan X = Inr (r, Y)"
    by (auto simp: commitOfflineSuccess_def)
  from persistOfflineTerminal_Inr [OF this] show "archived E op h False plan r X Y"
    "ir_EvidenceStatus r = pl_evidenceStatus plan" "ir_ArchiveStatus r = OfflineArchivedSucceeded" by simp_all
qed

definition evidence_winner :: "'r offline_db \<Rightarrow> OfflineOperation \<Rightarrow> string" where
  "evidence_winner X op = (case map_of (db_Claims (od_Store X)) (oo_OfflineActivityID op, oo_ActivityRevision op) of None \<Rightarrow> [] | Some w \<Rightarrow> w)"

lemma settle_operation_Inr:
  assumes "settle_operation E op a h received X = Inr (r, Y)"
  obtains (blocked) "Y = X" "ir_ResultKind r = OfflineResultBlocked"
  | (refused) plan where "archived E op h True plan r X Y" "pl_attempt plan = None" "ir_EvidenceStatus r = OfflineEvidenceUnchanged"
      "ir_ArchiveStatus r = OfflineArchivedRejected"
  | (skipped) plan where "archived E op h False plan r X Y" "pl_attempt plan = None" "ir_EvidenceStatus r = OfflineEvidenceNotApplicable"
      "ir_ArchiveStatus r = OfflineArchivedSucceeded"
  | (attempted) v knowledgeHead m q q' plan where
      "loadOfflineActivityLocked X (sa_ActivityID a) (sa_ActivityRevision a) = Inr v"
      "\<not> sa_ArchiveUntil a < received" "\<not> sv_ArchiveUntil v < received"
      "ie_scope E (act_GoalRevisionID (sv_Activity v)) (db_Other (od_Store X)) = Inr q"
      "ie_knowledge_head E (act_KnowledgeRevisionID (sv_Activity v)) q = Inr (False, knowledgeHead)"
      "planOfflineAttempt E op v received (evidence_winner X op) knowledgeHead m q' = Inr plan"
      "archived E op h False plan r X Y" "ir_EvidenceStatus r = pl_evidenceStatus plan" "ir_ArchiveStatus r = OfflineArchivedSucceeded"
proof (cases "sa_HeadState a \<noteq> OfflineSubmissionReserved \<or> head_version (od_Store X) (attempt_key op) \<noteq> 0")
  case True
  then have "commitOfflineRejection E op a h received ''version_conflict'' X = Inr (r, Y)"
    using assms by (auto simp: settle_operation_def Let_def)
  then show thesis by (rule commitOfflineRejection_Inr) (rule refused)
next
  case False
  note eq = assms [unfolded settle_operation_def Let_def if_not_P [OF False] evidence_winner_def [symmetric]]
  obtain v where v: "loadOfflineActivityLocked X (sa_ActivityID a) (sa_ActivityRevision a) = Inr v" using eq by auto
  obtain q where q: "ie_scope E (act_GoalRevisionID (sv_Activity v)) (db_Other (od_Store X)) = Inr q" using eq v by auto
  let ?Z = "set_store ((od_Store X)\<lparr>db_Other := q\<rparr>) X"
  let ?late = "sv_LearnerGeneration v \<noteq> oo_LearnerGeneration op \<or> act_ID (sv_Activity v) \<noteq> oo_OfflineActivityID op
    \<or> sa_ArchiveUntil a < received \<or> sv_ArchiveUntil v < received"
  show thesis
  proof (cases ?late)
    case True
    then have "commitOfflineRejection E op a h received ''authorization_expired'' ?Z = Inr (r, Y)" using eq v q by auto
    then show thesis by (rule commitOfflineRejection_Inr) (rule refused, simp_all)
  next
    case late: False
    show thesis
    proof (cases "ie_knowledge_head E (act_KnowledgeRevisionID (sv_Activity v)) q")
      case (Inl e)
      with eq v q late show thesis by (intro blocked) (auto simp: blockedOfflineResult_def unarchived_result_def)
    next
      case (Inr p)
      obtain redacted knowledgeHead where p: "p = (redacted, knowledgeHead)" by fastforce
      show thesis
      proof (cases redacted)
        case True
        with eq v q late Inr p show thesis by (intro blocked) (auto simp: blockedOfflineResult_def unarchived_result_def)
      next
        case red: False
        have at: "settle_attempt E op a h received (evidence_winner X op) v knowledgeHead ?Z = Inr (r, Y)"
          using eq v q late Inr p red by auto
        then obtain m W where w: "materialize_activity E (sv_Activity v) ?Z = Inr (m, W)"
          by (auto simp: settle_attempt_def)
        obtain q' where q': "W = set_store ((od_Store X)\<lparr>db_Other := q'\<rparr>) X"
          by (rule materialize_activity_Inr [OF w]) simp
        show thesis
        proof (cases "oo_Type op = OfflineActivitySkipped")
          case True
          let ?plan = "(empty_plan (sv_Activity v) (\<not> m))\<lparr>pl_assessmentStatus := OfflineAssessmentNotRequested,
                 pl_evidenceStatus := OfflineEvidenceNotApplicable\<rparr>"
          have "commitOfflineSuccess E op a h received ?plan W = Inr (r, Y)" using at w True by (simp add: settle_attempt_def)
          from commitOfflineSuccess_Inr [OF this] show thesis
            by (intro skipped [of ?plan]) (simp_all add: q' empty_plan_def)
        next
          case False
          then obtain plan where plan: "planOfflineAttempt E op v received (evidence_winner X op) knowledgeHead (\<not> m) (db_Other (od_Store W)) = Inr plan"
            and c: "commitOfflineSuccess E op a h received plan W = Inr (r, Y)"
            using at w by (auto simp: settle_attempt_def)
          from late have l: "\<not> sa_ArchiveUntil a < received" "\<not> sv_ArchiveUntil v < received" by auto
          have k: "ie_knowledge_head E (act_KnowledgeRevisionID (sv_Activity v)) q = Inr (False, knowledgeHead)"
            using Inr p red by simp
          from commitOfflineSuccess_Inr [OF c] show thesis
            by (intro attempted [OF v l q k plan]) (simp_all add: q')
        qed
      qed
    qed
  qed
qed

section \<open>How an operation ends\<close>

lemma hex_encode_inj [simp]: "hex_encode a = hex_encode b \<longleftrightarrow> a = b"
  by (metis hex_decode_encode option.inject)

lemma CanonicalHash_hex: "CanonicalHash P op = Inr h \<Longrightarrow> \<exists>bs. h = hex_encode bs"
proof -
  assume "CanonicalHash P op = Inr h"
  then obtain s where "jcs_hash (olib_lib P) s = Inr h" by (auto simp: CanonicalHash_def)
  then show ?thesis by (cases "jcs_text s") (auto simp: jcs_hash_text)
qed

abbreviation inbox_key :: "OfflineOperation \<Rightarrow> string \<times> string" where
  "inbox_key op \<equiv> (oo_DeviceID op, oo_OperationID op)"

lemma IngestOffline_cases:
  assumes "IngestOffline E now op X = (y, Y)"
  obtains (failed) f where "y = Inl f" "Y = X"
  | (answered) r where "y = Inr r" "Y = X" "ir_ResultKind r = OfflineResultBlocked \<or> ir_ResultKind r = OfflineResultConflict"
  | (replayed) bs row r where "y = Inr (r\<lparr>ir_Replayed := True\<rparr>)" "Y = X" "ValidateOffline (ie_offline E) op = None"
      "CanonicalHash (ie_offline E) op = Inr (hex_encode bs)" "admission E op X = Inr None"
      "map_of (db_Inbox (od_Store X)) (inbox_key op) = Some row" "ib_RequestHash row = bs" "ie_result E (ib_Result row) = Inr r"
  | (settled) bs a r where "y = Inr r" "ValidateOffline (ie_offline E) op = None" "CanonicalHash (ie_offline E) op = Inr (hex_encode bs)"
      "admission E op X = Inr None" "map_of (db_Inbox (od_Store X)) (inbox_key op) = None"
      "lockOfflineAuthorization X op = Inr (Inr a)" "authorization_agrees a op"
      "settle_operation E op a bs (trunc_microsecond now) X = Inr (r, Y)"
proof (cases "checkE (ValidateOffline (ie_offline E) op) (CanonicalHash (ie_offline E) op)")
  case (Inl e)
  show thesis by (rule failed [of "StoreFailure e"]) (use assms Inl in \<open>simp_all add: IngestOffline_def\<close>)
next
  case (Inr h)
  then have valid: "ValidateOffline (ie_offline E) op = None" "CanonicalHash (ie_offline E) op = Inr h" by simp_all
  obtain bs where bs: "h = hex_encode bs" using CanonicalHash_hex [OF valid(2)] by blast
  note eq = assms [unfolded IngestOffline_def Inr sum.case]
  show thesis
  proof (cases "ingest_body E now op h X")
    case (Inl f)
    show thesis by (rule failed [of f]) (use eq Inl in simp_all)
  next
    case body: (Inr p)
    obtain r Z where p: "p = (r, Z)" by fastforce
    have y: "y = Inr r" "Y = Z" using eq by (simp_all add: body p)
    obtain b where b: "admission E op X = Inr b" using body p by (auto simp: ingest_body_def)
    note body' = body [unfolded p ingest_body_def b bindE_simps]
    show thesis
    proof (cases b)
      case (Some answer)
      then have "ir_ResultKind r = OfflineResultBlocked" "Z = X"
        using body' b by (auto simp: admission_def Let_def blockedOfflineResult_def unarchived_result_def split: option.splits if_splits prod.splits)
      then show thesis by (intro answered [OF y(1)]) (simp_all add: y)
    next
      case None
      note body'' = body' [unfolded None option.case]
      show thesis
      proof (cases "map_of (db_Inbox (od_Store X)) (inbox_key op)")
        case (Some row)
        show thesis
        proof (cases "ib_RequestHash row = bs")
          case True
          obtain r0 where r0: "ie_result E (ib_Result row) = Inr r0" "r = r0\<lparr>ir_Replayed := True\<rparr>" "Z = X"
            using body'' Some True by (auto simp: lookupOfflineReplay_def bs split: sum.splits)
          show thesis
            by (rule replayed [OF _ _ valid(1) valid(2) [unfolded bs] b [unfolded None] Some True r0(1)]) (simp_all add: y r0)
        next
          case False
          then have "ir_ResultKind r = OfflineResultConflict" "Z = X"
            using body'' Some by (auto simp: lookupOfflineReplay_def bs conflictOfflineResult_def unarchived_result_def)
          then show thesis by (intro answered [OF y(1)]) (simp_all add: y)
        qed
      next
        case new: None
        obtain found where found: "lockOfflineAuthorization X op = Inr found"
          using body'' new by (auto simp: lookupOfflineReplay_def)
        note body3 = body'' [unfolded lookupOfflineReplay_def new option.case found plain_def sum.case bindE_simps]
        show thesis
        proof (cases found)
          case (Inl conflict)
          have "ir_ResultKind conflict = OfflineResultConflict"
            using found Inl by (auto simp: lockOfflineAuthorization_def Let_def conflictOfflineResult_def unarchived_result_def
                split: option.splits sum.splits if_splits)
          with body3 show thesis by (intro answered [OF y(1)]) (simp_all add: y Inl)
        next
          case (Inr a)
          show thesis
          proof (cases "authorization_agrees a op")
            case True
            have "settle_operation E op a bs (trunc_microsecond now) X = Inr (r, Z)"
              using body3 True by (simp add: Inr bs split: sum.splits)
            with settled [OF y(1) valid(1) valid(2) [unfolded bs] b [unfolded None] new found [unfolded Inr] True] y show thesis by simp
          next
            case False
            with body3 show thesis
              by (intro answered [OF y(1)]) (auto simp: y Inr blockedOfflineResult_def unarchived_result_def)
          qed
        qed
      qed
    qed
  qed
qed

section \<open>Offline and online operations in any order\<close>

datatype offline_command = Online "CommitRequest + OperationRejection" | Upload time OfflineOperation

definition offline_step :: "'r ingest_env \<Rightarrow> ('r \<Rightarrow> error option) \<Rightarrow> 'r offline_db \<Rightarrow> offline_command \<Rightarrow> error + 'r offline_db" where
  "offline_step E space X c =
     (case c of
        Online c \<Rightarrow> bindE (store_step (ie_store E) space (od_Store X) c) (\<lambda>D. Inr (set_store D X))
      | Upload now op \<Rightarrow> Inr (snd (IngestOffline E now op X)))"

lemma offline_step_cases:
  assumes "offline_step E space X c = Inr Y"
  obtains (online) d D where "store_step (ie_store E) space (od_Store X) d = Inr D" "Y = set_store D X"
  | (kept) "Y = X"
  | (settled) op bs refused plan r where "map_of (db_Inbox (od_Store X)) (inbox_key op) = None" "archived E op bs refused plan r X Y"
proof (cases c)
  case (Online d)
  with assms show thesis by (auto simp: offline_step_def intro: online)
next
  case (Upload now op)
  obtain y Z where i: "IngestOffline E now op X = (y, Z)" by fastforce
  have Y: "Y = Z" using assms Upload i by (simp add: offline_step_def)
  from i show thesis
  proof (cases rule: IngestOffline_cases)
    case (settled bs a r)
    from settled(8) show thesis
      by (cases rule: settle_operation_Inr) (use that settled(5) Y in auto)
  qed (use Y kept in simp_all)
qed

lemma store_step_inbox:
  assumes "store_step S space D c = Inr D'" "map_of (db_Inbox D) k \<noteq> None"
  shows "map_of (db_Inbox D') k = map_of (db_Inbox D) k"
proof (cases c)
  case (Inl req)
  obtain x F where f: "Commit S req D = (x, F)" by fastforce
  then have "D' = F" using assms(1) Inl by (simp add: store_step_def)
  from f show ?thesis
  proof (cases rule: Commit_cases)
    case (committed r)
    have "map_of (db_Inbox D) (cr_DeviceID req, op_OperationID (cr_Operation req)) = None"
      using lookup_NotFound [OF committed(2)] by (simp add: request_lookup_def)
    then show ?thesis
      by (rule_tac commit_body_inbox [OF committed(3)]) (use assms(2) \<open>D' = F\<close> in auto)
  qed (use \<open>D' = F\<close> in simp_all)
next
  case (Inr rejection)
  obtain x F where f: "ArchiveRejection S space rejection D = (x, F)" by fastforce
  then have "D' = F" using assms(1) Inr by (simp add: store_step_def)
  from f show ?thesis
  proof (cases rule: archive_cases)
    case (archived f)
    from archived(4) show ?thesis
      by (rule archive_row_Inr) (use lookup_NotFound [OF archived(2)] assms(2) \<open>D' = F\<close> in auto)
  qed (use \<open>D' = F\<close> in simp_all)
qed

lemma offline_step_inbox:
  assumes "offline_step E space X c = Inr Y" "map_of (db_Inbox (od_Store X)) k \<noteq> None"
  shows "map_of (db_Inbox (od_Store Y)) k = map_of (db_Inbox (od_Store X)) k"
  using assms(1)
proof (cases rule: offline_step_cases)
  case (online d D)
  then show ?thesis using store_step_inbox assms(2) by simp
next
  case (settled op bs refused plan r)
  then show ?thesis using assms(2) by (auto simp: archived_def)
qed simp

lemma reaches_inbox:
  "reaches (offline_step E space) X Y \<Longrightarrow> map_of (db_Inbox (od_Store X)) k = Some row \<Longrightarrow> map_of (db_Inbox (od_Store Y)) k = Some row"
  by (induction rule: reaches.induct) (auto dest: offline_step_inbox)

section \<open>The log\<close>

lemma numbered_no_one: "numbered ns \<Longrightarrow> 1 \<notin> set ns \<Longrightarrow> ns = []"
  by (metis length_greater_0_conv nth_mem numbered_nth add_0 of_nat_0)

lemma archived_log:
  assumes "archived E op h refused plan r X Y" "log_inv (od_Store X)"
  obtains es where "log_inv (od_Store Y)" "db_Events (od_Store Y) = db_Events (od_Store X) @ es" "es \<noteq> []"
    "\<forall>e \<in> set es. agg_key e = attempt_key op \<and> le_DeviceID e = oo_DeviceID op \<and> le_OperationID e = oo_OperationID op"
    "head_version (od_Store X) (attempt_key op) = 0" "head_version (od_Store Y) (attempt_key op) = int (length es)"
proof -
  let ?D = "od_Store X" and ?F = "od_Store Y" and ?k = "attempt_key op"
  from assms(1) obtain received ds final where ds: "ds \<noteq> []"
    and ins: "insert_offline_events E op received (int64 (db_Clock ?D + 1)) 0 ds (db_Events ?D) = Inr (db_Events ?F)"
    and final: "final = int64 (int64 (db_Clock ?D + 1) + int (length ds) - 1)" "db_Clock ?F = final"
    and heads: "db_Heads ?F = AList.update ?k (int (length ds)) (db_Heads ?D)"
    by (auto simp: archived_def)
  have inv: "numbered (map le_EventSequence (db_Events ?D))" "db_Clock ?D = int (length (db_Events ?D))" "in_int64 (db_Clock ?D)"
    "\<And>k. numbered (agg_versions k (db_Events ?D))" "\<And>k. head_version ?D k = int (length (agg_versions k (db_Events ?D)))"
    "\<And>k. in_int64 (head_version ?D k)"
    using assms(2) unfolding log_inv_def by blast+
  obtain es where es: "db_Events ?F = db_Events ?D @ es"
    and seqs: "map le_EventSequence es = map (\<lambda>n. int64 (int64 (db_Clock ?D + 1) + int n)) [0..<length ds]"
    and versions: "map le_AggregateVersion es = map (\<lambda>n. int n + 1) [0..<length ds]"
    and own: "\<forall>e \<in> set es. agg_key e = ?k \<and> le_DeviceID e = oo_DeviceID op \<and> le_OperationID e = oo_OperationID op \<and> 1 \<le> le_EventSequence e"
    and first: "1 \<notin> set (agg_versions ?k (db_Events ?D))"
    using insert_offline_events_Inr [OF ins] ds by auto
  have "\<forall>e \<in> set es. 1 \<le> le_EventSequence e" using own by blast
  note numbers = appended_numbers [OF seqs this inv(3,2,1)]
  have ne: "es \<noteq> []" using ds numbers(1) by auto
  have none: "agg_versions ?k (db_Events ?D) = []" using numbered_no_one [OF inv(4) first] .
  have mine: "agg_versions ?k es = map le_AggregateVersion es" using own by (simp add: agg_versions_def filter_True)
  have other: "k \<noteq> ?k \<Longrightarrow> agg_versions k es = []" for k using own by (auto simp: agg_versions_def filter_empty_conv)
  have "le_EventSequence (last es) = int64 (int64 (db_Clock ?D + 1) + int (length ds - 1))"
    using arg_cong [OF seqs, of last] ne ds by (simp add: last_map)
  moreover have "int (length ds - 1) = int (length ds) - 1" using ds by (cases ds) simp_all
  ultimately have clock: "final = db_Clock ?D + int (length es)"
    using numbers(3) [OF ne] final(1) by (simp add: add_diff_eq)
  have small: "in_int64 (int (length ds))"
    using numbers(3) [OF ne] inv(2) numbers(1) by (simp add: in_int64_def)
  have head: "head_version ?F k = (if k = ?k then int (length ds) else head_version ?D k)" for k
    by (simp add: head_version_def heads)
  have "map (\<lambda>n. int n + 1) [0..<length ds] = map int [1..<Suc (length ds)]"
    by (rule nth_equalityI) (simp_all del: upt_Suc)
  then have nums: "numbered (map le_AggregateVersion es)"
    by (simp add: numbered_def versions numbers(1) del: upt_Suc)
  show thesis
  proof (rule that [OF _ es ne])
    show "log_inv ?F"
      unfolding log_inv_def
    proof (intro conjI allI)
      fix k
      show "numbered (agg_versions k (db_Events ?F))"
        by (cases "k = ?k") (use nums none mine other inv(4) in \<open>simp_all add: es\<close>)
      show "head_version ?F k = int (length (agg_versions k (db_Events ?F)))"
        by (cases "k = ?k") (use none mine other inv(5) numbers(1) in \<open>simp_all add: es head\<close>)
      show "in_int64 (head_version ?F k)" using small inv(6) by (simp add: head)
    qed (use numbers(2,3) ne inv(2) clock in \<open>simp_all add: es final(2)\<close>)
  qed (use own none inv(5) [of ?k] numbers(1) in \<open>simp_all add: head\<close>)
qed

lemma offline_step_log:
  assumes "offline_step E space X c = Inr Y" "grown D (od_Store X)"
  shows "grown D (od_Store Y)"
  using assms(1)
proof (cases rule: offline_step_cases)
  case (online d F)
  then show ?thesis using growing.step_inv [OF assms(2)] by simp
next
  case (settled op bs refused plan r)
  have "log_inv (od_Store X)" using assms(2) by (simp add: grown_def)
  from archived_log [OF settled(2) this] obtain es where "log_inv (od_Store Y)" "db_Events (od_Store Y) = db_Events (od_Store X) @ es"
    by blast
  with assms(2) show ?thesis by (auto simp: grown_def)
qed (use assms(2) in simp)

interpretation offline_log: guarded_machine "offline_step E space" "\<lambda>X. grown D (od_Store X)"
  for E :: "'r ingest_env" and space D
  by unfold_locales (rule offline_step_log)

lemma offline_step_projection:
  assumes "projection_current (ie_store E) (od_Store X)" "offline_step E space X c = Inr Y"
  shows "projection_current (ie_store E) (od_Store Y)"
  using assms(2)
proof (cases rule: offline_step_cases)
  case (online d F)
  then show ?thesis using store_step_projection assms(1) by simp
next
  case (settled op bs refused plan r)
  then show ?thesis by (simp add: archived_def)
qed (use assms(1) in simp)

interpretation offline_projected: guarded_machine "offline_step E space" "\<lambda>X. projection_current (ie_store E) (od_Store X)"
  for E :: "'r ingest_env" and space
  by unfold_locales (rule offline_step_projection)

section \<open>Submissions\<close>

text \<open>
  A claimed sequence number has its answer in the inbox, a settled submission has claimed one, and no submission
  has claimed two.
\<close>

definition settled_state :: "OfflineSubmissionState \<Rightarrow> bool" where
  "settled_state st \<longleftrightarrow> st = OfflineSubmissionClaimedSucceeded \<or> st = OfflineSubmissionClaimedRejected"

definition claim_answered :: "'r offline_db \<Rightarrow> string \<times> int \<Rightarrow> sequence_claim \<Rightarrow> bool" where
  "claim_answered X k c \<longleftrightarrow> (\<exists>row. map_of (db_Inbox (od_Store X)) (fst k, sq_OperationID c) = Some row
     \<and> ib_RequestHash row = sq_OperationHash c \<and> ib_Rejected row = sq_Rejected c)"

definition offline_inv :: "'r offline_db \<Rightarrow> bool" where
  "offline_inv X \<longleftrightarrow>
     (\<forall>k c. map_of (od_SequenceClaims X) k = Some c \<longrightarrow> claim_answered X k c)
   \<and> (\<forall>s h. map_of (od_Heads X) s = Some h \<longrightarrow> settled_state (ah_State h) \<longrightarrow>
        (\<exists>k c. map_of (od_SequenceClaims X) k = Some c \<and> sq_SubmissionID c = s \<and> sq_OperationID c = ah_TerminalOperationID h
          \<and> sq_Rejected c = (ah_State h = OfflineSubmissionClaimedRejected)))
   \<and> (\<forall>j k c d. map_of (od_SequenceClaims X) j = Some c \<longrightarrow> map_of (od_SequenceClaims X) k = Some d
        \<longrightarrow> sq_SubmissionID c = sq_SubmissionID d \<longrightarrow> j = k)"

definition settling :: "'r offline_db \<Rightarrow> 'r offline_db \<Rightarrow> bool" where
  "settling X Y \<longleftrightarrow> offline_inv Y
     \<and> (\<forall>k c. map_of (od_SequenceClaims X) k = Some c \<longrightarrow> map_of (od_SequenceClaims Y) k = Some c)
     \<and> (\<forall>s h. map_of (od_Heads X) s = Some h \<longrightarrow> (\<exists>h'. map_of (od_Heads Y) s = Some h'
          \<and> (h' = h \<or> CanTransitionOfflineSubmission (ah_State h) (ah_State h'))))"

lemma settle_head_lookup:
  "map_of (od_Heads (settle_head op st v f l X)) s =
     (case map_of (od_Heads X) s of None \<Rightarrow> None
      | Some h \<Rightarrow> if s = oo_SubmissionID op \<and> ah_State h = OfflineSubmissionReserved
          then Some \<lparr>ah_State = st, ah_TerminalOperationID = oo_OperationID op, ah_AggregateVersion = v, ah_FirstEventSeq = f, ah_LastEventSeq = l\<rparr>
          else Some h)"
  by (auto simp: settle_head_def split: option.split)

lemma claim_answered_later:
  assumes "claim_answered X k c" "\<And>j row. map_of (db_Inbox (od_Store X)) j = Some row \<Longrightarrow> map_of (db_Inbox (od_Store Y)) j = Some row"
  shows "claim_answered Y k c"
  using assms by (fastforce simp: claim_answered_def)

lemma archived_settling:
  assumes "archived E op h refused plan r X Y" "map_of (db_Inbox (od_Store X)) (inbox_key op) = None" "settling W X"
  shows "settling W Y"
proof -
  let ?k = "(oo_DeviceID op, int64 (int (oo_DeviceSequence op)))"
  let ?c = "\<lparr>sq_OperationID = oo_OperationID op, sq_SubmissionID = oo_SubmissionID op, sq_OperationHash = h, sq_Rejected = refused\<rparr>"
  let ?st = "if refused then OfflineSubmissionClaimedRejected else OfflineSubmissionClaimedSucceeded"
  from assms(1) obtain v f l where heads: "od_Heads Y = od_Heads (settle_head op ?st v f l X)"
    and claims: "od_SequenceClaims Y = AList.update ?k ?c (od_SequenceClaims X)"
    and fresh: "\<forall>(j, c) \<in> set (od_SequenceClaims X). j \<noteq> ?k \<and> sq_SubmissionID c \<noteq> oo_SubmissionID op"
    and inbox: "db_Inbox (od_Store Y) = (inbox_key op,
        \<lparr>ib_RequestHash = h, ib_Rejected = refused, ib_AggregateType = ''offline_attempt'',
         ib_AggregateID = oo_SubmissionID op, ib_Result = ie_print_result E r\<rparr>) # db_Inbox (od_Store X)"
    unfolding archived_def by metis
  have fresh': "map_of (od_SequenceClaims X) j = Some c \<Longrightarrow> j \<noteq> ?k \<and> sq_SubmissionID c \<noteq> oo_SubmissionID op" for j c
    using fresh by (fastforce dest: map_of_SomeD)
  have kept: "map_of (db_Inbox (od_Store X)) j = Some row \<Longrightarrow> map_of (db_Inbox (od_Store Y)) j = Some row" for j row
    using assms(2) by (auto simp: inbox)
  have later: "claim_answered X k c \<Longrightarrow> claim_answered Y k c" for k c by (erule claim_answered_later) (rule kept)
  have lookup: "map_of (od_SequenceClaims Y) j = (if j = ?k then Some ?c else map_of (od_SequenceClaims X) j)" for j
    by (simp add: claims)
  have mine: "claim_answered Y ?k ?c" by (simp add: claim_answered_def inbox)
  have inv: "offline_inv X" using assms(3) by (simp add: settling_def)
  have "offline_inv Y"
    unfolding offline_inv_def
  proof (intro conjI allI impI)
    fix k c assume "map_of (od_SequenceClaims Y) k = Some c"
    then show "claim_answered Y k c"
      using mine inv later [of k c] unfolding offline_inv_def lookup by (metis option.inject)
  next
    fix s g assume g: "map_of (od_Heads Y) s = Some g" and st: "settled_state (ah_State g)"
    show "\<exists>k c. map_of (od_SequenceClaims Y) k = Some c \<and> sq_SubmissionID c = s \<and> sq_OperationID c = ah_TerminalOperationID g
          \<and> sq_Rejected c = (ah_State g = OfflineSubmissionClaimedRejected)"
    proof (cases "map_of (od_Heads X) s = Some g")
      case True
      then obtain k c where "map_of (od_SequenceClaims X) k = Some c" "sq_SubmissionID c = s" "sq_OperationID c = ah_TerminalOperationID g"
        "sq_Rejected c = (ah_State g = OfflineSubmissionClaimedRejected)"
        using inv st unfolding offline_inv_def by metis
      then show ?thesis using fresh' [of k c] by (intro exI [of _ k] exI [of _ c]) (simp add: lookup)
    next
      case False
      with g have "s = oo_SubmissionID op" "g = \<lparr>ah_State = ?st, ah_TerminalOperationID = oo_OperationID op, ah_AggregateVersion = v,
          ah_FirstEventSeq = f, ah_LastEventSeq = l\<rparr>"
        by (auto simp: heads settle_head_lookup split: option.splits if_splits)
      then show ?thesis by (intro exI [of _ ?k] exI [of _ ?c]) (simp add: lookup)
    qed
  next
    fix j k c d
    assume j: "map_of (od_SequenceClaims Y) j = Some c" and k: "map_of (od_SequenceClaims Y) k = Some d"
      and same: "sq_SubmissionID c = sq_SubmissionID d"
    have own: "sq_SubmissionID c' = oo_SubmissionID op \<longleftrightarrow> i = ?k" if "map_of (od_SequenceClaims Y) i = Some c'" for i c'
    proof (cases "i = ?k")
      case True
      with that show ?thesis unfolding lookup by auto
    next
      case False
      with that have "map_of (od_SequenceClaims X) i = Some c'" unfolding lookup by simp
      with fresh' [OF this] False show ?thesis by blast
    qed
    show "j = k"
    proof (cases "j = ?k")
      case True
      then show ?thesis using own [OF j] own [OF k] same by simp
    next
      case False
      then have "k \<noteq> ?k" using own [OF j] own [OF k] same by simp
      with False j k have "map_of (od_SequenceClaims X) j = Some c" "map_of (od_SequenceClaims X) k = Some d"
        unfolding lookup by simp_all
      with same inv show ?thesis unfolding offline_inv_def by blast
    qed
  qed
  moreover have "\<exists>g'. map_of (od_Heads Y) s = Some g' \<and> (g' = g \<or> CanTransitionOfflineSubmission (ah_State g) (ah_State g'))"
    if g: "map_of (od_Heads W) s = Some g" for s g
  proof -
    obtain g1 where g1: "map_of (od_Heads X) s = Some g1" "g1 = g \<or> CanTransitionOfflineSubmission (ah_State g) (ah_State g1)"
      using assms(3) g unfolding settling_def by blast
    have "map_of (od_Heads Y) s = Some g1 \<or> ah_State g1 = OfflineSubmissionReserved
        \<and> (\<exists>g'. map_of (od_Heads Y) s = Some g' \<and> ah_State g' = ?st)"
      by (simp add: heads settle_head_lookup g1(1))
    then show ?thesis using g1 by (auto simp: CanTransitionOfflineSubmission_def)
  qed
  moreover have "map_of (od_SequenceClaims Y) k = Some c" if c: "map_of (od_SequenceClaims W) k = Some c" for k c
  proof -
    have "map_of (od_SequenceClaims X) k = Some c" using assms(3) c unfolding settling_def by blast
    with fresh' [OF this] show ?thesis unfolding lookup by simp
  qed
  ultimately show ?thesis unfolding settling_def by blast
qed

lemma offline_step_settling:
  assumes "settling W X" "offline_step E space X c = Inr Y"
  shows "settling W Y"
  using assms(2)
proof (cases rule: offline_step_cases)
  case (online d D)
  have kept: "map_of (db_Inbox (od_Store X)) j = Some row \<Longrightarrow> map_of (db_Inbox (od_Store Y)) j = Some row" for j row
    using store_step_inbox [OF online(1), of j] online(2) by simp
  have "claim_answered X k c \<Longrightarrow> claim_answered Y k c" for k c by (erule claim_answered_later) (rule kept)
  then have "offline_inv Y"
    using assms(1) unfolding settling_def offline_inv_def online(2) set_store_simps by blast
  then show ?thesis using assms(1) by (simp add: settling_def online(2))
next
  case (settled op bs refused plan r)
  then show ?thesis using archived_settling assms(1) by blast
qed (use assms(1) in simp)

interpretation submissions: guarded_machine "offline_step E space" "settling W"
  for E :: "'r ingest_env" and space W
  by unfold_locales (rule offline_step_settling)

end
