(* ===== verification/Offline_Once.thy ===== *)
theory Offline_Once
  imports Offline_Settled
begin

text \<open>
  The promises of an upload to the device and to the learner: an operation is archived once and answered alike ever
  after, and an activity gives evidence to one submission, of a device or of an online lesson.
\<close>

section \<open>Claims to evidence\<close>

text \<open>The statuses of an answer that counts as evidence, at once or after its evaluation.\<close>

definition earns_evidence :: "OfflineEvidenceStatus \<Rightarrow> bool" where
  "earns_evidence s \<longleftrightarrow> s = OfflineEvidenceAccepted \<or> s = OfflineEvidencePendingEvaluation"

abbreviation claim_key :: "OfflineOperation \<Rightarrow> string \<times> int" where
  "claim_key op \<equiv> (oo_OfflineActivityID op, oo_ActivityRevision op)"

lemma objective_plan_keeps:
  "objective_plan E op a received plan = Inr plan' \<Longrightarrow> pl_attempt plan' = pl_attempt plan \<and> pl_evidenceClaim plan' = pl_evidenceClaim plan"
  by (auto simp: objective_plan_def Let_def)

lemma open_plan_keeps:
  "open_plan E op received plan = Inr plan' \<Longrightarrow> pl_attempt plan' = pl_attempt plan \<and> pl_evidenceClaim plan' = pl_evidenceClaim plan"
  by (auto simp: open_plan_def Let_def)

lemma planOfflineAttempt_Inr:
  assumes "planOfflineAttempt E op v received existing head m r = Inr plan"
  obtains payload reason winner where "oo_Attempt op = Some payload"
    "context_reason E (sv_Activity v) (attempt_reason v payload received head) r = Inr reason"
    "DecideOfflineWinner (ie_offline E) existing (oo_SubmissionID op) (reason = []) reason = Inr winner"
    "pl_attempt plan = Some ((offline_attempt E op (sv_Activity v) payload received)
       \<lparr>att_EvidenceEligibility := wd_EvidenceEligibility winner, att_EvidenceIneligibleReason := wd_Reason winner\<rparr>)"
    "pl_evidenceClaim plan = (wd_Winner winner \<and> existing = [])"
    "wd_Reason winner \<noteq> [] \<Longrightarrow> \<not> earns_evidence (pl_evidenceStatus plan)"
proof -
  obtain payload where payload: "oo_Attempt op = Some payload"
    using assms by (auto simp: planOfflineAttempt_def split: option.splits)
  let ?a = "sv_Activity v"
  let ?attempt = "offline_attempt E op ?a payload received"
  have i: "att_ID ?attempt = oo_SubmissionID op" by (simp add: offline_attempt_def)
  obtain reason winner where reason: "context_reason E ?a (attempt_reason v payload received head) r = Inr reason"
    and winner: "DecideOfflineWinner (ie_offline E) existing (oo_SubmissionID op) (reason = []) reason = Inr winner"
    using assms payload by (auto simp: planOfflineAttempt_def Let_def i)
  let ?judged = "?attempt\<lparr>att_EvidenceEligibility := wd_EvidenceEligibility winner, att_EvidenceIneligibleReason := wd_Reason winner\<rparr>"
  let ?plan = "won_plan winner existing ?judged ?a m"
  have won: "pl_attempt ?plan = Some ?judged" "pl_evidenceClaim ?plan = (wd_Winner winner \<and> existing = [])"
    "\<not> earns_evidence (pl_evidenceStatus ?plan)"
    by (simp_all add: won_plan_def earns_evidence_def)
  have result: "(if wd_Reason winner \<noteq> [] then Inr ?plan
                else if act_Type ?a = ActivityObjective then objective_plan E op ?judged received ?plan
                else if act_Type ?a = ActivityOpen then open_plan E op received ?plan
                else Inl (invalid_offline ''offline_activity_invalid'')) = Inr plan"
    using assms payload reason winner by (simp add: planOfflineAttempt_def Let_def i)
  have kept: "pl_attempt plan = pl_attempt ?plan \<and> pl_evidenceClaim plan = pl_evidenceClaim ?plan"
    using result by (auto dest: objective_plan_keeps open_plan_keeps split: if_splits)
  moreover have "\<not> earns_evidence (pl_evidenceStatus plan)" if "wd_Reason winner \<noteq> []"
    using result that won(3) by simp
  ultimately show thesis by (intro that [OF payload reason winner]) (simp_all add: won)
qed

text \<open>What evidence takes: nothing speaks against the answer, and the activity is unclaimed or claimed by the submission.\<close>

lemma DecideOfflineWinner_wins:
  "DecideOfflineWinner P existing contender eligible reason = Inr w \<Longrightarrow> wd_Reason w = [] \<Longrightarrow>
   eligible \<and> wd_Winner w \<and> wd_EvidenceEligibility w \<and> (existing = [] \<or> existing = contender)"
  by (auto simp: DecideOfflineWinner_def split: if_splits)

lemma context_reason_none:
  assumes "context_reason E a reason r = Inr []"
  shows "reason = [] \<and> (\<exists>s. ie_session E (act_SessionID a) r = Inr s
    \<and> ctx_GoalRevisionID (sess_Context s) = act_GoalRevisionID a \<and> ctx_RouteRevisionID (sess_Context s) = act_RouteRevisionID a)"
  using assms by (auto simp: context_reason_def split: if_splits sum.splits)

lemma attempt_reason_none:
  assumes "attempt_reason v payload received head = []"
  shows "received \<le> sv_EligibleUntil v \<and> head = act_KnowledgeRevisionID (sv_Activity v)
    \<and> act_ActivityPolicyVersion (sv_Activity v) = ActivityPolicyVersion
    \<and> act_AssessmentPolicyVersion (sv_Activity v) = AssessmentPolicyVersion
    \<and> act_ReviewPolicyVersion (sv_Activity v) = ReviewPolicyVersion \<and> oa_Help payload \<noteq> HelpAnswerRevealed"
  using assms by (auto simp: attempt_reason_def Let_def split: if_splits)

lemma activity_key:
  "loadOfflineActivityLocked X i revision = Inr v \<Longrightarrow> act_ID (sv_Activity v) = i \<and> act_Revision (sv_Activity v) = revision"
  by (auto simp: loadOfflineActivityLocked_def split: option.splits if_splits)

lemma authorization_key:
  assumes "lockOfflineAuthorization X op = Inr (Inr a)"
  shows "sa_ActivityID a = oo_OfflineActivityID op" "sa_ActivityRevision a = oo_ActivityRevision op"
    "sa_OperationID a = oo_OperationID op" "sa_SubmissionID a = oo_SubmissionID op"
proof -
  have "sa_ActivityID a = oo_OfflineActivityID op \<and> sa_ActivityRevision a = oo_ActivityRevision op
    \<and> sa_OperationID a = oo_OperationID op \<and> sa_SubmissionID a = oo_SubmissionID op"
    using assms by (auto simp: lockOfflineAuthorization_def Let_def split: option.splits sum.splits if_splits)
  then show "sa_ActivityID a = oo_OfflineActivityID op" "sa_ActivityRevision a = oo_ActivityRevision op"
    "sa_OperationID a = oo_OperationID op" "sa_SubmissionID a = oo_SubmissionID op" by blast+
qed

text \<open>An archived operation that counts: the claim of its activity is its own, and nobody else held it.\<close>

lemma archived_operation:
  assumes "IngestOffline E now op X = (Inr r, Y)" "ir_ResultKind r = OfflineResultArchived" "\<not> ir_Replayed r"
  obtains bs a where "CanonicalHash (ie_offline E) op = Inr (hex_encode bs)" "ValidateOffline (ie_offline E) op = None"
    "map_of (db_Inbox (od_Store X)) (inbox_key op) = None"
    "lockOfflineAuthorization X op = Inr (Inr a)" "settle_operation E op a bs (trunc_microsecond now) X = Inr (r, Y)"
  using assms(1)
  by (cases rule: IngestOffline_cases) (use assms(2,3) that in auto)

lemma evidence_operation:
  assumes "IngestOffline E now op X = (Inr r, Y)" "ir_ResultKind r = OfflineResultArchived" "\<not> ir_Replayed r"
    "earns_evidence (ir_EvidenceStatus r)"
  obtains a v payload q q' head s where
    "lockOfflineAuthorization X op = Inr (Inr a)"
    "loadOfflineActivityLocked X (oo_OfflineActivityID op) (oo_ActivityRevision op) = Inr v" "oo_Attempt op = Some payload"
    "\<not> sa_ArchiveUntil a < trunc_microsecond now" "\<not> sv_ArchiveUntil v < trunc_microsecond now"
    "ie_knowledge_head E (act_KnowledgeRevisionID (sv_Activity v)) q = Inr (False, head)"
    "attempt_reason v payload (trunc_microsecond now) head = []"
    "ie_session E (act_SessionID (sv_Activity v)) q' = Inr s"
    "ctx_GoalRevisionID (sess_Context s) = act_GoalRevisionID (sv_Activity v)"
    "ctx_RouteRevisionID (sess_Context s) = act_RouteRevisionID (sv_Activity v)"
    "map_of (db_Claims (od_Store Y)) (claim_key op) = Some (oo_SubmissionID op)"
    "map_of (db_Claims (od_Store X)) (claim_key op) \<in> {None, Some (oo_SubmissionID op)}"
proof -
  let ?now = "trunc_microsecond now"
  obtain bs a where a: "lockOfflineAuthorization X op = Inr (Inr a)" and settle: "settle_operation E op a bs ?now X = Inr (r, Y)"
    by (rule archived_operation [OF assms(1-3)])
  note key = authorization_key [OF a]
  from settle show thesis
  proof (cases rule: settle_operation_Inr)
    case (attempted v head m q q' plan)
    have earned: "earns_evidence (pl_evidenceStatus plan)" using attempted(8) assms(4) by simp
    have v: "loadOfflineActivityLocked X (oo_OfflineActivityID op) (oo_ActivityRevision op) = Inr v"
      using attempted(1) by (simp add: key)
    from attempted(6) show thesis
    proof (rule planOfflineAttempt_Inr)
      fix payload reason winner
      assume payload: "oo_Attempt op = Some payload"
        and reason: "context_reason E (sv_Activity v) (attempt_reason v payload ?now head) q' = Inr reason"
        and winner: "DecideOfflineWinner (ie_offline E) (evidence_winner X op) (oo_SubmissionID op) (reason = []) reason = Inr winner"
        and attempt: "pl_attempt plan = Some ((offline_attempt E op (sv_Activity v) payload ?now)
          \<lparr>att_EvidenceEligibility := wd_EvidenceEligibility winner, att_EvidenceIneligibleReason := wd_Reason winner\<rparr>)"
        and claim: "pl_evidenceClaim plan = (wd_Winner winner \<and> evidence_winner X op = [])"
        and none: "wd_Reason winner \<noteq> [] \<Longrightarrow> \<not> earns_evidence (pl_evidenceStatus plan)"
      have wins: "reason = [] \<and> wd_Winner winner \<and> wd_EvidenceEligibility winner
          \<and> (evidence_winner X op = [] \<or> evidence_winner X op = oo_SubmissionID op)"
        using DecideOfflineWinner_wins [OF winner] none earned by blast
      note lesson = context_reason_none [OF reason [unfolded conjunct1 [OF wins]]]
      have "claims_written plan (db_Claims (od_Store X)) (db_Claims (od_Store Y))"
        using attempted(7) by (simp add: archived_def)
      then have written: "if evidence_winner X op = [] then map_of (db_Claims (od_Store X)) (claim_key op) = None
            \<and> db_Claims (od_Store Y) = AList.update (claim_key op) (oo_SubmissionID op) (db_Claims (od_Store X))
          else db_Claims (od_Store Y) = db_Claims (od_Store X)"
        using wins by (simp add: claims_written_def attempt claim Let_def offline_attempt_def activity_key [OF v])
      have claims: "map_of (db_Claims (od_Store Y)) (claim_key op) = Some (oo_SubmissionID op)
        \<and> map_of (db_Claims (od_Store X)) (claim_key op) \<in> {None, Some (oo_SubmissionID op)}"
      proof (cases "evidence_winner X op = []")
        case True
        show ?thesis using written unfolding if_P [OF True] by simp
      next
        case False
        then have "map_of (db_Claims (od_Store X)) (claim_key op) = Some (evidence_winner X op)"
          by (cases "map_of (db_Claims (od_Store X)) (claim_key op)") (simp_all add: evidence_winner_def)
        moreover have "evidence_winner X op = oo_SubmissionID op" using wins False by blast
        ultimately show ?thesis using written unfolding if_not_P [OF False] by simp
      qed
      from lesson obtain s where s: "ie_session E (act_SessionID (sv_Activity v)) q' = Inr s"
        "ctx_GoalRevisionID (sess_Context s) = act_GoalRevisionID (sv_Activity v)"
        "ctx_RouteRevisionID (sess_Context s) = act_RouteRevisionID (sv_Activity v)" by blast
      show thesis
        by (rule that [OF a v payload attempted(2,3,5) conjunct1 [OF lesson] s conjunct1 [OF claims] conjunct2 [OF claims]])
    qed
  qed (use assms(2,4) in \<open>simp_all add: earns_evidence_def\<close>)
qed

text \<open>A claim stays, whatever follows.\<close>

lemma write_batch_claims:
  assumes "write_batch S req es versions b D = Inr (r, D')" "map_of (db_Claims D) k = Some w"
  shows "map_of (db_Claims D') k = Some w"
proof -
  obtain D1 log where 1: "insertTypedRecords S (req\<lparr>cr_Batch := b\<rparr>) D = Inr D1" "insert_events (db_Events D1) es = Inr log"
    using assms(1) by (auto simp: write_batch_def)
  let ?high = "le_EventSequence (last es)" and ?r = "commit_result req b versions es"
  let ?E = "D1\<lparr>db_Events := log, db_Heads := advance_heads versions (db_Heads D1), db_Clock := ?high\<rparr>"
  obtain E' where 2: "project_commit S ?high ?E = Inr E'"
    using assms(1) 1 by (auto simp: write_batch_def Let_def)
  have 3: "db_Claims D' = db_Claims E'"
    using assms(1) 1 2 by (auto simp: write_batch_def Let_def archive_result_def split: option.splits)
  obtain p where rp: "replaceProjection S (db_Active ?E) p ?high ?E = Inr E'"
    using project_commit_Inr [OF 2] by metis
  have "db_Claims E' = db_Claims D1" by (rule replaceProjection_Inr [OF rp]) simp
  moreover have "map_of (db_Claims D1) k = Some w"
    using 1(1) assms(2) by (auto simp: insertTypedRecords_def insert_attempt_def Let_def split: option.splits if_splits)
  ultimately show ?thesis by (simp add: 3)
qed

lemma store_step_claims:
  assumes "store_step S space D c = Inr D'" "map_of (db_Claims D) k = Some w"
  shows "map_of (db_Claims D') k = Some w"
proof (cases c)
  case (Inl req)
  obtain x F where f: "Commit S req D = (x, F)" by fastforce
  then have "D' = F" using assms(1) Inl by (simp add: store_step_def)
  from f show ?thesis
  proof (cases rule: Commit_cases)
    case (committed r)
    show ?thesis
      by (rule commit_body_Inr [OF committed(3)]) (use write_batch_claims assms(2) \<open>D' = F\<close> in metis)
  qed (use assms(2) \<open>D' = F\<close> in simp_all)
next
  case (Inr rejection)
  obtain x F where f: "ArchiveRejection S space rejection D = (x, F)" by fastforce
  then have "D' = F" using assms(1) Inr by (simp add: store_step_def)
  from f show ?thesis
  proof (cases rule: archive_cases)
    case (archived f)
    from archived(4) show ?thesis
      by (rule archive_row_Inr) (use assms(2) \<open>D' = F\<close> in auto)
  qed (use assms(2) \<open>D' = F\<close> in simp_all)
qed

lemma offline_step_claims:
  assumes "map_of (db_Claims (od_Store X)) k = Some w" "offline_step E space X c = Inr Y"
  shows "map_of (db_Claims (od_Store Y)) k = Some w"
  using assms(2)
proof (cases rule: offline_step_cases)
  case (online d D)
  then show ?thesis using store_step_claims assms(1) by simp
next
  case (settled op bs refused plan r)
  then have "claims_written plan (db_Claims (od_Store X)) (db_Claims (od_Store Y))" by (simp add: archived_def)
  then show ?thesis using assms(1) by (auto simp: claims_written_def Let_def split: option.splits if_splits)
qed (use assms(1) in simp)

interpretation claimed: guarded_machine "offline_step E space" "\<lambda>X. map_of (db_Claims (od_Store X)) k = Some w"
  for E :: "'r ingest_env" and space k w
  by unfold_locales (rule offline_step_claims)

section \<open>An operation is archived once\<close>

text \<open>What the inbox holds of an answered operation, from its archive on.\<close>

lemma archived_row:
  assumes "IngestOffline E now op X = (Inr r, X')" "ir_ResultKind r = OfflineResultArchived"
    "reaches (offline_step E space) X' Y" "ie_result E (ie_print_result E r) = Inr r"
  obtains bs row r0 where "ValidateOffline (ie_offline E) op = None" "CanonicalHash (ie_offline E) op = Inr (hex_encode bs)"
    "map_of (db_Inbox (od_Store Y)) (inbox_key op) = Some row" "ib_RequestHash row = bs" "ie_result E (ib_Result row) = Inr r0"
    "r0\<lparr>ir_Replayed := True\<rparr> = r\<lparr>ir_Replayed := True\<rparr>"
  using assms(1)
proof (cases rule: IngestOffline_cases)
  case (replayed bs row r0)
  have "map_of (db_Inbox (od_Store Y)) (inbox_key op) = Some row"
    using reaches_inbox [OF assms(3)] replayed(2,6) by blast
  then show thesis by (rule that [OF replayed(3,4) _ replayed(7,8)]) (use replayed(1) in simp)
next
  case (settled bs a r')
  have r: "r' = r" using settled(1) by simp
  have "\<exists>refused plan. archived E op bs refused plan r X X'"
    using settled(8) [unfolded r] by (cases rule: settle_operation_Inr) (use assms(2) in auto)
  then obtain row where "map_of (db_Inbox (od_Store X')) (inbox_key op) = Some row" "ib_RequestHash row = bs"
    "ib_Result row = ie_print_result E r"
    by (auto simp: archived_def)
  with reaches_inbox [OF assms(3)] assms(4) show thesis by (intro that [OF settled(2,3)]) auto
qed (use assms(2) in simp_all)



text \<open>
  The identifier of an archived operation is bound to its content: another operation of the device under the same
  identifier, with another canonical hash, is an idempotency conflict for good and writes nothing.
\<close>

theorem upload_bound_to_content:
  assumes "IngestOffline E now op X = (Inr r, X')" "ir_ResultKind r = OfflineResultArchived"
    and "reaches (offline_step E space) X' Y" "ie_result E (ie_print_result E r) = Inr r"
    and "oo_DeviceID other = oo_DeviceID op" "oo_OperationID other = oo_OperationID op" "admission E other Y = Inr None"
    and "CanonicalHash (ie_offline E) other = Inr h" "CanonicalHash (ie_offline E) op \<noteq> Inr h"
  shows "IngestOffline E now' other Y
    = (Inr (conflictOfflineResult other OfflineIdempotencyConflict ''idempotency_conflict''), Y)"
proof (rule archived_row [OF assms(1-4)])
  fix bs row r0
  assume "CanonicalHash (ie_offline E) op = Inr (hex_encode bs)" "map_of (db_Inbox (od_Store Y)) (inbox_key op) = Some row"
    "ib_RequestHash row = bs"
  moreover have "ValidateOffline (ie_offline E) other = None"
    using assms(8) by (auto simp: CanonicalHash_def)
  ultimately show ?thesis
    using assms(5-9) by (auto simp: IngestOffline_def ingest_body_def lookupOfflineReplay_def plain_def)
qed




section \<open>The log, the submissions and the evidence\<close>

text \<open>
  An archived upload appends at least one event and nothing else to the log: all its events belong to the aggregate of its
  submission, which had none before, name its device and its operation, and the projection is the replay of the log again.
\<close>

theorem upload_appends_own_events:
  assumes "IngestOffline E now op X = (Inr r, Y)" "ir_ResultKind r = OfflineResultArchived" "\<not> ir_Replayed r"
    and "log_inv (od_Store X)"
  shows "\<exists>es. es \<noteq> [] \<and> db_Events (od_Store Y) = db_Events (od_Store X) @ es
    \<and> (\<forall>e \<in> set es. agg_key e = attempt_key op \<and> le_DeviceID e = oo_DeviceID op \<and> le_OperationID e = oo_OperationID op)
    \<and> head_version (od_Store X) (attempt_key op) = 0 \<and> head_version (od_Store Y) (attempt_key op) = int (length es)
    \<and> log_inv (od_Store Y) \<and> projection_current (ie_store E) (od_Store Y)"
proof -
  obtain bs a where "settle_operation E op a bs (trunc_microsecond now) X = Inr (r, Y)"
    by (rule archived_operation [OF assms(1-3)])
  then obtain refused plan where done': "archived E op bs refused plan r X Y"
    by (cases rule: settle_operation_Inr) (use assms(2) in auto)
  from archived_log [OF this assms(4)] show ?thesis
    by (rule archived_log [OF done' assms(4)]) (use done' in \<open>auto simp: archived_def\<close>)
qed

text \<open>
  C12: Uploads and online operations in any order keep the log of the store gapless with its heads at the last versions, leave
  every earlier event in place, never move a head back, and keep the projection equal to the replay of the log.
\<close>

theorem offline_log_kept:
  assumes "log_inv (od_Store X)" "reaches (offline_step E space) X Y"
  shows "log_inv (od_Store Y) \<and> prefix (db_Events (od_Store X)) (db_Events (od_Store Y))
    \<and> head_version (od_Store X) k \<le> head_version (od_Store Y) k
    \<and> (projection_current (ie_store E) (od_Store X) \<longrightarrow> projection_current (ie_store E) (od_Store Y))"
proof -
  have "grown (od_Store X) (od_Store Y)"
    by (rule offline_log.reaches_inv [OF assms(2)]) (simp add: grown_def assms(1))
  moreover from this have "head_version (od_Store X) k \<le> head_version (od_Store Y) k"
    by (rule grown_heads [OF assms(1)])
  ultimately show ?thesis using offline_projected.reaches_inv [OF assms(2)] by (auto simp: grown_def)
qed

text \<open>
  C7: However uploads and online operations follow each other, a claimed sequence number of a device stays claimed by the same
  operation and has its answer in the inbox, a submission claims at most one number, a settled submission has claimed one for the
  operation that settled it, and a submission changes its state only along the transitions of the protocol.
\<close>

theorem submissions_settle:
  assumes "offline_inv X" "reaches (offline_step E space) X Y"
  shows "offline_inv Y
    \<and> (\<forall>k c. map_of (od_SequenceClaims X) k = Some c \<longrightarrow> map_of (od_SequenceClaims Y) k = Some c)
    \<and> (\<forall>s h. map_of (od_Heads X) s = Some h \<longrightarrow> (\<exists>h'. map_of (od_Heads Y) s = Some h'
         \<and> (h' = h \<or> CanTransitionOfflineSubmission (ah_State h) (ah_State h'))))"
proof -
  have "settling X X" using assms(1) by (simp add: settling_def)
  from submissions.reaches_inv [OF assms(2) this] show ?thesis unfolding settling_def .
qed

text \<open>
  C6: One submission for one activity: once an upload earned evidence, the revision of its activity is claimed by its submission
  for good. No attempt of an online lesson at it is eligible, and no upload of another submission earns evidence from it.
\<close>

theorem one_evidence_winner:
  assumes "IngestOffline E now op X = (Inr r, X')" "ir_ResultKind r = OfflineResultArchived" "\<not> ir_Replayed r"
    and "earns_evidence (ir_EvidenceStatus r)" "reaches (offline_step E space) X' Y"
  shows "map_of (db_Claims (od_Store Y)) (claim_key op) = Some (oo_SubmissionID op)
    \<and> (\<forall>a. (att_ActivityID a, att_ActivityRevision a) = claim_key op \<longrightarrow> att_ID a \<noteq> oo_SubmissionID op
        \<longrightarrow> \<not> att_EvidenceEligibility (fst (claim_attempt (od_Store Y) a)))
    \<and> (\<forall>now' op' r' Z. claim_key op' = claim_key op \<longrightarrow> oo_SubmissionID op' \<noteq> oo_SubmissionID op
        \<longrightarrow> IngestOffline E now' op' Y = (Inr r', Z) \<longrightarrow> ir_ResultKind r' = OfflineResultArchived \<longrightarrow> \<not> ir_Replayed r'
        \<longrightarrow> \<not> earns_evidence (ir_EvidenceStatus r'))"
proof -
  have "map_of (db_Claims (od_Store X')) (claim_key op) = Some (oo_SubmissionID op)"
    by (rule evidence_operation [OF assms(1-4)])
  then have won: "map_of (db_Claims (od_Store Y)) (claim_key op) = Some (oo_SubmissionID op)"
    by (rule claimed.reaches_inv [OF assms(5)])
  have "\<not> att_EvidenceEligibility (fst (claim_attempt (od_Store Y) a))"
    if "(att_ActivityID a, att_ActivityRevision a) = claim_key op" "att_ID a \<noteq> oo_SubmissionID op" for a
    using won that by (auto simp: claim_attempt_def Let_def)
  moreover have False
    if same: "claim_key op' = claim_key op" "oo_SubmissionID op' \<noteq> oo_SubmissionID op"
      and other: "IngestOffline E now' op' Y = (Inr r', Z)" "ir_ResultKind r' = OfflineResultArchived" "\<not> ir_Replayed r'"
        "earns_evidence (ir_EvidenceStatus r')" for now' op' r' Z
  proof -
    have "map_of (db_Claims (od_Store Y)) (claim_key op') \<in> {None, Some (oo_SubmissionID op')}"
      by (rule evidence_operation [OF other])
    with won same show False by simp
  qed
  ultimately show ?thesis using won by blast
qed

text \<open>
  C13: Evidence is earned: an upload whose answer counts was given under the authorization of its device and sequence number,
  arrived while the authorization and the activity could be archived and the activity was eligible, to the knowledge and the
  policies of now, in the lesson's goal and route, without the answer revealed, and its submission holds the claim on the activity.
\<close>

theorem evidence_earned:
  assumes "IngestOffline E now op X = (Inr r, Y)" "ir_ResultKind r = OfflineResultArchived" "\<not> ir_Replayed r"
    and "earns_evidence (ir_EvidenceStatus r)"
  shows "\<exists>a v payload q q' s. lockOfflineAuthorization X op = Inr (Inr a)
    \<and> loadOfflineActivityLocked X (oo_OfflineActivityID op) (oo_ActivityRevision op) = Inr v \<and> oo_Attempt op = Some payload
    \<and> trunc_microsecond now \<le> sa_ArchiveUntil a \<and> trunc_microsecond now \<le> sv_ArchiveUntil v
    \<and> trunc_microsecond now \<le> sv_EligibleUntil v
    \<and> ie_knowledge_head E (act_KnowledgeRevisionID (sv_Activity v)) q = Inr (False, act_KnowledgeRevisionID (sv_Activity v))
    \<and> act_ActivityPolicyVersion (sv_Activity v) = ActivityPolicyVersion
    \<and> act_AssessmentPolicyVersion (sv_Activity v) = AssessmentPolicyVersion
    \<and> act_ReviewPolicyVersion (sv_Activity v) = ReviewPolicyVersion \<and> oa_Help payload \<noteq> HelpAnswerRevealed
    \<and> ie_session E (act_SessionID (sv_Activity v)) q' = Inr s
    \<and> ctx_GoalRevisionID (sess_Context s) = act_GoalRevisionID (sv_Activity v)
    \<and> ctx_RouteRevisionID (sess_Context s) = act_RouteRevisionID (sv_Activity v)
    \<and> map_of (db_Claims (od_Store Y)) (claim_key op) = Some (oo_SubmissionID op)"
proof (rule evidence_operation [OF assms])
  fix a v payload q q' head s
  assume "lockOfflineAuthorization X op = Inr (Inr a)"
    "loadOfflineActivityLocked X (oo_OfflineActivityID op) (oo_ActivityRevision op) = Inr v" "oo_Attempt op = Some payload"
    "\<not> sa_ArchiveUntil a < trunc_microsecond now" "\<not> sv_ArchiveUntil v < trunc_microsecond now"
    "ie_knowledge_head E (act_KnowledgeRevisionID (sv_Activity v)) q = Inr (False, head)"
    "attempt_reason v payload (trunc_microsecond now) head = []"
    "ie_session E (act_SessionID (sv_Activity v)) q' = Inr s"
    "ctx_GoalRevisionID (sess_Context s) = act_GoalRevisionID (sv_Activity v)"
    "ctx_RouteRevisionID (sess_Context s) = act_RouteRevisionID (sv_Activity v)"
    "map_of (db_Claims (od_Store Y)) (claim_key op) = Some (oo_SubmissionID op)"
  then show ?thesis
    using attempt_reason_none [of v payload "trunc_microsecond now" head]
    by (intro exI [of _ a] exI [of _ v] exI [of _ payload] exI [of _ q] exI [of _ q'] exI [of _ s]) (simp add: not_less)
qed

end
