(* ===== verification/Offline_Example.thy ===== *)
theory Offline_Example
  imports Offline_Once
begin

text \<open>
  One answer to an open activity, recorded without a connection and offline_answer to a store that holds its authorization: the whole
  operation is evaluated in the kernel, and the properties of \<open>Offline_Once\<close> are applied to it.
\<close>

section \<open>The device\<close>

text \<open>A library whose digests are constant up to one text, and whose operation prints as its time tells.\<close>

definition upload_lib :: offline_lib where
  "upload_lib = \<lparr>olib_lib = example_lib\<lparr>lib_sha256 := \<lambda>s. replicate 32 (if s = ''{}'' then CHR ''0'' else CHR ''1'')\<rparr>, olib_uuid = \<lambda>_. True,
     olib_url = \<lambda>_. None, olib_url_text = \<lambda>_. [], olib_wire = \<lambda>_. Inl (PlainError []), olib_attempt = \<lambda>_. Inl (PlainError []),
     olib_skip = \<lambda>_. Inl (PlainError []), olib_authorization = \<lambda>_. Inl (PlainError []), olib_print_attempt = \<lambda>_. [],
     olib_print_skip = \<lambda>_. [], olib_print_operation = \<lambda>h. Inr (if hp_OccurredAt h = None then ''{}'' else ''[]'')\<rparr>"

definition offline_answer :: "ZonedTime option \<Rightarrow> OfflineOperation" where
  "offline_answer t = Offline_Upload.example_operation\<lparr>oo_CredentialEpoch := 1, oo_LearnerGeneration := 1, oo_OccurredAt := t,
     oo_Type := OfflineAttemptCompleted, oo_Attempt := Some \<lparr>oa_Answer = ''{}'',
       oa_AnswerSHA256 = hex_encode (replicate 32 (CHR ''0'')), oa_Help = HelpNone, oa_Observations = []\<rparr>\<rparr>"

lemma list_text [simp]: "jcs_text ''[]'' = Inr ''[]''"
  by code_simp

lemma upload_hash_lower: "lower_case (olib_lib upload_lib) (hex_encode (replicate 32 (CHR ''0''))) = hex_encode (replicate 32 (CHR ''0''))"
  by (rule ascii_lower)
    (auto simp: hex_encode_replicate list_all_iff hex_digit_def byte_char_of byte_def upload_lib_def example_lib_def)

lemma uploaded_valid:
  assumes "utc t"
  shows "ValidateOffline upload_lib (offline_answer t) = None"
proof -
  let ?op = "offline_answer t"
  have "envelope_valid upload_lib ?op"
    by (simp add: envelope_valid_def offline_answer_def Offline_Upload.example_operation_def canonicalUUID_def upload_lib_def
        example_lib_def MaxUint63_def length_hex_encode)
  moreover have "authorization_error (olib_lib upload_lib) ?op = None"
    by (simp add: authorization_error_def offline_answer_def Offline_Upload.example_operation_def json_object_def jcs_hash_text upload_lib_def)
  moreover have "attempt_payload_error (olib_lib upload_lib) ?op = None"
    using upload_hash_lower
    by (simp add: attempt_payload_error_def offline_answer_def Offline_Upload.example_operation_def answer_hash_valid_def validHelp_def
        ascii_valid byte_def SHA256_def) (simp add: upload_lib_def)
  ultimately show ?thesis using upload_hash_lower assms
    by (simp add: ValidateOffline_def lower_hash_def)
      (simp add: offline_answer_def Offline_Upload.example_operation_def payload_error_def)
qed

lemma uploaded_hash:
  assumes "utc t"
  shows "CanonicalHash upload_lib (offline_answer t) = Inr (hex_encode (replicate 32 (if t = None then CHR ''0'' else CHR ''1'')))"
proof -
  have "canonicalPayload upload_lib (offline_answer t) = Inr ''{}''"
    by (simp add: canonicalPayload_def offline_answer_def Offline_Upload.example_operation_def json_object_def)
  moreover have "hp_OccurredAt (hash_payload (offline_answer t) p) = t" for p
    by (simp add: hash_payload_def offline_answer_def)
  ultimately show ?thesis
    using uploaded_valid [OF assms] by (cases t) (simp_all add: CanonicalHash_def upload_lib_def jcs_hash_text)
qed

section \<open>The store\<close>

definition uploaded_activity :: Activity where
  "uploaded_activity = (example_activity ActivityOpen)\<lparr>act_ActivityPolicyVersion := ActivityPolicyVersion,
     act_AssessmentPolicyVersion := AssessmentPolicyVersion, act_ReviewPolicyVersion := ReviewPolicyVersion\<rparr>"

definition upload_answer :: OfflineIngestResult where
  "upload_answer = \<lparr>ir_ResultKind = OfflineResultArchived, ir_OperationID = ''op'', ir_DeviceSequence = ''7'', ir_SubmissionID = ''sub'',
     ir_ArchiveStatus = OfflineArchivedSucceeded, ir_AssessmentStatus = OfflineAssessmentQueued,
     ir_EvidenceStatus = OfflineEvidencePendingEvaluation, ir_ReasonCodes = [], ir_Replayed = False,
     ir_Receipt = Some \<lparr>rc_ReceiptID = ''ingest-receipt'' @ [CHR 0x0A] @ ''op'', rc_ArchivedAt = 0, rc_AggregateVersion = ''2'',
       rc_FirstEventSequence = ''1'', rc_LastEventSequence = ''2'', rc_ProjectionAsOf = ''2'', rc_ArchiveStatus = OfflineArchivedSucceeded\<rparr>,
     ir_StatusTicket = Some \<lparr>tk_TicketID = ''status-ticket'' @ [CHR 0x0A] @ ''op'', tk_OperationID = ''op'', tk_Revision = ''1'',
       tk_UpdatedAt = 0\<rparr>,
     ir_AssessmentID = [], ir_EvidenceID = []\<rparr>"

definition upload_env :: "unit ingest_env" where
  "upload_env = \<lparr>ie_store = example_store\<lparr>se_events := store_codec\<lparr>cod_offline_assessment :=
       (\<lambda>_. Inr \<lparr>pa_AssessmentID = ''as'', pa_NodeRevisionID = ''n'', pa_Reasons = []\<rparr>)\<rparr>\<rparr>,
     ie_offline = upload_lib, ie_gate = (\<lambda>_ _. Inr 1), ie_tutoring = (\<lambda>_. Inr 1), ie_knowledge = (\<lambda>_. Inr 1),
     ie_scope = (\<lambda>_. Inr), ie_knowledge_head = (\<lambda>i _. Inr (False, i)), ie_materialized = (\<lambda>_ _. Inr True),
     ie_materialize = (\<lambda>_. Inr),
     ie_session = (\<lambda>_ _. Inr (new_session\<lparr>sess_Context := (sess_Context new_session)\<lparr>ctx_RouteRevisionID := ''r1''\<rparr>\<rparr>)),
     ie_message = (\<lambda>_ _ t _. Inr \<lparr>om_ID = ''m'', om_Text = t\<rparr>), ie_enqueue = (\<lambda>_. Inr), ie_insert_attempt = (\<lambda>_. Inr),
     ie_insert_assessment = (\<lambda>_ _. Inr), ie_insert_evidence = (\<lambda>_ _ _. Inr), ie_uuid = (\<lambda>s. s),
     ie_print_task = (\<lambda>_. ''{}''), ie_print_frozen = (\<lambda>_ _ _. ''{}''), ie_print_rejected = (\<lambda>_ _ _. ''{}''),
     ie_print_skipped = (\<lambda>_ _ _. ''{}''), ie_print_queued = (\<lambda>_ _ _. ''{}''), ie_print_result = (\<lambda>_. ''{}''),
     ie_result = (\<lambda>_. Inr upload_answer)\<rparr>"

definition upload_row :: authorization_row where
  "upload_row = \<lparr>sa_SubmissionID = ''sub'', sa_PackID = ''pack'', sa_DeviceID = ''device'', sa_OperationID = ''op'', sa_DeviceSequence = 7,
     sa_ActivityID = ''activity'', sa_ActivityRevision = 1, sa_LearnerGeneration = 1, sa_CredentialEpoch = 1, sa_ExpectedVersion = 0,
     sa_AuthorizationHash = replicate 32 (CHR ''0''), sa_Authorization = ''{}'', sa_SignerKeyID = ''key'',
     sa_Signature = replicate 64 (CHR ''s''), sa_EligibleUntil = 1, sa_ArchiveUntil = 2\<rparr>"

definition upload_db :: "unit offline_db" where
  "upload_db = \<lparr>od_Store = empty_db, od_Devices = [(''device'', (None, 1))], od_Reservations = [((''device'', 7), (''op'', ''sub''))],
     od_Authorizations = [(''sub'', upload_row)],
     od_Heads = [(''sub'', \<lparr>ah_State = OfflineSubmissionReserved, ah_TerminalOperationID = [], ah_AggregateVersion = 0,
       ah_FirstEventSeq = 0, ah_LastEventSeq = 0\<rparr>)],
     od_SequenceClaims = [],
     od_Activities = [((''activity'', 1), \<lparr>sv_Activity = uploaded_activity, sv_LearnerGeneration = 1, sv_PracticeKind = ''practice'',
       sv_PayloadHash = [], sv_IssuedAt = 0, sv_EligibleUntil = 1, sv_ArchiveUntil = 2\<rparr>)],
     od_Tickets = [], od_Jobs = []\<rparr>"

definition upload_authorization :: storedOfflineAuthorization where
  "upload_authorization = authorization_row.extend upload_row (storedOfflineAuthorization.fields OfflineSubmissionReserved 0)"

section \<open>The evaluation\<close>

definition upload_activity :: storedOfflineActivity where
  "upload_activity = \<lparr>sv_Activity = uploaded_activity\<lparr>act_ID := ''activity''\<rparr>, sv_LearnerGeneration = 1, sv_PracticeKind = ''practice'',
     sv_PayloadHash = [], sv_IssuedAt = 0, sv_EligibleUntil = 1, sv_ArchiveUntil = 2\<rparr>"

definition upload_payload :: OfflineAttemptPayload where
  "upload_payload = \<lparr>oa_Answer = ''{}'', oa_AnswerSHA256 = hex_encode (replicate 32 (CHR ''0'')), oa_Help = HelpNone, oa_Observations = []\<rparr>"

definition upload_plan :: offlinePlan where
  "upload_plan = (won_plan \<lparr>wd_Winner = True, wd_EvidenceEligibility = True, wd_Reason = []\<rparr> []
     ((offline_attempt upload_env (offline_answer None) (sv_Activity upload_activity) upload_payload 0)
        \<lparr>att_EvidenceEligibility := True, att_EvidenceIneligibleReason := []\<rparr>) (sv_Activity upload_activity) False)
     \<lparr>pl_jobID := ''evaluation-job'' @ [CHR 0x0A] @ ''sub'', pl_futureAssessmentID := ''assessment'' @ [CHR 0x0A] @ ''sub'',
      pl_outboxMessage := Some \<lparr>om_ID = ''m'', om_Text = ''{}''\<rparr>, pl_assessmentStatus := OfflineAssessmentQueued,
      pl_evidenceStatus := OfflineEvidencePendingEvaluation\<rparr>"

lemma upload_planned: "planOfflineAttempt upload_env (offline_answer None) upload_activity 0 [] ''k1'' False () = Inr upload_plan"
proof -
  let ?a = "sv_Activity upload_activity"
  have a: "oo_Attempt (offline_answer None) = Some upload_payload" "oo_SubmissionID (offline_answer None) = ''sub''"
    "oo_LearnerGeneration (offline_answer None) = 1"
    by (simp_all add: offline_answer_def Offline_Upload.example_operation_def upload_payload_def)
  have i: "att_ID (offline_attempt upload_env (offline_answer None) ?a upload_payload 0) = ''sub''"
    by (simp add: offline_attempt_def a)
  have "attempt_reason upload_activity upload_payload 0 ''k1'' = []"
    by (simp add: attempt_reason_def upload_activity_def uploaded_activity_def example_activity_def upload_payload_def)
  moreover have "context_reason upload_env ?a [] () = Inr []"
    by (simp add: context_reason_def upload_env_def new_session_def ready_session_def lesson_defs upload_activity_def uploaded_activity_def
        example_activity_def)
  moreover have "DecideOfflineWinner (ie_offline upload_env) [] ''sub'' True []
      = Inr \<lparr>wd_Winner = True, wd_EvidenceEligibility = True, wd_Reason = []\<rparr>"
    by (simp add: DecideOfflineWinner_def upload_env_def upload_lib_def)
  moreover have "act_Type ?a = ActivityOpen" by (simp add: upload_activity_def uploaded_activity_def example_activity_def)
  ultimately show ?thesis
    unfolding planOfflineAttempt_def a Let_def
    by (simp add: i won_plan_def open_plan_def upload_plan_def a Let_def offlineID_def)
      (simp add: upload_env_def)
qed

definition upload_draft :: "EventType \<Rightarrow> string \<Rightarrow> EventDraft" where
  "upload_draft k p = offlineDraft k (offline_answer None) (sv_Activity upload_activity) ''pending_evaluation'' p"

definition upload_event :: "nat \<Rightarrow> EventType \<Rightarrow> string \<Rightarrow> LearningEvent" where
  "upload_event n k p = offline_event upload_env (offline_answer None) 0 (int n + 1) n (upload_draft k p) p"

definition upload_drafts :: "EventDraft list" where
  "upload_drafts = [upload_draft EventOfflineAttemptSubmitted ''sub'', upload_draft EventOfflineAssessmentQueued ''{}'']"

definition upload_log :: "LearningEvent list" where
  "upload_log = [upload_event 0 EventOfflineAttemptSubmitted ''sub'', upload_event 1 EventOfflineAssessmentQueued ''{}'']"

definition upload_store :: "unit db" where
  "upload_store = empty_db\<lparr>db_Claims := [((''activity'', 1), ''sub'')], db_Attempts := [(''sub'', (True, []))]\<rparr>"

lemma upload_op:
  "oo_OperationID (offline_answer t) = ''op''" "oo_DeviceID (offline_answer t) = ''device''" "oo_CredentialEpoch (offline_answer t) = 1"
  "oo_LearnerGeneration (offline_answer t) = 1" "oo_DeviceSequence (offline_answer t) = 7" "oo_SubmissionID (offline_answer t) = ''sub''"
  "oo_ExpectedVersion (offline_answer t) = 0" "oo_OfflineActivityID (offline_answer t) = ''activity''"
  "oo_ActivityRevision (offline_answer t) = 1" "oo_AuthorizationHash (offline_answer t) = hex_encode (replicate 32 (CHR ''0''))"
  "oo_Authorization (offline_answer t) = ''{}''" "oo_AuthorizationSig (offline_answer t) = replicate 64 (CHR ''s'')"
  "oo_Type (offline_answer t) = OfflineAttemptCompleted" "oo_Attempt (offline_answer t) = Some upload_payload"
  by (simp_all add: offline_answer_def Offline_Upload.example_operation_def upload_payload_def)

lemma upload_plan_fields:
  "\<exists>a. pl_attempt upload_plan = Some a \<and> att_ID a = ''sub'' \<and> att_ActivityID a = ''activity'' \<and> att_ActivityRevision a = 1
     \<and> att_AnswerSHA256 a = hex_encode (replicate 32 (CHR ''0'')) \<and> att_EvidenceEligibility a \<and> att_EvidenceIneligibleReason a = []"
  "pl_evidenceClaim upload_plan" "pl_assessment upload_plan = None" "pl_decision upload_plan = None" "pl_evidence upload_plan = None"
  "pl_jobID upload_plan \<noteq> []" "pl_outboxMessage upload_plan = Some \<lparr>om_ID = ''m'', om_Text = ''{}''\<rparr>" "pl_materialize upload_plan = False"
  "pl_activity upload_plan = sv_Activity upload_activity" "pl_evidenceStatus upload_plan = OfflineEvidencePendingEvaluation"
  "pl_assessmentStatus upload_plan = OfflineAssessmentQueued" "pl_reasons upload_plan = []"
  by (simp_all add: upload_plan_def won_plan_def empty_plan_def offline_attempt_def upload_op upload_payload_def upload_activity_def
      uploaded_activity_def example_activity_def)

lemma upload_drafted: "success_drafts upload_env (offline_answer None) 0 upload_plan = Inr upload_drafts"
proof -
  obtain a where a: "pl_attempt upload_plan = Some a" "att_ID a = ''sub''" using upload_plan_fields(1) by blast
  have env: "js_attempt (se_json (ie_store upload_env)) = att_ID" "ie_print_queued upload_env = (\<lambda>_ _ _. ''{}'')"
    by (simp_all add: upload_env_def example_store_def example_command_codec_def)
  show ?thesis
    by (simp add: success_drafts_def attempt_drafts_def optional_def a upload_plan_fields upload_op env Let_def upload_drafts_def
        upload_draft_def evidence_text_def)
qed

lemma upload_logged: "insert_offline_events upload_env (offline_answer None) 0 1 0 upload_drafts [] = Inr upload_log"
proof -
  have env: "canonicalJSON (ie_store upload_env) v = Inr (if v = [] then ''{}'' else v)" "ie_uuid upload_env = (\<lambda>s. s)" for v
    by (simp_all add: upload_env_def example_store_def canonicalJSON_def)
  have n: "nat_text 0 = ''0'' \<and> nat_text (Suc 0) = ''1''" by code_simp
  have i: "le_ID (offline_event E op r m k d p) = offlineID E (''event-'' @ nat_text k) (oo_OperationID op)" for E :: "unit ingest_env" and op r m k d p
    by (simp add: offline_event_def Let_def)
  show ?thesis
    by (simp add: upload_drafts_def upload_log_def upload_event_def upload_draft_def offlineDraft_def env Let_def event_insertable_def i n
        offlineID_def int64_id in_int64_def)
qed

lemma upload_recorded: "insertOfflineAttemptRecords upload_env upload_plan empty_db = Inr upload_store"
proof -
  obtain a where a: "pl_attempt upload_plan = Some a" "att_ID a = ''sub''" "att_ActivityID a = ''activity''" "att_ActivityRevision a = 1"
    "att_AnswerSHA256 a = hex_encode (replicate 32 (CHR ''0''))" "att_EvidenceEligibility a" "att_EvidenceIneligibleReason a = []"
    using upload_plan_fields(1) by blast
  show ?thesis
    by (simp add: insertOfflineAttemptRecords_def a claim_evidence_def insert_judgement_def upload_plan_fields decodeHash_def Let_def)
      (simp add: upload_env_def empty_db_def upload_store_def)
qed

definition upload_end :: "unit db" where
  "upload_end = upload_store\<lparr>db_Events := upload_log, db_Heads := [((''offline_attempt'', ''sub''), 2)], db_Clock := 2\<rparr>"

lemma upload_projected: "\<exists>D. project_commit (ie_store upload_env) 2 upload_end = Inr D"
proof -
  have "\<not> isl (project_commit (ie_store upload_env) 2 upload_end)" by code_simp
  then show ?thesis by (cases "project_commit (ie_store upload_env) 2 upload_end") simp_all
qed

lemma upload_answered:
  "offline_result upload_env (offline_answer None) OfflineArchivedSucceeded OfflineAssessmentQueued OfflineEvidencePendingEvaluation [] 0 2 1 2
     upload_plan = upload_answer"
  "ValidateIngestResult (ie_offline upload_env) upload_answer = None"
proof -
  have "nat_text 7 = ''7'' \<and> nat_text 1 = ''1'' \<and> nat_text 2 = ''2''" by code_simp
  then have n: "decimal_or_empty 7 = ''7'' \<and> decimal_or_empty 1 = ''1'' \<and> decimal_or_empty 2 = ''2''"
    by (simp add: decimal_or_empty_def FormatUint63Decimal_def MaxUint63_def)
  have u: "uint64 1 = 1 \<and> uint64 2 = 2" by (simp add: uint64_def)
  have d: "ie_uuid upload_env = (\<lambda>s. s)" by (simp add: upload_env_def)
  show "offline_result upload_env (offline_answer None) OfflineArchivedSucceeded OfflineAssessmentQueued OfflineEvidencePendingEvaluation [] 0 2 1 2
     upload_plan = upload_answer"
    using n u by (simp add: offline_result_def upload_op upload_plan_fields Let_def offlineID_def d upload_answer_def)
  have "ParseUint63Decimal ''2'' = Inr 2"
    by (simp add: ParseUint63Decimal_def decimal_text_def decimal_value_def is_digit_def byte_def MaxUint63_def)
  then have "ValidateIngestResult upload_lib upload_answer = None"
    by (simp add: ValidateIngestResult_def upload_answer_def receipt_valid_def ticket_valid_def ValidateOfflineResultCombination_def)
      (simp add: upload_lib_def)
  then show "ValidateIngestResult (ie_offline upload_env) upload_answer = None" by (simp add: upload_env_def)
qed

section \<open>The whole operation\<close>

lemma upload_appended:
  assumes "od_Store X = upload_store" "od_SequenceClaims X = []" "od_Heads X = od_Heads upload_db"
  shows "\<exists>D Z. append_offline_events upload_env (offline_answer None) bs False 0 upload_drafts X = Inr (set_store D Z)
    \<and> od_Tickets Z = od_Tickets X"
proof -
  let ?op = "offline_answer None"
  obtain D where d: "project_commit (ie_store upload_env) 2 upload_end = Inr D" using upload_projected by blast
  have start: "db_Clock upload_store = 0" "db_Events upload_store = []" "db_Heads upload_store = []"
    by (simp_all add: upload_store_def empty_db_def)
  have n: "length upload_drafts = 2" by (simp add: upload_drafts_def)
  let ?X = "set_store (upload_store\<lparr>db_Events := upload_log\<rparr>) X"
  obtain cs where c: "claim_sequence ?op bs False ?X = Inr (?X\<lparr>od_SequenceClaims := cs\<rparr>)"
    by (simp add: claim_sequence_def assms(2) Let_def)
  have e: "(upload_store\<lparr>db_Events := upload_log, db_Heads := [(attempt_key ?op, 2)], db_Clock := 2\<rparr>) = upload_end"
    by (simp add: upload_end_def upload_op)
  show ?thesis
    using d by (intro exI [of _ D] exI [of _ "settle_head ?op OfflineSubmissionClaimedSucceeded 2 1 2 (?X\<lparr>od_SequenceClaims := cs\<rparr>)"])
      (simp add: append_offline_events_def Let_def assms(1) start n upload_logged c e int64_id in_int64_def)
qed

lemma upload_persisted:
  "\<exists>Y. commitOfflineSuccess upload_env (offline_answer None) upload_authorization bs 0 upload_plan upload_db = Inr (upload_answer, Y)"
proof -
  let ?op = "offline_answer None"
  have store: "od_Store upload_db = empty_db" by (simp add: upload_db_def)
  have n: "length upload_drafts = 2" "upload_drafts \<noteq> []" by (simp_all add: upload_drafts_def)
  have stamp: "stamp_evidence upload_env f upload_drafts upload_plan = (upload_drafts, upload_plan)" for f
    by (simp add: stamp_evidence_def upload_plan_fields)
  obtain a where a: "pl_attempt upload_plan = Some a" using upload_plan_fields(1) by blast
  have env: "ie_enqueue upload_env = (\<lambda>_. Inr)" "canonicalJSON (ie_store upload_env) ''{}'' = Inr ''{}''"
    "ie_print_frozen upload_env = (\<lambda>_ _ _. ''{}'')"
    by (simp_all add: upload_env_def example_store_def canonicalJSON_def)
  have jobs: "od_Jobs upload_db = []" by (simp add: upload_db_def)
  obtain X where x: "enqueue_evaluation upload_env ?op upload_authorization 0 upload_plan (set_store upload_store upload_db) = Inr X"
    by (simp add: enqueue_evaluation_def upload_plan_fields a env Let_def job_insertable_def)
      (simp add: set_store_def jobs upload_authorization_def upload_row_def authorization_row.defs storedOfflineAuthorization.defs hour_def
        minute_def second_def)
  obtain q js where x': "X = (set_store upload_store upload_db)\<lparr>od_Store := upload_store\<lparr>db_Other := q\<rparr>, od_Jobs := js\<rparr>"
    using enqueue_evaluation_frame [OF x] by auto
  have "upload_store\<lparr>db_Other := q\<rparr> = upload_store" by (simp add: upload_store_def empty_db_def)
  with x' obtain D Z where z: "append_offline_events upload_env ?op bs False 0 upload_drafts X = Inr (set_store D Z)" "od_Tickets Z = []"
    using upload_appended [of X bs] by (auto simp: upload_db_def set_store_def)
  have valid: "ValidateOfflineResultCombination OfflineArchivedSucceeded OfflineAssessmentQueued OfflineEvidencePendingEvaluation = None"
    by code_simp
  have clock: "int64 (db_Clock empty_db + 1) = 1" "int64 (1 + 2 - 1) = 2" "int64 2 = 2" by (simp_all add: empty_db_def int64_id in_int64_def)
  have tickets: "od_Tickets (archive_offline upload_env ?op bs False upload_answer (set_store D Z)) = []"
    by (simp add: archive_offline_def z(2))
  show ?thesis
    by (simp add: commitOfflineSuccess_def upload_drafted persistOfflineTerminal_def upload_plan_fields n stamp store upload_recorded x valid
        clock z(1) upload_answered Let_def open_ticket_def tickets)
qed

lemma upload_settled: "\<exists>Y. settle_operation upload_env (offline_answer None) upload_authorization bs 0 upload_db = Inr (upload_answer, Y)"
proof -
  let ?op = "offline_answer None"
  obtain Y where y: "commitOfflineSuccess upload_env ?op upload_authorization bs 0 upload_plan upload_db = Inr (upload_answer, Y)"
    using upload_persisted by blast
  have v: "loadOfflineActivityLocked upload_db ''activity'' 1 = Inr upload_activity"
    by (simp add: loadOfflineActivityLocked_def upload_db_def upload_activity_def uploaded_activity_def example_activity_def)
  have a: "sa_HeadState upload_authorization = OfflineSubmissionReserved" "sa_ActivityID upload_authorization = ''activity''"
    "sa_ActivityRevision upload_authorization = 1" "sa_ArchiveUntil upload_authorization = 2"
    by (simp_all add: upload_authorization_def upload_row_def authorization_row.defs storedOfflineAuthorization.defs)
  have s: "od_Store upload_db = empty_db" "db_Claims empty_db = []" "head_version empty_db k = 0" for k
    by (simp_all add: upload_db_def empty_db_def head_version_def)
  have same: "set_store (empty_db\<lparr>db_Other := u\<rparr>) upload_db = upload_db" for u
    by (simp add: set_store_def upload_db_def empty_db_def)
  have env: "ie_scope upload_env = (\<lambda>_. Inr)" "ie_knowledge_head upload_env = (\<lambda>i _. Inr (False, i))"
    "ie_materialized upload_env = (\<lambda>_ _. Inr True)"
    by (simp_all add: upload_env_def)
  have act: "act_KnowledgeRevisionID (sv_Activity upload_activity) = ''k1''" "act_ID (sv_Activity upload_activity) = ''activity''"
    "sv_LearnerGeneration upload_activity = 1" "sv_ArchiveUntil upload_activity = 2"
    by (simp_all add: upload_activity_def uploaded_activity_def example_activity_def)
  have m: "materialize_activity upload_env (sv_Activity upload_activity) upload_db = Inr (True, upload_db)"
    by (simp add: materialize_activity_def env Let_def)
  have "settle_attempt upload_env ?op upload_authorization bs 0 [] upload_activity ''k1'' upload_db = Inr (upload_answer, Y)"
    using upload_planned by (simp add: settle_attempt_def m upload_op y)
  then show ?thesis
    by (simp add: settle_operation_def a s upload_op v env act same Let_def)
qed

lemma upload_admitted:
  assumes "od_Devices Y = od_Devices upload_db"
  shows "admission upload_env (offline_answer t) Y = Inr None"
  by (simp add: admission_def assms upload_db_def upload_op lockLearningWriteGeneration_def upload_env_def Let_def)

lemma upload_locked: "lockOfflineAuthorization upload_db (offline_answer None) = Inr (Inr upload_authorization)"
  by (simp add: lockOfflineAuthorization_def reserved_authorization_def upload_op Let_def)
    (simp add: upload_db_def upload_row_def upload_authorization_def authorization_row.defs storedOfflineAuthorization.defs int64_id in_int64_def upload_op)

lemma upload_archived:
  "\<exists>Y. IngestOffline upload_env 0 (offline_answer None) upload_db = (Inr upload_answer, Y) \<and> od_Devices Y = od_Devices upload_db"
proof -
  let ?op = "offline_answer None"
  have lib: "ie_offline upload_env = upload_lib" by (simp add: upload_env_def)
  have agrees: "authorization_agrees upload_authorization ?op"
    by (simp add: authorization_agrees_def equalHash_def upload_op)
      (simp add: upload_authorization_def upload_row_def authorization_row.defs storedOfflineAuthorization.defs)
  have inbox: "db_Inbox (od_Store upload_db) = []" by (simp add: upload_db_def empty_db_def)
  obtain Y where y: "settle_operation upload_env ?op upload_authorization (replicate 32 (CHR ''0'')) 0 upload_db = Inr (upload_answer, Y)"
    using upload_settled by blast
  have run: "IngestOffline upload_env 0 ?op upload_db = (Inr upload_answer, Y)"
    using uploaded_valid [of None] uploaded_hash [of None]
    by (simp add: IngestOffline_def lib utc_def ingest_body_def upload_admitted lookupOfflineReplay_def inbox upload_locked agrees
        trunc_microsecond_def y plain_def)
  have "od_Devices Y = od_Devices upload_db"
    using y by (cases rule: settle_operation_Inr) (auto simp: archived_def)
  with run show ?thesis by blast
qed

lemma upload_answer_fields:
  "ir_ResultKind upload_answer = OfflineResultArchived" "\<not> ir_Replayed upload_answer" "earns_evidence (ir_EvidenceStatus upload_answer)"
  "ie_result upload_env (ie_print_result upload_env upload_answer) = Inr upload_answer"
  by (simp_all add: upload_answer_def earns_evidence_def) (simp add: upload_env_def upload_answer_def)

lemma upload_reaches:
  "IngestOffline upload_env now op X = (y, Y) \<Longrightarrow> reaches (offline_step upload_env (\<lambda>_. None)) X Y"
  by (rule reaches.step [OF reaches.refl, of _ _ "Upload now op"]) (simp add: offline_step_def)

section \<open>The properties at work\<close>


theorem upload_bound_to_content_witness:
  "\<exists>Y r. IngestOffline upload_env 0 (offline_answer None) upload_db = (Inr upload_answer, Y)
    \<and> IngestOffline upload_env 5000 (offline_answer (Some \<lparr>zt_Instant = 0, zt_Offset = 0\<rparr>)) Y = (Inr r, Y)
    \<and> ir_ArchiveStatus r = OfflineIdempotencyConflict"
proof -
  let ?other = "offline_answer (Some \<lparr>zt_Instant = 0, zt_Offset = 0\<rparr>)"
  obtain Y where y: "IngestOffline upload_env 0 (offline_answer None) upload_db = (Inr upload_answer, Y)"
    "od_Devices Y = od_Devices upload_db" using upload_archived by blast
  have lib: "ie_offline upload_env = upload_lib" by (simp add: upload_env_def)
  have hash: "CanonicalHash (ie_offline upload_env) ?other = Inr (hex_encode (replicate 32 (CHR ''1'')))"
    "CanonicalHash (ie_offline upload_env) (offline_answer None) \<noteq> Inr (hex_encode (replicate 32 (CHR ''1'')))"
    using uploaded_hash [of None] uploaded_hash [of "Some \<lparr>zt_Instant = 0, zt_Offset = 0\<rparr>"] by (simp_all add: lib utc_def)
  have same: "oo_DeviceID ?other = oo_DeviceID (offline_answer None)" "oo_OperationID ?other = oo_OperationID (offline_answer None)"
    by (simp_all add: upload_op)
  from upload_bound_to_content [OF y(1) upload_answer_fields(1) reaches.refl upload_answer_fields(4) same upload_admitted [OF y(2)] hash] y(1)
  show ?thesis
    by (intro exI [of _ Y] exI [of _ "conflictOfflineResult ?other OfflineIdempotencyConflict ''idempotency_conflict''"])
      (simp add: conflictOfflineResult_def unarchived_result_def)
qed

lemma upload_start: "log_inv (od_Store upload_db)" "offline_inv upload_db"
proof -
  show "log_inv (od_Store upload_db)" using empty_log_inv by (simp add: upload_db_def)
  show "offline_inv upload_db" by (simp add: offline_inv_def upload_db_def settled_state_def)
qed

theorem upload_appends_own_events_witness:
  "\<exists>Y. IngestOffline upload_env 0 (offline_answer None) upload_db = (Inr upload_answer, Y) \<and> db_Events (od_Store Y) \<noteq> []
    \<and> (\<forall>e \<in> set (db_Events (od_Store Y)). le_OperationID e = ''op'')"
proof -
  obtain Y where y: "IngestOffline upload_env 0 (offline_answer None) upload_db = (Inr upload_answer, Y)" using upload_archived by blast
  have "db_Events (od_Store upload_db) = []" by (simp add: upload_db_def empty_db_def)
  with upload_appends_own_events [OF y upload_answer_fields(1,2) upload_start(1)] y show ?thesis
    by (intro exI [of _ Y]) (auto simp: upload_op)
qed

theorem offline_log_kept_witness:
  "\<exists>Y. IngestOffline upload_env 0 (offline_answer None) upload_db = (Inr upload_answer, Y) \<and> log_inv (od_Store Y)"
proof -
  obtain Y where y: "IngestOffline upload_env 0 (offline_answer None) upload_db = (Inr upload_answer, Y)" using upload_archived by blast
  with offline_log_kept [OF upload_start(1) upload_reaches [OF y]] show ?thesis by blast
qed

theorem submissions_settle_witness:
  "\<exists>Y h. IngestOffline upload_env 0 (offline_answer None) upload_db = (Inr upload_answer, Y) \<and> offline_inv Y
    \<and> map_of (od_Heads Y) ''sub'' = Some h"
proof -
  obtain Y where y: "IngestOffline upload_env 0 (offline_answer None) upload_db = (Inr upload_answer, Y)" using upload_archived by blast
  obtain h where "map_of (od_Heads upload_db) ''sub'' = Some h" by (simp add: upload_db_def)
  with y submissions_settle [OF upload_start(2) upload_reaches [OF y]] show ?thesis by blast
qed

theorem one_evidence_winner_witness:
  "\<exists>Y. IngestOffline upload_env 0 (offline_answer None) upload_db = (Inr upload_answer, Y)
    \<and> \<not> att_EvidenceEligibility (fst (claim_attempt (od_Store Y) (example_attempt\<lparr>att_ActivityID := ''activity''\<rparr>)))"
proof -
  let ?a = "example_attempt\<lparr>att_ActivityID := ''activity''\<rparr>"
  obtain Y where y: "IngestOffline upload_env 0 (offline_answer None) upload_db = (Inr upload_answer, Y)" using upload_archived by blast
  have "(att_ActivityID ?a, att_ActivityRevision ?a) = claim_key (offline_answer None)" "att_ID ?a \<noteq> oo_SubmissionID (offline_answer None)"
    by (simp_all add: upload_op example_attempt_def)
  with one_evidence_winner [OF y upload_answer_fields(1-3) reaches.refl] y show ?thesis by blast
qed

theorem evidence_earned_witness:
  "\<exists>Y payload. IngestOffline upload_env 0 (offline_answer None) upload_db = (Inr upload_answer, Y)
    \<and> oo_Attempt (offline_answer None) = Some payload \<and> oa_Help payload \<noteq> HelpAnswerRevealed
    \<and> map_of (db_Claims (od_Store Y)) (''activity'', 1) = Some ''sub''"
proof -
  obtain Y where y: "IngestOffline upload_env 0 (offline_answer None) upload_db = (Inr upload_answer, Y)" using upload_archived by blast
  with evidence_earned [OF y upload_answer_fields(1-3)] show ?thesis by (auto simp: upload_op)
qed

section \<open>A repeated upload\<close>








end
