(* ===== verification/Carryover.thy ===== *)
theory Carryover
  imports Event_Log Offline_Ingest
begin

text \<open>
  Evidence carry-over: when a revision of the knowledge replaces a node, the maintenance of the knowledge base opens a proposal to
  let the accepted evidence of the old node count for its successors, and the learner approves or rejects it
  (\<open>learning/carryover.go\<close>, \<open>learning/postgresstore/carryover.go\<close>). One transaction looks the operation up, reads the open
  proposal, checks that what it rests on still stands, appends one event, records the decision with its links, closes the
  proposal and replays the log.

  \<open>carry_db\<close> adds the tables of the proposals to those of \<open>Store\<close>; the keys and checks of the tables that an insertion meets are
  part of the insertion. Parameters (\<open>carry_env\<close>): the privacy gates, the validator of the knowledge base, the accepted and
  not invalidated evidence, SHA-1 identifiers, and the hashes and texts of JSON values.
\<close>

section \<open>Values\<close>

definition EvidenceCarryoverPolicyVersion :: string where "EvidenceCarryoverPolicyVersion = ''evidence-carryover-v1''"
definition MaxCarryoverDecisionRunes :: nat where "MaxCarryoverDecisionRunes = 4000"

record EvidenceCarryoverCandidate =
  ecc_KnowledgeRevisionID :: string
  ecc_NodeID :: string
  ecc_NodeRevisionID :: string
  ecc_DocumentRevisionID :: string

record EvidenceCarryoverDecision =
  ecd_ID :: string
  ecd_OperationID :: string
  ecd_RequestedDecision :: string
  ecd_Outcome :: string
  ecd_Reason :: string
  ecd_ActorDeviceID :: string
  ecd_EventID :: string
  ecd_EventSequence :: int
  ecd_CreatedAt :: time

record EvidenceCarryoverProposal =
  ecp_ID :: string
  ecp_KnowledgeProposalID :: string
  ecp_Status :: EvidenceCarryoverStatus
  ecp_SourceEvidenceID :: string
  ecp_SourceKnowledgeRevisionID :: string
  ecp_SourceNodeRevisionID :: string
  ecp_TargetKnowledgeRevisionID :: string
  ecp_Candidates :: "EvidenceCarryoverCandidate list"
  ecp_KnowledgeBasisHash :: string
  ecp_EvidenceFingerprint :: string
  ecp_CandidateFingerprint :: string
  ecp_BasisFingerprint :: string
  ecp_KnowledgeGeneration :: int
  ecp_LearningGeneration :: int
  ecp_PolicyVersion :: string
  ecp_Decision :: "EvidenceCarryoverDecision option"
  ecp_Links :: "EvidenceCarryoverLink list"
  ecp_CreatedAt :: time
  ecp_UpdatedAt :: time
  ecp_Redacted :: bool
  ecp_Replayed :: bool

record EvidenceCarryoverDecisionCommand =
  edc_OperationID :: string
  edc_ProposalID :: string
  edc_Decision :: string
  edc_Reason :: string

record PreparedEvidenceCarryoverDecision =
  ped_OperationID :: string
  ped_RequestHash :: string
  ped_ProposalID :: string
  ped_RequestedDecision :: string
  ped_Reason :: string
  ped_ActorDeviceID :: string
  ped_DecisionID :: string
  ped_DecidedAt :: time

text \<open>The anonymous struct that \<open>ComputeEvidenceCarryoverBasis\<close> hashes.\<close>

record carryover_basis =
  kb_Version :: string
  kb_ProposalID :: string
  kb_KnowledgeProposalID :: string
  kb_SourceEvidenceID :: string
  kb_SourceKnowledgeRevisionID :: string
  kb_SourceNodeRevisionID :: string
  kb_TargetKnowledgeRevisionID :: string
  kb_Candidates :: "EvidenceCarryoverCandidate list"
  kb_KnowledgeBasisHash :: string
  kb_EvidenceFingerprint :: string
  kb_CandidateFingerprint :: string
  kb_KnowledgeGeneration :: int
  kb_LearningGeneration :: int
  kb_PolicyVersion :: string

section \<open>Tables\<close>

text \<open>A row of \<open>learning_evidence_carryover_proposals\<close>; a redacted row has lost its references.\<close>

record carryover_row =
  kr_KnowledgeProposalID :: string
  kr_Status :: EvidenceCarryoverStatus
  kr_SourceEvidenceID :: "string option"
  kr_SourceKnowledgeRevisionID :: "string option"
  kr_SourceNodeRevisionID :: "string option"
  kr_TargetKnowledgeRevisionID :: "string option"
  kr_KnowledgeBasis :: string
  kr_EvidenceFingerprint :: string
  kr_CandidateFingerprint :: string
  kr_BasisFingerprint :: string
  kr_KnowledgeGeneration :: int
  kr_LearningGeneration :: int
  kr_PolicyVersion :: string
  kr_CreatedAt :: time
  kr_UpdatedAt :: time
  kr_Redacted :: bool

record 'r carry_db =
  kd_Store :: "'r db"
  kd_Proposals :: "(string, carryover_row) gomap"
  kd_Candidates :: "(string \<times> EvidenceCarryoverCandidate) list" \<comment> \<open>by ordinal\<close>
  kd_Decisions :: "(string, EvidenceCarryoverDecision) gomap"
  kd_Links :: "(string, EvidenceCarryoverLink) gomap"
  kd_Operations :: "(string, string \<times> string) gomap" \<comment> \<open>request hash and proposal\<close>

record 'r carry_env =
  ke_store :: "'r store_env"
  ke_knowledge :: "'r \<Rightarrow> store_failure + int" \<comment> \<open>\<open>privacy.LockOwnerRead\<close>: the generation, or the gate is closed\<close>
  ke_learning :: "'r \<Rightarrow> store_failure + int"
  ke_valid_target :: "string \<Rightarrow> string \<Rightarrow> string \<Rightarrow> EvidenceCarryoverCandidate list \<Rightarrow> 'r \<Rightarrow> error + bool"
  ke_evidence :: "string \<Rightarrow> 'r \<Rightarrow> (string \<times> string) option" \<comment> \<open>knowledge and node revision of evidence that is accepted and not invalidated\<close>
  ke_hash_candidates :: "string \<Rightarrow> EvidenceCarryoverCandidate list \<Rightarrow> error + string"
  ke_hash_basis :: "carryover_basis \<Rightarrow> error + string"
  ke_print_event :: "EvidenceCarryoverEvent \<Rightarrow> error + string"
  ke_link_uuid :: "string \<Rightarrow> string" \<comment> \<open>\<open>uuid.NewSHA1(carryoverLinkNamespace, _)\<close>\<close>

section \<open>Candidates and the basis of a proposal\<close>

definition candidate_less :: "EvidenceCarryoverCandidate \<Rightarrow> EvidenceCarryoverCandidate \<Rightarrow> bool" where
  "candidate_less a b =
     (if ecc_NodeRevisionID a \<noteq> ecc_NodeRevisionID b then ecc_NodeRevisionID a < ecc_NodeRevisionID b
      else ecc_DocumentRevisionID a < ecc_DocumentRevisionID b)"

definition candidate_complete :: "EvidenceCarryoverCandidate \<Rightarrow> bool" where
  "candidate_complete c \<longleftrightarrow> ecc_KnowledgeRevisionID c \<noteq> [] \<and> ecc_NodeID c \<noteq> [] \<and> ecc_NodeRevisionID c \<noteq> [] \<and> ecc_DocumentRevisionID c \<noteq> []"

fun candidates_error :: "EvidenceCarryoverCandidate option \<Rightarrow> EvidenceCarryoverCandidate list \<Rightarrow> error option" where
  "candidates_error previous [] = None"
| "candidates_error previous (c # cs) =
     (if \<not> candidate_complete c then Some (invalid_reason ''carryover_candidate_incomplete'')
      else if (case previous of None \<Rightarrow> False | Some p \<Rightarrow> ecc_NodeRevisionID p = ecc_NodeRevisionID c)
      then Some (invalid_reason ''duplicate_carryover_candidate'')
      else candidates_error (Some c) cs)"

definition NormalizeEvidenceCarryoverCandidates ::
  "'r carry_env \<Rightarrow> EvidenceCarryoverCandidate list \<Rightarrow> error + (EvidenceCarryoverCandidate list \<times> string)" where
  "NormalizeEvidenceCarryoverCandidates E candidates =
     (let result = go_sort candidate_less candidates
      in checkE (candidates_error None result)
           (bindE (ke_hash_candidates E EvidenceCarryoverPolicyVersion result) (\<lambda>fingerprint. Inr (result, fingerprint))))"

definition ComputeEvidenceCarryoverBasis :: "'r carry_env \<Rightarrow> EvidenceCarryoverProposal \<Rightarrow> string" where
  "ComputeEvidenceCarryoverBasis E p =
     (case ke_hash_basis E
        \<lparr>kb_Version = EvidenceCarryoverPolicyVersion, kb_ProposalID = ecp_ID p, kb_KnowledgeProposalID = ecp_KnowledgeProposalID p,
         kb_SourceEvidenceID = ecp_SourceEvidenceID p, kb_SourceKnowledgeRevisionID = ecp_SourceKnowledgeRevisionID p,
         kb_SourceNodeRevisionID = ecp_SourceNodeRevisionID p, kb_TargetKnowledgeRevisionID = ecp_TargetKnowledgeRevisionID p,
         kb_Candidates = ecp_Candidates p, kb_KnowledgeBasisHash = ecp_KnowledgeBasisHash p,
         kb_EvidenceFingerprint = ecp_EvidenceFingerprint p, kb_CandidateFingerprint = ecp_CandidateFingerprint p,
         kb_KnowledgeGeneration = ecp_KnowledgeGeneration p, kb_LearningGeneration = ecp_LearningGeneration p,
         kb_PolicyVersion = ecp_PolicyVersion p\<rparr> of
        Inl _ \<Rightarrow> [] | Inr h \<Rightarrow> h)"

section \<open>The service\<close>

definition validateEvidenceCarryoverDecision :: "golib \<Rightarrow> string \<Rightarrow> EvidenceCarryoverDecisionCommand \<Rightarrow> error option" where
  "validateEvidenceCarryoverDecision L actor cmd =
     (if lib_uuid_parse L actor = None \<or> lib_uuid_parse L (edc_OperationID cmd) = None \<or> lib_uuid_parse L (edc_ProposalID cmd) = None
         \<or> edc_Decision cmd \<noteq> ''approve'' \<and> edc_Decision cmd \<noteq> ''reject'' \<or> \<not> valid_utf8 (edc_Reason cmd)
         \<or> trim_space (edc_Reason cmd) = [] \<or> MaxCarryoverDecisionRunes < rune_count (edc_Reason cmd)
      then Some (err_code CodeInvalidRequest) else None)"

text \<open>The command as the service hands it to the store; \<open>hash\<close> is \<open>HashJSON\<close> of the operation, proposal, decision, reason and actor.\<close>

definition prepare_carryover ::
  "golib \<Rightarrow> (string \<times> string \<times> string \<times> string \<times> string \<Rightarrow> error + string) \<Rightarrow> string \<Rightarrow> time \<Rightarrow> string
    \<Rightarrow> EvidenceCarryoverDecisionCommand \<Rightarrow> error + PreparedEvidenceCarryoverDecision" where
  "prepare_carryover L hash fresh now actor cmd =
     (let tidy = (\<lambda>s. lower_case L (trim_space s));
          actor = tidy actor;
          cmd = \<lparr>edc_OperationID = tidy (edc_OperationID cmd), edc_ProposalID = tidy (edc_ProposalID cmd),
            edc_Decision = trim_space (edc_Decision cmd), edc_Reason = trim_space (edc_Reason cmd)\<rparr>
      in checkE (validateEvidenceCarryoverDecision L actor cmd)
           (bindE (hash (edc_OperationID cmd, edc_ProposalID cmd, edc_Decision cmd, edc_Reason cmd, actor)) (\<lambda>h.
            if lib_uuid_parse L fresh = None
            then Inl (PlainError ''UUID generator returned invalid evidence carryover decision ID'')
            else Inr \<lparr>ped_OperationID = edc_OperationID cmd, ped_RequestHash = h, ped_ProposalID = edc_ProposalID cmd,
              ped_RequestedDecision = edc_Decision cmd, ped_Reason = edc_Reason cmd, ped_ActorDeviceID = actor,
              ped_DecisionID = fresh, ped_DecidedAt = trunc_microsecond now\<rparr>)))"

section \<open>Reading a proposal\<close>

definition optionalStringValue :: "string option \<Rightarrow> string" where
  "optionalStringValue v = (case v of None \<Rightarrow> [] | Some s \<Rightarrow> s)"

definition validatedEvidenceCarryoverCandidates ::
  "'r carry_env \<Rightarrow> 'r carry_db \<Rightarrow> string \<Rightarrow> string \<Rightarrow> error + (EvidenceCarryoverCandidate list \<times> string)" where
  "validatedEvidenceCarryoverCandidates E X i target =
     NormalizeEvidenceCarryoverCandidates E
       (map snd (filter (\<lambda>(j, c). j = i \<and> ecc_KnowledgeRevisionID c = target) (kd_Candidates X)))"

definition readEvidenceCarryoverDecision :: "'r carry_db \<Rightarrow> string \<Rightarrow> bool \<Rightarrow> EvidenceCarryoverDecision option" where
  "readEvidenceCarryoverDecision X i redacted =
     map_option (\<lambda>d. if redacted then d\<lparr>ecd_Reason := []\<rparr> else d) (map_of (kd_Decisions X) i)"

definition readEvidenceCarryoverLinks :: "'r carry_db \<Rightarrow> string \<Rightarrow> bool \<Rightarrow> EvidenceCarryoverLink list" where
  "readEvidenceCarryoverLinks X i redacted =
     go_sort (\<lambda>a b. ecl_ID a < ecl_ID b)
       (map (\<lambda>l. if redacted then l\<lparr>ecl_SourceEvidenceID := [], ecl_TargetKnowledgeRevisionID := [], ecl_TargetNodeID := [],
                  ecl_TargetNodeRevisionID := [], ecl_TargetDocumentRevisionID := []\<rparr> else l)
         (filter (\<lambda>l. ecl_ProposalID l = i) (map snd (kd_Links X))))"

definition stored_proposal :: "string \<Rightarrow> carryover_row \<Rightarrow> EvidenceCarryoverProposal" where
  "stored_proposal i row =
     (let shown = (\<lambda>v. if kr_Redacted row then [] else v)
      in \<lparr>ecp_ID = i, ecp_KnowledgeProposalID = kr_KnowledgeProposalID row, ecp_Status = kr_Status row,
          ecp_SourceEvidenceID = shown (optionalStringValue (kr_SourceEvidenceID row)),
          ecp_SourceKnowledgeRevisionID = shown (optionalStringValue (kr_SourceKnowledgeRevisionID row)),
          ecp_SourceNodeRevisionID = shown (optionalStringValue (kr_SourceNodeRevisionID row)),
          ecp_TargetKnowledgeRevisionID = shown (optionalStringValue (kr_TargetKnowledgeRevisionID row)), ecp_Candidates = [],
          ecp_KnowledgeBasisHash = shown (hex_encode (kr_KnowledgeBasis row)),
          ecp_EvidenceFingerprint = shown (hex_encode (kr_EvidenceFingerprint row)),
          ecp_CandidateFingerprint = shown (hex_encode (kr_CandidateFingerprint row)),
          ecp_BasisFingerprint = shown (hex_encode (kr_BasisFingerprint row)),
          ecp_KnowledgeGeneration = kr_KnowledgeGeneration row, ecp_LearningGeneration = kr_LearningGeneration row,
          ecp_PolicyVersion = kr_PolicyVersion row, ecp_Decision = None, ecp_Links = [], ecp_CreatedAt = kr_CreatedAt row,
          ecp_UpdatedAt = kr_UpdatedAt row, ecp_Redacted = kr_Redacted row, ecp_Replayed = False\<rparr>)"

definition readEvidenceCarryover :: "'r carry_env \<Rightarrow> 'r carry_db \<Rightarrow> string \<Rightarrow> error + EvidenceCarryoverProposal" where
  "readEvidenceCarryover E X i =
     (case map_of (kd_Proposals X) i of
        None \<Rightarrow> Inl (err_code CodeNotFound)
      | Some row \<Rightarrow>
          let p = stored_proposal i row
          in bindE (if kr_Redacted row then Inr []
                    else bindE (validatedEvidenceCarryoverCandidates E X i (ecp_TargetKnowledgeRevisionID p)) (\<lambda>(cs, _). Inr cs)) (\<lambda>cs.
             Inr (p\<lparr>ecp_Candidates := cs, ecp_Decision := readEvidenceCarryoverDecision X i (kr_Redacted row),
                    ecp_Links := readEvidenceCarryoverLinks X i (kr_Redacted row)\<rparr>)))"

definition lookupEvidenceCarryoverOperation :: "'r carry_db \<Rightarrow> string \<Rightarrow> (string \<times> string) option" where
  "lookupEvidenceCarryoverOperation X operation = map_option (\<lambda>(h, i). (i, hex_encode h)) (map_of (kd_Operations X) operation)"

section \<open>Does the basis still stand?\<close>

definition approved_link :: "'r carry_db \<Rightarrow> EvidenceCarryoverProposal \<Rightarrow> EvidenceCarryoverLink \<Rightarrow> bool" where
  "approved_link X p l \<longleftrightarrow> ecl_SourceEvidenceID l = ecp_SourceEvidenceID p
     \<and> ecl_TargetKnowledgeRevisionID l = ecp_SourceKnowledgeRevisionID p \<and> ecl_TargetNodeRevisionID l = ecp_SourceNodeRevisionID p
     \<and> (case map_of (kd_Proposals X) (ecl_ProposalID l) of None \<Rightarrow> False | Some row \<Rightarrow> kr_Status row = EvidenceCarryoverApproved)"

definition source_reference_valid :: "'r carry_env \<Rightarrow> 'r carry_db \<Rightarrow> EvidenceCarryoverProposal \<Rightarrow> bool" where
  "source_reference_valid E X p =
     (case ke_evidence E (ecp_SourceEvidenceID p) (db_Other (kd_Store X)) of
        None \<Rightarrow> False
      | Some (knowledge, node) \<Rightarrow>
          knowledge = ecp_SourceKnowledgeRevisionID p \<and> node = ecp_SourceNodeRevisionID p
          \<or> list_ex (\<lambda>(_, l). approved_link X p l) (kd_Links X))"

definition evidenceCarryoverIsStale ::
  "'r carry_env \<Rightarrow> 'r carry_db \<Rightarrow> EvidenceCarryoverProposal \<Rightarrow> int \<Rightarrow> int \<Rightarrow> error + bool" where
  "evidenceCarryoverIsStale E X p knowledge learning =
     (if ecp_KnowledgeGeneration p \<noteq> knowledge \<or> ecp_LearningGeneration p \<noteq> learning
         \<or> ecp_PolicyVersion p \<noteq> EvidenceCarryoverPolicyVersion \<or> ecp_BasisFingerprint p \<noteq> ComputeEvidenceCarryoverBasis E p
      then Inr True
      else bindE (ke_valid_target E (ecp_TargetKnowledgeRevisionID p) (ecp_KnowledgeProposalID p) (ecp_KnowledgeBasisHash p)
                    (ecp_Candidates p) (db_Other (kd_Store X))) (\<lambda>valid.
           if \<not> valid then Inr True
           else if \<not> source_reference_valid E X p then Inr True
           else bindE (validatedEvidenceCarryoverCandidates E X (ecp_ID p) (ecp_TargetKnowledgeRevisionID p)) (\<lambda>(cs, fingerprint).
             Inr (fingerprint \<noteq> ecp_CandidateFingerprint p \<or> cs \<noteq> ecp_Candidates p))))"

section \<open>Recording a decision\<close>

definition carryover_decision ::
  "'r carry_env \<Rightarrow> PreparedEvidenceCarryoverDecision \<Rightarrow> EvidenceCarryoverStatus \<Rightarrow> int \<Rightarrow> EvidenceCarryoverDecision" where
  "carryover_decision E cmd outcome sequence =
     \<lparr>ecd_ID = ped_DecisionID cmd, ecd_OperationID = ped_OperationID cmd, ecd_RequestedDecision = ped_RequestedDecision cmd,
      ecd_Outcome = carryover_text outcome, ecd_Reason = ped_Reason cmd, ecd_ActorDeviceID = ped_ActorDeviceID cmd,
      ecd_EventID = se_event_uuid (ke_store E) (ped_ActorDeviceID cmd @ [CHR 0x0A] @ ped_OperationID cmd @ [CHR 0x0A] @ ''0''),
      ecd_EventSequence = sequence, ecd_CreatedAt = trunc_microsecond (ped_DecidedAt cmd)\<rparr>"

definition carryover_link ::
  "'r carry_env \<Rightarrow> EvidenceCarryoverProposal \<Rightarrow> EvidenceCarryoverDecision \<Rightarrow> EvidenceCarryoverCandidate \<Rightarrow> EvidenceCarryoverLink" where
  "carryover_link E p d c =
     \<lparr>ecl_ID = ke_link_uuid E (ecp_ID p @ [CHR 0x0A] @ ecc_NodeRevisionID c), ecl_ProposalID = ecp_ID p,
      ecl_SourceEvidenceID = ecp_SourceEvidenceID p, ecl_TargetKnowledgeRevisionID = ecc_KnowledgeRevisionID c,
      ecl_TargetNodeID = ecc_NodeID c, ecl_TargetNodeRevisionID = ecc_NodeRevisionID c,
      ecl_TargetDocumentRevisionID = ecc_DocumentRevisionID c, ecl_DecisionID = ecd_ID d, ecl_EventID = ecd_EventID d,
      ecl_EventSequence = ecd_EventSequence d, ecl_CreatedAt = ecd_CreatedAt d\<rparr>"

definition carryover_links ::
  "'r carry_env \<Rightarrow> EvidenceCarryoverProposal \<Rightarrow> EvidenceCarryoverDecision \<Rightarrow> EvidenceCarryoverStatus \<Rightarrow> EvidenceCarryoverLink list" where
  "carryover_links E p d outcome =
     (if outcome = EvidenceCarryoverApproved then map (carryover_link E p d) (ecp_Candidates p) else [])"

definition carryover_event ::
  "EvidenceCarryoverProposal \<Rightarrow> EvidenceCarryoverDecision \<Rightarrow> EvidenceCarryoverStatus \<Rightarrow> EvidenceCarryoverLink list \<Rightarrow> EvidenceCarryoverEvent" where
  "carryover_event p d outcome links =
     \<lparr>ece_ProposalID = ecp_ID p, ece_DecisionID = ecd_ID d, ece_RequestedDecision = ecd_RequestedDecision d,
      ece_Outcome = carryover_text outcome, ece_Reason = ecd_Reason d,
      ece_Provisional = (if outcome \<noteq> EvidenceCarryoverApproved then None else Some
        \<lparr>pec_ProposalID = ecp_ID p, pec_KnowledgeProposalID = ecp_KnowledgeProposalID p, pec_SourceEvidenceID = ecp_SourceEvidenceID p,
         pec_SourceKnowledgeRevisionID = ecp_SourceKnowledgeRevisionID p, pec_SourceNodeRevisionID = ecp_SourceNodeRevisionID p,
         pec_TargetKnowledgeRevisionID = ecp_TargetKnowledgeRevisionID p, pec_Links = links,
         pec_BasisFingerprint = ecp_BasisFingerprint p, pec_PolicyVersion = ecp_PolicyVersion p,
         pec_ApprovedEventSequence = ecd_EventSequence d\<rparr>)\<rparr>"

definition carryover_learning_event ::
  "'r carry_env \<Rightarrow> string \<Rightarrow> EvidenceCarryoverDecision \<Rightarrow> EventType \<Rightarrow> string \<Rightarrow> LearningEvent" where
  "carryover_learning_event E i d kind payload =
     \<lparr>le_EventSequence = ecd_EventSequence d, le_ID = ecd_EventID d, le_Type = kind, le_SchemaVersion = EventSchemaVersion,
      le_AggregateType = ''evidence_carryover'', le_AggregateID = i, le_AggregateVersion = 1,
      le_DeviceID = ecd_ActorDeviceID d, le_OperationID = ecd_OperationID d, le_OperationOrdinal = 0, le_ReceivedAt = ecd_CreatedAt d,
      le_OccurredAt = None, le_PayloadID = se_event_uuid (ke_store E) (''payload'' @ [CHR 0x0A] @ ecd_EventID d),
      le_PayloadHash = SHA256 (se_lib (ke_store E)) payload, le_Payload = payload, le_ParentSessionID = [], le_Source = ''online'',
      le_ArchiveDisposition = [], le_EvidenceDisposition = [], le_GoalRevisionID = [], le_RouteRevisionID = [],
      le_KnowledgeRevisionID = [], le_ActivityID = [], le_ActivityRevision = 0, le_Redacted = False\<rparr>"

definition insert_carryover_decision ::
  "string \<Rightarrow> EvidenceCarryoverDecision \<Rightarrow> (string, EvidenceCarryoverDecision) gomap \<Rightarrow> error + (string, EvidenceCarryoverDecision) gomap" where
  "insert_carryover_decision i d decisions =
     (if ecd_Reason d = []
         \<or> \<not> (ecd_RequestedDecision d = ''approve'' \<and> ecd_Outcome d \<in> {''approved'', ''stale''}
              \<or> ecd_RequestedDecision d = ''reject'' \<and> ecd_Outcome d = ''rejected'')
         \<or> list_ex (\<lambda>(j, x). j = i \<or> ecd_ID x = ecd_ID d \<or> ecd_OperationID x = ecd_OperationID d \<or> ecd_EventID x = ecd_EventID d
              \<or> ecd_EventSequence x = ecd_EventSequence d) decisions
      then Inl (PlainError ''insert evidence carryover decision'')
      else Inr (AList.update i d decisions))"

fun insert_carryover_links ::
  "EvidenceCarryoverLink list \<Rightarrow> (string, EvidenceCarryoverLink) gomap \<Rightarrow> error + (string, EvidenceCarryoverLink) gomap" where
  "insert_carryover_links [] links = Inr links"
| "insert_carryover_links (l # ls) links =
     (if list_ex (\<lambda>(j, x). j = ecl_ID l
            \<or> ecl_ProposalID x = ecl_ProposalID l \<and> ecl_TargetNodeRevisionID x = ecl_TargetNodeRevisionID l) links
      then Inl (PlainError ''insert evidence carryover link'')
      else insert_carryover_links ls (links @ [(ecl_ID l, l)]))"

definition close_carryover ::
  "string \<Rightarrow> EvidenceCarryoverStatus \<Rightarrow> time \<Rightarrow> (string, carryover_row) gomap \<Rightarrow> error + (string, carryover_row) gomap" where
  "close_carryover i outcome now rows =
     (case map_of rows i of
        None \<Rightarrow> Inr rows
      | Some row \<Rightarrow>
          if kr_Status row \<noteq> EvidenceCarryoverOpen then Inr rows
          else if now < kr_CreatedAt row then Inl (PlainError ''close evidence carryover proposal'')
          else Inr (AList.update i (row\<lparr>kr_Status := outcome, kr_UpdatedAt := now\<rparr>) rows))"

definition insert_carryover_operation ::
  "PreparedEvidenceCarryoverDecision \<Rightarrow> (string, string \<times> string) gomap \<Rightarrow> error + (string, string \<times> string) gomap" where
  "insert_carryover_operation cmd operations =
     (case decodeHash (ped_RequestHash cmd) of
        None \<Rightarrow> Inl invalid_hash
      | Some h \<Rightarrow>
          if map_of operations (ped_OperationID cmd) \<noteq> None then Inl (PlainError ''insert evidence carryover operation'')
          else Inr (AList.update (ped_OperationID cmd) (h, ped_ProposalID cmd) operations))"

text \<open>The event, the head of its aggregate and the clock.\<close>

definition append_carryover_event :: "LearningEvent \<Rightarrow> 'r db \<Rightarrow> error + 'r db" where
  "append_carryover_event e D =
     (if event_insertable (db_Events D) e
      then Inr (D\<lparr>db_Heads := AList.update (''evidence_carryover'', le_AggregateID e) 1 (db_Heads D),
                  db_Events := db_Events D @ [e], db_Clock := le_EventSequence e\<rparr>)
      else Inl (PlainError ''insert evidence carryover event''))"

definition appendEvidenceCarryoverDecision ::
  "'r carry_env \<Rightarrow> EvidenceCarryoverProposal \<Rightarrow> PreparedEvidenceCarryoverDecision \<Rightarrow> EventType \<Rightarrow> EvidenceCarryoverStatus \<Rightarrow> 'r carry_db
    \<Rightarrow> error + (EvidenceCarryoverProposal \<times> 'r carry_db)" where
  "appendEvidenceCarryoverDecision E p cmd kind outcome X =
     (let D = kd_Store X; S = ke_store E
      in if map_of (db_Heads D) (''evidence_carryover'', ecp_ID p) \<noteq> None then Inl (err_code CodeOperationConflict)
         else
           let d = carryover_decision E cmd outcome (int64 (db_Clock D + 1)); links = carryover_links E p d outcome
           in bindE (ke_print_event E (carryover_event p d outcome links)) (\<lambda>raw.
              bindE (canonicalJSON S raw) (\<lambda>payload.
              bindE (append_carryover_event (carryover_learning_event E (ecp_ID p) d kind payload) D) (\<lambda>D.
              bindE (insert_carryover_decision (ecp_ID p) d (kd_Decisions X)) (\<lambda>decisions.
              bindE (insert_carryover_links links (kd_Links X)) (\<lambda>rows.
              bindE (close_carryover (ecp_ID p) outcome (ecd_CreatedAt d) (kd_Proposals X)) (\<lambda>proposals.
              bindE (insert_carryover_operation cmd (kd_Operations X)) (\<lambda>operations.
              bindE (project_commit S (ecd_EventSequence d) D) (\<lambda>D.
                Inr (p\<lparr>ecp_Status := outcome, ecp_Decision := Some d, ecp_Links := links, ecp_UpdatedAt := ecd_CreatedAt d\<rparr>,
                  X\<lparr>kd_Store := D, kd_Proposals := proposals, kd_Decisions := decisions, kd_Links := rows,
                    kd_Operations := operations\<rparr>))))))))))"

section \<open>DecideEvidenceCarryover\<close>

definition carryover_outcome :: "string \<Rightarrow> bool \<Rightarrow> EvidenceCarryoverStatus \<times> EventType" where
  "carryover_outcome requested outdated =
     (if requested \<noteq> ''approve'' then (EvidenceCarryoverRejected, EventEvidenceCarryoverRejected)
      else if outdated then (EvidenceCarryoverStale, EventEvidenceCarryoverStaled)
      else (EvidenceCarryoverApproved, EventEvidenceCarryoverApproved))"

definition decide_open_carryover ::
  "'r carry_env \<Rightarrow> PreparedEvidenceCarryoverDecision \<Rightarrow> int \<Rightarrow> int \<Rightarrow> 'r carry_db \<Rightarrow> error + (EvidenceCarryoverProposal \<times> 'r carry_db)" where
  "decide_open_carryover E cmd knowledge learning X =
     bindE (readEvidenceCarryover E X (ped_ProposalID cmd)) (\<lambda>p.
       let approve = (ped_RequestedDecision cmd = ''approve'')
       in if ecp_Status p \<noteq> EvidenceCarryoverOpen \<or> ecp_Redacted p then Inl (err_code CodeOperationConflict)
          else if approve \<and> ecp_Candidates p = [] then Inl (err_code CodeEvidenceCarryoverNoCandidates)
          else bindE (if approve then evidenceCarryoverIsStale E X p knowledge learning else Inr False) (\<lambda>outdated.
            case carryover_outcome (ped_RequestedDecision cmd) outdated of
              (outcome, kind) \<Rightarrow> appendEvidenceCarryoverDecision E p cmd kind outcome X))"

definition decide_carryover_body ::
  "'r carry_env \<Rightarrow> PreparedEvidenceCarryoverDecision \<Rightarrow> 'r carry_db \<Rightarrow> store_failure + (EvidenceCarryoverProposal \<times> 'r carry_db)" where
  "decide_carryover_body E cmd X =
     (let r = db_Other (kd_Store X)
      in bindE (ke_knowledge E r) (\<lambda>knowledge.
         bindE (ke_learning E r) (\<lambda>learning.
         case lookupEvidenceCarryoverOperation X (ped_OperationID cmd) of
           Some (i, h) \<Rightarrow>
             if h \<noteq> ped_RequestHash cmd then Inl (StoreFailure (err_code CodeOperationConflict))
             else bindE (plain (readEvidenceCarryover E X i)) (\<lambda>p. Inr (p\<lparr>ecp_Replayed := True\<rparr>, X))
         | None \<Rightarrow> plain (decide_open_carryover E cmd knowledge learning X))))"

definition DecideEvidenceCarryover ::
  "'r carry_env \<Rightarrow> PreparedEvidenceCarryoverDecision \<Rightarrow> 'r carry_db \<Rightarrow> (store_failure + EvidenceCarryoverProposal) \<times> 'r carry_db" where
  "DecideEvidenceCarryover E cmd X =
     (case decide_carryover_body E cmd X of Inl f \<Rightarrow> (Inl f, X) | Inr (p, Y) \<Rightarrow> (Inr p, Y))"

end
