(* ===== verification/Carryover_Decided.thy ===== *)
theory Carryover_Decided
  imports Carryover
begin

text \<open>
  The life of a carry-over proposal: what a decision writes, that it is taken once and answered alike ever after, what an approval
  rests on, and that the log and its projection stay as theory \<open>Event_Log\<close> has them.
\<close>

section \<open>Candidates\<close>

interpretation candidate_order: strict_weak candidate_less
  by unfold_locales (auto simp: candidate_less_def split: if_splits)

lemma candidates_error_None:
  "candidates_error previous cs = None \<Longrightarrow> (\<forall>c \<in> set cs. candidate_complete c) \<and> successively (\<lambda>a b. ecc_NodeRevisionID a \<noteq> ecc_NodeRevisionID b) cs"
proof (induction previous cs rule: candidates_error.induct)
  case (2 previous c cs)
  then have "candidates_error (Some c) cs = None" "candidate_complete c" by (auto split: if_splits)
  with 2 show ?case by (cases cs) (auto split: if_splits)
qed simp

text \<open>Sorted and without equal neighbours: no node revision occurs twice.\<close>

lemma sorted_candidates_distinct:
  assumes "sorted_wrt (\<lambda>a b. \<not> candidate_less b a) cs" "successively (\<lambda>a b. ecc_NodeRevisionID a \<noteq> ecc_NodeRevisionID b) cs"
  shows "sorted_wrt (<) (map ecc_NodeRevisionID cs)"
proof -
  have le: "\<not> candidate_less b a \<Longrightarrow> ecc_NodeRevisionID a \<le> ecc_NodeRevisionID b" for a b
    by (auto simp: candidate_less_def split: if_splits)
  have "successively (\<lambda>a b. ecc_NodeRevisionID a < ecc_NodeRevisionID b) cs"
    using assms
  proof (induction cs)
    case (Cons c cs)
    then show ?case using le by (cases cs) (auto simp: order_le_less)
  qed simp
  then have "successively (<) (map ecc_NodeRevisionID cs)" by (simp add: successively_map)
  then show ?thesis by (simp add: successively_conv_sorted_wrt transp_on_less)
qed

lemma NormalizeEvidenceCarryoverCandidates_Inr:
  assumes "NormalizeEvidenceCarryoverCandidates E cs = Inr (rs, h)"
  shows "rs = go_sort candidate_less cs" "candidates_error None rs = None" "ke_hash_candidates E EvidenceCarryoverPolicyVersion rs = Inr h"
    "sorted_wrt (<) (map ecc_NodeRevisionID rs)"
proof -
  show rs: "rs = go_sort candidate_less cs" "candidates_error None rs = None" "ke_hash_candidates E EvidenceCarryoverPolicyVersion rs = Inr h"
    using assms by (auto simp: NormalizeEvidenceCarryoverCandidates_def Let_def)
  show "sorted_wrt (<) (map ecc_NodeRevisionID rs)"
    using sorted_candidates_distinct candidate_order.go_sort_sorted candidates_error_None [OF rs(2)] unfolding rs(1) by blast
qed

section \<open>What a decision writes\<close>

lemma insert_carryover_links_Inr:
  "insert_carryover_links ls links = Inr links' \<Longrightarrow>
   links' = links @ map (\<lambda>l. (ecl_ID l, l)) ls \<and> (\<forall>l \<in> set ls. map_of links (ecl_ID l) = None)"
proof (induction ls arbitrary: links)
  case (Cons l ls)
  then have ok: "\<not> list_ex (\<lambda>(j, x). j = ecl_ID l \<or> ecl_ProposalID x = ecl_ProposalID l
      \<and> ecl_TargetNodeRevisionID x = ecl_TargetNodeRevisionID l) links"
    and rest: "insert_carryover_links ls (links @ [(ecl_ID l, l)]) = Inr links'" by (auto split: if_splits)
  have "map_of links (ecl_ID l) = None" using ok by (auto simp: list_ex_iff map_of_eq_None_iff)
  with Cons.IH [OF rest] show ?case by (auto simp: map_add_def split: option.splits)
qed simp

lemma close_carryover_lookup:
  assumes "close_carryover i outcome now rows = Inr rows'" "map_of rows i = Some row" "kr_Status row = EvidenceCarryoverOpen"
  shows "map_of rows' j = (if j = i then Some (row\<lparr>kr_Status := outcome, kr_UpdatedAt := now\<rparr>) else map_of rows j)"
  using assms by (auto simp: close_carryover_def split: if_splits)

text \<open>Everything a decision leaves behind.\<close>

definition decided ::
  "'r carry_env \<Rightarrow> PreparedEvidenceCarryoverDecision \<Rightarrow> EvidenceCarryoverProposal \<Rightarrow> EvidenceCarryoverStatus \<Rightarrow> EventType
    \<Rightarrow> EvidenceCarryoverProposal \<Rightarrow> 'r carry_db \<Rightarrow> 'r carry_db \<Rightarrow> bool" where
  "decided E cmd p outcome kind q X Y \<longleftrightarrow>
     (let i = ped_ProposalID cmd; d = carryover_decision E cmd outcome (int64 (db_Clock (kd_Store X) + 1));
          links = carryover_links E p d outcome
      in q = p\<lparr>ecp_Status := outcome, ecp_Decision := Some d, ecp_Links := links, ecp_UpdatedAt := ecd_CreatedAt d\<rparr>
       \<and> (\<exists>payload e. e = carryover_learning_event E i d kind payload \<and> event_insertable (db_Events (kd_Store X)) e
           \<and> db_Events (kd_Store Y) = db_Events (kd_Store X) @ [e])
       \<and> map_of (db_Heads (kd_Store X)) (''evidence_carryover'', i) = None
       \<and> db_Heads (kd_Store Y) = AList.update (''evidence_carryover'', i) 1 (db_Heads (kd_Store X))
       \<and> db_Clock (kd_Store Y) = ecd_EventSequence d \<and> projection_current (ke_store E) (kd_Store Y)
       \<and> map_of (kd_Decisions X) i = None \<and> kd_Decisions Y = AList.update i d (kd_Decisions X)
       \<and> (\<forall>j x. map_of (kd_Decisions X) j = Some x \<longrightarrow> ecd_OperationID x \<noteq> ped_OperationID cmd)
       \<and> kd_Links Y = kd_Links X @ map (\<lambda>l. (ecl_ID l, l)) links
       \<and> close_carryover i outcome (ecd_CreatedAt d) (kd_Proposals X) = Inr (kd_Proposals Y)
       \<and> map_of (kd_Operations X) (ped_OperationID cmd) = None
       \<and> (\<exists>h. decodeHash (ped_RequestHash cmd) = Some h
           \<and> kd_Operations Y = AList.update (ped_OperationID cmd) (h, i) (kd_Operations X))
       \<and> kd_Candidates Y = kd_Candidates X)"

lemma appendEvidenceCarryoverDecision_Inr:
  assumes "appendEvidenceCarryoverDecision E p cmd kind outcome X = Inr (q, Y)" "ecp_ID p = ped_ProposalID cmd"
  shows "decided E cmd p outcome kind q X Y"
proof -
  let ?D = "kd_Store X" and ?S = "ke_store E" and ?i = "ped_ProposalID cmd"
  let ?d = "carryover_decision E cmd outcome (int64 (db_Clock ?D + 1))"
  let ?links = "carryover_links E p ?d outcome"
  have free: "map_of (db_Heads ?D) (''evidence_carryover'', ?i) = None"
    using assms by (cases "map_of (db_Heads ?D) (''evidence_carryover'', ?i)") (simp_all add: appendEvidenceCarryoverDecision_def Let_def)
  obtain raw where raw: "ke_print_event E (carryover_event p ?d outcome ?links) = Inr raw"
    using assms free by (auto simp: appendEvidenceCarryoverDecision_def Let_def)
  obtain payload where payload: "canonicalJSON ?S raw = Inr payload"
    using assms free raw by (auto simp: appendEvidenceCarryoverDecision_def Let_def)
  let ?e = "carryover_learning_event E ?i ?d kind payload"
  obtain D1 where d1: "append_carryover_event ?e ?D = Inr D1"
    using assms free raw payload by (auto simp: appendEvidenceCarryoverDecision_def Let_def)
  obtain decisions where dec: "insert_carryover_decision ?i ?d (kd_Decisions X) = Inr decisions"
    using assms free raw payload d1 by (auto simp: appendEvidenceCarryoverDecision_def Let_def)
  obtain rows where rows: "insert_carryover_links ?links (kd_Links X) = Inr rows"
    using assms free raw payload d1 dec by (auto simp: appendEvidenceCarryoverDecision_def Let_def)
  obtain proposals where props: "close_carryover ?i outcome (ecd_CreatedAt ?d) (kd_Proposals X) = Inr proposals"
    using assms free raw payload d1 dec rows by (auto simp: appendEvidenceCarryoverDecision_def Let_def)
  obtain operations where ops: "insert_carryover_operation cmd (kd_Operations X) = Inr operations"
    using assms free raw payload d1 dec rows props by (auto simp: appendEvidenceCarryoverDecision_def Let_def)
  obtain D2 where d2: "project_commit ?S (ecd_EventSequence ?d) D1 = Inr D2"
    using assms free raw payload d1 dec rows props ops by (auto simp: appendEvidenceCarryoverDecision_def Let_def)
  have q: "q = p\<lparr>ecp_Status := outcome, ecp_Decision := Some ?d, ecp_Links := ?links, ecp_UpdatedAt := ecd_CreatedAt ?d\<rparr>"
    and y: "Y = X\<lparr>kd_Store := D2, kd_Proposals := proposals, kd_Decisions := decisions, kd_Links := rows, kd_Operations := operations\<rparr>"
    using assms free raw payload d1 dec rows props ops d2 by (auto simp: appendEvidenceCarryoverDecision_def Let_def)
  have ok: "event_insertable (db_Events ?D) ?e"
    and d1': "D1 = ?D\<lparr>db_Heads := AList.update (''evidence_carryover'', ?i) 1 (db_Heads ?D), db_Events := db_Events ?D @ [?e],
       db_Clock := ecd_EventSequence ?d\<rparr>"
    using d1 by (auto simp: append_carryover_event_def carryover_learning_event_def split: if_splits)
  obtain pr where rp: "replaceProjection ?S (db_Active D1) pr (ecd_EventSequence ?d) D1 = Inr D2"
    using project_commit_Inr [OF d2] by metis
  have d2': "db_Events D2 = db_Events D1" "db_Heads D2 = db_Heads D1" "db_Clock D2 = db_Clock D1"
    by (rule replaceProjection_Inr [OF rp], simp)+
  have current: "projection_current ?S D2"
    by (rule project_commit_current [OF d2]) (simp add: d2' d1')
  have log: "\<exists>payload e. e = carryover_learning_event E ?i ?d kind payload \<and> event_insertable (db_Events ?D) e
           \<and> db_Events D2 = db_Events ?D @ [e]"
    using ok by (intro exI [of _ payload] exI [of _ ?e]) (simp add: d2' d1')
  have decs: "map_of (kd_Decisions X) ?i = None" "decisions = AList.update ?i ?d (kd_Decisions X)"
    "\<forall>j x. map_of (kd_Decisions X) j = Some x \<longrightarrow> ecd_OperationID x \<noteq> ped_OperationID cmd"
    using dec by (auto simp: insert_carryover_decision_def list_ex_iff map_of_eq_None_iff carryover_decision_def split: if_splits
        dest!: map_of_SomeD)
  have op: "map_of (kd_Operations X) (ped_OperationID cmd) = None"
    "\<exists>h. decodeHash (ped_RequestHash cmd) = Some h \<and> operations = AList.update (ped_OperationID cmd) (h, ?i) (kd_Operations X)"
    using ops by (cases "map_of (kd_Operations X) (ped_OperationID cmd)";
        auto simp: insert_carryover_operation_def split: option.splits)+
  show ?thesis
    unfolding decided_def Let_def
    using q log free current decs op props insert_carryover_links_Inr [OF rows] by (simp add: y d2' d1')
qed

section \<open>How DecideEvidenceCarryover ends\<close>

lemma stored_proposal_fields [simp]:
  "ecp_ID (stored_proposal i row) = i" "ecp_Status (stored_proposal i row) = kr_Status row"
  "ecp_Redacted (stored_proposal i row) = kr_Redacted row" "\<not> ecp_Replayed (stored_proposal i row)"
  by (simp_all add: stored_proposal_def Let_def)

lemma readEvidenceCarryover_row:
  assumes "readEvidenceCarryover E X i = Inr p"
  obtains row cs where "map_of (kd_Proposals X) i = Some row"
    "p = (stored_proposal i row)\<lparr>ecp_Candidates := cs, ecp_Decision := readEvidenceCarryoverDecision X i (kr_Redacted row),
       ecp_Links := readEvidenceCarryoverLinks X i (kr_Redacted row)\<rparr>"
    "\<not> kr_Redacted row \<Longrightarrow>
       \<exists>h. validatedEvidenceCarryoverCandidates E X i (ecp_TargetKnowledgeRevisionID (stored_proposal i row)) = Inr (cs, h)"
proof (cases "map_of (kd_Proposals X) i")
  case None
  with assms show thesis by (simp add: readEvidenceCarryover_def)
next
  case (Some row)
  then obtain cs where cs: "(if kr_Redacted row then Inr []
      else bindE (validatedEvidenceCarryoverCandidates E X i (ecp_TargetKnowledgeRevisionID (stored_proposal i row))) (\<lambda>(cs, _). Inr cs)) = Inr cs"
    and p: "p = (stored_proposal i row)\<lparr>ecp_Candidates := cs, ecp_Decision := readEvidenceCarryoverDecision X i (kr_Redacted row),
       ecp_Links := readEvidenceCarryoverLinks X i (kr_Redacted row)\<rparr>"
    using assms by (auto simp: readEvidenceCarryover_def Let_def)
  show thesis by (rule that [OF Some p]) (use cs in \<open>auto split: if_splits\<close>)
qed

lemma readEvidenceCarryover_Inr:
  assumes "readEvidenceCarryover E X i = Inr p"
  obtains row where "map_of (kd_Proposals X) i = Some row" "ecp_ID p = i" "ecp_Status p = kr_Status row" "ecp_Redacted p = kr_Redacted row"
    "\<not> ecp_Replayed p"
  by (rule readEvidenceCarryover_row [OF assms]) (use that in simp)

lemma DecideEvidenceCarryover_cases:
  assumes "DecideEvidenceCarryover E cmd X = (y, Y)"
  obtains (failed) f where "y = Inl f" "Y = X"
  | (replayed) i h p where "y = Inr (p\<lparr>ecp_Replayed := True\<rparr>)" "Y = X" "map_of (kd_Operations X) (ped_OperationID cmd) = Some (h, i)"
      "hex_encode h = ped_RequestHash cmd" "readEvidenceCarryover E X i = Inr p"
  | (settled) knowledge learning p outdated outcome kind q where
      "y = Inr q" "ke_knowledge E (db_Other (kd_Store X)) = Inr knowledge" "ke_learning E (db_Other (kd_Store X)) = Inr learning"
      "readEvidenceCarryover E X (ped_ProposalID cmd) = Inr p" "ecp_Status p = EvidenceCarryoverOpen" "\<not> ecp_Redacted p"
      "ped_RequestedDecision cmd = ''approve'' \<Longrightarrow> ecp_Candidates p \<noteq> []
         \<and> evidenceCarryoverIsStale E X p knowledge learning = Inr outdated"
      "(outcome, kind) = carryover_outcome (ped_RequestedDecision cmd) outdated" "decided E cmd p outcome kind q X Y"
proof (cases "decide_carryover_body E cmd X")
  case (Inl f)
  show thesis by (rule failed [of f]) (use assms Inl in \<open>simp_all add: DecideEvidenceCarryover_def\<close>)
next
  case (Inr b)
  obtain q Z where b: "b = (q, Z)" by fastforce
  have y: "y = Inr q" "Y = Z" using assms Inr b by (simp_all add: DecideEvidenceCarryover_def)
  obtain knowledge where k: "ke_knowledge E (db_Other (kd_Store X)) = Inr knowledge"
    using Inr by (auto simp: decide_carryover_body_def Let_def)
  obtain learning where l: "ke_learning E (db_Other (kd_Store X)) = Inr learning"
    using Inr k by (auto simp: decide_carryover_body_def Let_def)
  show thesis
  proof (cases "map_of (kd_Operations X) (ped_OperationID cmd)")
    case (Some v)
    obtain h i where v: "v = (h, i)" by fastforce
    have same: "hex_encode h = ped_RequestHash cmd"
      using Inr Some v k l by (auto simp: decide_carryover_body_def lookupEvidenceCarryoverOperation_def split: if_splits)
    obtain p where "readEvidenceCarryover E X i = Inr p" "q = p\<lparr>ecp_Replayed := True\<rparr>" "Z = X"
      using Inr b Some v k l same by (auto simp: decide_carryover_body_def lookupEvidenceCarryoverOperation_def)
    then show thesis using replayed y Some v same by simp
  next
    case None
    then have open': "decide_open_carryover E cmd knowledge learning X = Inr (q, Z)"
      using Inr b k l by (simp add: decide_carryover_body_def lookupEvidenceCarryoverOperation_def)
    obtain p where p: "readEvidenceCarryover E X (ped_ProposalID cmd) = Inr p" using open' by (auto simp: decide_open_carryover_def)
    have st: "ecp_Status p = EvidenceCarryoverOpen" "\<not> ecp_Redacted p"
      "ped_RequestedDecision cmd = ''approve'' \<Longrightarrow> ecp_Candidates p \<noteq> []"
      using open' p by (auto simp: decide_open_carryover_def Let_def split: if_splits)
    obtain outdated where outdated: "(if ped_RequestedDecision cmd = ''approve'' then evidenceCarryoverIsStale E X p knowledge learning
        else Inr False) = Inr outdated"
      using open' p st by (auto simp: decide_open_carryover_def Let_def split: if_splits)
    obtain outcome kind where ok: "carryover_outcome (ped_RequestedDecision cmd) outdated = (outcome, kind)" by fastforce
    have "appendEvidenceCarryoverDecision E p cmd kind outcome X = Inr (q, Z)"
      using open' p st outdated ok by (auto simp: decide_open_carryover_def Let_def split: if_splits)
    moreover have "ecp_ID p = ped_ProposalID cmd" by (rule readEvidenceCarryover_Inr [OF p])
    ultimately have "decided E cmd p outcome kind q X Y" using appendEvidenceCarryoverDecision_Inr y by blast
    then show thesis
      using settled [OF y(1) k l p st(1,2) _ ok [symmetric]] st(3) outdated by (simp split: if_splits)
  qed
qed

lemma carryover_outcome_closed:
  "(outcome, kind) = carryover_outcome requested outdated \<Longrightarrow>
   outcome \<in> {EvidenceCarryoverApproved, EvidenceCarryoverRejected, EvidenceCarryoverStale}"
  by (auto simp: carryover_outcome_def split: if_splits)

section \<open>Decisions and online operations in any order\<close>

datatype carry_command = OnlineCommand "CommitRequest + OperationRejection" | DecideCarryover PreparedEvidenceCarryoverDecision

definition carry_step :: "'r carry_env \<Rightarrow> ('r \<Rightarrow> error option) \<Rightarrow> 'r carry_db \<Rightarrow> carry_command \<Rightarrow> error + 'r carry_db" where
  "carry_step E space X c =
     (case c of
        OnlineCommand c \<Rightarrow> bindE (store_step (ke_store E) space (kd_Store X) c) (\<lambda>D. Inr (X\<lparr>kd_Store := D\<rparr>))
      | DecideCarryover cmd \<Rightarrow> Inr (snd (DecideEvidenceCarryover E cmd X)))"

lemma carry_step_cases:
  assumes "carry_step E space X c = Inr Y"
  obtains (online) d D where "store_step (ke_store E) space (kd_Store X) d = Inr D" "Y = X\<lparr>kd_Store := D\<rparr>"
  | (kept) "Y = X"
  | (settled) cmd p row outcome kind q where "map_of (kd_Proposals X) (ped_ProposalID cmd) = Some row" "kr_Status row = EvidenceCarryoverOpen"
      "\<not> kr_Redacted row" "outcome \<in> {EvidenceCarryoverApproved, EvidenceCarryoverRejected, EvidenceCarryoverStale}"
      "ecp_ID p = ped_ProposalID cmd" "decided E cmd p outcome kind q X Y"
proof (cases c)
  case (OnlineCommand d)
  with assms show thesis by (auto simp: carry_step_def intro: online)
next
  case (DecideCarryover cmd)
  obtain y Z where i: "DecideEvidenceCarryover E cmd X = (y, Z)" by fastforce
  have Y: "Y = Z" using assms DecideCarryover i by (simp add: carry_step_def)
  from i show thesis
  proof (cases rule: DecideEvidenceCarryover_cases)
    case (settled knowledge learning p outdated outcome kind q)
    show thesis
      by (rule readEvidenceCarryover_Inr [OF settled(4)])
        (use that(3) settled(5,6,9) carryover_outcome_closed [OF settled(8)] Y in auto)
  qed (use Y kept in simp_all)
qed

section \<open>A decision is final\<close>

text \<open>
  A decision belongs to a closed proposal, and its operation is recorded; links belong to decided proposals.
\<close>

definition carry_inv :: "'r carry_db \<Rightarrow> bool" where
  "carry_inv X \<longleftrightarrow>
     (\<forall>i d. map_of (kd_Decisions X) i = Some d \<longrightarrow> (\<exists>row h. map_of (kd_Proposals X) i = Some row
        \<and> kr_Status row \<noteq> EvidenceCarryoverOpen \<and> carryover_text (kr_Status row) = ecd_Outcome d
        \<and> map_of (kd_Operations X) (ecd_OperationID d) = Some (h, i)))
   \<and> (\<forall>(j, l) \<in> set (kd_Links X). map_of (kd_Decisions X) (ecl_ProposalID l) \<noteq> None)"

text \<open>What stays: decided proposals with their decision and links, the recorded operations, and the references of every proposal.\<close>

definition carry_kept :: "'r carry_db \<Rightarrow> 'r carry_db \<Rightarrow> bool" where
  "carry_kept W X \<longleftrightarrow> carry_inv X
     \<and> (\<forall>i d. map_of (kd_Decisions W) i = Some d \<longrightarrow> map_of (kd_Decisions X) i = Some d \<and> map_of (kd_Proposals X) i = map_of (kd_Proposals W) i
          \<and> filter (\<lambda>l. ecl_ProposalID l = i) (map snd (kd_Links X)) = filter (\<lambda>l. ecl_ProposalID l = i) (map snd (kd_Links W)))
     \<and> (\<forall>o' v. map_of (kd_Operations W) o' = Some v \<longrightarrow> map_of (kd_Operations X) o' = Some v)
     \<and> (\<forall>i row. map_of (kd_Proposals W) i = Some row \<longrightarrow> kr_Status row \<noteq> EvidenceCarryoverOpen \<longrightarrow> map_of (kd_Proposals X) i = Some row)
     \<and> kd_Candidates X = kd_Candidates W"

lemma decided_carry_inv:
  assumes "decided E cmd p outcome kind q X Y" "map_of (kd_Proposals X) (ped_ProposalID cmd) = Some row"
    "kr_Status row = EvidenceCarryoverOpen" "outcome \<noteq> EvidenceCarryoverOpen" "ecp_ID p = ped_ProposalID cmd" "carry_inv X"
  shows "carry_inv Y"
proof -
  let ?i = "ped_ProposalID cmd" and ?d = "carryover_decision E cmd outcome (int64 (db_Clock (kd_Store X) + 1))"
  let ?links = "carryover_links E p ?d outcome"
  from assms(1) obtain h where fresh: "map_of (kd_Decisions X) ?i = None" "map_of (kd_Operations X) (ped_OperationID cmd) = None"
    and dec: "kd_Decisions Y = AList.update ?i ?d (kd_Decisions X)"
    and ops: "kd_Operations Y = AList.update (ped_OperationID cmd) (h, ?i) (kd_Operations X)"
    and links: "kd_Links Y = kd_Links X @ map (\<lambda>l. (ecl_ID l, l)) ?links"
    and close: "close_carryover ?i outcome (ecd_CreatedAt ?d) (kd_Proposals X) = Inr (kd_Proposals Y)"
    unfolding decided_def Let_def by blast
  note rows = close_carryover_lookup [OF close assms(2,3)]
  have d: "ecd_Outcome ?d = carryover_text outcome" "ecd_OperationID ?d = ped_OperationID cmd"
    by (simp_all add: carryover_decision_def)
  show ?thesis
    unfolding carry_inv_def
  proof (intro conjI allI impI ballI)
    fix i d' assume d': "map_of (kd_Decisions Y) i = Some d'"
    show "\<exists>row h. map_of (kd_Proposals Y) i = Some row \<and> kr_Status row \<noteq> EvidenceCarryoverOpen
        \<and> carryover_text (kr_Status row) = ecd_Outcome d' \<and> map_of (kd_Operations Y) (ecd_OperationID d') = Some (h, i)"
    proof (cases "i = ?i")
      case True
      with d' dec have "d' = ?d" by simp
      with True show ?thesis using assms(4) d by (simp add: rows ops)
    next
      case False
      with d' dec have "map_of (kd_Decisions X) i = Some d'" by simp
      then obtain row' h' where r: "map_of (kd_Proposals X) i = Some row'" "kr_Status row' \<noteq> EvidenceCarryoverOpen"
        "carryover_text (kr_Status row') = ecd_Outcome d'" "map_of (kd_Operations X) (ecd_OperationID d') = Some (h', i)"
        using assms(6) unfolding carry_inv_def by blast
      then have "ecd_OperationID d' \<noteq> ped_OperationID cmd" using fresh(2) by auto
      with False r show ?thesis by (simp add: rows ops)
    qed
  next
    fix x assume "x \<in> set (kd_Links Y)"
    then have "x \<in> set (kd_Links X) \<or> (\<exists>l \<in> set ?links. x = (ecl_ID l, l))" by (auto simp: links)
    then show "case x of (j, l) \<Rightarrow> map_of (kd_Decisions Y) (ecl_ProposalID l) \<noteq> None"
    proof
      assume "x \<in> set (kd_Links X)"
      then show ?thesis using assms(6) by (cases x) (auto simp: carry_inv_def dec)
    next
      assume "\<exists>l \<in> set ?links. x = (ecl_ID l, l)"
      then show ?thesis by (auto simp: dec carryover_links_def carryover_link_def assms(5) split: if_splits)
    qed
  qed
qed

lemma decided_carry_kept:
  assumes "decided E cmd p outcome kind q X Y" "map_of (kd_Proposals X) (ped_ProposalID cmd) = Some row"
    "kr_Status row = EvidenceCarryoverOpen" "outcome \<noteq> EvidenceCarryoverOpen" "ecp_ID p = ped_ProposalID cmd" "carry_kept W X"
  shows "carry_kept W Y"
proof -
  let ?i = "ped_ProposalID cmd" and ?d = "carryover_decision E cmd outcome (int64 (db_Clock (kd_Store X) + 1))"
  let ?links = "carryover_links E p ?d outcome"
  from assms(1) obtain h where fresh: "map_of (kd_Decisions X) ?i = None" "map_of (kd_Operations X) (ped_OperationID cmd) = None"
    and dec: "kd_Decisions Y = AList.update ?i ?d (kd_Decisions X)"
    and ops: "kd_Operations Y = AList.update (ped_OperationID cmd) (h, ?i) (kd_Operations X)"
    and links: "kd_Links Y = kd_Links X @ map (\<lambda>l. (ecl_ID l, l)) ?links"
    and close: "close_carryover ?i outcome (ecd_CreatedAt ?d) (kd_Proposals X) = Inr (kd_Proposals Y)"
    and cands: "kd_Candidates Y = kd_Candidates X"
    unfolding decided_def Let_def by blast
  note rows = close_carryover_lookup [OF close assms(2,3)]
  have inv: "carry_inv X" using assms(6) by (simp add: carry_kept_def)
  have mine: "l \<in> set ?links \<Longrightarrow> ecl_ProposalID l = ?i" for l
    by (auto simp: carryover_links_def carryover_link_def assms(5) split: if_splits)
  show ?thesis
    unfolding carry_kept_def
  proof (intro conjI allI impI)
    show "carry_inv Y" by (rule decided_carry_inv [OF assms(1-5) inv])
    show "kd_Candidates Y = kd_Candidates W" using assms(6) by (simp add: carry_kept_def cands)
    fix i d' assume d': "map_of (kd_Decisions W) i = Some d'"
    then have x: "map_of (kd_Decisions X) i = Some d'" "map_of (kd_Proposals X) i = map_of (kd_Proposals W) i"
      "filter (\<lambda>l. ecl_ProposalID l = i) (map snd (kd_Links X)) = filter (\<lambda>l. ecl_ProposalID l = i) (map snd (kd_Links W))"
      using assms(6) unfolding carry_kept_def by blast+
    then have ne: "i \<noteq> ?i" using fresh(1) by auto
    show "map_of (kd_Decisions Y) i = Some d'" using x ne by (simp add: dec)
    show "map_of (kd_Proposals Y) i = map_of (kd_Proposals W) i" using x ne by (simp add: rows)
    have "filter (\<lambda>l. ecl_ProposalID l = i) ?links = []" using mine ne by (auto simp: filter_empty_conv)
    then show "filter (\<lambda>l. ecl_ProposalID l = i) (map snd (kd_Links Y)) = filter (\<lambda>l. ecl_ProposalID l = i) (map snd (kd_Links W))"
      using x(3) by (simp add: links comp_def)
  next
    fix o' v assume "map_of (kd_Operations W) o' = Some v"
    then have "map_of (kd_Operations X) o' = Some v" using assms(6) unfolding carry_kept_def by blast
    then show "map_of (kd_Operations Y) o' = Some v" using fresh(2) by (auto simp: ops)
  next
    fix i row' assume "map_of (kd_Proposals W) i = Some row'" "kr_Status row' \<noteq> EvidenceCarryoverOpen"
    then have "map_of (kd_Proposals X) i = Some row'" "kr_Status row' \<noteq> EvidenceCarryoverOpen" using assms(6) unfolding carry_kept_def by blast+
    then show "map_of (kd_Proposals Y) i = Some row'" using assms(2,3) by (auto simp: rows)
  qed
qed

lemma carry_step_kept:
  assumes "carry_kept W X" "carry_step E space X c = Inr Y"
  shows "carry_kept W Y"
  using assms(2)
proof (cases rule: carry_step_cases)
  case (online d D)
  then show ?thesis using assms(1) by (simp add: carry_kept_def carry_inv_def)
next
  case (settled cmd p row outcome kind q)
  then show ?thesis using decided_carry_kept assms(1) by blast
qed (use assms(1) in simp)

interpretation carryovers: guarded_machine "carry_step E space" "carry_kept W"
  for E :: "'r carry_env" and space W
  by unfold_locales (rule carry_step_kept)

lemma decision_kept:
  assumes "DecideEvidenceCarryover E cmd X = (Inr q, X')" "\<not> ecp_Replayed q" "carry_inv X" "reaches (carry_step E space) X' Y"
  obtains p knowledge learning outdated outcome kind where
    "ke_knowledge E (db_Other (kd_Store X)) = Inr knowledge" "ke_learning E (db_Other (kd_Store X)) = Inr learning"
    "readEvidenceCarryover E X (ped_ProposalID cmd) = Inr p" "ecp_Status p = EvidenceCarryoverOpen" "\<not> ecp_Redacted p"
    "(outcome, kind) = carryover_outcome (ped_RequestedDecision cmd) outdated" "decided E cmd p outcome kind q X X'"
    "carry_kept X' Y" "ecp_ID p = ped_ProposalID cmd"
  using assms(1)
proof (cases rule: DecideEvidenceCarryover_cases)
  case (settled knowledge learning p outdated outcome kind q')
  have q: "q' = q" using settled(1) by simp
  obtain row where row: "map_of (kd_Proposals X) (ped_ProposalID cmd) = Some row" "kr_Status row = EvidenceCarryoverOpen"
    "ecp_ID p = ped_ProposalID cmd"
    by (rule readEvidenceCarryover_Inr [OF settled(4)]) (use settled(5) in simp)
  have "outcome \<noteq> EvidenceCarryoverOpen" using carryover_outcome_closed [OF settled(8)] by auto
  then have "carry_inv X'" using decided_carry_inv [OF settled(9) row(1,2) _ row(3) assms(3)] by blast
  then have "carry_kept X' X'" by (simp add: carry_kept_def)
  from carryovers.reaches_inv [OF assms(4) this] show thesis
    by (rule that [OF settled(2-6,8) settled(9) [unfolded q] _ row(3)])
qed (use assms(2) in simp_all)

text \<open>
  C21: A proposal is decided once: after a decision, and whatever operations follow, the proposal stays approved, rejected or
  stale as it was answered, with that decision, and any other operation that asks for a decision on it fails and changes nothing.
\<close>

theorem carryover_decided_once:
  assumes "DecideEvidenceCarryover E cmd X = (Inr q, X')" "\<not> ecp_Replayed q" "carry_inv X"
    and "reaches (carry_step E space) X' Y"
  shows "\<exists>row d. map_of (kd_Proposals Y) (ped_ProposalID cmd) = Some row \<and> kr_Status row = ecp_Status q
    \<and> ecp_Status q \<in> {EvidenceCarryoverApproved, EvidenceCarryoverRejected, EvidenceCarryoverStale}
    \<and> ecp_Decision q = Some d \<and> map_of (kd_Decisions Y) (ped_ProposalID cmd) = Some d \<and> ecd_OperationID d = ped_OperationID cmd
    \<and> (\<forall>other r Z. ped_ProposalID other = ped_ProposalID cmd \<longrightarrow> map_of (kd_Operations Y) (ped_OperationID other) = None
        \<longrightarrow> DecideEvidenceCarryover E other Y = (r, Z) \<longrightarrow> Z = Y \<and> isl r)"
  using assms
proof (rule decision_kept)
  fix p knowledge learning outdated outcome kind
  let ?i = "ped_ProposalID cmd" and ?d = "carryover_decision E cmd outcome (int64 (db_Clock (kd_Store X) + 1))"
  assume read: "readEvidenceCarryover E X ?i = Inr p" and st: "ecp_Status p = EvidenceCarryoverOpen"
    and ok: "(outcome, kind) = carryover_outcome (ped_RequestedDecision cmd) outdated"
    and done': "decided E cmd p outcome kind q X X'" and kept: "carry_kept X' Y"
  obtain row where row: "map_of (kd_Proposals X) ?i = Some row" "kr_Status row = EvidenceCarryoverOpen"
    by (rule readEvidenceCarryover_Inr [OF read]) (use st in simp)
  from done' have q: "ecp_Status q = outcome" "ecp_Decision q = Some ?d" and dec: "map_of (kd_Decisions X') ?i = Some ?d"
    and close: "close_carryover ?i outcome (ecd_CreatedAt ?d) (kd_Proposals X) = Inr (kd_Proposals X')"
    by (auto simp: decided_def Let_def)
  let ?row = "row\<lparr>kr_Status := outcome, kr_UpdatedAt := ecd_CreatedAt ?d\<rparr>"
  have "map_of (kd_Proposals X') ?i = Some ?row" using close_carryover_lookup [OF close row, of ?i] by simp
  then have now: "map_of (kd_Proposals Y) ?i = Some ?row" "map_of (kd_Decisions Y) ?i = Some ?d"
    using kept dec unfolding carry_kept_def by metis+
  have closed: "outcome \<in> {EvidenceCarryoverApproved, EvidenceCarryoverRejected, EvidenceCarryoverStale}"
    by (rule carryover_outcome_closed [OF ok])
  have refused: "Z = Y \<and> isl r" if other: "ped_ProposalID other = ?i" "map_of (kd_Operations Y) (ped_OperationID other) = None"
    "DecideEvidenceCarryover E other Y = (r, Z)" for other r Z
    using other(3)
  proof (cases rule: DecideEvidenceCarryover_cases)
    case (settled knowledge' learning' p' outdated' outcome' kind' q')
    have "ecp_Status p' = outcome"
      by (rule readEvidenceCarryover_Inr [OF settled(4) [unfolded other(1)]]) (use now(1) in simp)
    with settled(5) closed show ?thesis by auto
  qed (use other(2) in simp_all)
  show ?thesis
    using now closed q refused by (intro exI [of _ ?row] exI [of _ ?d]) (simp add: carryover_decision_def)
qed

text \<open>
  C22: A decision is answered alike ever after: its operation sent again, after any operations, gets the same proposal with the same
  decision, marked as a replay, the links now ordered by their identifiers, and nothing is written.
\<close>

theorem carryover_answered_again:
  assumes "DecideEvidenceCarryover E cmd X = (Inr q, X')" "\<not> ecp_Replayed q" "carry_inv X"
    and "reaches (carry_step E space) X' Y" "canonical_hash (ped_RequestHash cmd)"
    and "ke_knowledge E (db_Other (kd_Store Y)) = Inr g" "ke_learning E (db_Other (kd_Store Y)) = Inr h"
  shows "DecideEvidenceCarryover E cmd Y
    = (Inr (q\<lparr>ecp_Links := go_sort (\<lambda>a b. ecl_ID a < ecl_ID b) (ecp_Links q), ecp_Replayed := True\<rparr>), Y)"
  using assms(1-4)
proof (rule decision_kept)
  fix p knowledge learning outdated outcome kind
  let ?i = "ped_ProposalID cmd" and ?d = "carryover_decision E cmd outcome (int64 (db_Clock (kd_Store X) + 1))"
  let ?links = "carryover_links E p ?d outcome"
  assume read: "readEvidenceCarryover E X ?i = Inr p" and st: "ecp_Status p = EvidenceCarryoverOpen" "\<not> ecp_Redacted p"
    and done': "decided E cmd p outcome kind q X X'" and kept: "carry_kept X' Y" and i: "ecp_ID p = ?i"
  obtain row cs where row: "map_of (kd_Proposals X) ?i = Some row"
    and p: "p = (stored_proposal ?i row)\<lparr>ecp_Candidates := cs, ecp_Decision := readEvidenceCarryoverDecision X ?i (kr_Redacted row),
       ecp_Links := readEvidenceCarryoverLinks X ?i (kr_Redacted row)\<rparr>"
    and cs: "\<not> kr_Redacted row \<Longrightarrow>
       \<exists>h. validatedEvidenceCarryoverCandidates E X ?i (ecp_TargetKnowledgeRevisionID (stored_proposal ?i row)) = Inr (cs, h)"
    by (rule readEvidenceCarryover_row [OF read]) (rule that, assumption, assumption, blast)
  have open': "kr_Status row = EvidenceCarryoverOpen" "\<not> kr_Redacted row" using st by (simp_all add: p)
  from done' obtain bs where q: "q = p\<lparr>ecp_Status := outcome, ecp_Decision := Some ?d, ecp_Links := ?links, ecp_UpdatedAt := ecd_CreatedAt ?d\<rparr>"
    and fresh: "map_of (kd_Decisions X) ?i = None" and dec: "map_of (kd_Decisions X') ?i = Some ?d"
    and links: "kd_Links X' = kd_Links X @ map (\<lambda>l. (ecl_ID l, l)) ?links"
    and close: "close_carryover ?i outcome (ecd_CreatedAt ?d) (kd_Proposals X) = Inr (kd_Proposals X')"
    and hash: "decodeHash (ped_RequestHash cmd) = Some bs" "map_of (kd_Operations X') (ped_OperationID cmd) = Some (bs, ?i)"
    and cands: "kd_Candidates X' = kd_Candidates X"
    by (auto simp: decided_def Let_def)
  let ?row = "row\<lparr>kr_Status := outcome, kr_UpdatedAt := ecd_CreatedAt ?d\<rparr>"
  have "map_of (kd_Proposals X') ?i = Some ?row" using close_carryover_lookup [OF close row open'(1), of ?i] by simp
  then have now: "map_of (kd_Proposals Y) ?i = Some ?row" "map_of (kd_Decisions Y) ?i = Some ?d"
    "map_of (kd_Operations Y) (ped_OperationID cmd) = Some (bs, ?i)" "kd_Candidates Y = kd_Candidates X"
    "filter (\<lambda>l. ecl_ProposalID l = ?i) (map snd (kd_Links Y)) = filter (\<lambda>l. ecl_ProposalID l = ?i) (map snd (kd_Links X'))"
    using kept dec hash(2) cands unfolding carry_kept_def by metis+
  have "filter (\<lambda>l. ecl_ProposalID l = ?i) (map snd (kd_Links X)) = []"
    using assms(3) fresh by (fastforce simp: carry_inv_def filter_empty_conv)
  moreover have "filter (\<lambda>l. ecl_ProposalID l = ?i) ?links = ?links"
    by (auto simp: carryover_links_def carryover_link_def i intro!: filter_True)
  ultimately have mine: "filter (\<lambda>l. ecl_ProposalID l = ?i) (map snd (kd_Links Y)) = ?links"
    using now(5) by (simp add: links comp_def)
  have stored: "stored_proposal ?i ?row = (stored_proposal ?i row)\<lparr>ecp_Status := outcome, ecp_UpdatedAt := ecd_CreatedAt ?d\<rparr>"
    by (simp add: stored_proposal_def Let_def)
  obtain f where "validatedEvidenceCarryoverCandidates E Y ?i (ecp_TargetKnowledgeRevisionID (stored_proposal ?i row)) = Inr (cs, f)"
    using cs [OF open'(2)] by (auto simp: validatedEvidenceCarryoverCandidates_def now(4))
  then have again: "readEvidenceCarryover E Y ?i = Inr ((stored_proposal ?i ?row)\<lparr>ecp_Candidates := cs, ecp_Decision := Some ?d,
      ecp_Links := go_sort (\<lambda>a b. ecl_ID a < ecl_ID b) ?links\<rparr>)"
    using open'(2) by (simp add: readEvidenceCarryover_def now(1,2) stored readEvidenceCarryoverDecision_def readEvidenceCarryoverLinks_def mine)
  have "hex_encode bs = ped_RequestHash cmd" using decodeHash_canonical [OF assms(5)] hash(1) by auto
  then have "decide_carryover_body E cmd Y = Inr ((stored_proposal ?i ?row)\<lparr>ecp_Candidates := cs, ecp_Decision := Some ?d,
      ecp_Links := go_sort (\<lambda>a b. ecl_ID a < ecl_ID b) ?links, ecp_Replayed := True\<rparr>, Y)"
    using again by (simp add: decide_carryover_body_def assms(6,7) lookupEvidenceCarryoverOperation_def now(3) plain_def)
  then show ?thesis by (simp add: DecideEvidenceCarryover_def stored q p)
qed

section \<open>What an approval rests on\<close>

lemma not_stale:
  assumes "evidenceCarryoverIsStale E X p knowledge learning = Inr False"
  shows "ecp_KnowledgeGeneration p = knowledge \<and> ecp_LearningGeneration p = learning \<and> ecp_PolicyVersion p = EvidenceCarryoverPolicyVersion
    \<and> ecp_BasisFingerprint p = ComputeEvidenceCarryoverBasis E p
    \<and> ke_valid_target E (ecp_TargetKnowledgeRevisionID p) (ecp_KnowledgeProposalID p) (ecp_KnowledgeBasisHash p)
        (ecp_Candidates p) (db_Other (kd_Store X)) = Inr True
    \<and> source_reference_valid E X p
    \<and> validatedEvidenceCarryoverCandidates E X (ecp_ID p) (ecp_TargetKnowledgeRevisionID p) = Inr (ecp_Candidates p, ecp_CandidateFingerprint p)"
  using assms by (auto simp: evidenceCarryoverIsStale_def split: if_splits)

text \<open>
  C20: Evidence is carried over only while its basis stands: an approval was asked for, the proposal was open and of the current
  generations and policy with an intact fingerprint, the knowledge base confirmed its candidates, the evidence was accepted, not
  invalidated and still counted for the source node, and it is linked to exactly the candidates, each a different node revision.
\<close>

theorem carryover_approved_current:
  assumes "DecideEvidenceCarryover E cmd X = (Inr q, Y)" "\<not> ecp_Replayed q" "ecp_Status q = EvidenceCarryoverApproved"
  shows "\<exists>p. readEvidenceCarryover E X (ped_ProposalID cmd) = Inr p \<and> ecp_Status p = EvidenceCarryoverOpen \<and> \<not> ecp_Redacted p
    \<and> ped_RequestedDecision cmd = ''approve''
    \<and> ke_knowledge E (db_Other (kd_Store X)) = Inr (ecp_KnowledgeGeneration p)
    \<and> ke_learning E (db_Other (kd_Store X)) = Inr (ecp_LearningGeneration p)
    \<and> ecp_PolicyVersion p = EvidenceCarryoverPolicyVersion \<and> ecp_BasisFingerprint p = ComputeEvidenceCarryoverBasis E p
    \<and> ke_valid_target E (ecp_TargetKnowledgeRevisionID p) (ecp_KnowledgeProposalID p) (ecp_KnowledgeBasisHash p)
        (ecp_Candidates p) (db_Other (kd_Store X)) = Inr True
    \<and> source_reference_valid E X p \<and> ecp_Candidates p \<noteq> [] \<and> sorted_wrt (<) (map ecc_NodeRevisionID (ecp_Candidates p))
    \<and> map (\<lambda>l. (ecl_TargetKnowledgeRevisionID l, ecl_TargetNodeID l, ecl_TargetNodeRevisionID l, ecl_TargetDocumentRevisionID l)) (ecp_Links q)
        = map (\<lambda>c. (ecc_KnowledgeRevisionID c, ecc_NodeID c, ecc_NodeRevisionID c, ecc_DocumentRevisionID c)) (ecp_Candidates p)
    \<and> (\<forall>l \<in> set (ecp_Links q). ecl_SourceEvidenceID l = ecp_SourceEvidenceID p \<and> ecl_ProposalID l = ped_ProposalID cmd)"
  using assms(1)
proof (cases rule: DecideEvidenceCarryover_cases)
  case (settled knowledge learning p outdated outcome kind q')
  let ?d = "carryover_decision E cmd outcome (int64 (db_Clock (kd_Store X) + 1))"
  have q: "ecp_Status q = outcome" "ecp_Links q = carryover_links E p ?d outcome"
    using settled(1,9) by (auto simp: decided_def Let_def)
  have approve: "ped_RequestedDecision cmd = ''approve''" "\<not> outdated" "outcome = EvidenceCarryoverApproved"
    using settled(8) q(1) assms(3) by (auto simp: carryover_outcome_def split: if_splits)
  have ne: "ecp_Candidates p \<noteq> []" and "evidenceCarryoverIsStale E X p knowledge learning = Inr False"
    using settled(7) [OF approve(1)] approve(2) by auto
  note fresh = not_stale [OF this(2)]
  then have "sorted_wrt (<) (map ecc_NodeRevisionID (ecp_Candidates p))"
    unfolding validatedEvidenceCarryoverCandidates_def using NormalizeEvidenceCarryoverCandidates_Inr(4) by blast
  moreover have "ecp_ID p = ped_ProposalID cmd" by (rule readEvidenceCarryover_Inr [OF settled(4)])
  ultimately show ?thesis
    using settled(2-6) fresh ne approve q(2)
    by (intro exI [of _ p]) (auto simp: carryover_links_def carryover_link_def comp_def)
qed (use assms(2) in simp_all)

section \<open>The log\<close>

lemma decided_log:
  assumes "decided E cmd p outcome kind q X Y" "log_inv (kd_Store X)"
  shows "log_inv (kd_Store Y)" "prefix (db_Events (kd_Store X)) (db_Events (kd_Store Y))"
proof -
  let ?D = "kd_Store X" and ?F = "kd_Store Y" and ?k = "(''evidence_carryover'', ped_ProposalID cmd)"
  let ?seq = "int64 (db_Clock ?D + 1)"
  from assms(1) obtain e where e: "event_insertable (db_Events ?D) e" "db_Events ?F = db_Events ?D @ [e]"
    "le_EventSequence e = ?seq" "agg_key e = ?k" "le_AggregateVersion e = 1"
    and free: "map_of (db_Heads ?D) ?k = None" and heads: "db_Heads ?F = AList.update ?k 1 (db_Heads ?D)" and clock: "db_Clock ?F = ?seq"
    by (auto simp: decided_def Let_def carryover_learning_event_def carryover_decision_def)
  have inv: "numbered (map le_EventSequence (db_Events ?D))" "db_Clock ?D = int (length (db_Events ?D))" "in_int64 (db_Clock ?D)"
    "\<And>k. numbered (agg_versions k (db_Events ?D))" "\<And>k. head_version ?D k = int (length (agg_versions k (db_Events ?D)))"
    "\<And>k. in_int64 (head_version ?D k)"
    using assms(2) unfolding log_inv_def by blast+
  have "map le_EventSequence [e] = map (\<lambda>n. int64 (int64 (db_Clock ?D + 1) + int n)) [0..<1]"
    by (simp add: e(3) int64_range)
  note numbers = appended_numbers [OF this _ inv(3,2,1)]
  have pos: "\<forall>e' \<in> set [e]. 1 \<le> le_EventSequence e'" using event_insertable_positive [OF e(1)] by simp
  have next': "?seq = db_Clock ?D + 1" "in_int64 (db_Clock ?D + 1)" using numbers(3) [OF pos] e(3) by simp_all
  have none: "agg_versions ?k (db_Events ?D) = []" using inv(5) [of ?k] free by (simp add: head_version_def)
  have head: "head_version ?F k = (if k = ?k then 1 else head_version ?D k)" for k by (simp add: head_version_def heads)
  have own: "agg_versions k [e] = (if k = ?k then [1] else [])" for k using e(4,5) by (auto simp: agg_versions_def)
  have one: "numbered [1]" by (simp add: numbered_def)
  show "log_inv ?F"
    unfolding log_inv_def
  proof (intro conjI allI)
    fix k
    show "numbered (agg_versions k (db_Events ?F))"
      using none inv(4) [of k] one by (cases "k = ?k") (simp_all add: e(2) own del: agg_versions_simps(3))
    show "head_version ?F k = int (length (agg_versions k (db_Events ?F)))"
      using none inv(5) [of k] own [of k] by (simp add: e(2) head)
    show "in_int64 (head_version ?F k)" using inv(6) by (simp add: head in_int64_def)
  qed (use numbers(2) [OF pos] inv(2) clock next' in \<open>simp_all add: e(2)\<close>)
  show "prefix (db_Events ?D) (db_Events ?F)" by (simp add: e(2))
qed

lemma carry_step_log:
  assumes "grown D (kd_Store X)" "carry_step E space X c = Inr Y"
  shows "grown D (kd_Store Y)"
  using assms(2)
proof (cases rule: carry_step_cases)
  case (online d F)
  then show ?thesis using growing.step_inv [OF assms(1)] by simp
next
  case (settled cmd p row outcome kind q)
  have "log_inv (kd_Store X)" using assms(1) by (simp add: grown_def)
  from decided_log [OF settled(6) this] assms(1) show ?thesis by (auto simp: grown_def)
qed (use assms(1) in simp)

interpretation carry_log: guarded_machine "carry_step E space" "\<lambda>X. grown D (kd_Store X)"
  for E :: "'r carry_env" and space D
  by unfold_locales (rule carry_step_log)

lemma carry_log_kept:
  assumes "log_inv (kd_Store X)" "reaches (carry_step E space) X Y"
  shows "log_inv (kd_Store Y) \<and> prefix (db_Events (kd_Store X)) (db_Events (kd_Store Y))
    \<and> head_version (kd_Store X) k \<le> head_version (kd_Store Y) k"
proof -
  have "grown (kd_Store X) (kd_Store Y)"
    by (rule carry_log.reaches_inv [OF assms(2)]) (simp add: grown_def assms(1))
  then show ?thesis using grown_heads [OF assms(1)] by (simp add: grown_def)
qed

end
