(* ===== verification/Carryover_Example.thy ===== *)
theory Carryover_Example
  imports Carryover_Decided
begin

text \<open>An approval of a proposal with one candidate, evaluated in the kernel.\<close>

definition carry_candidate :: EvidenceCarryoverCandidate where
  "carry_candidate = \<lparr>ecc_KnowledgeRevisionID = ''k2'', ecc_NodeID = ''n'', ecc_NodeRevisionID = ''n2'', ecc_DocumentRevisionID = ''d2''\<rparr>"

definition carry_row :: carryover_row where
  "carry_row = \<lparr>kr_KnowledgeProposalID = ''kp'', kr_Status = EvidenceCarryoverOpen, kr_SourceEvidenceID = Some ''e'',
     kr_SourceKnowledgeRevisionID = Some ''k1'', kr_SourceNodeRevisionID = Some ''n1'', kr_TargetKnowledgeRevisionID = Some ''k2'',
     kr_KnowledgeBasis = [], kr_EvidenceFingerprint = [], kr_CandidateFingerprint = [], kr_BasisFingerprint = [],
     kr_KnowledgeGeneration = 1, kr_LearningGeneration = 1, kr_PolicyVersion = EvidenceCarryoverPolicyVersion,
     kr_CreatedAt = 0, kr_UpdatedAt = 0, kr_Redacted = False\<rparr>"

definition carry_start :: "unit carry_db" where
  "carry_start = \<lparr>kd_Store = empty_db, kd_Proposals = [(''p'', carry_row)], kd_Candidates = [(''p'', carry_candidate)],
     kd_Decisions = [], kd_Links = [], kd_Operations = []\<rparr>"

definition carry_payload :: EvidenceCarryoverEvent where
  "carry_payload = \<lparr>ece_ProposalID = ''p'', ece_DecisionID = ''d'', ece_RequestedDecision = ''approve'', ece_Outcome = ''approved'',
     ece_Reason = ''r'', ece_Provisional = Some \<lparr>pec_ProposalID = ''p'', pec_KnowledgeProposalID = ''kp'', pec_SourceEvidenceID = ''e'',
       pec_SourceKnowledgeRevisionID = ''k1'', pec_SourceNodeRevisionID = ''n1'', pec_TargetKnowledgeRevisionID = ''k2'',
       pec_Links = [\<lparr>ecl_ID = ''l'', ecl_ProposalID = ''p'', ecl_SourceEvidenceID = ''e'', ecl_TargetKnowledgeRevisionID = ''k2'',
         ecl_TargetNodeID = ''n'', ecl_TargetNodeRevisionID = ''n2'', ecl_TargetDocumentRevisionID = ''d2'', ecl_DecisionID = ''d'',
         ecl_EventID = ''e'', ecl_EventSequence = 1, ecl_CreatedAt = 0\<rparr>],
       pec_BasisFingerprint = [], pec_PolicyVersion = EvidenceCarryoverPolicyVersion, pec_ApprovedEventSequence = 1\<rparr>\<rparr>"

definition carry_world :: "unit carry_env" where
  "carry_world = \<lparr>ke_store = example_store\<lparr>se_events := store_codec\<lparr>cod_carryover := (\<lambda>_. Inr carry_payload)\<rparr>\<rparr>,
     ke_knowledge = (\<lambda>_. Inr 1), ke_learning = (\<lambda>_. Inr 1), ke_valid_target = (\<lambda>_ _ _ _ _. Inr True),
     ke_evidence = (\<lambda>_ _. Some (''k1'', ''n1'')), ke_hash_candidates = (\<lambda>_ _. Inr []), ke_hash_basis = (\<lambda>_. Inr []),
     ke_print_event = (\<lambda>_. Inr ''{}''), ke_link_uuid = (\<lambda>s. s)\<rparr>"

definition carry_approval :: PreparedEvidenceCarryoverDecision where
  "carry_approval = \<lparr>ped_OperationID = ''op'', ped_RequestHash = lesson_hash, ped_ProposalID = ''p'', ped_RequestedDecision = ''approve'',
     ped_Reason = ''r'', ped_ActorDeviceID = ''dev'', ped_DecisionID = ''d'', ped_DecidedAt = 0\<rparr>"

definition carry_event :: LearningEvent where
  "carry_event = carryover_learning_event carry_world ''p'' (carryover_decision carry_world carry_approval EvidenceCarryoverApproved 1)
     EventEvidenceCarryoverApproved ''{}''"

definition carry_end :: "unit db" where
  "carry_end = empty_db\<lparr>db_Heads := [((''evidence_carryover'', ''p''), 1)], db_Events := [carry_event], db_Clock := 1\<rparr>"

lemma carry_projected: "\<exists>D. project_commit (ke_store carry_world) 1 carry_end = Inr D"
proof -
  have "\<not> isl (project_commit (ke_store carry_world) 1 carry_end)" by code_simp
  then show ?thesis by (cases "project_commit (ke_store carry_world) 1 carry_end") simp_all
qed

lemma carry_read:
  "\<exists>p. readEvidenceCarryover carry_world carry_start ''p'' = Inr p \<and> ecp_Candidates p = [carry_candidate]
     \<and> ecp_Links p = [] \<and> ecp_Decision p = None
     \<and> p = (stored_proposal ''p'' carry_row)\<lparr>ecp_Candidates := [carry_candidate]\<rparr>"
  by (simp add: readEvidenceCarryover_def validatedEvidenceCarryoverCandidates_def NormalizeEvidenceCarryoverCandidates_def Let_def
      carry_start_def carry_row_def stored_proposal_def optionalStringValue_def carry_candidate_def candidate_complete_def
      readEvidenceCarryoverDecision_def readEvidenceCarryoverLinks_def carry_world_def)

lemma carry_decided:
  "\<exists>q Y. DecideEvidenceCarryover carry_world carry_approval carry_start = (Inr q, Y) \<and> ecp_Status q = EvidenceCarryoverApproved
     \<and> \<not> ecp_Replayed q"
proof -
  let ?E = carry_world and ?X = carry_start and ?cmd = carry_approval
  obtain p where p: "readEvidenceCarryover ?E ?X ''p'' = Inr p" "ecp_Candidates p = [carry_candidate]"
    "p = (stored_proposal ''p'' carry_row)\<lparr>ecp_Candidates := [carry_candidate]\<rparr>" using carry_read by blast
  have fields: "ecp_ID p = ''p''" "ecp_Status p = EvidenceCarryoverOpen" "\<not> ecp_Redacted p" "\<not> ecp_Replayed p"
    "ecp_KnowledgeGeneration p = 1" "ecp_LearningGeneration p = 1" "ecp_PolicyVersion p = EvidenceCarryoverPolicyVersion"
    "ecp_BasisFingerprint p = []" "ecp_CandidateFingerprint p = []" "ecp_SourceKnowledgeRevisionID p = ''k1''"
    "ecp_SourceNodeRevisionID p = ''n1''" "ecp_TargetKnowledgeRevisionID p = ''k2''"
    by (simp_all add: p(3) stored_proposal_def carry_row_def optionalStringValue_def Let_def hex_encode_def)
  have cands: "validatedEvidenceCarryoverCandidates ?E ?X ''p'' ''k2'' = Inr ([carry_candidate], [])"
    by (simp add: validatedEvidenceCarryoverCandidates_def NormalizeEvidenceCarryoverCandidates_def carry_start_def carry_candidate_def
        candidate_complete_def carry_world_def)
  have fresh: "evidenceCarryoverIsStale ?E ?X p 1 1 = Inr False"
  proof -
    have env: "ke_valid_target ?E a b c cs r = Inr True" "ke_evidence ?E a r = Some (''k1'', ''n1'')" "ke_hash_basis ?E b' = Inr []" for a b c cs r b'
      by (simp_all add: carry_world_def)
    show ?thesis
      using cands by (simp add: evidenceCarryoverIsStale_def fields p(2) ComputeEvidenceCarryoverBasis_def source_reference_valid_def env)
  qed
  have cmd: "ped_OperationID ?cmd = ''op''" "ped_RequestHash ?cmd = lesson_hash" "ped_ProposalID ?cmd = ''p''"
    "ped_RequestedDecision ?cmd = ''approve''" "ped_Reason ?cmd = ''r''"
    by (simp_all add: carry_approval_def)
  let ?d = "carryover_decision ?E ?cmd EvidenceCarryoverApproved 1"
  let ?links = "carryover_links ?E p ?d EvidenceCarryoverApproved"
  obtain D where d: "project_commit (ke_store ?E) 1 carry_end = Inr D" using carry_projected by blast
  have start: "kd_Store ?X = empty_db" "db_Clock empty_db = 0" "db_Heads empty_db = []" "db_Events empty_db = []" "kd_Decisions ?X = []"
    "kd_Links ?X = []" "kd_Operations ?X = []" "kd_Proposals ?X = [(''p'', carry_row)]"
    by (simp_all add: carry_start_def empty_db_def)
  have print: "ke_print_event ?E v = Inr ''{}''" "canonicalJSON (ke_store ?E) ''{}'' = Inr ''{}''" for v
    by (simp_all add: carry_world_def canonicalJSON_def example_store_def)
  have dec: "ecd_EventSequence ?d = 1" "ecd_CreatedAt ?d = 0" "ecd_Reason ?d = ''r''" "ecd_RequestedDecision ?d = ''approve''" "ecd_Outcome ?d = ''approved''"
    by (simp_all add: carryover_decision_def cmd) (simp add: carry_approval_def trunc_microsecond_def)
  have event: "append_carryover_event (carryover_learning_event ?E ''p'' ?d EventEvidenceCarryoverApproved ''{}'') empty_db = Inr carry_end"
    by (simp add: append_carryover_event_def event_insertable_def start carryover_learning_event_def carry_end_def carry_event_def dec)
  have links: "\<exists>rows. insert_carryover_links ?links [] = Inr rows"
    by (simp add: carryover_links_def p(2))
  have hash: "\<exists>bs. decodeHash lesson_hash = Some bs" using decodeHash_canonical [OF lesson_laws(2)] by blast
  have rows: "\<exists>rows. close_carryover ''p'' EvidenceCarryoverApproved 0 [(''p'', carry_row)] = Inr rows"
    by (simp add: close_carryover_def carry_row_def)
  obtain rows1 rows2 bs where r: "insert_carryover_links ?links [] = Inr rows1"
    "close_carryover ''p'' EvidenceCarryoverApproved 0 [(''p'', carry_row)] = Inr rows2" "decodeHash lesson_hash = Some bs"
    using links rows hash by blast
  have "\<exists>Y. appendEvidenceCarryoverDecision ?E p ?cmd EventEvidenceCarryoverApproved EvidenceCarryoverApproved ?X
      = Inr (p\<lparr>ecp_Status := EvidenceCarryoverApproved, ecp_Decision := Some ?d, ecp_Links := ?links, ecp_UpdatedAt := ecd_CreatedAt ?d\<rparr>, Y)"
    by (simp add: appendEvidenceCarryoverDecision_def Let_def start fields print event insert_carryover_decision_def
        insert_carryover_operation_def cmd r d dec int64_id in_int64_def)
  then obtain Y where y: "appendEvidenceCarryoverDecision ?E p ?cmd EventEvidenceCarryoverApproved EvidenceCarryoverApproved ?X
      = Inr (p\<lparr>ecp_Status := EvidenceCarryoverApproved, ecp_Decision := Some ?d, ecp_Links := ?links, ecp_UpdatedAt := ecd_CreatedAt ?d\<rparr>, Y)"
    by blast
  have gates: "ke_knowledge ?E r = Inr 1" "ke_learning ?E r = Inr 1" for r by (simp_all add: carry_world_def)
  have "decide_open_carryover ?E ?cmd 1 1 ?X
      = Inr (p\<lparr>ecp_Status := EvidenceCarryoverApproved, ecp_Decision := Some ?d, ecp_Links := ?links, ecp_UpdatedAt := ecd_CreatedAt ?d\<rparr>, Y)"
    by (simp add: decide_open_carryover_def cmd p(1,2) fields fresh carryover_outcome_def y)
  then show ?thesis
    by (simp add: DecideEvidenceCarryover_def decide_carryover_body_def gates lookupEvidenceCarryoverOperation_def start plain_def fields)
qed

lemma carry_start_inv: "carry_inv carry_start"
  by (simp add: carry_inv_def carry_start_def)

theorem carryover_approved_current_witness:
  "\<exists>q Y. DecideEvidenceCarryover carry_world carry_approval carry_start = (Inr q, Y) \<and> length (ecp_Links q) = 1"
proof -
  obtain q Y where q: "DecideEvidenceCarryover carry_world carry_approval carry_start = (Inr q, Y)"
    "ecp_Status q = EvidenceCarryoverApproved" "\<not> ecp_Replayed q" using carry_decided by blast
  obtain p where p: "readEvidenceCarryover carry_world carry_start ''p'' = Inr p" "ecp_Candidates p = [carry_candidate]"
    using carry_read by blast
  have i: "ped_ProposalID carry_approval = ''p''" by (simp add: carry_approval_def)
  obtain p' where p': "readEvidenceCarryover carry_world carry_start ''p'' = Inr p'"
    and m: "map (\<lambda>l. (ecl_TargetKnowledgeRevisionID l, ecl_TargetNodeID l, ecl_TargetNodeRevisionID l, ecl_TargetDocumentRevisionID l)) (ecp_Links q)
        = map (\<lambda>c. (ecc_KnowledgeRevisionID c, ecc_NodeID c, ecc_NodeRevisionID c, ecc_DocumentRevisionID c)) (ecp_Candidates p')"
    using carryover_approved_current [OF q(1,3,2)] unfolding i by (elim exE conjE)
  have "length (ecp_Links q) = length (ecp_Candidates p')" using arg_cong [OF m, of length] by simp
  with p p' q(1) show ?thesis by auto
qed

theorem carryover_decided_once_witness:
  "\<exists>q Y row. DecideEvidenceCarryover carry_world carry_approval carry_start = (Inr q, Y)
    \<and> map_of (kd_Proposals Y) ''p'' = Some row \<and> kr_Status row = EvidenceCarryoverApproved"
proof -
  obtain q Y where q: "DecideEvidenceCarryover carry_world carry_approval carry_start = (Inr q, Y)"
    "ecp_Status q = EvidenceCarryoverApproved" "\<not> ecp_Replayed q" using carry_decided by blast
  have i: "ped_ProposalID carry_approval = ''p''" by (simp add: carry_approval_def)
  obtain row where "map_of (kd_Proposals Y) ''p'' = Some row" "kr_Status row = ecp_Status q"
    using carryover_decided_once [OF q(1,3) carry_start_inv reaches.refl] unfolding i by (elim exE conjE)
  with q show ?thesis by auto
qed

theorem carryover_answered_again_witness:
  "\<exists>q p Y. DecideEvidenceCarryover carry_world carry_approval carry_start = (Inr q, Y)
    \<and> DecideEvidenceCarryover carry_world carry_approval Y = (Inr p, Y) \<and> ecp_Decision p = ecp_Decision q \<and> ecp_Replayed p"
proof -
  obtain q Y where q: "DecideEvidenceCarryover carry_world carry_approval carry_start = (Inr q, Y)"
    "ecp_Status q = EvidenceCarryoverApproved" "\<not> ecp_Replayed q" using carry_decided by blast
  have gates: "ke_knowledge carry_world r = Inr 1" "ke_learning carry_world r = Inr 1" for r by (simp_all add: carry_world_def)
  have "canonical_hash (ped_RequestHash carry_approval)" using lesson_laws(2) by (simp add: carry_approval_def)
  from carryover_answered_again [OF q(1,3) carry_start_inv reaches.refl this gates] q(1) show ?thesis
    by (intro exI [of _ q] exI [of _ "q\<lparr>ecp_Links := go_sort (\<lambda>a b. ecl_ID a < ecl_ID b) (ecp_Links q), ecp_Replayed := True\<rparr>"] exI [of _ Y]) simp
qed

end
